(* ===== verification/Prelude.thy ===== *)
theory Prelude
  imports Main "HOL-Library.Word" "HOL-Library.AList" "HOL-Library.Sublist"
begin

text \<open>
  The shared ground of the development: how the values of the TypeScript program are
  represented (strings as sequences of UTF-16 code units, \<open>Map\<close> and \<open>Set\<close> objects as
  insertion-ordered lists, thrown errors as the left summand of a sum), the library
  functions of JavaScript the source relies on (\<open>split\<close>, \<open>join\<close>, \<open>includes\<close>,
  \<open>Buffer.byteLength\<close>), and the generic lemmas the component theories use.
\<close>

named_theorems js_map_simps \<open>rewriting for insertion-ordered maps and sets\<close>
named_theorems js_text_simps \<open>rewriting for JavaScript text\<close>

section \<open>Results of fallible operations\<close>

type_synonym ('e, 'a) result = "'e + 'a"

definition and_then :: "('e, 'a) result \<Rightarrow> ('a \<Rightarrow> ('e, 'b) result) \<Rightarrow> ('e, 'b) result" where
  "and_then r f = (case r of Inl e \<Rightarrow> Inl e | Inr x \<Rightarrow> f x)"

lemma and_then_simps [simp]:
  "and_then (Inl e) f = Inl e"
  "and_then (Inr x) f = f x"
  by (simp_all add: and_then_def)

lemma and_then_Inr_iff: "and_then r f = Inr y \<longleftrightarrow> (\<exists>x. r = Inr x \<and> f x = Inr y)"
  by (cases r) auto

lemma and_then_Inl_iff: "and_then r f = Inl e \<longleftrightarrow> r = Inl e \<or> (\<exists>x. r = Inr x \<and> f x = Inl e)"
  by (cases r) auto

text \<open>A guard clause: \<open>if (bad) throw e\<close>.\<close>

definition throw_if :: "bool \<Rightarrow> 'e \<Rightarrow> ('e, unit) result" where
  "throw_if bad e = (if bad then Inl e else Inr ())"

lemma throw_if_simps [simp]:
  "throw_if True e = Inl e"
  "throw_if False e = Inr ()"
  by (simp_all add: throw_if_def)

lemma throw_if_Inr_iff [simp]: "throw_if bad e = Inr u \<longleftrightarrow> \<not> bad"
  by (simp add: throw_if_def)

lemma throw_if_Inl_iff [simp]: "throw_if bad e = Inl e' \<longleftrightarrow> bad \<and> e' = e"
  by (auto simp: throw_if_def)

section \<open>The nullish operators\<close>

text \<open>\<open>x ?? d\<close> on a value that may be \<open>undefined\<close>.\<close>

definition nullish :: "'a option \<Rightarrow> 'a \<Rightarrow> 'a" where
  "nullish x d = (case x of None \<Rightarrow> d | Some v \<Rightarrow> v)"

lemma nullish_simps [simp]: "nullish None d = d" "nullish (Some v) d = v"
  by (simp_all add: nullish_def)

text \<open>\<open>x ?? y\<close> where \<open>y\<close> may be \<open>undefined\<close> as well.\<close>

definition or_else :: "'a option \<Rightarrow> 'a option \<Rightarrow> 'a option" where
  "or_else x y = (case x of None \<Rightarrow> y | Some v \<Rightarrow> Some v)"

lemma or_else_simps [simp]:
  "or_else None y = y" "or_else (Some v) y = Some v" "or_else x None = x" "or_else x x = x"
  by (simp_all add: or_else_def split: option.splits)

text \<open>Truthiness of an optional flag: \<open>undefined\<close> and \<open>false\<close> are falsy.\<close>

definition truthy :: "bool option \<Rightarrow> bool" where
  "truthy b = (b = Some True)"

lemma truthy_simps [simp]: "truthy None = False" "truthy (Some b) = b"
  by (simp_all add: truthy_def)

section \<open>JavaScript text\<close>

text \<open>A JavaScript string is its sequence of 16-bit code units.\<close>

type_synonym js_string = "16 word list"

definition js :: "string \<Rightarrow> js_string" where
  "js s = map (\<lambda>c. of_char c) s"

lemma js_simps [simp]: "js [] = []" "js (c # cs) = of_char c # js cs"
  by (simp_all add: js_def)

lemma length_js [simp]: "length (js s) = length s"
  by (simp add: js_def)

lemma js_append [simp]: "js (a @ b) = js a @ js b"
  by (simp add: js_def)

text \<open>An optional text that is dropped when it is falsy: \<open>undefined\<close> or the empty string.\<close>

definition truthy_text :: "js_string option \<Rightarrow> js_string option" where
  "truthy_text t = (if t = Some [] then None else t)"

abbreviation NUL :: "16 word" where "NUL \<equiv> 0"
abbreviation LF :: "16 word" where "LF \<equiv> 10"
abbreviation CR :: "16 word" where "CR \<equiv> 13"

definition high_surrogate :: "16 word \<Rightarrow> bool" where
  "high_surrogate u \<longleftrightarrow> 0xD800 \<le> u \<and> u \<le> 0xDBFF"

definition low_surrogate :: "16 word \<Rightarrow> bool" where
  "low_surrogate u \<longleftrightarrow> 0xDC00 \<le> u \<and> u \<le> 0xDFFF"

text \<open>
  \<open>Buffer.byteLength(s)\<close>, the length of the UTF-8 encoding: a surrogate pair takes four
  bytes, a lone surrogate is encoded as the three bytes of U+FFFD.
\<close>

definition unit_bytes :: "16 word \<Rightarrow> nat" where
  "unit_bytes u = (if u < 0x80 then 1 else if u < 0x800 then 2 else 3)"

fun byteLength :: "js_string \<Rightarrow> nat" where
  "byteLength [] = 0"
| "byteLength [u] = unit_bytes u"
| "byteLength (u # v # us) =
     (if high_surrogate u \<and> low_surrogate v then 4 + byteLength us
      else unit_bytes u + byteLength (v # us))"

lemma unit_bytes_pos [simp]: "0 < unit_bytes u"
  by (simp add: unit_bytes_def)

lemma byteLength_pos: "s \<noteq> [] \<Longrightarrow> 0 < byteLength s"
  by (induction s rule: byteLength.induct) auto

lemma byteLength_0_iff [simp]: "byteLength s = 0 \<longleftrightarrow> s = []"
  using byteLength_pos by fastforce

text \<open>
  Text is cut only at code-unit boundaries that do not split a pair, where the byte length
  is additive.
\<close>

definition splits_pair :: "js_string \<Rightarrow> js_string \<Rightarrow> bool" where
  "splits_pair a b \<longleftrightarrow> a \<noteq> [] \<and> b \<noteq> [] \<and> high_surrogate (last a) \<and> low_surrogate (hd b)"

lemma not_both_surrogates: "high_surrogate u \<Longrightarrow> \<not> low_surrogate u"
proof
  assume "high_surrogate u" and "low_surrogate u"
  then have "(0xDC00 :: 16 word) \<le> 0xDBFF"
    unfolding high_surrogate_def low_surrogate_def using order_trans by blast
  then show False by simp
qed

lemma byteLength_append: "\<not> splits_pair a b \<Longrightarrow> byteLength (a @ b) = byteLength a + byteLength b"
proof (induction a rule: byteLength.induct)
  case 1
  then show ?case by simp
next
  case (2 u)
  then show ?case by (cases b) (auto simp: splits_pair_def)
next
  case (3 u v us)
  show ?case
  proof (cases "high_surrogate u \<and> low_surrogate v")
    case True
    have "\<not> splits_pair us b"
      using "3.prems" by (auto simp: splits_pair_def split: if_splits)
    with True "3.IH"(1) show ?thesis by simp
  next
    case False
    have "\<not> splits_pair (v # us) b"
      using "3.prems" by (auto simp: splits_pair_def)
    with False "3.IH"(2) show ?thesis by auto
  qed
qed

lemma splits_pair_units:
  "\<not> splits_pair [] b" "\<not> splits_pair a []"
  "\<not> low_surrogate u \<Longrightarrow> \<not> splits_pair a (u # b)"
  "\<not> high_surrogate u \<Longrightarrow> \<not> splits_pair (a @ [u]) b"
  by (auto simp: splits_pair_def)

lemma LF_not_surrogate [simp]: "\<not> low_surrogate LF" "\<not> high_surrogate LF"
  by (simp_all add: low_surrogate_def high_surrogate_def)

subsection \<open>Splitting and joining\<close>

text \<open>\<open>s.split(sep)\<close> for a one-unit separator: the empty string gives one empty part.\<close>

fun split_on :: "'a \<Rightarrow> 'a list \<Rightarrow> 'a list list" where
  "split_on sep [] = [[]]"
| "split_on sep (x # xs) =
     (if x = sep then [] # split_on sep xs
      else (case split_on sep xs of [] \<Rightarrow> [[x]] | p # ps \<Rightarrow> (x # p) # ps))"

text \<open>\<open>parts.join(sep)\<close>.\<close>

fun join_with :: "'a list \<Rightarrow> 'a list list \<Rightarrow> 'a list" where
  "join_with sep [] = []"
| "join_with sep [p] = p"
| "join_with sep (p # q # ps) = p @ sep @ join_with sep (q # ps)"

lemma split_on_nonempty [simp]: "split_on sep xs \<noteq> []"
  by (induction xs) (auto split: list.splits)

lemma join_split_on [js_text_simps]: "join_with [sep] (split_on sep xs) = xs"
proof (induction xs)
  case (Cons x xs)
  show ?case
  proof (cases "split_on sep xs")
    case Nil
    then show ?thesis by simp
  next
    case (Cons p ps)
    with Cons.IH show ?thesis by (cases ps) auto
  qed
qed simp

lemma split_on_no_sep [js_text_simps]: "p \<in> set (split_on sep xs) \<Longrightarrow> sep \<notin> set p"
proof (induction xs arbitrary: p)
  case (Cons x xs)
  then show ?case by (cases "split_on sep xs") (auto split: if_splits)
qed simp

lemma length_split_on [js_text_simps]: "length (split_on sep xs) = Suc (count_list xs sep)"
  by (induction xs) (auto split: list.splits)

lemma split_on_single_empty: "split_on sep xs = [[]] \<longleftrightarrow> xs = []"
  using join_split_on [of sep xs] by auto

lemma split_on_last_empty: "last (split_on sep xs) = [] \<longleftrightarrow> xs = [] \<or> last xs = sep"
proof (induction xs)
  case (Cons x xs)
  show ?case
  proof (cases "split_on sep xs")
    case Nil
    then show ?thesis by simp
  next
    case (Cons p ps)
    with Cons.IH split_on_single_empty [of sep xs] show ?thesis
      by (cases "xs = []"; cases "ps = []") auto
  qed
qed simp

subsection \<open>Searching\<close>

text \<open>\<open>hay.includes(needle)\<close>.\<close>

fun str_includes :: "'a list \<Rightarrow> 'a list \<Rightarrow> bool" where
  "str_includes [] needle = (needle = [])"
| "str_includes (x # xs) needle = (prefix needle (x # xs) \<or> str_includes xs needle)"

lemma includes_iff: "str_includes hay needle \<longleftrightarrow> (\<exists>a b. hay = a @ needle @ b)"
proof (induction hay)
  case (Cons x xs)
  have "(\<exists>a b. x # xs = a @ needle @ b) \<longleftrightarrow>
    prefix needle (x # xs) \<or> (\<exists>a b. xs = a @ needle @ b)" (is "?l \<longleftrightarrow> ?r")
  proof
    assume ?l
    then obtain a b where "x # xs = a @ needle @ b" by blast
    then show ?r by (cases a) (auto simp: prefix_def)
  next
    assume ?r
    then show ?l
      by (auto simp: prefix_def) (metis append.left_neutral, metis append_Cons)
  qed
  with Cons show ?case by simp
qed auto

section \<open>Insertion-ordered maps and sets\<close>

text \<open>
  A JavaScript \<open>Map\<close> iterates its entries in insertion order; \<open>set\<close> on a present key keeps
  the entry's place and on a new key appends. \<open>AList.update\<close> and \<open>AList.delete\<close> do exactly
  that on association lists.
\<close>

type_synonym ('k, 'v) js_map = "('k \<times> 'v) list"

abbreviation map_get :: "('k, 'v) js_map \<Rightarrow> 'k \<Rightarrow> 'v option" where
  "map_get m k \<equiv> map_of m k"

abbreviation map_set :: "('k, 'v) js_map \<Rightarrow> 'k \<Rightarrow> 'v \<Rightarrow> ('k, 'v) js_map" where
  "map_set m k v \<equiv> AList.update k v m"

abbreviation map_delete :: "('k, 'v) js_map \<Rightarrow> 'k \<Rightarrow> ('k, 'v) js_map" where
  "map_delete m k \<equiv> AList.delete k m"

abbreviation map_has :: "('k, 'v) js_map \<Rightarrow> 'k \<Rightarrow> bool" where
  "map_has m k \<equiv> map_of m k \<noteq> None"

abbreviation map_values :: "('k, 'v) js_map \<Rightarrow> 'v list" where
  "map_values m \<equiv> map snd m"

definition map_ok :: "('k, 'v) js_map \<Rightarrow> bool" where
  "map_ok m \<longleftrightarrow> distinct (map fst m)"

lemma map_get_set [js_map_simps, simp]:
  "map_get (map_set m k v) k' = (if k' = k then Some v else map_get m k')"
  by (simp add: update_conv')

lemma map_get_delete [js_map_simps, simp]:
  "map_get (map_delete m k) k' = (if k' = k then None else map_get m k')"
  by (simp add: delete_conv')

lemma map_ok_empty [simp]: "map_ok []"
  by (simp add: map_ok_def)

lemma map_ok_set [simp]: "map_ok m \<Longrightarrow> map_ok (map_set m k v)"
  by (simp add: map_ok_def distinct_update)

lemma map_ok_delete [simp]: "map_ok m \<Longrightarrow> map_ok (map_delete m k)"
  by (simp add: map_ok_def distinct_delete)

lemma length_map_set:
  "length (map_set m k v) = (if map_has m k then length m else Suc (length m))"
  by (induction m) auto

lemma length_map_delete:
  "map_ok m \<Longrightarrow> length (map_delete m k) = (if map_has m k then length m - 1 else length m)"
proof (induction m)
  case (Cons p m)
  obtain a b where p: "p = (a, b)" by (cases p)
  have mok: "map_ok m" using Cons.prems by (simp add: map_ok_def)
  show ?case
  proof (cases "a = k")
    case True
    then have "k \<notin> fst ` set m" using Cons.prems p by (simp add: map_ok_def)
    then have "map_delete m k = m" by (simp add: AList.delete_eq filter_id_conv) (force)
    with True p show ?thesis by (simp add: AList.delete_eq)
  next
    case False
    have "map_has m k \<Longrightarrow> 0 < length m" by (cases m) auto
    with False p Cons.IH [OF mok] show ?thesis by (auto simp: AList.delete_eq)
  qed
qed (simp add: AList.delete_eq)

lemma set_map_delete: "set (map_delete m k) = {p \<in> set m. fst p \<noteq> k}"
  by (auto simp: AList.delete_eq)

text \<open>Sums over the values, used for the byte budgets.\<close>

definition map_total :: "('k, int) js_map \<Rightarrow> int" where
  "map_total m = sum_list (map_values m)"

lemma map_total_empty [simp]: "map_total [] = 0"
  by (simp add: map_total_def)

lemma map_total_set [js_map_simps]:
  "map_total (map_set m k v) = map_total m - nullish (map_get m k) 0 + v"
  by (induction m) (auto simp: map_total_def)

lemma map_total_delete [js_map_simps]:
  "map_ok m \<Longrightarrow> map_total (map_delete m k) = map_total m - nullish (map_get m k) 0"
proof (induction m)
  case (Cons p m)
  obtain a b where p: "p = (a, b)" by (cases p)
  have mok: "map_ok m" using Cons.prems by (simp add: map_ok_def)
  show ?case
  proof (cases "a = k")
    case True
    then have "k \<notin> fst ` set m" using Cons.prems p by (simp add: map_ok_def)
    then have "map_delete m k = m" by (simp add: AList.delete_eq filter_id_conv) (force)
    with True p show ?thesis by (simp add: AList.delete_eq map_total_def)
  next
    case False
    with p Cons.IH [OF mok] show ?thesis by (simp add: AList.delete_eq map_total_def)
  qed
qed (simp add: AList.delete_eq)

subsection \<open>Sets\<close>

type_synonym 'a js_set = "'a list"

definition set_add :: "'a js_set \<Rightarrow> 'a \<Rightarrow> 'a js_set" where
  "set_add s x = (if x \<in> set s then s else s @ [x])"

definition set_delete :: "'a js_set \<Rightarrow> 'a \<Rightarrow> 'a js_set" where
  "set_delete s x = filter (\<lambda>y. y \<noteq> x) s"

lemma set_add_set [js_map_simps, simp]: "set (set_add s x) = insert x (set s)"
  by (auto simp: set_add_def)

lemma set_delete_set [js_map_simps, simp]: "set (set_delete s x) = set s - {x}"
  by (auto simp: set_delete_def)

lemma distinct_set_add [simp]: "distinct s \<Longrightarrow> distinct (set_add s x)"
  by (simp add: set_add_def)

lemma distinct_set_delete [simp]: "distinct s \<Longrightarrow> distinct (set_delete s x)"
  by (simp add: set_delete_def)

lemma length_set_add: "length (set_add s x) = (if x \<in> set s then length s else Suc (length s))"
  by (simp add: set_add_def)

lemma length_set_delete:
  "distinct s \<Longrightarrow> length (set_delete s x) = (if x \<in> set s then length s - 1 else length s)"
proof -
  assume "distinct s"
  then have "set_delete s x = remove1 x s"
    by (simp add: set_delete_def distinct_remove1_removeAll removeAll_filter_not_eq neq_commute)
  then show ?thesis by (simp add: length_remove1)
qed

lemma set_delete_add [js_map_simps]: "x \<notin> set s \<Longrightarrow> set_delete (set_add s x) x = s"
  by (auto simp: set_add_def set_delete_def filter_id_conv)

section \<open>Runs of a state machine\<close>

text \<open>
  The interface every stateful component is checked against: one step for each event, and
  an invariant each step keeps. What follows for whole runs is proved once.
\<close>

locale invariant_system =
  fixes step :: "'s \<Rightarrow> 'e \<Rightarrow> 's"
    and enabled :: "'s \<Rightarrow> 'e \<Rightarrow> bool"
    and inv :: "'s \<Rightarrow> bool"
  assumes step_inv: "inv s \<Longrightarrow> enabled s e \<Longrightarrow> inv (step s e)"
begin

fun run :: "'s \<Rightarrow> 'e list \<Rightarrow> 's" where
  "run s [] = s"
| "run s (e # es) = run (step s e) es"

fun run_enabled :: "'s \<Rightarrow> 'e list \<Rightarrow> bool" where
  "run_enabled s [] = True"
| "run_enabled s (e # es) = (enabled s e \<and> run_enabled (step s e) es)"

lemma run_inv: "inv s \<Longrightarrow> run_enabled s es \<Longrightarrow> inv (run s es)"
  by (induction es arbitrary: s) (auto intro: step_inv)

lemma run_append: "run s (es @ fs) = run (run s es) fs"
  by (induction es arbitrary: s) auto

lemma run_enabled_append:
  "run_enabled s (es @ fs) \<longleftrightarrow> run_enabled s es \<and> run_enabled (run s es) fs"
  by (induction es arbitrary: s) auto

end

end
