(* ===== verification/Types.thy ===== *)
theory Types
  imports Prelude
begin

text \<open>
  The data of the daemon (\<open>src/daemon/types.ts\<close>, \<open>limits.ts\<close>, \<open>errors.ts\<close>): unions of string
  literals as datatypes, interfaces as records, optional properties as options. A field
  whose name occurs in several interfaces, or is reserved, is renamed with its interface. Numbers the
  code validates as non-negative safe integers are \<open>nat\<close>; exit codes, which it takes from
  the worker unchecked, are \<open>int\<close>.
\<close>

section \<open>Platforms and time\<close>

text \<open>\<open>process.platform\<close>.\<close>

datatype platform = Linux | Darwin | Win32 | OtherPlatform

text \<open>
  A timestamp string is known by the value \<open>Date.parse\<close> gives for it: the milliseconds
  since the epoch, or nothing where the result is \<open>NaN\<close>. \<open>toISOString\<close> builds a string that
  parses back to the instant. Comparisons are JavaScript's: false when a side is \<open>NaN\<close>.
\<close>

datatype timestamp = Timestamp (date_parse: "int option")

definition toISOString :: "int \<Rightarrow> timestamp" where
  "toISOString t = Timestamp (Some t)"

lemma date_parse_toISOString [simp]: "date_parse (toISOString t) = Some t"
  by (simp add: toISOString_def)

instantiation timestamp :: ord
begin

definition less_eq_timestamp :: "timestamp \<Rightarrow> timestamp \<Rightarrow> bool" where
  "less_eq_timestamp a b =
     (case (date_parse a, date_parse b) of (Some x, Some y) \<Rightarrow> x \<le> y | _ \<Rightarrow> False)"

definition less_timestamp :: "timestamp \<Rightarrow> timestamp \<Rightarrow> bool" where
  "less_timestamp a b =
     (case (date_parse a, date_parse b) of (Some x, Some y) \<Rightarrow> x < y | _ \<Rightarrow> False)"

instance ..

end

lemma timestamp_less_iff:
  "a < b \<longleftrightarrow> (\<exists>x y. date_parse a = Some x \<and> date_parse b = Some y \<and> x < y)"
  by (auto simp: less_timestamp_def split: option.splits)

lemma timestamp_le_iff:
  "a \<le> b \<longleftrightarrow> (\<exists>x y. date_parse a = Some x \<and> date_parse b = Some y \<and> x \<le> y)"
  by (auto simp: less_eq_timestamp_def split: option.splits)

section \<open>Constants\<close>

definition DAEMON_PROTOCOL_VERSION :: nat where "DAEMON_PROTOCOL_VERSION = 8"
definition OUTPUT_JOURNAL_VERSION :: nat where "OUTPUT_JOURNAL_VERSION = 2"
definition SESSION_RECORD_VERSION :: nat where "SESSION_RECORD_VERSION = 2"
definition MAX_EXEC_RUNTIME_SECONDS :: nat where "MAX_EXEC_RUNTIME_SECONDS = 3600"
definition MAX_EXEC_WAIT_SECONDS :: nat where
  "MAX_EXEC_WAIT_SECONDS = MAX_EXEC_RUNTIME_SECONDS + 5"
definition NATIVE_WORKER_PROTOCOL_VERSION :: nat where "NATIVE_WORKER_PROTOCOL_VERSION = 5"

section \<open>Errors\<close>

text \<open>The codes of \<open>DaemonError\<close>, and the other errors the modelled operations throw.\<close>

datatype DaemonErrorCode = E_authorization | E_limit | E_not_found | E_session_closed

datatype daemon_error =
    DaemonError string DaemonErrorCode
  | ValidationError string
  | PlainError string

section \<open>Evidence about the process\<close>

datatype cleanup_method = M_shutdown | M_rollback | M_kill | M_none

record SpawnCleanup =
  sc_requested :: bool
  sc_terminationConfirmed :: bool
  sc_method :: cleanup_method
  sc_directChildStarted :: "bool option"
  sc_directChildPid :: "nat option"
  sc_message :: "js_string option"

datatype ExitReason =
    Exit_code int
  | Exit_signal js_string
  | Exit_timeout "js_string option"
  | Exit_stopped
  | Exit_spawn_error js_string "SpawnCleanup option"
  | Exit_output_limit "js_string option"
  | Exit_unknown "js_string option"

datatype DaemonStatus =
  St_starting | St_running | St_stopping | St_exited | St_timed_out | St_lost
  | St_spawn_failed | St_output_limited

datatype containment_platform =
  Linux_proc | Windows_job | Posix_verification_unavailable | Platform_not_applicable

datatype containment_status =
    Posix_best_effort_empty | Posix_processes_remaining | Posix_escape_observed
  | Posix_containment_unknown | Windows_job_empty | Windows_job_processes_remaining
  | Windows_job_unknown | Containment_not_applicable

record ContainmentReport =
  co_platform :: containment_platform
  co_status :: containment_status
  co_rootPid :: nat
  co_processGroupId :: "nat option"
  co_sessionId :: "nat option"
  co_rootStartIdentity :: js_string
  co_rootIdentityVerified :: bool
  co_observedGroupPids :: "nat list"
  co_observedSessionPids :: "nat list"
  co_observedEscapedDescendantPids :: "nat list"
  co_observedEscapedDescendants :: "(nat \<times> js_string) list option"
  co_verifiedAt :: timestamp

record TerminationResult =
  tr_requested :: bool
  tr_termSignalSent :: bool
  tr_killSignalSent :: bool
  tr_rootExited :: bool
  tr_directChildExited :: bool
  tr_containment :: ContainmentReport

datatype exit_signal = Signal_number nat | Signal_name js_string

datatype ExecutionMode = Mode_pty | Mode_exec
datatype SessionLifecycle = Conversation | Persistent

datatype environment_kind = Env_safe | Env_inherit

record EnvironmentProfile =
  env_kind :: environment_kind
  env_keys :: "js_string list"
  env_fingerprint :: js_string
  env_sensitive :: bool

datatype WaitCondition =
    Wait_exit
  | Wait_output "js_string option" "js_string option" "nat option"

datatype wait_reason = By_output | By_exit | By_deadline

record WaitResult =
  wr_satisfied :: bool
  wr_reason :: wait_reason
  wr_observedAt :: timestamp
  wr_matched :: "js_string option"
  wr_exitCode :: "int option"
  wr_exitSignal :: "exit_signal option"
  wr_outputTruncated :: bool
  wr_containment :: "ContainmentReport option"
  wr_termination :: "TerminationResult option"

record ExecOutput =
  eo_stdout :: js_string
  eo_stderr :: js_string
  eo_stdoutBytes :: nat
  eo_stderrBytes :: nat
  eo_stdoutTruncated :: bool
  eo_stderrTruncated :: bool
  eo_containment :: "ContainmentReport option"
  eo_termination :: "TerminationResult option"

record WorkerReference =
  wk_pid :: nat
  wk_startIdentity :: js_string
  wk_processIdentity :: js_string
  wk_endpoint :: js_string
  wk_tokenFingerprint :: "js_string option"
  wk_protocolVersion :: nat
  wk_executable :: "js_string option"

record WorkerPrestartAuthority =
  pa_workerId :: js_string
  pa_tokenFingerprint :: js_string
  pa_protocolVersion :: nat

section \<open>The lifecycle state of a session\<close>

datatype SessionStateTarget = T_creating | T_running | T_stopping | T_terminal | T_unreachable

datatype legacy_version = V0 | V1

record LegacyTombstone =
  lt_sourceRecordVersion :: legacy_version
  lt_lastKnown :: SessionStateTarget

datatype StreamDrain = Drained | Drain_unknown

datatype TerminalSessionOutcome = Exited | Timed_out | Spawn_failed | Output_limited

text \<open>The \<open>legacy\<close> object of the evidence; \<open>outputCleanupPending\<close> is either absent or \<open>true\<close>.\<close>

record LegacyEvidence =
  lg_tombstone :: "LegacyTombstone option"
  lg_outputCleanupPending :: bool

record SessionStateEvidence =
  ev_pid :: nat
  ev_directExited :: "bool option"
  ev_startedAt :: "timestamp option"
  ev_exitedAt :: "timestamp option"
  ev_timedOut :: bool
  ev_requested :: bool
  ev_confirmed :: bool
  ev_result :: "TerminationResult option"
  ev_containment :: "ContainmentReport option"
  ev_exitCode :: "int option"
  ev_exitSignal :: "exit_signal option"
  ev_exitReason :: "ExitReason option"
  ev_worker :: "WorkerReference option"
  ev_prestart :: "WorkerPrestartAuthority option"
  ev_startAttempted :: "bool option"
  ev_streamDrain :: StreamDrain
  ev_execOutput :: "ExecOutput option"
  ev_storageFailure :: "js_string option"
  ev_diagnostics :: "js_string list option"
  ev_lastWaitResult :: "WaitResult option"
  ev_legacy :: "LegacyEvidence option"

record TerminalSessionPayload =
  tp_outcome :: TerminalSessionOutcome
  tp_evidence :: SessionStateEvidence

text \<open>
  The union \<open>SessionState\<close> is its evidence together with the variant selected by \<open>kind\<close>. The
  optional \<open>outcome\<close>, \<open>lastKnown\<close> and \<open>terminal\<close> of the variant \<open>cleaning\<close> go with the
  target they belong to: every constructor of the source builds \<open>outcome\<close> exactly for
  target \<open>terminal\<close> and \<open>lastKnown\<close> exactly for target \<open>unreachable\<close>, and \<open>validV2State\<close>
  refuses any stored state of another shape.
\<close>

datatype CleaningTarget =
    To_creating
  | To_running
  | To_stopping
  | To_terminal TerminalSessionOutcome
  | To_unreachable SessionStateTarget "TerminalSessionPayload option"

datatype StateKind =
    Creating
  | Running
  | Stopping
  | Terminal TerminalSessionOutcome
  | Unreachable SessionStateTarget "TerminalSessionPayload option"
  | Cleaning CleaningTarget

record SessionState =
  state_evidence :: SessionStateEvidence
  state_kind :: StateKind

section \<open>Session records\<close>

text \<open>
  \<open>LifecycleProjection\<close> is the part of a session record that mirrors its state; the record
  type extends it with the session's identity, its specification and its journal cursors.
\<close>

record LifecycleProjection =
  status :: DaemonStatus
  pid :: nat
  startedAt :: "timestamp option"
  exitedAt :: "timestamp option"
  timedOut :: bool
  terminationRequested :: bool
  terminationConfirmed :: bool
  pendingCleanup :: "bool option"
  directChildExited :: "bool option"
  exitCode :: "int option"
  exitSignal :: "exit_signal option"
  exitReason :: "ExitReason option"
  worker :: "WorkerReference option"
  workerPrestart :: "WorkerPrestartAuthority option"
  workerStartAttempted :: "bool option"
  containment :: "ContainmentReport option"
  terminationResult :: "TerminationResult option"
  execOutput :: "ExecOutput option"
  storageFailure :: "js_string option"
  diagnostics :: "js_string list option"
  lastWaitResult :: "WaitResult option"
  legacyTombstone :: "LegacyTombstone option"
  legacyOutputCleanupPending :: "bool option"
  streamDrain :: "StreamDrain option"
  lastKnown :: "SessionStateTarget option"

record SessionRecord = LifecycleProjection +
  session_id :: js_string
  title :: js_string
  description :: "js_string option"
  command :: js_string
  args :: "js_string list"
  mode :: ExecutionMode
  session_name :: "js_string option"
  idempotencyKey :: "js_string option"
  workdir :: js_string
  ownerProjectDirectory :: js_string
  ownerCapabilityHash :: js_string
  lifecycle :: SessionLifecycle
  environment :: EnvironmentProfile
  state :: SessionState
  createdAt :: timestamp
  lastOutputAt :: "timestamp option"
  updatedAt :: timestamp
  parentSessionId :: js_string
  parentAgent :: "js_string option"
  timeoutSeconds :: "nat option"
  nextSequence :: nat
  firstRetainedSequence :: nat
  outputBytes :: nat
  outputLimitBytes :: "nat option"
  outputTruncated :: bool
  lineCount :: nat
  outputHasPartialLine :: bool
  outputJournalVersion :: nat

record OutputChunk =
  ch_startSequence :: nat
  ch_endSequence :: nat
  ch_timestamp :: timestamp
  ch_data :: js_string

section \<open>Limits\<close>

record SessionLimits =
  maxActiveSessions :: nat
  maxRecordsPerOwner :: nat
  maxRecords :: nat
  maxPendingWaitsPerSession :: nat
  maxPendingWaitsPerOwner :: nat
  maxPendingWaits :: nat
  maxQueuedInputBytesPerSession :: nat
  maxQueuedInputBytesPerOwner :: nat
  maxQueuedInputBytes :: nat
  maxRetainedOutputBytesPerOwner :: nat
  maxRetainedOutputBytes :: nat
  terminalRetentionSeconds :: nat

definition MAX_OUTPUT_BYTES :: nat where "MAX_OUTPUT_BYTES = 64 * 1024 * 1024"
definition DEFAULT_MAX_OUTPUT_BYTES :: nat where "DEFAULT_MAX_OUTPUT_BYTES = 1000000"
definition DEFAULT_MAX_SESSIONS_PER_OWNER :: nat where "DEFAULT_MAX_SESSIONS_PER_OWNER = 32"

definition DEFAULT_SESSION_LIMITS :: SessionLimits where
  "DEFAULT_SESSION_LIMITS =
     \<lparr> maxActiveSessions = 64,
       maxRecordsPerOwner = 64,
       maxRecords = 128,
       maxPendingWaitsPerSession = 8,
       maxPendingWaitsPerOwner = 32,
       maxPendingWaits = 128,
       maxQueuedInputBytesPerSession = 64 * 1024,
       maxQueuedInputBytesPerOwner = 256 * 1024,
       maxQueuedInputBytes = 1024 * 1024,
       maxRetainedOutputBytesPerOwner = 64 * 1024 * 1024,
       maxRetainedOutputBytes = 128 * 1024 * 1024,
       terminalRetentionSeconds = 24 * 60 * 60 \<rparr>"

text \<open>
  \<open>Number.parseInt(value, 10)\<close>: leading white space, an optional sign, then the longest run
  of digits; \<open>NaN\<close> (here \<open>None\<close>) when there is none.
\<close>

definition js_space :: "16 word \<Rightarrow> bool" where
  "js_space u \<longleftrightarrow> u \<in> {9, 10, 11, 12, 13, 32, 0xA0, 0x1680, 0x2028, 0x2029, 0x202F, 0x205F, 0x3000, 0xFEFF}
     \<or> (0x2000 \<le> u \<and> u \<le> 0x200A)"

definition is_digit :: "16 word \<Rightarrow> bool" where
  "is_digit u \<longleftrightarrow> 48 \<le> u \<and> u \<le> 57"

definition digit_value :: "16 word \<Rightarrow> nat" where
  "digit_value u = unat u - 48"

definition digits_value :: "js_string \<Rightarrow> nat" where
  "digits_value ds = foldl (\<lambda>n d. 10 * n + digit_value d) 0 ds"

definition parseInt :: "js_string \<Rightarrow> int option" where
  "parseInt s =
     (let t = dropWhile js_space s;
          negative = (t \<noteq> [] \<and> hd t = 45);
          body = (if t \<noteq> [] \<and> (hd t = 45 \<or> hd t = 43) then tl t else t);
          digits = takeWhile is_digit body
      in if digits = [] then None
         else Some (if negative then - int (digits_value digits) else int (digits_value digits)))"

definition MAX_SAFE_INTEGER :: int where "MAX_SAFE_INTEGER = 9007199254740991"

definition isSafeInteger :: "int \<Rightarrow> bool" where
  "isSafeInteger n \<longleftrightarrow> \<bar>n\<bar> \<le> MAX_SAFE_INTEGER"

definition effectiveMaxOutputBytes :: "js_string option \<Rightarrow> nat" where
  "effectiveMaxOutputBytes value =
     (case parseInt (nullish value []) of
        None \<Rightarrow> DEFAULT_MAX_OUTPUT_BYTES
      | Some parsed \<Rightarrow>
          if isSafeInteger parsed \<and> parsed > 0 then min (nat parsed) MAX_OUTPUT_BYTES
          else DEFAULT_MAX_OUTPUT_BYTES)"

lemma effectiveMaxOutputBytes_bounds:
  "0 < effectiveMaxOutputBytes v \<and> effectiveMaxOutputBytes v \<le> MAX_OUTPUT_BYTES"
  by (auto simp: effectiveMaxOutputBytes_def MAX_OUTPUT_BYTES_def DEFAULT_MAX_OUTPUT_BYTES_def
      split: option.splits)

section \<open>A sample session\<close>

text \<open>A session that has just been created, for the concrete instances of the theorems.\<close>

definition fresh_evidence :: SessionStateEvidence where
  "fresh_evidence =
     \<lparr> ev_pid = 0, ev_directExited = None, ev_startedAt = None, ev_exitedAt = None,
       ev_timedOut = False, ev_requested = False, ev_confirmed = False, ev_result = None,
       ev_containment = None, ev_exitCode = None, ev_exitSignal = None, ev_exitReason = None,
       ev_worker = None, ev_prestart = None, ev_startAttempted = None,
       ev_streamDrain = Drain_unknown, ev_execOutput = None, ev_storageFailure = None,
       ev_diagnostics = None, ev_lastWaitResult = None, ev_legacy = None \<rparr>"

definition drained_report :: ContainmentReport where
  "drained_report =
     \<lparr> co_platform = Linux_proc, co_status = Posix_best_effort_empty, co_rootPid = 42,
       co_processGroupId = Some 42, co_sessionId = Some 42, co_rootStartIdentity = js ''7'',
       co_rootIdentityVerified = True, co_observedGroupPids = [], co_observedSessionPids = [],
       co_observedEscapedDescendantPids = [], co_observedEscapedDescendants = None,
       co_verifiedAt = toISOString 5 \<rparr>"

definition exited_evidence :: SessionStateEvidence where
  "exited_evidence = fresh_evidence
     \<lparr> ev_pid := 42, ev_directExited := Some True, ev_startedAt := Some (toISOString 1),
       ev_exitedAt := Some (toISOString 5), ev_confirmed := True, ev_containment := Some drained_report,
       ev_exitCode := Some 0, ev_exitReason := Some (Exit_code 0), ev_streamDrain := Drained \<rparr>"

definition sample_record :: SessionRecord where
  "sample_record =
     \<lparr> status = St_starting, pid = 0, startedAt = None, exitedAt = None, timedOut = False,
       terminationRequested = False, terminationConfirmed = False, pendingCleanup = None,
       directChildExited = None, exitCode = None, exitSignal = None, exitReason = None,
       worker = None, workerPrestart = None, workerStartAttempted = None, containment = None,
       terminationResult = None, execOutput = None, storageFailure = None, diagnostics = None,
       lastWaitResult = None, legacyTombstone = None, legacyOutputCleanupPending = None,
       streamDrain = Some Drain_unknown, lastKnown = None,
       session_id = js ''pty_1'', title = js ''build'', description = None, command = js ''make'',
       args = [js ''all''], mode = Mode_pty, session_name = None, idempotencyKey = None,
       workdir = js ''/w'', ownerProjectDirectory = js ''/w'', ownerCapabilityHash = js ''ab'',
       lifecycle = Conversation,
       environment = \<lparr> env_kind = Env_safe, env_keys = [], env_fingerprint = js ''f'', env_sensitive = False \<rparr>,
       state = \<lparr> state_evidence = fresh_evidence, state_kind = Creating \<rparr>,
       createdAt = toISOString 0, lastOutputAt = None, updatedAt = toISOString 0,
       parentSessionId = js ''ses_1'', parentAgent = None, timeoutSeconds = None,
       nextSequence = 0, firstRetainedSequence = 0, outputBytes = 0, outputLimitBytes = Some 1000,
       outputTruncated = False, lineCount = 0, outputHasPartialLine = False, outputJournalVersion = 2 \<rparr>"

end
