(* ===== verification/Lifecycle.thy ===== *)
theory Lifecycle
  imports Types
begin

text \<open>
  The session state machine of \<open>src/daemon/lifecycle.ts\<close>: the reducer over lifecycle
  events, the projection of a state onto the flat record, the refresh of a state from the
  record, and the import of a flat record. \<open>process.platform\<close> is the argument \<open>pf\<close>.
\<close>

section \<open>Definitions\<close>

datatype LifecycleEvent =
    Worker_ready
  | Stop_requested
  | Child_exited
  | Event_timed_out
  | Event_output_limited
  | Event_spawn_failed
  | Event_unreachable
  | Recovered

datatype lifecycle_error = Invalid_transition

type_synonym LifecycleReduction = "(lifecycle_error, DaemonStatus) result"
type_synonym SessionStateReduction = "(lifecycle_error, SessionState) result"

definition evidenceFromState :: "SessionState \<Rightarrow> SessionStateEvidence" where
  "evidenceFromState st = state_evidence st"

text \<open>\<open>{ ...evidence, kind, ... }\<close>.\<close>

definition with_kind :: "SessionStateEvidence \<Rightarrow> StateKind \<Rightarrow> SessionState" where
  "with_kind ev k = \<lparr> state_evidence = ev, state_kind = k \<rparr>"

definition terminalPayload :: "SessionState \<Rightarrow> TerminalSessionPayload option" where
  "terminalPayload st =
     (case state_kind st of
        Terminal oc \<Rightarrow> Some \<lparr> tp_outcome = oc, tp_evidence = evidenceFromState st \<rparr>
      | Cleaning (To_terminal oc) \<Rightarrow>
          Some \<lparr> tp_outcome = oc, tp_evidence = evidenceFromState st \<rparr>
      | Unreachable _ payload \<Rightarrow> payload
      | Cleaning (To_unreachable _ payload) \<Rightarrow> payload
      | _ \<Rightarrow> None)"

definition lastKnownOf :: "SessionState \<Rightarrow> SessionStateTarget" where
  "lastKnownOf st =
     (case state_kind st of
        Cleaning tgt \<Rightarrow>
          (case tgt of
             To_unreachable lk _ \<Rightarrow> lk
           | To_creating \<Rightarrow> T_creating
           | To_running \<Rightarrow> T_running
           | To_stopping \<Rightarrow> T_stopping
           | To_terminal _ \<Rightarrow> T_terminal)
      | Creating \<Rightarrow> T_creating
      | Running \<Rightarrow> T_running
      | Stopping \<Rightarrow> T_stopping
      | Terminal _ \<Rightarrow> T_terminal
      | Unreachable _ _ \<Rightarrow> T_unreachable)"

text \<open>Which containment reports count as an observation that no process is left.\<close>

definition drained_status :: "containment_status \<Rightarrow> bool" where
  "drained_status s \<longleftrightarrow>
     s = Posix_best_effort_empty \<or> s = Windows_job_empty \<or> s = Containment_not_applicable"

definition spawn_cleanup_of :: "ExitReason option \<Rightarrow> SpawnCleanup option" where
  "spawn_cleanup_of r = (case r of Some (Exit_spawn_error _ c) \<Rightarrow> c | _ \<Rightarrow> None)"

definition no_child_cleanup :: "SpawnCleanup option \<Rightarrow> bool" where
  "no_child_cleanup c =
     (case c of
        None \<Rightarrow> False
      | Some cl \<Rightarrow> sc_directChildStarted cl = Some False \<and> sc_terminationConfirmed cl)"

definition terminalProven :: "platform \<Rightarrow> SessionState \<Rightarrow> bool" where
  "terminalProven pf st =
     (let ev = state_evidence st;
          cleanup = spawn_cleanup_of (ev_exitReason ev)
      in if state_kind st = Terminal Spawn_failed \<and> no_child_cleanup cleanup then True
         else ev_confirmed ev \<and> ev_directExited ev = Some True \<and>
           ((case ev_containment ev of None \<Rightarrow> False | Some c \<Rightarrow> drained_status (co_status c))
             \<or> pf = Darwin))"

definition terminalOrUnreachable ::
  "platform \<Rightarrow> SessionState \<Rightarrow> TerminalSessionOutcome \<Rightarrow> bool \<Rightarrow> SessionState" where
  "terminalOrUnreachable pf st oc cleaning =
     (let terminal = with_kind (evidenceFromState st) (Terminal oc)
      in if terminalProven pf terminal then
           (if cleaning then with_kind (evidenceFromState terminal) (Cleaning (To_terminal oc))
            else terminal)
         else
           (let payload = \<lparr> tp_outcome = oc, tp_evidence = evidenceFromState terminal \<rparr>
            in if cleaning
               then with_kind (evidenceFromState st)
                      (Cleaning (To_unreachable T_terminal (Some payload)))
               else with_kind (evidenceFromState st) (Unreachable T_terminal (Some payload))))"

definition unreachableState :: "SessionState \<Rightarrow> bool \<Rightarrow> SessionState" where
  "unreachableState st cleaning =
     (let terminal = terminalPayload st;
          known = (if terminal \<noteq> None then T_terminal else lastKnownOf st)
      in if cleaning
         then with_kind (evidenceFromState st) (Cleaning (To_unreachable known terminal))
         else with_kind (evidenceFromState st) (Unreachable known terminal))"

definition cleaningState :: "SessionState \<Rightarrow> SessionState" where
  "cleaningState st =
     (case state_kind st of
        Cleaning _ \<Rightarrow> st
      | Terminal oc \<Rightarrow> with_kind (evidenceFromState st) (Cleaning (To_terminal oc))
      | Unreachable lk payload \<Rightarrow>
          with_kind (evidenceFromState st) (Cleaning (To_unreachable lk payload))
      | Creating \<Rightarrow> with_kind (evidenceFromState st) (Cleaning To_creating)
      | Running \<Rightarrow> with_kind (evidenceFromState st) (Cleaning To_running)
      | Stopping \<Rightarrow> with_kind (evidenceFromState st) (Cleaning To_stopping))"

fun terminalEvent :: "LifecycleEvent \<Rightarrow> TerminalSessionOutcome option" where
  "terminalEvent Child_exited = Some Exited"
| "terminalEvent Event_timed_out = Some Timed_out"
| "terminalEvent Event_output_limited = Some Output_limited"
| "terminalEvent Event_spawn_failed = Some Spawn_failed"
| "terminalEvent _ = None"

definition is_cleaning :: "SessionState \<Rightarrow> bool" where
  "is_cleaning st = (case state_kind st of Cleaning _ \<Rightarrow> True | _ \<Rightarrow> False)"

definition reduceSessionState ::
  "platform \<Rightarrow> SessionState \<Rightarrow> LifecycleEvent \<Rightarrow> SessionStateReduction" where
  "reduceSessionState pf current event =
     (if event = Event_unreachable then Inr (unreachableState current (is_cleaning current))
      else case state_kind current of
        Unreachable lk _ \<Rightarrow>
          if event = Recovered \<and> lk \<noteq> T_terminal \<and> lk \<noteq> T_unreachable
          then Inr (with_kind (evidenceFromState current) Running)
          else Inl Invalid_transition
      | Cleaning tgt \<Rightarrow>
          (let outcome = terminalEvent event;
               live = (tgt = To_creating \<or> tgt = To_running \<or> tgt = To_stopping)
           in if outcome \<noteq> None \<and> live
              then Inr (terminalOrUnreachable pf current (the outcome) True)
              else if event = Stop_requested \<and> (tgt = To_running \<or> tgt = To_stopping)
              then Inr (with_kind (evidenceFromState current) (Cleaning To_stopping))
              else Inl Invalid_transition)
      | Creating \<Rightarrow>
          if event = Worker_ready then Inr (with_kind (evidenceFromState current) Running)
          else if event = Event_spawn_failed
          then Inr (terminalOrUnreachable pf current Spawn_failed False)
          else Inl Invalid_transition
      | Terminal oc \<Rightarrow>
          if terminalEvent event = Some oc then Inr current else Inl Invalid_transition
      | live \<Rightarrow>
          if event = Worker_ready \<and> live = Running then Inr current
          else if event = Stop_requested
          then Inr (with_kind (evidenceFromState current) Stopping)
          else (case terminalEvent event of
                  Some oc \<Rightarrow> Inr (terminalOrUnreachable pf current oc False)
                | None \<Rightarrow> Inl Invalid_transition))"

fun outcome_status :: "TerminalSessionOutcome \<Rightarrow> DaemonStatus" where
  "outcome_status Exited = St_exited"
| "outcome_status Timed_out = St_timed_out"
| "outcome_status Spawn_failed = St_spawn_failed"
| "outcome_status Output_limited = St_output_limited"

definition projected_status :: "SessionState \<Rightarrow> DaemonStatus" where
  "projected_status st =
     (case state_kind st of
        Creating \<Rightarrow> St_starting
      | Running \<Rightarrow> St_running
      | Stopping \<Rightarrow> St_stopping
      | Terminal oc \<Rightarrow> outcome_status oc
      | Unreachable _ _ \<Rightarrow> St_lost
      | Cleaning tgt \<Rightarrow>
          (case tgt of
             To_creating \<Rightarrow> St_starting
           | To_running \<Rightarrow> St_running
           | To_stopping \<Rightarrow> St_stopping
           | To_terminal oc \<Rightarrow> outcome_status oc
           | To_unreachable _ _ \<Rightarrow> St_lost))"

definition projected_lastKnown :: "SessionState \<Rightarrow> SessionStateTarget option" where
  "projected_lastKnown st =
     or_else
       (case state_kind st of
          Unreachable lk _ \<Rightarrow> Some lk
        | Cleaning (To_unreachable lk _) \<Rightarrow> Some lk
        | _ \<Rightarrow> None)
       (Option.bind (ev_legacy (state_evidence st)) (\<lambda>l. map_option lt_lastKnown (lg_tombstone l)))"

definition projectSessionState :: "SessionState \<Rightarrow> LifecycleProjection" where
  "projectSessionState st =
     (let ev = state_evidence st in
      \<lparr> status = projected_status st,
        pid = ev_pid ev,
        startedAt = ev_startedAt ev,
        exitedAt = ev_exitedAt ev,
        timedOut = ev_timedOut ev,
        terminationRequested = ev_requested ev,
        terminationConfirmed = ev_confirmed ev,
        pendingCleanup = (if is_cleaning st then Some True else None),
        directChildExited = ev_directExited ev,
        exitCode = ev_exitCode ev,
        exitSignal = ev_exitSignal ev,
        exitReason = ev_exitReason ev,
        worker = ev_worker ev,
        workerPrestart = ev_prestart ev,
        workerStartAttempted = ev_startAttempted ev,
        containment = ev_containment ev,
        terminationResult = ev_result ev,
        execOutput = ev_execOutput ev,
        storageFailure = ev_storageFailure ev,
        diagnostics = ev_diagnostics ev,
        lastWaitResult = ev_lastWaitResult ev,
        legacyTombstone = Option.bind (ev_legacy ev) lg_tombstone,
        legacyOutputCleanupPending =
          Option.bind (ev_legacy ev) (\<lambda>l. if lg_outputCleanupPending l then Some True else None),
        streamDrain = Some (ev_streamDrain ev),
        lastKnown = projected_lastKnown st \<rparr>)"

text \<open>The evidence object \<open>refreshSessionState\<close> builds from the record.\<close>

definition record_evidence :: "'a LifecycleProjection_scheme \<Rightarrow> SessionStateEvidence" where
  "record_evidence r =
     \<lparr> ev_pid = pid r,
       ev_directExited = directChildExited r,
       ev_startedAt = startedAt r,
       ev_exitedAt = exitedAt r,
       ev_timedOut = timedOut r,
       ev_requested = terminationRequested r,
       ev_confirmed = terminationConfirmed r,
       ev_result = terminationResult r,
       ev_containment = containment r,
       ev_exitCode = exitCode r,
       ev_exitSignal = exitSignal r,
       ev_exitReason = exitReason r,
       ev_worker = worker r,
       ev_prestart = workerPrestart r,
       ev_startAttempted = workerStartAttempted r,
       ev_streamDrain = nullish (streamDrain r) Drain_unknown,
       ev_execOutput = execOutput r,
       ev_storageFailure = truthy_text (storageFailure r),
       ev_diagnostics = diagnostics r,
       ev_lastWaitResult = lastWaitResult r,
       ev_legacy =
         (if legacyTombstone r \<noteq> None \<or> truthy (legacyOutputCleanupPending r)
          then Some \<lparr> lg_tombstone = legacyTombstone r,
                      lg_outputCleanupPending = truthy (legacyOutputCleanupPending r) \<rparr>
          else None) \<rparr>"

text \<open>
  \<open>{ ...state, ...evidence }\<close>: a property the evidence does not carry keeps its old value;
  the nested objects \<open>child\<close> and \<open>termination\<close> are always carried and replaced as a whole.
\<close>

definition merge_evidence ::
  "SessionStateEvidence \<Rightarrow> SessionStateEvidence \<Rightarrow> SessionStateEvidence" where
  "merge_evidence old new =
     new\<lparr> ev_startedAt := or_else (ev_startedAt new) (ev_startedAt old),
          ev_exitedAt := or_else (ev_exitedAt new) (ev_exitedAt old),
          ev_containment := or_else (ev_containment new) (ev_containment old),
          ev_exitCode := or_else (ev_exitCode new) (ev_exitCode old),
          ev_exitSignal := or_else (ev_exitSignal new) (ev_exitSignal old),
          ev_exitReason := or_else (ev_exitReason new) (ev_exitReason old),
          ev_worker := or_else (ev_worker new) (ev_worker old),
          ev_prestart := or_else (ev_prestart new) (ev_prestart old),
          ev_startAttempted := or_else (ev_startAttempted new) (ev_startAttempted old),
          ev_execOutput := or_else (ev_execOutput new) (ev_execOutput old),
          ev_storageFailure := or_else (ev_storageFailure new) (ev_storageFailure old),
          ev_diagnostics := or_else (ev_diagnostics new) (ev_diagnostics old),
          ev_lastWaitResult := or_else (ev_lastWaitResult new) (ev_lastWaitResult old),
          ev_legacy := or_else (ev_legacy new) (ev_legacy old) \<rparr>"

definition refreshSessionState ::
  "platform \<Rightarrow> SessionState \<Rightarrow> 'a LifecycleProjection_scheme \<Rightarrow> SessionState" where
  "refreshSessionState pf st r =
     (let evidence = record_evidence r in
      case state_kind st of
        Terminal oc \<Rightarrow>
          (let terminal = with_kind evidence (Terminal oc);
               unreachable = with_kind evidence
                 (Unreachable T_terminal (Some \<lparr> tp_outcome = oc, tp_evidence = evidence \<rparr>));
               chosen = (if terminalProven pf terminal then terminal else unreachable)
           in if truthy (pendingCleanup r) then cleaningState chosen else chosen)
      | Cleaning tgt \<Rightarrow>
          (let next = with_kind evidence (Cleaning tgt)
           in case tgt of
                To_terminal oc \<Rightarrow> terminalOrUnreachable pf next oc True
              | _ \<Rightarrow> next)
      | other \<Rightarrow>
          if truthy (pendingCleanup r)
          then cleaningState (with_kind (merge_evidence (state_evidence st) evidence) other)
          else with_kind evidence other)"

text \<open>
  The status of a flat record as a state kind; \<open>record.status as TerminalSessionOutcome\<close> is
  used only for the four statuses that are outcomes.
\<close>

definition compatibility_kind :: "'a LifecycleProjection_scheme \<Rightarrow> StateKind" where
  "compatibility_kind r =
     (case status r of
        St_starting \<Rightarrow> Creating
      | St_running \<Rightarrow> Running
      | St_stopping \<Rightarrow> Stopping
      | St_lost \<Rightarrow>
          Unreachable
            (nullish (or_else (lastKnown r) (map_option lt_lastKnown (legacyTombstone r)))
              T_unreachable) None
      | St_exited \<Rightarrow> Terminal Exited
      | St_timed_out \<Rightarrow> Terminal Timed_out
      | St_spawn_failed \<Rightarrow> Terminal Spawn_failed
      | St_output_limited \<Rightarrow> Terminal Output_limited)"

text \<open>The bare state literal \<open>sessionStateFromCompatibility\<close> hands to the refresh.\<close>

definition compatibility_seed :: "'a LifecycleProjection_scheme \<Rightarrow> SessionState" where
  "compatibility_seed r =
     with_kind
       \<lparr> ev_pid = pid r, ev_directExited = None, ev_startedAt = None, ev_exitedAt = None,
         ev_timedOut = timedOut r, ev_requested = terminationRequested r,
         ev_confirmed = terminationConfirmed r, ev_result = None, ev_containment = None,
         ev_exitCode = None, ev_exitSignal = None, ev_exitReason = None, ev_worker = None,
         ev_prestart = None, ev_startAttempted = None,
         ev_streamDrain = nullish (streamDrain r) Drain_unknown, ev_execOutput = None,
         ev_storageFailure = None, ev_diagnostics = None, ev_lastWaitResult = None,
         ev_legacy = None \<rparr>
       (compatibility_kind r)"

definition sessionStateFromCompatibility ::
  "platform \<Rightarrow> 'a LifecycleProjection_scheme \<Rightarrow> SessionState" where
  "sessionStateFromCompatibility pf r =
     (let st = refreshSessionState pf (compatibility_seed r) r;
          tidy = (\<lambda>s. if truthy (pendingCleanup r) then cleaningState s else s)
      in case state_kind st of
           Terminal oc \<Rightarrow>
             if terminalProven pf st then tidy st
             else tidy (with_kind (evidenceFromState st)
                    (Unreachable T_terminal
                      (Some \<lparr> tp_outcome = oc, tp_evidence = evidenceFromState st \<rparr>)))
         | _ \<Rightarrow> tidy st)"

definition reduceDaemonStatus :: "DaemonStatus \<Rightarrow> LifecycleEvent \<Rightarrow> LifecycleReduction" where
  "reduceDaemonStatus current event =
     (if event = Event_unreachable then Inr St_lost
      else if current = St_lost \<and> event = Recovered then Inr St_running
      else if current = St_starting then
        (if event = Worker_ready then Inr St_running
         else if event = Event_spawn_failed then Inr St_spawn_failed
         else Inl Invalid_transition)
      else if current = St_running \<or> current = St_stopping then
        (if event = Worker_ready \<and> current = St_running then Inr St_running
         else if event = Stop_requested then Inr St_stopping
         else if event = Child_exited then Inr St_exited
         else if event = Event_timed_out then Inr St_timed_out
         else if event = Event_output_limited then Inr St_output_limited
         else Inl Invalid_transition)
      else if (current = St_exited \<and> event = Child_exited) \<or>
              (current = St_timed_out \<and> event = Event_timed_out) \<or>
              (current = St_output_limited \<and> event = Event_output_limited) \<or>
              (current = St_spawn_failed \<and> event = Event_spawn_failed)
      then Inr current
      else Inl Invalid_transition)"

definition isActiveDaemonStatus :: "DaemonStatus \<Rightarrow> bool" where
  "isActiveDaemonStatus s \<longleftrightarrow> s = St_starting \<or> s = St_running \<or> s = St_stopping"

section \<open>What a transition keeps\<close>

lemma with_kind_sel [simp]:
  "state_evidence (with_kind ev k) = ev" "state_kind (with_kind ev k) = k"
  by (simp_all add: with_kind_def)

lemma with_kind_collapse [simp]: "with_kind (state_evidence st) (state_kind st) = st"
  by (simp add: with_kind_def)

lemma evidenceFromState_with_kind [simp]: "evidenceFromState (with_kind ev k) = ev"
  by (simp add: evidenceFromState_def)

lemma terminalOrUnreachable_evidence [simp]:
  "evidenceFromState (terminalOrUnreachable pf st oc c) = evidenceFromState st"
  by (simp add: terminalOrUnreachable_def Let_def)

lemma unreachableState_evidence [simp]:
  "evidenceFromState (unreachableState st c) = evidenceFromState st"
  by (simp add: unreachableState_def Let_def)

lemma cleaningState_evidence [simp]:
  "evidenceFromState (cleaningState st) = evidenceFromState st"
  by (auto simp: cleaningState_def split: StateKind.splits)

lemma reduce_evidence:
  "reduceSessionState pf st e = Inr st' \<Longrightarrow> evidenceFromState st' = evidenceFromState st"
  by (auto simp: reduceSessionState_def Let_def split: if_splits StateKind.splits option.splits)

lemma reduce_cleaning:
  assumes "reduceSessionState pf st e = Inr st'" and "is_cleaning st"
  shows "is_cleaning st'"
  using assms
  by (auto simp: reduceSessionState_def is_cleaning_def unreachableState_def
      terminalOrUnreachable_def Let_def split: if_splits StateKind.splits)

section \<open>Terminal states are proven\<close>

definition terminal_outcome :: "SessionState \<Rightarrow> TerminalSessionOutcome option" where
  "terminal_outcome st =
     (case state_kind st of
        Terminal oc \<Rightarrow> Some oc
      | Cleaning (To_terminal oc) \<Rightarrow> Some oc
      | _ \<Rightarrow> None)"

definition outcome_proven :: "platform \<Rightarrow> SessionStateEvidence \<Rightarrow> TerminalSessionOutcome \<Rightarrow> bool" where
  "outcome_proven pf ev oc = terminalProven pf (with_kind ev (Terminal oc))"

lemma outcome_proven_iff:
  "outcome_proven pf ev oc \<longleftrightarrow>
     (oc = Spawn_failed \<and> no_child_cleanup (spawn_cleanup_of (ev_exitReason ev))) \<or>
     (ev_confirmed ev \<and> ev_directExited ev = Some True \<and>
       ((\<exists>c. ev_containment ev = Some c \<and> drained_status (co_status c)) \<or> pf = Darwin))"
  by (auto simp: outcome_proven_def terminalProven_def Let_def split: option.splits)

lemma terminal_outcome_with_kind [simp]:
  "terminal_outcome (with_kind ev Creating) = None"
  "terminal_outcome (with_kind ev Running) = None"
  "terminal_outcome (with_kind ev Stopping) = None"
  "terminal_outcome (with_kind ev (Terminal oc)) = Some oc"
  "terminal_outcome (with_kind ev (Unreachable lk p)) = None"
  "terminal_outcome (with_kind ev (Cleaning To_creating)) = None"
  "terminal_outcome (with_kind ev (Cleaning To_running)) = None"
  "terminal_outcome (with_kind ev (Cleaning To_stopping)) = None"
  "terminal_outcome (with_kind ev (Cleaning (To_terminal oc))) = Some oc"
  "terminal_outcome (with_kind ev (Cleaning (To_unreachable lk p))) = None"
  by (simp_all add: terminal_outcome_def)

lemma terminalOrUnreachable_outcome:
  "terminal_outcome (terminalOrUnreachable pf st oc c) =
     (if outcome_proven pf (state_evidence st) oc then Some oc else None)"
  by (simp add: terminal_outcome_def terminalOrUnreachable_def outcome_proven_def Let_def
      evidenceFromState_def)

lemma unreachableState_outcome [simp]: "terminal_outcome (unreachableState st c) = None"
  by (simp add: terminal_outcome_def unreachableState_def Let_def)

lemma cleaningState_outcome [simp]: "terminal_outcome (cleaningState st) = terminal_outcome st"
  by (auto simp: terminal_outcome_def cleaningState_def split: StateKind.splits)

lemma reduce_new_outcome:
  assumes "reduceSessionState pf st e = Inr st'"
    and "terminal_outcome st' = Some oc"
  shows "outcome_proven pf (state_evidence st') oc \<or> st' = st"
proof -
  have ev: "state_evidence st' = state_evidence st"
    using reduce_evidence [OF assms(1)] by (simp add: evidenceFromState_def)
  show ?thesis
    using assms ev
    by (auto simp: reduceSessionState_def terminalOrUnreachable_outcome evidenceFromState_def
        Let_def split: if_splits StateKind.splits option.splits)
qed

section \<open>Well-formed states\<close>

text \<open>
  What \<open>validV2State\<close> of the storage demands of a stored state, on the typed states: a
  terminal outcome carries its proof, a terminal payload goes with the last known kind
  \<open>terminal\<close>, and the marks of a migrated record occur only where the migration puts them.
\<close>

definition payload_matches :: "SessionStateTarget \<Rightarrow> TerminalSessionPayload option \<Rightarrow> bool" where
  "payload_matches lk payload \<longleftrightarrow> (lk = T_terminal) = (payload \<noteq> None)"

definition legacy_wf :: "StateKind \<Rightarrow> LegacyEvidence option \<Rightarrow> bool" where
  "legacy_wf k legacy =
     (case legacy of
        None \<Rightarrow> True
      | Some l \<Rightarrow>
          (case k of
             Terminal _ \<Rightarrow> lg_tombstone l = None
           | Cleaning (To_terminal _) \<Rightarrow> lg_tombstone l = None
           | Cleaning (To_unreachable lk _) \<Rightarrow>
               \<not> lg_outputCleanupPending l \<and>
               (case lg_tombstone l of None \<Rightarrow> False | Some t \<Rightarrow> lt_lastKnown t = lk)
           | _ \<Rightarrow> False))"

definition state_wf :: "platform \<Rightarrow> SessionState \<Rightarrow> bool" where
  "state_wf pf st =
     (let ev = state_evidence st in
      legacy_wf (state_kind st) (ev_legacy ev) \<and>
      (case state_kind st of
         Terminal oc \<Rightarrow> ev_confirmed ev \<and> outcome_proven pf ev oc
       | Cleaning (To_terminal oc) \<Rightarrow> ev_confirmed ev \<and> outcome_proven pf ev oc
       | Unreachable lk payload \<Rightarrow> payload_matches lk payload
       | Cleaning (To_unreachable lk payload) \<Rightarrow> payload_matches lk payload
       | _ \<Rightarrow> True))"

text \<open>A spawn failure that reports no child also reports the termination as confirmed.\<close>

definition evidence_coherent :: "SessionStateEvidence \<Rightarrow> bool" where
  "evidence_coherent ev \<longleftrightarrow>
     (no_child_cleanup (spawn_cleanup_of (ev_exitReason ev)) \<longrightarrow> ev_confirmed ev)"

definition legacy_pending :: "SessionStateEvidence \<Rightarrow> bool" where
  "legacy_pending ev = (case ev_legacy ev of None \<Rightarrow> False | Some l \<Rightarrow> lg_outputCleanupPending l)"

lemma outcome_proven_confirmed:
  "evidence_coherent ev \<Longrightarrow> outcome_proven pf ev oc \<Longrightarrow> ev_confirmed ev"
  by (auto simp: outcome_proven_iff evidence_coherent_def)

lemma terminalOrUnreachable_wf:
  assumes "evidence_coherent (state_evidence st)" and "ev_legacy (state_evidence st) = None"
  shows "state_wf pf (terminalOrUnreachable pf st oc c)"
  using assms outcome_proven_confirmed [OF assms(1), of pf oc]
  by (auto simp: terminalOrUnreachable_def state_wf_def Let_def legacy_wf_def payload_matches_def
      evidenceFromState_def outcome_proven_def)

lemma unreachableState_wf:
  assumes "state_wf pf st" and "\<not> legacy_pending (state_evidence st)"
    and "\<forall>oc. terminal_outcome st = Some oc \<longrightarrow> ev_legacy (state_evidence st) = None"
  shows "state_wf pf (unreachableState st (is_cleaning st))"
  using assms
  by (auto simp: unreachableState_def state_wf_def legacy_wf_def payload_matches_def Let_def
      terminalPayload_def lastKnownOf_def is_cleaning_def evidenceFromState_def terminal_outcome_def
      split: StateKind.splits CleaningTarget.splits option.splits)

lemma reduce_wf:
  assumes wf: "state_wf pf st" and coh: "evidence_coherent (state_evidence st)"
    and legacy: "e = Event_unreachable \<Longrightarrow> terminal_outcome st \<noteq> None \<Longrightarrow> ev_legacy (state_evidence st) = None"
    and red: "reduceSessionState pf st e = Inr st'"
  shows "state_wf pf st'"
proof (cases "e = Event_unreachable")
  case True
  have "\<not> legacy_pending (state_evidence st) \<or> terminal_outcome st \<noteq> None"
    using wf by (auto simp: state_wf_def legacy_wf_def legacy_pending_def terminal_outcome_def Let_def
        split: StateKind.splits CleaningTarget.splits option.splits)
  then show ?thesis
    using True red wf legacy
    by (auto simp: reduceSessionState_def legacy_pending_def intro!: unreachableState_wf)
next
  case False
  have "ev_legacy (state_evidence st) = None" if "state_kind st \<in> {Creating, Running, Stopping,
      Cleaning To_creating, Cleaning To_running, Cleaning To_stopping}"
    using that wf by (auto simp: state_wf_def legacy_wf_def Let_def split: option.splits)
  moreover have "ev_legacy (state_evidence st) = None" if "state_kind st = Unreachable lk p" for lk p
    using that wf by (auto simp: state_wf_def legacy_wf_def Let_def split: option.splits)
  ultimately show ?thesis
    using False red wf coh
    by (auto simp: reduceSessionState_def Let_def evidenceFromState_def state_wf_def [of _ "with_kind _ _"]
        legacy_wf_def intro!: terminalOrUnreachable_wf
        split: if_splits StateKind.splits option.splits)
qed

section \<open>Refreshing a state from its record\<close>

text \<open>
  Evidence in the form the projection can carry: an empty failure text and an empty legacy
  object have no flat counterpart and are never built by the code.
\<close>

definition evidence_normal :: "SessionStateEvidence \<Rightarrow> bool" where
  "evidence_normal ev \<longleftrightarrow>
     ev_storageFailure ev \<noteq> Some [] \<and>
     (case ev_legacy ev of None \<Rightarrow> True | Some l \<Rightarrow> lg_tombstone l \<noteq> None \<or> lg_outputCleanupPending l)"

lemma record_evidence_normal: "evidence_normal (record_evidence r)"
  by (auto simp: evidence_normal_def record_evidence_def truthy_text_def)

lemma record_evidence_project:
  "evidence_normal (state_evidence st) \<Longrightarrow> record_evidence (projectSessionState st) = state_evidence st"
  by (cases "ev_legacy (state_evidence st)")
     (auto simp: record_evidence_def projectSessionState_def evidence_normal_def truthy_text_def Let_def
      truthy_def split: if_splits)

lemma projectSessionState_pendingCleanup [simp]:
  "pendingCleanup (projectSessionState st) = (if is_cleaning st then Some True else None)"
  by (simp add: projectSessionState_def Let_def)

lemma projectSessionState_status [simp]: "status (projectSessionState st) = projected_status st"
  by (simp add: projectSessionState_def Let_def)

lemma refresh_project:
  assumes "state_wf pf st" and "evidence_normal (state_evidence st)"
  shows "refreshSessionState pf st (projectSessionState st) = st"
  using assms with_kind_collapse [of st]
  by (auto simp: refreshSessionState_def record_evidence_project state_wf_def is_cleaning_def Let_def
      outcome_proven_def terminalOrUnreachable_def evidenceFromState_def
      simp del: with_kind_collapse split: StateKind.splits CleaningTarget.splits)

text \<open>The refresh reads only the projected part of a record.\<close>

lemma record_evidence_truncate:
  "record_evidence (LifecycleProjection.truncate r) = record_evidence r"
  by (simp add: record_evidence_def LifecycleProjection.defs)

lemma pendingCleanup_truncate: "pendingCleanup (LifecycleProjection.truncate r) = pendingCleanup r"
  by (simp add: LifecycleProjection.defs)

lemma refresh_truncate:
  "refreshSessionState pf st (LifecycleProjection.truncate r) = refreshSessionState pf st r"
  unfolding refreshSessionState_def record_evidence_truncate pendingCleanup_truncate by (rule refl)

lemma merge_evidence_sel [simp]:
  "ev_legacy (merge_evidence old new) = or_else (ev_legacy new) (ev_legacy old)"
  by (simp add: merge_evidence_def)

lemma refresh_wf:
  assumes wf: "state_wf pf st" and coh: "evidence_coherent (record_evidence r)"
    and legacy: "ev_legacy (record_evidence r) = ev_legacy (state_evidence st)"
    and settled: "terminal_outcome st \<noteq> None \<Longrightarrow> ev_legacy (state_evidence st) = None"
  shows "state_wf pf (refreshSessionState pf st r)"
proof (cases "terminal_outcome st")
  case None
  then show ?thesis
    using wf legacy
    by (auto simp: refreshSessionState_def state_wf_def legacy_wf_def cleaningState_def Let_def
        terminal_outcome_def evidenceFromState_def
        split: StateKind.splits CleaningTarget.splits option.splits)
next
  case (Some oc)
  have conf: "outcome_proven pf (record_evidence r) oc \<Longrightarrow> ev_confirmed (record_evidence r)" for oc
    using coh by (rule outcome_proven_confirmed)
  have "ev_legacy (record_evidence r) = None" using Some legacy settled by simp
  then show ?thesis
    using Some coh conf
    by (auto simp: refreshSessionState_def terminal_outcome_def Let_def cleaningState_def state_wf_def
        legacy_wf_def payload_matches_def evidenceFromState_def outcome_proven_def
        terminalOrUnreachable_def
        split: StateKind.splits CleaningTarget.splits)
qed

lemma refresh_outcome_proven:
  "terminal_outcome (refreshSessionState pf st r) = Some oc \<Longrightarrow>
   outcome_proven pf (state_evidence (refreshSessionState pf st r)) oc"
  by (auto simp: refreshSessionState_def Let_def outcome_proven_def cleaningState_def
      terminalOrUnreachable_def evidenceFromState_def
      split: if_splits StateKind.splits CleaningTarget.splits)

lemma refresh_cleaning_iff:
  "is_cleaning (refreshSessionState pf st r) \<longleftrightarrow> is_cleaning st \<or> truthy (pendingCleanup r)"
  by (auto simp: refreshSessionState_def Let_def is_cleaning_def cleaningState_def
      terminalOrUnreachable_def split: StateKind.splits CleaningTarget.splits)

section \<open>The flat reducer\<close>

lemma reduce_flat:
  assumes nc: "\<not> is_cleaning st" and red: "reduceSessionState pf st e = Inr st'"
    and sf: "e = Event_spawn_failed \<Longrightarrow> state_kind st \<noteq> Running \<and> state_kind st \<noteq> Stopping"
  shows "\<exists>s. reduceDaemonStatus (projected_status st) e = Inr s \<and>
    (projected_status st' = s \<or>
     (projected_status st' = St_lost \<and>
       (\<exists>oc. s = outcome_status oc \<and> \<not> outcome_proven pf (state_evidence st) oc)))"
proof (cases "state_kind st")
  case Creating
  then show ?thesis using red
    by (cases e) (auto simp: reduceSessionState_def reduceDaemonStatus_def projected_status_def
        terminalOrUnreachable_def unreachableState_def outcome_proven_def is_cleaning_def Let_def
        evidenceFromState_def intro: exI [where x = Spawn_failed])
next
  case Running
  then show ?thesis using red sf
    by (cases e) (auto simp: reduceSessionState_def reduceDaemonStatus_def projected_status_def
        terminalOrUnreachable_def unreachableState_def outcome_proven_def is_cleaning_def Let_def
        evidenceFromState_def intro: outcome_status.simps [symmetric])
next
  case Stopping
  then show ?thesis using red sf
    by (cases e) (auto simp: reduceSessionState_def reduceDaemonStatus_def projected_status_def
        terminalOrUnreachable_def unreachableState_def outcome_proven_def is_cleaning_def Let_def
        evidenceFromState_def intro: outcome_status.simps [symmetric])
next
  case (Terminal oc)
  then show ?thesis using red
    by (cases e; cases oc) (auto simp: reduceSessionState_def reduceDaemonStatus_def
        projected_status_def unreachableState_def is_cleaning_def Let_def)
next
  case (Unreachable lk p)
  then show ?thesis using red
    by (cases e) (auto simp: reduceSessionState_def reduceDaemonStatus_def projected_status_def
        unreachableState_def is_cleaning_def Let_def split: if_splits)
next
  case (Cleaning tgt)
  with nc show ?thesis by (simp add: is_cleaning_def)
qed

lemma terminal_absorbing:
  assumes "state_kind st = Terminal oc" and "reduceSessionState pf st e = Inr st'"
  shows "st' = st \<or> (e = Event_unreachable \<and>
    st' = with_kind (state_evidence st)
      (Unreachable T_terminal (Some \<lparr> tp_outcome = oc, tp_evidence = state_evidence st \<rparr>)))"
  using assms
  by (auto simp: reduceSessionState_def unreachableState_def terminalPayload_def is_cleaning_def
      evidenceFromState_def Let_def split: if_splits)

lemma unreachable_forgets:
  "reduceSessionState pf (with_kind ev (Unreachable lk None)) Event_unreachable =
     Inr (with_kind ev (Unreachable T_unreachable None))"
  "reduceSessionState pf (with_kind ev (Unreachable T_unreachable None)) Recovered =
     Inl Invalid_transition"
  "reduceSessionState pf (with_kind ev (Cleaning (To_unreachable lk None))) Event_unreachable =
     Inr (with_kind ev (Cleaning (To_unreachable lk None)))"
  by (simp_all add: reduceSessionState_def unreachableState_def terminalPayload_def lastKnownOf_def
      is_cleaning_def evidenceFromState_def Let_def)

section \<open>Runs\<close>

text \<open>The machine as a step function: a rejected event leaves the state alone.\<close>

definition lifecycle_step :: "platform \<Rightarrow> SessionState \<Rightarrow> LifecycleEvent \<Rightarrow> SessionState" where
  "lifecycle_step pf st e = (case reduceSessionState pf st e of Inl _ \<Rightarrow> st | Inr st' \<Rightarrow> st')"

definition lifecycle_inv :: "platform \<Rightarrow> SessionState \<Rightarrow> bool" where
  "lifecycle_inv pf st \<longleftrightarrow>
     state_wf pf st \<and> evidence_coherent (state_evidence st) \<and> ev_legacy (state_evidence st) = None"

lemma lifecycle_step_inv: "lifecycle_inv pf st \<Longrightarrow> lifecycle_inv pf (lifecycle_step pf st e)"
proof (cases "reduceSessionState pf st e")
  case (Inr st')
  assume inv: "lifecycle_inv pf st"
  have "state_evidence st' = state_evidence st"
    using reduce_evidence [OF Inr] by (simp add: evidenceFromState_def)
  moreover have "state_wf pf st'"
    using inv Inr by (auto simp: lifecycle_inv_def intro: reduce_wf)
  ultimately show ?thesis
    using inv Inr by (simp add: lifecycle_inv_def lifecycle_step_def)
qed (simp add: lifecycle_step_def)

interpretation lifecycle_runs: invariant_system "lifecycle_step pf" "\<lambda>_ _. True" "lifecycle_inv pf"
  for pf
  by unfold_locales (rule lifecycle_step_inv)

lemma run_enabled_trivial [simp]: "lifecycle_runs.run_enabled pf st es"
  by (induction es arbitrary: st) auto

section \<open>Importing a flat record\<close>

lemma merge_seed [simp]:
  "merge_evidence (state_evidence (compatibility_seed r)) ev = ev"
  by (simp add: merge_evidence_def compatibility_seed_def)

lemma compatibility_seed_kind [simp]:
  "state_kind (compatibility_seed r) = compatibility_kind r"
  by (simp add: compatibility_seed_def)

lemma compatibility_kind_project:
  assumes "terminal_outcome st \<noteq> None \<or> terminalPayload st = None"
  shows "compatibility_kind (projectSessionState st) =
    (case state_kind st of
       Cleaning To_creating \<Rightarrow> Creating
     | Cleaning To_running \<Rightarrow> Running
     | Cleaning To_stopping \<Rightarrow> Stopping
     | Cleaning (To_terminal oc) \<Rightarrow> Terminal oc
     | Cleaning (To_unreachable lk _) \<Rightarrow> Unreachable lk None
     | k \<Rightarrow> k)"
proof -
  have out: "(case outcome_status oc of
        St_starting \<Rightarrow> Creating | St_running \<Rightarrow> Running | St_stopping \<Rightarrow> Stopping
      | St_lost \<Rightarrow> X | St_exited \<Rightarrow> Terminal Exited | St_timed_out \<Rightarrow> Terminal Timed_out
      | St_spawn_failed \<Rightarrow> Terminal Spawn_failed
      | St_output_limited \<Rightarrow> Terminal Output_limited) = Terminal oc" for oc X
    by (cases oc) simp_all
  show ?thesis
    using assms
    by (auto simp: compatibility_kind_def projected_status_def projectSessionState_def
        projected_lastKnown_def terminal_outcome_def terminalPayload_def out Let_def
        split: StateKind.splits CleaningTarget.splits)
qed

lemma compatibility_project:
  assumes wf: "state_wf pf st" and norm: "evidence_normal (state_evidence st)"
    and payload: "terminal_outcome st \<noteq> None \<or> terminalPayload st = None"
  shows "sessionStateFromCompatibility pf (projectSessionState st) = st"
proof -
  obtain ev k where st: "st = with_kind ev k" by (metis with_kind_collapse)
  let ?seed = "compatibility_seed (projectSessionState st)"
  have re: "record_evidence (projectSessionState st) = ev"
    using record_evidence_project [OF norm] st by simp
  have seed: "refreshSessionState pf ?seed (projectSessionState st) = with_kind ev k"
    using wf payload re compatibility_kind_project [OF payload] st
    by (cases k)
       (auto simp: refreshSessionState_def Let_def state_wf_def is_cleaning_def cleaningState_def
        outcome_proven_def terminalPayload_def terminal_outcome_def evidenceFromState_def
        split: CleaningTarget.splits)
  show ?thesis
    using wf seed st
    by (cases k) (auto simp: sessionStateFromCompatibility_def Let_def is_cleaning_def
        cleaningState_def state_wf_def outcome_proven_def)
qed

text \<open>A lost record whose last known kind is \<open>terminal\<close> is imported without its payload.\<close>

lemma compatibility_lost_terminal:
  assumes "status r = St_lost" and "lastKnown r = None"
    and "legacyTombstone r = Some t" and "lt_lastKnown t = T_terminal"
    and "pendingCleanup r = Some True"
  shows "state_kind (sessionStateFromCompatibility pf r) = Cleaning (To_unreachable T_terminal None)"
    and "\<not> state_wf pf (sessionStateFromCompatibility pf r)"
  using assms
  by (simp_all add: sessionStateFromCompatibility_def refreshSessionState_def Let_def
      compatibility_kind_def cleaningState_def state_wf_def payload_matches_def)

section \<open>Properties\<close>

lemma exited_proven: "outcome_proven Linux exited_evidence oc"
  by (simp add: outcome_proven_iff exited_evidence_def drained_report_def drained_status_def)

lemma exited_inv:
  "lifecycle_inv Linux (with_kind exited_evidence Running)"
  "lifecycle_inv Linux (with_kind exited_evidence (Terminal Exited))"
  using exited_proven [of Exited]
  by (simp_all add: lifecycle_inv_def state_wf_def legacy_wf_def evidence_coherent_def)
     (simp_all add: exited_evidence_def fresh_evidence_def)

lemma exited_normal: "evidence_normal exited_evidence"
  by (simp add: evidence_normal_def exited_evidence_def fresh_evidence_def)

text \<open>
  C2: a session is never reported as finished without proof. In every state a run of events
  leads to, from a valid state of the current format, a terminal outcome comes with evidence
  that the direct child is gone and contained (or, for a failed spawn, that no child was
  ever started), and the state is one the storage accepts.
\<close>

theorem runs_terminal_only_when_proven:
  assumes "lifecycle_inv pf st"
  shows "state_wf pf (lifecycle_runs.run pf st es) \<and>
    (\<forall>oc. terminal_outcome (lifecycle_runs.run pf st es) = Some oc \<longrightarrow>
      (oc = Spawn_failed \<and>
        no_child_cleanup (spawn_cleanup_of (ev_exitReason (state_evidence (lifecycle_runs.run pf st es))))) \<or>
      (ev_confirmed (state_evidence (lifecycle_runs.run pf st es)) \<and>
       ev_directExited (state_evidence (lifecycle_runs.run pf st es)) = Some True \<and>
       ((\<exists>c. ev_containment (state_evidence (lifecycle_runs.run pf st es)) = Some c \<and>
          drained_status (co_status c)) \<or> pf = Darwin)))"
proof -
  have "lifecycle_inv pf (lifecycle_runs.run pf st es)"
    using assms by (rule lifecycle_runs.run_inv) simp
  then show ?thesis
    by (auto simp: lifecycle_inv_def state_wf_def Let_def outcome_proven_iff terminal_outcome_def
        split: StateKind.splits CleaningTarget.splits)
qed

theorem runs_terminal_only_when_proven_witness:
  "state_wf Linux (lifecycle_runs.run Linux (with_kind exited_evidence Running)
     [Stop_requested, Child_exited, Event_unreachable])"
  using runs_terminal_only_when_proven [OF exited_inv(1)] by blast

text \<open>
  The flat record a client sees loses nothing. Refreshing a valid state from its own
  projection gives the state back, so storing the projection next to the state and
  refreshing before every transition never changes a session by itself.
\<close>

theorem projection_round_trip:
  assumes "state_wf pf st" and "evidence_normal (state_evidence st)"
  shows "refreshSessionState pf st (projectSessionState st) = st"
  using assms by (rule refresh_project)

theorem projection_round_trip_witness:
  "refreshSessionState Linux (with_kind exited_evidence (Terminal Exited))
     (projectSessionState (with_kind exited_evidence (Terminal Exited))) =
   with_kind exited_evidence (Terminal Exited)"
  using exited_inv(2) exited_normal by (intro projection_round_trip) (simp_all add: lifecycle_inv_def)

text \<open>
  A valid state can be rebuilt from the flat record alone, unless it is unreachable with a
  terminal payload, which the flat record cannot carry.
\<close>

theorem compatibility_round_trip:
  assumes "state_wf pf st" and "evidence_normal (state_evidence st)"
    and "terminal_outcome st \<noteq> None \<or> terminalPayload st = None"
  shows "sessionStateFromCompatibility pf (projectSessionState st) = st"
  using assms by (rule compatibility_project)

theorem compatibility_round_trip_witness:
  "sessionStateFromCompatibility Linux (projectSessionState (with_kind exited_evidence (Terminal Exited))) =
   with_kind exited_evidence (Terminal Exited)"
  using exited_inv(2) exited_normal
  by (intro compatibility_round_trip) (simp_all add: lifecycle_inv_def)

text \<open>
  A finished session stays finished. From a terminal state the reducer accepts only a
  repetition of the same outcome, which changes nothing, and the loss of its worker, which
  keeps the outcome and its evidence as the terminal payload.
\<close>

theorem terminal_state_absorbing:
  assumes "state_kind st = Terminal oc" and "reduceSessionState pf st e = Inr st'"
  shows "(st' = st \<and> terminalEvent e = Some oc) \<or>
    (e = Event_unreachable \<and>
     state_kind st' = Unreachable T_terminal (Some \<lparr> tp_outcome = oc, tp_evidence = state_evidence st \<rparr>) \<and>
     state_evidence st' = state_evidence st \<and>
     (\<forall>e' st''. reduceSessionState pf st' e' = Inr st'' \<longrightarrow> st'' = st'))"
  using assms
  by (auto simp: reduceSessionState_def unreachableState_def terminalPayload_def is_cleaning_def
      evidenceFromState_def Let_def split: if_splits)

theorem terminal_state_absorbing_witness:
  "state_kind (lifecycle_step Linux (with_kind exited_evidence (Terminal Exited)) Event_unreachable) =
     Unreachable T_terminal (Some \<lparr> tp_outcome = Exited, tp_evidence = exited_evidence \<rparr>)"
  using terminal_state_absorbing [of "with_kind exited_evidence (Terminal Exited)" Exited Linux
      Event_unreachable "lifecycle_step Linux (with_kind exited_evidence (Terminal Exited)) Event_unreachable"]
  by (simp add: lifecycle_step_def reduceSessionState_def)



text \<open>
  A second report that the worker is unreachable forgets what the session was. Outside the
  cleaning states the first report keeps the last known kind, so that the session can
  recover; the second replaces it by \<open>unreachable\<close>, after which no recovery is accepted.
  In a cleaning state the last known kind survives the repetition.
\<close>

theorem repeated_unreachable_forgets:
  assumes "state_kind st \<in> {Creating, Running, Stopping}"
  shows "state_kind (lifecycle_runs.run pf st [Event_unreachable, Recovered]) = Running \<and>
    (\<exists>lk. state_kind (lifecycle_runs.run pf st [Event_unreachable]) = Unreachable lk None \<and>
      lk \<noteq> T_unreachable) \<and>
    state_kind (lifecycle_runs.run pf st [Event_unreachable, Event_unreachable]) =
      Unreachable T_unreachable None \<and>
    reduceSessionState pf (lifecycle_runs.run pf st [Event_unreachable, Event_unreachable]) Recovered =
      Inl Invalid_transition \<and>
    lifecycle_runs.run pf (cleaningState st) [Event_unreachable, Event_unreachable] =
      lifecycle_runs.run pf (cleaningState st) [Event_unreachable]"
  using assms
  by (auto simp: lifecycle_step_def reduceSessionState_def unreachableState_def terminalPayload_def
      lastKnownOf_def is_cleaning_def evidenceFromState_def cleaningState_def Let_def)

theorem repeated_unreachable_forgets_witness:
  "reduceSessionState Linux
     (lifecycle_runs.run Linux (with_kind exited_evidence Running) [Event_unreachable, Event_unreachable])
     Recovered = Inl Invalid_transition"
  using repeated_unreachable_forgets [of "with_kind exited_evidence Running" Linux] by simp

end
