(* ===== verification/Session_Registry.thy ===== *)
theory Session_Registry
  imports Lifecycle
begin

text \<open>
  The quota ledger of \<open>src/daemon/session-registry.ts\<close>: which sessions and records an owner
  holds, the retained output they reserve, the pending waits and the queued input. Every
  quantity is indexed twice, by session and by owner, and kept as a total as well; the
  invariant says the three agree. A method that mutates \<open>this\<close> returns the new registry, a
  method that mutates the reservation it is handed returns the new reservation too, and
  \<open>throw\<close> is \<open>Inl\<close> (no method throws after its first mutation).
\<close>

section \<open>Data\<close>

datatype reservation_state = Reserved | Committed | Released

record SessionReservation =
  rs_id :: js_string
  rs_ownerKey :: js_string
  rs_state :: reservation_state

record WaitReservation =
  wt_id :: nat
  wt_sessionId :: js_string
  wt_ownerKey :: js_string
  wt_released :: bool

record InputReservation =
  in_sessionId :: js_string
  in_ownerKey :: js_string
  in_bytes :: nat
  in_released :: bool

record SessionUsage =
  us_activeSessions :: nat
  us_records :: nat
  us_pendingWaits :: nat
  us_queuedInputBytes :: int
  us_retainedOutputBytes :: int

record SessionRegistry =
  records :: "(js_string, SessionRecord) js_map"
  ownerSlots :: "(js_string, js_string js_set) js_map"
  slotOwnerBySessionId :: "(js_string, js_string) js_map"
  recordsByOwner :: "(js_string, js_string js_set) js_map"
  recordOwnerBySessionId :: "(js_string, js_string) js_map"
  outputBySessionId :: "(js_string, int) js_map"
  outputByOwner :: "(js_string, int) js_map"
  outputTotal :: int
  waitsBySession :: "(js_string, nat js_set) js_map"
  waitsByOwner :: "(js_string, nat js_set) js_map"
  waits :: "nat js_set"
  nextWaitId :: nat
  inputBytesBySession :: "(js_string, int) js_map"
  inputBytesByOwner :: "(js_string, int) js_map"
  inputBytes :: int
  limits :: SessionLimits

definition new_registry :: "SessionLimits \<Rightarrow> SessionRegistry" where
  "new_registry lim =
     \<lparr> records = [], ownerSlots = [], slotOwnerBySessionId = [], recordsByOwner = [],
       recordOwnerBySessionId = [], outputBySessionId = [], outputByOwner = [], outputTotal = 0,
       waitsBySession = [], waitsByOwner = [], waits = [], nextWaitId = 0,
       inputBytesBySession = [], inputBytesByOwner = [], inputBytes = 0, limits = lim \<rparr>"

section \<open>What a record occupies\<close>

definition containmentDrained :: "'a LifecycleProjection_scheme \<Rightarrow> bool" where
  "containmentDrained r =
     (case containment r of None \<Rightarrow> False | Some c \<Rightarrow> drained_status (co_status c))"

definition terminalDirectChild :: "platform \<Rightarrow> 'a LifecycleProjection_scheme \<Rightarrow> bool" where
  "terminalDirectChild pf r \<longleftrightarrow>
     terminationConfirmed r \<and> directChildExited r = Some True \<and>
     (containmentDrained r \<or> pf = Darwin)"

text \<open>
  The key of an owner: its three parts with a NUL between them. It is also asked for a
  bare owner context, so it takes the parts.
\<close>

definition owner_key :: "js_string \<Rightarrow> js_string \<Rightarrow> js_string \<Rightarrow> js_string" where
  "owner_key parent dir cap = parent @ [NUL] @ dir @ [NUL] @ cap"

definition ownerKey :: "SessionRecord \<Rightarrow> js_string" where
  "ownerKey r = owner_key (parentSessionId r) (ownerProjectDirectory r) (ownerCapabilityHash r)"

definition occupiesSlot :: "platform \<Rightarrow> SessionRecord \<Rightarrow> bool" where
  "occupiesSlot pf r \<longleftrightarrow>
     \<not> (terminalDirectChild pf r \<or> no_child_cleanup (spawn_cleanup_of (exitReason r)))"

definition outputReservation :: "platform \<Rightarrow> SessionRecord \<Rightarrow> int" where
  "outputReservation pf r =
     (if occupiesSlot pf r
      then int (max (nullish (outputLimitBytes r) MAX_OUTPUT_BYTES) (outputBytes r))
      else int (outputBytes r))"

section \<open>Private helpers\<close>

definition set_size :: "('k, 'a js_set) js_map \<Rightarrow> 'k \<Rightarrow> nat" where
  "set_size m k = length (nullish (map_get m k) [])"

definition addActive :: "SessionRegistry \<Rightarrow> js_string \<Rightarrow> js_string \<Rightarrow> SessionRegistry" where
  "addActive g i k =
     g\<lparr> ownerSlots := map_set (ownerSlots g) k (set_add (nullish (map_get (ownerSlots g) k) []) i),
        slotOwnerBySessionId := map_set (slotOwnerBySessionId g) i k \<rparr>"

text \<open>
  \<open>const s = m.get(k); s?.delete(x); if (!s?.size) m.delete(k)\<close>, which several methods share:
  the set is an object shared with the map, so deleting from it shows in the map.
\<close>

definition drop_member :: "('k, 'a js_set) js_map \<Rightarrow> 'k \<Rightarrow> 'a \<Rightarrow> ('k, 'a js_set) js_map" where
  "drop_member m k x =
     (case map_get m k of
        None \<Rightarrow> map_delete m k
      | Some s \<Rightarrow>
          (let s' = set_delete s x in if s' = [] then map_delete m k else map_set m k s'))"

definition releaseActive :: "SessionRegistry \<Rightarrow> js_string \<Rightarrow> SessionRegistry" where
  "releaseActive g i =
     (case map_get (slotOwnerBySessionId g) i of
        None \<Rightarrow> g
      | Some k \<Rightarrow>
          if k = [] then g
          else g\<lparr> ownerSlots := drop_member (ownerSlots g) k i,
                  slotOwnerBySessionId := map_delete (slotOwnerBySessionId g) i \<rparr>)"

definition addRecord :: "SessionRegistry \<Rightarrow> js_string \<Rightarrow> js_string \<Rightarrow> SessionRegistry" where
  "addRecord g i k =
     g\<lparr> recordsByOwner :=
          map_set (recordsByOwner g) k (set_add (nullish (map_get (recordsByOwner g) k) []) i),
        recordOwnerBySessionId := map_set (recordOwnerBySessionId g) i k \<rparr>"

definition setOutput :: "SessionRegistry \<Rightarrow> js_string \<Rightarrow> js_string \<Rightarrow> int \<Rightarrow> SessionRegistry" where
  "setOutput g i k bytes =
     (let previous = nullish (map_get (outputBySessionId g) i) 0;
          delta = bytes - previous;
          next = nullish (map_get (outputByOwner g) k) 0 + delta
      in g\<lparr> outputBySessionId :=
              (if bytes = 0 then map_delete (outputBySessionId g) i
               else map_set (outputBySessionId g) i bytes),
            outputTotal := outputTotal g + delta,
            outputByOwner :=
              (if next = 0 then map_delete (outputByOwner g) k
               else map_set (outputByOwner g) k next) \<rparr>)"

definition updateOutput :: "platform \<Rightarrow> SessionRegistry \<Rightarrow> SessionRecord \<Rightarrow> SessionRegistry" where
  "updateOutput pf g r =
     (case map_get (recordOwnerBySessionId g) (session_id r) of
        None \<Rightarrow> g
      | Some k \<Rightarrow> if k = [] then g else setOutput g (session_id r) k (outputReservation pf r))"

definition subtract :: "('k, int) js_map \<Rightarrow> 'k \<Rightarrow> int \<Rightarrow> ('k, int) js_map" where
  "subtract m k amount =
     (let next = nullish (map_get m k) 0 - amount
      in if next \<le> 0 then map_delete m k else map_set m k next)"

section \<open>Operations\<close>

definition registry_owns ::
  "SessionRegistry \<Rightarrow> js_string \<Rightarrow> js_string \<Rightarrow> js_string \<Rightarrow> js_string \<Rightarrow> bool" where
  "registry_owns g i parent dir cap =
     (case map_get (records g) i of
        None \<Rightarrow> False
      | Some r \<Rightarrow> parentSessionId r = parent \<and> ownerProjectDirectory r = dir \<and>
          ownerCapabilityHash r = cap)"

text \<open>One iteration of the loop of \<open>rebuildSlots\<close>.\<close>

definition rebuild_record :: "platform \<Rightarrow> SessionRecord \<Rightarrow> SessionRegistry \<Rightarrow> SessionRegistry" where
  "rebuild_record pf r g =
     (let k = ownerKey r;
          g1 = addRecord g (session_id r) k;
          g2 = (if occupiesSlot pf r then addActive g1 (session_id r) k else g1)
      in setOutput g2 (session_id r) k (outputReservation pf r))"

definition rebuildSlots :: "platform \<Rightarrow> SessionRegistry \<Rightarrow> SessionRegistry" where
  "rebuildSlots pf g =
     fold (rebuild_record pf) (map_values (records g))
       (g\<lparr> ownerSlots := [], slotOwnerBySessionId := [], recordsByOwner := [],
           recordOwnerBySessionId := [], outputBySessionId := [], outputByOwner := [],
           outputTotal := 0 \<rparr>)"

definition reserve ::
  "platform \<Rightarrow> SessionRegistry \<Rightarrow> SessionRecord \<Rightarrow> nat \<Rightarrow>
   (daemon_error, SessionReservation \<times> SessionRegistry) result" where
  "reserve pf g r maxSessionsPerOwner =
     (let k = ownerKey r;
          active = set_size (ownerSlots g) k;
          recs = set_size (recordsByOwner g) k;
          output = outputReservation pf r
      in if active \<ge> maxSessionsPerOwner \<or>
            length (slotOwnerBySessionId g) \<ge> maxActiveSessions (limits g)
         then Inl (DaemonError ''Session limit exceeded.'' E_limit)
         else if recs \<ge> maxRecordsPerOwner (limits g) \<or>
            length (recordOwnerBySessionId g) \<ge> maxRecords (limits g)
         then Inl (DaemonError ''Session record limit exceeded.'' E_limit)
         else if nullish (map_get (outputByOwner g) k) 0 + output
              > int (maxRetainedOutputBytesPerOwner (limits g)) \<or>
            outputTotal g + output > int (maxRetainedOutputBytes (limits g))
         then Inl (DaemonError ''Retained output limit exceeded.'' E_limit)
         else Inr (\<lparr> rs_id = session_id r, rs_ownerKey = k, rs_state = Reserved \<rparr>,
           setOutput (addRecord (addActive g (session_id r) k) (session_id r) k)
             (session_id r) k output))"

definition commit :: "SessionReservation \<Rightarrow> (daemon_error, SessionReservation) result" where
  "commit rv =
     (if rs_state rv \<noteq> Reserved then Inl (PlainError ''Session reservation is no longer valid.'')
      else Inr (rv\<lparr> rs_state := Committed \<rparr>))"

definition release :: "SessionRegistry \<Rightarrow> js_string \<Rightarrow> SessionRegistry" where
  "release g0 i =
     (let g = releaseActive g0 i in
      case map_get (recordOwnerBySessionId g) i of
        None \<Rightarrow> g
      | Some k \<Rightarrow>
          if k = [] then g
          else setOutput
            (g\<lparr> recordsByOwner := drop_member (recordsByOwner g) k i,
                recordOwnerBySessionId := map_delete (recordOwnerBySessionId g) i \<rparr>) i k 0)"

definition releaseReservation ::
  "SessionRegistry \<Rightarrow> SessionReservation \<Rightarrow> SessionReservation \<times> SessionRegistry" where
  "releaseReservation g rv =
     (if rs_state rv = Released then (rv, g)
      else (rv\<lparr> rs_state := Released \<rparr>, release g (rs_id rv)))"

definition releaseIfSettled :: "platform \<Rightarrow> SessionRegistry \<Rightarrow> SessionRecord \<Rightarrow> SessionRegistry" where
  "releaseIfSettled pf g r =
     updateOutput pf (if \<not> occupiesSlot pf r then releaseActive g (session_id r) else g) r"

definition reserveWait ::
  "SessionRegistry \<Rightarrow> SessionRecord \<Rightarrow> (daemon_error, WaitReservation \<times> SessionRegistry) result" where
  "reserveWait g r =
     (let k = ownerKey r;
          sessionWaits = set_size (waitsBySession g) (session_id r);
          ownerWaits = set_size (waitsByOwner g) k
      in if sessionWaits \<ge> maxPendingWaitsPerSession (limits g) \<or>
            ownerWaits \<ge> maxPendingWaitsPerOwner (limits g) \<or>
            length (waits g) \<ge> maxPendingWaits (limits g)
         then Inl (DaemonError ''Pending wait limit exceeded.'' E_limit)
         else let i = nextWaitId g in
           Inr (\<lparr> wt_id = i, wt_sessionId = session_id r, wt_ownerKey = k, wt_released = False \<rparr>,
             g\<lparr> nextWaitId := Suc i,
                waitsBySession := map_set (waitsBySession g) (session_id r)
                  (set_add (nullish (map_get (waitsBySession g) (session_id r)) []) i),
                waitsByOwner := map_set (waitsByOwner g) k
                  (set_add (nullish (map_get (waitsByOwner g) k) []) i),
                waits := set_add (waits g) i \<rparr>))"

definition releaseWait ::
  "SessionRegistry \<Rightarrow> WaitReservation \<Rightarrow> WaitReservation \<times> SessionRegistry" where
  "releaseWait g w =
     (if wt_released w then (w, g)
      else (w\<lparr> wt_released := True \<rparr>,
        g\<lparr> waits := set_delete (waits g) (wt_id w),
           waitsBySession := drop_member (waitsBySession g) (wt_sessionId w) (wt_id w),
           waitsByOwner := drop_member (waitsByOwner g) (wt_ownerKey w) (wt_id w) \<rparr>))"

definition reserveInput ::
  "SessionRegistry \<Rightarrow> SessionRecord \<Rightarrow> nat \<Rightarrow> (daemon_error, InputReservation \<times> SessionRegistry) result" where
  "reserveInput g r bytes =
     (let k = ownerKey r;
          sessionBytes = nullish (map_get (inputBytesBySession g) (session_id r)) 0;
          ownerBytes = nullish (map_get (inputBytesByOwner g) k) 0
      in if sessionBytes + int bytes > int (maxQueuedInputBytesPerSession (limits g)) \<or>
            ownerBytes + int bytes > int (maxQueuedInputBytesPerOwner (limits g)) \<or>
            inputBytes g + int bytes > int (maxQueuedInputBytes (limits g))
         then Inl (DaemonError ''Queued input limit exceeded.'' E_limit)
         else Inr (\<lparr> in_sessionId = session_id r, in_ownerKey = k, in_bytes = bytes,
                     in_released = False \<rparr>,
           g\<lparr> inputBytesBySession :=
                map_set (inputBytesBySession g) (session_id r) (sessionBytes + int bytes),
              inputBytesByOwner := map_set (inputBytesByOwner g) k (ownerBytes + int bytes),
              inputBytes := inputBytes g + int bytes \<rparr>))"

definition releaseInput ::
  "SessionRegistry \<Rightarrow> InputReservation \<Rightarrow> InputReservation \<times> SessionRegistry" where
  "releaseInput g v =
     (if in_released v then (v, g)
      else (v\<lparr> in_released := True \<rparr>,
        g\<lparr> inputBytesBySession := subtract (inputBytesBySession g) (in_sessionId v) (int (in_bytes v)),
           inputBytesByOwner := subtract (inputBytesByOwner g) (in_ownerKey v) (int (in_bytes v)),
           inputBytes := inputBytes g - int (in_bytes v) \<rparr>))"

definition usage :: "SessionRegistry \<Rightarrow> js_string \<Rightarrow> SessionUsage" where
  "usage g k =
     \<lparr> us_activeSessions = set_size (ownerSlots g) k,
       us_records = set_size (recordsByOwner g) k,
       us_pendingWaits = set_size (waitsByOwner g) k,
       us_queuedInputBytes = nullish (map_get (inputBytesByOwner g) k) 0,
       us_retainedOutputBytes = nullish (map_get (outputByOwner g) k) 0 \<rparr>"

definition usageFor :: "SessionRegistry \<Rightarrow> js_string \<Rightarrow> js_string \<Rightarrow> js_string \<Rightarrow> SessionUsage" where
  "usageFor g parent dir cap = usage g (owner_key parent dir cap)"

definition totalUsage :: "SessionRegistry \<Rightarrow> SessionUsage" where
  "totalUsage g =
     \<lparr> us_activeSessions = length (slotOwnerBySessionId g),
       us_records = length (recordOwnerBySessionId g),
       us_pendingWaits = length (waits g),
       us_queuedInputBytes = inputBytes g,
       us_retainedOutputBytes = outputTotal g \<rparr>"

section \<open>The double index\<close>

text \<open>
  \<open>index_ok by own\<close>: the sets under the keys of \<open>by\<close> are exactly the preimages of the map
  \<open>own\<close>, and no empty set is kept.
\<close>

definition members :: "('k, 'a js_set) js_map \<Rightarrow> 'k \<Rightarrow> 'a set" where
  "members by k = set (nullish (map_get by k) [])"

definition index_ok :: "('k, 'a js_set) js_map \<Rightarrow> ('a, 'k) js_map \<Rightarrow> bool" where
  "index_ok by own \<longleftrightarrow>
     map_ok by \<and> map_ok own \<and>
     (\<forall>k s. map_get by k = Some s \<longrightarrow> s \<noteq> [] \<and> distinct s) \<and>
     (\<forall>i k. map_get own i = Some k \<longleftrightarrow> i \<in> members by k)"

lemma index_ok_empty [simp]: "index_ok [] []"
  by (simp add: index_ok_def members_def)

lemma index_okD:
  assumes "index_ok by own"
  shows "map_ok by" "map_ok own"
    and "map_get by k = Some s \<Longrightarrow> s \<noteq> [] \<and> distinct s"
    and "map_get own i = Some k \<longleftrightarrow> i \<in> members by k"
    and "distinct (nullish (map_get by k) [])"
  using assms by (auto simp: index_ok_def nullish_def split: option.splits)

lemma members_set [simp]:
  "members (map_set by k s) k' = (if k' = k then set s else members by k')"
  by (simp add: members_def)

lemma members_drop [simp]:
  "members (drop_member by k x) k' = (if k' = k then members by k - {x} else members by k')"
proof (cases "map_get by k")
  case (Some s)
  have "set_delete s x = [] \<Longrightarrow> set s - {x} = {}"
    by (metis set_delete_set list.set(1))
  with Some show ?thesis by (auto simp: members_def drop_member_def Let_def)
qed (simp add: members_def drop_member_def)

lemma map_ok_drop [simp]: "map_ok by \<Longrightarrow> map_ok (drop_member by k x)"
  by (simp add: drop_member_def Let_def split: option.splits)

lemma drop_member_nonempty:
  assumes "\<And>k s. map_get by k = Some s \<Longrightarrow> s \<noteq> [] \<and> distinct s"
    and "map_get (drop_member by k x) k' = Some s'"
  shows "s' \<noteq> [] \<and> distinct s'"
  using assms by (auto simp: drop_member_def Let_def split: option.splits if_splits)

lemma index_ok_add:
  assumes ok: "index_ok by own" and free: "map_get own i = None \<or> map_get own i = Some k"
  shows "index_ok (map_set by k (set_add (nullish (map_get by k) []) i)) (map_set own i k)"
proof -
  let ?s = "set_add (nullish (map_get by k) []) i"
  have s: "?s \<noteq> []" "distinct ?s"
    using index_okD(5) [OF ok, of k] by (auto simp: set_add_def)
  have m: "set ?s = insert i (members by k)" by (simp add: members_def)
  have own: "map_get own j = Some k' \<longleftrightarrow> j \<in> members by k'" for j k'
    using index_okD(4) [OF ok] .
  have "i \<in> members by k' \<Longrightarrow> k' = k" for k' using own [of i k'] free by auto
  then have "map_get (map_set own i k) j = Some k' \<longleftrightarrow> j \<in> members (map_set by k ?s) k'" for j k'
    using own m by auto
  then show ?thesis
    using index_okD(1,2,3) [OF ok] s by (auto simp: index_ok_def)
qed

lemma index_ok_drop:
  assumes ok: "index_ok by own" and i: "map_get own i = Some k"
  shows "index_ok (drop_member by k i) (map_delete own i)"
proof -
  have own: "map_get own j = Some k' \<longleftrightarrow> j \<in> members by k'" for j k'
    using index_okD(4) [OF ok] .
  have "i \<in> members by k' \<Longrightarrow> k' = k" for k' using own [of i k'] i by auto
  then have "map_get (map_delete own i) j = Some k' \<longleftrightarrow> j \<in> members (drop_member by k i) k'" for j k'
    using own by auto
  moreover have "s \<noteq> [] \<and> distinct s" if "map_get (drop_member by k i) k' = Some s" for k' s
    using drop_member_nonempty [OF index_okD(3) [OF ok] that] .
  ultimately show ?thesis
    using index_okD(1,2) [OF ok] by (simp add: index_ok_def)
qed

lemma set_size_card:
  assumes "index_ok by own"
  shows "set_size by k = card {i. map_get own i = Some k}"
proof -
  have "{i. map_get own i = Some k} = members by k"
    using index_okD(4) [OF assms] by blast
  then show ?thesis
    using index_okD(5) [OF assms, of k] by (simp add: set_size_def members_def distinct_card)
qed

lemma length_own_card: "map_ok own \<Longrightarrow> length own = card (dom (map_of own))"
  by (metis map_ok_def dom_map_of_conv_image_fst distinct_card length_map list.set_map)

lemma set_size_le_total: "index_ok by own \<Longrightarrow> set_size by k \<le> length own"
proof -
  assume ok: "index_ok by own"
  have "{i. map_get own i = Some k} \<subseteq> dom (map_of own)" by auto
  then show ?thesis
    using ok by (simp add: set_size_card length_own_card index_okD(2) card_mono finite_dom_map_of)
qed

lemma set_size_add:
  assumes "index_ok by own" and "map_get own i = None"
  shows "set_size (map_set by k (set_add (nullish (map_get by k) []) i)) k' =
    (if k' = k then Suc (set_size by k) else set_size by k')"
proof -
  have "i \<notin> set (nullish (map_get by k) [])"
    using index_okD(4) [OF assms(1), of i k] assms(2) by (simp add: members_def)
  then show ?thesis by (simp add: set_size_def length_set_add)
qed

lemma set_size_drop:
  assumes "index_ok by own" and "map_get own i = Some k"
  shows "set_size (drop_member by k i) k' =
    (if k' = k then set_size by k - 1 else set_size by k')"
proof -
  obtain s where s: "map_get by k = Some s" "i \<in> set s" "distinct s"
    using index_okD(4) [OF assms(1), of i k] index_okD(3) [OF assms(1)] assms(2)
    by (cases "map_get by k") (auto simp: members_def)
  have "length (set_delete s i) = length s - 1" using s by (simp add: length_set_delete)
  then show ?thesis using s by (auto simp: set_size_def drop_member_def Let_def)
qed

text \<open>
  The interface of such an index: adding and removing a member. The slots of the active
  sessions and the retained records both provide it.
\<close>

locale owner_index =
  fixes by_owner :: "'g \<Rightarrow> (js_string, js_string js_set) js_map"
    and owner_of :: "'g \<Rightarrow> (js_string, js_string) js_map"
    and add :: "'g \<Rightarrow> js_string \<Rightarrow> js_string \<Rightarrow> 'g"
    and remove :: "'g \<Rightarrow> js_string \<Rightarrow> 'g"
  assumes by_owner_add: "by_owner (add g i k) =
      map_set (by_owner g) k (set_add (nullish (map_get (by_owner g) k) []) i)"
    and owner_of_add: "owner_of (add g i k) = map_set (owner_of g) i k"
    and remove_absent: "map_get (owner_of g) i = None \<Longrightarrow>
      by_owner (remove g i) = by_owner g \<and> owner_of (remove g i) = owner_of g"
    and remove_present: "map_get (owner_of g) i = Some k \<Longrightarrow> k \<noteq> [] \<Longrightarrow>
      by_owner (remove g i) = drop_member (by_owner g) k i \<and>
      owner_of (remove g i) = map_delete (owner_of g) i"
begin

definition index_inv :: "'g \<Rightarrow> bool" where
  "index_inv g \<longleftrightarrow> index_ok (by_owner g) (owner_of g) \<and> (\<forall>i. map_get (owner_of g) i \<noteq> Some [])"

lemma index_inv_add:
  "index_inv g \<Longrightarrow> map_get (owner_of g) i = None \<or> map_get (owner_of g) i = Some k \<Longrightarrow> k \<noteq> [] \<Longrightarrow>
   index_inv (add g i k)"
  by (auto simp: index_inv_def by_owner_add owner_of_add index_ok_add)

lemma index_inv_remove:
  assumes "index_inv g"
  shows "index_inv (remove g i)"
proof (cases "map_get (owner_of g) i")
  case None
  with assms remove_absent [OF None] show ?thesis by (simp add: index_inv_def)
next
  case (Some k)
  with assms have "k \<noteq> []" by (auto simp: index_inv_def)
  with assms Some remove_present [OF Some] show ?thesis
    by (auto simp: index_inv_def index_ok_drop)
qed

lemma owner_of_remove:
  "index_inv g \<Longrightarrow> map_get (owner_of (remove g i)) j = (if j = i then None else map_get (owner_of g) j)"
  using remove_absent [of g i] remove_present [of g i]
  by (cases "map_get (owner_of g) i"; cases "map_get (owner_of g) i = Some []")
     (auto simp: index_inv_def)

lemma count_add:
  assumes "index_inv g" and "map_get (owner_of g) i = None"
  shows "set_size (by_owner (add g i k)) k' =
      (if k' = k then Suc (set_size (by_owner g) k) else set_size (by_owner g) k')"
    and "length (owner_of (add g i k)) = Suc (length (owner_of g))"
  using assms set_size_add [of "by_owner g" "owner_of g" i k k']
  by (simp_all add: index_inv_def by_owner_add owner_of_add length_map_set)

lemma count_remove:
  assumes inv: "index_inv g" and own: "map_get (owner_of g) i = Some k"
  shows "set_size (by_owner (remove g i)) k' =
      (if k' = k then set_size (by_owner g) k - 1 else set_size (by_owner g) k')"
    and "length (owner_of (remove g i)) = length (owner_of g) - 1"
proof -
  have ok: "index_ok (by_owner g) (owner_of g)" and k: "k \<noteq> []"
    using inv own by (auto simp: index_inv_def)
  show "set_size (by_owner (remove g i)) k' =
      (if k' = k then set_size (by_owner g) k - 1 else set_size (by_owner g) k')"
    using remove_present [OF own k] set_size_drop [OF ok own] by simp
  show "length (owner_of (remove g i)) = length (owner_of g) - 1"
    using remove_present [OF own k] own length_map_delete [OF index_okD(2) [OF ok], of i] by simp
qed

lemma count_remove_le:
  assumes "index_inv g"
  shows "set_size (by_owner (remove g i)) k \<le> set_size (by_owner g) k"
    and "length (owner_of (remove g i)) \<le> length (owner_of g)"
  using remove_absent [of g i] count_remove [OF assms, of i]
  by (cases "map_get (owner_of g) i"; simp)+

lemma add_remove:
  assumes "index_inv g" and "map_get (owner_of g) i = None" and "k \<noteq> []"
  shows "set_size (by_owner (remove (add g i k) i)) k' = set_size (by_owner g) k'"
    and "length (owner_of (remove (add g i k) i)) = length (owner_of g)"
proof -
  have inv: "index_inv (add g i k)" using assms by (simp add: index_inv_add)
  have own: "map_get (owner_of (add g i k)) i = Some k" by (simp add: owner_of_add)
  show "set_size (by_owner (remove (add g i k) i)) k' = set_size (by_owner g) k'"
    using count_remove(1) [OF inv own, of k'] count_add(1) [OF assms(1,2)] by simp
  show "length (owner_of (remove (add g i k) i)) = length (owner_of g)"
    using count_remove(2) [OF inv own] count_add(2) [OF assms(1,2)] by simp
qed

end

interpretation slots: owner_index ownerSlots slotOwnerBySessionId addActive releaseActive
  by unfold_locales (simp_all add: addActive_def releaseActive_def)

lemma setOutput_frame [simp]:
  "ownerSlots (setOutput g i k b) = ownerSlots g"
  "slotOwnerBySessionId (setOutput g i k b) = slotOwnerBySessionId g"
  "recordsByOwner (setOutput g i k b) = recordsByOwner g"
  "recordOwnerBySessionId (setOutput g i k b) = recordOwnerBySessionId g"
  "waitsBySession (setOutput g i k b) = waitsBySession g"
  "waitsByOwner (setOutput g i k b) = waitsByOwner g"
  "waits (setOutput g i k b) = waits g"
  "nextWaitId (setOutput g i k b) = nextWaitId g"
  "inputBytesBySession (setOutput g i k b) = inputBytesBySession g"
  "inputBytesByOwner (setOutput g i k b) = inputBytesByOwner g"
  "inputBytes (setOutput g i k b) = inputBytes g"
  "limits (setOutput g i k b) = limits g"
  "records (setOutput g i k b) = records g"
  by (simp_all add: setOutput_def Let_def)

lemma addActive_frame [simp]:
  "recordsByOwner (addActive g i k) = recordsByOwner g"
  "recordOwnerBySessionId (addActive g i k) = recordOwnerBySessionId g"
  "outputBySessionId (addActive g i k) = outputBySessionId g"
  "outputByOwner (addActive g i k) = outputByOwner g"
  "outputTotal (addActive g i k) = outputTotal g"
  "waitsBySession (addActive g i k) = waitsBySession g"
  "waitsByOwner (addActive g i k) = waitsByOwner g"
  "waits (addActive g i k) = waits g"
  "nextWaitId (addActive g i k) = nextWaitId g"
  "inputBytesBySession (addActive g i k) = inputBytesBySession g"
  "inputBytesByOwner (addActive g i k) = inputBytesByOwner g"
  "inputBytes (addActive g i k) = inputBytes g"
  "limits (addActive g i k) = limits g"
  "records (addActive g i k) = records g"
  by (simp_all add: addActive_def)

lemma addRecord_frame [simp]:
  "ownerSlots (addRecord g i k) = ownerSlots g"
  "slotOwnerBySessionId (addRecord g i k) = slotOwnerBySessionId g"
  "outputBySessionId (addRecord g i k) = outputBySessionId g"
  "outputByOwner (addRecord g i k) = outputByOwner g"
  "outputTotal (addRecord g i k) = outputTotal g"
  "waitsBySession (addRecord g i k) = waitsBySession g"
  "waitsByOwner (addRecord g i k) = waitsByOwner g"
  "waits (addRecord g i k) = waits g"
  "nextWaitId (addRecord g i k) = nextWaitId g"
  "inputBytesBySession (addRecord g i k) = inputBytesBySession g"
  "inputBytesByOwner (addRecord g i k) = inputBytesByOwner g"
  "inputBytes (addRecord g i k) = inputBytes g"
  "limits (addRecord g i k) = limits g"
  "records (addRecord g i k) = records g"
  by (simp_all add: addRecord_def)

lemma releaseActive_frame [simp]:
  "recordsByOwner (releaseActive g i) = recordsByOwner g"
  "recordOwnerBySessionId (releaseActive g i) = recordOwnerBySessionId g"
  "outputBySessionId (releaseActive g i) = outputBySessionId g"
  "outputByOwner (releaseActive g i) = outputByOwner g"
  "outputTotal (releaseActive g i) = outputTotal g"
  "waitsBySession (releaseActive g i) = waitsBySession g"
  "waitsByOwner (releaseActive g i) = waitsByOwner g"
  "waits (releaseActive g i) = waits g"
  "nextWaitId (releaseActive g i) = nextWaitId g"
  "inputBytesBySession (releaseActive g i) = inputBytesBySession g"
  "inputBytesByOwner (releaseActive g i) = inputBytesByOwner g"
  "inputBytes (releaseActive g i) = inputBytes g"
  "limits (releaseActive g i) = limits g"
  "records (releaseActive g i) = records g"
  by (simp_all add: releaseActive_def split: option.splits)

lemma release_frame [simp]:
  "ownerSlots (release g i) = ownerSlots (releaseActive g i)"
  "slotOwnerBySessionId (release g i) = slotOwnerBySessionId (releaseActive g i)"
  "waitsBySession (release g i) = waitsBySession g"
  "waitsByOwner (release g i) = waitsByOwner g"
  "waits (release g i) = waits g"
  "nextWaitId (release g i) = nextWaitId g"
  "inputBytesBySession (release g i) = inputBytesBySession g"
  "inputBytesByOwner (release g i) = inputBytesByOwner g"
  "inputBytes (release g i) = inputBytes g"
  "limits (release g i) = limits g"
  "records (release g i) = records g"
  by (simp_all add: release_def Let_def split: option.splits)

interpretation recs: owner_index recordsByOwner recordOwnerBySessionId addRecord release
  by unfold_locales (simp_all add: addRecord_def release_def Let_def)

section \<open>Retained output\<close>

definition owned :: "('a, 'k) js_map \<Rightarrow> 'k \<Rightarrow> 'a set" where
  "owned own k = {i. map_get own i = Some k}"

definition owner_total :: "('a, int) js_map \<Rightarrow> ('a, 'k) js_map \<Rightarrow> 'k \<Rightarrow> int" where
  "owner_total out own k = (\<Sum>i\<in>owned own k. nullish (map_get out i) 0)"

lemma finite_owned [simp]: "finite (owned own k)"
proof -
  have "owned own k \<subseteq> dom (map_of own)" by (auto simp: owned_def)
  then show ?thesis by (rule finite_subset) (rule finite_dom_map_of)
qed

lemma owner_total_change:
  assumes "map_get own i = Some k"
    and "\<And>j. nullish (map_get out' j) 0 = (if j = i then b else nullish (map_get out j) 0)"
  shows "owner_total out' own k' =
    owner_total out own k' + (if k' = k then b - nullish (map_get out i) 0 else 0)"
proof (cases "k' = k")
  case True
  have i: "i \<in> owned own k" using assms(1) by (simp add: owned_def)
  have "(\<Sum>j\<in>owned own k - {i}. nullish (map_get out' j) 0) =
    (\<Sum>j\<in>owned own k - {i}. nullish (map_get out j) 0)"
    by (rule sum.cong) (auto simp: assms(2))
  then show ?thesis
    using True i assms(2) by (simp add: owner_total_def sum.remove [of "owned own k" i])
next
  case False
  have "i \<notin> owned own k'" using assms(1) False by (auto simp: owned_def)
  then show ?thesis
    using False assms(2) by (auto simp: owner_total_def intro: sum.cong)
qed

definition output_ok :: "SessionRegistry \<Rightarrow> bool" where
  "output_ok g \<longleftrightarrow>
     map_ok (outputBySessionId g) \<and>
     outputTotal g = map_total (outputBySessionId g) \<and>
     (\<forall>k. nullish (map_get (outputByOwner g) k) 0 =
          owner_total (outputBySessionId g) (recordOwnerBySessionId g) k) \<and>
     (\<forall>i. map_has (outputBySessionId g) i \<longrightarrow> map_has (recordOwnerBySessionId g) i)"

lemma setOutput_get [simp]:
  "nullish (map_get (outputBySessionId (setOutput g i k b)) j) 0 =
    (if j = i then b else nullish (map_get (outputBySessionId g) j) 0)"
  "nullish (map_get (outputByOwner (setOutput g i k b)) k') 0 =
    nullish (map_get (outputByOwner g) k') 0 +
    (if k' = k then b - nullish (map_get (outputBySessionId g) i) 0 else 0)"
  "outputTotal (setOutput g i k b) =
    outputTotal g + b - nullish (map_get (outputBySessionId g) i) 0"
  by (auto simp: setOutput_def Let_def)

lemma setOutput_total:
  "map_ok (outputBySessionId g) \<Longrightarrow>
   map_total (outputBySessionId (setOutput g i k b)) =
     map_total (outputBySessionId g) + b - nullish (map_get (outputBySessionId g) i) 0
   \<and> map_ok (outputBySessionId (setOutput g i k b))"
  by (auto simp: setOutput_def Let_def map_total_set map_total_delete)

lemma output_ok_setOutput:
  assumes "output_ok g" and "map_get (recordOwnerBySessionId g) i = Some k"
  shows "output_ok (setOutput g i k b)"
proof -
  have "owner_total (outputBySessionId (setOutput g i k b)) (recordOwnerBySessionId g) k' =
    owner_total (outputBySessionId g) (recordOwnerBySessionId g) k' +
    (if k' = k then b - nullish (map_get (outputBySessionId g) i) 0 else 0)" for k'
    using assms(2) by (rule owner_total_change) simp
  moreover have "map_has (outputBySessionId (setOutput g i k b)) j \<Longrightarrow>
      map_has (recordOwnerBySessionId g) j" for j
    using assms by (cases "j = i") (auto simp: setOutput_def Let_def output_ok_def split: if_splits)
  ultimately show ?thesis
    using assms(1) setOutput_total [of g i k b] by (auto simp: output_ok_def)
qed

lemma owned_set: "map_get own i = None \<Longrightarrow>
    owned (map_set own i k) k' = (if k' = k then insert i (owned own k') else owned own k')"
  by (auto simp: owned_def)

lemma output_ok_addRecord:
  assumes "output_ok g" and "map_get (recordOwnerBySessionId g) i = None"
  shows "output_ok (addRecord g i k)"
proof -
  have none: "map_get (outputBySessionId g) i = None" using assms by (auto simp: output_ok_def)
  have "owner_total (outputBySessionId g) (map_set (recordOwnerBySessionId g) i k) k' =
    owner_total (outputBySessionId g) (recordOwnerBySessionId g) k'" for k'
    using assms(2) none
    by (simp add: owner_total_def owned_set sum.insert_if)
  with assms show ?thesis by (auto simp: output_ok_def addRecord_def)
qed

lemma owned_delete: "owned (map_delete own i) k = owned own k - {i}"
  by (auto simp: owned_def)

lemma output_ok_release:
  assumes ok: "output_ok g" and inv: "recs.index_inv g"
  shows "output_ok (release g i)"
proof (cases "map_get (recordOwnerBySessionId g) i")
  case None
  then show ?thesis using ok by (simp add: release_def Let_def output_ok_def)
next
  case (Some k)
  have k: "k \<noteq> []" using inv Some by (auto simp: recs.index_inv_def)
  let ?h = "(releaseActive g i)\<lparr> recordsByOwner := drop_member (recordsByOwner g) k i,
    recordOwnerBySessionId := map_delete (recordOwnerBySessionId g) i \<rparr>"
  have rel: "release g i = setOutput ?h i k 0" using Some k by (simp add: release_def Let_def)
  let ?prev = "nullish (map_get (outputBySessionId g) i) 0"
  have i: "i \<in> owned (recordOwnerBySessionId g) k" using Some by (simp add: owned_def)
  have "owner_total (outputBySessionId (setOutput ?h i k 0)) (map_delete (recordOwnerBySessionId g) i) k' =
    owner_total (outputBySessionId g) (recordOwnerBySessionId g) k' - (if k' = k then ?prev else 0)" for k'
  proof -
    have "(\<Sum>j\<in>owned (recordOwnerBySessionId g) k' - {i}.
        nullish (map_get (outputBySessionId (setOutput ?h i k 0)) j) 0) =
      (\<Sum>j\<in>owned (recordOwnerBySessionId g) k' - {i}. nullish (map_get (outputBySessionId g) j) 0)"
      by (rule sum.cong) auto
    moreover have "i \<in> owned (recordOwnerBySessionId g) k' \<longleftrightarrow> k' = k"
      using Some by (auto simp: owned_def)
    ultimately show ?thesis
      by (auto simp: owner_total_def owned_delete sum_diff1)
  qed
  moreover have "map_has (outputBySessionId (setOutput ?h i k 0)) j \<Longrightarrow>
      map_has (map_delete (recordOwnerBySessionId g) i) j" for j
    using ok by (auto simp: setOutput_def Let_def output_ok_def split: if_splits)
  ultimately show ?thesis
    using ok setOutput_total [of ?h i k 0] unfolding rel by (auto simp: output_ok_def)
qed

section \<open>The registry invariant\<close>

definition registry_inv :: "SessionRegistry \<Rightarrow> bool" where
  "registry_inv g \<longleftrightarrow>
     slots.index_inv g \<and> recs.index_inv g \<and> output_ok g \<and>
     (\<forall>i k. map_get (slotOwnerBySessionId g) i = Some k \<longrightarrow>
       map_get (recordOwnerBySessionId g) i = Some k)"

lemma owner_key_nonempty [simp]: "owner_key p d c \<noteq> []" "ownerKey r \<noteq> []"
  by (simp_all add: owner_key_def ownerKey_def)

lemma index_inv_frame [simp]:
  "slots.index_inv (addRecord g i k) = slots.index_inv g"
  "slots.index_inv (setOutput g i k b) = slots.index_inv g"
  "recs.index_inv (addActive g i k) = recs.index_inv g"
  "recs.index_inv (releaseActive g i) = recs.index_inv g"
  "recs.index_inv (setOutput g i k b) = recs.index_inv g"
  "slots.index_inv (release g i) = slots.index_inv (releaseActive g i)"
  by (simp_all add: slots.index_inv_def recs.index_inv_def)

lemma output_ok_frame [simp]:
  "output_ok (addActive g i k) = output_ok g" "output_ok (releaseActive g i) = output_ok g"
  by (simp_all add: output_ok_def)

lemma new_registry_inv: "registry_inv (new_registry lim)"
  by (simp add: registry_inv_def new_registry_def slots.index_inv_def recs.index_inv_def output_ok_def
      owner_total_def owned_def)

lemma reserve_Inr:
  assumes "reserve pf g r m = Inr (rv, g')"
  shows "g' = setOutput (addRecord (addActive g (session_id r) (ownerKey r)) (session_id r) (ownerKey r))
      (session_id r) (ownerKey r) (outputReservation pf r)"
    and "rv = \<lparr> rs_id = session_id r, rs_ownerKey = ownerKey r, rs_state = Reserved \<rparr>"
    and "set_size (ownerSlots g) (ownerKey r) < m"
    and "length (slotOwnerBySessionId g) < maxActiveSessions (limits g)"
    and "set_size (recordsByOwner g) (ownerKey r) < maxRecordsPerOwner (limits g)"
    and "length (recordOwnerBySessionId g) < maxRecords (limits g)"
    and "nullish (map_get (outputByOwner g) (ownerKey r)) 0 + outputReservation pf r
      \<le> int (maxRetainedOutputBytesPerOwner (limits g))"
    and "outputTotal g + outputReservation pf r \<le> int (maxRetainedOutputBytes (limits g))"
  using assms by (auto simp: reserve_def Let_def split: if_splits)

lemma slot_free:
  "registry_inv g \<Longrightarrow> map_get (recordOwnerBySessionId g) i = None \<Longrightarrow>
   map_get (slotOwnerBySessionId g) i = None"
  by (cases "map_get (slotOwnerBySessionId g) i") (auto simp: registry_inv_def)

lemma reserve_inv:
  assumes inv: "registry_inv g" and fresh: "map_get (recordOwnerBySessionId g) (session_id r) = None"
    and res: "reserve pf g r m = Inr (rv, g')"
  shows "registry_inv g'"
proof -
  have "slots.index_inv (addActive g (session_id r) (ownerKey r))"
    using inv slot_free [OF inv fresh] by (simp add: registry_inv_def slots.index_inv_add)
  moreover have "recs.index_inv (addRecord (addActive g (session_id r) (ownerKey r)) (session_id r) (ownerKey r))"
    using inv fresh by (intro recs.index_inv_add) (simp_all add: registry_inv_def)
  moreover have "output_ok (setOutput (addRecord (addActive g (session_id r) (ownerKey r)) (session_id r)
      (ownerKey r)) (session_id r) (ownerKey r) (outputReservation pf r))"
    using inv fresh
    by (intro output_ok_setOutput output_ok_addRecord)
       (simp_all add: registry_inv_def recs.owner_of_add)
  ultimately show ?thesis
    using inv unfolding reserve_Inr(1) [OF res]
    by (auto simp: registry_inv_def slots.owner_of_add recs.owner_of_add)
qed

lemma releaseActive_inv: "registry_inv g \<Longrightarrow> registry_inv (releaseActive g i)"
  by (auto simp: registry_inv_def slots.index_inv_remove slots.owner_of_remove split: if_splits)

lemma release_inv: "registry_inv g \<Longrightarrow> registry_inv (release g i)"
  by (auto simp: registry_inv_def slots.index_inv_remove slots.owner_of_remove recs.index_inv_remove
      recs.owner_of_remove output_ok_release split: if_splits)

lemma updateOutput_inv: "registry_inv g \<Longrightarrow> registry_inv (updateOutput pf g r)"
  by (auto simp: updateOutput_def registry_inv_def output_ok_setOutput split: option.splits)

lemma releaseIfSettled_inv: "registry_inv g \<Longrightarrow> registry_inv (releaseIfSettled pf g r)"
  by (simp add: releaseIfSettled_def updateOutput_inv releaseActive_inv)

lemma updateOutput_frame [simp]:
  "ownerSlots (updateOutput pf g r) = ownerSlots g"
  "slotOwnerBySessionId (updateOutput pf g r) = slotOwnerBySessionId g"
  "recordsByOwner (updateOutput pf g r) = recordsByOwner g"
  "recordOwnerBySessionId (updateOutput pf g r) = recordOwnerBySessionId g"
  "waitsBySession (updateOutput pf g r) = waitsBySession g"
  "waitsByOwner (updateOutput pf g r) = waitsByOwner g"
  "waits (updateOutput pf g r) = waits g"
  "nextWaitId (updateOutput pf g r) = nextWaitId g"
  "inputBytesBySession (updateOutput pf g r) = inputBytesBySession g"
  "inputBytesByOwner (updateOutput pf g r) = inputBytesByOwner g"
  "inputBytes (updateOutput pf g r) = inputBytes g"
  "limits (updateOutput pf g r) = limits g"
  "records (updateOutput pf g r) = records g"
  by (simp_all add: updateOutput_def split: option.splits)

section \<open>Rebuilding from the stored records\<close>

lemma rebuild_record_inv:
  assumes inv: "registry_inv g" and fresh: "map_get (recordOwnerBySessionId g) (session_id r) = None"
  shows "registry_inv (rebuild_record pf r g)"
proof -
  let ?i = "session_id r" and ?k = "ownerKey r"
  let ?g1 = "addRecord g ?i ?k"
  let ?g2 = "if occupiesSlot pf r then addActive ?g1 ?i ?k else ?g1"
  have r1: "recs.index_inv ?g1"
    using inv fresh by (intro recs.index_inv_add) (simp_all add: registry_inv_def)
  have s1: "slots.index_inv ?g2"
    using inv slot_free [OF inv fresh] by (simp add: registry_inv_def slots.index_inv_add)
  have o1: "output_ok ?g2" using inv fresh by (simp add: registry_inv_def output_ok_addRecord)
  have own: "map_get (recordOwnerBySessionId ?g2) ?i = Some ?k" by (simp add: recs.owner_of_add)
  have sub: "map_get (slotOwnerBySessionId ?g2) j = Some k \<Longrightarrow>
      map_get (recordOwnerBySessionId ?g2) j = Some k" for j k
    using inv fresh by (auto simp: registry_inv_def recs.owner_of_add slots.owner_of_add split: if_splits)
  have "recs.index_inv ?g2" using r1 by simp
  then have "registry_inv (setOutput ?g2 ?i ?k b)" for b
    using s1 sub output_ok_setOutput [OF o1 own] by (simp add: registry_inv_def del: index_inv_frame(1,3))
  then show ?thesis by (simp add: rebuild_record_def Let_def)
qed

lemma rebuild_record_maps:
  "map_get (recordOwnerBySessionId (rebuild_record pf r g)) i =
     (if i = session_id r then Some (ownerKey r) else map_get (recordOwnerBySessionId g) i)"
  "map_get (slotOwnerBySessionId (rebuild_record pf r g)) i =
     (if i = session_id r \<and> occupiesSlot pf r then Some (ownerKey r)
      else map_get (slotOwnerBySessionId g) i)"
  "nullish (map_get (outputBySessionId (rebuild_record pf r g)) i) 0 =
     (if i = session_id r then outputReservation pf r
      else nullish (map_get (outputBySessionId g) i) 0)"
  by (auto simp: rebuild_record_def Let_def recs.owner_of_add slots.owner_of_add)

lemma map_of_keyed_None:
  "session_id r \<notin> session_id ` set rs \<Longrightarrow>
   map_of (map (\<lambda>r. (session_id r, f r)) (filter P rs)) (session_id r) = None"
  by (auto simp: map_of_eq_None_iff image_image)

lemma rebuild_fold:
  assumes "registry_inv g" and "distinct (map session_id rs)"
    and "\<forall>r\<in>set rs. map_get (recordOwnerBySessionId g) (session_id r) = None"
  shows "registry_inv (fold (rebuild_record pf) rs g) \<and>
    map_get (recordOwnerBySessionId (fold (rebuild_record pf) rs g)) i =
      or_else (map_of (map (\<lambda>r. (session_id r, ownerKey r)) (filter (\<lambda>_. True) rs)) i)
        (map_get (recordOwnerBySessionId g) i) \<and>
    map_get (slotOwnerBySessionId (fold (rebuild_record pf) rs g)) i =
      or_else (map_of (map (\<lambda>r. (session_id r, ownerKey r)) (filter (occupiesSlot pf) rs)) i)
        (map_get (slotOwnerBySessionId g) i) \<and>
    nullish (map_get (outputBySessionId (fold (rebuild_record pf) rs g)) i) 0 =
      nullish (map_of (map (\<lambda>r. (session_id r, outputReservation pf r)) (filter (\<lambda>_. True) rs)) i)
        (nullish (map_get (outputBySessionId g) i) 0)"
  using assms
proof (induction rs arbitrary: g)
  case (Cons r rs)
  let ?g = "rebuild_record pf r g"
  have inv: "registry_inv ?g" using Cons.prems by (simp add: rebuild_record_inv)
  have d: "distinct (map session_id rs)" using Cons.prems by simp
  have nin: "session_id r \<notin> session_id ` set rs" using Cons.prems by simp
  then have "\<forall>r'\<in>set rs. session_id r' \<noteq> session_id r" by (metis imageI)
  then have fr: "\<forall>r'\<in>set rs. map_get (recordOwnerBySessionId ?g) (session_id r') = None"
    using Cons.prems by (simp add: rebuild_record_maps)
  show ?case
    using Cons.IH [OF inv d fr] map_of_keyed_None [OF nin, of ownerKey "\<lambda>_. True"]
      map_of_keyed_None [OF nin, of ownerKey "occupiesSlot pf"]
      map_of_keyed_None [OF nin, of "outputReservation pf" "\<lambda>_. True"]
    by (auto simp: rebuild_record_maps)
qed simp

definition records_keyed :: "SessionRegistry \<Rightarrow> bool" where
  "records_keyed g \<longleftrightarrow> map_ok (records g) \<and> (\<forall>(i, r)\<in>set (records g). session_id r = i)"

lemma keyed_ids: "\<forall>(i, r)\<in>set m. session_id r = i \<Longrightarrow> map session_id (map_values m) = map fst m"
  by (induction m) auto

lemma map_of_filter_keyed:
  assumes "distinct (map fst m)" and "\<forall>(i, r)\<in>set m. session_id r = i"
  shows "map_of (map (\<lambda>r. (session_id r, f r)) (filter P (map_values m))) i =
    (case map_get m i of Some r \<Rightarrow> if P r then Some (f r) else None | None \<Rightarrow> None)"
  using assms
proof (induction m)
  case (Cons p m)
  obtain k r where p: "p = (k, r)" by (cases p)
  have k: "session_id r = k" using Cons.prems p by simp
  have nin: "session_id r \<notin> session_id ` set (map_values m)"
    using Cons.prems p keyed_ids [of m] by (metis (no_types, lifting) distinct.simps(2) fst_conv k
        list.set_intros(2) list.simps(9) set_map)
  show ?case
    using Cons map_of_keyed_None [OF nin, of f P] p k by auto
qed simp

definition cleared :: "SessionRegistry \<Rightarrow> SessionRegistry" where
  "cleared g = g\<lparr> ownerSlots := [], slotOwnerBySessionId := [], recordsByOwner := [],
     recordOwnerBySessionId := [], outputBySessionId := [], outputByOwner := [], outputTotal := 0 \<rparr>"

lemma cleared_inv: "registry_inv (cleared g)"
  by (simp add: registry_inv_def cleared_def slots.index_inv_def recs.index_inv_def output_ok_def
      owner_total_def owned_def)

lemma rebuildSlots_spec:
  assumes keyed: "records_keyed g"
  shows "registry_inv (rebuildSlots pf g)"
    and "map_get (recordOwnerBySessionId (rebuildSlots pf g)) i = map_option ownerKey (map_get (records g) i)"
    and "map_get (slotOwnerBySessionId (rebuildSlots pf g)) i =
      (case map_get (records g) i of
         Some r \<Rightarrow> if occupiesSlot pf r then Some (ownerKey r) else None | None \<Rightarrow> None)"
    and "nullish (map_get (outputBySessionId (rebuildSlots pf g)) i) 0 =
      (case map_get (records g) i of Some r \<Rightarrow> outputReservation pf r | None \<Rightarrow> 0)"
proof -
  have ok: "distinct (map fst (records g))" "\<forall>(i, r)\<in>set (records g). session_id r = i"
    using keyed by (simp_all add: records_keyed_def map_ok_def)
  have reb: "rebuildSlots pf g = fold (rebuild_record pf) (map_values (records g)) (cleared g)"
    by (simp add: rebuildSlots_def cleared_def)
  have d: "distinct (map session_id (map_values (records g)))"
    unfolding keyed_ids [OF ok(2)] by (rule ok(1))
  have fr: "\<forall>r\<in>set (map_values (records g)).
      map_get (recordOwnerBySessionId (cleared g)) (session_id r) = None"
    by (simp add: cleared_def)
  note f = rebuild_fold [OF cleared_inv d fr, of pf i, folded reb, unfolded map_of_filter_keyed [OF ok]]
  show "registry_inv (rebuildSlots pf g)" using f by blast
  show "map_get (recordOwnerBySessionId (rebuildSlots pf g)) i = map_option ownerKey (map_get (records g) i)"
    using f by (simp add: cleared_def split: option.splits)
  show "map_get (slotOwnerBySessionId (rebuildSlots pf g)) i =
      (case map_get (records g) i of
         Some r \<Rightarrow> if occupiesSlot pf r then Some (ownerKey r) else None | None \<Rightarrow> None)"
    using f by (simp add: cleared_def)
  show "nullish (map_get (outputBySessionId (rebuildSlots pf g)) i) 0 =
      (case map_get (records g) i of Some r \<Rightarrow> outputReservation pf r | None \<Rightarrow> 0)"
    using f by (simp add: cleared_def split: option.splits)
qed

section \<open>Pending waits\<close>

text \<open>
  The waits the callers hold, as a ghost list \<open>W\<close> of reservations not yet released, explain
  the three wait indexes.
\<close>

definition wait_sessions :: "WaitReservation list \<Rightarrow> (nat, js_string) js_map" where
  "wait_sessions W = map (\<lambda>w. (wt_id w, wt_sessionId w)) W"

definition wait_owners :: "WaitReservation list \<Rightarrow> (nat, js_string) js_map" where
  "wait_owners W = map (\<lambda>w. (wt_id w, wt_ownerKey w)) W"

definition wait_ok :: "SessionRegistry \<Rightarrow> WaitReservation list \<Rightarrow> bool" where
  "wait_ok g W \<longleftrightarrow>
     index_ok (waitsBySession g) (wait_sessions W) \<and>
     index_ok (waitsByOwner g) (wait_owners W) \<and>
     waits g = map wt_id W \<and>
     (\<forall>w\<in>set W. wt_id w < nextWaitId g \<and> \<not> wt_released w)"

lemma map_set_fresh: "map_get m k = None \<Longrightarrow> map_set m k v = m @ [(k, v)]"
  by (induction m) auto

lemma wait_maps_fresh:
  "\<forall>w\<in>set W. wt_id w < n \<Longrightarrow> map_get (wait_sessions W) n = None \<and> map_get (wait_owners W) n = None"
  by (auto simp: wait_sessions_def wait_owners_def map_of_eq_None_iff)

lemma wait_maps_append:
  "wait_sessions (W @ [w]) = wait_sessions W @ [(wt_id w, wt_sessionId w)]"
  "wait_owners (W @ [w]) = wait_owners W @ [(wt_id w, wt_ownerKey w)]"
  by (simp_all add: wait_sessions_def wait_owners_def)

lemma wait_maps_filter:
  "wait_sessions (filter (\<lambda>w. wt_id w \<noteq> i) W) = map_delete (wait_sessions W) i"
  "wait_owners (filter (\<lambda>w. wt_id w \<noteq> i) W) = map_delete (wait_owners W) i"
  by (induction W) (auto simp: wait_sessions_def wait_owners_def AList.delete_eq)

lemma wait_maps_get:
  assumes "wait_ok g W" and "w \<in> set W"
  shows "map_get (wait_sessions W) (wt_id w) = Some (wt_sessionId w)"
    and "map_get (wait_owners W) (wt_id w) = Some (wt_ownerKey w)"
proof -
  have "distinct (map fst (wait_sessions W))" "distinct (map fst (wait_owners W))"
    using assms(1) by (simp_all add: wait_ok_def index_ok_def map_ok_def)
  then show "map_get (wait_sessions W) (wt_id w) = Some (wt_sessionId w)"
    and "map_get (wait_owners W) (wt_id w) = Some (wt_ownerKey w)"
    using assms(2) by (auto simp: wait_sessions_def wait_owners_def intro!: map_of_is_SomeI)
qed

lemma reserveWait_Inr:
  assumes "reserveWait g r = Inr (w, g')"
  shows "w = \<lparr> wt_id = nextWaitId g, wt_sessionId = session_id r, wt_ownerKey = ownerKey r,
      wt_released = False \<rparr>"
    and "g' = g\<lparr> nextWaitId := Suc (nextWaitId g),
       waitsBySession := map_set (waitsBySession g) (session_id r)
         (set_add (nullish (map_get (waitsBySession g) (session_id r)) []) (nextWaitId g)),
       waitsByOwner := map_set (waitsByOwner g) (ownerKey r)
         (set_add (nullish (map_get (waitsByOwner g) (ownerKey r)) []) (nextWaitId g)),
       waits := set_add (waits g) (nextWaitId g) \<rparr>"
    and "set_size (waitsBySession g) (session_id r) < maxPendingWaitsPerSession (limits g)"
    and "set_size (waitsByOwner g) (ownerKey r) < maxPendingWaitsPerOwner (limits g)"
    and "length (waits g) < maxPendingWaits (limits g)"
  using assms by (auto simp: reserveWait_def Let_def split: if_splits)

lemma reserveWait_ok:
  assumes ok: "wait_ok g W" and res: "reserveWait g r = Inr (w, g')"
  shows "wait_ok g' (W @ [w])"
proof -
  let ?n = "nextWaitId g"
  have ids: "\<forall>w\<in>set W. wt_id w < ?n" using ok by (simp add: wait_ok_def)
  note fresh = wait_maps_fresh [OF ids]
  have nin: "?n \<notin> set (waits g)" using ok ids by (auto simp: wait_ok_def)
  have "index_ok (waitsBySession g') (wait_sessions (W @ [w]))"
    using ok fresh index_ok_add [of "waitsBySession g" "wait_sessions W" ?n "session_id r"]
    unfolding reserveWait_Inr(1,2) [OF res] by (simp add: wait_ok_def wait_maps_append map_set_fresh)
  moreover have "index_ok (waitsByOwner g') (wait_owners (W @ [w]))"
    using ok fresh index_ok_add [of "waitsByOwner g" "wait_owners W" ?n "ownerKey r"]
    unfolding reserveWait_Inr(1,2) [OF res] by (simp add: wait_ok_def wait_maps_append map_set_fresh)
  ultimately show ?thesis
    using ok nin unfolding reserveWait_Inr(1,2) [OF res]
    by (auto simp: wait_ok_def set_add_def)
qed

definition outstanding_waits :: "WaitReservation list \<Rightarrow> WaitReservation \<Rightarrow> WaitReservation list" where
  "outstanding_waits W w = filter (\<lambda>v. wt_id v \<noteq> wt_id w) W"

lemma releaseWait_ok:
  assumes ok: "wait_ok g W" and w: "w \<in> set W" and rel: "releaseWait g w = (w', g')"
  shows "wait_ok g' (outstanding_waits W w)"
proof -
  have nr: "\<not> wt_released w" using ok w by (simp add: wait_ok_def)
  have g': "g' = g\<lparr> waits := set_delete (waits g) (wt_id w),
           waitsBySession := drop_member (waitsBySession g) (wt_sessionId w) (wt_id w),
           waitsByOwner := drop_member (waitsByOwner g) (wt_ownerKey w) (wt_id w) \<rparr>"
    using rel nr by (auto simp: releaseWait_def)
  show ?thesis
    using ok index_ok_drop [of "waitsBySession g" "wait_sessions W" "wt_id w" "wt_sessionId w"]
      index_ok_drop [of "waitsByOwner g" "wait_owners W" "wt_id w" "wt_ownerKey w"]
      wait_maps_get [OF ok w]
    unfolding g' outstanding_waits_def
    by (auto simp: wait_ok_def wait_maps_filter set_delete_def filter_map o_def)
qed

section \<open>Queued input\<close>

definition input_sum :: "InputReservation list \<Rightarrow> int" where
  "input_sum V = (\<Sum>v\<leftarrow>V. int (in_bytes v))"

lemma input_sum_simps [simp]:
  "input_sum [] = 0" "input_sum (v # V) = int (in_bytes v) + input_sum V"
  "input_sum (V @ V') = input_sum V + input_sum V'"
  by (simp_all add: input_sum_def)

lemma input_sum_nonneg [simp]: "0 \<le> input_sum V"
  by (induction V) auto

lemma input_sum_remove:
  "v \<in> set V \<Longrightarrow> input_sum (filter P (remove1 v V)) =
     input_sum (filter P V) - (if P v then int (in_bytes v) else 0)"
  by (induction V) auto

definition input_ok :: "SessionRegistry \<Rightarrow> InputReservation list \<Rightarrow> bool" where
  "input_ok g V \<longleftrightarrow>
     (\<forall>i. nullish (map_get (inputBytesBySession g) i) 0 = input_sum (filter (\<lambda>v. in_sessionId v = i) V)) \<and>
     (\<forall>k. nullish (map_get (inputBytesByOwner g) k) 0 = input_sum (filter (\<lambda>v. in_ownerKey v = k) V)) \<and>
     inputBytes g = input_sum V \<and> (\<forall>v\<in>set V. \<not> in_released v)"

lemma reserveInput_Inr:
  assumes "reserveInput g r b = Inr (v, g')"
  shows "v = \<lparr> in_sessionId = session_id r, in_ownerKey = ownerKey r, in_bytes = b, in_released = False \<rparr>"
    and "g' = g\<lparr> inputBytesBySession := map_set (inputBytesBySession g) (session_id r)
         (nullish (map_get (inputBytesBySession g) (session_id r)) 0 + int b),
       inputBytesByOwner := map_set (inputBytesByOwner g) (ownerKey r)
         (nullish (map_get (inputBytesByOwner g) (ownerKey r)) 0 + int b),
       inputBytes := inputBytes g + int b \<rparr>"
    and "nullish (map_get (inputBytesBySession g) (session_id r)) 0 + int b
      \<le> int (maxQueuedInputBytesPerSession (limits g))"
    and "nullish (map_get (inputBytesByOwner g) (ownerKey r)) 0 + int b
      \<le> int (maxQueuedInputBytesPerOwner (limits g))"
    and "inputBytes g + int b \<le> int (maxQueuedInputBytes (limits g))"
  using assms by (auto simp: reserveInput_def Let_def split: if_splits)

lemma reserveInput_ok:
  "input_ok g V \<Longrightarrow> reserveInput g r b = Inr (v, g') \<Longrightarrow> input_ok g' (V @ [v])"
  using reserveInput_Inr(1,2) [of g r b v g'] by (auto simp: input_ok_def)

lemma subtract_get:
  "amount \<le> nullish (map_get m k) 0 \<Longrightarrow>
   nullish (map_get (subtract m k amount) k') 0 = nullish (map_get m k') 0 - (if k' = k then amount else 0)"
  by (auto simp: subtract_def Let_def)

lemma releaseInput_ok:
  assumes ok: "input_ok g V" and v: "v \<in> set V" and rel: "releaseInput g v = (v', g')"
  shows "input_ok g' (remove1 v V)"
proof -
  have nr: "\<not> in_released v" using ok v by (simp add: input_ok_def)
  have le: "P v \<Longrightarrow> int (in_bytes v) \<le> input_sum (filter P V)" for P
    using input_sum_remove [OF v, of P] input_sum_nonneg [of "filter P (remove1 v V)"] by simp
  have "int (in_bytes v) \<le> nullish (map_get (inputBytesBySession g) (in_sessionId v)) 0"
    "int (in_bytes v) \<le> nullish (map_get (inputBytesByOwner g) (in_ownerKey v)) 0"
    using ok le by (simp_all add: input_ok_def)
  note sub = this [THEN subtract_get]
  have total: "input_sum (remove1 v V) = input_sum V - int (in_bytes v)"
    using input_sum_remove [OF v, of "\<lambda>_. True"] by simp
  have rest: "\<forall>u\<in>set (remove1 v V). \<not> in_released u"
    using ok set_remove1_subset [of v V] by (auto simp: input_ok_def)
  have "g' = g\<lparr> inputBytesBySession := subtract (inputBytesBySession g) (in_sessionId v) (int (in_bytes v)),
           inputBytesByOwner := subtract (inputBytesByOwner g) (in_ownerKey v) (int (in_bytes v)),
           inputBytes := inputBytes g - int (in_bytes v) \<rparr>"
    using rel nr by (auto simp: releaseInput_def)
  then show ?thesis
    using ok rest total by (auto simp: input_ok_def sub input_sum_remove [OF v])
qed

section \<open>Reachable registries\<close>

text \<open>
  The registry as its callers drive it, for one setting of the limits and of the session
  limit per owner. The supervisor reserves a freshly generated session id, releases a wait
  or an input reservation it holds, and settles a record whose journal stays within the
  output it reserved.
\<close>

definition within_reservation :: "platform \<Rightarrow> SessionRegistry \<Rightarrow> SessionRecord \<Rightarrow> bool" where
  "within_reservation pf g r \<longleftrightarrow>
     outputReservation pf r \<le> nullish (map_get (outputBySessionId g) (session_id r)) 0"

inductive registry_reach ::
  "platform \<Rightarrow> SessionLimits \<Rightarrow> nat \<Rightarrow> SessionRegistry \<Rightarrow> WaitReservation list \<Rightarrow> InputReservation list \<Rightarrow> bool"
  for pf :: platform and lim :: SessionLimits and m :: nat where
  reach_new: "registry_reach pf lim m (new_registry lim) [] []"
| reach_reserve: "registry_reach pf lim m g W V \<Longrightarrow>
    map_get (recordOwnerBySessionId g) (session_id r) = None \<Longrightarrow>
    reserve pf g r m = Inr (rv, g') \<Longrightarrow> registry_reach pf lim m g' W V"
| reach_release: "registry_reach pf lim m g W V \<Longrightarrow> registry_reach pf lim m (release g i) W V"
| reach_settle: "registry_reach pf lim m g W V \<Longrightarrow> within_reservation pf g r \<Longrightarrow>
    registry_reach pf lim m (releaseIfSettled pf g r) W V"
| reach_wait: "registry_reach pf lim m g W V \<Longrightarrow> reserveWait g r = Inr (w, g') \<Longrightarrow>
    registry_reach pf lim m g' (W @ [w]) V"
| reach_wait_done: "registry_reach pf lim m g W V \<Longrightarrow> w \<in> set W \<Longrightarrow> releaseWait g w = (w', g') \<Longrightarrow>
    registry_reach pf lim m g' (outstanding_waits W w) V"
| reach_input: "registry_reach pf lim m g W V \<Longrightarrow> reserveInput g r b = Inr (v, g') \<Longrightarrow>
    registry_reach pf lim m g' W (V @ [v])"
| reach_input_done: "registry_reach pf lim m g W V \<Longrightarrow> v \<in> set V \<Longrightarrow> releaseInput g v = (v', g') \<Longrightarrow>
    registry_reach pf lim m g' W (remove1 v V)"

text \<open>Nothing but the wait operations touches the wait indexes, and likewise for the input.\<close>

lemma releaseIfSettled_frame [simp]:
  "recordsByOwner (releaseIfSettled pf g r) = recordsByOwner g"
  "recordOwnerBySessionId (releaseIfSettled pf g r) = recordOwnerBySessionId g"
  "waitsBySession (releaseIfSettled pf g r) = waitsBySession g"
  "waitsByOwner (releaseIfSettled pf g r) = waitsByOwner g"
  "waits (releaseIfSettled pf g r) = waits g"
  "nextWaitId (releaseIfSettled pf g r) = nextWaitId g"
  "inputBytesBySession (releaseIfSettled pf g r) = inputBytesBySession g"
  "inputBytesByOwner (releaseIfSettled pf g r) = inputBytesByOwner g"
  "inputBytes (releaseIfSettled pf g r) = inputBytes g"
  "limits (releaseIfSettled pf g r) = limits g"
  by (simp_all add: releaseIfSettled_def)

lemma wait_input_frame [simp]:
  "wait_ok (release g i) W = wait_ok g W" "input_ok (release g i) V = input_ok g V"
  "wait_ok (releaseIfSettled pf g r) W = wait_ok g W"
  "input_ok (releaseIfSettled pf g r) V = input_ok g V"
  "wait_ok (setOutput (addRecord (addActive g i k) i k) i k b) W = wait_ok g W"
  "input_ok (setOutput (addRecord (addActive g i k) i k) i k b) V = input_ok g V"
  by (simp_all add: wait_ok_def input_ok_def)

lemma registry_inv_upd [simp]:
  "registry_inv (waits_update f g) = registry_inv g"
  "registry_inv (nextWaitId_update f2 g) = registry_inv g"
  "registry_inv (waitsBySession_update f3 g) = registry_inv g"
  "registry_inv (waitsByOwner_update f4 g) = registry_inv g"
  "registry_inv (inputBytesBySession_update f5 g) = registry_inv g"
  "registry_inv (inputBytesByOwner_update f6 g) = registry_inv g"
  "registry_inv (inputBytes_update f7 g) = registry_inv g"
  unfolding registry_inv_def slots.index_inv_def recs.index_inv_def output_ok_def by simp_all

lemma wait_ok_upd [simp]:
  "wait_ok (inputBytesBySession_update f5 g) W = wait_ok g W"
  "wait_ok (inputBytesByOwner_update f6 g) W = wait_ok g W"
  "wait_ok (inputBytes_update f7 g) W = wait_ok g W"
  unfolding wait_ok_def by simp_all

lemma input_ok_upd [simp]:
  "input_ok (waits_update f g) V = input_ok g V"
  "input_ok (nextWaitId_update f2 g) V = input_ok g V"
  "input_ok (waitsBySession_update f3 g) V = input_ok g V"
  "input_ok (waitsByOwner_update f4 g) V = input_ok g V"
  unfolding input_ok_def by simp_all

lemma reserveWait_frame:
  "reserveWait g r = Inr (w, g') \<Longrightarrow>
     registry_inv g' = registry_inv g \<and> input_ok g' V = input_ok g V \<and> limits g' = limits g"
  by (drule reserveWait_Inr(2)) simp

lemma reserveInput_frame:
  "reserveInput g r b = Inr (v, g') \<Longrightarrow>
     registry_inv g' = registry_inv g \<and> wait_ok g' W = wait_ok g W \<and> limits g' = limits g"
  by (drule reserveInput_Inr(2)) simp

lemma releaseWait_frame:
  "releaseWait g w = (w', g') \<Longrightarrow>
     registry_inv g' = registry_inv g \<and> input_ok g' V = input_ok g V \<and> limits g' = limits g"
  by (auto simp: releaseWait_def split: if_splits)

lemma releaseInput_frame:
  "releaseInput g v = (v', g') \<Longrightarrow>
     registry_inv g' = registry_inv g \<and> wait_ok g' W = wait_ok g W \<and> limits g' = limits g"
  by (auto simp: releaseInput_def split: if_splits)

lemma reach_inv:
  "registry_reach pf lim m g W V \<Longrightarrow> registry_inv g \<and> wait_ok g W \<and> input_ok g V \<and> limits g = lim"
proof (induction rule: registry_reach.induct)
  case reach_new
  show ?case
    by (simp add: new_registry_inv) (simp add: new_registry_def wait_ok_def input_ok_def wait_sessions_def
        wait_owners_def)
next
  case (reach_reserve g W V r rv g')
  then show ?case
    using reserve_inv [of g r pf m rv g'] reserve_Inr(1) [OF reach_reserve.hyps(3)] by simp
next
  case (reach_release g W V i)
  then show ?case by (simp add: release_inv)
next
  case (reach_settle g W V r)
  then show ?case by (simp add: releaseIfSettled_inv)
next
  case (reach_wait g W V r w g')
  then show ?case using reserveWait_ok reserveWait_frame by blast
next
  case (reach_wait_done g W V w w' g')
  then show ?case using releaseWait_ok releaseWait_frame by blast
next
  case (reach_input g W V r b v g')
  then show ?case using reserveInput_ok reserveInput_frame by blast
next
  case (reach_input_done g W V v v' g')
  then show ?case using releaseInput_ok releaseInput_frame by blast
qed

section \<open>Quotas\<close>

definition slots_within :: "nat \<Rightarrow> SessionRegistry \<Rightarrow> bool" where
  "slots_within m g \<longleftrightarrow>
     (\<forall>k. set_size (ownerSlots g) k \<le> m \<and> set_size (recordsByOwner g) k \<le> maxRecordsPerOwner (limits g)) \<and>
     length (slotOwnerBySessionId g) \<le> maxActiveSessions (limits g) \<and>
     length (recordOwnerBySessionId g) \<le> maxRecords (limits g)"

definition output_within :: "SessionRegistry \<Rightarrow> bool" where
  "output_within g \<longleftrightarrow>
     (\<forall>i. 0 \<le> nullish (map_get (outputBySessionId g) i) 0) \<and>
     (\<forall>k. nullish (map_get (outputByOwner g) k) 0 \<le> int (maxRetainedOutputBytesPerOwner (limits g))) \<and>
     outputTotal g \<le> int (maxRetainedOutputBytes (limits g))"

definition waits_within :: "SessionRegistry \<Rightarrow> bool" where
  "waits_within g \<longleftrightarrow>
     (\<forall>i. set_size (waitsBySession g) i \<le> maxPendingWaitsPerSession (limits g)) \<and>
     (\<forall>k. set_size (waitsByOwner g) k \<le> maxPendingWaitsPerOwner (limits g)) \<and>
     length (waits g) \<le> maxPendingWaits (limits g)"

definition input_within :: "SessionRegistry \<Rightarrow> bool" where
  "input_within g \<longleftrightarrow>
     (\<forall>i. nullish (map_get (inputBytesBySession g) i) 0 \<le> int (maxQueuedInputBytesPerSession (limits g))) \<and>
     (\<forall>k. nullish (map_get (inputBytesByOwner g) k) 0 \<le> int (maxQueuedInputBytesPerOwner (limits g))) \<and>
     inputBytes g \<le> int (maxQueuedInputBytes (limits g))"

lemma registry_invD:
  assumes "registry_inv g"
  shows "slots.index_inv g" "recs.index_inv g" "output_ok g"
  using assms by (simp_all add: registry_inv_def)

lemma outputReservation_nonneg [simp]: "0 \<le> outputReservation pf r"
  by (simp add: outputReservation_def)

lemma reserve_usage:
  assumes inv: "registry_inv g" and fresh: "map_get (recordOwnerBySessionId g) (session_id r) = None"
    and res: "reserve pf g r m = Inr (rv, g')"
  shows "set_size (ownerSlots g') k = set_size (ownerSlots g) k + (if k = ownerKey r then 1 else 0)"
    and "length (slotOwnerBySessionId g') = Suc (length (slotOwnerBySessionId g))"
    and "set_size (recordsByOwner g') k = set_size (recordsByOwner g) k + (if k = ownerKey r then 1 else 0)"
    and "length (recordOwnerBySessionId g') = Suc (length (recordOwnerBySessionId g))"
    and "nullish (map_get (outputByOwner g') k) 0 = nullish (map_get (outputByOwner g) k) 0 +
      (if k = ownerKey r then outputReservation pf r else 0)"
    and "outputTotal g' = outputTotal g + outputReservation pf r"
    and "nullish (map_get (outputBySessionId g') i) 0 =
      (if i = session_id r then outputReservation pf r else nullish (map_get (outputBySessionId g) i) 0)"
proof -
  let ?a = "addActive g (session_id r) (ownerKey r)"
  have none: "map_get (outputBySessionId g) (session_id r) = None"
    using registry_invD(3) [OF inv] fresh by (auto simp: output_ok_def)
  note free = slot_free [OF inv fresh]
  have ra: "recs.index_inv ?a" "map_get (recordOwnerBySessionId ?a) (session_id r) = None"
    using registry_invD(2) [OF inv] fresh by simp_all
  note unf = reserve_Inr(1) [OF res]
  show "set_size (ownerSlots g') k = set_size (ownerSlots g) k + (if k = ownerKey r then 1 else 0)"
    "length (slotOwnerBySessionId g') = Suc (length (slotOwnerBySessionId g))"
    unfolding unf using slots.count_add [OF registry_invD(1) [OF inv] free] by simp_all
  show "set_size (recordsByOwner g') k = set_size (recordsByOwner g) k + (if k = ownerKey r then 1 else 0)"
    "length (recordOwnerBySessionId g') = Suc (length (recordOwnerBySessionId g))"
    unfolding unf using recs.count_add [OF ra] by simp_all
  show "nullish (map_get (outputByOwner g') k) 0 = nullish (map_get (outputByOwner g) k) 0 +
      (if k = ownerKey r then outputReservation pf r else 0)"
    "outputTotal g' = outputTotal g + outputReservation pf r"
    "nullish (map_get (outputBySessionId g') i) 0 =
      (if i = session_id r then outputReservation pf r else nullish (map_get (outputBySessionId g) i) 0)"
    unfolding unf using none by simp_all
qed

lemma reserve_limits: "reserve pf g r m = Inr (rv, g') \<Longrightarrow> limits g' = limits g"
  by (drule reserve_Inr(1)) simp

lemma reserve_within:
  assumes inv: "registry_inv g" and fresh: "map_get (recordOwnerBySessionId g) (session_id r) = None"
    and res: "reserve pf g r m = Inr (rv, g')"
  shows "slots_within m g \<Longrightarrow> slots_within m g'" and "output_within g \<Longrightarrow> output_within g'"
  using reserve_Inr(3-8) [OF res] reserve_usage [OF inv fresh res] reserve_limits [OF res]
  by (auto simp: slots_within_def output_within_def)

lemma release_outputs:
  "recs.index_inv g \<Longrightarrow> nullish (map_get (outputBySessionId (release g i)) j) 0 =
    (if j = i \<and> map_has (recordOwnerBySessionId g) i then 0
     else nullish (map_get (outputBySessionId g) j) 0)"
  "recs.index_inv g \<Longrightarrow> nullish (map_get (outputByOwner (release g i)) k) 0 =
    nullish (map_get (outputByOwner g) k) 0 -
    (if map_get (recordOwnerBySessionId g) i = Some k then nullish (map_get (outputBySessionId g) i) 0 else 0)"
  "recs.index_inv g \<Longrightarrow> outputTotal (release g i) = outputTotal g -
    (if map_has (recordOwnerBySessionId g) i then nullish (map_get (outputBySessionId g) i) 0 else 0)"
  by (auto simp: release_def Let_def recs.index_inv_def split: option.splits)

lemma release_within:
  assumes inv: "registry_inv g"
  shows "slots_within m g \<Longrightarrow> slots_within m (release g i)"
    and "output_within g \<Longrightarrow> output_within (release g i)"
proof -
  show "slots_within m (release g i)" if "slots_within m g"
    using that slots.count_remove_le [OF registry_invD(1) [OF inv], of i]
      recs.count_remove_le [OF registry_invD(2) [OF inv], of i]
    unfolding slots_within_def by (simp del: ) (meson order_trans)
  show "output_within (release g i)" if w: "output_within g"
  proof -
    have p: "0 \<le> nullish (map_get (outputBySessionId g) i) 0"
      and "outputTotal g \<le> int (maxRetainedOutputBytes (limits g))"
      using w by (simp_all add: output_within_def)
    then have tot: "outputTotal g - nullish (map_get (outputBySessionId g) i) 0
      \<le> int (maxRetainedOutputBytes (limits g))" by linarith
    show ?thesis
      unfolding output_within_def release_outputs [OF registry_invD(2) [OF inv]]
    proof (intro conjI allI)
      fix k
      have "nullish (map_get (outputByOwner g) k) 0 \<le> int (maxRetainedOutputBytesPerOwner (limits g))"
        using w by (simp add: output_within_def)
      then show "nullish (map_get (outputByOwner g) k) 0 -
        (if map_get (recordOwnerBySessionId g) i = Some k then nullish (map_get (outputBySessionId g) i) 0 else 0)
        \<le> int (maxRetainedOutputBytesPerOwner (limits (release g i)))"
        using p by simp
    qed (use w tot in \<open>simp_all add: output_within_def\<close>)
  qed
qed

lemma updateOutput_outputs:
  assumes "recs.index_inv g"
  shows "nullish (map_get (outputBySessionId (updateOutput pf g r)) j) 0 =
    (if j = session_id r \<and> map_has (recordOwnerBySessionId g) j then outputReservation pf r
     else nullish (map_get (outputBySessionId g) j) 0)"
    and "nullish (map_get (outputByOwner (updateOutput pf g r)) k) 0 =
    nullish (map_get (outputByOwner g) k) 0 +
    (if map_get (recordOwnerBySessionId g) (session_id r) = Some k
     then outputReservation pf r - nullish (map_get (outputBySessionId g) (session_id r)) 0 else 0)"
    and "outputTotal (updateOutput pf g r) = outputTotal g +
    (if map_has (recordOwnerBySessionId g) (session_id r)
     then outputReservation pf r - nullish (map_get (outputBySessionId g) (session_id r)) 0 else 0)"
  using assms by (auto simp: updateOutput_def recs.index_inv_def split: option.splits)

lemma settle_within:
  assumes inv: "registry_inv g" and wr: "within_reservation pf g r"
  shows "slots_within m g \<Longrightarrow> slots_within m (releaseIfSettled pf g r)"
    and "output_within g \<Longrightarrow> output_within (releaseIfSettled pf g r)"
proof -
  show "slots_within m (releaseIfSettled pf g r)" if "slots_within m g"
    using that slots.count_remove_le [OF registry_invD(1) [OF inv], of "session_id r"]
    unfolding slots_within_def releaseIfSettled_def by simp (meson order_trans)
  show "output_within (releaseIfSettled pf g r)" if w: "output_within g"
  proof -
    let ?h = "if \<not> occupiesSlot pf r then releaseActive g (session_id r) else g"
    have h: "recs.index_inv ?h" using registry_invD(2) [OF inv] by simp
    have d: "outputReservation pf r - nullish (map_get (outputBySessionId g) (session_id r)) 0 \<le> 0"
      using wr by (simp add: within_reservation_def)
    show ?thesis
      unfolding output_within_def releaseIfSettled_def updateOutput_outputs [OF h]
    proof (intro conjI allI)
      fix k
      have "nullish (map_get (outputByOwner g) k) 0 \<le> int (maxRetainedOutputBytesPerOwner (limits g))"
        using w by (simp add: output_within_def)
      then show "nullish (map_get (outputByOwner ?h) k) 0 +
        (if map_get (recordOwnerBySessionId ?h) (session_id r) = Some k
         then outputReservation pf r - nullish (map_get (outputBySessionId ?h) (session_id r)) 0 else 0)
        \<le> int (maxRetainedOutputBytesPerOwner (limits (updateOutput pf ?h r)))"
        using d by simp
    qed (use w d in \<open>simp_all add: output_within_def\<close>)
  qed
qed

lemma reserveWait_within:
  assumes ok: "wait_ok g W" and res: "reserveWait g r = Inr (w, g')" and wi: "waits_within g"
  shows "waits_within g'"
proof -
  let ?n = "nextWaitId g"
  have ix: "index_ok (waitsBySession g) (wait_sessions W)" "index_ok (waitsByOwner g) (wait_owners W)"
    and ids: "\<forall>w\<in>set W. wt_id w < ?n"
    using ok by (simp_all add: wait_ok_def)
  note fresh = wait_maps_fresh [OF ids]
  show ?thesis
    using wi reserveWait_Inr(3-5) [OF res] set_size_add [OF ix(1), of ?n] set_size_add [OF ix(2), of ?n] fresh
    unfolding reserveWait_Inr(2) [OF res] by (auto simp: waits_within_def length_set_add)
qed

lemma releaseWait_within:
  assumes ok: "wait_ok g W" and w: "w \<in> set W" and rel: "releaseWait g w = (w', g')" and wi: "waits_within g"
  shows "waits_within g'"
proof -
  have nr: "\<not> wt_released w" using ok w by (simp add: wait_ok_def)
  have ix: "index_ok (waitsBySession g) (wait_sessions W)" "index_ok (waitsByOwner g) (wait_owners W)"
    using ok by (simp_all add: wait_ok_def)
  have "length (set_delete (waits g) (wt_id w)) \<le> length (waits g)" by (simp add: set_delete_def)
  then have "length (set_delete (waits g) (wt_id w)) \<le> maxPendingWaits (limits g)"
    using wi by (simp add: waits_within_def)
  moreover have "set_size (drop_member (waitsBySession g) (wt_sessionId w) (wt_id w)) i
      \<le> maxPendingWaitsPerSession (limits g)" for i
    using set_size_drop [OF ix(1) wait_maps_get(1) [OF ok w], of i] wi
    by (auto simp: waits_within_def intro: le_trans [OF diff_le_self])
  moreover have "set_size (drop_member (waitsByOwner g) (wt_ownerKey w) (wt_id w)) k
      \<le> maxPendingWaitsPerOwner (limits g)" for k
    using set_size_drop [OF ix(2) wait_maps_get(2) [OF ok w], of k] wi
    by (auto simp: waits_within_def intro: le_trans [OF diff_le_self])
  ultimately show ?thesis
    using wi rel nr by (auto simp: waits_within_def releaseWait_def)
qed

lemma reserveInput_within:
  "reserveInput g r b = Inr (v, g') \<Longrightarrow> input_within g \<Longrightarrow> input_within g'"
  using reserveInput_Inr(2-5) [of g r b v g'] by (auto simp: input_within_def)

lemma subtract_le:
  assumes "\<forall>k. nullish (map_get m k) 0 \<le> int c"
  shows "nullish (map_get (subtract m k (int n)) k') 0 \<le> int c"
proof -
  have "nullish (map_get m k) 0 - int n \<le> int c" using assms [rule_format, of k] by linarith
  with assms show ?thesis by (simp add: subtract_def Let_def)
qed

lemma releaseInput_within:
  "releaseInput g v = (v', g') \<Longrightarrow> input_within g \<Longrightarrow> input_within g'"
  by (auto simp: releaseInput_def input_within_def intro!: subtract_le split: if_splits)

lemma within_upd [simp]:
  "waits_within (release g i) = waits_within g" "input_within (release g i) = input_within g"
  "waits_within (releaseIfSettled pf g r) = waits_within g"
  "input_within (releaseIfSettled pf g r) = input_within g"
  by (simp_all add: waits_within_def input_within_def)

lemma reserve_frame:
  "reserve pf g r m = Inr (rv, g') \<Longrightarrow>
   waits_within g' = waits_within g \<and> input_within g' = input_within g"
  by (drule reserve_Inr(1)) (simp add: waits_within_def input_within_def)

lemma reserveWait_frame2:
  "reserveWait g r = Inr (w, g') \<Longrightarrow> slots_within m g' = slots_within m g \<and>
   output_within g' = output_within g \<and> input_within g' = input_within g"
  by (drule reserveWait_Inr(2)) (simp add: slots_within_def output_within_def input_within_def)

lemma reserveInput_frame2:
  "reserveInput g r b = Inr (v, g') \<Longrightarrow> slots_within m g' = slots_within m g \<and>
   output_within g' = output_within g \<and> waits_within g' = waits_within g"
  by (drule reserveInput_Inr(2)) (simp add: slots_within_def output_within_def waits_within_def)

lemma releaseWait_frame2:
  "releaseWait g w = (w', g') \<Longrightarrow> slots_within m g' = slots_within m g \<and>
   output_within g' = output_within g \<and> input_within g' = input_within g"
  by (cases "wt_released w")
     (auto simp: releaseWait_def slots_within_def output_within_def input_within_def)

lemma releaseInput_frame2:
  "releaseInput g v = (v', g') \<Longrightarrow> slots_within m g' = slots_within m g \<and>
   output_within g' = output_within g \<and> waits_within g' = waits_within g"
  by (cases "in_released v")
     (auto simp: releaseInput_def slots_within_def output_within_def waits_within_def)

lemma reach_within:
  "registry_reach pf lim m g W V \<Longrightarrow>
   slots_within m g \<and> output_within g \<and> waits_within g \<and> input_within g"
proof (induction rule: registry_reach.induct)
  case reach_new
  show ?case
    by (simp add: new_registry_def slots_within_def output_within_def waits_within_def input_within_def
        set_size_def)
next
  case (reach_reserve g W V r rv g')
  have "registry_inv g" using reach_inv [OF reach_reserve.hyps(1)] by blast
  then show ?case
    using reach_reserve reserve_within reserve_frame by blast
next
  case (reach_release g W V i)
  have "registry_inv g" using reach_inv [OF reach_release.hyps] by blast
  with reach_release.IH show ?case by (simp add: release_within)
next
  case (reach_settle g W V r)
  have "registry_inv g" using reach_inv [OF reach_settle.hyps(1)] by blast
  with reach_settle show ?case by (simp add: settle_within)
next
  case (reach_wait g W V r w g')
  have "wait_ok g W" using reach_inv [OF reach_wait.hyps(1)] by blast
  then show ?case using reach_wait reserveWait_within reserveWait_frame2 by blast
next
  case (reach_wait_done g W V w w' g')
  have "wait_ok g W" using reach_inv [OF reach_wait_done.hyps(1)] by blast
  then show ?case using reach_wait_done releaseWait_within releaseWait_frame2 by blast
next
  case (reach_input g W V r b v g')
  then show ?case using reserveInput_within reserveInput_frame2 by blast
next
  case (reach_input_done g W V v v' g')
  then show ?case using releaseInput_within releaseInput_frame2 by blast
qed

section \<open>Properties\<close>

lemma release_reserved_usage:
  assumes inv: "registry_inv g" and fresh: "map_get (recordOwnerBySessionId g) (session_id r) = None"
    and res: "reserve pf g r m = Inr (rv, g')"
  shows "usage (release g' (session_id r)) k = usage g k \<and> totalUsage (release g' (session_id r)) = totalUsage g"
proof -
  let ?i = "session_id r"
  have inv': "registry_inv g'" by (rule reserve_inv [OF inv fresh res])
  have own: "map_get (slotOwnerBySessionId g') ?i = Some (ownerKey r)"
    "map_get (recordOwnerBySessionId g') ?i = Some (ownerKey r)"
    unfolding reserve_Inr(1) [OF res] by (simp_all add: slots.owner_of_add recs.owner_of_add)
  note u = reserve_usage [OF inv fresh res]
  have "waitsByOwner g' = waitsByOwner g" "waits g' = waits g" "inputBytesByOwner g' = inputBytesByOwner g"
    "inputBytes g' = inputBytes g"
    unfolding reserve_Inr(1) [OF res] by simp_all
  then show ?thesis
    using slots.count_remove [OF registry_invD(1) [OF inv'] own(1)]
      recs.count_remove [OF registry_invD(2) [OF inv'] own(2)]
      release_outputs(2,3) [OF registry_invD(2) [OF inv'], of ?i] own u
    by (simp add: usage_def totalUsage_def)
qed

text \<open>
  A session slot, record or output byte is never lost or counted twice. Releasing a
  reservation gives every owner and the daemon back exactly the usage they had before the
  reservation was made, and releasing it a second time changes nothing.
\<close>

theorem reservation_round_trip:
  assumes "registry_inv g" and "map_get (recordOwnerBySessionId g) (session_id r) = None"
    and "reserve pf g r m = Inr (rv, g1)" and "releaseReservation g1 rv = (rv', g2)"
  shows "usage g2 k = usage g k \<and> totalUsage g2 = totalUsage g \<and> releaseReservation g2 rv' = (rv', g2)"
proof -
  have "rv = \<lparr> rs_id = session_id r, rs_ownerKey = ownerKey r, rs_state = Reserved \<rparr>"
    by (rule reserve_Inr(2) [OF assms(3)])
  then have "g2 = release g1 (session_id r)" and "rs_state rv' = Released"
    using assms(4) by (auto simp: releaseReservation_def)
  then show ?thesis
    using release_reserved_usage [OF assms(1-3)] by (simp add: releaseReservation_def)
qed


text \<open>
  In every reachable registry the reported usage is the truth: the records an owner is
  charged for are the records filed under its key, its waits and its queued input are those
  of the reservations its callers still hold, and the owner's retained output is the sum of
  what its own records reserve.
\<close>

theorem reachable_usage_exact:
  assumes "registry_reach pf lim m g W V"
  shows "us_activeSessions (usage g k) = card {i. map_get (slotOwnerBySessionId g) i = Some k} \<and>
      us_records (usage g k) = card {i. map_get (recordOwnerBySessionId g) i = Some k} \<and>
      us_pendingWaits (usage g k) = length (filter (\<lambda>w. wt_ownerKey w = k) W) \<and>
      us_queuedInputBytes (usage g k) = input_sum (filter (\<lambda>v. in_ownerKey v = k) V) \<and>
      us_retainedOutputBytes (usage g k) =
        (\<Sum>i\<in>{i. map_get (recordOwnerBySessionId g) i = Some k}. nullish (map_get (outputBySessionId g) i) 0)"
proof -
  have inv: "registry_inv g" "wait_ok g W" "input_ok g V" using reach_inv [OF assms] by blast+
  have ix: "index_ok (waitsByOwner g) (wait_owners W)" and d: "distinct (map fst (wait_owners W))"
    using inv(2) by (auto simp: wait_ok_def index_ok_def map_ok_def)
  have "{i. map_get (wait_owners W) i = Some k} = set (map wt_id (filter (\<lambda>w. wt_ownerKey w = k) W))"
    using d by (auto simp: wait_owners_def)
  moreover have "distinct (map wt_id (filter (\<lambda>w. wt_ownerKey w = k) W))"
    using d by (simp add: wait_owners_def o_def distinct_map_filter)
  ultimately have "set_size (waitsByOwner g) k = length (filter (\<lambda>w. wt_ownerKey w = k) W)"
    unfolding set_size_card [OF ix] by (simp only: distinct_card length_map)
  then show ?thesis
    using inv set_size_card [of "ownerSlots g" "slotOwnerBySessionId g" k]
      set_size_card [of "recordsByOwner g" "recordOwnerBySessionId g" k]
    by (simp add: usage_def registry_inv_def slots.index_inv_def recs.index_inv_def input_ok_def
        output_ok_def owner_total_def owned_def)
qed

text \<open>
  The index rebuilt at start-up is a function of the stored records alone: every record
  is charged to its owner, a slot is held exactly by the records whose process may still be
  alive, the output each reserves is what a live reservation would have reserved, and the
  rebuilt registry satisfies the invariant the later operations rely on.
\<close>

theorem rebuild_refines_records:
  assumes "records_keyed g"
  shows "registry_inv (rebuildSlots pf g) \<and>
    map_get (recordOwnerBySessionId (rebuildSlots pf g)) i = map_option ownerKey (map_get (records g) i) \<and>
    map_get (slotOwnerBySessionId (rebuildSlots pf g)) i =
      (case map_get (records g) i of
         Some r \<Rightarrow> if occupiesSlot pf r then Some (ownerKey r) else None | None \<Rightarrow> None) \<and>
    nullish (map_get (outputBySessionId (rebuildSlots pf g)) i) 0 =
      (case map_get (records g) i of Some r \<Rightarrow> outputReservation pf r | None \<Rightarrow> 0)"
  using rebuildSlots_spec [OF assms] by blast

lemma owner_key_inject:
  assumes "NUL \<notin> set dir" "NUL \<notin> set cap" "NUL \<notin> set dir'" "NUL \<notin> set cap'"
    and "owner_key p dir cap = owner_key p' dir' cap'"
  shows "p = p' \<and> dir = dir' \<and> cap = cap'"
proof -
  have split: "a = a' \<and> b = b'" if "a @ NUL # b = a' @ NUL # b'" "NUL \<notin> set b" "NUL \<notin> set b'"
    for a b a' b' :: js_string
  proof -
    have last: "takeWhile (\<lambda>u. u \<noteq> NUL) (rev (c @ NUL # d)) = rev d" if "NUL \<notin> set d" for c d :: js_string
      using that takeWhile_append2 [of "rev d" "\<lambda>u. u \<noteq> NUL" "NUL # rev c"] by auto
    have "rev b = rev b'" using last [of b a] last [of b' a'] that by simp
    then show ?thesis using that(1) by simp
  qed
  have "(p @ NUL # dir) @ NUL # cap = (p' @ NUL # dir') @ NUL # cap'"
    using assms(5) by (simp add: owner_key_def)
  then have "p @ NUL # dir = p' @ NUL # dir'" and "cap = cap'"
    using split [of "p @ NUL # dir" cap "p' @ NUL # dir'" cap'] assms(2,4) by simp_all
  then show ?thesis using split [of p dir p' dir'] assms(1,3) by simp
qed

text \<open>
  Owners do not share quota. When no project directory and no capability hash contains a
  NUL, a reservation made for one owner leaves the usage of every other owner as it was.
\<close>

theorem reservation_owner_isolation:
  assumes "registry_inv g" and "map_get (recordOwnerBySessionId g) (session_id r) = None"
    and "reserve pf g r m = Inr (rv, g')"
    and "NUL \<notin> set (ownerProjectDirectory r)" "NUL \<notin> set (ownerCapabilityHash r)"
    and "NUL \<notin> set dir" "NUL \<notin> set cap"
    and "(parent, dir, cap) \<noteq> (parentSessionId r, ownerProjectDirectory r, ownerCapabilityHash r)"
  shows "usageFor g' parent dir cap = usageFor g parent dir cap"
proof -
  have "owner_key parent dir cap \<noteq> ownerKey r"
    using owner_key_inject [OF assms(6,7,4,5), of parent "parentSessionId r"] assms(8)
    unfolding ownerKey_def by blast
  moreover have "waitsByOwner g' = waitsByOwner g" "inputBytesByOwner g' = inputBytesByOwner g"
    unfolding reserve_Inr(1) [OF assms(3)] by simp_all
  ultimately show ?thesis
    using reserve_usage [OF assms(1-3)] by (simp add: usageFor_def usage_def)
qed

subsection \<open>Instances\<close>

definition sample_registry :: SessionRegistry where
  "sample_registry = setOutput (addRecord (addActive (new_registry DEFAULT_SESSION_LIMITS)
     (session_id sample_record) (ownerKey sample_record)) (session_id sample_record) (ownerKey sample_record))
     (session_id sample_record) (ownerKey sample_record) 1000"

lemma sample_occupies: "occupiesSlot Linux sample_record"
  by (simp add: occupiesSlot_def terminalDirectChild_def sample_record_def no_child_cleanup_def
      spawn_cleanup_of_def)

lemma sample_output: "outputReservation Linux sample_record = 1000"
  by (simp add: outputReservation_def sample_occupies) (simp add: sample_record_def)

lemma sample_reserve:
  "reserve Linux (new_registry DEFAULT_SESSION_LIMITS) sample_record 32 =
     Inr (\<lparr> rs_id = session_id sample_record, rs_ownerKey = ownerKey sample_record, rs_state = Reserved \<rparr>,
       sample_registry)"
  unfolding reserve_def sample_output Let_def
  unfolding sample_registry_def [symmetric]
  by (simp add: new_registry_def DEFAULT_SESSION_LIMITS_def set_size_def)

lemma sample_fresh:
  "map_get (recordOwnerBySessionId (new_registry DEFAULT_SESSION_LIMITS)) (session_id sample_record) = None"
  by (simp add: new_registry_def)

lemma sample_reach: "registry_reach Linux DEFAULT_SESSION_LIMITS 32 sample_registry [] []"
  by (rule reach_reserve [OF reach_new sample_fresh sample_reserve])

theorem reservation_round_trip_witness:
  "usage (release sample_registry (session_id sample_record)) (ownerKey sample_record) =
   usage (new_registry DEFAULT_SESSION_LIMITS) (ownerKey sample_record)"
  using reservation_round_trip [OF new_registry_inv sample_fresh sample_reserve, of
      "\<lparr> rs_id = session_id sample_record, rs_ownerKey = ownerKey sample_record, rs_state = Released \<rparr>"
      "release sample_registry (session_id sample_record)"]
  by (simp add: releaseReservation_def)


theorem reachable_usage_exact_witness:
  "us_records (usage sample_registry (ownerKey sample_record)) =
     card {i. map_get (recordOwnerBySessionId sample_registry) i = Some (ownerKey sample_record)}"
  using reachable_usage_exact [OF sample_reach] by blast

theorem rebuild_refines_records_witness:
  "map_get (slotOwnerBySessionId (rebuildSlots Linux
     ((new_registry DEFAULT_SESSION_LIMITS)\<lparr> records := [(session_id sample_record, sample_record)] \<rparr>)))
     (session_id sample_record) = Some (ownerKey sample_record)"
  using rebuild_refines_records [of "(new_registry DEFAULT_SESSION_LIMITS)
      \<lparr> records := [(session_id sample_record, sample_record)] \<rparr>" Linux "session_id sample_record"]
  by (simp add: records_keyed_def map_ok_def sample_occupies)

theorem reservation_owner_isolation_witness:
  "usageFor sample_registry (js ''ses_2'') (js ''/w'') (js ''ab'') =
   usageFor (new_registry DEFAULT_SESSION_LIMITS) (js ''ses_2'') (js ''/w'') (js ''ab'')"
  by (rule reservation_owner_isolation [OF new_registry_inv sample_fresh sample_reserve])
     (simp_all add: sample_record_def)

end
