(* ===== verification/Journal.thy ===== *)
theory Journal
  imports Lifecycle "HOL-Library.List_Lexorder" "HOL-Library.Multiset"
begin

text \<open>
  The output journal of a session (\<open>src/daemon/storage.ts\<close>): a directory of chunk files, each
  named after the sequence number of its first byte, and the in-memory copy of the last chunk
  that appends are coalesced with. The operations take and return the directory together with
  that copy; the file system operations themselves succeed. A journal is read back only when
  every file is valid and the chunks form one gapless run.
\<close>

section \<open>Text and numbers of the stored files\<close>

fun validText :: "js_string \<Rightarrow> bool" where
  "validText [] = True"
| "validText [u] = (\<not> high_surrogate u \<and> \<not> low_surrogate u)"
| "validText (u # v # us) =
     (if \<not> high_surrogate u \<and> \<not> low_surrogate u then validText (v # us)
      else high_surrogate u \<and> low_surrogate v \<and> validText us)"

definition nonemptyText :: "js_string \<Rightarrow> bool" where
  "nonemptyText s \<longleftrightarrow> validText s \<and> s \<noteq> []"

definition validTimestamp :: "timestamp \<Rightarrow> bool" where
  "validTimestamp t \<longleftrightarrow> date_parse t \<noteq> None"

definition validNonnegativeInteger :: "int \<Rightarrow> bool" where
  "validNonnegativeInteger n \<longleftrightarrow> isSafeInteger n \<and> 0 \<le> n"

definition OUTPUT_SEGMENT_BYTES :: nat where "OUTPUT_SEGMENT_BYTES = 64 * 1024"

text \<open>\<open>n.toString()\<close> and \<open>s.padStart(20, '0')\<close>.\<close>

fun decimal :: "nat \<Rightarrow> js_string" where
  "decimal n = (if n < 10 then [of_nat (48 + n)] else decimal (n div 10) @ [of_nat (48 + n mod 10)])"

declare decimal.simps [simp del]

definition padStart :: "nat \<Rightarrow> 16 word \<Rightarrow> js_string \<Rightarrow> js_string" where
  "padStart n u s = replicate (n - length s) u @ s"

definition chunk_name :: "nat \<Rightarrow> js_string" where
  "chunk_name n = padStart 20 48 (decimal n) @ js ''.json''"

text \<open>\<open>/^\d{20}\.json$/\<close>.\<close>

definition chunk_name_format :: "js_string \<Rightarrow> bool" where
  "chunk_name_format s \<longleftrightarrow>
     length s = 25 \<and> list_all is_digit (take 20 s) \<and> drop 20 s = js ''.json''"

section \<open>The journal of one session\<close>

text \<open>
  What a chunk file holds: bytes that are not UTF-8 JSON, a JSON value that is not an
  object, or an object, of which the four properties matter; a property is \<open>None\<close> when it is
  missing or of another type.
\<close>

datatype journal_file =
    Not_json
  | Not_object
  | Chunk_object "int option" "int option" "timestamp option" "js_string option"

record journal =
  files :: "(js_string, journal_file) js_map"
  outputTail :: "OutputChunk option"

datatype journal_error = InvalidJournal string

definition chunk_file :: "OutputChunk \<Rightarrow> journal_file" where
  "chunk_file c = Chunk_object (Some (int (ch_startSequence c))) (Some (int (ch_endSequence c)))
     (Some (ch_timestamp c)) (Some (ch_data c))"

definition chunk_size :: "OutputChunk \<Rightarrow> nat" where
  "chunk_size c = ch_endSequence c - ch_startSequence c"

definition append_chunk :: "journal \<Rightarrow> OutputChunk \<Rightarrow> journal" where
  "append_chunk j c =
     (let written = j\<lparr> files := map_set (files j) (chunk_name (ch_startSequence c)) (chunk_file c) \<rparr> in
      case outputTail j of
        None \<Rightarrow> written\<lparr> outputTail := Some c \<rparr>
      | Some previous \<Rightarrow>
          if ch_endSequence previous = ch_startSequence c \<and>
             int (ch_endSequence previous) - int (ch_startSequence previous) +
               (int (ch_endSequence c) - int (ch_startSequence c)) \<le> int OUTPUT_SEGMENT_BYTES
          then (let grown = previous\<lparr> ch_endSequence := ch_endSequence c,
                      ch_data := ch_data previous @ ch_data c \<rparr>
                in j\<lparr> files := map_set (files j) (chunk_name (ch_startSequence previous)) (chunk_file grown),
                      outputTail := Some grown \<rparr>)
          else if ch_endSequence c > ch_endSequence previous
          then written\<lparr> outputTail := Some c \<rparr>
          else written)"

definition appendOutput :: "journal \<Rightarrow> OutputChunk list \<Rightarrow> journal" where
  "appendOutput j chunks = foldl append_chunk j chunks"

definition readOutputChunk :: "js_string \<Rightarrow> journal_file \<Rightarrow> (journal_error, OutputChunk) result" where
  "readOutputChunk entry file =
     (if \<not> chunk_name_format entry then Inl (InvalidJournal ''chunk filename is invalid'')
      else case file of
        Not_json \<Rightarrow> Inl (InvalidJournal ''chunk is not valid UTF-8 JSON'')
      | Not_object \<Rightarrow> Inl (InvalidJournal ''chunk schema is invalid'')
      | Chunk_object (Some s) (Some e) (Some t) (Some d) \<Rightarrow>
          if \<not> validNonnegativeInteger s \<or> \<not> validNonnegativeInteger e \<or> e < s \<or>
             \<not> validTimestamp t \<or> \<not> validText d \<or> d = [] \<or>
             e - s \<noteq> int (byteLength d) \<or> entry \<noteq> chunk_name (nat s)
          then Inl (InvalidJournal ''chunk schema or sequence is invalid'')
          else Inr \<lparr> ch_startSequence = nat s, ch_endSequence = nat e, ch_timestamp = t, ch_data = d \<rparr>
      | Chunk_object _ _ _ _ \<Rightarrow> Inl (InvalidJournal ''chunk schema or sequence is invalid''))"

fun read_entries :: "journal \<Rightarrow> js_string list \<Rightarrow> (journal_error, OutputChunk list) result" where
  "read_entries j [] = Inr []"
| "read_entries j (entry # rest) =
     (case map_get (files j) entry of
        None \<Rightarrow> read_entries j rest
      | Some file \<Rightarrow>
          and_then (readOutputChunk entry file) (\<lambda>c.
            and_then (read_entries j rest) (\<lambda>cs. Inr (c # cs))))"

text \<open>The loop that looks for a gap between neighbours.\<close>

fun contiguous :: "OutputChunk list \<Rightarrow> bool" where
  "contiguous (c # d # cs) = (ch_endSequence c = ch_startSequence d \<and> contiguous (d # cs))"
| "contiguous _ = True"

definition ends_with :: "js_string \<Rightarrow> js_string \<Rightarrow> bool" where
  "ends_with s t \<longleftrightarrow> suffix t s"

definition readOutputChunks :: "journal \<Rightarrow> (journal_error, OutputChunk list) result" where
  "readOutputChunks j =
     and_then (read_entries j (sort (filter (\<lambda>entry. ends_with entry (js ''.json'')) (map fst (files j)))))
       (\<lambda>read. let chunks = sort_key ch_startSequence read in
         if contiguous chunks then Inr chunks
         else Inl (InvalidJournal ''chunk sequence is discontinuous''))"

definition chunks_text :: "OutputChunk list \<Rightarrow> js_string" where
  "chunks_text cs = concat (map ch_data cs)"

definition readOutput :: "journal \<Rightarrow> (journal_error, js_string) result" where
  "readOutput j = and_then (readOutputChunks j) (\<lambda>cs. Inr (chunks_text cs))"

record retained_output =
  ro_chunks :: "OutputChunk list"
  ro_outputBytes :: int
  ro_firstRetainedSequence :: nat
  ro_outputTruncated :: bool

text \<open>
  The loop of \<open>retainedOutput\<close>: \<open>rest\<close> are the chunks from index \<open>first\<close> on; it returns the
  number dropped, the retained bytes and the end of the last chunk dropped.
\<close>

fun drop_chunks :: "int \<Rightarrow> nat \<Rightarrow> int \<Rightarrow> nat \<Rightarrow> OutputChunk list \<Rightarrow> nat \<times> int \<times> nat" where
  "drop_chunks maxBytes first retained firstSequence [] = (first, retained, firstSequence)"
| "drop_chunks maxBytes first retained firstSequence (c # rest) =
     (if retained > maxBytes
      then drop_chunks maxBytes (Suc first)
             (retained - (int (ch_endSequence c) - int (ch_startSequence c))) (ch_endSequence c) rest
      else (first, retained, firstSequence))"

definition total_bytes :: "OutputChunk list \<Rightarrow> int" where
  "total_bytes cs = (\<Sum>c\<leftarrow>cs. int (ch_endSequence c) - int (ch_startSequence c))"

definition retainedOutput :: "journal \<Rightarrow> int \<Rightarrow> (journal_error, retained_output) result" where
  "retainedOutput j maxBytes =
     and_then (readOutputChunks j) (\<lambda>allChunks.
       case drop_chunks maxBytes 0 (total_bytes allChunks)
              (case allChunks of [] \<Rightarrow> 0 | c # _ \<Rightarrow> ch_startSequence c) allChunks of
         (first, retainedBytes, firstSequence) \<Rightarrow>
           Inr \<lparr> ro_chunks = take first allChunks,
                 ro_outputBytes = retainedBytes,
                 ro_firstRetainedSequence =
                   (case drop first allChunks of [] \<Rightarrow> firstSequence | c # _ \<Rightarrow> ch_startSequence c),
                 ro_outputTruncated = (first > 0) \<rparr>)"

definition remove_chunks :: "journal \<Rightarrow> OutputChunk list \<Rightarrow> journal" where
  "remove_chunks j chunks =
     j\<lparr> files := foldl (\<lambda>m c. map_delete m (chunk_name (ch_startSequence c))) (files j) chunks \<rparr>"

definition trimOutput :: "journal \<Rightarrow> int \<Rightarrow> (journal_error, retained_output \<times> journal) result" where
  "trimOutput j maxBytes =
     and_then (retainedOutput j maxBytes) (\<lambda>r.
       Inr (r, (remove_chunks j (ro_chunks r))\<lparr> outputTail := None \<rparr>))"

definition discardOutputBefore :: "journal \<Rightarrow> nat \<Rightarrow> (journal_error, journal) result" where
  "discardOutputBefore j sequence =
     and_then (readOutputChunks j) (\<lambda>cs.
       Inr (remove_chunks j (filter (\<lambda>c. ch_endSequence c \<le> sequence) cs)))"

section \<open>Names of chunk files\<close>

lemma digit_word [simp]: "d < 10 \<Longrightarrow> is_digit (of_nat (48 + d) :: 16 word)"
  "d < 10 \<Longrightarrow> digit_value (of_nat (48 + d) :: 16 word) = d"
proof -
  assume "d < 10"
  then have "unat (of_nat (48 + d) :: 16 word) = 48 + d" by (simp add: unat_of_nat take_bit_nat_eq_self del: of_nat_add)
  with \<open>d < 10\<close> show "is_digit (of_nat (48 + d) :: 16 word)" "digit_value (of_nat (48 + d) :: 16 word) = d"
    by (simp_all only: is_digit_def digit_value_def word_le_nat_alt) simp_all
qed

lemma digits_value_append [simp]: "digits_value (s @ [d]) = 10 * digits_value s + digit_value d"
  by (simp add: digits_value_def)

lemma digits_value_decimal [simp]: "digits_value (decimal n) = n"
proof (induction n rule: decimal.induct)
  case (1 n)
  then show ?case
    by (subst decimal.simps) (auto simp: digits_value_def [of "[_]"] simp del: of_nat_add)
qed

lemma digits_value_zeros: "digits_value (replicate k 48 @ s) = digits_value s"
  by (induction k) (simp_all add: digits_value_def digit_value_def)

lemma decimal_digits: "list_all is_digit (decimal n)"
proof (induction n rule: decimal.induct)
  case (1 n)
  then show ?case by (subst decimal.simps) (auto simp del: of_nat_add)
qed

lemma decimal_length: "n < 10 ^ Suc k \<Longrightarrow> length (decimal n) \<le> Suc k"
proof (induction k arbitrary: n)
  case 0
  then show ?case by (subst decimal.simps) simp
next
  case (Suc k)
  have "n div 10 < 10 ^ Suc k" using Suc.prems by (simp add: less_mult_imp_div_less mult.commute)
  then show ?case using Suc.IH [of "n div 10"] by (subst decimal.simps) auto
qed

lemma chunk_name_inject [simp]: "chunk_name a = chunk_name b \<longleftrightarrow> a = b"
  by (metis append_same_eq chunk_name_def digits_value_decimal digits_value_zeros padStart_def)

lemma chunk_name_ends: "ends_with (chunk_name n) (js ''.json'')"
  by (simp add: ends_with_def chunk_name_def suffixI)

lemma chunk_name_format_name:
  assumes "isSafeInteger (int n)"
  shows "chunk_name_format (chunk_name n)"
proof -
  have "n < 10 ^ Suc 19" using assms by (simp add: isSafeInteger_def MAX_SAFE_INTEGER_def)
  then have "length (decimal n) \<le> 20" using decimal_length by fastforce
  moreover have "list_all is_digit (replicate k 48)" for k
    by (auto simp: list_all_iff is_digit_def)
  ultimately show ?thesis
    using decimal_digits [of n] by (simp add: chunk_name_format_def chunk_name_def padStart_def)
qed

section \<open>Well-formed journals\<close>

definition chunk_ok :: "OutputChunk \<Rightarrow> bool" where
  "chunk_ok c \<longleftrightarrow>
     isSafeInteger (int (ch_startSequence c)) \<and> isSafeInteger (int (ch_endSequence c)) \<and>
     validTimestamp (ch_timestamp c) \<and> nonemptyText (ch_data c) \<and>
     ch_endSequence c = ch_startSequence c + byteLength (ch_data c)"

lemma chunk_ok_less: "chunk_ok c \<Longrightarrow> ch_startSequence c < ch_endSequence c"
  by (auto simp: chunk_ok_def nonemptyText_def intro: byteLength_pos)

lemma readOutputChunk_ok:
  "chunk_ok c \<Longrightarrow> readOutputChunk (chunk_name (ch_startSequence c)) (chunk_file c) = Inr c"
  by (auto simp: readOutputChunk_def chunk_file_def chunk_ok_def chunk_name_format_name nonemptyText_def
      validNonnegativeInteger_def simp flip: of_nat_add)

lemma readOutputChunk_Inr:
  "readOutputChunk entry file = Inr c \<Longrightarrow> chunk_ok c \<and> entry = chunk_name (ch_startSequence c) \<and> file = chunk_file c"
  by (auto simp: readOutputChunk_def chunk_ok_def chunk_file_def nonemptyText_def validNonnegativeInteger_def
      nat_eq_iff split: if_splits journal_file.splits option.splits)

text \<open>The directory holds exactly the chunks \<open>cs\<close>, which form one gapless run.\<close>

definition journal_rep :: "journal \<Rightarrow> OutputChunk list \<Rightarrow> bool" where
  "journal_rep j cs \<longleftrightarrow>
     map_ok (files j) \<and>
     set (files j) = (\<lambda>c. (chunk_name (ch_startSequence c), chunk_file c)) ` set cs \<and>
     contiguous cs \<and> (\<forall>c\<in>set cs. chunk_ok c)"

definition tail_ok :: "journal \<Rightarrow> OutputChunk list \<Rightarrow> bool" where
  "tail_ok j cs \<longleftrightarrow> (\<forall>t. outputTail j = Some t \<longrightarrow> cs \<noteq> [] \<and> t = last cs)"

lemma contiguous_Cons:
  "contiguous (c # cs) \<longleftrightarrow> (cs \<noteq> [] \<longrightarrow> ch_endSequence c = ch_startSequence (hd cs)) \<and> contiguous cs"
  by (cases cs) auto

lemma contiguous_append:
  "contiguous (as @ bs) \<longleftrightarrow> contiguous as \<and> contiguous bs \<and>
     (as \<noteq> [] \<and> bs \<noteq> [] \<longrightarrow> ch_endSequence (last as) = ch_startSequence (hd bs))"
proof (induction as)
  case (Cons a as)
  then show ?case by (cases as) (auto simp: contiguous_Cons)
qed simp

lemma contiguous_sorted:
  assumes "contiguous cs" and "\<forall>c\<in>set cs. chunk_ok c"
  shows "sorted_wrt (<) (map ch_startSequence cs)"
  using assms
proof (induction cs)
  case (Cons c cs)
  have "ch_startSequence c < ch_startSequence d" if "d \<in> set cs" for d
  proof -
    have "cs \<noteq> []" using that by auto
    then have "ch_startSequence c < ch_startSequence (hd cs)"
      using Cons.prems chunk_ok_less [of c] by (simp add: contiguous_Cons)
    also have "ch_startSequence (hd cs) \<le> ch_startSequence d"
      using Cons that by (cases cs) (auto simp: contiguous_Cons)
    finally show ?thesis .
  qed
  with Cons show ?case by (auto simp: contiguous_Cons)
qed simp

lemma contiguous_distinct:
  "contiguous cs \<Longrightarrow> \<forall>c\<in>set cs. chunk_ok c \<Longrightarrow> distinct (map ch_startSequence cs)"
  using contiguous_sorted strict_sorted_iff by blast

text \<open>A permutation of a strictly sorted list is sorted back into it.\<close>

lemma sort_key_unique:
  assumes "sorted_wrt (<) (map f cs)" and "mset ds = mset cs"
  shows "sort_key (f :: 'a \<Rightarrow> nat) ds = cs"
proof -
  have st: "sorted (map f cs)" and di: "distinct (map f cs)"
    using assms(1) strict_sorted_iff by blast+
  have "inj_on f (set ds)"
    using di assms(2) by (metis distinct_map set_mset_mset)
  with st assms(2) show ?thesis by (intro sort_key_inj_key_eq)
qed

lemma read_entries_ok:
  assumes "\<forall>e\<in>set es. map_get (files j) e \<noteq> None"
    and "\<And>e f. map_get (files j) e = Some f \<Longrightarrow> readOutputChunk e f = Inr (chunk_of e)"
  shows "read_entries j es = Inr (map chunk_of es)"
  using assms(1)
proof (induction es)
  case (Cons e es)
  then obtain f where "map_get (files j) e = Some f" by auto
  with Cons assms(2) show ?case by simp
qed simp

lemma journal_rep_read:
  assumes rep: "journal_rep j cs"
  shows "readOutputChunks j = Inr cs"
proof -
  define key where "key = (\<lambda>c :: OutputChunk. chunk_name (ch_startSequence c))"
  define chunk_of where "chunk_of = (\<lambda>e. the (map_of (map (\<lambda>c. (key c, c)) cs) e))"
  have ok: "\<forall>c\<in>set cs. chunk_ok c" and cont: "contiguous cs" and mok: "map_ok (files j)"
    and set: "set (files j) = (\<lambda>c. (key c, chunk_file c)) ` set cs"
    using rep by (auto simp: journal_rep_def key_def)
  have dk: "distinct (map key cs)"
    using contiguous_distinct [OF cont ok] by (simp add: distinct_map key_def inj_on_def)
  have of_key: "chunk_of (key c) = c" if "c \<in> set cs" for c
    using that dk by (simp add: chunk_of_def map_of_eq_Some_iff o_def image_iff)
  have names: "set (map fst (files j)) = key ` set cs"
    using set by (simp add: image_image)
  have dn: "distinct (map fst (files j))" using mok by (simp add: map_ok_def)
  let ?es = "sort (filter (\<lambda>entry. ends_with entry (js ''.json'')) (map fst (files j)))"
  have all: "filter (\<lambda>entry. ends_with entry (js ''.json'')) (map fst (files j)) = map fst (files j)"
    using names chunk_name_ends by (auto simp: filter_id_conv key_def simp del: set_map)
  have "read_entries j ?es = Inr (map chunk_of ?es)"
  proof (rule read_entries_ok)
    show "\<forall>e\<in>set ?es. map_get (files j) e \<noteq> None"
      unfolding all by (auto simp: map_of_eq_None_iff)
    fix e f assume "map_get (files j) e = Some f"
    then have "(e, f) \<in> set (files j)" by (rule map_of_SomeD)
    then obtain c where "c \<in> set cs" "e = key c" "f = chunk_file c" using set by auto
    with ok of_key show "readOutputChunk e f = Inr (chunk_of e)"
      by (simp add: key_def readOutputChunk_ok)
  qed
  moreover have "sort_key ch_startSequence (map chunk_of ?es) = cs"
  proof (rule sort_key_unique [OF contiguous_sorted [OF cont ok]])
    have "mset (map fst (files j)) = mset (map key cs)"
      using dn dk names by (metis list.set_map set_eq_iff_mset_eq_distinct)
    then have "mset (map chunk_of ?es) = image_mset chunk_of (mset (map key cs))"
      unfolding all by simp
    also have "\<dots> = mset (map (\<lambda>c. chunk_of (key c)) cs)" by (simp add: image_mset.compositionality o_def)
    also have "map (\<lambda>c. chunk_of (key c)) cs = cs" using of_key by (simp add: map_idI)
    finally show "mset (map chunk_of ?es) = mset cs" .
  qed
  ultimately show ?thesis using cont by (simp add: readOutputChunks_def)
qed

text \<open>Conversely, a directory of chunk files only that reads is represented by what it reads.\<close>

lemma read_entries_Inr:
  "read_entries j es = Inr cs \<Longrightarrow> \<forall>e\<in>set es. map_get (files j) e \<noteq> None \<Longrightarrow>
   es = map (\<lambda>c. chunk_name (ch_startSequence c)) cs \<and>
   (\<forall>c\<in>set cs. chunk_ok c \<and> map_get (files j) (chunk_name (ch_startSequence c)) = Some (chunk_file c))"
proof (induction es arbitrary: cs)
  case (Cons e es)
  from Cons.prems(2) obtain f where f: "map_get (files j) e = Some f" by auto
  with Cons.prems(1) obtain c ds where c: "readOutputChunk e f = Inr c" "read_entries j es = Inr ds" "cs = c # ds"
    by (auto simp: and_then_Inr_iff)
  with Cons.IH [OF c(2)] Cons.prems(2) readOutputChunk_Inr [OF c(1)] f show ?case by auto
qed simp

lemma journal_read_rep:
  assumes ok: "map_ok (files j)" and json: "\<forall>e\<in>set (map fst (files j)). ends_with e (js ''.json'')"
    and read: "readOutputChunks j = Inr cs"
  shows "journal_rep j cs"
proof -
  let ?key = "\<lambda>c. chunk_name (ch_startSequence c)"
  have all: "filter (\<lambda>entry. ends_with entry (js ''.json'')) (map fst (files j)) = map fst (files j)"
    using json by (simp add: filter_id_conv)
  obtain ds where ds: "read_entries j (sort (map fst (files j))) = Inr ds"
    and cs: "cs = sort_key ch_startSequence ds" and cont: "contiguous cs"
    using read unfolding readOutputChunks_def all by (auto simp: and_then_Inr_iff Let_def split: if_splits)
  have "\<forall>e\<in>set (sort (map fst (files j))). map_get (files j) e \<noteq> None"
    by (auto simp: map_of_eq_None_iff)
  from read_entries_Inr [OF ds this]
  have names: "sort (map fst (files j)) = map ?key ds"
    and get: "\<forall>c\<in>set ds. chunk_ok c \<and> map_get (files j) (?key c) = Some (chunk_file c)" by blast+
  have setk: "fst ` set (files j) = ?key ` set ds"
    using arg_cong [OF names, of set] by simp
  have "set (files j) = (\<lambda>c. (?key c, chunk_file c)) ` set ds"
  proof
    show "(\<lambda>c. (?key c, chunk_file c)) ` set ds \<subseteq> set (files j)"
      using get by (auto dest: map_of_SomeD)
    show "set (files j) \<subseteq> (\<lambda>c. (?key c, chunk_file c)) ` set ds"
    proof
      fix p assume p: "p \<in> set (files j)"
      obtain e f where ef: "p = (e, f)" by (cases p)
      then obtain c where "c \<in> set ds" "e = ?key c" using p setk by (force simp: set_eq_iff)
      moreover have "map_get (files j) e = Some f"
        using ok p ef by (simp add: map_ok_def)
      ultimately show "p \<in> (\<lambda>c. (?key c, chunk_file c)) ` set ds" using get ef by auto
    qed
  qed
  then show ?thesis using ok cont get cs by (simp add: journal_rep_def)
qed

section \<open>Appending\<close>

lemma validText_no_split: "validText a \<Longrightarrow> \<not> splits_pair a b"
proof (induction a rule: validText.induct)
  case (3 u v us)
  show ?case
  proof (cases "\<not> high_surrogate u \<and> \<not> low_surrogate u")
    case True
    with 3 show ?thesis by (auto simp: splits_pair_def)
  next
    case False
    with "3.prems" have "low_surrogate v" "validText us" "\<not> splits_pair us b"
      using "3.IH"(2) by auto
    then show ?thesis using not_both_surrogates by (auto simp: splits_pair_def)
  qed
qed (auto simp: splits_pair_def)

lemma validText_append: "validText a \<Longrightarrow> validText b \<Longrightarrow> validText (a @ b)"
proof (induction a rule: validText.induct)
  case (2 u)
  then show ?case by (cases b) auto
next
  case (3 u v us)
  then show ?case by (auto split: if_splits)
qed simp

lemma map_set_entries:
  "map_ok m \<Longrightarrow> set (map_set m k v) = insert (k, v) {p \<in> set m. fst p \<noteq> k}"
  by (induction m) (auto simp: map_ok_def intro: rev_image_eqI)

lemma contiguous_end_le:
  assumes "contiguous cs" and "\<forall>c\<in>set cs. chunk_ok c" and "c \<in> set cs"
  shows "ch_endSequence c \<le> ch_endSequence (last cs)"
  using assms
proof (induction cs arbitrary: c)
  case (Cons d cs)
  show ?case
  proof (cases "cs = []")
    case False
    have "ch_endSequence d \<le> ch_endSequence (hd cs)"
      using Cons.prems False chunk_ok_less [of "hd cs"] by (simp add: contiguous_Cons)
    also have "\<dots> \<le> ch_endSequence (last cs)"
      using Cons False by (simp add: contiguous_Cons)
    finally show ?thesis using Cons False by (auto simp: contiguous_Cons)
  qed (use Cons.prems in simp)
qed simp

lemma journal_rep_add:
  assumes rep: "journal_rep j cs" and c: "chunk_ok c"
    and next_to: "cs \<noteq> [] \<Longrightarrow> ch_endSequence (last cs) = ch_startSequence c"
  shows "journal_rep (j\<lparr> files := map_set (files j) (chunk_name (ch_startSequence c)) (chunk_file c),
      outputTail := t \<rparr>) (cs @ [c])"
proof -
  have ok: "\<forall>c\<in>set cs. chunk_ok c" and cont: "contiguous cs" and mok: "map_ok (files j)"
    using rep by (auto simp: journal_rep_def)
  have "ch_startSequence d < ch_startSequence c" if "d \<in> set cs" for d
  proof -
    have "ch_startSequence d < ch_endSequence d" using ok that chunk_ok_less by blast
    also have "\<dots> \<le> ch_startSequence c"
      using contiguous_end_le [OF cont ok that] next_to that by fastforce
    finally show ?thesis .
  qed
  then have "{p \<in> set (files j). fst p \<noteq> chunk_name (ch_startSequence c)} = set (files j)"
    using rep by (fastforce simp: journal_rep_def)
  then show ?thesis
    using rep c next_to mok by (auto simp: journal_rep_def map_set_entries contiguous_append)
qed

lemma journal_rep_grow:
  assumes rep: "journal_rep j (cs @ [p])" and g: "chunk_ok g" "ch_startSequence g = ch_startSequence p"
  shows "journal_rep (j\<lparr> files := map_set (files j) (chunk_name (ch_startSequence p)) (chunk_file g),
      outputTail := t \<rparr>) (cs @ [g])"
proof -
  have ok: "\<forall>c\<in>set (cs @ [p]). chunk_ok c" and cont: "contiguous (cs @ [p])" and mok: "map_ok (files j)"
    using rep by (auto simp: journal_rep_def)
  have "\<forall>d\<in>set cs. ch_startSequence d \<noteq> ch_startSequence p"
    using contiguous_distinct [OF cont ok] by (simp add: image_iff) metis
  then have "{q \<in> set (files j). fst q \<noteq> chunk_name (ch_startSequence p)} =
      (\<lambda>c. (chunk_name (ch_startSequence c), chunk_file c)) ` set cs"
    using rep by (auto simp: journal_rep_def)
  then show ?thesis
    using ok cont mok g by (auto simp: journal_rep_def map_set_entries contiguous_append)
qed

text \<open>Coalescing joins neighbours; what a reader sees of a list of chunks does not change.\<close>

definition grow :: "OutputChunk \<Rightarrow> OutputChunk \<Rightarrow> OutputChunk" where
  "grow p c = p\<lparr> ch_endSequence := ch_endSequence c, ch_data := ch_data p @ ch_data c \<rparr>"

lemma grow_ok:
  assumes "chunk_ok p" "chunk_ok c" "ch_endSequence p = ch_startSequence c"
  shows "chunk_ok (grow p c)"
  using assms byteLength_append [OF validText_no_split, of "ch_data p" "ch_data c"]
  by (auto simp: chunk_ok_def grow_def nonemptyText_def validText_append)

definition journal_end :: "OutputChunk list \<Rightarrow> nat \<Rightarrow> nat" where
  "journal_end cs d = (if cs = [] then d else ch_endSequence (last cs))"

lemma append_chunk_rep:
  assumes rep: "journal_rep j cs" and tl: "tail_ok j cs" and c: "chunk_ok c"
    and next_to: "cs \<noteq> [] \<Longrightarrow> ch_endSequence (last cs) = ch_startSequence c"
  shows "\<exists>cs'. journal_rep (append_chunk j c) cs' \<and> tail_ok (append_chunk j c) cs' \<and>
    chunks_text cs' = chunks_text cs @ ch_data c \<and> cs' \<noteq> [] \<and>
    ch_endSequence (last cs') = ch_endSequence c \<and>
    (\<forall>d\<in>set cs'. chunk_size d \<le> OUTPUT_SEGMENT_BYTES \<or> d \<in> set cs \<or> d = c)"
proof (cases "outputTail j")
  case None
  then have "append_chunk j c = j\<lparr> files := map_set (files j) (chunk_name (ch_startSequence c)) (chunk_file c),
      outputTail := Some c \<rparr>" by (simp add: append_chunk_def)
  with journal_rep_add [OF rep c next_to, of "Some c"] show ?thesis
    by (intro exI [of _ "cs @ [c]"]) (auto simp: tail_ok_def chunks_text_def)
next
  case (Some p)
  then have p: "cs \<noteq> []" "p = last cs" using tl by (auto simp: tail_ok_def)
  then have cs: "cs = butlast cs @ [p]" by simp
  have pc: "ch_endSequence p = ch_startSequence c" using next_to p by simp
  have pok: "chunk_ok p" using rep p by (simp add: journal_rep_def)
  show ?thesis
  proof (cases "int (ch_endSequence p) - int (ch_startSequence p) +
      (int (ch_endSequence c) - int (ch_startSequence c)) \<le> int OUTPUT_SEGMENT_BYTES")
    case True
    then have app: "append_chunk j c =
        j\<lparr> files := map_set (files j) (chunk_name (ch_startSequence p)) (chunk_file (grow p c)),
           outputTail := Some (grow p c) \<rparr>"
      using Some pc by (simp add: append_chunk_def grow_def Let_def)
    have "journal_rep (append_chunk j c) (butlast cs @ [grow p c])"
      unfolding app using rep cs grow_ok [OF pok c pc]
      by (intro journal_rep_grow) (auto simp: grow_def)
    moreover have "chunk_size (grow p c) \<le> OUTPUT_SEGMENT_BYTES"
      using True pc chunk_ok_less [OF pok] chunk_ok_less [OF c] by (simp add: chunk_size_def grow_def)
    moreover have "chunks_text (butlast cs @ [grow p c]) = chunks_text cs @ ch_data c"
      by (subst (2) cs) (simp add: chunks_text_def grow_def)
    ultimately show ?thesis
      by (intro exI [of _ "butlast cs @ [grow p c]"])
         (auto simp: tail_ok_def app grow_def dest: in_set_butlastD)
  next
    case False
    have "ch_endSequence c > ch_endSequence p" using pc chunk_ok_less [OF c] by simp
    then have app: "append_chunk j c = j\<lparr> files := map_set (files j) (chunk_name (ch_startSequence c)) (chunk_file c),
        outputTail := Some c \<rparr>"
      using Some False by (simp add: append_chunk_def)
    with journal_rep_add [OF rep c next_to, of "Some c"] show ?thesis
      by (intro exI [of _ "cs @ [c]"]) (auto simp: tail_ok_def chunks_text_def)
  qed
qed

lemma appendOutput_rep:
  assumes "journal_rep j cs" and "tail_ok j cs" and "\<forall>c\<in>set new. chunk_ok c" and "contiguous new"
    and "cs \<noteq> [] \<Longrightarrow> new \<noteq> [] \<Longrightarrow> ch_endSequence (last cs) = ch_startSequence (hd new)"
  shows "\<exists>cs'. journal_rep (appendOutput j new) cs' \<and> tail_ok (appendOutput j new) cs' \<and>
    chunks_text cs' = chunks_text cs @ chunks_text new \<and>
    (\<forall>d\<in>set cs'. chunk_size d \<le> OUTPUT_SEGMENT_BYTES \<or> d \<in> set cs \<or> d \<in> set new)"
  using assms
proof (induction new arbitrary: j cs)
  case Nil
  then show ?case by (auto simp: appendOutput_def chunks_text_def)
next
  case (Cons c new)
  have "chunk_ok c" using Cons.prems by simp
  from append_chunk_rep [OF Cons.prems(1,2) this] Cons.prems(5)
  obtain ds where ds: "journal_rep (append_chunk j c) ds" "tail_ok (append_chunk j c) ds"
    "chunks_text ds = chunks_text cs @ ch_data c" "ds \<noteq> []" "ch_endSequence (last ds) = ch_endSequence c"
    "\<forall>d\<in>set ds. chunk_size d \<le> OUTPUT_SEGMENT_BYTES \<or> d \<in> set cs \<or> d = c" by auto
  have "\<exists>cs'. journal_rep (appendOutput (append_chunk j c) new) cs' \<and>
    tail_ok (appendOutput (append_chunk j c) new) cs' \<and>
    chunks_text cs' = chunks_text ds @ chunks_text new \<and>
    (\<forall>d\<in>set cs'. chunk_size d \<le> OUTPUT_SEGMENT_BYTES \<or> d \<in> set ds \<or> d \<in> set new)"
    using Cons.prems ds by (intro Cons.IH) (auto simp: contiguous_Cons)
  then obtain cs' where "journal_rep (appendOutput (append_chunk j c) new) cs'"
    "tail_ok (appendOutput (append_chunk j c) new) cs'"
    "chunks_text cs' = chunks_text ds @ chunks_text new"
    "\<forall>d\<in>set cs'. chunk_size d \<le> OUTPUT_SEGMENT_BYTES \<or> d \<in> set ds \<or> d \<in> set new" by blast
  with ds(3,6) show ?case
    by (intro exI [of _ cs']) (auto simp: appendOutput_def chunks_text_def)
qed

section \<open>Trimming\<close>

fun drop_count :: "int \<Rightarrow> int \<Rightarrow> OutputChunk list \<Rightarrow> nat" where
  "drop_count m retained [] = 0"
| "drop_count m retained (c # cs) =
     (if retained > m
      then Suc (drop_count m (retained - (int (ch_endSequence c) - int (ch_startSequence c))) cs) else 0)"

lemma total_bytes_simps [simp]:
  "total_bytes [] = 0"
  "total_bytes (c # cs) = (int (ch_endSequence c) - int (ch_startSequence c)) + total_bytes cs"
  "total_bytes (as @ bs) = total_bytes as + total_bytes bs"
  by (simp_all add: total_bytes_def)

lemma drop_count_le: "drop_count m r cs \<le> length cs"
  by (induction cs arbitrary: r) auto

lemma drop_chunks_eq:
  "drop_chunks m f r s cs =
     (f + drop_count m r cs, r - total_bytes (take (drop_count m r cs) cs),
      if drop_count m r cs = 0 then s else ch_endSequence (cs ! (drop_count m r cs - 1)))"
proof (induction cs arbitrary: f r s)
  case (Cons c cs)
  show ?case
  proof (cases "r > m")
    case True
    let ?r = "r - (int (ch_endSequence c) - int (ch_startSequence c))"
    have "(if drop_count m ?r cs = 0 then ch_endSequence c else ch_endSequence (cs ! (drop_count m ?r cs - 1))) =
      ch_endSequence ((c # cs) ! drop_count m ?r cs)"
      by (cases "drop_count m ?r cs") auto
    with True Cons.IH [of "Suc f" ?r "ch_endSequence c"] show ?thesis by simp
  qed simp
qed simp

lemma drop_count_bound:
  "0 \<le> m \<Longrightarrow> r = total_bytes cs \<Longrightarrow> total_bytes (drop (drop_count m r cs) cs) \<le> m"
  by (induction cs arbitrary: r) auto

lemma drop_count_minimal:
  assumes "r = total_bytes cs" and "n < drop_count m r cs"
  shows "m < total_bytes (drop n cs)"
  using assms
proof (induction cs arbitrary: r n)
  case (Cons c cs)
  show ?case
  proof (cases n)
    case (Suc k)
    with Cons show ?thesis by (auto split: if_splits)
  qed (use Cons.prems in \<open>auto split: if_splits\<close>)
qed simp

lemma retainedOutput_rep:
  assumes "journal_rep j cs"
  defines "k \<equiv> \<lambda>m. drop_count m (total_bytes cs) cs"
  shows "retainedOutput j m = Inr
    \<lparr> ro_chunks = take (k m) cs, ro_outputBytes = total_bytes (drop (k m) cs),
      ro_firstRetainedSequence =
        (case drop (k m) cs of c # _ \<Rightarrow> ch_startSequence c | [] \<Rightarrow> if cs = [] then 0 else ch_endSequence (last cs)),
      ro_outputTruncated = (k m > 0) \<rparr>"
proof -
  have tot: "total_bytes cs - total_bytes (take n cs) = total_bytes (drop n cs)" for n
    using total_bytes_simps(3) [of "take n cs" "drop n cs"] by simp
  have "cs ! (k m - 1) = last cs" if "drop (k m) cs = []" "cs \<noteq> []"
    using that drop_count_le [of m "total_bytes cs" cs] by (simp add: last_conv_nth k_def)
  moreover have "k m \<noteq> 0" if "drop (k m) cs = []" "cs \<noteq> []" using that by (cases cs) auto
  ultimately show ?thesis
    unfolding retainedOutput_def journal_rep_read [OF assms(1)] drop_chunks_eq
    by (auto simp: k_def tot split: list.splits)
qed

lemma remove_chunks_set:
  "set (files (remove_chunks j ds)) = {p \<in> set (files j). fst p \<notin> (\<lambda>c. chunk_name (ch_startSequence c)) ` set ds}"
  "map_ok (files j) \<Longrightarrow> map_ok (files (remove_chunks j ds))"
  "outputTail (remove_chunks j ds) = outputTail j"
proof -
  have "set (foldl (\<lambda>m c. map_delete m (chunk_name (ch_startSequence c))) m ds) =
      {p \<in> set m. fst p \<notin> (\<lambda>c. chunk_name (ch_startSequence c)) ` set ds}" for m :: "(js_string, journal_file) js_map"
    by (induction ds arbitrary: m) (auto simp: set_map_delete)
  moreover have "map_ok m \<Longrightarrow> map_ok (foldl (\<lambda>m c. map_delete m (chunk_name (ch_startSequence c))) m ds)"
    for m :: "(js_string, journal_file) js_map"
    by (induction ds arbitrary: m) auto
  ultimately show
    "set (files (remove_chunks j ds)) = {p \<in> set (files j). fst p \<notin> (\<lambda>c. chunk_name (ch_startSequence c)) ` set ds}"
    "map_ok (files j) \<Longrightarrow> map_ok (files (remove_chunks j ds))"
    "outputTail (remove_chunks j ds) = outputTail j"
    by (simp_all add: remove_chunks_def)
qed

lemma remove_chunks_rep:
  assumes rep: "journal_rep j (as @ bs)"
  shows "journal_rep (remove_chunks j as) bs"
proof -
  have ok: "\<forall>c\<in>set (as @ bs). chunk_ok c" and cont: "contiguous (as @ bs)" and mok: "map_ok (files j)"
    using rep by (auto simp: journal_rep_def)
  have "distinct (map ch_startSequence as @ map ch_startSequence bs)"
    using contiguous_distinct [OF cont ok] by simp
  then have "ch_startSequence a \<noteq> ch_startSequence b" if "a \<in> set as" "b \<in> set bs" for a b
    using that by (simp only: distinct_append set_map) (metis disjoint_iff imageI)
  then have "set (files (remove_chunks j as)) = (\<lambda>c. (chunk_name (ch_startSequence c), chunk_file c)) ` set bs"
    using rep unfolding remove_chunks_set(1) by (fastforce simp: journal_rep_def)
  then show ?thesis
    using ok cont mok by (simp add: journal_rep_def contiguous_append remove_chunks_set(2))
qed

lemma journal_rep_tail [simp]: "journal_rep (j\<lparr> outputTail := t \<rparr>) cs = journal_rep j cs"
  by (simp add: journal_rep_def)

lemma filter_end_prefix:
  assumes "contiguous cs" and "\<forall>c\<in>set cs. chunk_ok c"
  shows "filter (\<lambda>c. ch_endSequence c \<le> n) cs @ filter (\<lambda>c. \<not> ch_endSequence c \<le> n) cs = cs"
  using assms
proof (induction cs)
  case (Cons c cs)
  have mono: "ch_endSequence c \<le> ch_endSequence d" if "d \<in> set cs" for d
    using contiguous_sorted [OF Cons.prems] Cons.prems that chunk_ok_less [of d]
    by (cases cs) (auto simp: contiguous_Cons intro: order_trans less_imp_le)
  show ?case
  proof (cases "ch_endSequence c \<le> n")
    case False
    then have "filter (\<lambda>c. ch_endSequence c \<le> n) cs = []" "filter (\<lambda>c. \<not> ch_endSequence c \<le> n) cs = cs"
      using mono by (fastforce simp: filter_empty_conv filter_id_conv)+
    with False show ?thesis by simp
  qed (use Cons in \<open>simp add: contiguous_Cons\<close>)
qed simp

lemma discardOutputBefore_rep:
  assumes rep: "journal_rep j cs"
  shows "\<exists>j'. discardOutputBefore j n = Inr j' \<and> journal_rep j' (filter (\<lambda>c. \<not> ch_endSequence c \<le> n) cs)"
proof -
  have "contiguous cs" "\<forall>c\<in>set cs. chunk_ok c" using rep by (auto simp: journal_rep_def)
  from filter_end_prefix [OF this, of n] rep
  have "journal_rep j (filter (\<lambda>c. ch_endSequence c \<le> n) cs @ filter (\<lambda>c. \<not> ch_endSequence c \<le> n) cs)"
    by simp
  from remove_chunks_rep [OF this] show ?thesis
    by (simp add: discardOutputBefore_def journal_rep_read [OF rep])
qed

section \<open>The cursors of the record\<close>

definition deleteSession :: "journal \<Rightarrow> journal" where
  "deleteSession j = \<lparr> files = [], outputTail = None \<rparr>"

definition ends_with_lf :: "js_string \<Rightarrow> bool" where
  "ends_with_lf s \<longleftrightarrow> s \<noteq> [] \<and> last s = LF"

definition reconcileSession :: "SessionRecord \<Rightarrow> OutputChunk list \<Rightarrow> SessionRecord" where
  "reconcileSession r chunks =
     (if mode r = Mode_exec then r\<lparr> outputJournalVersion := OUTPUT_JOURNAL_VERSION \<rparr>
      else
        (let output = chunks_text chunks;
             first = (case chunks of [] \<Rightarrow> nextSequence r | c # _ \<Rightarrow> ch_startSequence c);
             next = max (nextSequence r) (if chunks = [] then first else ch_endSequence (last chunks))
         in r\<lparr> nextSequence := next,
               firstRetainedSequence := first,
               outputBytes := byteLength output,
               outputTruncated := (first > 0),
               lineCount := (if output = [] then 0
                             else length (split_on LF output) - (if ends_with_lf output then 1 else 0)),
               outputHasPartialLine := (output \<noteq> [] \<and> \<not> ends_with_lf output),
               outputJournalVersion := OUTPUT_JOURNAL_VERSION \<rparr>))"

definition sameJournalState :: "SessionRecord \<Rightarrow> SessionRecord \<Rightarrow> bool" where
  "sameJournalState left right \<longleftrightarrow>
     nextSequence left = nextSequence right \<and>
     firstRetainedSequence left = firstRetainedSequence right \<and>
     outputBytes left = outputBytes right \<and>
     outputTruncated left = outputTruncated right \<and>
     lineCount left = lineCount right \<and>
     outputHasPartialLine left = outputHasPartialLine right \<and>
     outputJournalVersion left = outputJournalVersion right"

lemma contiguous_total:
  assumes "contiguous cs" and "\<forall>c\<in>set cs. chunk_ok c" and "cs \<noteq> []"
  shows "ch_startSequence (hd cs) + byteLength (chunks_text cs) = ch_endSequence (last cs)
    \<and> validText (chunks_text cs)"
  using assms
proof (induction cs)
  case (Cons c cs)
  have c: "chunk_ok c" using Cons.prems by simp
  then have v: "validText (ch_data c)" by (simp add: chunk_ok_def nonemptyText_def)
  show ?case
  proof (cases "cs = []")
    case True
    with c v show ?thesis by (simp add: chunks_text_def chunk_ok_def)
  next
    case False
    with Cons have "ch_startSequence (hd cs) + byteLength (chunks_text cs) = ch_endSequence (last cs)"
      "validText (chunks_text cs)" by (simp_all add: contiguous_Cons)
    with False c v Cons.prems byteLength_append [OF validText_no_split [OF v], of "chunks_text cs"] show ?thesis
      by (simp add: chunks_text_def contiguous_Cons chunk_ok_def validText_append)
  qed
qed simp

lemma reconcile_cursors:
  assumes rep: "journal_rep j cs" and pty: "mode r \<noteq> Mode_exec"
    and cur: "cs \<noteq> [] \<Longrightarrow> ch_endSequence (last cs) = nextSequence r"
  shows "nextSequence (reconcileSession r cs) = nextSequence r"
    and "firstRetainedSequence (reconcileSession r cs) + outputBytes (reconcileSession r cs) = nextSequence r"
    and "outputTruncated (reconcileSession r cs) = (firstRetainedSequence (reconcileSession r cs) > 0)"
proof -
  have ok: "contiguous cs" "\<forall>c\<in>set cs. chunk_ok c" using rep by (auto simp: journal_rep_def)
  note t = contiguous_total [OF ok]
  show "nextSequence (reconcileSession r cs) = nextSequence r"
    using pty cur by (auto simp: reconcileSession_def Let_def split: list.splits)
  show "firstRetainedSequence (reconcileSession r cs) + outputBytes (reconcileSession r cs) = nextSequence r"
    using pty cur t by (cases cs) (auto simp: reconcileSession_def Let_def chunks_text_def)
  show "outputTruncated (reconcileSession r cs) = (firstRetainedSequence (reconcileSession r cs) > 0)"
    using pty by (simp add: reconcileSession_def Let_def)
qed

lemma reconcile_idem: "reconcileSession (reconcileSession r cs) cs = reconcileSession r cs"
  by (cases cs) (auto simp: reconcileSession_def Let_def)

section \<open>Properties\<close>

text \<open>
  C15: what a session printed is what a reader gets. Appending a gapless run of well-formed
  chunks to a journal makes the output the old output followed by the new text, whatever
  chunks the tail was coalesced with, and the journal stays one gapless run of valid files.
\<close>

theorem append_then_read:
  assumes "journal_rep j cs" and "tail_ok j cs" and "list_all chunk_ok new" and "contiguous new"
    and "cs \<noteq> [] \<and> new \<noteq> [] \<longrightarrow> ch_endSequence (last cs) = ch_startSequence (hd new)"
  shows "readOutput (appendOutput j new) = Inr (chunks_text cs @ chunks_text new) \<and>
    (\<exists>cs'. journal_rep (appendOutput j new) cs' \<and> tail_ok (appendOutput j new) cs' \<and>
      (\<forall>d\<in>set cs'. chunk_size d \<le> OUTPUT_SEGMENT_BYTES \<or> d \<in> set cs \<or> d \<in> set new))"
proof -
  have "\<forall>c\<in>set new. chunk_ok c" using assms(3) by (simp add: list_all_iff)
  from appendOutput_rep [OF assms(1,2) this assms(4)] assms(5)
  obtain cs' where "journal_rep (appendOutput j new) cs'" "tail_ok (appendOutput j new) cs'"
    "chunks_text cs' = chunks_text cs @ chunks_text new"
    "\<forall>d\<in>set cs'. chunk_size d \<le> OUTPUT_SEGMENT_BYTES \<or> d \<in> set cs \<or> d \<in> set new" by blast
  then show ?thesis using journal_rep_read by (auto simp: readOutput_def)
qed

text \<open>
  Trimming keeps the newest output that fits. The retained chunks are a suffix of the
  journal, they take at most the allowed bytes, dropping one chunk less would have exceeded
  them, and afterwards a reader gets exactly the retained text.
\<close>

theorem trim_keeps_longest_suffix:
  assumes "journal_rep j cs" and "0 \<le> m"
  shows "\<exists>r j' kept. trimOutput j m = Inr (r, j') \<and> cs = ro_chunks r @ kept \<and>
    readOutput j' = Inr (chunks_text kept) \<and> outputTail j' = None \<and>
    ro_outputBytes r = total_bytes kept \<and> total_bytes kept \<le> m \<and>
    (\<forall>n<length (ro_chunks r). m < total_bytes (drop n cs)) \<and>
    ro_outputTruncated r = (ro_chunks r \<noteq> []) \<and>
    (kept \<noteq> [] \<longrightarrow> ro_firstRetainedSequence r = ch_startSequence (hd kept))"
proof -
  define k where "k = drop_count m (total_bytes cs) cs"
  have le: "k \<le> length cs" by (simp add: k_def drop_count_le)
  define r where "r = \<lparr> ro_chunks = take k cs, ro_outputBytes = total_bytes (drop k cs),
      ro_firstRetainedSequence =
        (case drop k cs of c # _ \<Rightarrow> ch_startSequence c | [] \<Rightarrow> if cs = [] then 0 else ch_endSequence (last cs)),
      ro_outputTruncated = (k > 0) \<rparr>"
  have ret: "retainedOutput j m = Inr r"
    using retainedOutput_rep [OF assms(1)] by (simp add: k_def r_def)
  have "journal_rep (remove_chunks j (take k cs)) (drop k cs)"
    using assms(1) by (intro remove_chunks_rep) simp
  then have "readOutput ((remove_chunks j (take k cs))\<lparr> outputTail := None \<rparr>) = Inr (chunks_text (drop k cs))"
    by (simp add: readOutput_def journal_rep_read)
  moreover have "total_bytes (drop k cs) \<le> m"
    using assms(2) by (simp add: k_def drop_count_bound)
  moreover have "\<forall>n<length (take k cs). m < total_bytes (drop n cs)"
    by (auto simp: k_def intro: drop_count_minimal)
  moreover have "(k > 0) = (take k cs \<noteq> [])" using le by auto
  moreover have "drop k cs \<noteq> [] \<longrightarrow> ro_firstRetainedSequence r = ch_startSequence (hd (drop k cs))"
    by (cases "drop k cs") (simp_all add: r_def)
  ultimately show ?thesis
    using ret by (intro exI [of _ r] exI [of _ "(remove_chunks j (take k cs))\<lparr> outputTail := None \<rparr>"]
        exI [of _ "drop k cs"]) (simp add: trimOutput_def r_def)
qed

text \<open>
  Reading accepts a journal exactly when it is sound. A directory of \<open>.json\<close> files reads
  as the chunks \<open>cs\<close> if and only if its files are the encodings of \<open>cs\<close>, each well-formed and
  named after its start, and \<open>cs\<close> is one gapless run.
\<close>

theorem read_iff_represented:
  assumes "map_ok (files j)" and "\<forall>e\<in>set (map fst (files j)). ends_with e (js ''.json'')"
  shows "readOutputChunks j = Inr cs \<longleftrightarrow>
    set (files j) = (\<lambda>c. (chunk_name (ch_startSequence c), chunk_file c)) ` set cs \<and>
    contiguous cs \<and> (\<forall>c\<in>set cs. chunk_ok c)"
  using journal_read_rep [OF assms, of cs] journal_rep_read [of j cs] assms(1)
  unfolding journal_rep_def by blast

text \<open>
  Loading a terminal session reconciles its cursors with the journal. When the journal
  ends at the record's cursor, the reconciled cursors satisfy \<open>first + bytes = next\<close>, and
  reconciling a second time changes nothing, so a restart does not rewrite the record.
\<close>

theorem reconcile_consistent_and_stable:
  assumes "journal_rep j cs" and "mode r \<noteq> Mode_exec"
    and "cs \<noteq> [] \<longrightarrow> ch_endSequence (last cs) = nextSequence r"
  shows "firstRetainedSequence (reconcileSession r cs) + outputBytes (reconcileSession r cs) =
      nextSequence (reconcileSession r cs) \<and>
    nextSequence (reconcileSession r cs) = nextSequence r \<and>
    sameJournalState (reconcileSession r cs) (reconcileSession (reconcileSession r cs) cs)"
  using reconcile_cursors [OF assms(1,2)] assms(3) by (simp add: reconcile_idem sameJournalState_def)

subsection \<open>Instances\<close>

definition sample_chunk :: OutputChunk where
  "sample_chunk = \<lparr> ch_startSequence = 0, ch_endSequence = 2, ch_timestamp = toISOString 3, ch_data = js ''ok'' \<rparr>"

definition sample_chunk2 :: OutputChunk where
  "sample_chunk2 = \<lparr> ch_startSequence = 2, ch_endSequence = 3, ch_timestamp = toISOString 4, ch_data = [LF] \<rparr>"

definition sample_journal :: journal where
  "sample_journal = appendOutput \<lparr> files = [], outputTail = None \<rparr> [sample_chunk]"

lemma sample_chunk_ok: "chunk_ok sample_chunk" "chunk_ok sample_chunk2"
  by (simp_all add: chunk_ok_def sample_chunk_def sample_chunk2_def isSafeInteger_def MAX_SAFE_INTEGER_def
      validTimestamp_def nonemptyText_def high_surrogate_def low_surrogate_def unit_bytes_def)

lemma sample_journal_rep: "journal_rep sample_journal [sample_chunk]" "tail_ok sample_journal [sample_chunk]"
  using sample_chunk_ok(1)
  by (simp_all add: sample_journal_def appendOutput_def append_chunk_def journal_rep_def tail_ok_def map_ok_def)

theorem append_then_read_witness:
  "readOutput (appendOutput sample_journal [sample_chunk2]) = Inr (js ''ok'' @ [LF])"
  using append_then_read [OF sample_journal_rep, of "[sample_chunk2]"] sample_chunk_ok
  by (simp add: chunks_text_def) (simp add: sample_chunk_def sample_chunk2_def)

theorem trim_keeps_longest_suffix_witness:
  "\<exists>r j' kept. trimOutput sample_journal 1 = Inr (r, j') \<and> [sample_chunk] = ro_chunks r @ kept \<and>
     readOutput j' = Inr (chunks_text kept) \<and> total_bytes kept \<le> 1"
  using trim_keeps_longest_suffix [OF sample_journal_rep(1), of 1] by auto

theorem read_iff_represented_witness: "readOutputChunks sample_journal = Inr [sample_chunk]"
  using read_iff_represented [of sample_journal "[sample_chunk]"] sample_journal_rep(1) chunk_name_ends
  by (auto simp: journal_rep_def)

theorem reconcile_consistent_and_stable_witness:
  "firstRetainedSequence (reconcileSession (sample_record\<lparr> nextSequence := 2 \<rparr>) [sample_chunk]) +
   outputBytes (reconcileSession (sample_record\<lparr> nextSequence := 2 \<rparr>) [sample_chunk]) = 2"
  using reconcile_consistent_and_stable [OF sample_journal_rep(1), of "sample_record\<lparr> nextSequence := 2 \<rparr>"]
  by (simp add: sample_chunk_def) (simp add: sample_record_def)

end
