(* ===== verification/Session_Store.thy ===== *)
theory Session_Store
  imports Session_Registry Journal
begin

text \<open>
  The metadata file of a session (daemon/storage.ts): which records are valid, the stored form,
  in which the lifecycle fields are left out because the state determines them, writing a
  session with its refresh and validation, and loading it again. The older record versions and the
  directories of sessions are in Session_Migration; a record has the types of the model.
\<close>

section \<open>Valid fields\<close>

text \<open>
  The checks of \<open>validSession\<close> on the typed record: what the types already say (a field is a
  boolean, a status is one of the eight) is not repeated; text must be well-formed UTF-16,
  numbers safe integers, timestamps parse.
\<close>

definition safe_nat :: "nat \<Rightarrow> bool" where
  "safe_nat n = validNonnegativeInteger (int n)"

definition validOptional :: "('a \<Rightarrow> bool) \<Rightarrow> 'a option \<Rightarrow> bool" where
  "validOptional valid v = (case v of None \<Rightarrow> True | Some x \<Rightarrow> valid x)"

text \<open>\<open>/^[a-f0-9]{64}$/\<close>.\<close>

definition validCapabilityHash :: "js_string \<Rightarrow> bool" where
  "validCapabilityHash s \<longleftrightarrow> length s = 64 \<and> list_all (\<lambda>u. is_digit u \<or> (97 \<le> u \<and> u \<le> 102)) s"

definition validCleanup :: "SpawnCleanup \<Rightarrow> bool" where
  "validCleanup c \<longleftrightarrow> validOptional safe_nat (sc_directChildPid c) \<and> validOptional validText (sc_message c)"

fun validExitReason :: "ExitReason \<Rightarrow> bool" where
  "validExitReason (Exit_code n) = validNonnegativeInteger n"
| "validExitReason (Exit_signal s) = validText s"
| "validExitReason (Exit_timeout m) = validOptional validText m"
| "validExitReason (Exit_output_limit m) = validOptional validText m"
| "validExitReason Exit_stopped = True"
| "validExitReason (Exit_spawn_error m c) = (validText m \<and> validOptional validCleanup c)"
| "validExitReason (Exit_unknown m) = validOptional validText m"

definition validEnvironment :: "EnvironmentProfile \<Rightarrow> bool" where
  "validEnvironment e \<longleftrightarrow> list_all validText (env_keys e) \<and> validText (env_fingerprint e)"

fun validSignal :: "exit_signal \<Rightarrow> bool" where
  "validSignal (Signal_number n) = safe_nat n"
| "validSignal (Signal_name s) = validText s"

definition validExecOutput :: "ExecOutput \<Rightarrow> bool" where
  "validExecOutput e \<longleftrightarrow>
     validText (eo_stdout e) \<and> validText (eo_stderr e) \<and>
     safe_nat (eo_stdoutBytes e) \<and> safe_nat (eo_stderrBytes e) \<and>
     eo_stdoutBytes e \<ge> byteLength (eo_stdout e) \<and> eo_stderrBytes e \<ge> byteLength (eo_stderr e)"

definition validWait :: "WaitResult \<Rightarrow> bool" where
  "validWait w \<longleftrightarrow>
     validTimestamp (wr_observedAt w) \<and> validOptional validText (wr_matched w) \<and>
     validOptional validNonnegativeInteger (wr_exitCode w) \<and> validOptional validSignal (wr_exitSignal w)"

definition validWorker :: "WorkerReference \<Rightarrow> bool" where
  "validWorker w \<longleftrightarrow>
     safe_nat (wk_pid w) \<and> wk_pid w > 0 \<and> validText (wk_startIdentity w) \<and> validText (wk_processIdentity w) \<and>
     validText (wk_endpoint w) \<and> safe_nat (wk_protocolVersion w) \<and> wk_protocolVersion w \<ge> 1 \<and>
     validOptional validText (wk_tokenFingerprint w)"

definition validWorkerPrestart :: "WorkerPrestartAuthority \<Rightarrow> bool" where
  "validWorkerPrestart a \<longleftrightarrow>
     validText (pa_workerId a) \<and> validCapabilityHash (pa_tokenFingerprint a) \<and>
     safe_nat (pa_protocolVersion a) \<and> pa_protocolVersion a \<ge> 1"

definition validContainment :: "ContainmentReport \<Rightarrow> bool" where
  "validContainment c \<longleftrightarrow>
     safe_nat (co_rootPid c) \<and> validOptional safe_nat (co_processGroupId c) \<and>
     validOptional safe_nat (co_sessionId c) \<and> validText (co_rootStartIdentity c) \<and>
     list_all safe_nat (co_observedGroupPids c) \<and> list_all safe_nat (co_observedSessionPids c) \<and>
     list_all safe_nat (co_observedEscapedDescendantPids c) \<and>
     validOptional (list_all (\<lambda>(p, i). safe_nat p \<and> validText i)) (co_observedEscapedDescendants c) \<and>
     validTimestamp (co_verifiedAt c)"

definition validTermination :: "TerminationResult \<Rightarrow> bool" where
  "validTermination t = validContainment (tr_containment t)"

text \<open>\<open>[...text].length\<close>: a surrogate pair is one character.\<close>

fun codePoints :: "js_string \<Rightarrow> nat" where
  "codePoints [] = 0"
| "codePoints [u] = 1"
| "codePoints (u # v # us) =
     (if high_surrogate u \<and> low_surrogate v then Suc (codePoints us) else Suc (codePoints (v # us)))"

definition validDiagnostics :: "js_string list \<Rightarrow> bool" where
  "validDiagnostics ds \<longleftrightarrow> length ds \<le> 4 \<and> list_all (\<lambda>d. validText d \<and> codePoints d \<le> 512) ds"

section \<open>Valid sessions\<close>

definition valid_identity :: "SessionRecord \<Rightarrow> js_string \<Rightarrow> bool" where
  "valid_identity r i \<longleftrightarrow>
     session_id r = i \<and> validText (title r) \<and> validText (command r) \<and> list_all validText (args r) \<and>
     validOptional validText (description r) \<and> validOptional validText (session_name r) \<and>
     validOptional validText (idempotencyKey r) \<and> validText (workdir r) \<and>
     nonemptyText (ownerProjectDirectory r) \<and> validCapabilityHash (ownerCapabilityHash r) \<and>
     nonemptyText (parentSessionId r) \<and> validOptional validText (parentAgent r) \<and>
     validEnvironment (environment r)"

definition valid_lifecycle :: "'a LifecycleProjection_scheme \<Rightarrow> bool" where
  "valid_lifecycle r \<longleftrightarrow>
     safe_nat (pid r) \<and> validOptional validTimestamp (startedAt r) \<and> validOptional validTimestamp (exitedAt r) \<and>
     validOptional validNonnegativeInteger (exitCode r) \<and> validOptional validSignal (exitSignal r) \<and>
     validOptional validExitReason (exitReason r) \<and> validOptional validExecOutput (execOutput r) \<and>
     validOptional validWorker (worker r) \<and> validOptional validWorkerPrestart (workerPrestart r) \<and>
     (workerStartAttempted r \<noteq> None \<longrightarrow> worker r \<noteq> None \<or> workerPrestart r \<noteq> None) \<and>
     validOptional validContainment (containment r) \<and> validOptional validTermination (terminationResult r) \<and>
     validOptional validText (storageFailure r) \<and> validOptional validDiagnostics (diagnostics r) \<and>
     validOptional validWait (lastWaitResult r)"

definition valid_journal :: "SessionRecord \<Rightarrow> bool" where
  "valid_journal r \<longleftrightarrow>
     validTimestamp (createdAt r) \<and> validTimestamp (updatedAt r) \<and> validOptional validTimestamp (lastOutputAt r) \<and>
     validOptional (\<lambda>t. safe_nat t \<and> t \<noteq> 0) (timeoutSeconds r) \<and>
     safe_nat (nextSequence r) \<and> safe_nat (firstRetainedSequence r) \<and> safe_nat (outputBytes r) \<and>
     validOptional (\<lambda>n. safe_nat n \<and> n \<noteq> 0 \<and> n \<le> MAX_OUTPUT_BYTES) (outputLimitBytes r) \<and>
     safe_nat (lineCount r) \<and> outputJournalVersion r = OUTPUT_JOURNAL_VERSION"

definition tombstone_consistent :: "SessionRecord \<Rightarrow> bool" where
  "tombstone_consistent r \<longleftrightarrow>
     (legacyTombstone r \<noteq> None \<longrightarrow>
        status r = St_lost \<and> lifecycle r = Conversation \<and> pendingCleanup r = Some True \<and>
        \<not> terminationConfirmed r \<and> directChildExited r \<noteq> Some True)"

definition worker_consistent :: "'a LifecycleProjection_scheme \<Rightarrow> bool" where
  "worker_consistent r =
     (case (worker r, workerPrestart r) of
        (Some w, Some a) \<Rightarrow>
          wk_startIdentity w = pa_workerId a \<and> wk_protocolVersion w = pa_protocolVersion a \<and>
          wk_tokenFingerprint w = Some (pa_tokenFingerprint a)
      | _ \<Rightarrow> True)"

definition finished_status :: "DaemonStatus \<Rightarrow> bool" where
  "finished_status s \<longleftrightarrow> s \<in> {St_exited, St_timed_out, St_output_limited, St_spawn_failed}"

definition cleanup_pending_consistent :: "'a LifecycleProjection_scheme \<Rightarrow> bool" where
  "cleanup_pending_consistent r \<longleftrightarrow>
     (legacyOutputCleanupPending r = Some True \<longrightarrow>
        legacyTombstone r = None \<and> finished_status (status r) \<and> terminationConfirmed r)"

text \<open>A comparison with a timestamp that does not parse is false, as in the source.\<close>

definition times_consistent :: "SessionRecord \<Rightarrow> bool" where
  "times_consistent r \<longleftrightarrow>
     \<not> updatedAt r < createdAt r \<and>
     validOptional (\<lambda>t. \<not> t < createdAt r) (startedAt r) \<and> validOptional (\<lambda>t. \<not> t < createdAt r) (exitedAt r)"

definition cursors_consistent :: "SessionRecord \<Rightarrow> bool" where
  "cursors_consistent r \<longleftrightarrow>
     firstRetainedSequence r \<le> nextSequence r \<and> (\<not> outputTruncated r \<longrightarrow> firstRetainedSequence r = 0) \<and>
     (if mode r = Mode_exec
      then (worker r \<noteq> None \<or> (firstRetainedSequence r = 0 \<and> nextSequence r = 0)) \<and>
        validOptional (\<lambda>e. outputBytes r = eo_stdoutBytes e + eo_stderrBytes e) (execOutput r)
      else outputBytes r \<le> nextSequence r - firstRetainedSequence r)"

definition validSession :: "SessionRecord \<Rightarrow> js_string \<Rightarrow> bool" where
  "validSession r i \<longleftrightarrow>
     valid_identity r i \<and> valid_lifecycle r \<and> valid_journal r \<and> tombstone_consistent r \<and>
     worker_consistent r \<and> cleanup_pending_consistent r \<and> times_consistent r \<and> cursors_consistent r"

definition validCompatibilitySession :: "SessionRecord \<Rightarrow> js_string \<Rightarrow> bool" where
  "validCompatibilitySession r i = validSession r i"

definition validV2TerminalProof :: "platform \<Rightarrow> SessionStateEvidence \<Rightarrow> TerminalSessionOutcome \<Rightarrow> bool" where
  "validV2TerminalProof pf ev oc \<longleftrightarrow>
     (oc = Spawn_failed \<and> no_child_cleanup (spawn_cleanup_of (ev_exitReason ev))) \<or>
     (ev_directExited ev = Some True \<and>
       ((case ev_containment ev of None \<Rightarrow> False | Some c \<Rightarrow> drained_status (co_status c)) \<or> pf = Darwin))"

definition validTerminalPayload :: "TerminalSessionPayload \<Rightarrow> bool" where
  "validTerminalPayload p = safe_nat (ev_pid (tp_evidence p))"

definition state_payload :: "SessionState \<Rightarrow> TerminalSessionPayload option" where
  "state_payload st =
     (case state_kind st of
        Unreachable _ p \<Rightarrow> p | Cleaning (To_unreachable _ p) \<Rightarrow> p | _ \<Rightarrow> None)"

definition validV2State :: "platform \<Rightarrow> SessionState \<Rightarrow> bool" where
  "validV2State pf st =
     (let ev = state_evidence st; legacy = ev_legacy ev; terminal = terminal_outcome st in
      safe_nat (ev_pid ev) \<and> validOptional validTerminalPayload (state_payload st) \<and>
      validOptional (\<lambda>oc. ev_confirmed ev \<and> validV2TerminalProof pf ev oc) terminal \<and>
      (validOptional (\<lambda>l. \<not> lg_outputCleanupPending l) legacy \<or> terminal \<noteq> None) \<and>
      (case state_kind st of
         Terminal _ \<Rightarrow> True
       | Unreachable lk p \<Rightarrow> (lk = T_terminal) = (p \<noteq> None)
       | Cleaning tgt \<Rightarrow>
           (case tgt of To_unreachable lk p \<Rightarrow> (p \<noteq> None) = (lk = T_terminal) | _ \<Rightarrow> True) \<and>
           validOptional (\<lambda>t. case tgt of To_unreachable lk _ \<Rightarrow> lt_lastKnown t = lk | _ \<Rightarrow> False)
             (Option.bind legacy lg_tombstone)
       | _ \<Rightarrow> legacy = None))"

section \<open>Storing and loading\<close>

text \<open>
  A stored session is the record without its lifecycle fields, which its state determines: the
  extension part of the record type. \<open>with_projection\<close> is
  \<open>{ ...record, ...projectSessionState(state) }\<close>.
\<close>

type_synonym stored_session = "unit SessionRecord_ext"

definition with_projection :: "LifecycleProjection \<Rightarrow> stored_session \<Rightarrow> SessionRecord" where
  "with_projection p s = LifecycleProjection.extend p s"

definition stored_state :: "stored_session \<Rightarrow> SessionState" where
  "stored_state s = state (with_projection (projectSessionState (with_kind fresh_evidence Creating)) s)"

definition toV2Session :: "SessionRecord \<Rightarrow> stored_session" where
  "toV2Session r = LifecycleProjection.more r"

definition fromV2Session :: "stored_session \<Rightarrow> SessionRecord" where
  "fromV2Session s = with_projection (projectSessionState (stored_state s)) s"

definition validV2Session :: "platform \<Rightarrow> stored_session \<Rightarrow> js_string \<Rightarrow> bool" where
  "validV2Session pf s i \<longleftrightarrow> validV2State pf (stored_state s) \<and> validCompatibilitySession (fromV2Session s) i"

type_synonym session_files = "(js_string, stored_session) js_map"

text \<open>The record as \<open>writeSession\<close> leaves it in memory.\<close>

definition refreshed_record :: "platform \<Rightarrow> SessionRecord \<Rightarrow> SessionRecord" where
  "refreshed_record pf r =
     (let st = refreshSessionState pf (state r) r
      in with_projection (projectSessionState st) (LifecycleProjection.more (r\<lparr> state := st \<rparr>)))"

text \<open>\<open>io_ok\<close> says whether the atomic replacement of the metadata file succeeds.\<close>

definition writeSession ::
  "platform \<Rightarrow> bool \<Rightarrow> SessionRecord \<Rightarrow> session_files \<Rightarrow>
   (daemon_error, unit) result \<times> SessionRecord \<times> session_files" where
  "writeSession pf io_ok r disk =
     (let r' = refreshed_record pf r; persisted = toV2Session r' in
      if \<not> validCompatibilitySession r' (session_id r)
      then (Inl (PlainError ''Refusing to persist invalid PTY session.''), r', disk)
      else if \<not> validV2Session pf persisted (session_id r)
      then (Inl (PlainError ''Refusing to persist an invalid V2 PTY session.''), r', disk)
      else if \<not> io_ok then (Inl (PlainError ''Metadata file could not be written.''), r', disk)
      else (Inr (), r', map_set disk (session_id r) persisted))"

text \<open>A file that is not valid is set aside and not loaded.\<close>

definition readSession :: "platform \<Rightarrow> session_files \<Rightarrow> js_string \<Rightarrow> SessionRecord option" where
  "readSession pf disk i =
     (case map_get disk i of
        None \<Rightarrow> None
      | Some s \<Rightarrow> if validV2Session pf s i then Some (fromV2Session s) else None)"

definition store_deleteSession :: "session_files \<Rightarrow> js_string \<Rightarrow> session_files" where
  "store_deleteSession disk i = map_delete disk i"

section \<open>Lemmas\<close>

lemma with_projection_more [simp]: "LifecycleProjection.more (with_projection p s) = s"
  by (simp add: with_projection_def LifecycleProjection.defs)

lemma state_more: "LifecycleProjection.more (r :: SessionRecord) = LifecycleProjection.more r' \<Longrightarrow> state r = state r'"
  by (cases r; cases r') simp

lemma with_projection_sel [simp]: "state (with_projection p s) = stored_state s"
  unfolding stored_state_def by (rule state_more) simp

lemma stored_state_more [simp]: "stored_state (LifecycleProjection.more r) = state r"
  unfolding stored_state_def by (rule state_more) simp

lemma with_projection_truncate [simp]: "LifecycleProjection.truncate (with_projection p s) = p"
  by (cases p) (simp add: with_projection_def LifecycleProjection.defs)

lemma with_projection_id [simp]: "session_id (with_projection p (LifecycleProjection.more r)) = session_id r"
  by (cases r) (simp add: with_projection_def LifecycleProjection.defs)

lemma with_projection_collapse: "with_projection (LifecycleProjection.truncate r) (LifecycleProjection.more r) = r"
  by (cases r) (simp add: with_projection_def LifecycleProjection.defs)

lemma refreshed_record_state [simp]:
  "state (refreshed_record pf r) = refreshSessionState pf (state r) r"
  by (simp add: refreshed_record_def Let_def)

lemma state_update_same: "state r = st \<Longrightarrow> (r :: SessionRecord)\<lparr> state := st \<rparr> = r"
  by (cases r) simp

lemma refreshed_record_id [simp]: "session_id (refreshed_record pf r) = session_id r"
  unfolding refreshed_record_def Let_def with_projection_id by simp

lemma refreshed_record_projection:
  "LifecycleProjection.truncate (refreshed_record pf r) = projectSessionState (refreshSessionState pf (state r) r)"
  by (simp add: refreshed_record_def Let_def)

lemma from_to_V2: "fromV2Session (toV2Session (refreshed_record pf r)) = refreshed_record pf r"
  by (simp add: fromV2Session_def toV2Session_def refreshed_record_def Let_def)

lemma map_set_again: "map_set (map_set m k v) k v = map_set m k v"
  by (induction m) auto

lemma write_cases:
  assumes "writeSession pf io r disk = (res, r', disk')"
  shows "r' = refreshed_record pf r"
    and "res = Inr u \<Longrightarrow> validV2Session pf (toV2Session r') (session_id r) \<and>
      disk' = map_set disk (session_id r) (toV2Session r')"
    and "res = Inl e \<Longrightarrow> disk' = disk"
  using assms by (auto simp: writeSession_def Let_def split: if_splits)

lemma normal_legacy:
  "evidence_normal ev \<Longrightarrow> ev_legacy ev = Some l \<Longrightarrow> lg_tombstone l \<noteq> None \<or> lg_outputCleanupPending l"
  by (auto simp: evidence_normal_def)

lemma refresh_normal:
  "evidence_normal (state_evidence st) \<Longrightarrow> evidence_normal (state_evidence (refreshSessionState pf st r))"
  using record_evidence_normal [of r]
  by (auto simp: refreshSessionState_def Let_def cleaningState_def terminalOrUnreachable_def evidenceFromState_def
      evidence_normal_def merge_evidence_def or_else_def split: StateKind.splits CleaningTarget.splits option.splits)

text \<open>A state the storage accepts, with the flat record it projects to, is well-formed.\<close>

lemma stored_state_wf:
  assumes v: "validV2State pf st" and t: "tombstone_consistent r" and n: "evidence_normal (state_evidence st)"
    and p: "LifecycleProjection.truncate r = projectSessionState st"
  shows "state_wf pf st"
proof -
  have sel: "status r = projected_status st" "pendingCleanup r = pendingCleanup (projectSessionState st)"
    "legacyTombstone r = Option.bind (ev_legacy (state_evidence st)) lg_tombstone"
    using arg_cong [OF p, of status] arg_cong [OF p, of pendingCleanup] arg_cong [OF p, of legacyTombstone]
    by (simp_all add: LifecycleProjection.defs projectSessionState_def Let_def)
  have pvn: "outcome_proven pf (state_evidence st) oc"
    if "ev_confirmed (state_evidence st)" "validV2TerminalProof pf (state_evidence st) oc" for oc
    using that by (auto simp: outcome_proven_iff validV2TerminalProof_def split: option.splits)
  have leg: "legacy_wf (state_kind st) (ev_legacy (state_evidence st))"
  proof (cases "ev_legacy (state_evidence st)")
    case (Some l)
    have l: "lg_tombstone l \<noteq> None \<or> lg_outputCleanupPending l" using normal_legacy [OF n Some] .
    show ?thesis
      using v t l Some sel
      by (cases "lg_tombstone l"; cases "state_kind st")
         (auto simp: legacy_wf_def validV2State_def Let_def validOptional_def terminal_outcome_def tombstone_consistent_def
          projected_status_def is_cleaning_def outcome_status.simps projectSessionState_def
          split: CleaningTarget.splits TerminalSessionOutcome.splits if_splits)
  qed (simp add: legacy_wf_def)
  with v pvn show ?thesis
    by (auto simp: state_wf_def Let_def validV2State_def validOptional_def terminal_outcome_def payload_matches_def
        split: StateKind.splits CleaningTarget.splits)
qed

lemma refreshed_record_stable:
  assumes v: "validV2Session pf (toV2Session (refreshed_record pf r)) i" and n: "evidence_normal (state_evidence (state r))"
  shows "refreshed_record pf (refreshed_record pf r) = refreshed_record pf r"
proof -
  let ?st = "refreshSessionState pf (state r) r" and ?r = "refreshed_record pf r"
  from v have vs: "validV2State pf ?st" and vc: "tombstone_consistent ?r"
    by (simp_all add: validV2Session_def from_to_V2 [unfolded toV2Session_def] validCompatibilitySession_def validSession_def toV2Session_def)
  have n': "evidence_normal (state_evidence ?st)" by (rule refresh_normal [OF n])
  have wf: "state_wf pf ?st" by (rule stored_state_wf [OF vs vc n' refreshed_record_projection])
  have "refreshSessionState pf ?st ?r = ?st"
    unfolding refresh_truncate [of pf ?st ?r, symmetric] refreshed_record_projection by (rule refresh_project [OF wf n'])
  then have "refreshed_record pf ?r = with_projection (projectSessionState ?st) (LifecycleProjection.more (?r\<lparr> state := ?st \<rparr>))"
    by (simp add: refreshed_record_def [of pf ?r] Let_def)
  also have "?r\<lparr> state := ?st \<rparr> = ?r" by (simp add: state_update_same)
  also have "with_projection (projectSessionState ?st) (LifecycleProjection.more ?r) = ?r"
    unfolding refreshed_record_projection [symmetric] by (rule with_projection_collapse)
  finally show ?thesis .
qed

section \<open>The files over time\<close>

datatype store_event = Write bool SessionRecord | Delete js_string

fun store_step :: "platform \<Rightarrow> session_files \<Rightarrow> store_event \<Rightarrow> session_files" where
  "store_step pf disk (Write io r) = snd (snd (writeSession pf io r disk))"
| "store_step pf disk (Delete i) = store_deleteSession disk i"

definition store_inv :: "platform \<Rightarrow> session_files \<Rightarrow> bool" where
  "store_inv pf disk \<longleftrightarrow> (\<forall>i s. map_get disk i = Some s \<longrightarrow> validV2Session pf s i)"

lemma store_step_inv: "store_inv pf disk \<Longrightarrow> store_inv pf (store_step pf disk e)"
proof (cases e)
  case (Write io r)
  assume inv: "store_inv pf disk"
  obtain res r' disk' where w: "writeSession pf io r disk = (res, r', disk')" by (cases "writeSession pf io r disk")
  show ?thesis
    using inv write_cases [OF w] Write w by (cases res) (auto simp: store_inv_def)
qed (auto simp: store_inv_def store_deleteSession_def)

interpretation store_runs: invariant_system "store_step pf" "\<lambda>_ _. True" "store_inv pf" for pf
  by unfold_locales (rule store_step_inv)

lemma store_run_enabled [simp]: "store_runs.run_enabled pf disk es"
  by (induction es arbitrary: disk) auto

section \<open>Properties\<close>



definition sample_session :: SessionRecord where
  "sample_session = sample_record\<lparr> ownerCapabilityHash := replicate 64 97 \<rparr>"

lemma sample_session_refreshed: "refreshed_record Linux sample_session = sample_session"
proof -
  have "refreshSessionState Linux (state sample_session) sample_session = state sample_session"
    by (simp add: refreshSessionState_def record_evidence_def sample_session_def sample_record_def fresh_evidence_def
        with_kind_def Let_def truthy_text_def)
  moreover have "projectSessionState (state sample_session) = LifecycleProjection.truncate sample_session"
    by (simp add: projectSessionState_def projected_status_def projected_lastKnown_def is_cleaning_def
        sample_session_def sample_record_def fresh_evidence_def LifecycleProjection.defs Let_def)
  moreover have "sample_session\<lparr> state := state sample_session \<rparr> = sample_session" by (simp add: state_update_same)
  ultimately show ?thesis by (simp add: refreshed_record_def Let_def with_projection_collapse)
qed

lemma sample_texts: "validText (js ''pty_1'')" "validText (js ''build'')" "validText (js ''make'')" "validText (js ''all'')"
  "validText (js ''/w'')" "validText (js ''ses_1'')" "validText (js ''f'')"
  by (simp_all add: high_surrogate_def low_surrogate_def)

lemma sample_session_valid: "validV2Session Linux (toV2Session sample_session) (js ''pty_1'')"
proof -
  have c: "fromV2Session (toV2Session sample_session) = sample_session"
    using from_to_V2 [of Linux sample_session] by (simp only: sample_session_refreshed)
  have nums: "safe_nat 0" "safe_nat 1000" by (simp_all add: safe_nat_def validNonnegativeInteger_def isSafeInteger_def MAX_SAFE_INTEGER_def)
  have hash: "validCapabilityHash (replicate 64 97)" by (simp add: validCapabilityHash_def list_all_length)
  have t: "validTimestamp (toISOString n)" for n by (simp add: validTimestamp_def)
  note sample = sample_session_def sample_record_def
  have "valid_identity sample_session (js ''pty_1'')"
    using sample_texts hash by (simp add: valid_identity_def sample validOptional_def nonemptyText_def validEnvironment_def)
  moreover have "valid_lifecycle sample_session" using nums by (simp add: valid_lifecycle_def sample validOptional_def)
  moreover have "valid_journal sample_session"
    using nums t by (simp add: valid_journal_def sample validOptional_def MAX_OUTPUT_BYTES_def OUTPUT_JOURNAL_VERSION_def)
  moreover have "tombstone_consistent sample_session" "worker_consistent sample_session"
    "cleanup_pending_consistent sample_session" "times_consistent sample_session" "cursors_consistent sample_session"
    by (simp_all add: sample tombstone_consistent_def worker_consistent_def cleanup_pending_consistent_def
        times_consistent_def cursors_consistent_def validOptional_def timestamp_less_iff)
  moreover have "validV2State Linux (state sample_session)"
    using nums by (simp add: validV2State_def sample fresh_evidence_def validOptional_def terminal_outcome_def state_payload_def)
  ultimately show ?thesis
    by (simp add: validV2Session_def c validCompatibilitySession_def validSession_def) (simp add: toV2Session_def)
qed

lemma sample_session_written:
  "writeSession Linux True sample_session [] = (Inr (), sample_session, [(js ''pty_1'', toV2Session sample_session)])"
proof -
  have i: "session_id sample_session = js ''pty_1''" by (simp add: sample_session_def sample_record_def)
  have c: "fromV2Session (toV2Session sample_session) = sample_session"
    using from_to_V2 [of Linux sample_session] by (simp only: sample_session_refreshed)
  from sample_session_valid have "validCompatibilitySession sample_session (js ''pty_1'')"
    by (simp only: validV2Session_def c)
  then show ?thesis
    using sample_session_valid by (simp add: writeSession_def Let_def sample_session_refreshed i)
qed



end
