(* ===== verification/Session_Migration.thy ===== *)
theory Session_Migration
  imports Session_Store
begin

text \<open>
  Loading the sessions of a data directory (daemon/storage.ts): decoding the metadata files of every record
  version, the import of records of version 0 and 1 with their output, the checks of the journal against the
  record, quarantine, and the load of all directories. Which file operations succeed is an argument. A file
  has the types of the model in the fields it carries.
\<close>

section \<open>Files of older versions\<close>

text \<open>
  A record of version 0 or 1 carries the fields of a session, some of which may be absent; the
  three fields that name the owner may also be \<open>null\<close>. \<open>ls_fields\<close> holds the fields that every
  version has; the others are read from the fields below, never from \<open>ls_fields\<close>.
\<close>

datatype 'a owner_field = Missing | Null_value | Given 'a

record legacy_session =
  ls_fields :: SessionRecord
  ls_ownerProjectDirectory :: "js_string owner_field"
  ls_ownerCapabilityHash :: "js_string owner_field"
  ls_parentSessionId :: "js_string owner_field"
  ls_mode :: "ExecutionMode option"
  ls_lifecycle :: "SessionLifecycle option"
  ls_environment :: "EnvironmentProfile option"
  ls_terminationRequested :: "bool option"
  ls_terminationConfirmed :: "bool option"
  ls_outputJournalVersion :: "nat option"

text \<open>
  A metadata file: text that is not JSON, JSON that is no object, a record without a version, of
  version 1, of version 2, and one whose version is another number or no number at all.
\<close>

datatype session_file =
    Unreadable_file
  | No_object
  | Record_v0 legacy_session
  | Record_v1 legacy_session
  | Record_v2 stored_session
  | Record_other "int option"

datatype load_error =
    InvalidSessionError
  | InvalidJournalError journal_error
  | UnsupportedSessionError js_string
  | OtherLoadError daemon_error

definition empty_environment :: EnvironmentProfile where
  "empty_environment = \<lparr> env_kind = Env_safe, env_keys = [], env_fingerprint = [], env_sensitive = False \<rparr>"

text \<open>The fields of the source with the defaults of \<open>decodeLegacySession\<close> for the absent ones.\<close>

definition legacy_fields :: "legacy_session \<Rightarrow> SessionRecord" where
  "legacy_fields s = (ls_fields s)
     \<lparr> mode := nullish (ls_mode s) Mode_pty,
       lifecycle := nullish (ls_lifecycle s) Conversation,
       environment := nullish (ls_environment s) empty_environment,
       terminationRequested := (ls_terminationRequested s = Some True),
       terminationConfirmed := (ls_terminationConfirmed s = Some True) \<rparr>"

section \<open>Which old records are valid\<close>

fun valid_owner_v0 :: "js_string owner_field \<Rightarrow> bool" where
  "valid_owner_v0 Missing = True"
| "valid_owner_v0 Null_value = False"
| "valid_owner_v0 (Given t) = validText t"

fun given :: "('a \<Rightarrow> bool) \<Rightarrow> 'a owner_field \<Rightarrow> bool" where
  "given valid (Given x) = valid x"
| "given valid _ = False"

definition legacy_owner_valid :: "legacy_version \<Rightarrow> legacy_session \<Rightarrow> bool" where
  "legacy_owner_valid v s =
     (if v = V1
      then given nonemptyText (ls_ownerProjectDirectory s) \<and> given validCapabilityHash (ls_ownerCapabilityHash s) \<and>
        given nonemptyText (ls_parentSessionId s)
      else valid_owner_v0 (ls_ownerProjectDirectory s) \<and> valid_owner_v0 (ls_ownerCapabilityHash s) \<and>
        valid_owner_v0 (ls_parentSessionId s))"

text \<open>What version 1 requires and version 0 does not.\<close>

definition legacy_fields_present :: "legacy_version \<Rightarrow> legacy_session \<Rightarrow> bool" where
  "legacy_fields_present v s \<longleftrightarrow>
     (v = V1 \<longrightarrow>
        ls_terminationRequested s \<noteq> None \<and> ls_terminationConfirmed s \<noteq> None \<and> ls_mode s \<noteq> None \<and>
        ls_lifecycle s \<noteq> None \<and> ls_environment s \<noteq> None \<and> ls_outputJournalVersion s \<noteq> None) \<and>
     validOptional (\<lambda>n. n = OUTPUT_JOURNAL_VERSION) (ls_outputJournalVersion s)"

definition legacy_texts_valid :: "SessionRecord \<Rightarrow> js_string \<Rightarrow> bool" where
  "legacy_texts_valid r i \<longleftrightarrow>
     session_id r = i \<and> validText (title r) \<and> validText (command r) \<and> list_all validText (args r) \<and>
     validOptional validText (description r) \<and> validOptional validText (session_name r) \<and>
     validOptional validText (idempotencyKey r) \<and> validText (workdir r) \<and> validOptional validText (parentAgent r) \<and>
     validEnvironment (environment r)"

text \<open>Only version 1 has tombstones, and only of records that were imported from version 0.\<close>

definition legacy_tombstone_valid :: "legacy_version \<Rightarrow> SessionRecord \<Rightarrow> bool" where
  "legacy_tombstone_valid v r =
     validOptional (\<lambda>t. v = V1 \<and> lt_sourceRecordVersion t = V0) (legacyTombstone r)"

definition validLegacySession :: "legacy_version \<Rightarrow> legacy_session \<Rightarrow> js_string \<Rightarrow> bool" where
  "validLegacySession v s i =
     (let r = legacy_fields s in
      legacy_texts_valid r i \<and> legacy_owner_valid v s \<and> legacy_fields_present v s \<and> valid_lifecycle r \<and>
      valid_journal (r\<lparr> outputJournalVersion := OUTPUT_JOURNAL_VERSION \<rparr>) \<and> legacy_tombstone_valid v r \<and>
      tombstone_consistent r \<and> worker_consistent r \<and> cleanup_pending_consistent r \<and> times_consistent r \<and>
      cursors_consistent r)"

section \<open>Decoding\<close>

record DecodedSession =
  decoded_record :: SessionRecord
  forceMetadataWrite :: bool
  importLegacyOutput :: bool
  removeLegacyOutput :: bool

fun legacyLastKnown :: "DaemonStatus \<Rightarrow> SessionStateTarget" where
  "legacyLastKnown St_starting = T_creating"
| "legacyLastKnown St_running = T_running"
| "legacyLastKnown St_stopping = T_stopping"
| "legacyLastKnown St_lost = T_unreachable"
| "legacyLastKnown _ = T_terminal"

definition report_drained :: "ContainmentReport option \<Rightarrow> bool" where
  "report_drained c = (case c of None \<Rightarrow> False | Some report \<Rightarrow> drained_status (co_status report))"

definition legacy_terminal :: "SessionRecord \<Rightarrow> bool" where
  "legacy_terminal r \<longleftrightarrow>
     finished_status (status r) \<and> terminationConfirmed r \<and> directChildExited r = Some True \<and>
     report_drained (containment r)"

definition legacy_tombstone :: "legacy_version \<Rightarrow> SessionRecord \<Rightarrow> LegacyTombstone option" where
  "legacy_tombstone v r =
     (if legacy_terminal r then None
      else or_else (legacyTombstone r)
        (Some \<lparr> lt_sourceRecordVersion = v, lt_lastKnown = legacyLastKnown (status r) \<rparr>))"

definition legacy_cleanup_pending :: "legacy_version \<Rightarrow> legacy_session \<Rightarrow> bool" where
  "legacy_cleanup_pending v s \<longleftrightarrow>
     legacy_terminal (legacy_fields s) \<and>
     (if v = V0 then ls_outputJournalVersion s \<noteq> Some OUTPUT_JOURNAL_VERSION
      else legacyOutputCleanupPending (ls_fields s) = Some True)"

text \<open>The flat record of the import; a field that is spread only under a condition keeps the value of the source.\<close>

definition legacy_record :: "legacy_version \<Rightarrow> legacy_session \<Rightarrow> js_string \<Rightarrow> js_string \<Rightarrow> js_string \<Rightarrow> SessionRecord" where
  "legacy_record v s project hash parent =
     (let r = legacy_fields s; terminal = legacy_terminal r in
      r\<lparr> ownerProjectDirectory := project, ownerCapabilityHash := hash, parentSessionId := parent,
         lifecycle := (if terminal then lifecycle r else Conversation),
         status := (if terminal then status r else St_lost),
         terminationConfirmed := terminal, directChildExited := Some terminal,
         pendingCleanup := (if terminal then pendingCleanup r else Some True),
         outputJournalVersion := OUTPUT_JOURNAL_VERSION,
         streamDrain := (if terminal then Some Drain_unknown else None),
         legacyOutputCleanupPending :=
           (if legacy_cleanup_pending v s then Some True else legacyOutputCleanupPending r),
         legacyTombstone := or_else (legacy_tombstone v r) (legacyTombstone r) \<rparr>)"

definition legacy_state :: "platform \<Rightarrow> DaemonStatus \<Rightarrow> SessionRecord \<Rightarrow> SessionState" where
  "legacy_state pf source r =
     sessionStateFromCompatibility pf (if finished_status source then r\<lparr> status := source \<rparr> else r)"

definition no_owner :: "js_string \<Rightarrow> load_error" where
  "no_owner i = UnsupportedSessionError
     (js ''Legacy PTY session '' @ [39] @ i @ [39] @ js '' lacks a complete owner identity and was left unchanged.'')"

text \<open>\<open>realpath\<close> gives the canonical form of a path, or nothing where it fails.\<close>

definition decodeLegacySession ::
  "platform \<Rightarrow> (js_string \<Rightarrow> js_string option) \<Rightarrow> legacy_session \<Rightarrow> js_string \<Rightarrow> legacy_version \<Rightarrow>
   (load_error, DecodedSession) result" where
  "decodeLegacySession pf realpath s i v =
     (case (ls_parentSessionId s, ls_ownerProjectDirectory s, ls_ownerCapabilityHash s) of
        (Given parent, Given project, Given hash) \<Rightarrow>
          if \<not> nonemptyText parent \<or> \<not> nonemptyText project \<or> \<not> validCapabilityHash hash then Inl (no_owner i)
          else (case realpath project of
              None \<Rightarrow> Inl (UnsupportedSessionError
                (js ''Legacy PTY session '' @ [39] @ i @ [39] @ js '' has an unverifiable owner project directory and was left unchanged.''))
            | Some real \<Rightarrow>
                if real \<noteq> project then Inl (UnsupportedSessionError
                  (js ''Legacy PTY session '' @ [39] @ i @ [39] @ js '' has a noncanonical owner project directory and was left unchanged.''))
                else
                  (let r = legacy_record v s real hash parent;
                       converted = r\<lparr> state := legacy_state pf (status (ls_fields s)) r \<rparr>
                   in if \<not> validCompatibilitySession converted i then Inl InvalidSessionError
                      else Inr \<lparr> decoded_record = converted, forceMetadataWrite = True,
                        importLegacyOutput = (v = V0 \<and> ls_outputJournalVersion s \<noteq> Some OUTPUT_JOURNAL_VERSION),
                        removeLegacyOutput = legacy_cleanup_pending v s \<rparr>))
      | _ \<Rightarrow> Inl (no_owner i))"

definition decodeV0Session ::
  "platform \<Rightarrow> (js_string \<Rightarrow> js_string option) \<Rightarrow> legacy_session \<Rightarrow> js_string \<Rightarrow> (load_error, DecodedSession) result" where
  "decodeV0Session pf realpath s i =
     (if ls_parentSessionId s = Null_value \<or> ls_ownerProjectDirectory s = Null_value \<or> ls_ownerCapabilityHash s = Null_value
      then Inl (no_owner i)
      else if \<not> validLegacySession V0 s i then Inl InvalidSessionError
      else decodeLegacySession pf realpath s i V0)"

definition decodeV1Session ::
  "platform \<Rightarrow> (js_string \<Rightarrow> js_string option) \<Rightarrow> legacy_session \<Rightarrow> js_string \<Rightarrow> (load_error, DecodedSession) result" where
  "decodeV1Session pf realpath s i =
     (if \<not> validLegacySession V1 s i then Inl InvalidSessionError else decodeLegacySession pf realpath s i V1)"

fun decodeSession ::
  "platform \<Rightarrow> (js_string \<Rightarrow> js_string option) \<Rightarrow> session_file \<Rightarrow> js_string \<Rightarrow> (load_error, DecodedSession) result" where
  "decodeSession pf realpath Unreadable_file i = Inl InvalidSessionError"
| "decodeSession pf realpath No_object i = Inl InvalidSessionError"
| "decodeSession pf realpath (Record_v0 s) i = decodeV0Session pf realpath s i"
| "decodeSession pf realpath (Record_v1 s) i = decodeV1Session pf realpath s i"
| "decodeSession pf realpath (Record_v2 s) i =
     (if \<not> validV2Session pf s i then Inl InvalidSessionError
      else let converted = fromV2Session s in
        Inr \<lparr> decoded_record = converted, forceMetadataWrite = False, importLegacyOutput = False,
              removeLegacyOutput = (legacyOutputCleanupPending converted = Some True) \<rparr>)"
| "decodeSession pf realpath (Record_other (Some n)) i =
     (if validNonnegativeInteger n
      then Inl (UnsupportedSessionError
        (js ''Unsupported PTY session record version '' @ decimal (nat n) @ js ''; it was left unchanged.''))
      else Inl InvalidSessionError)"
| "decodeSession pf realpath (Record_other None) i = Inl InvalidSessionError"

section \<open>Migrating the directory of a session\<close>

record session_directory =
  sd_metadata :: "session_file option"
  sd_journal :: journal
  sd_legacyOutput :: "js_string option"

text \<open>
  Which file operations succeed: reading the old output, appending it to the journal, removing chunks,
  the two writes of the metadata, removing the old output, and the rename into quarantine.
\<close>

record load_io =
  io_legacyRead :: bool
  io_append :: bool
  io_discard :: bool
  io_write :: bool
  io_remove :: bool
  io_rewrite :: bool
  io_quarantine :: bool

definition io_failure :: load_error where
  "io_failure = OtherLoadError (PlainError ''File operation failed.'')"

definition journal_chunks :: "journal \<Rightarrow> (load_error, OutputChunk list) result" where
  "journal_chunks j = (case readOutputChunks j of Inl e \<Rightarrow> Inl (InvalidJournalError e) | Inr cs \<Rightarrow> Inr cs)"

text \<open>A step that fails keeps what the steps before it have done.\<close>

definition step_then :: "('e, 'a) result \<times> 's \<Rightarrow> ('a \<Rightarrow> 's \<Rightarrow> ('e, 'b) result \<times> 's) \<Rightarrow> ('e, 'b) result \<times> 's" where
  "step_then step rest = (case step of (Inl e, s) \<Rightarrow> (Inl e, s) | (Inr x, s) \<Rightarrow> rest x s)"

definition import_legacy_output ::
  "load_io \<Rightarrow> bool \<Rightarrow> SessionRecord \<Rightarrow> OutputChunk list \<Rightarrow> session_directory \<Rightarrow>
   (load_error, OutputChunk list) result \<times> session_directory" where
  "import_legacy_output io wanted r chunks dir =
     (if wanted \<and> chunks = [] then
        (if \<not> io_legacyRead io then (Inl io_failure, dir)
         else let legacyOutput = nullish (sd_legacyOutput dir) [] in
           if legacyOutput = [] then (Inr chunks, dir)
           else if \<not> io_append io then (Inl io_failure, dir)
           else
             (let startSequence = firstRetainedSequence r;
                  j = appendOutput (sd_journal dir)
                    [\<lparr> ch_startSequence = startSequence, ch_endSequence = startSequence + byteLength legacyOutput,
                       ch_timestamp = updatedAt r, ch_data = legacyOutput \<rparr>]
              in (journal_chunks j, dir\<lparr> sd_journal := j \<rparr>)))
      else (Inr chunks, dir))"

definition cursor_mismatch :: "SessionRecord \<Rightarrow> OutputChunk list \<Rightarrow> bool" where
  "cursor_mismatch r chunks \<longleftrightarrow>
     mode r \<noteq> Mode_exec \<and> chunks \<noteq> [] \<and> ch_endSequence (last chunks) \<noteq> nextSequence r"

definition check_cursor :: "string \<Rightarrow> SessionRecord \<Rightarrow> OutputChunk list \<Rightarrow> session_directory \<Rightarrow>
   (load_error, OutputChunk list) result \<times> session_directory" where
  "check_cursor message r chunks dir =
     (if cursor_mismatch r chunks then (Inl (InvalidJournalError (InvalidJournal message)), dir) else (Inr chunks, dir))"

definition discard_truncated ::
  "load_io \<Rightarrow> SessionRecord \<Rightarrow> OutputChunk list \<Rightarrow> session_directory \<Rightarrow>
   (load_error, OutputChunk list) result \<times> session_directory" where
  "discard_truncated io r chunks dir =
     (if outputJournalVersion r = OUTPUT_JOURNAL_VERSION \<and> outputTruncated r then
        (if \<not> io_discard io then (Inl io_failure, dir)
         else case discardOutputBefore (sd_journal dir) (firstRetainedSequence r) of
             Inl e \<Rightarrow> (Inl (InvalidJournalError e), dir)
           | Inr j \<Rightarrow> (journal_chunks j, dir\<lparr> sd_journal := j \<rparr>))
      else (Inr chunks, dir))"

text \<open>The metadata is replaced as a whole, so the write concerns one file; the record is the one the write leaves.\<close>

definition write_metadata ::
  "platform \<Rightarrow> bool \<Rightarrow> SessionRecord \<Rightarrow> session_directory \<Rightarrow>
   (load_error, unit) result \<times> SessionRecord \<times> session_directory" where
  "write_metadata pf io_ok r dir =
     (case writeSession pf io_ok r [] of
        (Inl e, r', _) \<Rightarrow> (Inl (OtherLoadError e), r', dir)
      | (Inr _, r', disk) \<Rightarrow> (Inr (), r', dir\<lparr> sd_metadata := map_option Record_v2 (map_get disk (session_id r)) \<rparr>))"

definition write_migrated ::
  "platform \<Rightarrow> load_io \<Rightarrow> bool \<Rightarrow> SessionRecord \<Rightarrow> OutputChunk list \<Rightarrow> session_directory \<Rightarrow>
   (load_error, SessionRecord) result \<times> session_directory" where
  "write_migrated pf io force r chunks dir =
     (let migrated = reconcileSession r chunks in
      if force \<or> \<not> sameJournalState r migrated then
        (case write_metadata pf (io_write io) migrated dir of
           (Inl e, _, dir') \<Rightarrow> (Inl e, dir')
         | (Inr _, r', dir') \<Rightarrow> (Inr r', dir'))
      else (Inr migrated, dir))"

text \<open>Removing the old output: a failure is reported and the session is loaded all the same.\<close>

definition remove_legacy_output ::
  "platform \<Rightarrow> load_io \<Rightarrow> bool \<Rightarrow> SessionRecord \<Rightarrow> session_directory \<Rightarrow>
   (load_error, SessionRecord) result \<times> session_directory" where
  "remove_legacy_output pf io wanted migrated dir =
     (if \<not> wanted \<or> \<not> io_remove io then (Inr migrated, dir)
      else let removed = dir\<lparr> sd_legacyOutput := None \<rparr> in
        if legacyOutputCleanupPending migrated = Some True
        then (let cleared = migrated\<lparr> legacyOutputCleanupPending := None \<rparr> in
              case write_metadata pf (io_rewrite io) cleared removed of (_, r', dir') \<Rightarrow> (Inr r', dir'))
        else (Inr migrated, removed))"

definition migrateSession ::
  "platform \<Rightarrow> load_io \<Rightarrow> DecodedSession \<Rightarrow> session_directory \<Rightarrow>
   (load_error, SessionRecord) result \<times> session_directory" where
  "migrateSession pf io d dir =
     (let r = decoded_record d in
      step_then (journal_chunks (sd_journal dir), dir) (\<lambda>chunks dir.
      step_then (import_legacy_output io (importLegacyOutput d) r chunks dir) (\<lambda>chunks dir.
      step_then (check_cursor ''chunk cursor does not match session cursor'' r chunks dir) (\<lambda>chunks dir.
      step_then (discard_truncated io r chunks dir) (\<lambda>chunks dir.
      step_then (check_cursor ''retained chunk cursor does not match session cursor'' r chunks dir) (\<lambda>chunks dir.
      step_then (write_migrated pf io (forceMetadataWrite d) r chunks dir) (\<lambda>migrated dir.
      remove_legacy_output pf io (removeLegacyOutput d) migrated dir)))))))"

section \<open>Loading\<close>

text \<open>The directory is gone when it was moved into quarantine.\<close>

definition quarantineSession :: "load_io \<Rightarrow> session_directory \<Rightarrow> session_directory option" where
  "quarantineSession io dir = (if io_quarantine io then None else Some dir)"

definition readSessionDirectory ::
  "platform \<Rightarrow> (js_string \<Rightarrow> js_string option) \<Rightarrow> load_io \<Rightarrow> js_string \<Rightarrow> session_directory \<Rightarrow>
   (load_error, SessionRecord option) result \<times> session_directory option" where
  "readSessionDirectory pf realpath io i dir =
     (case sd_metadata dir of
        None \<Rightarrow> (Inr None, Some dir)
      | Some f \<Rightarrow>
          (case (case decodeSession pf realpath f i of
                   Inl e \<Rightarrow> (Inl e, dir)
                 | Inr d \<Rightarrow> migrateSession pf io d dir) of
             (Inr r, dir') \<Rightarrow> (Inr (Some r), Some dir')
           | (Inl e, dir') \<Rightarrow>
               (case e of
                  InvalidSessionError \<Rightarrow> (Inr None, quarantineSession io dir')
                | InvalidJournalError _ \<Rightarrow> (Inr None, quarantineSession io dir')
                | UnsupportedSessionError _ \<Rightarrow> (Inr None, Some dir')
                | OtherLoadError _ \<Rightarrow> (Inl e, Some dir'))))"

text \<open>
  All directories are read; the load fails when one of the reads fails, with the first error in the
  order of the entries.
\<close>

definition loadSessions ::
  "platform \<Rightarrow> (js_string \<Rightarrow> js_string option) \<Rightarrow> (js_string \<Rightarrow> load_io) \<Rightarrow> (js_string, session_directory) js_map \<Rightarrow>
   (load_error, SessionRecord list) result \<times> (js_string, session_directory) js_map" where
  "loadSessions pf realpath io dirs =
     (let reads = map (\<lambda>(i, dir). (i, readSessionDirectory pf realpath (io i) i dir)) dirs;
          outcome = foldr (\<lambda>(i, res, _) acc. and_then res (\<lambda>r. and_then acc (\<lambda>rs.
            Inr (case r of None \<Rightarrow> rs | Some x \<Rightarrow> x # rs)))) reads (Inr [])
      in (outcome, concat (map (\<lambda>(i, _, dir). case dir of None \<Rightarrow> [] | Some x \<Rightarrow> [(i, x)]) reads)))"

section \<open>Steps of a migration\<close>

lemma step_then_Inr:
  assumes "step_then step rest = (Inr y, s')"
  obtains x s where "step = (Inr x, s)" "rest x s = (Inr y, s')"
  using assms by (auto simp: step_then_def split: prod.splits sum.splits)

lemma step_then_simps [simp]:
  "step_then (Inr x, s) rest = rest x s" "step_then (Inl e, s) rest = (Inl e, s)"
  by (simp_all add: step_then_def)

lemma toV2_fromV2 [simp]: "toV2Session (fromV2Session s) = s"
  by (simp add: toV2Session_def fromV2Session_def)

lemma valid_fromV2: "validV2Session pf s i \<Longrightarrow> validSession (fromV2Session s) i"
  by (simp add: validV2Session_def validCompatibilitySession_def)

lemma journal_chunks_rep: "journal_rep j cs \<Longrightarrow> journal_chunks j = Inr cs"
  by (simp add: journal_chunks_def journal_rep_read)

lemma remove_no_chunks [simp]: "remove_chunks j [] = j"
  by (simp add: remove_chunks_def)

text \<open>The fields a journal determines, and what stays when the lifecycle is refreshed.\<close>

lemma reconcile_same: "sameJournalState r (reconcileSession r cs) \<Longrightarrow> reconcileSession r cs = r"
  by (cases r) (auto simp: sameJournalState_def reconcileSession_def Let_def split: if_splits)

lemma sameJournalState_refl [simp]: "sameJournalState r r"
  by (simp add: sameJournalState_def)

lemma refreshed_record_sel [simp]:
  "mode (refreshed_record pf r) = mode r"
  "nextSequence (refreshed_record pf r) = nextSequence r"
  "firstRetainedSequence (refreshed_record pf r) = firstRetainedSequence r"
  "outputBytes (refreshed_record pf r) = outputBytes r"
  "outputTruncated (refreshed_record pf r) = outputTruncated r"
  "lineCount (refreshed_record pf r) = lineCount r"
  "outputHasPartialLine (refreshed_record pf r) = outputHasPartialLine r"
  "outputJournalVersion (refreshed_record pf r) = outputJournalVersion r"
  "ownerProjectDirectory (refreshed_record pf r) = ownerProjectDirectory r"
  "ownerCapabilityHash (refreshed_record pf r) = ownerCapabilityHash r"
  "parentSessionId (refreshed_record pf r) = parentSessionId r"
  "lifecycle (refreshed_record pf r) = lifecycle r"
  by (cases r; simp add: refreshed_record_def with_projection_def LifecycleProjection.defs Let_def)+

lemma reconcile_cong:
  "sameJournalState a b \<Longrightarrow> mode a = mode b \<Longrightarrow> sameJournalState (reconcileSession a cs) (reconcileSession b cs)"
  by (cases cs) (simp_all add: sameJournalState_def reconcileSession_def Let_def)

lemma sameJournalState_trans: "sameJournalState a b \<Longrightarrow> sameJournalState b c \<Longrightarrow> sameJournalState a c"
  by (simp add: sameJournalState_def)

lemma reconciled_cong:
  assumes "sameJournalState m r" "mode m = mode r" "reconcileSession m cs = m"
  shows "reconcileSession r cs = r"
proof (rule reconcile_same)
  have "sameJournalState r m" using assms(1) by (simp add: sameJournalState_def)
  moreover have "sameJournalState m (reconcileSession r cs)" using reconcile_cong [OF assms(1,2), of cs] assms(3) by simp
  ultimately show "sameJournalState r (reconcileSession r cs)" by (rule sameJournalState_trans)
qed

lemma reconcile_sel [simp]:
  "mode (reconcileSession r cs) = mode r" "session_id (reconcileSession r cs) = session_id r"
  "state (reconcileSession r cs) = state r"
  "ownerProjectDirectory (reconcileSession r cs) = ownerProjectDirectory r"
  "ownerCapabilityHash (reconcileSession r cs) = ownerCapabilityHash r"
  "parentSessionId (reconcileSession r cs) = parentSessionId r"
  "lifecycle (reconcileSession r cs) = lifecycle r"
  "LifecycleProjection.truncate (reconcileSession r cs) = LifecycleProjection.truncate r"
  by (simp_all add: reconcileSession_def LifecycleProjection.defs Let_def)

text \<open>A successful write leaves the refreshed record, in memory and in the file.\<close>

lemma write_metadata_ok:
  assumes "write_metadata pf ok r dir = (Inr u, r', dir')"
  shows "r' = refreshed_record pf r" "ok" "validV2Session pf (toV2Session r') (session_id r)"
    "dir' = dir\<lparr> sd_metadata := Some (Record_v2 (toV2Session r')) \<rparr>" "fromV2Session (toV2Session r') = r'"
  using assms from_to_V2 [of pf r]
  by (auto simp: write_metadata_def writeSession_def Let_def split: prod.splits sum.splits if_splits)

lemma write_metadata_does:
  assumes "validV2Session pf (toV2Session (refreshed_record pf r)) (session_id r)"
  shows "write_metadata pf True r dir =
    (Inr (), refreshed_record pf r, dir\<lparr> sd_metadata := Some (Record_v2 (toV2Session (refreshed_record pf r))) \<rparr>)"
  using assms from_to_V2 [of pf r] by (simp add: write_metadata_def writeSession_def Let_def validV2Session_def)

section \<open>Clearing the mark of an old output\<close>

lemma pending_terminal:
  assumes "validV2State pf st" "legacyOutputCleanupPending (projectSessionState st) = Some True"
  obtains oc where "state_kind st = Terminal oc \<or> state_kind st = Cleaning (To_terminal oc)"
    "outcome_proven pf (state_evidence st) oc"
proof -
  from assms(2) obtain l where l: "ev_legacy (state_evidence st) = Some l" "lg_outputCleanupPending l"
    by (auto simp: projectSessionState_def Let_def bind_eq_Some_conv split: if_splits)
  with assms(1) obtain oc where oc: "terminal_outcome st = Some oc"
    by (auto simp: validV2State_def Let_def validOptional_def)
  with assms(1) have "ev_confirmed (state_evidence st)" "validV2TerminalProof pf (state_evidence st) oc"
    by (auto simp: validV2State_def Let_def validOptional_def)
  then have "outcome_proven pf (state_evidence st) oc"
    by (auto simp: outcome_proven_iff validV2TerminalProof_def split: option.splits)
  with oc that show ?thesis by (auto simp: terminal_outcome_def split: StateKind.splits CleaningTarget.splits)
qed

text \<open>Without the mark, the refresh keeps every other field, up to the form of an empty failure text.\<close>

lemma cleared_state:
  assumes v: "validV2State pf (state m)" and p: "LifecycleProjection.truncate m = projectSessionState (state m)"
    and c: "legacyOutputCleanupPending m = Some True" and t: "legacyTombstone m = None"
  shows "refreshSessionState pf (state m) (m\<lparr> legacyOutputCleanupPending := None \<rparr>) =
    with_kind ((state_evidence (state m))\<lparr> ev_legacy := None, ev_storageFailure := truthy_text (storageFailure m) \<rparr>)
      (state_kind (state m))"
proof -
  let ?ev = "(state_evidence (state m))\<lparr> ev_legacy := None, ev_storageFailure := truthy_text (storageFailure m) \<rparr>"
  have ev: "record_evidence (m\<lparr> legacyOutputCleanupPending := None \<rparr>) = ?ev"
    using t p by (simp add: record_evidence_def LifecycleProjection.defs projectSessionState_def Let_def)
  have cl: "pendingCleanup m = (if is_cleaning (state m) then Some True else None)"
    using arg_cong [OF p, of pendingCleanup] by (simp add: LifecycleProjection.defs)
  have "legacyOutputCleanupPending (projectSessionState (state m)) = Some True"
    using arg_cong [OF p, of legacyOutputCleanupPending] c by (simp add: LifecycleProjection.defs)
  then obtain oc where k: "state_kind (state m) = Terminal oc \<or> state_kind (state m) = Cleaning (To_terminal oc)"
    and "outcome_proven pf (state_evidence (state m)) oc" using pending_terminal [OF v] by blast
  then have pr: "outcome_proven pf ?ev oc" by (simp add: outcome_proven_iff)
  from k show ?thesis
  proof
    assume k: "state_kind (state m) = Terminal oc"
    then show ?thesis using pr cl
      by (simp add: refreshSessionState_def Let_def ev outcome_proven_def is_cleaning_def)
  next
    assume k: "state_kind (state m) = Cleaning (To_terminal oc)"
    then show ?thesis using pr
      by (simp add: refreshSessionState_def Let_def ev terminalOrUnreachable_def outcome_proven_def evidenceFromState_def)
  qed
qed

lemma more_cleared:
  "LifecycleProjection.more ((r :: SessionRecord)\<lparr> legacyOutputCleanupPending := x, storageFailure := y, state := z \<rparr>) =
   LifecycleProjection.more (r\<lparr> legacyOutputCleanupPending := x, state := z \<rparr>)"
  by (cases r) simp

lemma cleared_record:
  assumes v: "validV2State pf (state m)" and p: "LifecycleProjection.truncate m = projectSessionState (state m)"
    and c: "legacyOutputCleanupPending m = Some True" and t: "legacyTombstone m = None"
  shows "refreshed_record pf (m\<lparr> legacyOutputCleanupPending := None \<rparr>) =
    m\<lparr> legacyOutputCleanupPending := None, storageFailure := truthy_text (storageFailure m),
       state := refreshSessionState pf (state m) (m\<lparr> legacyOutputCleanupPending := None \<rparr>) \<rparr>"
proof -
  let ?st = "refreshSessionState pf (state m) (m\<lparr> legacyOutputCleanupPending := None \<rparr>)"
  let ?r = "m\<lparr> legacyOutputCleanupPending := None, storageFailure := truthy_text (storageFailure m), state := ?st \<rparr>"
  note st = cleared_state [OF assms]
  have "legacyOutputCleanupPending (projectSessionState (state m)) = Some True"
    using arg_cong [OF p, of legacyOutputCleanupPending] c by (simp add: LifecycleProjection.defs)
  then obtain oc where k: "state_kind (state m) = Terminal oc \<or> state_kind (state m) = Cleaning (To_terminal oc)"
    using pending_terminal [OF v] by blast
  have "Option.bind (ev_legacy (state_evidence (state m))) lg_tombstone = None"
    using arg_cong [OF p, of legacyTombstone] t by (simp add: LifecycleProjection.defs projectSessionState_def Let_def)
  then have n: "Option.bind (ev_legacy (state_evidence (state m))) (\<lambda>l. map_option lt_lastKnown (lg_tombstone l)) = None"
    by (cases "ev_legacy (state_evidence (state m))") simp_all
  from k have "projectSessionState ?st = LifecycleProjection.truncate ?r"
    using p t n unfolding st
    by (elim disjE) (simp_all add: LifecycleProjection.defs projectSessionState_def Let_def projected_status_def
        projected_lastKnown_def is_cleaning_def)
  then have "refreshed_record pf (m\<lparr> legacyOutputCleanupPending := None \<rparr>) =
      with_projection (LifecycleProjection.truncate ?r) (LifecycleProjection.more ?r)"
    by (simp add: refreshed_record_def Let_def more_cleared)
  then show ?thesis by (simp only: with_projection_collapse)
qed

lemma without_legacy_valid:
  assumes "validV2State pf st"
  shows "validV2State pf (with_kind ((state_evidence st)\<lparr> ev_legacy := None, ev_storageFailure := x \<rparr>) (state_kind st))"
  using assms
  by (cases "state_kind st") (simp_all add: validV2State_def Let_def validOptional_def terminal_outcome_def state_payload_def
      validV2TerminalProof_def split: CleaningTarget.splits option.splits)

lemma cleared_valid:
  assumes v: "validV2Session pf (toV2Session m) i" and f: "fromV2Session (toV2Session m) = m"
    and c: "legacyOutputCleanupPending m = Some True"
  shows "validV2Session pf (toV2Session (refreshed_record pf (m\<lparr> legacyOutputCleanupPending := None \<rparr>))) i"
proof -
  let ?m = "m\<lparr> legacyOutputCleanupPending := None \<rparr>"
  let ?r = "refreshed_record pf ?m"
  have vs: "validV2State pf (state m)" and vm: "validSession m i"
    using v f by (simp_all add: validV2Session_def validCompatibilitySession_def) (simp add: toV2Session_def)
  have p: "LifecycleProjection.truncate m = projectSessionState (state m)"
    using arg_cong [OF f, of LifecycleProjection.truncate] by (simp add: fromV2Session_def toV2Session_def)
  have t: "legacyTombstone m = None" using vm c by (simp add: validSession_def cleanup_pending_consistent_def)
  note r = cleared_record [OF vs p c t] and st = cleared_state [OF vs p c t]
  have "validOptional validText (truthy_text (storageFailure m))"
    using vm by (simp add: validSession_def valid_lifecycle_def truthy_text_def validOptional_def)
  with vm have "validSession ?r i"
    unfolding r validSession_def
    by (cases "mode m") (simp_all add: valid_identity_def valid_lifecycle_def valid_journal_def tombstone_consistent_def
        worker_consistent_def cleanup_pending_consistent_def times_consistent_def cursors_consistent_def)
  moreover have "validV2State pf (state ?r)"
    using without_legacy_valid [OF vs] by (simp add: st)
  ultimately show ?thesis
    using from_to_V2 [of pf ?m] by (simp add: validV2Session_def validCompatibilitySession_def) (simp add: toV2Session_def)
qed

lemma cleared_fields:
  assumes v: "validV2Session pf (toV2Session m) i" and f: "fromV2Session (toV2Session m) = m"
    and c: "legacyOutputCleanupPending m = Some True"
  shows "refreshed_record pf (m\<lparr> legacyOutputCleanupPending := None \<rparr>) =
    m\<lparr> legacyOutputCleanupPending := None, storageFailure := truthy_text (storageFailure m),
       state := refreshSessionState pf (state m) (m\<lparr> legacyOutputCleanupPending := None \<rparr>) \<rparr>"
proof (rule cleared_record [OF _ _ c])
  show "validV2State pf (state m)" using v f by (simp add: validV2Session_def) (simp add: toV2Session_def)
  show "LifecycleProjection.truncate m = projectSessionState (state m)"
    using arg_cong [OF f, of LifecycleProjection.truncate] by (simp add: fromV2Session_def toV2Session_def)
  show "legacyTombstone m = None"
    using valid_fromV2 [OF v] f c by (simp add: validSession_def cleanup_pending_consistent_def)
qed

section \<open>A loaded session is settled\<close>

text \<open>What a second load checks: the cursors fit the journal and nothing is left to discard.\<close>

definition load_settled :: "SessionRecord \<Rightarrow> OutputChunk list \<Rightarrow> bool" where
  "load_settled r cs \<longleftrightarrow>
     \<not> cursor_mismatch r cs \<and> reconcileSession r cs = r \<and>
     (outputTruncated r \<longrightarrow> (\<forall>c\<in>set cs. firstRetainedSequence r < ch_endSequence c))"

lemma contiguous_first:
  assumes "contiguous (c # cs)" "\<forall>d\<in>set (c # cs). chunk_ok d" "d \<in> set (c # cs)"
  shows "ch_startSequence c < ch_endSequence d"
proof -
  have lt: "ch_startSequence e < ch_endSequence e" if "chunk_ok e" for e
    using that byteLength_pos by (auto simp: chunk_ok_def nonemptyText_def)
  from assms show ?thesis
  proof (induction cs arbitrary: c)
    case (Cons e es)
    then show ?case using lt [of c] lt [of e] by fastforce
  qed (auto intro: lt)
qed

lemma reconcile_settled:
  assumes rep: "journal_rep j cs" and cur: "\<not> cursor_mismatch r cs"
    and kept: "outputTruncated r \<longrightarrow> (\<forall>c\<in>set cs. firstRetainedSequence r < ch_endSequence c)"
  shows "load_settled (reconcileSession r cs) cs"
proof (cases "mode r = Mode_exec")
  case True
  then show ?thesis using cur kept
    by (auto simp: load_settled_def reconcile_idem cursor_mismatch_def) (simp_all add: reconcileSession_def)
next
  case False
  have "nextSequence (reconcileSession r cs) = nextSequence r"
    using reconcile_cursors(1) [OF rep False] cur False by (auto simp: cursor_mismatch_def)
  moreover have "\<forall>c\<in>set cs. firstRetainedSequence (reconcileSession r cs) < ch_endSequence c"
    using False rep contiguous_first by (cases cs) (auto simp: reconcileSession_def Let_def journal_rep_def)
  ultimately show ?thesis using cur by (simp add: load_settled_def reconcile_idem cursor_mismatch_def)
qed

lemma settled_cong:
  "load_settled m cs \<Longrightarrow> sameJournalState m r \<Longrightarrow> mode m = mode r \<Longrightarrow> load_settled r cs"
  using reconciled_cong [of m r cs] by (simp add: load_settled_def cursor_mismatch_def sameJournalState_def)

lemma settled_refreshed: "load_settled m cs \<Longrightarrow> load_settled (refreshed_record pf m) cs"
  by (erule settled_cong) (simp_all add: sameJournalState_def)

lemma settled_cleared: "load_settled m cs \<Longrightarrow> load_settled (m\<lparr> legacyOutputCleanupPending := None \<rparr>) cs"
  by (erule settled_cong) (simp_all add: sameJournalState_def)

text \<open>A session in the current format that is settled is loaded as it is.\<close>

lemma settled_load:
  assumes rep: "journal_rep (sd_journal dir) cs" and m: "sd_metadata dir = Some (Record_v2 s)" and v: "validV2Session pf s i"
    and s: "load_settled (fromV2Session s) cs" and p: "legacyOutputCleanupPending (fromV2Session s) \<noteq> Some True"
    and io: "io_discard io"
  shows "readSessionDirectory pf realpath io i dir = (Inr (Some (fromV2Session s)), Some dir)"
proof -
  let ?r = "fromV2Session s"
  have c: "check_cursor msg ?r cs dir = (Inr cs, dir)" for msg using s by (simp add: check_cursor_def load_settled_def)
  have "filter (\<lambda>c. ch_endSequence c \<le> firstRetainedSequence ?r) cs = []" if "outputTruncated ?r"
    using s that by (auto simp: load_settled_def filter_empty_conv)
  then have d: "discard_truncated io ?r cs dir = (Inr cs, dir)"
    using io journal_rep_read [OF rep] journal_chunks_rep [OF rep] by (simp add: discard_truncated_def discardOutputBefore_def)
  have w: "write_migrated pf io False ?r cs dir = (Inr ?r, dir)"
    using s by (simp add: write_migrated_def load_settled_def Let_def)
  show ?thesis using m v p c d w journal_chunks_rep [OF rep]
    by (simp add: readSessionDirectory_def migrateSession_def Let_def import_legacy_output_def remove_legacy_output_def)
qed

section \<open>What a migration leaves\<close>

lemma import_rep:
  assumes rep: "journal_rep (sd_journal dir) cs" "tail_ok (sd_journal dir) cs"
    and i: "import_legacy_output io wanted r cs dir = (Inr cs', dir')"
  shows "journal_rep (sd_journal dir') cs'" "sd_metadata dir' = sd_metadata dir"
proof -
  have "journal_rep (sd_journal dir') cs' \<and> sd_metadata dir' = sd_metadata dir"
  proof (cases "cs' = cs \<and> dir' = dir")
    case True
    with rep show ?thesis by simp
  next
    case False
    with i obtain c where cs: "cs = []" and dir': "dir' = dir\<lparr> sd_journal := appendOutput (sd_journal dir) [c] \<rparr>"
      and r: "journal_chunks (sd_journal dir') = Inr cs'"
      by (auto simp: import_legacy_output_def Let_def split: if_splits)
    from cs rep have "files (sd_journal dir) = []" "outputTail (sd_journal dir) = None"
      by (simp_all add: journal_rep_def tail_ok_def)
    with dir' have f: "files (sd_journal dir') = [(chunk_name (ch_startSequence c), chunk_file c)]"
      by (simp add: appendOutput_def append_chunk_def)
    from r have "readOutputChunks (sd_journal dir') = Inr cs'" by (simp add: journal_chunks_def split: sum.splits)
    then have "journal_rep (sd_journal dir') cs'" using chunk_name_ends by (intro journal_read_rep) (simp_all add: f map_ok_def)
    with dir' show ?thesis by simp
  qed
  then show "journal_rep (sd_journal dir') cs'" "sd_metadata dir' = sd_metadata dir" by simp_all
qed

lemma discard_rep:
  assumes rep: "journal_rep (sd_journal dir) cs" and v: "outputJournalVersion r = OUTPUT_JOURNAL_VERSION"
    and d: "discard_truncated io r cs dir = (Inr cs', dir')"
  shows "journal_rep (sd_journal dir') cs'" "sd_metadata dir' = sd_metadata dir" "sd_legacyOutput dir' = sd_legacyOutput dir"
    "outputTruncated r \<longrightarrow> (\<forall>c\<in>set cs'. firstRetainedSequence r < ch_endSequence c)"
    "cs' = (if outputTruncated r then filter (\<lambda>c. \<not> ch_endSequence c \<le> firstRetainedSequence r) cs else cs)"
proof -
  obtain j where j: "discardOutputBefore (sd_journal dir) (firstRetainedSequence r) = Inr j"
    "journal_rep j (filter (\<lambda>c. \<not> ch_endSequence c \<le> firstRetainedSequence r) cs)"
    using discardOutputBefore_rep [OF rep] by blast
  from d v j(1) journal_chunks_rep [OF j(2)]
  show "cs' = (if outputTruncated r then filter (\<lambda>c. \<not> ch_endSequence c \<le> firstRetainedSequence r) cs else cs)"
    "sd_metadata dir' = sd_metadata dir" "sd_legacyOutput dir' = sd_legacyOutput dir"
    by (auto simp: discard_truncated_def split: if_splits)
  with d v j rep journal_chunks_rep [OF j(2)] show "journal_rep (sd_journal dir') cs'"
    "outputTruncated r \<longrightarrow> (\<forall>c\<in>set cs'. firstRetainedSequence r < ch_endSequence c)"
    by (auto simp: discard_truncated_def split: if_splits)
qed

text \<open>The stages of a migration that succeeds, up to the write of the metadata.\<close>

lemma migrate_steps:
  assumes c: "journal_chunks (sd_journal dir) = Inr cs" and m: "migrateSession pf io d dir = (Inr r, dir')"
  obtains cs1 dir1 cs2 dir2 mm dir3 where
    "import_legacy_output io (importLegacyOutput d) (decoded_record d) cs dir = (Inr cs1, dir1)"
    "\<not> cursor_mismatch (decoded_record d) cs1" "discard_truncated io (decoded_record d) cs1 dir1 = (Inr cs2, dir2)"
    "\<not> cursor_mismatch (decoded_record d) cs2"
    "write_migrated pf io (forceMetadataWrite d) (decoded_record d) cs2 dir2 = (Inr mm, dir3)"
    "remove_legacy_output pf io (removeLegacyOutput d) mm dir3 = (Inr r, dir')"
  using m unfolding migrateSession_def Let_def c step_then_simps check_cursor_def
  by (elim step_then_Inr) (auto split: if_splits elim: step_then_Inr)

lemma migrate_stages:
  assumes rep: "journal_rep (sd_journal dir) cs" "tail_ok (sd_journal dir) cs"
    and v: "outputJournalVersion (decoded_record d) = OUTPUT_JOURNAL_VERSION"
    and m: "migrateSession pf io d dir = (Inr r, dir')"
  obtains cs' dir1 m dir2 where "journal_rep (sd_journal dir1) cs'" "sd_metadata dir1 = sd_metadata dir"
    "load_settled (reconcileSession (decoded_record d) cs') cs'"
    "write_migrated pf io (forceMetadataWrite d) (decoded_record d) cs' dir1 = (Inr m, dir2)"
    "remove_legacy_output pf io (removeLegacyOutput d) m dir2 = (Inr r, dir')"
proof (rule migrate_steps [OF journal_chunks_rep [OF rep(1)] m])
  fix cs1 dir1 cs2 dir2 mm dir3
  assume 1: "import_legacy_output io (importLegacyOutput d) (decoded_record d) cs dir = (Inr cs1, dir1)"
    and 3: "discard_truncated io (decoded_record d) cs1 dir1 = (Inr cs2, dir2)"
    and 4: "\<not> cursor_mismatch (decoded_record d) cs2"
    and 5: "write_migrated pf io (forceMetadataWrite d) (decoded_record d) cs2 dir2 = (Inr mm, dir3)"
    and 6: "remove_legacy_output pf io (removeLegacyOutput d) mm dir3 = (Inr r, dir')"
  note i = import_rep [OF rep 1]
  note d = discard_rep [OF i(1) v 3]
  show thesis by (rule that [OF d(1) _ reconcile_settled [OF d(1) 4 d(4)] 5 6]) (simp add: d(2) i(2))
qed

text \<open>The metadata file holds the record in the current format.\<close>

definition stored_as :: "platform \<Rightarrow> js_string \<Rightarrow> SessionRecord \<Rightarrow> session_directory \<Rightarrow> bool" where
  "stored_as pf i r dir \<longleftrightarrow>
     sd_metadata dir = Some (Record_v2 (toV2Session r)) \<and> validV2Session pf (toV2Session r) i \<and>
     fromV2Session (toV2Session r) = r"

lemma write_stored:
  assumes s: "load_settled (reconcileSession r cs) cs" and w: "write_migrated pf io force r cs dir = (Inr m, dir')"
    and old: "\<not> force \<Longrightarrow> stored_as pf (session_id r) r dir"
  shows "load_settled m cs \<and> sd_journal dir' = sd_journal dir \<and> stored_as pf (session_id r) m dir' \<and> session_id m = session_id r \<and>
    (m = refreshed_record pf (reconcileSession r cs) \<or> (\<not> force \<and> m = r))"
proof (cases "force \<or> \<not> sameJournalState r (reconcileSession r cs)")
  case True
  with w obtain u where "write_metadata pf (io_write io) (reconcileSession r cs) dir = (Inr u, m, dir')"
    by (auto simp: write_migrated_def Let_def split: prod.splits sum.splits)
  from write_metadata_ok [OF this] settled_refreshed [OF s, of pf] show ?thesis by (simp add: stored_as_def)
next
  case False
  with w s old show ?thesis using reconcile_same [of r cs] by (auto simp: write_migrated_def Let_def)
qed

lemma remove_stored:
  assumes s: "load_settled m cs" "stored_as pf (session_id m) m dir" and io: "io_rewrite io"
    and r: "remove_legacy_output pf io wanted m dir = (Inr r, dir')"
  shows "load_settled r cs \<and> sd_journal dir' = sd_journal dir \<and> stored_as pf (session_id m) r dir'"
proof (cases "wanted \<and> io_remove io \<and> legacyOutputCleanupPending m = Some True")
  case True
  let ?c = "m\<lparr> legacyOutputCleanupPending := None \<rparr>"
  have v: "validV2Session pf (toV2Session (refreshed_record pf ?c)) (session_id m)"
    using s(2) True by (intro cleared_valid) (simp_all add: stored_as_def)
  then have "write_metadata pf True ?c d = (Inr (), refreshed_record pf ?c,
      d\<lparr> sd_metadata := Some (Record_v2 (toV2Session (refreshed_record pf ?c))) \<rparr>)" for d
    by (intro write_metadata_does) simp
  with r io True have "r = refreshed_record pf ?c"
    "dir' = dir\<lparr> sd_legacyOutput := None, sd_metadata := Some (Record_v2 (toV2Session (refreshed_record pf ?c))) \<rparr>"
    by (auto simp: remove_legacy_output_def Let_def)
  then show ?thesis using v from_to_V2 [of pf ?c] settled_refreshed [OF settled_cleared [OF s(1)], of pf]
    by (simp add: stored_as_def)
next
  case False
  with r s show ?thesis by (auto simp: remove_legacy_output_def Let_def stored_as_def split: if_splits)
qed

lemma decode_facts:
  assumes "decodeSession pf realpath f i = Inr d"
  shows "session_id (decoded_record d) = i" "outputJournalVersion (decoded_record d) = OUTPUT_JOURNAL_VERSION"
    "\<not> forceMetadataWrite d \<Longrightarrow> sd_metadata dir = Some f \<Longrightarrow> stored_as pf i (decoded_record d) dir"
    "validSession (decoded_record d) i"
proof -
  have "validSession (decoded_record d) i \<and> (\<not> forceMetadataWrite d \<longrightarrow> sd_metadata dir = Some f \<longrightarrow> stored_as pf i (decoded_record d) dir)"
    using assms
    by (cases "(pf, realpath, f, i)" rule: decodeSession.cases)
       (auto simp: decodeV0Session_def decodeV1Session_def decodeLegacySession_def Let_def validCompatibilitySession_def
         validV2Session_def stored_as_def split: if_splits option.splits owner_field.splits)
  then show "validSession (decoded_record d) i" "session_id (decoded_record d) = i"
    "outputJournalVersion (decoded_record d) = OUTPUT_JOURNAL_VERSION"
    "\<not> forceMetadataWrite d \<Longrightarrow> sd_metadata dir = Some f \<Longrightarrow> stored_as pf i (decoded_record d) dir"
    by (simp_all add: validSession_def valid_identity_def valid_journal_def)
qed

text \<open>A load that gives a record has decoded the file and migrated the directory.\<close>

lemma load_Some:
  assumes "readSessionDirectory pf realpath io i dir = (Inr (Some r), Some dir')"
  obtains f d where "sd_metadata dir = Some f" "decodeSession pf realpath f i = Inr d"
    "migrateSession pf io d dir = (Inr r, dir')"
  using assms
  by (auto simp: readSessionDirectory_def split: option.splits sum.splits prod.splits load_error.splits)

text \<open>
  C13: a restart finds what the last one left. When a load of a session returns a record, with the mark of
  an old output gone from it and the metadata writable, the next load of the directory returns the same record and
  changes no file, whatever version the file had, what was imported from the old output, and which
  chunks were discarded.
\<close>

theorem reload_is_stable:
  assumes "journal_rep (sd_journal dir) cs" "tail_ok (sd_journal dir) cs"
    and "readSessionDirectory pf realpath io i dir = (Inr (Some r), Some dir')"
    and "legacyOutputCleanupPending r \<noteq> Some True" "io_rewrite io" "io_discard io'"
  shows "readSessionDirectory pf realpath' io' i dir' = (Inr (Some r), Some dir')"
proof -
  from load_Some [OF assms(3)] obtain f d where f: "sd_metadata dir = Some f" and d: "decodeSession pf realpath f i = Inr d"
    and m: "migrateSession pf io d dir = (Inr r, dir')" .
  note dec = decode_facts [OF d]
  from migrate_stages [OF assms(1,2) dec(2) m] obtain cs' dir1 mm dir2 where rep: "journal_rep (sd_journal dir1) cs'"
    and meta: "sd_metadata dir1 = sd_metadata dir" and s: "load_settled (reconcileSession (decoded_record d) cs') cs'"
    and w: "write_migrated pf io (forceMetadataWrite d) (decoded_record d) cs' dir1 = (Inr mm, dir2)"
    and rm: "remove_legacy_output pf io (removeLegacyOutput d) mm dir2 = (Inr r, dir')" .
  have "stored_as pf (session_id (decoded_record d)) (decoded_record d) dir1" if "\<not> forceMetadataWrite d"
    using dec(1) dec(3) [OF that] f meta by simp
  from write_stored [OF s w this]
  have m: "load_settled mm cs'" "sd_journal dir2 = sd_journal dir1" "stored_as pf i mm dir2" "session_id mm = i"
    using dec(1) by auto
  have "load_settled r cs'" "sd_journal dir' = sd_journal dir1" "stored_as pf i r dir'"
    using remove_stored [OF m(1) _ assms(5) rm] m by auto
  with rep assms(4,6) settled_load [of dir' cs' "toV2Session r" pf i io' realpath'] show ?thesis
    by (simp add: stored_as_def)
qed

section \<open>What becomes of an old session\<close>

lemma write_metadata_record:
  "write_metadata pf ok r dir = (res, r', dir') \<Longrightarrow> r' = refreshed_record pf r"
  by (auto simp: write_metadata_def writeSession_def Let_def split: if_splits prod.splits sum.splits)

lemma legacy_loaded:
  assumes "readSessionDirectory pf realpath io i dir = (Inr (Some r), Some dir')"
    and f: "sd_metadata dir = Some f" and force: "\<And>d. decodeSession pf realpath f i = Inr d \<Longrightarrow> forceMetadataWrite d"
  obtains d cs m where "decodeSession pf realpath f i = Inr d" "m = refreshed_record pf (reconcileSession (decoded_record d) cs)"
    "validV2Session pf (toV2Session m) i" "fromV2Session (toV2Session m) = m"
    "r = m \<or> (removeLegacyOutput d \<and> legacyOutputCleanupPending m = Some True \<and>
       r = refreshed_record pf (m\<lparr> legacyOutputCleanupPending := None \<rparr>))"
proof -
  from load_Some [OF assms(1)] f obtain d where d: "decodeSession pf realpath f i = Inr d"
    and m: "migrateSession pf io d dir = (Inr r, dir')" by auto
  from m obtain cs0 where "journal_chunks (sd_journal dir) = Inr cs0"
    by (cases "journal_chunks (sd_journal dir)") (auto simp: migrateSession_def)
  from migrate_steps [OF this m] obtain cs dir1 mm dir2 where
    w: "write_migrated pf io (forceMetadataWrite d) (decoded_record d) cs dir1 = (Inr mm, dir2)"
    and rm: "remove_legacy_output pf io (removeLegacyOutput d) mm dir2 = (Inr r, dir')" .
  from w force [OF d] obtain u where "write_metadata pf (io_write io) (reconcileSession (decoded_record d) cs) dir1 = (Inr u, mm, dir2)"
    by (auto simp: write_migrated_def Let_def split: prod.splits sum.splits)
  note wm = write_metadata_ok [OF this]
  have r: "r = mm \<or> (removeLegacyOutput d \<and> legacyOutputCleanupPending mm = Some True \<and>
       r = refreshed_record pf (mm\<lparr> legacyOutputCleanupPending := None \<rparr>))"
    using rm write_metadata_record by (auto simp: remove_legacy_output_def Let_def split: if_splits prod.splits)
  show thesis by (rule that [OF d wm(1) _ wm(5) r]) (use wm(3) decode_facts(1) [OF d] in simp)
qed

text \<open>The tombstone of a record is carried through every refresh.\<close>

lemma refresh_tombstone:
  assumes "legacyTombstone r = Some t"
  shows "legacyTombstone (projectSessionState (refreshSessionState pf st r)) = Some t"
proof -
  have "ev_legacy (record_evidence r) = Some \<lparr> lg_tombstone = Some t, lg_outputCleanupPending = truthy (legacyOutputCleanupPending r) \<rparr>"
    using assms by (simp add: record_evidence_def)
  then have "ev_legacy (state_evidence (refreshSessionState pf st r)) =
      Some \<lparr> lg_tombstone = Some t, lg_outputCleanupPending = truthy (legacyOutputCleanupPending r) \<rparr>"
    by (cases "state_kind st") (simp_all add: refreshSessionState_def Let_def cleaningState_def terminalOrUnreachable_def
        evidenceFromState_def merge_evidence_def split: CleaningTarget.splits)
  then show ?thesis by (simp add: projectSessionState_def Let_def)
qed

text \<open>A proven end stays the end it was.\<close>

definition ended_with :: "TerminalSessionOutcome \<Rightarrow> SessionState \<Rightarrow> bool" where
  "ended_with oc st \<longleftrightarrow> state_kind st = Terminal oc \<or> state_kind st = Cleaning (To_terminal oc)"

lemma refresh_ended:
  assumes "outcome_proven pf (record_evidence r) oc" "ended_with oc st"
  shows "ended_with oc (refreshSessionState pf st r)" "state_evidence (refreshSessionState pf st r) = record_evidence r"
  using assms
  by (auto simp: ended_with_def refreshSessionState_def Let_def cleaningState_def terminalOrUnreachable_def
      evidenceFromState_def outcome_proven_def)

lemma compatibility_ended:
  assumes "outcome_proven pf (record_evidence r) oc" "compatibility_kind r = Terminal oc"
  shows "ended_with oc (sessionStateFromCompatibility pf r)"
proof -
  let ?st = "refreshSessionState pf (compatibility_seed r) r"
  have "ended_with oc (compatibility_seed r)" using assms(2) by (simp add: ended_with_def compatibility_seed_def)
  note e = refresh_ended [OF assms(1) this]
  have "terminalProven pf ?st" if "state_kind ?st = Terminal oc"
    using assms(1) e(2) that by (simp add: outcome_proven_def terminalProven_def)
  with e(1) show ?thesis
    by (auto simp: ended_with_def sessionStateFromCompatibility_def Let_def cleaningState_def)
qed

lemma finished_compatibility:
  assumes "finished_status (status r)"
  obtains oc where "compatibility_kind r = Terminal oc" "outcome_status oc = status r"
  using assms that by (cases "status r") (auto simp: finished_status_def compatibility_kind_def)

text \<open>The import of a session with a proven end.\<close>

lemma legacy_record_terminal:
  assumes "legacy_terminal (legacy_fields s)"
  shows "status (legacy_record v s p h q) = status (ls_fields s)" "finished_status (status (ls_fields s))"
    "outcome_proven pf (record_evidence (legacy_record v s p h q)) oc"
    "terminationConfirmed (legacy_record v s p h q)" "directChildExited (legacy_record v s p h q) = Some True"
    "containment (legacy_record v s p h q) = containment (ls_fields s)"
  using assms
  by (auto simp: legacy_record_def legacy_terminal_def legacy_fields_def Let_def outcome_proven_iff record_evidence_def
      report_drained_def split: option.splits)

lemma record_evidence_cong:
  "LifecycleProjection.truncate r = LifecycleProjection.truncate r' \<Longrightarrow> record_evidence r = record_evidence r'"
  by (metis record_evidence_truncate)

lemma refreshed_lifecycle:
  "status (refreshed_record pf r) = projected_status (refreshSessionState pf (state r) r)"
  "terminationConfirmed (refreshed_record pf r) = ev_confirmed (state_evidence (refreshSessionState pf (state r) r))"
  "directChildExited (refreshed_record pf r) = ev_directExited (state_evidence (refreshSessionState pf (state r) r))"
  "legacyTombstone (refreshed_record pf r) = legacyTombstone (projectSessionState (refreshSessionState pf (state r) r))"
  using arg_cong [OF refreshed_record_projection, of status] arg_cong [OF refreshed_record_projection, of terminationConfirmed]
    arg_cong [OF refreshed_record_projection, of directChildExited] arg_cong [OF refreshed_record_projection, of legacyTombstone]
  by (simp_all add: LifecycleProjection.defs projectSessionState_def Let_def)

lemma ended_status: "ended_with oc st \<Longrightarrow> projected_status st = outcome_status oc"
  by (auto simp: ended_with_def projected_status_def)

text \<open>The record the decoder gives for an old file.\<close>

definition legacy_file :: "legacy_version \<Rightarrow> legacy_session \<Rightarrow> session_file" where
  "legacy_file v s = (if v = V0 then Record_v0 s else Record_v1 s)"

lemma decode_legacy:
  assumes "decodeSession pf realpath (legacy_file v s) i = Inr d"
  obtains project hash parent where "ls_ownerProjectDirectory s = Given project" "ls_ownerCapabilityHash s = Given hash"
    "ls_parentSessionId s = Given parent" "realpath project = Some project"
    "decoded_record d = (legacy_record v s project hash parent)
      \<lparr> state := legacy_state pf (status (ls_fields s)) (legacy_record v s project hash parent) \<rparr>"
    "forceMetadataWrite d" "removeLegacyOutput d = legacy_cleanup_pending v s"
    "importLegacyOutput d = (v = V0 \<and> ls_outputJournalVersion s \<noteq> Some OUTPUT_JOURNAL_VERSION)"
  using assms that
  by (cases v) (auto simp: legacy_file_def decodeV0Session_def decodeV1Session_def decodeLegacySession_def Let_def
      split: if_splits option.splits owner_field.splits)

lemma decoded_terminal:
  assumes t: "legacy_terminal (legacy_fields s)"
    and c: "c = (legacy_record v s p h q)\<lparr> state := legacy_state pf (status (ls_fields s)) (legacy_record v s p h q) \<rparr>"
  obtains oc where "outcome_proven pf (record_evidence c) oc" "ended_with oc (state c)" "status c = outcome_status oc"
    "status c = status (ls_fields s)" "terminationConfirmed c" "directChildExited c = Some True"
proof -
  let ?r = "legacy_record v s p h q"
  note lt = legacy_record_terminal(1) [OF t, of v p h q] legacy_record_terminal(2) [OF t]
    legacy_record_terminal(3) [OF t, of pf v p h q] legacy_record_terminal(4,5) [OF t, of v p h q]
  obtain oc where oc: "compatibility_kind ?r = Terminal oc" "outcome_status oc = status (ls_fields s)"
    using finished_compatibility [of ?r] lt(1,2) by metis
  have "?r\<lparr> status := status (ls_fields s) \<rparr> = ?r" using lt(1) by (metis LifecycleProjection.surjective LifecycleProjection.update_convs(1))
  then have e: "ended_with oc (state c)"
    using compatibility_ended [OF lt(3) oc(1)] lt(2) by (simp add: c legacy_state_def)
  have "LifecycleProjection.truncate c = LifecycleProjection.truncate ?r" by (simp add: c LifecycleProjection.defs)
  then have "record_evidence c = record_evidence ?r" by (rule record_evidence_cong)
  with lt(3) have "outcome_proven pf (record_evidence c) oc" by simp
  then show thesis by (rule that [OF _ e]) (simp_all add: c lt oc(2))
qed

lemma terminal_import:
  assumes t: "legacy_terminal (legacy_fields s)"
    and c: "c = (legacy_record v s p h q)\<lparr> state := legacy_state pf (status (ls_fields s)) (legacy_record v s p h q) \<rparr>"
    and m: "LifecycleProjection.truncate m = LifecycleProjection.truncate c" "state m = state c"
  shows "status (refreshed_record pf m) = status (ls_fields s)" "terminationConfirmed (refreshed_record pf m)"
    "directChildExited (refreshed_record pf m) = Some True"
proof -
  obtain oc where oc: "outcome_proven pf (record_evidence c) oc" "ended_with oc (state c)" "status c = outcome_status oc"
    "status c = status (ls_fields s)" "terminationConfirmed c" "directChildExited c = Some True"
    by (rule decoded_terminal [OF t c])
  note ev = record_evidence_cong [OF m(1)]
  note re = refresh_ended [OF oc(1) [folded ev] oc(2) [folded m(2)]]
  show "status (refreshed_record pf m) = status (ls_fields s)" using ended_status [OF re(1)] oc(3,4) by (simp add: refreshed_lifecycle)
  show "terminationConfirmed (refreshed_record pf m)" "directChildExited (refreshed_record pf m) = Some True"
    using oc(5,6) by (simp_all add: refreshed_lifecycle re(2) ev) (simp_all add: record_evidence_def)
qed

text \<open>
  C14: an old session is taken over as finished only on proof. Whatever record of version 0 or 1 the load accepts,
  the loaded session has the identity and the owner of the record, and the project of the owner is a canonical
  path. It has a terminal status only when the record has that status, confirms the termination, says that the
  direct child has exited and carries a containment report that shows no process left. In every other case, the
  session is lost: it belongs to a conversation, waits for its cleanup, confirms nothing and carries a tombstone.
\<close>

theorem legacy_import_needs_proof:
  assumes "sd_metadata dir = Some (legacy_file v s)"
    and "readSessionDirectory pf realpath io i dir = (Inr (Some r), Some dir')"
  shows "session_id r = i \<and> ls_parentSessionId s = Given (parentSessionId r) \<and>
    ls_ownerCapabilityHash s = Given (ownerCapabilityHash r) \<and> ls_ownerProjectDirectory s = Given (ownerProjectDirectory r) \<and>
    realpath (ownerProjectDirectory r) = Some (ownerProjectDirectory r) \<and>
    (if finished_status (status (ls_fields s)) \<and> ls_terminationConfirmed s = Some True \<and>
        directChildExited (ls_fields s) = Some True \<and> report_drained (containment (ls_fields s))
     then status r = status (ls_fields s) \<and> terminationConfirmed r \<and> directChildExited r = Some True
     else status r = St_lost \<and> lifecycle r = Conversation \<and> pendingCleanup r = Some True \<and>
       \<not> terminationConfirmed r \<and> legacyTombstone r \<noteq> None)"
proof -
  have force: "forceMetadataWrite d" if "decodeSession pf realpath (legacy_file v s) i = Inr d" for d
    by (rule decode_legacy [OF that])
  obtain d cs m where d: "decodeSession pf realpath (legacy_file v s) i = Inr d"
    and m: "m = refreshed_record pf (reconcileSession (decoded_record d) cs)"
    and v: "validV2Session pf (toV2Session m) i" and f: "fromV2Session (toV2Session m) = m"
    and r: "r = m \<or> (removeLegacyOutput d \<and> legacyOutputCleanupPending m = Some True \<and>
       r = refreshed_record pf (m\<lparr> legacyOutputCleanupPending := None \<rparr>))"
    by (rule legacy_loaded [OF assms(2,1) force])
  obtain project hash parent where o: "ls_ownerProjectDirectory s = Given project" "ls_ownerCapabilityHash s = Given hash"
    "ls_parentSessionId s = Given parent" "realpath project = Some project"
    and dr: "decoded_record d = (legacy_record v s project hash parent)
      \<lparr> state := legacy_state pf (status (ls_fields s)) (legacy_record v s project hash parent) \<rparr>"
    and rm: "removeLegacyOutput d = legacy_cleanup_pending v s"
    by (rule decode_legacy [OF d])
  let ?t = "legacy_terminal (legacy_fields s)"
  have vm: "validSession m i" using valid_fromV2 [OF v] f by simp
  have own: "ownerProjectDirectory m = project" "ownerCapabilityHash m = hash" "parentSessionId m = parent" "session_id m = i"
    using decode_facts(1) [OF d] by (simp_all add: m dr legacy_record_def Let_def)
  have own_r: "ownerProjectDirectory r = project" "ownerCapabilityHash r = hash" "parentSessionId r = parent" "session_id r = i"
    using r own by auto
  have t: "?t \<longleftrightarrow> finished_status (status (ls_fields s)) \<and> ls_terminationConfirmed s = Some True \<and>
      directChildExited (ls_fields s) = Some True \<and> report_drained (containment (ls_fields s))"
    by (simp add: legacy_terminal_def legacy_fields_def)
  show ?thesis
  proof (cases ?t)
    case True
    have "status m = status (ls_fields s) \<and> terminationConfirmed m \<and> directChildExited m = Some True"
      unfolding m using terminal_import [OF True dr, of "reconcileSession (decoded_record d) cs"] by simp
    moreover have "status r = status m \<and> terminationConfirmed r = terminationConfirmed m \<and> directChildExited r = directChildExited m"
      using r cleared_fields [OF v f] by auto
    ultimately show ?thesis using True own_r o t by simp
  next
    case False
    with r rm have "r = m" by (auto simp: legacy_cleanup_pending_def)
    have "legacyTombstone (reconcileSession (decoded_record d) cs) \<noteq> None"
      using False arg_cong [OF reconcile_sel(8), of legacyTombstone "decoded_record d" cs]
      by (simp add: LifecycleProjection.defs dr legacy_record_def legacy_tombstone_def Let_def or_else_def split: option.splits)
    then obtain t where "legacyTombstone (reconcileSession (decoded_record d) cs) = Some t" by blast
    then have "legacyTombstone m \<noteq> None" by (simp add: m refreshed_lifecycle refresh_tombstone)
    with vm False \<open>r = m\<close> own_r o t show ?thesis by (auto simp: validSession_def tombstone_consistent_def)
  qed
qed

section \<open>A proven end can always be stored\<close>

lemma length_le_byteLength: "length s \<le> byteLength s"
  by (induction s rule: byteLength.induct) (auto simp: unit_bytes_def split: if_splits)

lemma line_count_le: "length (split_on LF s) - (if ends_with_lf s then 1 else 0) \<le> byteLength s" if "s \<noteq> []"
proof (cases "last s = LF")
  case True
  then show ?thesis using that count_le_length [of s LF] length_le_byteLength [of s]
    by (simp add: ends_with_lf_def length_split_on)
next
  case False
  have "s = butlast s @ [last s]" using that by simp
  then have "count_list s LF = count_list (butlast s) LF" using False by (metis add.right_neutral count_list.simps(1,2) count_list_append)
  also have "\<dots> < length s" using count_le_length [of "butlast s" LF] that by (cases s rule: rev_cases) auto
  finally show ?thesis using False length_le_byteLength [of s] by (simp add: ends_with_lf_def length_split_on)
qed

text \<open>The refresh of a record with a proven end changes only the form of some fields.\<close>

lemma ended_refreshed:
  assumes pr: "outcome_proven pf (record_evidence m) oc" and e: "ended_with oc (state m)"
    and st: "status m = outcome_status oc" and t: "legacyTombstone m = None"
  obtains p where "refreshed_record pf m = m\<lparr> pendingCleanup := p, storageFailure := truthy_text (storageFailure m),
      legacyOutputCleanupPending := (if truthy (legacyOutputCleanupPending m) then Some True else None),
      streamDrain := Some (nullish (streamDrain m) Drain_unknown), lastKnown := None,
      state := refreshSessionState pf (state m) m \<rparr>"
proof -
  let ?st = "refreshSessionState pf (state m) m"
  let ?r = "m\<lparr> pendingCleanup := (if is_cleaning ?st then Some True else None),
      storageFailure := truthy_text (storageFailure m),
      legacyOutputCleanupPending := (if truthy (legacyOutputCleanupPending m) then Some True else None),
      streamDrain := Some (nullish (streamDrain m) Drain_unknown), lastKnown := None, state := ?st \<rparr>"
  note re = refresh_ended [OF pr e]
  have k: "projected_status ?st = status m" using ended_status [OF re(1)] st by simp
  have l: "projected_lastKnown ?st = None"
    using re t by (auto simp: ended_with_def projected_lastKnown_def record_evidence_def)
  have "projectSessionState ?st = LifecycleProjection.truncate ?r"
    by (simp add: projectSessionState_def Let_def k l re(2)) (simp add: record_evidence_def LifecycleProjection.defs t)
  moreover have "LifecycleProjection.more ?r = LifecycleProjection.more (m\<lparr> state := ?st \<rparr>)" by (cases m) simp
  ultimately have "refreshed_record pf m = with_projection (LifecycleProjection.truncate ?r) (LifecycleProjection.more ?r)"
    by (simp add: refreshed_record_def Let_def)
  then show thesis by (intro that) (simp only: with_projection_collapse)
qed

lemma ended_valid:
  assumes v: "validSession m i" and pr: "outcome_proven pf (record_evidence m) oc" and e: "ended_with oc (state m)"
    and st: "status m = outcome_status oc" and t: "legacyTombstone m = None" and c: "terminationConfirmed m"
  shows "validV2Session pf (toV2Session (refreshed_record pf m)) i"
    "legacyOutputCleanupPending (refreshed_record pf m) = (if truthy (legacyOutputCleanupPending m) then Some True else None)"
proof -
  from ended_refreshed [OF pr e st t] obtain p where r: "refreshed_record pf m = m\<lparr> pendingCleanup := p,
      storageFailure := truthy_text (storageFailure m),
      legacyOutputCleanupPending := (if truthy (legacyOutputCleanupPending m) then Some True else None),
      streamDrain := Some (nullish (streamDrain m) Drain_unknown), lastKnown := None,
      state := refreshSessionState pf (state m) m \<rparr>" .
  show "legacyOutputCleanupPending (refreshed_record pf m) = (if truthy (legacyOutputCleanupPending m) then Some True else None)"
    by (simp add: r)
  have "validOptional validText (truthy_text (storageFailure m))"
    using v by (simp add: validSession_def valid_lifecycle_def truthy_text_def validOptional_def)
  with v t have vs: "validSession (refreshed_record pf m) i"
    unfolding r validSession_def
    by (cases "mode m") (simp_all add: valid_identity_def valid_lifecycle_def valid_journal_def tombstone_consistent_def
        worker_consistent_def cleanup_pending_consistent_def times_consistent_def cursors_consistent_def truthy_def)
  note re = refresh_ended [OF pr e]
  have ev: "ev_confirmed (record_evidence m)" "safe_nat (ev_pid (record_evidence m))"
    "Option.bind (ev_legacy (record_evidence m)) lg_tombstone = None"
    using c v t by (simp_all add: record_evidence_def validSession_def valid_lifecycle_def)
  have "validV2TerminalProof pf (record_evidence m) oc" using pr by (auto simp: outcome_proven_iff validV2TerminalProof_def)
  then have "validV2State pf (refreshSessionState pf (state m) m)"
    using re ev by (auto simp: validV2State_def Let_def ended_with_def validOptional_def terminal_outcome_def state_payload_def)
  then show "validV2Session pf (toV2Session (refreshed_record pf m)) i"
    using vs from_to_V2 [of pf m] by (simp add: validV2Session_def validCompatibilitySession_def) (simp add: toV2Session_def)
qed

section \<open>Importing the output\<close>

definition imported_chunk :: "SessionRecord \<Rightarrow> js_string \<Rightarrow> OutputChunk" where
  "imported_chunk r t = \<lparr> ch_startSequence = firstRetainedSequence r,
     ch_endSequence = firstRetainedSequence r + byteLength t, ch_timestamp = updatedAt r, ch_data = t \<rparr>"

definition imported_journal :: "SessionRecord \<Rightarrow> js_string \<Rightarrow> journal" where
  "imported_journal r t = appendOutput \<lparr> files = [], outputTail = None \<rparr> [imported_chunk r t]"

lemma imported_chunk_ok:
  assumes "nonemptyText t" "valid_journal r" "nextSequence r = firstRetainedSequence r + byteLength t"
  shows "chunk_ok (imported_chunk r t)"
  using assms by (simp add: chunk_ok_def imported_chunk_def valid_journal_def safe_nat_def validNonnegativeInteger_def)

lemma imported_rep:
  "chunk_ok (imported_chunk r t) \<Longrightarrow> journal_rep (imported_journal r t) [imported_chunk r t]"
  by (simp add: imported_journal_def appendOutput_def append_chunk_def journal_rep_def map_ok_def)

lemma imported_reconciled:
  assumes v: "validSession r i" and p: "mode r \<noteq> Mode_exec" and t: "nonemptyText t"
    and n: "nextSequence r = firstRetainedSequence r + byteLength t"
  shows "validSession (reconcileSession r [imported_chunk r t]) i"
    "nextSequence (reconcileSession r [imported_chunk r t]) = nextSequence r"
    "outputBytes (reconcileSession r [imported_chunk r t]) = byteLength t"
proof -
  let ?c = "imported_chunk r t"
  let ?lc = "if t = [] then 0 else length (split_on LF t) - (if ends_with_lf t then 1 else 0)"
  have r: "reconcileSession r [?c] = r\<lparr> outputBytes := byteLength t, outputTruncated := (firstRetainedSequence r > 0),
      lineCount := ?lc, outputHasPartialLine := (t \<noteq> [] \<and> \<not> ends_with_lf t), outputJournalVersion := OUTPUT_JOURNAL_VERSION \<rparr>"
    using p n by (cases r) (simp add: reconcileSession_def imported_chunk_def Let_def chunks_text_def)
  have "safe_nat (nextSequence r)" using v by (simp add: validSession_def valid_journal_def)
  moreover have "?lc \<le> byteLength t" using line_count_le [of t] by simp
  ultimately have "safe_nat ?lc" "safe_nat (byteLength t)"
    using n by (auto simp: safe_nat_def validNonnegativeInteger_def isSafeInteger_def)
  then show "validSession (reconcileSession r [?c]) i"
    using v p n unfolding r validSession_def
    by (simp add: valid_identity_def valid_lifecycle_def valid_journal_def tombstone_consistent_def
        worker_consistent_def cleanup_pending_consistent_def times_consistent_def cursors_consistent_def)
  show "nextSequence (reconcileSession r [?c]) = nextSequence r" "outputBytes (reconcileSession r [?c]) = byteLength t"
    by (simp_all add: r)
qed

text \<open>The stages up to the write, for a journal that is empty and an old output that fits the cursors.\<close>

lemma import_stages:
  assumes j: "sd_journal dir = \<lparr> files = [], outputTail = None \<rparr>" and l: "sd_legacyOutput dir = Some t" and t: "nonemptyText t"
    and i: "importLegacyOutput d" and v: "valid_journal (decoded_record d)"
    and n: "nextSequence (decoded_record d) = firstRetainedSequence (decoded_record d) + byteLength t"
    and io: "io_legacyRead io" "io_append io" "io_discard io"
  shows "migrateSession pf io d dir =
    step_then (write_migrated pf io (forceMetadataWrite d) (decoded_record d) [imported_chunk (decoded_record d) t]
        (dir\<lparr> sd_journal := imported_journal (decoded_record d) t \<rparr>))
      (\<lambda>m. remove_legacy_output pf io (removeLegacyOutput d) m)"
proof -
  let ?r = "decoded_record d"
  let ?c = "imported_chunk ?r t" and ?j = "imported_journal ?r t"
  have rep: "journal_rep ?j [?c]" by (rule imported_rep [OF imported_chunk_ok [OF t v n]])
  have "journal_rep (sd_journal dir) []" by (simp add: j journal_rep_def map_ok_def)
  note 0 = journal_chunks_rep [OF this]
  have 1: "import_legacy_output io (importLegacyOutput d) ?r [] dir = (Inr [?c], dir\<lparr> sd_journal := ?j \<rparr>)"
    using i l t io journal_chunks_rep [OF rep]
    by (simp add: import_legacy_output_def Let_def nonemptyText_def j imported_journal_def imported_chunk_def)
  have 2: "\<not> cursor_mismatch ?r [?c]" using n by (simp add: cursor_mismatch_def imported_chunk_def)
  have "firstRetainedSequence ?r < ch_endSequence ?c" using t byteLength_pos by (simp add: imported_chunk_def nonemptyText_def)
  then have "discardOutputBefore ?j (firstRetainedSequence ?r) = Inr ?j"
    by (simp add: discardOutputBefore_def journal_rep_read [OF rep])
  then have 3: "discard_truncated io ?r [?c] (dir\<lparr> sd_journal := ?j \<rparr>) = (Inr [?c], dir\<lparr> sd_journal := ?j \<rparr>)"
    using io journal_chunks_rep [OF rep] by (simp add: discard_truncated_def)
  show ?thesis using 2 by (simp add: migrateSession_def Let_def 0 1 check_cursor_def 3)
qed

text \<open>Storing a finished session and clearing the mark of its old output.\<close>

lemma store_and_clear:
  assumes v: "validV2Session pf (toV2Session (refreshed_record pf m)) i" and i: "session_id m = i"
    and p: "legacyOutputCleanupPending (refreshed_record pf m) = Some True"
    and m: "m = reconcileSession r cs" and io: "io_write io" "io_remove io" "io_rewrite io"
  obtains x dir' where "step_then (write_migrated pf io True r cs dir) (\<lambda>m. remove_legacy_output pf io True m) = (Inr x, dir')"
    "stored_as pf i x dir'" "sd_legacyOutput dir' = None" "sd_journal dir' = sd_journal dir"
    "legacyOutputCleanupPending x = None" "status x = status (refreshed_record pf m)" "sameJournalState m x"
proof -
  let ?w = "refreshed_record pf m"
  let ?cl = "?w\<lparr> legacyOutputCleanupPending := None \<rparr>"
  let ?x = "refreshed_record pf ?cl"
  let ?d = "dir\<lparr> sd_metadata := Some (Record_v2 (toV2Session ?w)) \<rparr>"
  let ?e = "?d\<lparr> sd_legacyOutput := None, sd_metadata := Some (Record_v2 (toV2Session ?x)) \<rparr>"
  have 1: "write_migrated pf io True r cs dir = (Inr ?w, ?d)"
    using io(1) write_metadata_does [of pf m dir] v i by (simp add: write_migrated_def Let_def m)
  have vx: "validV2Session pf (toV2Session ?x) i" by (rule cleared_valid [OF v from_to_V2 p])
  have 2: "remove_legacy_output pf io True ?w ?d = (Inr ?x, ?e)"
    using io p write_metadata_does [of pf ?cl "?d\<lparr> sd_legacyOutput := None \<rparr>"] vx i
    by (simp add: remove_legacy_output_def Let_def)
  have "?x = ?w\<lparr> legacyOutputCleanupPending := None, storageFailure := truthy_text (storageFailure ?w),
       state := refreshSessionState pf (state ?w) ?cl \<rparr>" by (rule cleared_fields [OF v from_to_V2 p])
  then have "status ?x = status ?w" "legacyOutputCleanupPending ?x = None" by simp_all
  moreover have "stored_as pf i ?x ?e" using vx from_to_V2 [of pf ?cl] by (simp add: stored_as_def)
  moreover have "sameJournalState m ?x" by (simp add: sameJournalState_def)
  ultimately show thesis by (intro that [of ?x ?e]) (simp_all add: 1 2)
qed

lemma imported:
  assumes "sd_metadata dir = Some (Record_v0 s)" "decodeSession pf realpath (Record_v0 s) i = Inr d"
    and "legacy_terminal (legacy_fields s)" "ls_outputJournalVersion s = None" "ls_mode s \<noteq> Some Mode_exec"
    and "sd_journal dir = \<lparr> files = [], outputTail = None \<rparr>" "sd_legacyOutput dir = Some t" "nonemptyText t"
    and "nextSequence (ls_fields s) = firstRetainedSequence (ls_fields s) + byteLength t"
    and "io_legacyRead io" "io_append io" "io_discard io" "io_write io" "io_remove io" "io_rewrite io"
  obtains r dir' where "readSessionDirectory pf realpath io i dir = (Inr (Some r), Some dir')"
    "status r = status (ls_fields s)" "readOutput (sd_journal dir') = Inr t" "outputBytes r = byteLength t"
    "nextSequence r = nextSequence (ls_fields s)" "sd_legacyOutput dir' = None" "legacyOutputCleanupPending r = None"
    "stored_as pf i r dir'"
proof -
  have "legacy_file V0 s = Record_v0 s" by (simp add: legacy_file_def)
  with assms(2) have "decodeSession pf realpath (legacy_file V0 s) i = Inr d" by simp
  then obtain p h q where
    dr: "decoded_record d = (legacy_record V0 s p h q)\<lparr> state := legacy_state pf (status (ls_fields s)) (legacy_record V0 s p h q) \<rparr>"
    and f: "forceMetadataWrite d" and rm: "removeLegacyOutput d = legacy_cleanup_pending V0 s"
    and im: "importLegacyOutput d = (V0 = V0 \<and> ls_outputJournalVersion s \<noteq> Some OUTPUT_JOURNAL_VERSION)" by (rule decode_legacy)
  let ?r = "decoded_record d"
  let ?c = "imported_chunk ?r t" and ?dir = "dir\<lparr> sd_journal := imported_journal ?r t \<rparr>"
  let ?m = "reconcileSession ?r [?c]"
  have pend: "legacy_cleanup_pending V0 s" using assms(3,4) by (simp add: legacy_cleanup_pending_def)
  have vr: "validSession ?r i" and id: "session_id ?r = i" using decode_facts(4,1) [OF assms(2)] by simp_all
  have fields: "nextSequence ?r = nextSequence (ls_fields s)" "firstRetainedSequence ?r = firstRetainedSequence (ls_fields s)"
    "mode ?r \<noteq> Mode_exec" "legacyOutputCleanupPending ?r = Some True"
    using assms(5) pend by (auto simp: dr legacy_record_def Let_def legacy_fields_def nullish_def split: option.splits)
  have n: "nextSequence ?r = firstRetainedSequence ?r + byteLength t" using fields assms(9) by simp
  have vj: "valid_journal ?r" using vr by (simp add: validSession_def)
  have tr: "LifecycleProjection.truncate ?m = LifecycleProjection.truncate ?r" by simp
  obtain oc where oc: "outcome_proven pf (record_evidence ?r) oc" "ended_with oc (state ?r)" "status ?r = outcome_status oc"
    "status ?r = status (ls_fields s)" "terminationConfirmed ?r" by (rule decoded_terminal [OF assms(3) dr])
  have lc: "legacyOutputCleanupPending ?m = Some True" "terminationConfirmed ?m" "status ?m = status ?r" "legacyTombstone ?m = None"
    using arg_cong [OF tr, of legacyOutputCleanupPending] arg_cong [OF tr, of legacyTombstone] fields(4) vr oc(5)
      arg_cong [OF tr, of terminationConfirmed] arg_cong [OF tr, of status]
    by (simp_all add: LifecycleProjection.defs validSession_def cleanup_pending_consistent_def)
  note m = imported_reconciled [OF vr fields(3) assms(8) n]
  have w: "validV2Session pf (toV2Session (refreshed_record pf ?m)) i" "legacyOutputCleanupPending (refreshed_record pf ?m) = Some True"
    using ended_valid [OF m(1), of pf oc] oc record_evidence_cong [OF tr] lc by simp_all
  obtain x dir' where 1: "step_then (write_migrated pf io True ?r [?c] ?dir) (\<lambda>m. remove_legacy_output pf io True m) = (Inr x, dir')"
    and x: "stored_as pf i x dir'" "sd_legacyOutput dir' = None" "sd_journal dir' = sd_journal ?dir"
      "legacyOutputCleanupPending x = None" "status x = status (refreshed_record pf ?m)" "sameJournalState ?m x"
    by (rule store_and_clear [OF w(1) _ w(2) refl assms(13-15), of ?dir]) (simp_all add: id)
  have "readSessionDirectory pf realpath io i dir = (Inr (Some x), Some dir')"
    unfolding readSessionDirectory_def
    by (simp add: assms(1,2) import_stages [OF assms(6,7,8) _ vj n assms(10-12)] im assms(4) f rm pend 1 del: decodeSession.simps)
  moreover have "status x = status (ls_fields s)" unfolding x(5) by (rule terminal_import(1) [OF assms(3) dr tr]) simp
  moreover have "readOutput (sd_journal dir') = Inr t"
    using journal_rep_read [OF imported_rep [OF imported_chunk_ok [OF assms(8) vj n]]]
    by (simp add: x(3) readOutput_def chunks_text_def imported_chunk_def)
  moreover have "outputBytes x = byteLength t" "nextSequence x = nextSequence (ls_fields s)"
    using x(6) m(2,3) fields(1) by (simp_all add: sameJournalState_def)
  ultimately show thesis using x by (intro that)
qed

text \<open>
  A finished session of version 0 is imported with its output. A record that the decoder accepts, with a proven end, an
  empty journal and an old output that fits its cursors, is loaded: with its status, with
  the text of the old output as its journal, with cursors that count its bytes, and stored in the current
  format; the old output is removed, and nothing is left to be cleaned up.
\<close>

theorem proven_session_imported:
  assumes "sd_metadata dir = Some (Record_v0 s)" "decodeSession pf realpath (Record_v0 s) i = Inr d"
    and "legacy_terminal (legacy_fields s)" "ls_outputJournalVersion s = None" "ls_mode s \<noteq> Some Mode_exec"
    and "sd_journal dir = \<lparr> files = [], outputTail = None \<rparr>" "sd_legacyOutput dir = Some t" "nonemptyText t"
    and "nextSequence (ls_fields s) = firstRetainedSequence (ls_fields s) + byteLength t"
    and "io_legacyRead io" "io_append io" "io_discard io" "io_write io" "io_remove io" "io_rewrite io"
  shows "\<exists>r dir'. readSessionDirectory pf realpath io i dir = (Inr (Some r), Some dir') \<and>
    status r = status (ls_fields s) \<and> readOutput (sd_journal dir') = Inr t \<and> outputBytes r = byteLength t \<and>
    nextSequence r = nextSequence (ls_fields s) \<and> sd_legacyOutput dir' = None \<and>
    legacyOutputCleanupPending r = None \<and> stored_as pf i r dir'"
  by (rule imported [OF assms]) blast

section \<open>Every loaded record is well-formed\<close>

definition well_stored :: "platform \<Rightarrow> js_string \<Rightarrow> SessionRecord \<Rightarrow> bool" where
  "well_stored pf i r \<longleftrightarrow> session_id r = i \<and> validV2Session pf (toV2Session r) i \<and> fromV2Session (toV2Session r) = r"

lemma write_well_stored:
  assumes "write_migrated pf io force r cs dir = (Inr m, dir')" "session_id r = i" "\<not> force \<Longrightarrow> well_stored pf i r"
  shows "well_stored pf i m"
proof (cases "force \<or> \<not> sameJournalState r (reconcileSession r cs)")
  case True
  with assms(1) obtain u where "write_metadata pf (io_write io) (reconcileSession r cs) dir = (Inr u, m, dir')"
    by (auto simp: write_migrated_def Let_def split: prod.splits sum.splits)
  from write_metadata_ok [OF this] assms(2) show ?thesis by (simp add: well_stored_def)
next
  case False
  with assms show ?thesis using reconcile_same [of r cs] by (simp add: write_migrated_def Let_def)
qed

lemma remove_well_stored:
  assumes "remove_legacy_output pf io wanted m dir = (Inr r, dir')" "well_stored pf i m"
  shows "well_stored pf i r"
proof (cases "wanted \<and> io_remove io \<and> legacyOutputCleanupPending m = Some True")
  case True
  let ?c = "m\<lparr> legacyOutputCleanupPending := None \<rparr>"
  from True assms(1) write_metadata_record have r: "r = refreshed_record pf ?c"
    by (auto simp: remove_legacy_output_def Let_def split: prod.splits)
  have "validV2Session pf (toV2Session (refreshed_record pf ?c)) i"
    using assms(2) True by (intro cleared_valid) (simp_all add: well_stored_def)
  then show ?thesis using assms(2) from_to_V2 [of pf ?c] by (simp add: r well_stored_def)
next
  case False
  with assms show ?thesis by (auto simp: remove_legacy_output_def Let_def split: if_splits)
qed

lemma load_well_stored:
  assumes "readSessionDirectory pf realpath io i dir = (Inr (Some r), x)"
  shows "well_stored pf i r"
proof -
  obtain dir' where "x = Some dir'"
    using assms by (auto simp: readSessionDirectory_def split: option.splits sum.splits prod.splits load_error.splits)
  with assms obtain f d where f: "sd_metadata dir = Some f" and d: "decodeSession pf realpath f i = Inr d"
    and m: "migrateSession pf io d dir = (Inr r, dir')" using load_Some by metis
  from m obtain cs0 where "journal_chunks (sd_journal dir) = Inr cs0"
    by (cases "journal_chunks (sd_journal dir)") (auto simp: migrateSession_def)
  from migrate_steps [OF this m] obtain cs dir1 mm dir2 where
    w: "write_migrated pf io (forceMetadataWrite d) (decoded_record d) cs dir1 = (Inr mm, dir2)"
    and rm: "remove_legacy_output pf io (removeLegacyOutput d) mm dir2 = (Inr r, dir')" .
  have "well_stored pf i mm"
    by (rule write_well_stored [OF w decode_facts(1) [OF d]])
       (use decode_facts(1,3) [OF d] f in \<open>auto simp: well_stored_def stored_as_def\<close>)
  then show ?thesis by (rule remove_well_stored [OF rm])
qed

lemma loaded_from:
  assumes "fst (loadSessions pf realpath io dirs) = Inr rs" "r \<in> set rs"
  shows "\<exists>i dir x. (i, dir) \<in> set dirs \<and> readSessionDirectory pf realpath (io i) i dir = (Inr (Some r), x)"
  using assms
proof (induction dirs arbitrary: rs)
  case (Cons a dirs)
  obtain i dir where a: "a = (i, dir)" by force
  obtain res x where rd: "readSessionDirectory pf realpath (io i) i dir = (res, x)" by force
  from Cons.prems(1) obtain o' rest where o: "res = Inr o'" and rest: "fst (loadSessions pf realpath io dirs) = Inr rest"
    and rs: "rs = (case o' of None \<Rightarrow> rest | Some y \<Rightarrow> y # rest)"
    by (cases res) (auto simp: loadSessions_def Let_def a rd and_then_Inr_iff)
  show ?case
  proof (cases "r \<in> set rest")
    case True
    from Cons.IH [OF rest True] show ?thesis by auto
  next
    case False
    with rs Cons.prems(2) have "o' = Some r" by (auto split: option.splits)
    with rd o show ?thesis by (auto simp: a)
  qed
qed (simp add: loadSessions_def)

text \<open>
  C26: what is loaded is well-formed. Whatever files the data directory holds, of whatever version, each record that
  a load returns comes from a directory with its identifier, passes every check of a stored session, has a
  state the store accepts, and its flat lifecycle fields are the projection of that state.
\<close>

theorem loaded_records_well_formed:
  assumes "fst (loadSessions pf realpath io dirs) = Inr rs" "r \<in> set rs"
  shows "session_id r \<in> fst ` set dirs \<and> validSession r (session_id r) \<and> validV2State pf (state r) \<and>
    LifecycleProjection.truncate r = projectSessionState (state r)"
proof -
  from loaded_from [OF assms] obtain i dir x where d: "(i, dir) \<in> set dirs"
    and l: "readSessionDirectory pf realpath (io i) i dir = (Inr (Some r), x)" by blast
  from load_well_stored [OF l] have w: "session_id r = i" "validV2Session pf (toV2Session r) i" "fromV2Session (toV2Session r) = r"
    by (simp_all add: well_stored_def)
  have "validSession r i" using valid_fromV2 [OF w(2)] w(3) by simp
  moreover have "validV2State pf (state r)" using w(2) by (simp add: validV2Session_def) (simp add: toV2Session_def)
  moreover have "LifecycleProjection.truncate r = projectSessionState (state r)"
    using arg_cong [OF w(3), of LifecycleProjection.truncate] by (simp add: fromV2Session_def toV2Session_def)
  ultimately show ?thesis using d w(1) by force
qed

section \<open>Old sessions that cannot be stored\<close>

text \<open>A directory whose metadata is refused makes the load of all sessions fail.\<close>

lemma load_fails:
  assumes "(i, dir) \<in> set dirs" "fst (readSessionDirectory pf realpath (io i) i dir) = Inl e"
  shows "\<exists>e. fst (loadSessions pf realpath io dirs) = Inl e"
  using assms(1)
proof (induction dirs)
  case (Cons a dirs)
  show ?case
  proof (cases "a = (i, dir)")
    case True
    with assms(2) show ?thesis by (auto simp: loadSessions_def Let_def split: prod.splits)
  next
    case False
    with Cons obtain e' where "fst (loadSessions pf realpath io dirs) = Inl e'" by auto
    then show ?thesis
      by (cases "fst (readSessionDirectory pf realpath (io (fst a)) (fst a) (snd a))")
         (auto simp: loadSessions_def Let_def split: prod.splits)
  qed
qed simp

lemma refused_load:
  assumes m: "sd_metadata dir = Some f" and d: "decodeSession pf realpath f i = Inr d" and f: "forceMetadataWrite d"
    and j: "journal_rep (sd_journal dir) []" and l: "sd_legacyOutput dir = None" and io: "io_legacyRead io" "io_discard io"
    and v: "\<not> validV2Session pf (toV2Session (refreshed_record pf (reconcileSession (decoded_record d) []))) i"
  shows "\<exists>e. fst (readSessionDirectory pf realpath io i dir) = Inl (OtherLoadError e)"
proof -
  let ?r = "decoded_record d"
  have "fst (writeSession pf ok (reconcileSession ?r []) []) \<noteq> Inr u" for ok u
    using v decode_facts(1) [OF d] by (auto simp: writeSession_def Let_def)
  then have "\<exists>e. fst (write_migrated pf io True ?r [] dir) = Inl (OtherLoadError e) \<and>
      snd (write_migrated pf io True ?r [] dir) = dir"
    by (cases "writeSession pf (io_write io) (reconcileSession ?r []) []")
       (auto simp: write_migrated_def write_metadata_def Let_def split: sum.splits prod.splits, (metis fst_conv sum.exhaust)+)
  then obtain e where e: "write_migrated pf io True ?r [] dir = (Inl (OtherLoadError e), dir)" by (metis prod.collapse)
  have 1: "import_legacy_output io b ?r [] dir = (Inr [], dir)" for b using l io by (simp add: import_legacy_output_def)
  have 2: "discard_truncated io ?r [] dir = (Inr [], dir)"
    using io journal_rep_read [OF j] by (simp add: discard_truncated_def discardOutputBefore_def journal_chunks_rep [OF j])
  have "migrateSession pf io d dir = (Inl (OtherLoadError e), dir)"
    using f e by (simp add: migrateSession_def Let_def journal_chunks_rep [OF j] 1 2 check_cursor_def cursor_mismatch_def)
  then show ?thesis using m d by (simp add: readSessionDirectory_def del: decodeSession.simps)
qed

text \<open>
  A tombstone that version 1 made of a finished session cannot be taken over. A record of version 1 that is
  lost and whose tombstone remembers a terminal session is accepted by the decoder, but the state that is built from
  it has no terminal payload, so that storing it is refused; and the refusal is not an error the load sets
  aside: no session of the data directory is loaded.
\<close>

theorem lost_terminal_blocks_load:
  assumes "(i, dir) \<in> set dirs" "sd_metadata dir = Some (Record_v1 s)" "decodeSession pf realpath (Record_v1 s) i = Inr d"
    and "status (ls_fields s) = St_lost" "legacyTombstone (ls_fields s) = Some t" "lt_lastKnown t = T_terminal"
    and "lastKnown (ls_fields s) = None"
    and "journal_rep (sd_journal dir) []" "sd_legacyOutput dir = None" "io_legacyRead (io i)" "io_discard (io i)"
  shows "\<exists>e. fst (loadSessions pf realpath io dirs) = Inl e"
proof -
  have "decodeSession pf realpath (legacy_file V1 s) i = Inr d" using assms(3) by (simp add: legacy_file_def)
  then obtain p h q where
    dr: "decoded_record d = (legacy_record V1 s p h q)\<lparr> state := legacy_state pf (status (ls_fields s)) (legacy_record V1 s p h q) \<rparr>"
    and f: "forceMetadataWrite d" by (rule decode_legacy)
  let ?L = "legacy_record V1 s p h q" and ?m = "reconcileSession (decoded_record d) []"
  have "status ?L = St_lost" "lastKnown ?L = None" "legacyTombstone ?L = Some t" "pendingCleanup ?L = Some True"
    using assms(4-7) by (simp_all add: legacy_record_def Let_def legacy_tombstone_def legacy_terminal_def legacy_fields_def finished_status_def)
  from compatibility_lost_terminal(1) [OF this(1-3) assms(6) this(4), of pf]
  have "state_kind (state ?m) = Cleaning (To_unreachable T_terminal None)"
    using assms(4) by (simp add: dr legacy_state_def finished_status_def)
  then have "\<not> validV2State pf (refreshSessionState pf (state ?m) ?m)"
    by (simp add: refreshSessionState_def Let_def validV2State_def)
  then have "\<not> validV2Session pf (toV2Session (refreshed_record pf ?m)) i"
    by (simp add: validV2Session_def toV2Session_def)
  from refused_load [OF assms(2,3) f assms(8-11) this] show ?thesis using load_fails [OF assms(1)] by blast
qed

text \<open>
  An old record of a start that failed before there was a process cannot be taken over either: its exit
  reason proves the end, so that the state is terminal, but the record is kept as a tombstone.
\<close>

theorem no_child_failure_blocks_load:
  assumes "(i, dir) \<in> set dirs" "sd_metadata dir = Some (legacy_file v s)" "decodeSession pf realpath (legacy_file v s) i = Inr d"
    and "status (ls_fields s) = St_spawn_failed" "no_child_cleanup (spawn_cleanup_of (exitReason (ls_fields s)))"
    and "directChildExited (ls_fields s) \<noteq> Some True"
    and "journal_rep (sd_journal dir) []" "sd_legacyOutput dir = None" "io_legacyRead (io i)" "io_discard (io i)"
  shows "\<exists>e. fst (loadSessions pf realpath io dirs) = Inl e"
proof -
  obtain p h q where
    dr: "decoded_record d = (legacy_record v s p h q)\<lparr> state := legacy_state pf (status (ls_fields s)) (legacy_record v s p h q) \<rparr>"
    and f: "forceMetadataWrite d" by (rule decode_legacy [OF assms(3)])
  let ?L = "legacy_record v s p h q" and ?m = "reconcileSession (decoded_record d) []"
  let ?r = "?L\<lparr> status := St_spawn_failed \<rparr>"
  have t: "\<not> legacy_terminal (legacy_fields s)" using assms(6) by (simp add: legacy_terminal_def legacy_fields_def)
  have "exitReason ?L = exitReason (ls_fields s)" by (simp add: legacy_record_def legacy_fields_def Let_def)
  then have pr: "outcome_proven pf (record_evidence ?r) Spawn_failed" "outcome_proven pf (record_evidence ?m) Spawn_failed"
    using assms(5) record_evidence_cong [of ?m "decoded_record d"] by (simp_all add: outcome_proven_iff record_evidence_def dr)
  have "ended_with Spawn_failed (state ?m)"
    using compatibility_ended [OF pr(1)] assms(4) by (simp add: dr legacy_state_def finished_status_def compatibility_kind_def)
  from ended_status [OF refresh_ended(1) [OF pr(2) this]]
  have st: "status (refreshed_record pf ?m) = St_spawn_failed" by (simp add: refreshed_lifecycle)
  have "legacyTombstone ?m \<noteq> None"
    using t arg_cong [OF reconcile_sel(8), of legacyTombstone "decoded_record d" "[]"]
    by (simp add: LifecycleProjection.defs dr legacy_record_def legacy_tombstone_def Let_def or_else_def split: option.splits)
  then have "legacyTombstone (refreshed_record pf ?m) \<noteq> None" by (auto simp: refreshed_lifecycle refresh_tombstone)
  with st have "\<not> validV2Session pf (toV2Session (refreshed_record pf ?m)) i"
    by (simp add: validV2Session_def from_to_V2 validCompatibilitySession_def validSession_def tombstone_consistent_def)
  from refused_load [OF assms(2,3) f assms(7-10) this] show ?thesis using load_fails [OF assms(1)] by blast
qed

subsection \<open>Instances\<close>

definition old_report :: ContainmentReport where
  "old_report = \<lparr> co_platform = Linux_proc, co_status = Posix_best_effort_empty, co_rootPid = 7,
     co_processGroupId = None, co_sessionId = None, co_rootStartIdentity = js ''f'', co_rootIdentityVerified = True,
     co_observedGroupPids = [], co_observedSessionPids = [], co_observedEscapedDescendantPids = [],
     co_observedEscapedDescendants = None, co_verifiedAt = toISOString 1 \<rparr>"

definition old_output :: js_string where "old_output = js ''legacy'' @ [LF]"

definition old_fields :: SessionRecord where
  "old_fields = sample_session\<lparr> status := St_exited, directChildExited := Some True, containment := Some old_report,
     streamDrain := None, nextSequence := 7, outputBytes := 7, lineCount := 1 \<rparr>"

definition old_session :: legacy_session where
  "old_session = \<lparr> ls_fields = old_fields, ls_ownerProjectDirectory = Given (js ''/w''),
     ls_ownerCapabilityHash = Given (replicate 64 97), ls_parentSessionId = Given (js ''ses_1''),
     ls_mode = None, ls_lifecycle = None, ls_environment = None, ls_terminationRequested = None,
     ls_terminationConfirmed = Some True, ls_outputJournalVersion = None \<rparr>"

definition old_directory :: session_directory where
  "old_directory = \<lparr> sd_metadata = Some (Record_v0 old_session), sd_journal = \<lparr> files = [], outputTail = None \<rparr>,
     sd_legacyOutput = Some old_output \<rparr>"

definition sound_io :: load_io where
  "sound_io = \<lparr> io_legacyRead = True, io_append = True, io_discard = True, io_write = True, io_remove = True,
     io_rewrite = True, io_quarantine = True \<rparr>"

lemmas old_defs = old_session_def old_fields_def sample_session_def sample_record_def old_report_def

lemma sample_numbers: "safe_nat 0" "safe_nat 1" "safe_nat 7" "safe_nat 1000"
  by (simp_all add: safe_nat_def validNonnegativeInteger_def isSafeInteger_def MAX_SAFE_INTEGER_def)

lemma sample_owner: "validCapabilityHash (replicate 64 97)" "nonemptyText (js ''/w'')" "nonemptyText (js ''ses_1'')" "validText []"
  using sample_texts by (simp_all add: validCapabilityHash_def list_all_length nonemptyText_def)

lemma validText_plain: "list_all (\<lambda>u. \<not> high_surrogate u \<and> \<not> low_surrogate u) s \<Longrightarrow> validText s"
  by (induction s rule: validText.induct) auto

lemma validText_hash: "validText (replicate 64 97)"
  by (rule validText_plain) (simp add: list_all_length high_surrogate_def low_surrogate_def)

lemma sample_times: "validTimestamp (toISOString n)"
  by (simp add: validTimestamp_def)

lemma old_terminal: "legacy_terminal (legacy_fields old_session)"
  by (simp add: legacy_terminal_def legacy_fields_def old_defs finished_status_def report_drained_def drained_status_def)

lemma old_output_ok: "nonemptyText old_output" "byteLength old_output = 7"
  by (simp_all add: old_output_def nonemptyText_def high_surrogate_def low_surrogate_def unit_bytes_def)

lemmas old_valid_defs = validOptional_def valid_lifecycle_def valid_journal_def tombstone_consistent_def worker_consistent_def
  cleanup_pending_consistent_def times_consistent_def cursors_consistent_def validContainment_def validEnvironment_def

lemma old_valid: "validLegacySession V0 old_session (js ''pty_1'')"
proof -
  let ?r = "legacy_fields old_session"
  have t: "legacy_texts_valid ?r (js ''pty_1'')"
    using sample_texts sample_owner by (simp add: legacy_texts_valid_def legacy_fields_def old_defs empty_environment_def old_valid_defs)
  have o: "legacy_owner_valid V0 old_session" "legacy_fields_present V0 old_session" "legacy_tombstone_valid V0 ?r"
    using sample_owner sample_texts
    by (simp_all add: legacy_owner_valid_def legacy_fields_present_def legacy_tombstone_valid_def legacy_fields_def old_defs validOptional_def
        validCapabilityHash_def nonemptyText_def validText_hash)
  have v: "valid_lifecycle ?r" "valid_journal (?r\<lparr> outputJournalVersion := OUTPUT_JOURNAL_VERSION \<rparr>)" "tombstone_consistent ?r"
    "worker_consistent ?r" "cleanup_pending_consistent ?r" "times_consistent ?r" "cursors_consistent ?r"
    using sample_numbers sample_times sample_texts
    by (simp_all add: legacy_fields_def old_defs old_valid_defs MAX_OUTPUT_BYTES_def timestamp_less_iff)
  show ?thesis using t o v by (simp add: validLegacySession_def Let_def)
qed

lemma decode_given:
  assumes "ls_parentSessionId s = Given parent" "ls_ownerProjectDirectory s = Given project" "ls_ownerCapabilityHash s = Given hash"
    and "nonemptyText parent" "nonemptyText project" "validCapabilityHash hash" "realpath project = Some project"
    and "\<And>st. validSession ((legacy_record v s project hash parent)\<lparr> state := st \<rparr>) i"
  shows "\<exists>d. decodeLegacySession pf realpath s i v = Inr d"
  using assms by (simp add: decodeLegacySession_def Let_def validCompatibilitySession_def)

lemma old_owner: "ls_parentSessionId old_session = Given (js ''ses_1'')" "ls_ownerProjectDirectory old_session = Given (js ''/w'')"
  "ls_ownerCapabilityHash old_session = Given (replicate 64 97)"
  by (simp_all add: old_session_def)

lemma old_decoded: "\<exists>d. decodeSession Linux Some (Record_v0 old_session) (js ''pty_1'') = Inr d"
proof -
  let ?L = "legacy_record V0 old_session (js ''/w'') (replicate 64 97) (js ''ses_1'')"
  have "validSession (?L\<lparr> state := st \<rparr>) (js ''pty_1'')" for st
  proof -
    have L: "?L = old_fields\<lparr> environment := empty_environment, terminationConfirmed := True,
        streamDrain := Some Drain_unknown, legacyOutputCleanupPending := Some True, outputJournalVersion := OUTPUT_JOURNAL_VERSION \<rparr>"
      using old_terminal by (simp add: legacy_record_def Let_def legacy_cleanup_pending_def legacy_tombstone_def) (simp add: legacy_fields_def old_defs)
    show ?thesis unfolding L validSession_def
      using sample_numbers sample_times sample_texts sample_owner
      by (simp add: old_defs old_valid_defs valid_identity_def MAX_OUTPUT_BYTES_def timestamp_less_iff empty_environment_def finished_status_def)
  qed
  from decode_given [OF old_owner sample_owner(3,2,1), of Some, OF refl this]
  show ?thesis using old_valid by (simp add: decodeV0Session_def old_owner)
qed


lemma old_loaded:
  obtains r dir' where "readSessionDirectory Linux Some sound_io (js ''pty_1'') old_directory = (Inr (Some r), Some dir')"
    "legacyOutputCleanupPending r = None"
proof -
  obtain d where d: "decodeSession Linux Some (Record_v0 old_session) (js ''pty_1'') = Inr d" using old_decoded by blast
  show thesis
    by (rule imported [OF _ d old_terminal _ _ _ _ old_output_ok(1), of old_directory sound_io])
       (simp_all add: that old_directory_def sound_io_def old_output_ok(2) del: decodeSession.simps, simp_all add: old_defs)
qed

lemma old_rep: "journal_rep (sd_journal old_directory) []" "tail_ok (sd_journal old_directory) []"
  by (simp_all add: old_directory_def journal_rep_def tail_ok_def map_ok_def)

theorem proven_session_imported_witness:
  "\<exists>r dir'. readSessionDirectory Linux Some sound_io (js ''pty_1'') old_directory = (Inr (Some r), Some dir') \<and>
     status r = St_exited \<and> readOutput (sd_journal dir') = Inr old_output \<and> sd_legacyOutput dir' = None"
proof -
  obtain d where d: "decodeSession Linux Some (Record_v0 old_session) (js ''pty_1'') = Inr d" using old_decoded by blast
  have a: "sd_metadata old_directory = Some (Record_v0 old_session)" "ls_outputJournalVersion old_session = None"
    "ls_mode old_session \<noteq> Some Mode_exec" "sd_journal old_directory = \<lparr> files = [], outputTail = None \<rparr>"
    "sd_legacyOutput old_directory = Some old_output"
    "nextSequence (ls_fields old_session) = firstRetainedSequence (ls_fields old_session) + byteLength old_output"
    "status (ls_fields old_session) = St_exited"
    using old_output_ok(2) by (simp_all add: old_directory_def) (simp_all add: old_defs)
  show ?thesis
    using proven_session_imported [OF a(1) d old_terminal a(2-5) old_output_ok(1) a(6), of sound_io] a(7)
    by (auto simp: sound_io_def)
qed

theorem legacy_import_needs_proof_witness:
  "\<exists>r dir'. readSessionDirectory Linux Some sound_io (js ''pty_1'') old_directory = (Inr (Some r), Some dir') \<and>
     status r = St_exited \<and> ownerProjectDirectory r = js ''/w''"
proof -
  obtain r dir' where r: "readSessionDirectory Linux Some sound_io (js ''pty_1'') old_directory = (Inr (Some r), Some dir')"
    by (rule old_loaded)
  have f: "sd_metadata old_directory = Some (legacy_file V0 old_session)" by (simp add: old_directory_def legacy_file_def)
  have "status (ls_fields old_session) = St_exited" by (simp add: old_defs)
  with legacy_import_needs_proof [OF f r] old_terminal r show ?thesis
    by (auto simp: legacy_terminal_def legacy_fields_def old_owner)
qed

theorem reload_is_stable_witness:
  "\<exists>r dir'. readSessionDirectory Linux Some sound_io (js ''pty_1'') old_directory = (Inr (Some r), Some dir') \<and>
     readSessionDirectory Linux Some sound_io (js ''pty_1'') dir' = (Inr (Some r), Some dir')"
proof -
  obtain r dir' where r: "readSessionDirectory Linux Some sound_io (js ''pty_1'') old_directory = (Inr (Some r), Some dir')"
    "legacyOutputCleanupPending r = None" by (rule old_loaded)
  have "io_rewrite sound_io" "io_discard sound_io" by (simp_all add: sound_io_def)
  with reload_is_stable [OF old_rep r(1), of sound_io Some] r show ?thesis by auto
qed

definition lost_session :: legacy_session where
  "lost_session = old_session\<lparr> ls_fields := sample_session\<lparr> status := St_lost, pendingCleanup := Some True, streamDrain := None,
       legacyTombstone := Some \<lparr> lt_sourceRecordVersion = V0, lt_lastKnown = T_terminal \<rparr> \<rparr>,
     ls_mode := Some Mode_pty, ls_lifecycle := Some Conversation, ls_environment := Some empty_environment,
     ls_terminationRequested := Some False, ls_terminationConfirmed := Some False,
     ls_outputJournalVersion := Some OUTPUT_JOURNAL_VERSION \<rparr>"

definition lost_directory :: session_directory where
  "lost_directory = \<lparr> sd_metadata = Some (Record_v1 lost_session), sd_journal = \<lparr> files = [], outputTail = None \<rparr>,
     sd_legacyOutput = None \<rparr>"

lemma lost_valid: "validLegacySession V1 lost_session (js ''pty_1'')"
proof -
  let ?r = "legacy_fields lost_session"
  note lost = lost_session_def old_session_def sample_session_def sample_record_def
  have t: "legacy_texts_valid ?r (js ''pty_1'')"
    using sample_texts sample_owner by (simp add: legacy_texts_valid_def legacy_fields_def lost empty_environment_def old_valid_defs)
  have o: "legacy_owner_valid V1 lost_session" "legacy_fields_present V1 lost_session" "legacy_tombstone_valid V1 ?r"
    using sample_owner
    by (simp_all add: legacy_owner_valid_def legacy_fields_present_def legacy_tombstone_valid_def legacy_fields_def lost validOptional_def)
  have v: "valid_lifecycle ?r" "valid_journal (?r\<lparr> outputJournalVersion := OUTPUT_JOURNAL_VERSION \<rparr>)" "tombstone_consistent ?r"
    "worker_consistent ?r" "cleanup_pending_consistent ?r" "times_consistent ?r" "cursors_consistent ?r"
    using sample_numbers sample_times sample_texts
    by (simp_all add: legacy_fields_def lost old_valid_defs MAX_OUTPUT_BYTES_def timestamp_less_iff)
  show ?thesis using t o v by (simp add: validLegacySession_def Let_def)
qed

lemma lost_decoded: "\<exists>d. decodeSession Linux Some (Record_v1 lost_session) (js ''pty_1'') = Inr d"
proof -
  let ?L = "legacy_record V1 lost_session (js ''/w'') (replicate 64 97) (js ''ses_1'')"
  note lost = lost_session_def old_session_def sample_session_def sample_record_def
  have owner: "ls_parentSessionId lost_session = Given (js ''ses_1'')" "ls_ownerProjectDirectory lost_session = Given (js ''/w'')"
    "ls_ownerCapabilityHash lost_session = Given (replicate 64 97)" by (simp_all add: lost)
  have "\<not> legacy_terminal (legacy_fields lost_session)" by (simp add: legacy_terminal_def legacy_fields_def lost)
  then have L: "?L = (ls_fields lost_session)\<lparr> environment := empty_environment, directChildExited := Some False,
      outputJournalVersion := OUTPUT_JOURNAL_VERSION \<rparr>"
    by (simp add: legacy_record_def Let_def legacy_cleanup_pending_def legacy_tombstone_def) (simp add: legacy_fields_def lost)
  have "validSession (?L\<lparr> state := st \<rparr>) (js ''pty_1'')" for st
    unfolding L validSession_def using sample_numbers sample_times sample_texts sample_owner
    by (simp add: lost old_valid_defs valid_identity_def MAX_OUTPUT_BYTES_def timestamp_less_iff empty_environment_def)
  from decode_given [OF owner sample_owner(3,2,1), of Some, OF refl this]
  show ?thesis using lost_valid by (simp add: decodeV1Session_def)
qed

theorem lost_terminal_blocks_load_witness:
  "\<exists>e. fst (loadSessions Linux Some (\<lambda>_. sound_io) [(js ''pty_1'', lost_directory)]) = Inl e"
proof -
  obtain d where d: "decodeSession Linux Some (Record_v1 lost_session) (js ''pty_1'') = Inr d" using lost_decoded by blast
  have "status (ls_fields lost_session) = St_lost" "lastKnown (ls_fields lost_session) = None"
    "legacyTombstone (ls_fields lost_session) = Some \<lparr> lt_sourceRecordVersion = V0, lt_lastKnown = T_terminal \<rparr>"
    by (simp_all add: lost_session_def sample_session_def sample_record_def)
  then show ?thesis
    by (intro lost_terminal_blocks_load [OF _ _ d, where dir = lost_directory and
          t = "\<lparr> lt_sourceRecordVersion = V0, lt_lastKnown = T_terminal \<rparr>"])
       (simp_all add: lost_directory_def journal_rep_def map_ok_def sound_io_def)
qed

theorem loaded_records_well_formed_witness:
  "\<exists>r. fst (loadSessions Linux Some (\<lambda>_. sound_io) [(js ''pty_1'', old_directory)]) = Inr [r] \<and>
     validSession r (js ''pty_1'') \<and> validV2State Linux (state r)"
proof -
  obtain r dir' where "readSessionDirectory Linux Some sound_io (js ''pty_1'') old_directory = (Inr (Some r), Some dir')"
    by (rule old_loaded)
  then have l: "fst (loadSessions Linux Some (\<lambda>_. sound_io) [(js ''pty_1'', old_directory)]) = Inr [r]"
    by (simp add: loadSessions_def)
  from loaded_records_well_formed [OF l, of r] l show ?thesis by auto
qed

end
