(* ===== verification/Session_Router.thy ===== *)
theory Session_Router
  imports Session_Registry
begin

text \<open>
  The router of the supervisor (daemon/session-router.ts): the attached workers, the version
  counter of each session, and the lanes, which run the asynchronous tasks of one session one
  after the other. The event loop is a sequence of steps over the table of promises.
\<close>

section \<open>Lanes\<close>

text \<open>
  A lane is a chain of promises. The task handed to \<open>mutate\<close> or \<open>persist\<close> is a job, named by
  its place in the order of submission, which is also the identity of its \<open>settled\<close> promise.
  A job remembers the promise it was chained to with \<open>then(task, task)\<close>; it may start once
  that promise has settled, and it settles whether its task succeeds or fails. The map of a
  table holds the last promise of each session; the callback a job registers on its own
  promise removes the entry if it is still the last.
\<close>

datatype phase = Waiting | Running_job | Settled

record lane_job =
  job_session :: js_string
  job_after :: "nat option"
  job_phase :: phase

record lane_table =
  tails :: "(js_string, nat) js_map"
  jobs :: "lane_job list"

record SessionRouter =
  workers :: "(js_string, nat) js_map"
  versions :: "(js_string, nat) js_map"
  persists :: lane_table
  mutations :: lane_table

definition new_lanes :: lane_table where
  "new_lanes = \<lparr> tails = [], jobs = [] \<rparr>"

definition version :: "SessionRouter \<Rightarrow> js_string \<Rightarrow> nat" where
  "version rt i = nullish (map_get (versions rt) i) 0"

definition bumpVersion :: "SessionRouter \<Rightarrow> js_string \<Rightarrow> nat \<times> SessionRouter" where
  "bumpVersion rt i =
     (let v = version rt i + 1 in (v, rt\<lparr> versions := map_set (versions rt) i v \<rparr>))"

text \<open>The body that \<open>persist\<close> and \<open>mutate\<close> share, each on its own table.\<close>

definition enqueue :: "js_string \<Rightarrow> lane_table \<Rightarrow> lane_table" where
  "enqueue i t =
     \<lparr> tails = map_set (tails t) i (length (jobs t)),
       jobs = jobs t @ [\<lparr> job_session = i, job_after = map_get (tails t) i, job_phase = Waiting \<rparr>] \<rparr>"

definition persist :: "js_string \<Rightarrow> SessionRouter \<Rightarrow> SessionRouter" where
  "persist i rt = rt\<lparr> persists := enqueue i (persists rt) \<rparr>"

definition mutate :: "js_string \<Rightarrow> SessionRouter \<Rightarrow> SessionRouter" where
  "mutate i rt = rt\<lparr> mutations := enqueue i (mutations rt) \<rparr>"

text \<open>What the event loop may do next: take a new job, start one, settle one, run its callback.\<close>

datatype lane_event = Enqueue js_string | Start nat | Settle nat | Tidy nat

definition settled :: "lane_table \<Rightarrow> nat \<Rightarrow> bool" where
  "settled t k \<longleftrightarrow> k < length (jobs t) \<and> job_phase (jobs t ! k) = Settled"

definition ready :: "lane_table \<Rightarrow> nat \<Rightarrow> bool" where
  "ready t k \<longleftrightarrow> k < length (jobs t) \<and> job_phase (jobs t ! k) = Waiting \<and>
     (case job_after (jobs t ! k) of None \<Rightarrow> True | Some p \<Rightarrow> settled t p)"

definition running_job :: "lane_table \<Rightarrow> nat \<Rightarrow> bool" where
  "running_job t k \<longleftrightarrow> k < length (jobs t) \<and> job_phase (jobs t ! k) = Running_job"

fun lane_enabled :: "lane_table \<Rightarrow> lane_event \<Rightarrow> bool" where
  "lane_enabled t (Enqueue i) = True"
| "lane_enabled t (Start k) = ready t k"
| "lane_enabled t (Settle k) = running_job t k"
| "lane_enabled t (Tidy k) = settled t k"

definition set_phase :: "lane_table \<Rightarrow> nat \<Rightarrow> phase \<Rightarrow> lane_table" where
  "set_phase t k ph = t\<lparr> jobs := (jobs t)[k := (jobs t ! k)\<lparr> job_phase := ph \<rparr>] \<rparr>"

definition tidy :: "lane_table \<Rightarrow> nat \<Rightarrow> lane_table" where
  "tidy t k =
     (let i = job_session (jobs t ! k) in
      if map_get (tails t) i = Some k then t\<lparr> tails := map_delete (tails t) i \<rparr> else t)"

fun lane_step :: "lane_table \<Rightarrow> lane_event \<Rightarrow> lane_table" where
  "lane_step t (Enqueue i) = enqueue i t"
| "lane_step t (Start k) = set_phase t k Running_job"
| "lane_step t (Settle k) = set_phase t k Settled"
| "lane_step t (Tidy k) = tidy t k"

section \<open>The invariant of a table\<close>

definition same_lane :: "lane_table \<Rightarrow> nat \<Rightarrow> nat \<Rightarrow> bool" where
  "same_lane t j k \<longleftrightarrow> j < length (jobs t) \<and> k < length (jobs t) \<and>
     job_session (jobs t ! j) = job_session (jobs t ! k)"

text \<open>
  The entry of a session is its last job, a session without one has only settled jobs; a job is
  chained to the job of its session right before it, or to none if all earlier ones have
  settled; a job has started only when all earlier jobs of its session have settled.
\<close>

definition tails_ok :: "lane_table \<Rightarrow> bool" where
  "tails_ok t \<longleftrightarrow> (\<forall>i. case map_get (tails t) i of
     Some p \<Rightarrow> p < length (jobs t) \<and> job_session (jobs t ! p) = i \<and>
       (\<forall>k < length (jobs t). job_session (jobs t ! k) = i \<longrightarrow> k \<le> p)
   | None \<Rightarrow> \<forall>k < length (jobs t). job_session (jobs t ! k) = i \<longrightarrow> settled t k)"

definition links_ok :: "lane_table \<Rightarrow> bool" where
  "links_ok t \<longleftrightarrow> (\<forall>k < length (jobs t). case job_after (jobs t ! k) of
     Some p \<Rightarrow> p < k \<and> same_lane t p k \<and> (\<forall>j. same_lane t j k \<and> j < k \<longrightarrow> j \<le> p)
   | None \<Rightarrow> \<forall>j. same_lane t j k \<and> j < k \<longrightarrow> settled t j)"

definition order_ok :: "lane_table \<Rightarrow> bool" where
  "order_ok t \<longleftrightarrow> (\<forall>j k. same_lane t j k \<and> j < k \<and> job_phase (jobs t ! k) \<noteq> Waiting \<longrightarrow> settled t j)"

definition lanes_inv :: "lane_table \<Rightarrow> bool" where
  "lanes_inv t \<longleftrightarrow> tails_ok t \<and> links_ok t \<and> order_ok t"

lemma new_lanes_inv: "lanes_inv new_lanes"
  by (simp add: lanes_inv_def new_lanes_def tails_ok_def links_ok_def order_ok_def same_lane_def)

lemma enqueue_sel [simp]:
  "length (jobs (enqueue i t)) = Suc (length (jobs t))"
  "k < length (jobs t) \<Longrightarrow> jobs (enqueue i t) ! k = jobs t ! k"
  "jobs (enqueue i t) ! length (jobs t) = \<lparr> job_session = i, job_after = map_get (tails t) i, job_phase = Waiting \<rparr>"
  "tails (enqueue i t) = map_set (tails t) i (length (jobs t))"
  by (simp_all add: enqueue_def nth_append)

lemma enqueue_settled: "k < length (jobs t) \<Longrightarrow> settled (enqueue i t) k = settled t k"
  by (simp add: settled_def)

lemma enqueue_same:
  "same_lane (enqueue i t) j k \<longleftrightarrow>
     (if k = length (jobs t)
      then j = k \<or> (j < k \<and> job_session (jobs t ! j) = i)
      else same_lane t j k \<or> (j = length (jobs t) \<and> k < j \<and> job_session (jobs t ! k) = i))"
  by (auto simp: same_lane_def less_Suc_eq)

lemma enqueue_inv:
  assumes "lanes_inv t"
  shows "lanes_inv (enqueue i t)"
proof -
  let ?n = "length (jobs t)" and ?t = "enqueue i t"
  from assms have inv: "tails_ok t" "links_ok t" "order_ok t" by (simp_all add: lanes_inv_def)
  have tail: "case map_get (tails t) i' of
     Some p \<Rightarrow> p < ?n \<and> job_session (jobs t ! p) = i' \<and>
       (\<forall>k < ?n. job_session (jobs t ! k) = i' \<longrightarrow> k \<le> p)
   | None \<Rightarrow> \<forall>k < ?n. job_session (jobs t ! k) = i' \<longrightarrow> settled t k" for i'
    using inv(1) by (simp add: tails_ok_def)
  have "tails_ok ?t"
    unfolding tails_ok_def
  proof
    fix i'
    show "case map_get (tails ?t) i' of
     Some p \<Rightarrow> p < length (jobs ?t) \<and> job_session (jobs ?t ! p) = i' \<and>
       (\<forall>k < length (jobs ?t). job_session (jobs ?t ! k) = i' \<longrightarrow> k \<le> p)
   | None \<Rightarrow> \<forall>k < length (jobs ?t). job_session (jobs ?t ! k) = i' \<longrightarrow> settled ?t k"
      using tail [of i'] by (auto simp: less_Suc_eq enqueue_settled split: option.splits)
  qed
  moreover have "links_ok ?t"
    unfolding links_ok_def
  proof (intro allI impI)
    fix k assume k: "k < length (jobs ?t)"
    show "case job_after (jobs ?t ! k) of
        Some p \<Rightarrow> p < k \<and> same_lane ?t p k \<and> (\<forall>j. same_lane ?t j k \<and> j < k \<longrightarrow> j \<le> p)
      | None \<Rightarrow> \<forall>j. same_lane ?t j k \<and> j < k \<longrightarrow> settled ?t j"
    proof (cases "k = ?n")
      case True
      then show ?thesis using tail [of i] by (auto simp: enqueue_same enqueue_settled split: option.splits)
    next
      case False
      then have lt: "k < ?n" using k by simp
      have "case job_after (jobs t ! k) of
        Some p \<Rightarrow> p < k \<and> same_lane t p k \<and> (\<forall>j. same_lane t j k \<and> j < k \<longrightarrow> j \<le> p)
      | None \<Rightarrow> \<forall>j. same_lane t j k \<and> j < k \<longrightarrow> settled t j"
        using inv(2) lt by (simp add: links_ok_def)
      then show ?thesis using lt by (auto simp: enqueue_same enqueue_settled split: option.splits)
    qed
  qed
  moreover have "order_ok ?t"
    unfolding order_ok_def
  proof (intro allI impI)
    fix j k assume a: "same_lane ?t j k \<and> j < k \<and> job_phase (jobs ?t ! k) \<noteq> Waiting"
    then have "k \<noteq> ?n" by auto
    with a have "same_lane t j k" "k < ?n" "j < ?n" by (auto simp: enqueue_same same_lane_def split: if_splits)
    with a inv(3) show "settled ?t j" by (auto simp: order_ok_def enqueue_settled)
  qed
  ultimately show ?thesis by (simp add: lanes_inv_def)
qed

lemma set_phase_sel [simp]:
  "length (jobs (set_phase t k ph)) = length (jobs t)" "tails (set_phase t k ph) = tails t"
  by (simp_all add: set_phase_def)

lemma set_phase_nth:
  "j < length (jobs t) \<Longrightarrow> job_session (jobs (set_phase t k ph) ! j) = job_session (jobs t ! j)"
  "j < length (jobs t) \<Longrightarrow> job_after (jobs (set_phase t k ph) ! j) = job_after (jobs t ! j)"
  "j < length (jobs t) \<Longrightarrow> job_phase (jobs (set_phase t k ph) ! j) = (if j = k then ph else job_phase (jobs t ! j))"
  by (cases "j = k"; simp add: set_phase_def)+

lemma set_phase_same [simp]: "same_lane (set_phase t k ph) = same_lane t"
  by (intro ext) (auto simp: same_lane_def set_phase_nth)

lemma set_phase_settled:
  "settled (set_phase t k ph) j \<longleftrightarrow> (if j = k then k < length (jobs t) \<and> ph = Settled else settled t j)"
  by (auto simp: settled_def set_phase_nth)

text \<open>A job that is not settled may start, and any job may settle, without harm to the links.\<close>

lemma set_phase_inv:
  assumes inv: "lanes_inv t" and k: "k < length (jobs t)"
    and keep: "settled t k \<longrightarrow> ph = Settled"
    and ord: "\<And>j. same_lane t j k \<Longrightarrow> j < k \<Longrightarrow> settled t j"
  shows "lanes_inv (set_phase t k ph)"
proof -
  have mono: "settled t j \<Longrightarrow> settled (set_phase t k ph) j" for j
    using keep k by (auto simp: set_phase_settled)
  have "tails_ok (set_phase t k ph)"
    using inv unfolding lanes_inv_def tails_ok_def
    by (fastforce simp: set_phase_nth split: option.splits intro: mono)
  moreover have "links_ok (set_phase t k ph)"
    using inv unfolding lanes_inv_def links_ok_def
    by (fastforce simp: set_phase_nth split: option.splits intro: mono)
  moreover have "order_ok (set_phase t k ph)"
    unfolding order_ok_def
  proof (intro allI impI)
    fix j l assume a: "same_lane (set_phase t k ph) j l \<and> j < l \<and> job_phase (jobs (set_phase t k ph) ! l) \<noteq> Waiting"
    then have sl: "same_lane t j l" "l < length (jobs t)" by (simp_all add: same_lane_def)
    show "settled (set_phase t k ph) j"
    proof (cases "l = k")
      case True
      with a sl ord show ?thesis by (auto intro: mono)
    next
      case False
      with a sl inv show ?thesis by (auto simp: lanes_inv_def order_ok_def set_phase_nth intro!: mono)
    qed
  qed
  ultimately show ?thesis by (simp add: lanes_inv_def)
qed

lemma settled_order: "lanes_inv t \<Longrightarrow> settled t k \<Longrightarrow> same_lane t j k \<Longrightarrow> j < k \<Longrightarrow> settled t j"
  unfolding lanes_inv_def order_ok_def by (metis phase.distinct(3) settled_def)

lemma ready_order:
  assumes inv: "lanes_inv t" and r: "ready t k" and j: "same_lane t j k" "j < k"
  shows "settled t j"
proof (cases "job_after (jobs t ! k)")
  case None
  with inv r j show ?thesis by (auto simp: lanes_inv_def links_ok_def ready_def dest!: spec [of _ k])
next
  case (Some p)
  with inv r have p: "p < k" "same_lane t p k" "\<forall>j. same_lane t j k \<and> j < k \<longrightarrow> j \<le> p" "settled t p"
    by (auto simp: lanes_inv_def links_ok_def ready_def dest!: spec [of _ k])
  show ?thesis
  proof (cases "j = p")
    case False
    with p(3) j have "j < p" by (metis le_neq_implies_less)
    moreover have "same_lane t j p" using p(2) j(1) by (simp add: same_lane_def)
    ultimately show ?thesis using settled_order [OF inv p(4)] by blast
  qed (simp add: p)
qed

lemma running_order: "lanes_inv t \<Longrightarrow> running_job t k \<Longrightarrow> same_lane t j k \<Longrightarrow> j < k \<Longrightarrow> settled t j"
  unfolding lanes_inv_def order_ok_def running_job_def by (metis phase.distinct(1))

lemma tidy_sel [simp]: "jobs (tidy t k) = jobs t" "settled (tidy t k) = settled t" "same_lane (tidy t k) = same_lane t"
  by (auto simp: tidy_def settled_def same_lane_def fun_eq_iff Let_def)

lemma tidy_inv:
  assumes inv: "lanes_inv t" and k: "settled t k"
  shows "lanes_inv (tidy t k)"
proof -
  have last: "settled t j" if "map_get (tails t) (job_session (jobs t ! k)) = Some k" "same_lane t j k" for j
  proof (cases "j = k")
    case False
    from inv that(1) have "\<forall>j < length (jobs t). job_session (jobs t ! j) = job_session (jobs t ! k) \<longrightarrow> j \<le> k"
      by (auto simp: lanes_inv_def tails_ok_def dest!: spec [of _ "job_session (jobs t ! k)"])
    with that(2) False have "j < k" by (auto simp: same_lane_def le_less)
    then show ?thesis using settled_order [OF inv k that(2)] by blast
  qed (simp add: k)
  have klt: "k < length (jobs t)" using k by (simp add: settled_def)
  let ?i = "job_session (jobs t ! k)"
  have old: "tails_ok t" using inv by (simp add: lanes_inv_def)
  have "tails_ok (tidy t k)"
  proof (cases "map_get (tails t) ?i = Some k")
    case True
    then have tails: "map_get (tails (tidy t k)) i' = (if i' = ?i then None else map_get (tails t) i')" for i'
      by (simp add: tidy_def)
    have "\<forall>j < length (jobs t). job_session (jobs t ! j) = ?i \<longrightarrow> settled t j"
      using last [OF True] klt by (simp add: same_lane_def)
    with old show ?thesis unfolding tails_ok_def tails tidy_sel by simp
  next
    case False
    then have "tidy t k = t" by (simp add: tidy_def)
    with old show ?thesis by simp
  qed
  with inv show ?thesis unfolding lanes_inv_def links_ok_def order_ok_def tidy_sel by blast
qed

lemma lane_step_inv: "lanes_inv t \<Longrightarrow> lane_enabled t e \<Longrightarrow> lanes_inv (lane_step t e)"
proof (cases e)
  case (Start k)
  assume "lanes_inv t" "lane_enabled t e"
  then have inv: "lanes_inv t" and r: "ready t k" using Start by simp_all
  have "lanes_inv (set_phase t k Running_job)"
    by (rule set_phase_inv [OF inv]) (use r ready_order [OF inv r] in \<open>auto simp: ready_def settled_def\<close>)
  then show ?thesis using Start by simp
next
  case (Settle k)
  assume "lanes_inv t" "lane_enabled t e"
  then have inv: "lanes_inv t" and r: "running_job t k" using Settle by simp_all
  have "lanes_inv (set_phase t k Settled)"
    by (rule set_phase_inv [OF inv]) (use r running_order [OF inv r] in \<open>auto simp: running_job_def\<close>)
  then show ?thesis using Settle by simp
qed (simp_all add: enqueue_inv tidy_inv)

interpretation lane_runs: invariant_system lane_step lane_enabled lanes_inv
  by unfold_locales (rule lane_step_inv)

section \<open>Properties\<close>

text \<open>
  C29: the lane of a session is a mutual exclusion lock with a fair queue. However the event loop
  interleaves submissions, starts, completions and callbacks, at most one task of a session
  runs at a time, a task starts only after every earlier task of its session has settled, and
  removing the entry of an idle session never lets a new task overtake a queued one.
\<close>

theorem lanes_serialize:
  assumes "lane_runs.run_enabled new_lanes es"
  defines "t \<equiv> lane_runs.run new_lanes es"
  shows "(\<forall>j k. running_job t j \<and> running_job t k \<and> same_lane t j k \<longrightarrow> j = k) \<and>
    (\<forall>j k. same_lane t j k \<and> j < k \<and> job_phase (jobs t ! k) \<noteq> Waiting \<longrightarrow> settled t j)"
proof -
  have inv: "lanes_inv t" unfolding t_def using new_lanes_inv assms(1) by (rule lane_runs.run_inv)
  have "j = k" if "running_job t j" "running_job t k" "same_lane t j k" for j k
  proof -
    have "\<not> settled t j" "\<not> settled t k" using that by (simp_all add: running_job_def settled_def)
    moreover have "same_lane t k j" using that(3) by (simp add: same_lane_def)
    ultimately show ?thesis using running_order [OF inv] that by (metis linorder_neqE_nat)
  qed
  then show ?thesis using inv by (auto simp: lanes_inv_def order_ok_def)
qed

text \<open>
  C39: no task waits for ever in its lane. As long as a session has a task that has not settled,
  one of its tasks is running or may start at once.
\<close>

theorem lanes_progress:
  assumes "lane_runs.run_enabled new_lanes es"
  defines "t \<equiv> lane_runs.run new_lanes es"
  assumes "k < length (jobs t)" and "\<not> settled t k"
  shows "\<exists>j. same_lane t j k \<and> (running_job t j \<or> ready t j)"
proof -
  have inv: "lanes_inv t" unfolding t_def using new_lanes_inv assms(1) by (rule lane_runs.run_inv)
  define j where "j = (LEAST j. same_lane t j k \<and> \<not> settled t j)"
  have "same_lane t k k \<and> \<not> settled t k" using assms(3,4) by (simp add: same_lane_def)
  then have j: "same_lane t j k \<and> \<not> settled t j" unfolding j_def by (rule LeastI)
  have before: "settled t p" if "same_lane t p j" "p < j" for p
  proof -
    have "same_lane t p k" using that(1) j by (simp add: same_lane_def)
    then show ?thesis using not_less_Least [of p "\<lambda>j. same_lane t j k \<and> \<not> settled t j"] that(2) by (auto simp: j_def)
  qed
  have lt: "j < length (jobs t)" using j by (simp add: same_lane_def)
  show ?thesis
  proof (cases "job_phase (jobs t ! j)")
    case Waiting
    have "p < j \<and> same_lane t p j" if "job_after (jobs t ! j) = Some p" for p
      using inv lt that by (auto simp: lanes_inv_def links_ok_def dest!: spec [of _ j])
    with Waiting lt before have "ready t j" by (auto simp: ready_def split: option.splits)
    with j show ?thesis by blast
  qed (use j lt in \<open>auto simp: running_job_def settled_def\<close>)
qed

definition sample_schedule :: "lane_event list" where
  "sample_schedule = [Enqueue (js ''a''), Enqueue (js ''a''), Enqueue (js ''b''), Start 0, Start 2, Settle 0, Tidy 0, Start 1]"

lemma sample_schedule_enabled: "lane_runs.run_enabled new_lanes sample_schedule"
  by (simp add: sample_schedule_def new_lanes_def enqueue_def ready_def running_job_def settled_def set_phase_def tidy_def Let_def)

theorem lanes_serialize_witness:
  "running_job (lane_runs.run new_lanes sample_schedule) 1 \<and> settled (lane_runs.run new_lanes sample_schedule) 0"
proof -
  let ?t = "lane_runs.run new_lanes sample_schedule"
  have "running_job ?t 1 \<and> same_lane ?t 0 1 \<and> job_phase (jobs ?t ! 1) \<noteq> Waiting"
    by (simp add: sample_schedule_def new_lanes_def enqueue_def ready_def running_job_def settled_def set_phase_def
        tidy_def Let_def same_lane_def)
  with lanes_serialize [OF sample_schedule_enabled] show ?thesis by (meson zero_less_one)
qed

theorem lanes_progress_witness:
  "\<exists>j. same_lane (lane_runs.run new_lanes sample_schedule) j 1 \<and>
     (running_job (lane_runs.run new_lanes sample_schedule) j \<or> ready (lane_runs.run new_lanes sample_schedule) j)"
  by (rule lanes_progress [OF sample_schedule_enabled])
     (simp_all add: sample_schedule_def new_lanes_def enqueue_def settled_def set_phase_def tidy_def Let_def)

end
