(* ===== verification/Runtime_Environment.thy ===== *)
theory Runtime_Environment
  imports Session_Registry "HOL-Library.List_Lexorder"
begin

text \<open>
  The environment a session runs with (daemon/supervisor.ts): which of the daemon's own
  variables and of the requested ones reach a command, which names are sensitive, the profile
  stored with the session and the secrets handed to the redactor. Unicode upper-casing (on
  Windows) and the digest of the environment are parameters.
\<close>

section \<open>Sensitive names\<close>

text \<open>
  The regular expression \<open>SENSITIVE_ENVIRONMENT_KEY\<close> as a matcher that returns the texts left
  after a match. Its \<open>i\<close> flag folds the ASCII letters only: without the flag \<open>u\<close> a unit
  outside ASCII never equals one inside it.
\<close>

type_synonym matcher = "js_string \<Rightarrow> js_string list"

definition fold_case :: "16 word \<Rightarrow> 16 word" where
  "fold_case u = (if 65 \<le> u \<and> u \<le> 90 then u + 32 else u)"

definition rx_lit :: "js_string \<Rightarrow> matcher" where
  "rx_lit p s = (if prefix p s then [drop (length p) s] else [])"

definition rx_sep :: matcher where
  "rx_sep s = (case s of [] \<Rightarrow> [] | u # r \<Rightarrow> if u = 95 \<or> u = 45 then [r] else [])"

definition rx_seq :: "matcher \<Rightarrow> matcher \<Rightarrow> matcher" where
  "rx_seq p q s = concat (map q (p s))"

definition rx_alt :: "matcher \<Rightarrow> matcher \<Rightarrow> matcher" where
  "rx_alt p q s = p s @ q s"

definition rx_opt :: "matcher \<Rightarrow> matcher" where
  "rx_opt p s = p s @ [s]"

text \<open>\<open>(?:$|[_-])\<close>.\<close>

definition rx_edge :: matcher where
  "rx_edge s = (if s = [] then [[]] else rx_sep s)"

definition private_key :: matcher where
  "private_key =
     rx_seq (rx_opt (rx_alt (rx_lit (js ''ssh'')) (rx_lit (js ''tls''))))
    (rx_seq (rx_opt rx_sep) (rx_seq (rx_lit (js ''private'')) (rx_seq (rx_opt rx_sep) (rx_seq (rx_lit (js ''key'')) rx_edge))))"

definition signing_key :: matcher where
  "signing_key = rx_seq (rx_lit (js ''signing'')) (rx_seq (rx_opt rx_sep) (rx_seq (rx_lit (js ''key'')) rx_edge))"

text \<open>A match that starts here; \<open>start\<close> says whether \<open>^\<close> holds.\<close>

definition sensitive_here :: "bool \<Rightarrow> js_string \<Rightarrow> bool" where
  "sensitive_here start s \<longleftrightarrow>
     list_ex (\<lambda>w. prefix w s)
       [js ''token'', js ''secret'', js ''password'', js ''credential'', js ''auth'', js ''cookie''] \<or>
     rx_seq (rx_lit (js ''api'')) (rx_seq (rx_opt rx_sep) (rx_lit (js ''key''))) s \<noteq> [] \<or>
     (start \<and> (private_key s \<noteq> [] \<or> signing_key s \<noteq> [])) \<or>
     rx_seq rx_sep private_key s \<noteq> [] \<or> rx_seq rx_sep signing_key s \<noteq> []"

fun sensitive_from :: "bool \<Rightarrow> js_string \<Rightarrow> bool" where
  "sensitive_from start [] = sensitive_here start []"
| "sensitive_from start (u # s) = (sensitive_here start (u # s) \<or> sensitive_from False s)"

definition SENSITIVE_ENVIRONMENT_KEY :: "js_string \<Rightarrow> bool" where
  "SENSITIVE_ENVIRONMENT_KEY key = sensitive_from True (map fold_case key)"

section \<open>The environment of a command\<close>

definition MAX_REDACTION_SECRET_BYTES :: nat where "MAX_REDACTION_SECRET_BYTES = 4096"

definition SAFE_ENVIRONMENT_KEYS :: "js_string list" where
  "SAFE_ENVIRONMENT_KEYS =
     [js ''PATH'', js ''HOME'', js ''USERPROFILE'', js ''APPDATA'', js ''LOCALAPPDATA'', js ''SYSTEMROOT'',
      js ''SYSTEMDRIVE'', js ''WINDIR'', js ''TEMP'', js ''TMP'', js ''TERM'', js ''LANG'', js ''ComSpec'',
      js ''ProgramData'', js ''ALLUSERSPROFILE'', js ''PATHEXT'', js ''PUBLIC'']"

type_synonym env_map = "(js_string, js_string) js_map"

text \<open>\<open>Object.fromEntries\<close>: a later entry replaces the value of an earlier one.\<close>

definition fromEntries :: "(js_string \<times> js_string) list \<Rightarrow> env_map" where
  "fromEntries es = foldl (\<lambda>m (k, v). map_set m k v) [] es"

definition isPath :: "(js_string \<Rightarrow> js_string) \<Rightarrow> bool \<Rightarrow> js_string \<Rightarrow> bool" where
  "isPath upper windows key = (if windows then upper key = js ''PATH'' else key = js ''PATH'')"

definition isSafe :: "(js_string \<Rightarrow> js_string) \<Rightarrow> bool \<Rightarrow> js_string \<Rightarrow> bool" where
  "isSafe upper windows key =
     (if \<not> windows then key \<in> set SAFE_ENVIRONMENT_KEYS
      else list_ex (\<lambda>safe. upper safe = upper key) SAFE_ENVIRONMENT_KEYS)"

definition worker_knob :: "js_string \<Rightarrow> bool" where
  "worker_knob key = prefix (js ''OPENCODE_PTY_NATIVE_WORKER_'') key"

definition trustedPath :: "(js_string \<Rightarrow> js_string) \<Rightarrow> bool \<Rightarrow> env_map \<Rightarrow> js_string option" where
  "trustedPath upper windows source = map_option snd (find (\<lambda>(k, _). isPath upper windows k) source)"

definition environment_base :: "(js_string \<Rightarrow> js_string) \<Rightarrow> bool \<Rightarrow> bool \<Rightarrow> env_map \<Rightarrow> env_map" where
  "environment_base upper windows inherit source =
     (if inherit then source
      else fromEntries (filter (\<lambda>(k, _).
        isPath upper windows k \<or> isSafe upper windows k \<or> prefix (js ''LC_'') k) source))"

definition oversized_secret :: "js_string \<times> js_string \<Rightarrow> bool" where
  "oversized_secret = (\<lambda>(k, v). SENSITIVE_ENVIRONMENT_KEY k \<and> byteLength v > MAX_REDACTION_SECRET_BYTES)"

definition runtimeEnvironment ::
  "(js_string \<Rightarrow> js_string) \<Rightarrow> env_map option \<Rightarrow> bool \<Rightarrow> env_map \<Rightarrow> bool \<Rightarrow> (js_string, env_map) result" where
  "runtimeEnvironment upper requested inherit source windows =
     (let entries = environment_base upper windows inherit source @ nullish requested [];
          kept = fromEntries (filter (\<lambda>(k, _). \<not> isPath upper windows k \<and> \<not> worker_knob k) entries);
          environment = (case trustedPath upper windows source of
             None \<Rightarrow> kept | Some p \<Rightarrow> map_set kept (js ''PATH'') p)
      in case find oversized_secret environment of
           Some (k, _) \<Rightarrow> Inl (js ''Sensitive environment value for '' @ [39] @ k @ [39] @ js '' exceeds '' @
             js ''4096'' @ js '' UTF-8 bytes.'')
         | None \<Rightarrow> Inr environment)"

text \<open>\<open>fingerprint\<close> is the digest of the entries sorted by key.\<close>

definition environmentProfile ::
  "(env_map \<Rightarrow> js_string) \<Rightarrow> env_map \<Rightarrow> bool \<Rightarrow> EnvironmentProfile" where
  "environmentProfile fingerprint env inherited =
     \<lparr> env_kind = (if inherited then Env_inherit else Env_safe),
       env_keys = sort (map (\<lambda>(k, _). if SENSITIVE_ENVIRONMENT_KEY k then js ''[REDACTED_ENV_KEY]'' else k) env),
       env_fingerprint = fingerprint env,
       env_sensitive = list_ex (\<lambda>(k, _). SENSITIVE_ENVIRONMENT_KEY k) env \<rparr>"

definition redactionSecrets :: "env_map \<Rightarrow> js_string list" where
  "redactionSecrets env =
     map snd (filter (\<lambda>(k, v). SENSITIVE_ENVIRONMENT_KEY k \<and> length v \<ge> 4) env)"

section \<open>Lemmas\<close>

lemma fromEntries_snoc: "fromEntries (es @ [(k, v)]) = map_set (fromEntries es) k v"
  by (simp add: fromEntries_def)

lemma fromEntries_get: "map_get (fromEntries es) k = map_get (rev es) k"
proof (induction es rule: rev_induct)
  case (snoc e es)
  then show ?case by (cases e) (simp add: fromEntries_snoc)
qed (simp add: fromEntries_def)

lemma fromEntries_ok: "map_ok (fromEntries es)"
proof (induction es rule: rev_induct)
  case (snoc e es)
  then show ?case by (cases e) (simp add: fromEntries_snoc)
qed (simp add: fromEntries_def)

lemma map_get_rev: "map_ok m \<Longrightarrow> map_get (rev m) k = map_get m k"
proof -
  assume m: "map_ok m"
  then have "map_get (rev m) k = Some v \<longleftrightarrow> map_get m k = Some v" for v
    by (simp add: map_ok_def map_of_eq_Some_iff rev_map [symmetric])
  then show ?thesis by (metis not_Some_eq)
qed

lemma map_get_filter_key: "map_get (filter (\<lambda>(k, _). P k) m) k = (if P k then map_get m k else None)"
  by (induction m) auto

lemma map_ok_filter [simp]: "map_ok m \<Longrightarrow> map_ok (filter P m)"
  by (auto simp: map_ok_def distinct_map_filter)

lemma environment_base_get:
  assumes "map_ok source"
  shows "map_get (environment_base upper windows inherit source) k =
     (if inherit \<or> isPath upper windows k \<or> isSafe upper windows k \<or> prefix (js ''LC_'') k
      then map_get source k else None)"
  using assms unfolding environment_base_def by (auto simp: fromEntries_get map_get_rev map_get_filter_key)

lemma environment_base_ok: "map_ok source \<Longrightarrow> map_ok (environment_base upper windows inherit source)"
  by (simp add: environment_base_def fromEntries_ok)

lemma find_None_all: "find P xs = None \<longleftrightarrow> (\<forall>x\<in>set xs. \<not> P x)"
  by (auto simp: find_None_iff)

lemma map_get_set_iff: "map_ok m \<Longrightarrow> (k, v) \<in> set m \<longleftrightarrow> map_get m k = Some v"
  by (simp add: map_ok_def map_of_eq_Some_iff)

section \<open>Properties\<close>


definition sample_source :: env_map where
  "sample_source = [(js ''PATH'', js ''/bin''), (js ''HOME'', js ''/h''), (js ''API_KEY'', js ''k'')]"

lemma sample_environment:
  "runtimeEnvironment id (Some [(js ''PATH'', js ''/evil''), (js ''MY_TOKEN'', js ''t'')]) False sample_source False =
   Inr [(js ''HOME'', js ''/h''), (js ''MY_TOKEN'', js ''t''), (js ''PATH'', js ''/bin'')]"
  by code_simp


lemma sensitive_examples:
  "SENSITIVE_ENVIRONMENT_KEY (js ''GITHUB_TOKEN'')" "SENSITIVE_ENVIRONMENT_KEY (js ''API-KEY'')"
  "SENSITIVE_ENVIRONMENT_KEY (js ''SSH_PRIVATE_KEY'')" "SENSITIVE_ENVIRONMENT_KEY (js ''my_signingkey'')"
  "\<not> SENSITIVE_ENVIRONMENT_KEY (js ''PRIVATE_KEYBOARD'')" "\<not> SENSITIVE_ENVIRONMENT_KEY (js ''HOME'')"
  by code_simp+

end
