(* ===== verification/Supervision.thy ===== *)
theory Supervision
  imports Session_Store Session_Router Runtime_Environment
begin

text \<open>
  How the supervisor moves one session along (daemon/supervisor.ts): the snapshot a worker
  reports, the lifecycle event and the observations drawn from it, the guarded transition of
  the record, and the predicates on records that recovery and cleanup decide by.
\<close>

section \<open>What a worker reports\<close>

datatype worker_status = W_running | W_exited | W_lost

datatype worker_exit_reason =
    WX_code | WX_signal js_string | WX_timeout | WX_output_limit | WX_stopped | WX_storage_failure

record WorkerSnapshot =
  ws_status :: worker_status
  ws_pid :: nat
  ws_stdout :: "js_string option"
  ws_stderr :: "js_string option"
  ws_stdoutBytes :: nat
  ws_stderrBytes :: nat
  ws_stdoutTruncated :: bool
  ws_stderrTruncated :: bool
  ws_nextSequence :: nat
  ws_firstRetainedSequence :: nat
  ws_outputTruncated :: bool
  ws_outputLineCount :: nat
  ws_outputHasPartialLine :: bool
  ws_exitCode :: "int option"
  ws_exitSignal :: "js_string option"
  ws_exitReason :: "worker_exit_reason option"
  ws_exitedAt :: "timestamp option"
  ws_timedOut :: bool
  ws_terminationRequested :: bool
  ws_terminationConfirmed :: bool
  ws_directChildExited :: bool
  ws_storageFailure :: "js_string option"
  ws_outputIncomplete :: bool
  ws_readerFailure :: "js_string option"
  ws_diagnostics :: "js_string list option"
  ws_containment :: ContainmentReport
  ws_termination :: "TerminationResult option"

definition nativeTerminalProof :: "platform \<Rightarrow> WorkerSnapshot \<Rightarrow> bool" where
  "nativeTerminalProof pf w \<longleftrightarrow>
     ws_terminationConfirmed w \<and> ws_status w \<noteq> W_running \<and> ws_directChildExited w \<and>
     (drained_status (co_status (ws_containment w)) \<or> pf = Darwin)"

definition nativeTerminal :: "platform \<Rightarrow> WorkerSnapshot \<Rightarrow> bool" where
  "nativeTerminal pf w \<longleftrightarrow> ws_status w = W_lost \<or> nativeTerminalProof pf w"

definition workerEvent :: "WorkerSnapshot \<Rightarrow> LifecycleEvent" where
  "workerEvent w =
     (if ws_status w = W_lost then Event_unreachable
      else if ws_status w = W_running then Worker_ready
      else if ws_exitReason w = Some WX_output_limit then Event_output_limited
      else if ws_timedOut w then Event_timed_out
      else Child_exited)"

section \<open>Moving a session along\<close>

text \<open>\<open>observe\<close> is \<open>Object.assign(record, observations)\<close>; a rejected event leaves the record alone.\<close>

definition transition ::
  "platform \<Rightarrow> SessionRecord \<Rightarrow> LifecycleEvent \<Rightarrow> (SessionRecord \<Rightarrow> SessionRecord) \<Rightarrow> SessionRecord option" where
  "transition pf r event observe =
     (let observed = observe r;
          current = refreshSessionState pf (state r) observed
      in case reduceSessionState pf current event of
           Inl _ \<Rightarrow> None
         | Inr st \<Rightarrow> Some (with_projection (projectSessionState st) (LifecycleProjection.more (observed\<lparr> state := st \<rparr>))))"

text \<open>\<open>this.transition(record, event)\<close> where the result is ignored.\<close>

definition transition_or_keep :: "platform \<Rightarrow> SessionRecord \<Rightarrow> LifecycleEvent \<Rightarrow> SessionRecord" where
  "transition_or_keep pf r event = nullish (transition pf r event (\<lambda>x. x)) r"

definition exitReason_of :: "int option \<Rightarrow> js_string option \<Rightarrow> ExitReason" where
  "exitReason_of code signal =
     (case code of
        Some n \<Rightarrow> Exit_code n
      | None \<Rightarrow> (case truthy_text signal of Some s \<Rightarrow> Exit_signal s | None \<Rightarrow> Exit_unknown None))"

definition snapshot_reason :: "WorkerSnapshot \<Rightarrow> ExitReason" where
  "snapshot_reason w =
     (if truthy_text (ws_storageFailure w) \<noteq> None \<or> truthy_text (ws_readerFailure w) \<noteq> None \<or> ws_outputIncomplete w then
        Exit_unknown (Some
          (case truthy_text (ws_storageFailure w) of
             Some m \<Rightarrow> js ''Native worker storage failure: '' @ m
           | None \<Rightarrow>
               (case truthy_text (ws_readerFailure w) of
                  Some m \<Rightarrow> js ''Native worker output incomplete: '' @ m
                | None \<Rightarrow> js ''Native worker output incomplete: reader drain deadline elapsed.'')))
      else case ws_exitReason w of
        Some WX_timeout \<Rightarrow> Exit_timeout None
      | Some WX_output_limit \<Rightarrow> Exit_output_limit None
      | Some WX_stopped \<Rightarrow> Exit_stopped
      | Some (WX_signal s) \<Rightarrow> Exit_signal (nullish (ws_exitSignal w) s)
      | _ \<Rightarrow> if ws_terminationConfirmed w then exitReason_of (ws_exitCode w) (ws_exitSignal w) else Exit_unknown None)"

definition snapshot_output :: "WorkerSnapshot \<Rightarrow> ExecOutput option" where
  "snapshot_output w =
     (case (ws_stdout w, ws_stderr w) of
        (Some out, Some err) \<Rightarrow>
          Some \<lparr> eo_stdout = out, eo_stderr = err, eo_stdoutBytes = ws_stdoutBytes w,
                 eo_stderrBytes = ws_stderrBytes w, eo_stdoutTruncated = ws_stdoutTruncated w,
                 eo_stderrTruncated = ws_stderrTruncated w, eo_containment = Some (ws_containment w),
                 eo_termination = ws_termination w \<rparr>
      | _ \<Rightarrow> None)"

text \<open>The observations of \<open>finishNativeVersion\<close>.\<close>

definition observations :: "WorkerSnapshot \<Rightarrow> SessionRecord \<Rightarrow> SessionRecord" where
  "observations w r =
     r\<lparr> pid := ws_pid w,
        nextSequence := ws_nextSequence w,
        firstRetainedSequence := ws_firstRetainedSequence w,
        outputTruncated := ws_outputTruncated w,
        timedOut := ws_timedOut w,
        execOutput := (if mode r = Mode_exec then or_else (snapshot_output w) (execOutput r) else execOutput r),
        exitCode := ws_exitCode w,
        exitSignal := map_option Signal_name (ws_exitSignal w),
        terminationRequested := ws_terminationRequested w,
        terminationConfirmed := ws_terminationConfirmed w,
        directChildExited := Some (ws_directChildExited w),
        containment := Some (ws_containment w),
        terminationResult := ws_termination w,
        storageFailure := ws_storageFailure w,
        diagnostics := (case ws_diagnostics w of None \<Rightarrow> None | Some ds \<Rightarrow> if ds = [] then None else Some ds),
        streamDrain := Some (if truthy_text (ws_readerFailure w) \<noteq> None \<or> ws_outputIncomplete w then Drain_unknown else Drained),
        exitReason := Some (snapshot_reason w),
        exitedAt := ws_exitedAt w,
        outputBytes := (if mode r = Mode_exec then ws_stdoutBytes w + ws_stderrBytes w
                        else ws_nextSequence w - ws_firstRetainedSequence w),
        lineCount := ws_outputLineCount w,
        outputHasPartialLine := ws_outputHasPartialLine w \<rparr>"

text \<open>The update of a record by a snapshot: what \<open>finishNativeVersion\<close> does to it before writing.\<close>

definition absorb_snapshot :: "platform \<Rightarrow> int \<Rightarrow> WorkerSnapshot \<Rightarrow> SessionRecord \<Rightarrow> SessionRecord option" where
  "absorb_snapshot pf now w r =
     (case transition pf r (workerEvent w) (observations w) of
        None \<Rightarrow> None
      | Some r1 \<Rightarrow>
          (let r2 = (if mode r1 = Mode_exec then r1\<lparr> execOutput := or_else (snapshot_output w) (execOutput r1) \<rparr> else r1)
           in Some (r2\<lparr> updatedAt := toISOString now \<rparr>)))"

definition activeStatus :: "'a LifecycleProjection_scheme \<Rightarrow> bool" where
  "activeStatus r = isActiveDaemonStatus (status r)"

definition isTerminal :: "platform \<Rightarrow> 'a LifecycleProjection_scheme \<Rightarrow> bool" where
  "isTerminal pf r \<longleftrightarrow> \<not> activeStatus r \<and> terminalDirectChild pf r"

definition incompatibleWorker :: "'a LifecycleProjection_scheme \<Rightarrow> bool" where
  "incompatibleWorker r =
     (case worker r of None \<Rightarrow> False | Some w \<Rightarrow> wk_protocolVersion w \<noteq> NATIVE_WORKER_PROTOCOL_VERSION)"

datatype receipt_authority = By_worker WorkerReference | By_prestart WorkerPrestartAuthority

definition prestartReceiptAuthority :: "'a LifecycleProjection_scheme \<Rightarrow> receipt_authority option" where
  "prestartReceiptAuthority r =
     (if workerStartAttempted r = Some False \<and>
         (status r = St_starting \<or> status r = St_lost \<or> status r = St_spawn_failed)
      then or_else (map_option By_worker (worker r)) (map_option By_prestart (workerPrestart r))
      else None)"

definition noChildCleanup :: "SpawnCleanup \<Rightarrow> bool" where
  "noChildCleanup c \<longleftrightarrow> sc_terminationConfirmed c \<and> sc_directChildStarted c = Some False"

definition noChildSpawnFailure :: "'a LifecycleProjection_scheme \<Rightarrow> bool" where
  "noChildSpawnFailure r \<longleftrightarrow>
     worker r = None \<and> workerPrestart r = None \<and>
     (case exitReason r of
        Some (Exit_spawn_error _ c) \<Rightarrow> (case c of None \<Rightarrow> False | Some cl \<Rightarrow> noChildCleanup cl)
      | _ \<Rightarrow> False)"

definition postStartNoChildFailureEligible :: "'a LifecycleProjection_scheme \<Rightarrow> bool" where
  "postStartNoChildFailureEligible r \<longleftrightarrow>
     worker r \<noteq> None \<and> workerStartAttempted r = Some True \<and> (status r = St_spawn_failed \<or> status r = St_lost)"

text \<open>Which records \<open>reconcileWorkers\<close> looks after at start-up.\<close>

definition needs_reconciling :: "SessionRecord \<Rightarrow> bool" where
  "needs_reconciling r \<longleftrightarrow>
     \<not> incompatibleWorker r \<and> (legacyTombstone r = None \<or> pendingCleanup r = Some True) \<and>
     (prestartReceiptAuthority r \<noteq> None \<or> postStartNoChildFailureEligible r \<or>
      (lifecycle r = Persistent \<and> (activeStatus r \<or> status r = St_lost)) \<or>
      (pendingCleanup r = Some True \<and> (activeStatus r \<or> status r = St_lost)))"

section \<open>Lemmas on transitions\<close>

lemma project_status_wp [simp]:
  "status (with_projection p s) = status p" "terminationConfirmed (with_projection p s) = terminationConfirmed p"
  "directChildExited (with_projection p s) = directChildExited p" "containment (with_projection p s) = containment p"
  "exitReason (with_projection p s) = exitReason p" "pendingCleanup (with_projection p s) = pendingCleanup p"
  "execOutput (with_projection p s) = execOutput p"
  by (simp_all add: with_projection_def LifecycleProjection.defs)

lemma metadata_more:
  "LifecycleProjection.more (r :: SessionRecord) = LifecycleProjection.more r' \<Longrightarrow>
   session_id r = session_id r' \<and> mode r = mode r' \<and> parentSessionId r = parentSessionId r' \<and>
   ownerProjectDirectory r = ownerProjectDirectory r' \<and> ownerCapabilityHash r = ownerCapabilityHash r' \<and>
   lifecycle r = lifecycle r' \<and> outputBytes r = outputBytes r' \<and> outputLimitBytes r = outputLimitBytes r'"
  by (cases r; cases r') simp

lemma wp_metadata [simp]:
  "session_id (with_projection p (LifecycleProjection.more r)) = session_id r"
  "mode (with_projection p (LifecycleProjection.more r)) = mode r"
  "parentSessionId (with_projection p (LifecycleProjection.more r)) = parentSessionId r"
  "ownerProjectDirectory (with_projection p (LifecycleProjection.more r)) = ownerProjectDirectory r"
  "ownerCapabilityHash (with_projection p (LifecycleProjection.more r)) = ownerCapabilityHash r"
  "lifecycle (with_projection p (LifecycleProjection.more r)) = lifecycle r"
  "outputBytes (with_projection p (LifecycleProjection.more r)) = outputBytes r"
  "outputLimitBytes (with_projection p (LifecycleProjection.more r)) = outputLimitBytes r"
  using metadata_more [of "with_projection p (LifecycleProjection.more r)" r] by simp_all

lemma transition_Some:
  assumes "transition pf r e obs = Some r'"
  obtains st where "reduceSessionState pf (refreshSessionState pf (state r) (obs r)) e = Inr st"
    "state r' = st" "LifecycleProjection.truncate r' = projectSessionState st" "status r' = projected_status st"
    "r' = with_projection (projectSessionState st) (LifecycleProjection.more ((obs r)\<lparr> state := st \<rparr>))"
  using assms by (auto simp: transition_def Let_def split: sum.splits)

lemma observations_metadata [simp]:
  "session_id (observations w r) = session_id r" "mode (observations w r) = mode r"
  "parentSessionId (observations w r) = parentSessionId r"
  "ownerProjectDirectory (observations w r) = ownerProjectDirectory r"
  "ownerCapabilityHash (observations w r) = ownerCapabilityHash r" "lifecycle (observations w r) = lifecycle r"
  "pendingCleanup (observations w r) = pendingCleanup r" "state (observations w r) = state r"
  by (simp_all add: observations_def)

lemma snapshot_reason_not_spawn: "spawn_cleanup_of (Some (snapshot_reason w)) = None"
  by (auto simp: spawn_cleanup_of_def snapshot_reason_def exitReason_of_def
      split: option.splits worker_exit_reason.splits if_splits)

lemma observed_evidence:
  "ev_confirmed (record_evidence (observations w r)) = ws_terminationConfirmed w"
  "ev_directExited (record_evidence (observations w r)) = Some (ws_directChildExited w)"
  "ev_containment (record_evidence (observations w r)) = Some (ws_containment w)"
  "ev_exitReason (record_evidence (observations w r)) = Some (snapshot_reason w)"
  by (simp_all add: record_evidence_def observations_def)

lemma refresh_evidence_sel:
  "state_evidence (refreshSessionState pf st r) =
     (if truthy (pendingCleanup r) \<and> \<not> is_cleaning st \<and> terminal_outcome st = None
      then merge_evidence (state_evidence st) (record_evidence r) else record_evidence r)"
  by (auto simp: refreshSessionState_def Let_def cleaningState_def terminalOrUnreachable_def evidenceFromState_def
      is_cleaning_def terminal_outcome_def split: StateKind.splits CleaningTarget.splits)

lemma refreshed_observations:
  "ev_confirmed (state_evidence (refreshSessionState pf st (observations w r))) = ws_terminationConfirmed w"
  "ev_directExited (state_evidence (refreshSessionState pf st (observations w r))) = Some (ws_directChildExited w)"
  "ev_containment (state_evidence (refreshSessionState pf st (observations w r))) = Some (ws_containment w)"
  "ev_exitReason (state_evidence (refreshSessionState pf st (observations w r))) = Some (snapshot_reason w)"
  unfolding refresh_evidence_sel by (simp_all add: merge_evidence_def observed_evidence or_else_def)

lemma finished_outcome:
  "finished_status (projected_status st) \<Longrightarrow> \<exists>oc. terminal_outcome st = Some oc \<and> projected_status st = outcome_status oc"
  by (auto simp: finished_status_def projected_status_def terminal_outcome_def split: StateKind.splits CleaningTarget.splits)

lemma absorb_Some:
  assumes "absorb_snapshot pf now w r = Some r'"
  obtains st where "reduceSessionState pf (refreshSessionState pf (state r) (observations w r)) (workerEvent w) = Inr st"
    "state r' = st" "status r' = projected_status st" "session_id r' = session_id r"
    "terminationConfirmed r' = ev_confirmed (state_evidence st)"
    "directChildExited r' = ev_directExited (state_evidence st)"
    "containment r' = ev_containment (state_evidence st)" "exitReason r' = ev_exitReason (state_evidence st)"
proof -
  from assms obtain r1 where t: "transition pf r (workerEvent w) (observations w) = Some r1"
    and r': "r' = (if mode r1 = Mode_exec then r1\<lparr> execOutput := or_else (snapshot_output w) (execOutput r1) \<rparr> else r1)
        \<lparr> updatedAt := toISOString now \<rparr>"
    by (auto simp: absorb_snapshot_def Let_def split: option.splits)
  from t obtain st where st: "reduceSessionState pf (refreshSessionState pf (state r) (observations w r)) (workerEvent w) = Inr st"
    "r1 = with_projection (projectSessionState st) (LifecycleProjection.more ((observations w r)\<lparr> state := st \<rparr>))"
    by (rule transition_Some)
  show ?thesis
    by (rule that [OF st(1)]) (simp_all add: r' st(2) projectSessionState_def Let_def)
qed

lemma reduced_evidence: "reduceSessionState pf st e = Inr st' \<Longrightarrow> state_evidence st' = state_evidence st"
  using reduce_evidence [of pf st e st'] by (simp add: evidenceFromState_def)

lemma absorb_evidence:
  assumes "absorb_snapshot pf now w r = Some r'"
  shows "terminationConfirmed r' = ws_terminationConfirmed w" "directChildExited r' = Some (ws_directChildExited w)"
    "containment r' = Some (ws_containment w)" "exitReason r' = Some (snapshot_reason w)"
  using absorb_Some [OF assms] reduced_evidence refreshed_observations by metis+

lemma reduce_running: "reduceSessionState pf st Worker_ready = Inr st' \<Longrightarrow> terminal_outcome st' = None"
  by (auto simp: reduceSessionState_def Let_def terminal_outcome_def split: if_splits StateKind.splits CleaningTarget.splits)

lemma absorb_finished:
  assumes a: "absorb_snapshot pf now w r = Some r'" and f: "finished_status (status r')"
  shows "nativeTerminalProof pf w"
proof -
  let ?cur = "refreshSessionState pf (state r) (observations w r)"
  from a obtain st where st: "reduceSessionState pf ?cur (workerEvent w) = Inr st" "state r' = st"
    "status r' = projected_status st" by (rule absorb_Some)
  from finished_outcome f st(3) obtain oc where oc: "terminal_outcome st = Some oc" by metis
  have ev: "state_evidence st = state_evidence ?cur" by (rule reduced_evidence [OF st(1)])
  have "outcome_proven pf (state_evidence st) oc"
    using reduce_new_outcome [OF st(1) oc] refresh_outcome_proven [of pf "state r" "observations w r" oc] oc by metis
  then have "ws_terminationConfirmed w \<and> ws_directChildExited w \<and>
      (drained_status (co_status (ws_containment w)) \<or> pf = Darwin)"
    by (auto simp: outcome_proven_iff ev refreshed_observations snapshot_reason_not_spawn no_child_cleanup_def)
  moreover have "ws_status w \<noteq> W_running"
    using st(1) oc reduce_running [of pf ?cur st] by (auto simp: workerEvent_def)
  ultimately show ?thesis by (simp add: nativeTerminalProof_def)
qed

section \<open>Outcomes are final\<close>

lemma refresh_payload:
  "map_option tp_outcome (terminalPayload (refreshSessionState pf st r)) = map_option tp_outcome (terminalPayload st)"
  by (auto simp: refreshSessionState_def Let_def terminalPayload_def cleaningState_def terminalOrUnreachable_def
      split: StateKind.splits CleaningTarget.splits)

lemma reduce_payload:
  assumes "reduceSessionState pf st e = Inr st'" and "e \<noteq> Recovered" and "terminalPayload st = Some p"
  shows "map_option tp_outcome (terminalPayload st') = Some (tp_outcome p)"
  using assms
  by (auto simp: reduceSessionState_def terminalPayload_def unreachableState_def Let_def
      split: if_splits StateKind.splits CleaningTarget.splits)

lemma payload_status:
  "terminalPayload st = Some p \<Longrightarrow> projected_status st \<in> {outcome_status (tp_outcome p), St_lost}"
  by (auto simp: terminalPayload_def projected_status_def split: StateKind.splits CleaningTarget.splits)

lemma workerEvent_not_recovered: "workerEvent w \<noteq> Recovered"
  by (simp add: workerEvent_def)

fun absorb_all :: "platform \<Rightarrow> SessionRecord \<Rightarrow> (int \<times> WorkerSnapshot) list \<Rightarrow> SessionRecord" where
  "absorb_all pf r [] = r"
| "absorb_all pf r ((now, w) # ws) = absorb_all pf (nullish (absorb_snapshot pf now w r) r) ws"

lemma absorb_payload:
  fixes pf now w r
  defines "r' \<equiv> nullish (absorb_snapshot pf now w r) r"
  assumes "terminalPayload (state r) = Some p" and "status r = projected_status (state r)"
  shows "\<exists>q. terminalPayload (state r') = Some q \<and> tp_outcome q = tp_outcome p" "status r' = projected_status (state r')"
proof -
  have "(\<exists>q. terminalPayload (state r') = Some q \<and> tp_outcome q = tp_outcome p) \<and> status r' = projected_status (state r')"
  proof (cases "absorb_snapshot pf now w r")
    case None
    then show ?thesis using assms by simp
  next
    case (Some r1)
    from Some obtain st where st: "reduceSessionState pf (refreshSessionState pf (state r) (observations w r)) (workerEvent w) = Inr st"
      "state r1 = st" "status r1 = projected_status st" by (rule absorb_Some)
    obtain p1 where "terminalPayload (refreshSessionState pf (state r) (observations w r)) = Some p1" "tp_outcome p1 = tp_outcome p"
      using refresh_payload [of pf "state r" "observations w r"] assms(2) by auto
    with reduce_payload [OF st(1) workerEvent_not_recovered] st Some show ?thesis by (auto simp: r'_def)
  qed
  then show "\<exists>q. terminalPayload (state r') = Some q \<and> tp_outcome q = tp_outcome p"
    "status r' = projected_status (state r')" by simp_all
qed

lemma absorb_all_payload:
  assumes "terminalPayload (state r) = Some p" and "status r = projected_status (state r)"
  shows "(\<exists>q. terminalPayload (state (absorb_all pf r ws)) = Some q \<and> tp_outcome q = tp_outcome p) \<and>
    status (absorb_all pf r ws) = projected_status (state (absorb_all pf r ws))"
  using assms
proof (induction ws arbitrary: r p)
  case (Cons ev ws)
  obtain now w where ev: "ev = (now, w)" by (cases ev)
  from absorb_payload [OF Cons.prems, where pf = pf and now = now and w = w] obtain q where
    q: "terminalPayload (state (nullish (absorb_snapshot pf now w r) r)) = Some q" "tp_outcome q = tp_outcome p"
    "status (nullish (absorb_snapshot pf now w r) r) = projected_status (state (nullish (absorb_snapshot pf now w r) r))"
    by blast
  from Cons.IH [OF q(1,3)] show ?case by (simp add: ev q(2))
qed simp

section \<open>Properties\<close>

text \<open>
  C3: a session is reported as finished only on proof. If absorbing a snapshot of the worker
  leaves a session exited, timed out or output-limited, the snapshot confirms the termination,
  the exit of the direct child and (except on macOS) the emptiness of its containment; and the
  session then occupies no slot, so that the registry frees it.
\<close>

theorem finished_needs_proof:
  assumes a: "absorb_snapshot pf now w r = Some r'" and f: "finished_status (status r')"
    and g: "registry_inv g"
  shows "nativeTerminalProof pf w \<and> \<not> occupiesSlot pf r' \<and>
    map_get (slotOwnerBySessionId (releaseIfSettled pf g r')) (session_id r) = None"
proof -
  have p: "nativeTerminalProof pf w" by (rule absorb_finished [OF a f])
  have free: "\<not> occupiesSlot pf r'"
    using p absorb_evidence [OF a]
    by (simp add: occupiesSlot_def terminalDirectChild_def containmentDrained_def nativeTerminalProof_def)
  have i: "session_id r' = session_id r" using absorb_Some [OF a] by metis
  have "map_get (slotOwnerBySessionId (releaseActive g (session_id r))) (session_id r) = None"
    using g slots.owner_of_remove [of g "session_id r" "session_id r"] by (simp add: registry_inv_def)
  with p free i show ?thesis by (simp add: releaseIfSettled_def)
qed

text \<open>
  An outcome is final. Once a session has a terminal outcome, no sequence of further
  snapshots, stale or fresh, whatever they claim, brings it back to life or changes the outcome:
  it keeps its status, or is lost with the outcome kept in its state.
\<close>

theorem outcome_is_final:
  assumes "terminalPayload (state r) = Some p" and "status r = projected_status (state r)"
  shows "status (absorb_all pf r ws) \<in> {outcome_status (tp_outcome p), St_lost} \<and>
    (\<exists>q. terminalPayload (state (absorb_all pf r ws)) = Some q \<and> tp_outcome q = tp_outcome p)"
  using absorb_all_payload [OF assms, of pf ws] payload_status by metis

section \<open>A sample session\<close>

definition running_session :: SessionRecord where
  "running_session = sample_record
     \<lparr> status := St_running, pid := 42, state := with_kind (fresh_evidence\<lparr> ev_pid := 42 \<rparr>) Running \<rparr>"

definition exit_snapshot :: WorkerSnapshot where
  "exit_snapshot =
     \<lparr> ws_status = W_exited, ws_pid = 42, ws_stdout = None, ws_stderr = None, ws_stdoutBytes = 0, ws_stderrBytes = 0,
       ws_stdoutTruncated = False, ws_stderrTruncated = False, ws_nextSequence = 3, ws_firstRetainedSequence = 0,
       ws_outputTruncated = False, ws_outputLineCount = 1, ws_outputHasPartialLine = False, ws_exitCode = Some 0,
       ws_exitSignal = None, ws_exitReason = Some WX_code, ws_exitedAt = Some (toISOString 5), ws_timedOut = False,
       ws_terminationRequested = False, ws_terminationConfirmed = True, ws_directChildExited = True,
       ws_storageFailure = None, ws_outputIncomplete = False, ws_readerFailure = None, ws_diagnostics = None,
       ws_containment = drained_report, ws_termination = None \<rparr>"

lemma sample_absorbed:
  "\<exists>r'. absorb_snapshot Linux 6 exit_snapshot running_session = Some r' \<and> status r' = St_exited"
proof -
  let ?ev = "record_evidence (observations exit_snapshot running_session)"
  have cur: "refreshSessionState Linux (state running_session) (observations exit_snapshot running_session) = with_kind ?ev Running"
    by (simp add: refreshSessionState_def running_session_def observations_def sample_record_def Let_def)
  have ev: "workerEvent exit_snapshot = Child_exited" by (simp add: workerEvent_def exit_snapshot_def)
  have "outcome_proven Linux ?ev Exited"
    unfolding outcome_proven_iff by (simp add: observed_evidence exit_snapshot_def drained_report_def drained_status_def)
  then have "reduceSessionState Linux (with_kind ?ev Running) Child_exited = Inr (with_kind ?ev (Terminal Exited))"
    by (simp add: reduceSessionState_def terminalOrUnreachable_def outcome_proven_def evidenceFromState_def)
  then show ?thesis
    by (simp add: absorb_snapshot_def transition_def cur ev Let_def projected_status_def)
qed

theorem finished_needs_proof_witness: "nativeTerminalProof Linux exit_snapshot"
proof -
  obtain r' where "absorb_snapshot Linux 6 exit_snapshot running_session = Some r'" "status r' = St_exited"
    using sample_absorbed by blast
  with finished_needs_proof [OF _ _ new_registry_inv, of Linux 6 exit_snapshot running_session r'] show ?thesis
    by (simp add: finished_status_def)
qed

definition finished_session :: SessionRecord where
  "finished_session = sample_record\<lparr> status := St_exited, state := with_kind exited_evidence (Terminal Exited) \<rparr>"

theorem outcome_is_final_witness:
  "status (absorb_all Linux finished_session [(7, exit_snapshot\<lparr> ws_status := W_running \<rparr>), (8, exit_snapshot\<lparr> ws_status := W_lost \<rparr>)])
     \<in> {St_exited, St_lost}"
proof -
  have "terminalPayload (state finished_session) = Some \<lparr> tp_outcome = Exited, tp_evidence = exited_evidence \<rparr>"
    "status finished_session = projected_status (state finished_session)"
    by (simp_all add: finished_session_def terminalPayload_def projected_status_def)
  from outcome_is_final [OF this, THEN conjunct1] show ?thesis
    by (simp only: TerminalSessionPayload.simps outcome_status.simps)
qed

end
