(* ===== verification/Json.thy ===== *)
theory Json
  imports Types
begin

text \<open>JSON values, as the daemon and the plugin get them from files, requests and services.\<close>

text \<open>
  A value \<open>JSON.parse\<close> may give. A number that is not an integer is \<open>JReal\<close>, its value never
  matters. The entries of an object are in the order \<open>Object.entries\<close> lists them, with
  distinct keys.
\<close>

datatype json =
    JNull
  | JBool bool
  | JNum int
  | JReal
  | JStr js_string
  | JArr "json list"
  | JObj "(js_string \<times> json) list"

text \<open>\<open>value.key\<close>: \<open>None\<close> is \<open>undefined\<close>.\<close>

fun json_get :: "json \<Rightarrow> js_string \<Rightarrow> json option" where
  "json_get (JObj m) k = map_of m k"
| "json_get _ k = None"

fun json_record :: "json \<Rightarrow> (js_string \<times> json) list option" where
  "json_record (JObj m) = Some m"
| "json_record _ = None"

end
