(* ===== verification/Approvals.thy ===== *)
theory Approvals
  imports Types
begin

text \<open>
  The approval service of \<open>src/daemon/server.ts\<close>: requests to run a command, which the owner
  approves once or for the session in a dialog or at the native prompt, and which are
  consumed when the command runs. An operation is a function on the ledger file and the
  in-memory claim tokens; \<open>now\<close> is the instant it runs at, the digest function (SHA-256 over
  the intent) is an argument, and fresh identifiers are arguments too.
\<close>

section \<open>Data\<close>

record OwnerContext =
  ow_parentSessionId :: js_string
  ow_projectDirectory :: js_string
  ow_capability :: js_string

datatype ApprovalStatus =
    Pending | Claimed | Native_fallback | Approved_once | Approved_session
  | Rejected | Cancelled | Expired | Consumed

text \<open>The part of a request that is approved: what the digest is taken over.\<close>

record approval_intent =
  it_command :: js_string
  it_capability :: js_string
  it_workdir :: js_string
  it_reason :: "js_string option"

record ApprovalRequest =
  rq_id :: js_string
  rq_parentSessionId :: js_string
  rq_projectDirectory :: js_string
  rq_digest :: js_string
  rq_command :: js_string
  rq_reason :: "js_string option"
  rq_capability :: js_string
  rq_workdir :: js_string
  rq_status :: ApprovalStatus
  rq_createdAt :: timestamp
  rq_updatedAt :: timestamp
  rq_expiresAt :: timestamp
  rq_uiEligible :: "bool option"
  rq_uiExpiresAt :: "timestamp option"
  rq_claimExpiresAt :: "timestamp option"

record ApprovalGrant =
  gr_id :: js_string
  gr_parentSessionId :: js_string
  gr_projectDirectory :: js_string
  gr_digest :: js_string
  gr_capability :: js_string
  gr_workdir :: js_string
  gr_createdAt :: timestamp
  gr_expiresAt :: timestamp

record ApprovalLedger =
  requests :: "ApprovalRequest list"
  grants :: "ApprovalGrant list"

text \<open>The ledger file and the claim tokens the server keeps in memory.\<close>

record approval_state =
  ledger :: ApprovalLedger
  claimTokens :: "(js_string, js_string) js_map"

datatype approval_result =
    R_request ApprovalRequest
  | R_approved_session
  | R_claim ApprovalRequest js_string
  | R_requests "ApprovalRequest list"
  | R_grants "ApprovalGrant list"
  | R_true
  | R_none

definition MAX_APPROVAL_EXPIRY_SECONDS :: nat where "MAX_APPROVAL_EXPIRY_SECONDS = 3600"
definition MAX_SESSION_GRANT_SECONDS :: nat where "MAX_SESSION_GRANT_SECONDS = 24 * 60 * 60"
definition CLAIM_LEASE_MS :: int where "CLAIM_LEASE_MS = 5000"

section \<open>The ledger\<close>

text \<open>\<open>Date.parse(t) > now\<close> and \<open>Date.parse(t) <= now\<close>; both fail when \<open>t\<close> does not parse.\<close>

definition after :: "timestamp \<Rightarrow> int \<Rightarrow> bool" where
  "after t now = (case date_parse t of None \<Rightarrow> False | Some x \<Rightarrow> x > now)"

definition due :: "timestamp \<Rightarrow> int \<Rightarrow> bool" where
  "due t now = (case date_parse t of None \<Rightarrow> False | Some x \<Rightarrow> x \<le> now)"

definition due_option :: "timestamp option \<Rightarrow> int \<Rightarrow> bool" where
  "due_option t now = (case t of None \<Rightarrow> False | Some x \<Rightarrow> due x now)"

definition after_option :: "timestamp option \<Rightarrow> int \<Rightarrow> bool" where
  "after_option t now = (case t of None \<Rightarrow> False | Some x \<Rightarrow> after x now)"

definition owned_request :: "OwnerContext \<Rightarrow> ApprovalRequest \<Rightarrow> bool" where
  "owned_request ow q \<longleftrightarrow>
     rq_parentSessionId q = ow_parentSessionId ow \<and> rq_projectDirectory q = ow_projectDirectory ow"

definition owned_grant :: "OwnerContext \<Rightarrow> ApprovalGrant \<Rightarrow> bool" where
  "owned_grant ow g \<longleftrightarrow>
     gr_parentSessionId g = ow_parentSessionId ow \<and> gr_projectDirectory g = ow_projectDirectory ow"

definition approvalOwned ::
  "ApprovalLedger \<Rightarrow> OwnerContext \<Rightarrow> js_string \<Rightarrow> (daemon_error, ApprovalRequest) result" where
  "approvalOwned l ow i =
     (case find (\<lambda>q. rq_id q = i) (requests l) of
        None \<Rightarrow> Inl (DaemonError ''Approval request not found.'' E_not_found)
      | Some q \<Rightarrow> if owned_request ow q then Inr q
                 else Inl (DaemonError ''Owner is not authorized.'' E_authorization))"

text \<open>The request is an object of the ledger: mutating it shows in the ledger.\<close>

fun put_request :: "ApprovalRequest \<Rightarrow> ApprovalRequest list \<Rightarrow> ApprovalRequest list" where
  "put_request q [] = []"
| "put_request q (r # rs) = (if rq_id r = rq_id q then q # rs else r # put_request q rs)"

definition set_request :: "approval_state \<Rightarrow> ApprovalRequest \<Rightarrow> approval_state" where
  "set_request st q = st\<lparr> ledger := (ledger st)\<lparr> requests := put_request q (requests (ledger st)) \<rparr> \<rparr>"

definition refreshApproval ::
  "int \<Rightarrow> ApprovalRequest \<Rightarrow> (js_string, js_string) js_map \<Rightarrow> ApprovalRequest \<times> (js_string, js_string) js_map" where
  "refreshApproval now q tokens =
     (if rq_status q \<in> {Pending, Claimed, Native_fallback, Approved_once} \<and> due (rq_expiresAt q) now
      then (q\<lparr> rq_status := Expired, rq_claimExpiresAt := None, rq_updatedAt := toISOString now \<rparr>,
            map_delete tokens (rq_id q))
      else if rq_status q = Pending \<and> rq_uiEligible q = Some True \<and> due_option (rq_uiExpiresAt q) now
      then (q\<lparr> rq_status := Native_fallback, rq_uiEligible := Some False, rq_uiExpiresAt := None,
               rq_updatedAt := toISOString now \<rparr>, tokens)
      else if rq_status q = Claimed \<and> due_option (rq_claimExpiresAt q) now
      then (q\<lparr> rq_status := Native_fallback, rq_uiEligible := Some False, rq_uiExpiresAt := None,
               rq_claimExpiresAt := None, rq_updatedAt := toISOString now \<rparr>,
            map_delete tokens (rq_id q))
      else (q, tokens))"

text \<open>
  \<open>withApprovals\<close>: one update at a time on a freshly read ledger, which is written back only
  when the update returns; the claim tokens are in memory and keep every change. Reading
  discards grants whose expiry does not parse.
\<close>

definition withApprovals ::
  "approval_state \<Rightarrow> (approval_state \<Rightarrow> (daemon_error, 'a) result \<times> approval_state) \<Rightarrow>
   (daemon_error, 'a) result \<times> approval_state" where
  "withApprovals st update =
     (let readLedger = (ledger st)\<lparr> grants :=
            filter (\<lambda>g. date_parse (gr_expiresAt g) \<noteq> None) (grants (ledger st)) \<rparr>
      in case update (st\<lparr> ledger := readLedger \<rparr>) of
           (Inl e, st') \<Rightarrow> (Inl e, st'\<lparr> ledger := readLedger \<rparr>)
         | (Inr x, st') \<Rightarrow> (Inr x, st'))"

text \<open>The common opening of most updates: find the owner's request and refresh it.\<close>

definition with_owned ::
  "int \<Rightarrow> OwnerContext \<Rightarrow> js_string \<Rightarrow> approval_state \<Rightarrow>
   (ApprovalRequest \<Rightarrow> approval_state \<Rightarrow> (daemon_error, 'a) result \<times> approval_state) \<Rightarrow>
   (daemon_error, 'a) result \<times> approval_state" where
  "with_owned now ow i st f =
     (case approvalOwned (ledger st) ow i of
        Inl e \<Rightarrow> (Inl e, st)
      | Inr q \<Rightarrow>
          (case refreshApproval now q (claimTokens st) of
             (q', tokens) \<Rightarrow> f q' ((set_request st q')\<lparr> claimTokens := tokens \<rparr>)))"

section \<open>Operations\<close>

definition new_request ::
  "js_string \<Rightarrow> OwnerContext \<Rightarrow> (approval_intent \<Rightarrow> js_string) \<Rightarrow> int \<Rightarrow> approval_intent \<Rightarrow> nat \<Rightarrow> nat option \<Rightarrow>
   ApprovalRequest" where
  "new_request i ow digest now intent expirySeconds uiLeaseSeconds =
     \<lparr> rq_id = i, rq_parentSessionId = ow_parentSessionId ow, rq_projectDirectory = ow_projectDirectory ow,
       rq_digest = digest intent, rq_command = it_command intent, rq_reason = it_reason intent,
       rq_capability = it_capability intent, rq_workdir = it_workdir intent, rq_status = Pending,
       rq_createdAt = toISOString now, rq_updatedAt = toISOString now,
       rq_expiresAt = toISOString (now + int expirySeconds * 1000),
       rq_uiEligible = map_option (\<lambda>_. True) uiLeaseSeconds,
       rq_uiExpiresAt = map_option (\<lambda>s. toISOString (now + int s * 1000)) uiLeaseSeconds,
       rq_claimExpiresAt = None \<rparr>"

definition push_request :: "approval_state \<Rightarrow> ApprovalRequest \<Rightarrow> approval_state" where
  "push_request st q = st\<lparr> ledger := (ledger st)\<lparr> requests := requests (ledger st) @ [q] \<rparr> \<rparr>"

definition approvalCreate ::
  "(approval_intent \<Rightarrow> js_string) \<Rightarrow> int \<Rightarrow> js_string \<Rightarrow> OwnerContext \<Rightarrow> approval_intent \<Rightarrow> nat \<Rightarrow> nat option \<Rightarrow>
   approval_state \<Rightarrow> (daemon_error, approval_result) result \<times> approval_state" where
  "approvalCreate digest now fresh ow intent expirySeconds uiLeaseSeconds st =
     withApprovals st (\<lambda>s.
       let q = new_request fresh ow digest now intent expirySeconds uiLeaseSeconds
       in (Inr (R_request q), push_request s q))"

definition live_grant ::
  "int \<Rightarrow> OwnerContext \<Rightarrow> js_string \<Rightarrow> js_string \<Rightarrow> js_string \<Rightarrow> ApprovalGrant \<Rightarrow> bool" where
  "live_grant now ow digest cap dir g \<longleftrightarrow>
     owned_grant ow g \<and> gr_digest g = digest \<and> gr_capability g = cap \<and> gr_workdir g = dir \<and>
     after (gr_expiresAt g) now"

definition drop_expired_grants :: "int \<Rightarrow> approval_state \<Rightarrow> approval_state" where
  "drop_expired_grants now s =
     s\<lparr> ledger := (ledger s)\<lparr> grants := filter (\<lambda>g. after (gr_expiresAt g) now) (grants (ledger s)) \<rparr> \<rparr>"

definition approvalPrepare ::
  "(approval_intent \<Rightarrow> js_string) \<Rightarrow> int \<Rightarrow> js_string \<Rightarrow> OwnerContext \<Rightarrow> approval_intent \<Rightarrow> nat \<Rightarrow> nat option \<Rightarrow>
   approval_state \<Rightarrow> (daemon_error, approval_result) result \<times> approval_state" where
  "approvalPrepare digest now fresh ow intent expirySeconds uiLeaseSeconds st =
     withApprovals st (\<lambda>s0.
       let s = drop_expired_grants now s0
       in if list_ex (\<lambda>g. owned_grant ow g \<and> gr_digest g = digest intent \<and>
              gr_capability g = it_capability intent \<and> gr_workdir g = it_workdir intent) (grants (ledger s))
          then (Inr R_approved_session, s)
          else (let q = new_request fresh ow digest now intent expirySeconds uiLeaseSeconds
                in (Inr (R_request q), push_request s q)))"

definition approvalClaim ::
  "int \<Rightarrow> js_string \<Rightarrow> OwnerContext \<Rightarrow> js_string \<Rightarrow> approval_state \<Rightarrow>
   (daemon_error, approval_result) result \<times> approval_state" where
  "approvalClaim now freshToken ow i st =
     (case withApprovals st (\<lambda>s. with_owned now ow i s (\<lambda>q s'.
        if rq_status q = Pending \<and> rq_uiEligible q = Some True \<and> after_option (rq_uiExpiresAt q) now
        then (let q' = q\<lparr> rq_status := Claimed, rq_claimExpiresAt := Some (toISOString (now + CLAIM_LEASE_MS)),
                    rq_updatedAt := toISOString now \<rparr>
              in (Inr (q', Some freshToken), set_request s' q'))
        else (Inr (q, None), s'))) of
        (Inl e, st') \<Rightarrow> (Inl e, st')
      | (Inr (q, None), st') \<Rightarrow> (Inr (R_request q), st')
      | (Inr (q, Some token), st') \<Rightarrow>
          (Inr (R_claim q token), st'\<lparr> claimTokens := map_set (claimTokens st') (rq_id q) token \<rparr>))"

datatype decision = Approve_once | Approve_session | Reject

fun decision_status :: "decision \<Rightarrow> ApprovalStatus" where
  "decision_status Approve_once = Approved_once"
| "decision_status Approve_session = Approved_session"
| "decision_status Reject = Rejected"

definition grant_for :: "js_string \<Rightarrow> OwnerContext \<Rightarrow> int \<Rightarrow> ApprovalRequest \<Rightarrow> ApprovalGrant" where
  "grant_for fresh ow now q =
     \<lparr> gr_id = fresh, gr_parentSessionId = ow_parentSessionId ow,
       gr_projectDirectory = ow_projectDirectory ow, gr_digest = rq_digest q,
       gr_capability = rq_capability q, gr_workdir = rq_workdir q, gr_createdAt = rq_updatedAt q,
       gr_expiresAt = toISOString (now + int MAX_SESSION_GRANT_SECONDS * 1000) \<rparr>"

text \<open>The claim token of the payload is checked where it is used, so it may be an error.\<close>

definition approvalDecide ::
  "int \<Rightarrow> js_string \<Rightarrow> OwnerContext \<Rightarrow> js_string \<Rightarrow> decision \<Rightarrow> (daemon_error, js_string) result \<Rightarrow>
   approval_state \<Rightarrow> (daemon_error, approval_result) result \<times> approval_state" where
  "approvalDecide now fresh ow i d claimToken st =
     (case withApprovals st (\<lambda>s. with_owned now ow i s (\<lambda>q s'.
        case claimToken of
          Inl e \<Rightarrow> (Inl e, s')
        | Inr token \<Rightarrow>
            if map_get (claimTokens s') (rq_id q) \<noteq> Some token
            then (Inl (DaemonError ''Approval claim token is not authorized.'' E_authorization), s')
            else if rq_status q \<noteq> Claimed then (Inr q, s')
            else (let q' = q\<lparr> rq_status := decision_status d, rq_claimExpiresAt := None,
                        rq_updatedAt := toISOString now \<rparr>;
                      s'' = set_request s' q'
                  in (Inr q',
                      if rq_status q' = Approved_session
                      then s''\<lparr> ledger := (ledger s'')\<lparr> grants := grants (ledger s'') @ [grant_for fresh ow now q'] \<rparr> \<rparr>
                      else s'')))) of
        (Inl e, st') \<Rightarrow> (Inl e, st')
      | (Inr q, st') \<Rightarrow>
          (Inr (R_request q),
           if rq_status q \<noteq> Claimed then st'\<lparr> claimTokens := map_delete (claimTokens st') (rq_id q) \<rparr> else st'))"

definition approvalStatus ::
  "int \<Rightarrow> js_string \<Rightarrow> OwnerContext \<Rightarrow> approval_state \<Rightarrow>
   (daemon_error, approval_result) result \<times> approval_state" where
  "approvalStatus now i ow st =
     withApprovals st (\<lambda>s. with_owned now ow i s (\<lambda>q s'. (Inr (R_request q), s')))"

definition approvalConsume ::
  "(approval_intent \<Rightarrow> js_string) \<Rightarrow> int \<Rightarrow> OwnerContext \<Rightarrow> js_string \<Rightarrow> approval_intent \<Rightarrow> approval_state \<Rightarrow>
   (daemon_error, approval_result) result \<times> approval_state" where
  "approvalConsume digest now ow i intent st =
     withApprovals st (\<lambda>s. with_owned now ow i s (\<lambda>q s'.
       if rq_digest q \<noteq> digest intent
       then (Inl (DaemonError ''Approval is not authorized.'' E_authorization), s')
       else if rq_status q \<in> {Rejected, Cancelled, Expired} then (Inr (R_request q), s')
       else if rq_status q = Approved_once
       then (let q' = q\<lparr> rq_status := Consumed, rq_updatedAt := toISOString now \<rparr>
             in (Inr (R_request q'), set_request s' q'))
       else if rq_status q = Consumed
       then (Inl (ValidationError ''Approval has already been consumed.''), s')
       else if list_ex (live_grant now ow (rq_digest q) (rq_capability q) (rq_workdir q)) (grants (ledger s'))
       then (Inr (R_request (q\<lparr> rq_status := Approved_session \<rparr>)), s')
       else (Inr (R_request (q\<lparr> rq_status := Rejected \<rparr>)), s')))"

definition approvalNativeApprove ::
  "int \<Rightarrow> OwnerContext \<Rightarrow> js_string \<Rightarrow> approval_state \<Rightarrow>
   (daemon_error, approval_result) result \<times> approval_state" where
  "approvalNativeApprove now ow i st =
     withApprovals st (\<lambda>s. with_owned now ow i s (\<lambda>q s'.
       if rq_status q = Native_fallback \<or> (rq_status q = Pending \<and> \<not> truthy (rq_uiEligible q))
       then (let q' = q\<lparr> rq_status := Approved_once, rq_updatedAt := toISOString now \<rparr>
             in (Inr (R_request q'), set_request s' q'))
       else (Inr (R_request q), s')))"

definition approvalListGrants ::
  "int \<Rightarrow> OwnerContext \<Rightarrow> approval_state \<Rightarrow> (daemon_error, approval_result) result \<times> approval_state" where
  "approvalListGrants now ow st =
     withApprovals st (\<lambda>s0. let s = drop_expired_grants now s0
       in (Inr (R_grants (filter (owned_grant ow) (grants (ledger s)))), s))"

fun refresh_all ::
  "int \<Rightarrow> ApprovalRequest list \<Rightarrow> (js_string, js_string) js_map \<Rightarrow>
   ApprovalRequest list \<times> (js_string, js_string) js_map" where
  "refresh_all now [] tokens = ([], tokens)"
| "refresh_all now (q # qs) tokens =
     (case refreshApproval now q tokens of (q', tokens') \<Rightarrow>
       (case refresh_all now qs tokens' of (qs', tokens'') \<Rightarrow> (q' # qs', tokens'')))"

definition approvalListRequests ::
  "int \<Rightarrow> OwnerContext \<Rightarrow> approval_state \<Rightarrow> (daemon_error, approval_result) result \<times> approval_state" where
  "approvalListRequests now ow st =
     withApprovals st (\<lambda>s.
       case refresh_all now (requests (ledger s)) (claimTokens s) of
         (qs, tokens) \<Rightarrow>
           (Inr (R_requests (filter (owned_request ow) qs)),
            s\<lparr> ledger := (ledger s)\<lparr> requests := qs \<rparr>, claimTokens := tokens \<rparr>))"

fun remove_first :: "('a \<Rightarrow> bool) \<Rightarrow> 'a list \<Rightarrow> 'a list option" where
  "remove_first p [] = None"
| "remove_first p (x # xs) = (if p x then Some xs else map_option ((#) x) (remove_first p xs))"

definition approvalRevokeGrant ::
  "OwnerContext \<Rightarrow> js_string \<Rightarrow> approval_state \<Rightarrow> (daemon_error, approval_result) result \<times> approval_state" where
  "approvalRevokeGrant ow i st =
     withApprovals st (\<lambda>s.
       case remove_first (\<lambda>g. gr_id g = i \<and> owned_grant ow g) (grants (ledger s)) of
         None \<Rightarrow> (Inl (DaemonError ''Approval grant not found.'' E_not_found), s)
       | Some gs \<Rightarrow> (Inr R_true, s\<lparr> ledger := (ledger s)\<lparr> grants := gs \<rparr> \<rparr>))"

definition approvalCancel ::
  "int \<Rightarrow> OwnerContext \<Rightarrow> js_string \<Rightarrow> approval_state \<Rightarrow>
   (daemon_error, approval_result) result \<times> approval_state" where
  "approvalCancel now ow i st =
     withApprovals st (\<lambda>s. with_owned now ow i s (\<lambda>q s'.
       if rq_status q \<in> {Pending, Claimed, Native_fallback, Approved_once}
       then (let q' = q\<lparr> rq_status := Cancelled, rq_claimExpiresAt := None, rq_updatedAt := toISOString now \<rparr>
             in (Inr (R_request q'),
                 (set_request s' q')\<lparr> claimTokens := map_delete (claimTokens s') (rq_id q) \<rparr>))
       else (Inr (R_request q), s')))"

definition approvalCleanupByParentSession ::
  "OwnerContext \<Rightarrow> js_string \<Rightarrow> approval_state \<Rightarrow> (daemon_error, approval_result) result \<times> approval_state" where
  "approvalCleanupByParentSession ow parent st =
     (if parent \<noteq> ow_parentSessionId ow
      then (Inl (DaemonError ''Owner is not authorized.'' E_authorization), st)
      else withApprovals st (\<lambda>s.
        (Inr R_none,
         s\<lparr> ledger := \<lparr> requests = filter (\<lambda>q. \<not> owned_request ow q) (requests (ledger s)),
                        grants = filter (\<lambda>g. \<not> owned_grant ow g) (grants (ledger s)) \<rparr>,
            claimTokens := foldl (\<lambda>m q. map_delete m (rq_id q)) (claimTokens s)
              (filter (owned_request ow) (requests (ledger s))) \<rparr>)))"

text \<open>One request to the approval service; fresh identifiers and tokens come with it.\<close>

datatype approval_op =
    Op_create js_string approval_intent nat "nat option"
  | Op_prepare js_string approval_intent nat "nat option"
  | Op_claim js_string js_string
  | Op_decide js_string js_string decision "(daemon_error, js_string) result"
  | Op_status js_string
  | Op_consume js_string approval_intent
  | Op_native_approve js_string
  | Op_list_grants
  | Op_list_requests
  | Op_revoke_grant js_string
  | Op_cancel js_string
  | Op_cleanup js_string

fun approval_exec ::
  "(approval_intent \<Rightarrow> js_string) \<Rightarrow> int \<Rightarrow> OwnerContext \<Rightarrow> approval_op \<Rightarrow> approval_state \<Rightarrow>
   (daemon_error, approval_result) result \<times> approval_state" where
  "approval_exec digest now ow (Op_create fresh intent expiry lease) st =
     approvalCreate digest now fresh ow intent expiry lease st"
| "approval_exec digest now ow (Op_prepare fresh intent expiry lease) st =
     approvalPrepare digest now fresh ow intent expiry lease st"
| "approval_exec digest now ow (Op_claim fresh i) st = approvalClaim now fresh ow i st"
| "approval_exec digest now ow (Op_decide fresh i d token) st = approvalDecide now fresh ow i d token st"
| "approval_exec digest now ow (Op_status i) st = approvalStatus now i ow st"
| "approval_exec digest now ow (Op_consume i intent) st = approvalConsume digest now ow i intent st"
| "approval_exec digest now ow (Op_native_approve i) st = approvalNativeApprove now ow i st"
| "approval_exec digest now ow Op_list_grants st = approvalListGrants now ow st"
| "approval_exec digest now ow Op_list_requests st = approvalListRequests now ow st"
| "approval_exec digest now ow (Op_revoke_grant i) st = approvalRevokeGrant ow i st"
| "approval_exec digest now ow (Op_cancel i) st = approvalCancel now ow i st"
| "approval_exec digest now ow (Op_cleanup parent) st = approvalCleanupByParentSession ow parent st"

text \<open>
  \<open>approvalWait\<close>: the request is read at every wake-up; the list gives the instants of the
  wake-ups and the state found there.
\<close>

fun approvalWait ::
  "int \<Rightarrow> js_string \<Rightarrow> OwnerContext \<Rightarrow> (int \<times> approval_state) list \<Rightarrow>
   ((daemon_error, ApprovalRequest) result) option" where
  "approvalWait deadline i ow [] = None"
| "approvalWait deadline i ow ((now, st) # rest) =
     (case fst (approvalStatus now i ow st) of
        Inl e \<Rightarrow> Some (Inl e)
      | Inr (R_request q) \<Rightarrow>
          if rq_status q \<notin> {Pending, Claimed} \<or> now \<ge> deadline then Some (Inr q)
          else approvalWait deadline i ow rest
      | Inr _ \<Rightarrow> None)"

section \<open>Looking at the ledger\<close>

definition req :: "approval_state \<Rightarrow> js_string \<Rightarrow> ApprovalRequest option" where
  "req st i = find (\<lambda>q. rq_id q = i) (requests (ledger st))"

definition refreshed :: "int \<Rightarrow> ApprovalRequest \<Rightarrow> ApprovalRequest" where
  "refreshed now q = fst (refreshApproval now q [])"

lemma refreshApproval_fst [simp]: "fst (refreshApproval now q tokens) = refreshed now q"
  by (simp add: refreshed_def refreshApproval_def)

lemma refreshApproval_pair:
  "refreshApproval now q tokens = (refreshed now q, snd (refreshApproval now q tokens))"
  by (metis prod.collapse refreshApproval_fst)

definition same_identity :: "ApprovalRequest \<Rightarrow> ApprovalRequest \<Rightarrow> bool" where
  "same_identity q q' \<longleftrightarrow>
     rq_id q' = rq_id q \<and> rq_parentSessionId q' = rq_parentSessionId q \<and>
     rq_projectDirectory q' = rq_projectDirectory q \<and> rq_digest q' = rq_digest q \<and>
     rq_command q' = rq_command q \<and> rq_reason q' = rq_reason q \<and>
     rq_capability q' = rq_capability q \<and> rq_workdir q' = rq_workdir q \<and>
     rq_createdAt q' = rq_createdAt q \<and> rq_expiresAt q' = rq_expiresAt q"

lemma refreshed_identity: "same_identity q (refreshed now q)"
  by (simp add: refreshed_def refreshApproval_def same_identity_def)

lemma refreshed_id [simp]: "rq_id (refreshed now q) = rq_id q"
  using refreshed_identity by (simp add: same_identity_def)

lemma find_id: "find (\<lambda>q. rq_id q = i) qs = Some q \<Longrightarrow> rq_id q = i"
  by (induction qs) (auto split: if_splits)

lemma req_id: "req st i = Some q \<Longrightarrow> rq_id q = i"
  unfolding req_def by (rule find_id)

lemma find_put: "find (\<lambda>r. rq_id r = i) (put_request q qs) =
    (if i = rq_id q \<and> find (\<lambda>r. rq_id r = i) qs \<noteq> None then Some q else find (\<lambda>r. rq_id r = i) qs)"
proof (induction qs)
  case (Cons r qs)
  show ?case
  proof (cases "rq_id r = rq_id q")
    case True
    then show ?thesis by (cases "i = rq_id q") simp_all
  next
    case False
    with Cons show ?thesis by (cases "i = rq_id q") auto
  qed
qed simp

lemma put_request_ids [simp]: "map rq_id (put_request q qs) = map rq_id qs"
  by (induction qs) auto

lemma req_set_request [simp]:
  "req (set_request st q) i = (if i = rq_id q \<and> req st i \<noteq> None then Some q else req st i)"
  using find_put [of i q "requests (ledger st)"] by (auto simp: req_def set_request_def)

lemma req_tokens [simp]: "req (st\<lparr> claimTokens := t \<rparr>) i = req st i"
  by (simp add: req_def)

lemma set_request_frame [simp]:
  "claimTokens (set_request st q) = claimTokens st" "grants (ledger (set_request st q)) = grants (ledger st)"
  "map rq_id (requests (ledger (set_request st q))) = map rq_id (requests (ledger st))"
  by (simp_all add: set_request_def)

lemma req_push [simp]:
  "req (push_request st q) i = or_else (req st i) (if i = rq_id q then Some q else None)"
proof -
  have "find P (as @ [q]) = or_else (find P as) (if P q then Some q else None)" for P as
    by (induction as) auto
  then show ?thesis by (auto simp: req_def push_request_def)
qed

definition ids :: "approval_state \<Rightarrow> js_string list" where
  "ids st = map rq_id (requests (ledger st))"

lemma req_None_iff: "req st i = None \<longleftrightarrow> i \<notin> set (ids st)"
  by (auto simp: req_def ids_def find_None_iff)

text \<open>What a read ledger is to a stored one: the grants that cannot expire are gone.\<close>

definition read_state :: "approval_state \<Rightarrow> approval_state" where
  "read_state st = st\<lparr> ledger := (ledger st)\<lparr> grants :=
     filter (\<lambda>g. date_parse (gr_expiresAt g) \<noteq> None) (grants (ledger st)) \<rparr> \<rparr>"

lemma read_state_simps [simp]:
  "req (read_state st) i = req st i" "ids (read_state st) = ids st"
  "claimTokens (read_state st) = claimTokens st" "requests (ledger (read_state st)) = requests (ledger st)"
  by (simp_all add: read_state_def req_def ids_def)

lemma withApprovals_cases:
  assumes "withApprovals st f = (res, st')"
  obtains (err) e s where "f (read_state st) = (Inl e, s)" "res = Inl e" "st' = s\<lparr> ledger := ledger (read_state st) \<rparr>"
    | (ok) x where "f (read_state st) = (Inr x, st')" "res = Inr x"
proof (cases "f (read_state st)")
  case (Pair r s)
  then show ?thesis
    using assms that by (cases r) (auto simp: withApprovals_def read_state_def Let_def)
qed

lemma req_restore [simp]: "req (s\<lparr> ledger := ledger (read_state st) \<rparr>) i = req st i"
  by (simp add: req_def)

text \<open>The state the body of an owner's update starts from.\<close>

definition opened :: "int \<Rightarrow> ApprovalRequest \<Rightarrow> approval_state \<Rightarrow> approval_state" where
  "opened now q st = (set_request (read_state st) (refreshed now q))
     \<lparr> claimTokens := snd (refreshApproval now q (claimTokens st)) \<rparr>"

lemma req_opened [simp]:
  "req st i = Some q \<Longrightarrow> req (opened now q st) j = (if j = i then Some (refreshed now q) else req st j)"
  by (auto simp: opened_def dest: req_id)

lemma ids_opened [simp]: "ids (opened now q st) = ids st"
  by (simp add: opened_def ids_def set_request_def)

lemma owned_update_cases:
  assumes "withApprovals st (\<lambda>s. with_owned now ow i s f) = (res, st')"
  obtains (err) e where "res = Inl e" "\<And>j. req st' j = req st j" "ids st' = ids st"
    | (ok) q x where "req st i = Some q" "owned_request ow q" "f (refreshed now q) (opened now q st) = (Inr x, st')"
        "res = Inr x"
  using assms
proof (cases rule: withApprovals_cases)
  case (err e s)
  then show ?thesis using that(1) [of e] by (simp add: ids_def)
next
  case (ok x)
  then obtain q where q: "req st i = Some q" "owned_request ow q"
    by (auto simp: with_owned_def approvalOwned_def req_def split: option.splits if_splits)
  then have "with_owned now ow i (read_state st) f = f (refreshed now q) (opened now q st)"
    by (simp add: with_owned_def approvalOwned_def req_def opened_def)
       (subst refreshApproval_pair, simp)
  with ok q that(2) show ?thesis by metis
qed

section \<open>What one operation changes\<close>

fun op_target :: "approval_op \<Rightarrow> js_string option" where
  "op_target (Op_claim _ i) = Some i"
| "op_target (Op_decide _ i _ _) = Some i"
| "op_target (Op_consume i _) = Some i"
| "op_target (Op_native_approve i) = Some i"
| "op_target (Op_cancel i) = Some i"
| "op_target _ = None"

text \<open>The change an operation makes to the request it names, after the refresh.\<close>

fun op_change ::
  "(approval_intent \<Rightarrow> js_string) \<Rightarrow> int \<Rightarrow> (js_string, js_string) js_map \<Rightarrow> approval_op \<Rightarrow>
   ApprovalRequest \<Rightarrow> ApprovalRequest \<Rightarrow> bool" where
  "op_change digest now tokens (Op_claim _ _) q q' \<longleftrightarrow>
     rq_status q = Pending \<and> rq_uiEligible q = Some True \<and>
     q' = q\<lparr> rq_status := Claimed, rq_claimExpiresAt := Some (toISOString (now + CLAIM_LEASE_MS)),
             rq_updatedAt := toISOString now \<rparr>"
| "op_change digest now tokens (Op_decide _ i d token) q q' \<longleftrightarrow>
     rq_status q = Claimed \<and> (\<exists>t. token = Inr t \<and> map_get tokens i = Some t) \<and>
     q' = q\<lparr> rq_status := decision_status d, rq_claimExpiresAt := None, rq_updatedAt := toISOString now \<rparr>"
| "op_change digest now tokens (Op_consume _ intent) q q' \<longleftrightarrow>
     rq_status q = Approved_once \<and> rq_digest q = digest intent \<and>
     q' = q\<lparr> rq_status := Consumed, rq_updatedAt := toISOString now \<rparr>"
| "op_change digest now tokens (Op_native_approve _) q q' \<longleftrightarrow>
     (rq_status q = Native_fallback \<or> rq_status q = Pending \<and> \<not> truthy (rq_uiEligible q)) \<and>
     q' = q\<lparr> rq_status := Approved_once, rq_updatedAt := toISOString now \<rparr>"
| "op_change digest now tokens (Op_cancel _) q q' \<longleftrightarrow>
     rq_status q \<in> {Pending, Claimed, Native_fallback, Approved_once} \<and>
     q' = q\<lparr> rq_status := Cancelled, rq_claimExpiresAt := None, rq_updatedAt := toISOString now \<rparr>"
| "op_change digest now tokens _ q q' \<longleftrightarrow> False"

fun op_created :: "approval_op \<Rightarrow> js_string option" where
  "op_created (Op_create i _ _ _) = Some i"
| "op_created (Op_prepare i _ _ _) = Some i"
| "op_created _ = None"

definition effect ::
  "(approval_intent \<Rightarrow> js_string) \<Rightarrow> int \<Rightarrow> OwnerContext \<Rightarrow> approval_op \<Rightarrow> approval_state \<Rightarrow> js_string \<Rightarrow>
   ApprovalRequest \<Rightarrow> bool" where
  "effect digest now ow op st i q' \<longleftrightarrow>
     req st i = Some q' \<or>
     (\<exists>q. req st i = Some q \<and> q' = refreshed now q) \<or>
     (req st i = None \<and> op_created op = Some i \<and> rq_status q' = Pending \<and> owned_request ow q') \<or>
     (\<exists>q. req st i = Some q \<and> owned_request ow q \<and> op_target op = Some i \<and>
        op_change digest now (claimTokens st) op (refreshed now q) q')"

lemma effect_frame: "req st' i = req st i \<Longrightarrow> req st' i = Some q' \<Longrightarrow> effect digest now ow op st i q'"
  by (simp add: effect_def)

lemma refresh_keeps_token:
  "rq_status (refreshed now q) = Claimed \<Longrightarrow> snd (refreshApproval now q tokens) = tokens"
  by (auto simp: refreshed_def refreshApproval_def split: if_splits)

text \<open>An owner's update that leaves the opened state alone, or changes the named request.\<close>

lemma owned_update_effect:
  assumes upd: "withApprovals st (\<lambda>s. with_owned now ow i s f) = (res, st')"
    and body: "\<And>q x s. f (refreshed now q) (opened now q st) = (Inr x, s) \<Longrightarrow> req st i = Some q \<Longrightarrow>
      (\<forall>j. req s j = req (opened now q st) j) \<or>
      (\<exists>q'. op_target op = Some i \<and> op_change digest now (claimTokens st) op (refreshed now q) q' \<and>
        (\<forall>j. req s j = (if j = i then Some q' else req st j)))"
    and get: "req st' j = Some q'"
  shows "effect digest now ow op st j q'"
  using upd
proof (cases rule: owned_update_cases)
  case (err e)
  with get show ?thesis by (simp add: effect_def)
next
  case (ok q x)
  note b = body [OF ok(3,1)]
  show ?thesis
  proof (cases "j = i")
    case True
    with b ok(1) have "req st' i = Some (refreshed now q) \<or>
      (op_target op = Some i \<and> op_change digest now (claimTokens st) op (refreshed now q) q')"
      using get by auto
    with True get ok(1,2) show ?thesis by (auto simp: effect_def)
  next
    case False
    with b ok(1) have "req st' j = req st j" by auto
    then show ?thesis using get by (rule effect_frame)
  qed
qed

lemma opened_set_request:
  "req st i = Some q \<Longrightarrow> rq_id q' = i \<Longrightarrow>
   req (set_request (opened now q st) q') j = (if j = i then Some q' else req st j)"
  by simp

lemma opened_tokens: "claimTokens (opened now q st) = snd (refreshApproval now q (claimTokens st))"
  by (simp add: opened_def)

lemma create_effect:
  "approvalCreate digest now fresh ow intent ex le st = (res, st') \<Longrightarrow> req st' i = Some q' \<Longrightarrow>
   effect digest now ow (Op_create fresh intent ex le) st i q'"
  by (auto simp: approvalCreate_def effect_def new_request_def owned_request_def Let_def
      elim!: withApprovals_cases split: if_splits) (cases "req st i"; auto)+

lemma prepare_effect:
  assumes "approvalPrepare digest now fresh ow intent ex le st = (res, st')" and "req st' i = Some q'"
  shows "effect digest now ow (Op_prepare fresh intent ex le) st i q'"
proof -
  have drop: "req (drop_expired_grants now s) j = req s j" for s j
    by (simp add: req_def drop_expired_grants_def)
  show ?thesis
    using assms unfolding approvalPrepare_def
    by (cases rule: withApprovals_cases)
       (cases "req st i"; auto simp: drop effect_def new_request_def owned_request_def Let_def split: if_splits)+
qed

lemma claim_effect:
  assumes "approvalClaim now fresh ow i st = (res, st')" and "req st' j = Some q'"
  shows "effect digest now ow (Op_claim fresh i) st j q'"
proof -
  obtain r s where upd: "withApprovals st (\<lambda>s. with_owned now ow i s (\<lambda>q s'.
        if rq_status q = Pending \<and> rq_uiEligible q = Some True \<and> after_option (rq_uiExpiresAt q) now
        then (let q' = q\<lparr> rq_status := Claimed, rq_claimExpiresAt := Some (toISOString (now + CLAIM_LEASE_MS)),
                    rq_updatedAt := toISOString now \<rparr>
              in (Inr (q', Some fresh), set_request s' q'))
        else (Inr (q, None), s'))) = (r, s)" (is "withApprovals st ?f = _") by fastforce
  have get: "req s j = Some q'"
    using assms upd by (auto simp: approvalClaim_def split: sum.splits option.splits prod.splits)
  show ?thesis
    by (rule owned_update_effect [OF upd _ get]) (auto simp: Let_def dest: req_id split: if_splits)
qed

lemma decide_effect:
  assumes "approvalDecide now fresh ow i d token st = (res, st')" and "req st' j = Some q'"
  shows "effect digest now ow (Op_decide fresh i d token) st j q'"
proof -
  obtain r s where upd: "withApprovals st (\<lambda>s. with_owned now ow i s (\<lambda>q s'.
        case token of
          Inl e \<Rightarrow> (Inl e, s')
        | Inr token \<Rightarrow>
            if map_get (claimTokens s') (rq_id q) \<noteq> Some token
            then (Inl (DaemonError ''Approval claim token is not authorized.'' E_authorization), s')
            else if rq_status q \<noteq> Claimed then (Inr q, s')
            else (let q' = q\<lparr> rq_status := decision_status d, rq_claimExpiresAt := None,
                        rq_updatedAt := toISOString now \<rparr>;
                      s'' = set_request s' q'
                  in (Inr q',
                      if rq_status q' = Approved_session
                      then s''\<lparr> ledger := (ledger s'')\<lparr> grants := grants (ledger s'') @ [grant_for fresh ow now q'] \<rparr> \<rparr>
                      else s'')))) = (r, s)" by fastforce
  have g: "req (s\<lparr> ledger := (ledger s)\<lparr> grants := gs \<rparr> \<rparr>) k = req s k" for s gs k
    by (simp add: req_def)
  have get: "req s j = Some q'"
    using assms upd by (auto simp: approvalDecide_def split: sum.splits prod.splits if_splits)
  show ?thesis
    by (rule owned_update_effect [OF upd _ get])
       (auto simp: Let_def g opened_tokens refresh_keeps_token dest: req_id split: if_splits sum.splits)
qed

lemma consume_effect:
  "approvalConsume digest now ow i intent st = (res, st') \<Longrightarrow> req st' j = Some q' \<Longrightarrow>
   effect digest now ow (Op_consume i intent) st j q'"
  unfolding approvalConsume_def
  by (erule owned_update_effect) (auto simp: Let_def dest: req_id split: if_splits)

lemma native_effect:
  "approvalNativeApprove now ow i st = (res, st') \<Longrightarrow> req st' j = Some q' \<Longrightarrow>
   effect digest now ow (Op_native_approve i) st j q'"
  unfolding approvalNativeApprove_def
  by (erule owned_update_effect) (auto simp: Let_def dest: req_id split: if_splits)

lemma cancel_effect:
  "approvalCancel now ow i st = (res, st') \<Longrightarrow> req st' j = Some q' \<Longrightarrow>
   effect digest now ow (Op_cancel i) st j q'"
  unfolding approvalCancel_def
  by (erule owned_update_effect) (auto simp: Let_def dest: req_id split: if_splits)

lemma status_effect:
  "approvalStatus now i ow st = (res, st') \<Longrightarrow> req st' j = Some q' \<Longrightarrow>
   effect digest now ow (Op_status i) st j q'"
  unfolding approvalStatus_def
  by (erule owned_update_effect) auto

lemma refresh_all_fst: "fst (refresh_all now qs tokens) = map (refreshed now) qs"
proof (induction qs arbitrary: tokens)
  case (Cons q qs)
  then show ?case by (subst refresh_all.simps, subst refreshApproval_pair) (simp add: case_prod_unfold)
qed simp

lemma find_map_refreshed:
  "find (\<lambda>q. rq_id q = i) (map (refreshed now) qs) = map_option (refreshed now) (find (\<lambda>q. rq_id q = i) qs)"
  by (induction qs) auto

lemma list_effect:
  assumes "approvalListRequests now ow st = (res, st')" and "req st' j = Some q'"
  shows "effect digest now ow Op_list_requests st j q'"
proof -
  obtain qs tokens where all: "refresh_all now (requests (ledger (read_state st))) (claimTokens st) = (qs, tokens)"
    by fastforce
  have qs: "qs = map (refreshed now) (requests (ledger st))"
    using refresh_all_fst [of now "requests (ledger st)" "claimTokens st"] all by simp
  have "st' = (read_state st)\<lparr> ledger := (ledger (read_state st))\<lparr> requests := qs \<rparr>, claimTokens := tokens \<rparr>"
    using assms(1) all unfolding approvalListRequests_def
    by (cases rule: withApprovals_cases) auto
  then have "req st' j = map_option (refreshed now) (req st j)"
    by (simp add: req_def qs find_map_refreshed)
  with assms(2) show ?thesis by (auto simp: effect_def)
qed

lemma list_grants_effect:
  assumes "approvalListGrants now ow st = (res, st')" and "req st' j = Some q'"
  shows "effect digest now ow Op_list_grants st j q'"
proof -
  have drop: "req (drop_expired_grants now s) j = req s j" for s
    by (simp add: req_def drop_expired_grants_def)
  show ?thesis
    using assms unfolding approvalListGrants_def
    by (cases rule: withApprovals_cases) (auto simp: drop effect_def Let_def)
qed

lemma revoke_effect:
  assumes "approvalRevokeGrant ow i st = (res, st')" and "req st' j = Some q'"
  shows "effect digest now ow (Op_revoke_grant i) st j q'"
proof -
  have g: "req (s\<lparr> ledger := (ledger s)\<lparr> grants := gs \<rparr> \<rparr>) k = req s k" for s gs k
    by (simp add: req_def)
  show ?thesis
    using assms unfolding approvalRevokeGrant_def
    by (cases rule: withApprovals_cases) (auto simp: g effect_def split: option.splits)
qed

lemma find_filter_distinct:
  "distinct (map rq_id qs) \<Longrightarrow> find (\<lambda>q. rq_id q = i) (filter P qs) = Some q \<Longrightarrow>
   find (\<lambda>q. rq_id q = i) qs = Some q"
proof (induction qs)
  case (Cons r qs)
  have "rq_id r \<noteq> i" if "find (\<lambda>q. rq_id q = i) (filter P qs) = Some q"
  proof
    assume r: "rq_id r = i"
    have "q \<in> set qs" "rq_id q = i" using that by (auto simp: find_Some_iff dest: nth_mem)
    with r Cons.prems(1) show False by simp (metis imageI)
  qed
  with Cons show ?case by (auto split: if_splits)
qed simp

lemma cleanup_effect:
  assumes "distinct (ids st)" and "approvalCleanupByParentSession ow parent st = (res, st')"
    and "req st' j = Some q'"
  shows "effect digest now ow (Op_cleanup parent) st j q'"
proof (cases "parent = ow_parentSessionId ow")
  case True
  with assms(2) have "requests (ledger st') = filter (\<lambda>q. \<not> owned_request ow q) (requests (ledger st))"
    unfolding approvalCleanupByParentSession_def
    by (auto elim!: withApprovals_cases)
  then have "req st j = Some q'"
    using assms(1,3) find_filter_distinct by (auto simp: req_def ids_def)
  then show ?thesis by (simp add: effect_def)
qed (use assms in \<open>simp add: approvalCleanupByParentSession_def effect_def\<close>)

lemma exec_effect:
  assumes "distinct (ids st)" and "approval_exec digest now ow op st = (res, st')" and "req st' i = Some q'"
  shows "effect digest now ow op st i q'"
  using assms
  by (cases op)
     (auto intro: create_effect prepare_effect claim_effect decide_effect consume_effect native_effect
        cancel_effect status_effect list_effect list_grants_effect revoke_effect cleanup_effect)

section \<open>The life of a request\<close>

fun status_next :: "ApprovalStatus \<Rightarrow> ApprovalStatus set" where
  "status_next Pending = {Claimed, Native_fallback, Approved_once, Cancelled, Expired}"
| "status_next Claimed = {Native_fallback, Approved_once, Approved_session, Rejected, Cancelled, Expired}"
| "status_next Native_fallback = {Approved_once, Cancelled, Expired}"
| "status_next Approved_once = {Consumed, Cancelled, Expired}"
| "status_next _ = {}"

lemma refreshed_status:
  "rq_status (refreshed now q) = rq_status q \<or> rq_status (refreshed now q) \<in> status_next (rq_status q)"
  by (auto simp: refreshed_def refreshApproval_def)

lemma refreshed_cases:
  "(refreshed now q = q \<and> \<not> (rq_status q \<in> {Pending, Claimed, Native_fallback, Approved_once} \<and> due (rq_expiresAt q) now))
    \<or> rq_status (refreshed now q) = Expired \<or> rq_status (refreshed now q) = Native_fallback"
  unfolding refreshed_def refreshApproval_def by (simp del: insert_iff)

lemma refreshed_pending: "rq_status (refreshed now q) = Pending \<Longrightarrow> refreshed now q = q"
  using refreshed_cases [of now q] by (elim disjE) simp_all

lemma refreshed_claimed: "rq_status (refreshed now q) = Claimed \<Longrightarrow> refreshed now q = q"
  using refreshed_cases [of now q] by (elim disjE) simp_all

lemma refreshed_once:
  "rq_status (refreshed now q) = Approved_once \<Longrightarrow> refreshed now q = q \<and> \<not> due (rq_expiresAt q) now"
  using refreshed_cases [of now q] by (elim disjE) simp_all

lemma refreshed_fallback:
  "rq_status (refreshed now q) = Native_fallback \<Longrightarrow>
   rq_status q \<in> {Pending, Claimed, Native_fallback} \<and> \<not> due (rq_expiresAt q) now"
  by (auto simp: refreshed_def refreshApproval_def split: if_splits)

lemma refreshed_live:
  "rq_status (refreshed now q) \<in> {Pending, Claimed} \<Longrightarrow> \<not> due (rq_expiresAt q) now"
  by (auto simp: refreshed_def refreshApproval_def split: if_splits)

lemma op_change_status:
  assumes "op_change digest now tokens op (refreshed now q) q'"
  shows "same_identity (refreshed now q) q' \<and> rq_status q' \<in> status_next (rq_status q)"
proof (cases op)
  case (Op_decide fresh i d token)
  then have r: "refreshed now q = q" using assms by (intro refreshed_claimed) simp
  from assms Op_decide show ?thesis unfolding r by (cases d) (auto simp: same_identity_def)
next
  case (Op_claim fresh i)
  then have r: "refreshed now q = q" using assms by (intro refreshed_pending) simp
  from assms Op_claim show ?thesis unfolding r by (auto simp: same_identity_def)
next
  case (Op_consume i intent)
  then have r: "refreshed now q = q" using assms refreshed_once [of now q] by simp
  from assms Op_consume show ?thesis unfolding r by (auto simp: same_identity_def)
next
  case (Op_native_approve i)
  then have "rq_status q \<in> {Pending, Claimed, Native_fallback}"
    using assms refreshed_status [of now q] by (cases "rq_status q") auto
  with assms Op_native_approve show ?thesis by (auto simp: same_identity_def)
next
  case (Op_cancel i)
  then have "rq_status q \<in> {Pending, Claimed, Native_fallback, Approved_once}"
    using assms refreshed_status [of now q] by (cases "rq_status q") auto
  with assms Op_cancel show ?thesis by (auto simp: same_identity_def)
qed (use assms in auto)

lemma same_identity_trans: "same_identity a b \<Longrightarrow> same_identity b c \<Longrightarrow> same_identity a c"
  by (simp add: same_identity_def)

lemma effect_status:
  assumes "effect digest now ow op st i q'" and "req st i = Some q"
  shows "same_identity q q' \<and> (rq_status q' = rq_status q \<or> rq_status q' \<in> status_next (rq_status q))"
  using assms refreshed_identity [of q now] refreshed_status [of now q]
    op_change_status [of digest now "claimTokens st" op q q']
  by (auto simp: effect_def intro: same_identity_trans) (simp_all add: same_identity_def)

section \<open>Identifiers\<close>

lemma put_ids: "ids (set_request st q) = ids st"
  by (simp add: ids_def set_request_def)

lemma exec_ids:
  assumes "approval_exec digest now ow op st = (res, st')"
  shows "set (ids st') \<subseteq> set (ids st) \<union> set_option (op_created op) \<and>
    (distinct (ids st) \<and> (\<forall>i. op_created op = Some i \<longrightarrow> i \<notin> set (ids st)) \<longrightarrow> distinct (ids st'))"
proof -
  have tok: "ids (s\<lparr> claimTokens := t \<rparr>) = ids s" and gr: "ids (s\<lparr> ledger := (ledger s)\<lparr> grants := gs \<rparr> \<rparr>) = ids s"
    and rest: "ids (s\<lparr> ledger := ledger (read_state st) \<rparr>) = ids st"
    and drop: "ids (drop_expired_grants now s) = ids s"
    and push: "ids (push_request s q) = ids s @ [rq_id q]"
    for s t gs q by (simp_all add: ids_def drop_expired_grants_def push_request_def)
  note frame = tok gr rest drop push put_ids ids_opened
  show ?thesis
  proof (cases op)
    case (Op_create fresh intent ex le)
    with assms show ?thesis
      by (auto simp: approvalCreate_def frame new_request_def Let_def elim!: withApprovals_cases)
  next
    case (Op_prepare fresh intent ex le)
    with assms show ?thesis
      by (auto simp: approvalPrepare_def frame new_request_def Let_def elim!: withApprovals_cases split: if_splits)
  next
    case (Op_claim fresh i)
    with assms have "ids st' = ids st"
      by (auto simp: approvalClaim_def frame Let_def elim!: owned_update_cases
          split: prod.splits sum.splits option.splits if_splits)
    then show ?thesis by simp
  next
    case (Op_decide fresh i d token)
    with assms have "ids st' = ids st"
      by (auto simp: approvalDecide_def frame Let_def elim!: owned_update_cases
          split: prod.splits sum.splits if_splits)
    then show ?thesis by simp
  next
    case (Op_status i)
    with assms have "ids st' = ids st" by (auto simp: approvalStatus_def frame elim!: owned_update_cases)
    then show ?thesis by simp
  next
    case (Op_consume i intent)
    with assms have "ids st' = ids st"
      by (auto simp: approvalConsume_def frame Let_def elim!: owned_update_cases split: if_splits)
    then show ?thesis by simp
  next
    case (Op_native_approve i)
    with assms have "ids st' = ids st"
      by (auto simp: approvalNativeApprove_def frame Let_def elim!: owned_update_cases split: if_splits)
    then show ?thesis by simp
  next
    case Op_list_grants
    with assms have "ids st' = ids st"
      by (auto simp: approvalListGrants_def frame Let_def elim!: withApprovals_cases)
    then show ?thesis by simp
  next
    case Op_list_requests
    have "map rq_id (fst (refresh_all now qs t)) = map rq_id qs" for qs t
      by (simp add: refresh_all_fst o_def)
    with Op_list_requests assms have "ids st' = ids st"
      by (auto simp: approvalListRequests_def frame ids_def case_prod_unfold elim!: withApprovals_cases)
    then show ?thesis by simp
  next
    case (Op_revoke_grant i)
    with assms have "ids st' = ids st"
      by (auto simp: approvalRevokeGrant_def frame elim!: withApprovals_cases split: option.splits)
    then show ?thesis by simp
  next
    case (Op_cancel i)
    with assms have "ids st' = ids st"
      by (auto simp: approvalCancel_def frame Let_def elim!: owned_update_cases split: if_splits)
    then show ?thesis by simp
  next
    case (Op_cleanup parent)
    with assms have "ids st' = ids st \<or> ids st' = map rq_id (filter (\<lambda>q. \<not> owned_request ow q) (requests (ledger st)))"
      by (auto simp: approvalCleanupByParentSession_def frame ids_def elim!: withApprovals_cases split: if_splits)
    then show ?thesis
    proof
      assume eq: "ids st' = map rq_id (filter (\<lambda>q. \<not> owned_request ow q) (requests (ledger st)))"
      show ?thesis unfolding eq by (auto simp: ids_def distinct_map_filter)
    qed simp
  qed
qed

section \<open>Reachable ledgers\<close>

fun consumptions :: "approval_op \<Rightarrow> (daemon_error, approval_result) result \<Rightarrow> js_string list" where
  "consumptions (Op_consume i _) (Inr (R_request q)) = (if rq_status q = Consumed then [i] else [])"
| "consumptions _ _ = []"

text \<open>
  The approval service from an empty ledger on: any owner, any operation at any time, and
  restarts, which lose the claim tokens. New requests get identifiers never used before; the
  last argument lists the consumptions that succeeded.
\<close>

inductive approvals_reach ::
  "(approval_intent \<Rightarrow> js_string) \<Rightarrow> approval_state \<Rightarrow> js_string set \<Rightarrow> js_string list \<Rightarrow> bool"
  for digest :: "approval_intent \<Rightarrow> js_string" where
  approvals_start: "approvals_reach digest \<lparr> ledger = \<lparr> requests = [], grants = [] \<rparr>, claimTokens = [] \<rparr> {} []"
| approvals_op: "approvals_reach digest st used log \<Longrightarrow> set_option (op_created op) \<inter> used = {} \<Longrightarrow>
    approval_exec digest now ow op st = (res, st') \<Longrightarrow>
    approvals_reach digest st' (used \<union> set_option (op_created op)) (consumptions op res @ log)"
| approvals_restart: "approvals_reach digest st used log \<Longrightarrow>
    approvals_reach digest (st\<lparr> claimTokens := [] \<rparr>) used log"

lemma consume_consumed:
  assumes "approvalConsume digest now ow i intent st = (Inr (R_request q), st')" and "rq_status q = Consumed"
  shows "\<exists>q0. req st i = Some q0 \<and> owned_request ow q0 \<and> rq_status q0 = Approved_once \<and>
    rq_digest q0 = digest intent \<and> \<not> due (rq_expiresAt q0) now \<and> req st' i = Some q"
  using assms(1) unfolding approvalConsume_def
proof (cases rule: owned_update_cases)
  case (ok q0 x)
  let ?r = "refreshed now q0"
  have once: "rq_status ?r = Approved_once" and dig: "rq_digest ?r = digest intent"
    and q: "q = ?r\<lparr> rq_status := Consumed, rq_updatedAt := toISOString now \<rparr>"
    and st': "st' = set_request (opened now q0 st) q"
    using ok assms(2) by (auto simp: Let_def split: if_splits)
  have r: "?r = q0" "\<not> due (rq_expiresAt q0) now" using refreshed_once [OF once] by auto
  have "rq_id q = i" using q r(1) req_id [OF ok(1)] by simp
  then have "req st' i = Some q" unfolding st' using ok(1) by simp
  with ok once dig r show ?thesis by auto
qed simp

definition log_ok :: "approval_state \<Rightarrow> js_string set \<Rightarrow> js_string list \<Rightarrow> bool" where
  "log_ok st used log \<longleftrightarrow>
     distinct (ids st) \<and> set (ids st) \<subseteq> used \<and> distinct log \<and> set log \<subseteq> used \<and>
     (\<forall>i\<in>set log. \<forall>q. req st i = Some q \<longrightarrow> rq_status q = Consumed)"

lemma consumed_stays:
  "effect digest now ow op st i q' \<Longrightarrow> (\<forall>q. req st i = Some q \<longrightarrow> rq_status q = Consumed) \<Longrightarrow>
   req st i \<noteq> None \<or> op_created op \<noteq> Some i \<Longrightarrow> rq_status q' = Consumed"
  using effect_status [of digest now ow op st i q'] by (cases "req st i") (fastforce simp: effect_def)+

lemma consumptions_spec:
  assumes "approval_exec digest now ow op st = (res, st')" and "consumptions op res = i # rest"
  shows "rest = [] \<and> (\<exists>q. req st i = Some q \<and> rq_status q = Approved_once) \<and>
    (\<exists>q. req st' i = Some q \<and> rq_status q = Consumed)"
proof -
  obtain intent q where op: "op = Op_consume i intent" and res: "res = Inr (R_request q)" "rq_status q = Consumed"
    and "rest = []"
    using assms(2) by (cases "(op, res)" rule: consumptions.cases) (auto split: if_splits)
  with assms(1) consume_consumed [of digest now ow i intent st q st'] show ?thesis by auto
qed

lemma reach_log: "approvals_reach digest st used log \<Longrightarrow> log_ok st used log"
proof (induction rule: approvals_reach.induct)
  case approvals_start
  show ?case by (simp add: log_ok_def ids_def)
next
  case (approvals_op st used log op now ow res st')
  have inv: "distinct (ids st)" "set (ids st) \<subseteq> used" "distinct log" "set log \<subseteq> used"
    "\<forall>i\<in>set log. \<forall>q. req st i = Some q \<longrightarrow> rq_status q = Consumed"
    using approvals_op.IH by (simp_all add: log_ok_def)
  note ids = exec_ids [OF approvals_op.hyps(3)]
  have d: "distinct (ids st')" "set (ids st') \<subseteq> used \<union> set_option (op_created op)"
    using ids inv(1,2) approvals_op.hyps(2) by auto
  have stays: "rq_status q' = Consumed" if "i \<in> set log" "req st' i = Some q'" for i q'
  proof (rule consumed_stays [OF exec_effect [OF inv(1) approvals_op.hyps(3) that(2)]])
    show "\<forall>q. req st i = Some q \<longrightarrow> rq_status q = Consumed" using inv(5) that(1) by blast
    show "req st i \<noteq> None \<or> op_created op \<noteq> Some i" using that(1) inv(4) approvals_op.hyps(2) by auto
  qed
  show ?case
  proof (cases "consumptions op res")
    case Nil
    with d inv stays show ?thesis by (auto simp: log_ok_def)
  next
    case (Cons i rest)
    from consumptions_spec [OF approvals_op.hyps(3) Cons] obtain q q'
      where c: "rest = []" "req st i = Some q" "rq_status q = Approved_once" "req st' i = Some q'" "rq_status q' = Consumed"
      by blast
    have "i \<notin> set log" using c(2,3) inv(5) by fastforce
    moreover have "i \<in> used" using c(2) inv(2) req_None_iff [of st i] by auto
    ultimately show ?thesis using d inv stays Cons c by (auto simp: log_ok_def)
  qed
next
  case (approvals_restart st used log)
  then show ?case by (simp add: log_ok_def ids_def)
qed

lemma status_shape:
  "approvalStatus now i ow st = (r, s') \<Longrightarrow> (\<exists>e. r = Inl e) \<or> (\<exists>q. r = Inr (R_request q))"
  unfolding approvalStatus_def by (auto elim!: owned_update_cases)

section \<open>Properties\<close>

text \<open>
  C16: an approval given once is used once. Over any history of the approval service, with any
  mixture of owners, operations and restarts, each request is consumed successfully at most
  once.
\<close>

theorem approval_consumed_at_most_once:
  assumes "approvals_reach digest st used log"
  shows "distinct log"
  using reach_log [OF assms] by (simp add: log_ok_def)

text \<open>
  Consuming needs a live approval of the same intent. A consumption succeeds only for a
  request of the same owner that was approved once, has not expired, and was made for an
  intent with the same digest; it is then marked as consumed.
\<close>

theorem consume_needs_live_approval:
  assumes "approvalConsume digest now ow i intent st = (Inr (R_request q), st')"
    and "rq_status q = Consumed"
  shows "\<exists>q0. req st i = Some q0 \<and> owned_request ow q0 \<and> rq_status q0 = Approved_once \<and>
    rq_digest q0 = digest intent \<and> \<not> due (rq_expiresAt q0) now \<and> req st' i = Some q"
  using assms by (rule consume_consumed)

text \<open>
  C37: who may approve. A request becomes approved only by a decision of its owner that carries
  the claim token handed out for it while the claim is live, or by the native prompt of its
  owner, and then only if the request was never offered to the approval dialog or the dialog
  let it lapse. An approval for the session only comes from such a decision.
\<close>

theorem approval_needs_authority:
  assumes "distinct (ids st)" and "approval_exec digest now ow op st = (res, st')"
    and "req st' i = Some q'" and "rq_status q' \<in> {Approved_once, Approved_session}"
    and "\<forall>q. req st i = Some q \<longrightarrow> rq_status q \<noteq> rq_status q'"
  shows "\<exists>q. req st i = Some q \<and> owned_request ow q \<and> \<not> due (rq_expiresAt q) now \<and>
    ((\<exists>fresh d t. op = Op_decide fresh i d (Inr t) \<and> map_get (claimTokens st) i = Some t \<and>
        rq_status q = Claimed \<and> rq_status q' = decision_status d \<and> d \<noteq> Reject) \<or>
     (op = Op_native_approve i \<and> rq_status q' = Approved_once \<and>
        (rq_status (refreshed now q) = Native_fallback \<or>
         (rq_status q = Pending \<and> \<not> truthy (rq_uiEligible q)))))"
proof -
  have keep: "rq_status q = rq_status (refreshed now q)"
    if "rq_status (refreshed now q) \<in> {Approved_once, Approved_session}" for q
    using refreshed_cases [of now q] that by auto
  have "\<not> (\<exists>q. req st i = Some q \<and> q' = refreshed now q)" "req st i \<noteq> Some q'"
    using keep assms(4,5) by metis+
  with exec_effect [OF assms(1-3)] assms(4) obtain q where
    q: "req st i = Some q" "owned_request ow q" "op_target op = Some i"
      "op_change digest now (claimTokens st) op (refreshed now q) q'"
    by (auto simp: effect_def)
  from q(3,4) assms(4) show ?thesis
  proof (cases op)
    case (Op_decide fresh j d token)
    then have c: "rq_status (refreshed now q) = Claimed" using q(4) by simp
    then have r: "refreshed now q = q" by (rule refreshed_claimed)
    have live: "\<not> due (rq_expiresAt q) now" using refreshed_live [of now q] c by simp
    have "d \<noteq> Reject" using q(4) assms(4) Op_decide by auto
    then show ?thesis using q Op_decide c r live by auto
  next
    case (Op_native_approve j)
    then have "\<not> due (rq_expiresAt q) now"
      using q(4) refreshed_fallback [of now q] refreshed_live [of now q] by auto
    moreover have "rq_status (refreshed now q) = Pending \<Longrightarrow> refreshed now q = q" by (rule refreshed_pending)
    ultimately show ?thesis using q Op_native_approve by auto
  qed auto
qed

text \<open>
  The life of a request. No operation changes what a request asks for, whose it is or when
  it expires; its status moves along the allowed steps only, and a request that is approved
  for the session, rejected, cancelled, expired or consumed stays so.
\<close>

theorem request_life_cycle:
  assumes "distinct (ids st)" and "approval_exec digest now ow op st = (res, st')"
    and "req st i = Some q" and "req st' i = Some q'"
  shows "same_identity q q' \<and>
    (rq_status q' = rq_status q \<or> rq_status q' \<in> status_next (rq_status q)) \<and>
    (rq_status q \<in> {Approved_session, Rejected, Cancelled, Expired, Consumed} \<longrightarrow> rq_status q' = rq_status q)"
  using effect_status [OF exec_effect [OF assms(1,2,4)] assms(3)] by auto

text \<open>
  One owner cannot touch another owner's request. An operation of one owner leaves the
  requests of every other owner as they are, except that a request past one of its deadlines
  may be marked so.
\<close>

theorem request_owner_isolation:
  assumes "distinct (ids st)" and "approval_exec digest now ow op st = (res, st')"
    and "req st i = Some q" and "\<not> owned_request ow q" and "req st' i = Some q'"
  shows "q' = q \<or> q' = refreshed now q"
  using exec_effect [OF assms(1,2,5)] assms(3,4) by (auto simp: effect_def)

text \<open>
  Skipping the prompt needs a live grant. A preparation answers that the session is
  approved only when the ledger holds a grant of the same owner for the same digest,
  capability and working directory that has not expired.
\<close>

theorem prepare_approved_needs_grant:
  assumes "approvalPrepare digest now fresh ow intent ex le st = (Inr R_approved_session, st')"
  shows "\<exists>g\<in>set (grants (ledger st)).
    live_grant now ow (digest intent) (it_capability intent) (it_workdir intent) g"
  using assms unfolding approvalPrepare_def
  by (cases rule: withApprovals_cases)
     (auto simp: drop_expired_grants_def read_state_def list_ex_iff live_grant_def Let_def split: if_splits)

text \<open>
  Waiting for a decision ends. When the instants of the wake-ups reach the deadline, the
  wait has answered by the first wake-up at or after it; an answer before the deadline is a
  request that is no longer open.
\<close>

theorem approval_wait_ends:
  assumes "(now, s) \<in> set obs" and "deadline \<le> now"
  shows "\<exists>r. approvalWait deadline i ow obs = Some r"
  using assms(1)
proof (induction obs)
  case (Cons o1 obs)
  obtain t st where o1: "o1 = (t, st)" by (cases o1)
  have shape: "fst (approvalStatus t i ow st) = Inl e \<Longrightarrow> ?case" for e by (simp add: o1)
  have "(\<exists>e. fst (approvalStatus t i ow st) = Inl e) \<or> (\<exists>q. fst (approvalStatus t i ow st) = Inr (R_request q))"
    using status_shape [of t i ow st] by (metis prod.collapse)
  then show ?case
  proof
    assume "\<exists>q. fst (approvalStatus t i ow st) = Inr (R_request q)"
    then obtain q where q: "fst (approvalStatus t i ow st) = Inr (R_request q)" by blast
    show ?thesis
    proof (cases "t \<ge> deadline")
      case False
      with Cons.prems assms(2) o1 have "(now, s) \<in> set obs" by auto
      with q o1 Cons.IH show ?thesis by simp
    qed (simp add: o1 q)
  qed (use shape in blast)
qed simp

subsection \<open>Instances\<close>

definition sample_owner :: OwnerContext where
  "sample_owner = \<lparr> ow_parentSessionId = js ''ses_1'', ow_projectDirectory = js ''/w'', ow_capability = js ''ab'' \<rparr>"

definition other_owner :: OwnerContext where
  "other_owner = \<lparr> ow_parentSessionId = js ''ses_2'', ow_projectDirectory = js ''/w'', ow_capability = js ''cd'' \<rparr>"

definition sample_intent :: approval_intent where
  "sample_intent = \<lparr> it_command = js ''make'', it_capability = js ''bash'', it_workdir = js ''/w'', it_reason = None \<rparr>"

definition sample_request :: ApprovalRequest where
  "sample_request = new_request (js ''r1'') sample_owner it_command 0 sample_intent 60 None"

definition sample_approvals :: "ApprovalStatus \<Rightarrow> approval_state" where
  "sample_approvals s =
     \<lparr> ledger = \<lparr> requests = [sample_request\<lparr> rq_status := s, rq_updatedAt := toISOString 0 \<rparr>],
         grants = [grant_for (js ''g1'') sample_owner 0 sample_request] \<rparr>, claimTokens = [] \<rparr>"

lemmas sample_approval_simps =
  sample_approvals_def sample_request_def new_request_def sample_owner_def other_owner_def sample_intent_def
  withApprovals_def with_owned_def approvalOwned_def owned_request_def refreshApproval_def set_request_def
  due_def after_def req_def ids_def Let_def

lemma sample_ids: "distinct (ids (sample_approvals s))"
  by (simp add: sample_approvals_def ids_def)

lemma sample_consume:
  "approvalConsume it_command 0 sample_owner (js ''r1'') sample_intent (sample_approvals Approved_once) =
     (Inr (R_request (sample_request\<lparr> rq_status := Consumed, rq_updatedAt := toISOString 0 \<rparr>)),
      sample_approvals Consumed)"
  by (simp add: approvalConsume_def sample_approval_simps grant_for_def)

lemma sample_native:
  "approvalNativeApprove 0 sample_owner (js ''r1'') (sample_approvals Pending) =
     (Inr (R_request (sample_request\<lparr> rq_status := Approved_once, rq_updatedAt := toISOString 0 \<rparr>)),
      sample_approvals Approved_once)"
  by (simp add: approvalNativeApprove_def sample_approval_simps grant_for_def)

lemma sample_req: "req (sample_approvals s) (js ''r1'') =
    Some (sample_request\<lparr> rq_status := s, rq_updatedAt := toISOString 0 \<rparr>)"
  by (simp add: sample_approval_simps)

definition sample_history :: "approval_state \<times> js_string list" where
  "sample_history =
     (let s0 = \<lparr> ledger = \<lparr> requests = [], grants = [] \<rparr>, claimTokens = [] \<rparr>;
          (r1, s1) = approval_exec it_command 0 sample_owner (Op_create (js ''r1'') sample_intent 60 None) s0;
          (r2, s2) = approval_exec it_command 0 sample_owner (Op_native_approve (js ''r1'')) s1;
          (r3, s3) = approval_exec it_command 0 sample_owner (Op_consume (js ''r1'') sample_intent) s2
      in (s3, consumptions (Op_consume (js ''r1'') sample_intent) r3))"

lemma sample_approvals_reach:
  "approvals_reach it_command (fst sample_history) {js ''r1''} (snd sample_history)"
proof -
  let ?s0 = "\<lparr> ledger = \<lparr> requests = [], grants = [] \<rparr>, claimTokens = [] \<rparr>"
  obtain r1 s1 where e1: "approval_exec it_command 0 sample_owner (Op_create (js ''r1'') sample_intent 60 None) ?s0 = (r1, s1)"
    by fastforce
  obtain r2 s2 where e2: "approval_exec it_command 0 sample_owner (Op_native_approve (js ''r1'')) s1 = (r2, s2)"
    by fastforce
  obtain r3 s3 where e3: "approval_exec it_command 0 sample_owner (Op_consume (js ''r1'') sample_intent) s2 = (r3, s3)"
    by fastforce
  have h: "sample_history = (s3, consumptions (Op_consume (js ''r1'') sample_intent) r3)"
    using e1 e2 e3 by (simp add: sample_history_def Let_def del: approval_exec.simps)
  have a1: "approvals_reach it_command s1 {js ''r1''} []"
    using approvals_op [OF approvals_start _ e1] by simp
  have a2: "approvals_reach it_command s2 {js ''r1''} []"
    using approvals_op [OF a1 _ e2] by simp
  have "approvals_reach it_command s3 {js ''r1''} (consumptions (Op_consume (js ''r1'') sample_intent) r3)"
    using approvals_op [OF a2 _ e3] by simp
  then show ?thesis by (simp add: h)
qed

theorem approval_consumed_at_most_once_witness: "distinct (snd sample_history)"
  by (rule approval_consumed_at_most_once [OF sample_approvals_reach])

theorem consume_needs_live_approval_witness:
  "\<exists>q0. req (sample_approvals Approved_once) (js ''r1'') = Some q0 \<and> rq_status q0 = Approved_once"
  using consume_needs_live_approval [OF sample_consume] by auto

theorem approval_needs_authority_witness:
  "\<exists>q. req (sample_approvals Pending) (js ''r1'') = Some q \<and> owned_request sample_owner q"
  using approval_needs_authority [OF sample_ids, of it_command 0 sample_owner "Op_native_approve (js ''r1'')" Pending
      _ "sample_approvals Approved_once" "js ''r1''" "sample_request\<lparr> rq_status := Approved_once, rq_updatedAt := toISOString 0 \<rparr>"]
    sample_native sample_req [of Pending] sample_req [of Approved_once] by auto

theorem request_life_cycle_witness:
  "same_identity (sample_request\<lparr> rq_status := Approved_once, rq_updatedAt := toISOString 0 \<rparr>)
     (sample_request\<lparr> rq_status := Consumed, rq_updatedAt := toISOString 0 \<rparr>)"
  using request_life_cycle [OF sample_ids, of it_command 0 sample_owner "Op_consume (js ''r1'') sample_intent" Approved_once
      _ "sample_approvals Consumed" "js ''r1''"]
    sample_consume sample_req [of Approved_once] sample_req [of Consumed] by auto

theorem request_owner_isolation_witness:
  "sample_request\<lparr> rq_status := Pending, rq_updatedAt := toISOString 0 \<rparr> \<in>
     {sample_request\<lparr> rq_status := Pending, rq_updatedAt := toISOString 0 \<rparr>,
      refreshed 0 (sample_request\<lparr> rq_status := Pending, rq_updatedAt := toISOString 0 \<rparr>)}"
proof -
  have "approval_exec it_command 0 other_owner (Op_cancel (js ''r1'')) (sample_approvals Pending) =
      (Inl (DaemonError ''Owner is not authorized.'' E_authorization), sample_approvals Pending)"
    by (simp add: approvalCancel_def sample_approval_simps grant_for_def)
  moreover have "\<not> owned_request other_owner (sample_request\<lparr> rq_status := Pending, rq_updatedAt := toISOString 0 \<rparr>)"
    by (simp add: sample_approval_simps)
  ultimately show ?thesis
    using request_owner_isolation [OF sample_ids _ sample_req _ sample_req, of it_command 0 other_owner] by blast
qed

theorem prepare_approved_needs_grant_witness:
  "\<exists>g\<in>set (grants (ledger (sample_approvals Pending))). live_grant 0 sample_owner (js ''make'') (js ''bash'') (js ''/w'') g"
proof -
  obtain st' where "approvalPrepare it_command 0 (js ''r2'') sample_owner sample_intent 60 None (sample_approvals Pending) =
      (Inr R_approved_session, st')"
    by (simp add: approvalPrepare_def sample_approval_simps grant_for_def drop_expired_grants_def owned_grant_def
        MAX_SESSION_GRANT_SECONDS_def)
  from prepare_approved_needs_grant [OF this] show ?thesis by (simp add: sample_intent_def)
qed

theorem approval_wait_ends_witness:
  "\<exists>r. approvalWait 5 (js ''r1'') sample_owner [(0, sample_approvals Pending), (6, sample_approvals Pending)] = Some r"
  by (rule approval_wait_ends [where now = 6 and s = "sample_approvals Pending"]) simp_all

end
