(* ===== verification/Rpc.thy ===== *)
theory Rpc
  imports Session_Registry Journal Json Approvals
begin

text \<open>
  The RPC server of the daemon (daemon/server.ts): the validation of payload fields, the
  parsing of spawn, exec and wait requests, the derivation and checking of the owner and
  approval capabilities, the input budget, the dispatch of a request to a call of the
  supervisor or of the approval service, the classification of failures, and the handler of
  an HTTP request. SHA-256, \<open>realpath\<close>, NFC normalization, UTF-8 decoding and JSON parsing
  are parameters; time and fresh identifiers are arguments.
\<close>

section \<open>Limits of a request\<close>

definition MAX_REQUEST_BYTES :: nat where "MAX_REQUEST_BYTES = 1024 * 1024"
definition MAX_ID_LENGTH :: nat where "MAX_ID_LENGTH = 128"
definition MAX_STRING_LENGTH :: nat where "MAX_STRING_LENGTH = 16 * 1024"
definition MAX_COMMAND_LENGTH :: nat where "MAX_COMMAND_LENGTH = 4096"
definition MAX_ARGUMENTS :: nat where "MAX_ARGUMENTS = 256"
definition MAX_ENVIRONMENT_ENTRIES :: nat where "MAX_ENVIRONMENT_ENTRIES = 128"
definition MAX_PAGE_SIZE :: nat where "MAX_PAGE_SIZE = 10000"
definition MAX_INPUT_BYTES :: nat where "MAX_INPUT_BYTES = 64 * 1024"
definition MAX_INPUT_BYTES_PER_MINUTE :: nat where "MAX_INPUT_BYTES_PER_MINUTE = 256 * 1024"
definition MIN_UI_LEASE_SECONDS :: nat where "MIN_UI_LEASE_SECONDS = 2"
definition MAX_UI_LEASE_SECONDS :: nat where "MAX_UI_LEASE_SECONDS = 5"

datatype rpc_error = Invalid js_string | Failed daemon_error

type_synonym payload = "(js_string \<times> json) list"

definition quoted :: "js_string \<Rightarrow> js_string" where
  "quoted s = [39] @ s @ [39]"

definition field_error :: "js_string \<Rightarrow> js_string \<Rightarrow> rpc_error" where
  "field_error key text = Invalid (js ''RPC field '' @ quoted key @ js '' '' @ text)"

section \<open>Payload fields\<close>

definition objectPayload :: "json option \<Rightarrow> (rpc_error, payload) result" where
  "objectPayload p =
     (case p of Some (JObj m) \<Rightarrow> Inr m | _ \<Rightarrow> Inl (Invalid (js ''RPC payload must be an object.'')))"

definition onlyFields :: "payload \<Rightarrow> js_string list \<Rightarrow> (rpc_error, unit) result" where
  "onlyFields m names =
     (case find (\<lambda>k. k \<notin> set names) (map fst m) of
        Some k \<Rightarrow> Inl (field_error k (js ''is not supported.''))
      | None \<Rightarrow> Inr ())"

definition requiredString :: "payload \<Rightarrow> js_string \<Rightarrow> (rpc_error, js_string) result" where
  "requiredString m key =
     (case map_of m key of
        Some (JStr s) \<Rightarrow>
          if s = [] \<or> length s > MAX_STRING_LENGTH
          then Inl (field_error key (js ''must be a non-empty string within the size limit.'')) else Inr s
      | _ \<Rightarrow> Inl (field_error key (js ''must be a non-empty string within the size limit.'')))"

definition optionalString :: "payload \<Rightarrow> js_string \<Rightarrow> (rpc_error, js_string option) result" where
  "optionalString m key =
     (case map_of m key of
        None \<Rightarrow> Inr None
      | Some (JStr s) \<Rightarrow>
          if length s > MAX_STRING_LENGTH
          then Inl (field_error key (js ''must be a string within the size limit.'')) else Inr (Some s)
      | _ \<Rightarrow> Inl (field_error key (js ''must be a string within the size limit.'')))"

text \<open>\<open>JNum\<close> is an integer, so \<open>Number.isInteger\<close> holds of it.\<close>

definition optionalNonnegativeInteger :: "payload \<Rightarrow> js_string \<Rightarrow> (rpc_error, nat option) result" where
  "optionalNonnegativeInteger m key =
     (case map_of m key of
        None \<Rightarrow> Inr None
      | Some (JNum n) \<Rightarrow>
          if n < 0 then Inl (field_error key (js ''must be a non-negative integer.''))
          else if n > int MAX_PAGE_SIZE then Inl (field_error key (js ''exceeds the size limit.''))
          else Inr (Some (nat n))
      | _ \<Rightarrow> Inl (field_error key (js ''must be a non-negative integer.'')))"

definition requiredPositiveInteger :: "payload \<Rightarrow> js_string \<Rightarrow> (rpc_error, nat) result" where
  "requiredPositiveInteger m key =
     and_then (optionalNonnegativeInteger m key) (\<lambda>v.
       case v of
         Some n \<Rightarrow> if n = 0 then Inl (field_error key (js ''must be positive.'')) else Inr n
       | None \<Rightarrow> Inl (field_error key (js ''must be positive.'')))"

definition requiredBoundedInteger :: "payload \<Rightarrow> js_string \<Rightarrow> nat \<Rightarrow> (rpc_error, nat) result" where
  "requiredBoundedInteger m key maximum =
     (case map_of m key of
        Some (JNum n) \<Rightarrow>
          if \<not> isSafeInteger n \<or> n < 1 \<or> n > int maximum
          then Inl (field_error key (js ''must be an integer from 1 to '' @ decimal maximum @ js ''.'')) else Inr (nat n)
      | _ \<Rightarrow> Inl (field_error key (js ''must be an integer from 1 to '' @ decimal maximum @ js ''.'')))"

definition optionalSequence :: "payload \<Rightarrow> js_string \<Rightarrow> (rpc_error, nat option) result" where
  "optionalSequence m key =
     (case map_of m key of
        None \<Rightarrow> Inr None
      | Some (JNum n) \<Rightarrow>
          if \<not> isSafeInteger n \<or> n < 0
          then Inl (field_error key (js ''must be a non-negative safe integer.'')) else Inr (Some (nat n))
      | _ \<Rightarrow> Inl (field_error key (js ''must be a non-negative safe integer.'')))"

definition optionalBoolean :: "payload \<Rightarrow> js_string \<Rightarrow> (rpc_error, bool option) result" where
  "optionalBoolean m key =
     (case map_of m key of
        None \<Rightarrow> Inr None
      | Some (JBool b) \<Rightarrow> Inr (Some b)
      | _ \<Rightarrow> Inl (field_error key (js ''must be a boolean.'')))"

definition optionalBoundedInteger :: "payload \<Rightarrow> js_string \<Rightarrow> nat \<Rightarrow> (rpc_error, nat option) result" where
  "optionalBoundedInteger m key maximum =
     (case map_of m key of
        None \<Rightarrow> Inr None
      | Some (JNum n) \<Rightarrow>
          if \<not> isSafeInteger n \<or> n < 0 \<or> n > int maximum
          then Inl (field_error key (js ''must be a non-negative integer within the size limit.'')) else Inr (Some (nat n))
      | _ \<Rightarrow> Inl (field_error key (js ''must be a non-negative integer within the size limit.'')))"

section \<open>Spawning\<close>

record SpawnOptions =
  so_command :: js_string
  so_args :: "js_string list option"
  so_description :: "js_string option"
  so_workdir :: "js_string option"
  so_env :: "(js_string \<times> js_string) list option"
  so_title :: "js_string option"
  so_parentSessionId :: js_string
  so_parentAgent :: "js_string option"
  so_timeoutSeconds :: "nat option"
  so_name :: "js_string option"
  so_idempotencyKey :: "js_string option"
  so_inheritEnv :: "bool option"
  so_lifecycle :: "SessionLifecycle option"
  so_maxOutputBytes :: "nat option"
  so_ownerProjectDirectory :: js_string
  so_ownerCapabilityHash :: js_string

fun json_text :: "json \<Rightarrow> js_string option" where
  "json_text (JStr s) = Some s"
| "json_text _ = None"

definition string_list :: "json list \<Rightarrow> js_string list option" where
  "string_list vs = (if list_all (\<lambda>v. json_text v \<noteq> None) vs then Some (map (\<lambda>v. the (json_text v)) vs) else None)"

definition spawn_args :: "payload \<Rightarrow> (rpc_error, js_string list option) result" where
  "spawn_args m =
     (case map_of m (js ''args'') of
        None \<Rightarrow> Inr None
      | Some (JArr vs) \<Rightarrow>
          (case string_list vs of
             None \<Rightarrow> Inl (field_error (js ''args'') (js ''must be an array of strings.''))
           | Some ss \<Rightarrow>
               if length ss > MAX_ARGUMENTS \<or> list_ex (\<lambda>s. length s > MAX_STRING_LENGTH) ss
               then Inl (field_error (js ''args'') (js ''exceeds the size limit.'')) else Inr (Some ss))
      | _ \<Rightarrow> Inl (field_error (js ''args'') (js ''must be an array of strings.'')))"

definition spawn_env :: "payload \<Rightarrow> (rpc_error, (js_string \<times> js_string) list option) result" where
  "spawn_env m =
     (case map_of m (js ''env'') of
        None \<Rightarrow> Inr None
      | Some (JObj es) \<Rightarrow>
          (case string_list (map snd es) of
             None \<Rightarrow> Inl (field_error (js ''env'') (js ''must be a string map.''))
           | Some vs \<Rightarrow>
               (let entries = zip (map fst es) vs in
                if length entries > MAX_ENVIRONMENT_ENTRIES \<or>
                   list_ex (\<lambda>(k, v). length k > 256 \<or> length v > MAX_STRING_LENGTH) entries
                then Inl (field_error (js ''env'') (js ''exceeds the size limit.'')) else Inr (Some entries)))
      | _ \<Rightarrow> Inl (field_error (js ''env'') (js ''must be a string map.'')))"

definition spawn_lifecycle :: "payload \<Rightarrow> (rpc_error, SessionLifecycle option) result" where
  "spawn_lifecycle m =
     and_then (optionalString m (js ''lifecycle'')) (\<lambda>v.
       if v = None then Inr None
       else if v = Some (js ''conversation'') then Inr (Some Conversation)
       else if v = Some (js ''persistent'') then Inr (Some Persistent)
       else Inl (field_error (js ''lifecycle'') (js ''must be '' @ quoted (js ''conversation'') @ js '' or '' @ quoted (js ''persistent'') @ js ''.'')))"

definition spawn_fields :: "js_string list" where
  "spawn_fields = [js ''command'', js ''args'', js ''description'', js ''workdir'', js ''env'',
     js ''inheritEnv'', js ''lifecycle'', js ''title'', js ''parentSessionId'', js ''parentAgent'',
     js ''timeoutSeconds'', js ''name'', js ''idempotencyKey'']"

definition exec_fields :: "js_string list" where
  "exec_fields = [js ''command'', js ''args'', js ''description'', js ''workdir'', js ''env'',
     js ''inheritEnv'', js ''lifecycle'', js ''title'', js ''parentSessionId'', js ''parentAgent'',
     js ''timeoutSeconds'', js ''maxOutputBytes'']"

definition spawnPayload :: "json option \<Rightarrow> (rpc_error, SpawnOptions) result" where
  "spawnPayload p =
     and_then (objectPayload p) (\<lambda>m.
     and_then (onlyFields m spawn_fields) (\<lambda>_.
     and_then (spawn_args m) (\<lambda>argv.
     and_then (spawn_env m) (\<lambda>env.
     and_then (optionalNonnegativeInteger m (js ''timeoutSeconds'')) (\<lambda>timeout.
     and_then (throw_if (timeout = Some 0) (field_error (js ''timeoutSeconds'') (js ''must be positive.''))) (\<lambda>_.
     and_then (optionalBoolean m (js ''inheritEnv'')) (\<lambda>inherit.
     and_then (spawn_lifecycle m) (\<lambda>life.
     and_then (requiredString m (js ''command'')) (\<lambda>cmd.
     and_then (throw_if (length cmd > MAX_COMMAND_LENGTH) (field_error (js ''command'') (js ''exceeds the size limit.''))) (\<lambda>_.
     and_then (optionalString m (js ''description'')) (\<lambda>descr.
     and_then (optionalString m (js ''workdir'')) (\<lambda>wdir.
     and_then (optionalString m (js ''title'')) (\<lambda>ttl.
     and_then (optionalString m (js ''parentSessionId'')) (\<lambda>parent.
     and_then (optionalString m (js ''parentAgent'')) (\<lambda>agent.
     and_then (optionalString m (js ''name'')) (\<lambda>nm.
     and_then (optionalString m (js ''idempotencyKey'')) (\<lambda>key.
       Inr \<lparr> so_command = cmd, so_args = argv, so_description = descr, so_workdir = wdir, so_env = env,
             so_title = ttl, so_parentSessionId = nullish parent [], so_parentAgent = agent,
             so_timeoutSeconds = timeout, so_name = nm, so_idempotencyKey = key, so_inheritEnv = inherit,
             so_lifecycle = life, so_maxOutputBytes = None, so_ownerProjectDirectory = [],
             so_ownerCapabilityHash = [] \<rparr>)))))))))))))))))"

definition execPayload :: "json option \<Rightarrow> (rpc_error, SpawnOptions) result" where
  "execPayload p =
     and_then (objectPayload p) (\<lambda>m.
     and_then (onlyFields m exec_fields) (\<lambda>_.
     and_then (spawnPayload (Some (JObj (filter (\<lambda>(k, _). k \<noteq> js ''maxOutputBytes'') m)))) (\<lambda>opts.
     and_then (optionalBoundedInteger m (js ''maxOutputBytes'') MAX_REQUEST_BYTES) (\<lambda>maxOut.
     and_then (throw_if (maxOut = Some 0) (field_error (js ''maxOutputBytes'') (js ''must be positive.''))) (\<lambda>_.
       Inr (opts\<lparr> so_maxOutputBytes := maxOut \<rparr>))))))"

definition waitCondition :: "json option \<Rightarrow> (rpc_error, WaitCondition) result" where
  "waitCondition v =
     and_then (objectPayload v) (\<lambda>c.
     and_then (requiredString c (js ''kind'')) (\<lambda>kind.
       if kind = js ''exit'' then
         and_then (onlyFields c [js ''kind'']) (\<lambda>_. Inr Wait_exit)
       else if kind \<noteq> js ''output'' then
         Inl (Invalid (js ''wait condition kind must be '' @ quoted (js ''output'') @ js '' or '' @ quoted (js ''exit'') @ js ''.''))
       else
         and_then (onlyFields c [js ''kind'', js ''literal'', js ''regex'']) (\<lambda>_.
         and_then (optionalString c (js ''literal'')) (\<lambda>literal.
         and_then (optionalString c (js ''regex'')) (\<lambda>regex.
           if (truthy_text literal \<noteq> None) = (truthy_text regex \<noteq> None)
           then Inl (Invalid (js ''Output wait requires exactly one of literal or regex.''))
           else Inr (Wait_output literal regex None))))))"

section \<open>Owners\<close>

text \<open>
  What the server works with besides its own state: SHA-256, \<open>realpathSync(resolve(path))\<close>,
  the normalization of text to NFC, and the ownership secret of the data directory.
\<close>

record server_env =
  sha256 :: "js_string \<Rightarrow> js_string"
  realpath :: "js_string \<Rightarrow> js_string option"
  nfc :: "js_string \<Rightarrow> js_string"
  ownershipSecret :: js_string

record RpcRequest =
  rpc_id :: js_string
  rpc_version :: int
  rpc_operation :: js_string
  rpc_owner :: "json option"
  rpc_approvalCapability :: "json option"
  rpc_payload :: "json option"

definition capability :: "server_env \<Rightarrow> js_string \<Rightarrow> js_string \<Rightarrow> js_string" where
  "capability env parent dir = sha256 env (ownershipSecret env @ [NUL] @ parent @ [NUL] @ dir)"

definition approvalCapability :: "server_env \<Rightarrow> js_string \<Rightarrow> js_string \<Rightarrow> js_string" where
  "approvalCapability env parent dir =
     sha256 env (js ''approval'' @ [NUL] @ ownershipSecret env @ [NUL] @ parent @ [NUL] @ dir)"

text \<open>\<open>/^[a-f0-9]{64}$/\<close>.\<close>

definition hex_digest :: "js_string \<Rightarrow> bool" where
  "hex_digest s \<longleftrightarrow> length s = 64 \<and> list_all (\<lambda>u. is_digit u \<or> (97 \<le> u \<and> u \<le> 102)) s"

definition not_authorized :: rpc_error where
  "not_authorized = Failed (DaemonError ''Owner is not authorized.'' E_authorization)"

definition text_field :: "json option \<Rightarrow> js_string \<Rightarrow> js_string" where
  "text_field v key =
     (case v of Some j \<Rightarrow> (case json_get j key of Some (JStr s) \<Rightarrow> s | _ \<Rightarrow> []) | None \<Rightarrow> [])"

text \<open>A missing property, one of another type and the empty string are all refused.\<close>

definition owner :: "server_env \<Rightarrow> RpcRequest \<Rightarrow> (rpc_error, OwnerContext) result" where
  "owner env r =
     (let parent = text_field (rpc_owner r) (js ''parentSessionId'');
          dir = text_field (rpc_owner r) (js ''projectDirectory'');
          cap = text_field (rpc_owner r) (js ''capability'')
      in if parent = [] \<or> dir = [] \<or> \<not> hex_digest cap
         then Inl (Invalid (js ''A valid owner context is required.''))
         else case realpath env dir of
                None \<Rightarrow> Inl (Invalid (js ''Owner project directory must exist.''))
              | Some projectDirectory \<Rightarrow>
                  if cap \<noteq> capability env parent projectDirectory then Inl not_authorized
                  else Inr \<lparr> ow_parentSessionId = parent, ow_projectDirectory = projectDirectory,
                             ow_capability = cap \<rparr>)"

definition approvalOwner :: "server_env \<Rightarrow> RpcRequest \<Rightarrow> (rpc_error, OwnerContext) result" where
  "approvalOwner env r =
     and_then (owner env r) (\<lambda>ow.
       case rpc_approvalCapability r of
         Some (JStr c) \<Rightarrow>
           if length c \<noteq> 64 \<or> c \<noteq> approvalCapability env (ow_parentSessionId ow) (ow_projectDirectory ow)
           then Inl not_authorized else Inr ow
       | _ \<Rightarrow> Inl not_authorized)"

definition owns :: "SessionRegistry \<Rightarrow> js_string \<Rightarrow> OwnerContext \<Rightarrow> bool" where
  "owns g i ow = registry_owns g i (ow_parentSessionId ow) (ow_projectDirectory ow) (ow_capability ow)"

definition authorize :: "SessionRegistry \<Rightarrow> js_string \<Rightarrow> OwnerContext \<Rightarrow> (rpc_error, unit) result" where
  "authorize g i ow = throw_if (\<not> owns g i ow) not_authorized"

section \<open>The input budget\<close>

record input_window =
  win_startedAt :: int
  win_bytes :: nat

type_synonym input_usage = "(js_string, input_window) js_map"

definition input_key :: "OwnerContext \<Rightarrow> js_string" where
  "input_key ow = owner_key (ow_parentSessionId ow) (ow_projectDirectory ow) (ow_capability ow)"

definition current_window :: "int \<Rightarrow> input_window option \<Rightarrow> input_window" where
  "current_window now w =
     (case w of
        None \<Rightarrow> \<lparr> win_startedAt = now, win_bytes = 0 \<rparr>
      | Some u \<Rightarrow> if now - win_startedAt u \<ge> 60000 then \<lparr> win_startedAt = now, win_bytes = 0 \<rparr> else u)"

definition useInput ::
  "int \<Rightarrow> OwnerContext \<Rightarrow> js_string \<Rightarrow> input_usage \<Rightarrow> (rpc_error, input_usage) result" where
  "useInput now ow data used =
     (let bytes = byteLength data in
      if bytes > MAX_INPUT_BYTES then Inl (Failed (DaemonError ''Input size limit exceeded.'' E_limit))
      else let current = current_window now (map_get used (input_key ow)) in
        if win_bytes current + bytes > MAX_INPUT_BYTES_PER_MINUTE
        then Inl (Failed (DaemonError ''Input rate limit exceeded.'' E_limit))
        else Inr (map_set used (input_key ow) (current\<lparr> win_bytes := win_bytes current + bytes \<rparr>)))"

section \<open>Approval payloads\<close>

definition approvalPayload :: "json option \<Rightarrow> js_string list \<Rightarrow> (rpc_error, payload) result" where
  "approvalPayload p names =
     and_then (objectPayload p) (\<lambda>m. and_then (onlyFields m names) (\<lambda>_. Inr m))"

definition approvalText :: "server_env \<Rightarrow> payload \<Rightarrow> js_string \<Rightarrow> nat \<Rightarrow> (rpc_error, js_string) result" where
  "approvalText env m key maximum =
     and_then (requiredString m key) (\<lambda>s.
       let v = nfc env s in
       if length v > maximum \<or> NUL \<in> set v
       then Inl (field_error key (js ''is invalid for approval intent.'')) else Inr v)"

definition approvalText_optional ::
  "server_env \<Rightarrow> payload \<Rightarrow> js_string \<Rightarrow> nat \<Rightarrow> (rpc_error, js_string option) result" where
  "approvalText_optional env m key maximum =
     (if map_of m key = None then Inr None
      else and_then (approvalText env m key maximum) (\<lambda>v. Inr (Some v)))"

definition canonicalApprovalWorkdir :: "server_env \<Rightarrow> js_string \<Rightarrow> (rpc_error, js_string) result" where
  "canonicalApprovalWorkdir env wdir =
     (case realpath env wdir of
        None \<Rightarrow> Inl (Invalid (js ''Approval workdir must exist.''))
      | Some d \<Rightarrow> Inr d)"

definition approvalIntent :: "server_env \<Rightarrow> payload \<Rightarrow> (rpc_error, approval_intent) result" where
  "approvalIntent env m =
     and_then (approvalText env m (js ''command'') MAX_COMMAND_LENGTH) (\<lambda>cmd.
     and_then (approvalText env m (js ''capability'') 1024) (\<lambda>cap.
     and_then (approvalText env m (js ''workdir'') MAX_STRING_LENGTH) (\<lambda>wdir.
     and_then (canonicalApprovalWorkdir env wdir) (\<lambda>dir.
     and_then (approvalText_optional env m (js ''reason'') MAX_STRING_LENGTH) (\<lambda>reason.
       Inr \<lparr> it_command = cmd, it_capability = cap, it_workdir = dir, it_reason = reason \<rparr>)))))"

definition approvalUiLease :: "payload \<Rightarrow> (rpc_error, nat option) result" where
  "approvalUiLease m =
     and_then (optionalNonnegativeInteger m (js ''uiLeaseSeconds'')) (\<lambda>v.
       case v of
         None \<Rightarrow> Inr None
       | Some seconds \<Rightarrow>
           if seconds < MIN_UI_LEASE_SECONDS \<or> seconds > MAX_UI_LEASE_SECONDS
           then Inl (Invalid (js ''Approval UI lease must be between 2 and 5 seconds.''))
           else Inr (Some seconds))"

text \<open>The opening that \<open>approvalCreate\<close> and \<open>approvalPrepare\<close> share.\<close>

definition approval_creation ::
  "server_env \<Rightarrow> json option \<Rightarrow> (rpc_error, approval_intent \<times> nat \<times> nat option) result" where
  "approval_creation env p =
     and_then (approvalPayload p [js ''command'', js ''reason'', js ''capability'', js ''workdir'',
       js ''expirySeconds'', js ''uiLeaseSeconds'']) (\<lambda>m.
     and_then (requiredPositiveInteger m (js ''expirySeconds'')) (\<lambda>expiry.
     and_then (throw_if (expiry > MAX_APPROVAL_EXPIRY_SECONDS)
       (Invalid (js ''Approval expiry exceeds the limit.''))) (\<lambda>_.
     and_then (approvalIntent env m) (\<lambda>intent.
     and_then (approvalUiLease m) (\<lambda>lease.
       Inr (intent, expiry, lease))))))"

definition parse_decision :: "js_string \<Rightarrow> (rpc_error, decision) result" where
  "parse_decision s =
     (if s = js ''approve_once'' then Inr Approve_once
      else if s = js ''approve_session'' then Inr Approve_session
      else if s = js ''reject'' then Inr Reject
      else Inl (Invalid (js ''Approval decision is invalid.'')))"

section \<open>Dispatch\<close>

text \<open>
  What a request asks for once it is validated and authorized: the call to the supervisor or
  to the approval service, with its arguments.
\<close>

datatype rpc_call =
    Call_health
  | Call_diagnostics OwnerContext
  | Call_spawn SpawnOptions
  | Call_exec SpawnOptions
  | Call_execStart SpawnOptions
  | Call_execWait js_string nat
  | Call_write js_string js_string
  | Call_resize js_string nat nat
  | Call_wait js_string WaitCondition nat
  | Call_sendWait js_string js_string WaitCondition nat
  | Call_read js_string "nat option" "nat option" "nat option"
  | Call_search js_string js_string bool "nat option" "nat option" "nat option"
  | Call_list OwnerContext
  | Call_get js_string
  | Call_rawOutput js_string
  | Call_execOutput js_string
  | Call_stop js_string
  | Call_cleanup js_string
  | Call_cleanupByParentSession js_string js_string js_string
  | Call_approval OwnerContext approval_op
  | Call_approvalWait OwnerContext js_string int

text \<open>The payload of the operations that take a session and nothing else.\<close>

definition id_payload :: "SessionRegistry \<Rightarrow> OwnerContext \<Rightarrow> json option \<Rightarrow> (rpc_error, js_string) result" where
  "id_payload g ow p =
     and_then (objectPayload p) (\<lambda>m.
     and_then (onlyFields m [js ''id'']) (\<lambda>_.
     and_then (requiredString m (js ''id'')) (\<lambda>i.
     and_then (authorize g i ow) (\<lambda>_. Inr i))))"

text \<open>\<open>{ ...options, parentSessionId, ownerProjectDirectory, ownerCapabilityHash }\<close>.\<close>

definition for_owner :: "OwnerContext \<Rightarrow> SpawnOptions \<Rightarrow> SpawnOptions" where
  "for_owner ow opts =
     opts\<lparr> so_parentSessionId := ow_parentSessionId ow,
           so_ownerProjectDirectory := ow_projectDirectory ow,
           so_ownerCapabilityHash := ow_capability ow \<rparr>"

definition exec_options :: "OwnerContext \<Rightarrow> SpawnOptions \<Rightarrow> (rpc_error, SpawnOptions) result" where
  "exec_options ow opts =
     (if nullish (so_timeoutSeconds opts) 0 > MAX_EXEC_RUNTIME_SECONDS
      then Inl (Failed (DaemonError ''Exec runtime limit exceeded.'' E_limit))
      else Inr (for_owner ow opts))"

definition execWait_call ::
  "SessionRegistry \<Rightarrow> OwnerContext \<Rightarrow> json option \<Rightarrow> (rpc_error, rpc_call) result" where
  "execWait_call g ow p =
     and_then (objectPayload p) (\<lambda>m.
     and_then (onlyFields m [js ''id'', js ''timeoutSeconds'']) (\<lambda>_.
     and_then (requiredString m (js ''id'')) (\<lambda>i.
     and_then (authorize g i ow) (\<lambda>_.
     and_then (requiredPositiveInteger m (js ''timeoutSeconds'')) (\<lambda>t. Inr (Call_execWait i t))))))"

definition resize_call ::
  "SessionRegistry \<Rightarrow> OwnerContext \<Rightarrow> json option \<Rightarrow> (rpc_error, rpc_call) result" where
  "resize_call g ow p =
     and_then (objectPayload p) (\<lambda>m.
     and_then (onlyFields m [js ''id'', js ''cols'', js ''rows'']) (\<lambda>_.
     and_then (requiredString m (js ''id'')) (\<lambda>i.
     and_then (authorize g i ow) (\<lambda>_.
     and_then (requiredBoundedInteger m (js ''cols'') 1000) (\<lambda>c.
     and_then (requiredBoundedInteger m (js ''rows'') 1000) (\<lambda>r. Inr (Call_resize i c r)))))))"

definition wait_call ::
  "SessionRegistry \<Rightarrow> OwnerContext \<Rightarrow> json option \<Rightarrow> (rpc_error, rpc_call) result" where
  "wait_call g ow p =
     and_then (objectPayload p) (\<lambda>m.
     and_then (onlyFields m [js ''id'', js ''condition'', js ''timeoutSeconds'']) (\<lambda>_.
     and_then (requiredString m (js ''id'')) (\<lambda>i.
     and_then (authorize g i ow) (\<lambda>_.
     and_then (waitCondition (map_of m (js ''condition''))) (\<lambda>c.
     and_then (requiredPositiveInteger m (js ''timeoutSeconds'')) (\<lambda>t. Inr (Call_wait i c t)))))))"

definition read_call ::
  "SessionRegistry \<Rightarrow> OwnerContext \<Rightarrow> json option \<Rightarrow> (rpc_error, rpc_call) result" where
  "read_call g ow p =
     and_then (objectPayload p) (\<lambda>m.
     and_then (onlyFields m [js ''id'', js ''offset'', js ''limit'', js ''sequence'']) (\<lambda>_.
     and_then (requiredString m (js ''id'')) (\<lambda>i.
     and_then (authorize g i ow) (\<lambda>_.
     and_then (optionalNonnegativeInteger m (js ''offset'')) (\<lambda>off.
     and_then (optionalNonnegativeInteger m (js ''limit'')) (\<lambda>lim.
     and_then (optionalSequence m (js ''sequence'')) (\<lambda>sq. Inr (Call_read i off lim sq))))))))"

definition search_call ::
  "SessionRegistry \<Rightarrow> OwnerContext \<Rightarrow> json option \<Rightarrow> (rpc_error, rpc_call) result" where
  "search_call g ow p =
     and_then (objectPayload p) (\<lambda>m.
     and_then (onlyFields m [js ''id'', js ''pattern'', js ''ignoreCase'', js ''offset'', js ''limit'', js ''sequence'']) (\<lambda>_.
     and_then (requiredString m (js ''id'')) (\<lambda>i.
     and_then (authorize g i ow) (\<lambda>_.
     and_then (requiredString m (js ''pattern'')) (\<lambda>pat.
     and_then (optionalBoolean m (js ''ignoreCase'')) (\<lambda>ic.
     and_then (optionalNonnegativeInteger m (js ''offset'')) (\<lambda>off.
     and_then (optionalNonnegativeInteger m (js ''limit'')) (\<lambda>lim.
     and_then (optionalSequence m (js ''sequence'')) (\<lambda>sq.
       Inr (Call_search i pat (nullish ic False) off lim sq))))))))))"

text \<open>The two operations that spend the owner's input budget.\<close>

definition spend_input ::
  "int \<Rightarrow> SessionRegistry \<Rightarrow> OwnerContext \<Rightarrow> payload \<Rightarrow> input_usage \<Rightarrow>
   (rpc_error, js_string \<times> js_string \<times> input_usage) result" where
  "spend_input now g ow m used =
     and_then (requiredString m (js ''id'')) (\<lambda>i.
     and_then (requiredString m (js ''data'')) (\<lambda>d.
     and_then (authorize g i ow) (\<lambda>_.
     and_then (useInput now ow d used) (\<lambda>used'. Inr (i, d, used')))))"

definition write_call ::
  "int \<Rightarrow> SessionRegistry \<Rightarrow> OwnerContext \<Rightarrow> json option \<Rightarrow> input_usage \<Rightarrow> (rpc_error, rpc_call \<times> input_usage) result" where
  "write_call now g ow p used =
     and_then (objectPayload p) (\<lambda>m.
     and_then (onlyFields m [js ''id'', js ''data'']) (\<lambda>_.
     and_then (spend_input now g ow m used) (\<lambda>(i, d, used'). Inr (Call_write i d, used'))))"

text \<open>The budget is spent before the condition and the timeout are looked at.\<close>

definition sendWait_call ::
  "int \<Rightarrow> SessionRegistry \<Rightarrow> OwnerContext \<Rightarrow> json option \<Rightarrow> input_usage \<Rightarrow> (rpc_error, rpc_call) result \<times> input_usage" where
  "sendWait_call now g ow p used =
     (case and_then (objectPayload p) (\<lambda>m.
           and_then (onlyFields m [js ''id'', js ''data'', js ''condition'', js ''timeoutSeconds'']) (\<lambda>_.
           and_then (spend_input now g ow m used) (\<lambda>(i, d, used'). Inr (m, i, d, used')))) of
        Inl e \<Rightarrow> (Inl e, used)
      | Inr (m, i, d, used') \<Rightarrow>
          (and_then (waitCondition (map_of m (js ''condition''))) (\<lambda>c.
           and_then (requiredPositiveInteger m (js ''timeoutSeconds'')) (\<lambda>t.
             Inr (Call_sendWait i d c t))), used'))"

definition cleanupByParent_call :: "OwnerContext \<Rightarrow> json option \<Rightarrow> (rpc_error, rpc_call) result" where
  "cleanupByParent_call ow p =
     and_then (objectPayload p) (\<lambda>m.
     and_then (onlyFields m [js ''parentSessionId'']) (\<lambda>_.
     and_then (requiredString m (js ''parentSessionId'')) (\<lambda>parent.
       if parent \<noteq> ow_parentSessionId ow then Inl not_authorized
       else Inr (Call_cleanupByParentSession parent (ow_projectDirectory ow) (ow_capability ow)))))"

definition approval_id :: "json option \<Rightarrow> (rpc_error, js_string) result" where
  "approval_id p = and_then (approvalPayload p [js ''id'']) (\<lambda>m. requiredString m (js ''id''))"

definition decide_op :: "js_string \<Rightarrow> json option \<Rightarrow> (rpc_error, approval_op) result" where
  "decide_op fresh p =
     and_then (approvalPayload p [js ''id'', js ''decision'', js ''claimToken'']) (\<lambda>m.
     and_then (requiredString m (js ''decision'')) (\<lambda>ds.
     and_then (parse_decision ds) (\<lambda>d.
     and_then (requiredString m (js ''id'')) (\<lambda>i.
       Inr (Op_decide fresh i d
         (case requiredString m (js ''claimToken'') of
            Inl _ \<Rightarrow> Inl (ValidationError ''RPC field claimToken must be a non-empty string within the size limit.'')
          | Inr t \<Rightarrow> Inr t))))))"

definition consume_op :: "server_env \<Rightarrow> json option \<Rightarrow> (rpc_error, approval_op) result" where
  "consume_op env p =
     and_then (approvalPayload p [js ''id'', js ''command'', js ''reason'', js ''capability'', js ''workdir'']) (\<lambda>m.
     and_then (approvalIntent env m) (\<lambda>intent.
     and_then (requiredString m (js ''id'')) (\<lambda>i. Inr (Op_consume i intent))))"

definition approvalWait_call :: "int \<Rightarrow> OwnerContext \<Rightarrow> json option \<Rightarrow> (rpc_error, rpc_call) result" where
  "approvalWait_call now ow p =
     and_then (approvalPayload p [js ''id'', js ''timeoutSeconds'']) (\<lambda>m.
     and_then (requiredString m (js ''id'')) (\<lambda>i.
     and_then (requiredPositiveInteger m (js ''timeoutSeconds'')) (\<lambda>t.
     and_then (throw_if (t > MAX_APPROVAL_EXPIRY_SECONDS) (Invalid (js ''Approval wait exceeds the limit.''))) (\<lambda>_.
       Inr (Call_approvalWait ow i (now + int t * 1000))))))"

definition approval_op_of ::
  "server_env \<Rightarrow> js_string \<Rightarrow> js_string \<Rightarrow> json option \<Rightarrow> (rpc_error, approval_op) result" where
  "approval_op_of env fresh operation p =
     (if operation = js ''approvalCreate''
      then and_then (approval_creation env p) (\<lambda>(intent, ex, le). Inr (Op_create fresh intent ex le))
      else if operation = js ''approvalPrepare''
      then and_then (approval_creation env p) (\<lambda>(intent, ex, le). Inr (Op_prepare fresh intent ex le))
      else if operation = js ''approvalClaim'' then and_then (approval_id p) (\<lambda>i. Inr (Op_claim fresh i))
      else if operation = js ''approvalDecide'' then decide_op fresh p
      else if operation = js ''approvalConsume'' then consume_op env p
      else if operation = js ''approvalNativeApprove'' then and_then (approval_id p) (\<lambda>i. Inr (Op_native_approve i))
      else if operation = js ''approvalListGrants'' then Inr Op_list_grants
      else if operation = js ''approvalListRequests'' then Inr Op_list_requests
      else if operation = js ''approvalRevokeGrant'' then and_then (approval_id p) (\<lambda>i. Inr (Op_revoke_grant i))
      else if operation = js ''approvalCancel'' then and_then (approval_id p) (\<lambda>i. Inr (Op_cancel i))
      else and_then (approvalPayload p [js ''parentSessionId'']) (\<lambda>m.
             and_then (requiredString m (js ''parentSessionId'')) (\<lambda>parent. Inr (Op_cleanup parent))))"

definition approval_call ::
  "server_env \<Rightarrow> int \<Rightarrow> js_string \<Rightarrow> OwnerContext \<Rightarrow> js_string \<Rightarrow> json option \<Rightarrow> (rpc_error, rpc_call) result" where
  "approval_call env now fresh ow operation p =
     (if operation = js ''approvalWait'' then approvalWait_call now ow p
      else and_then (approval_op_of env fresh operation p) (\<lambda>o1. Inr (Call_approval ow o1)))"

definition approval_operations :: "js_string list" where
  "approval_operations = [js ''approvalCreate'', js ''approvalPrepare'', js ''approvalClaim'', js ''approvalDecide'',
     js ''approvalWait'', js ''approvalConsume'', js ''approvalNativeApprove'', js ''approvalListGrants'',
     js ''approvalListRequests'', js ''approvalRevokeGrant'', js ''approvalCancel'',
     js ''approvalCleanupByParentSession'']"

text \<open>The operations that leave the input budget alone.\<close>

definition plain_call ::
  "server_env \<Rightarrow> int \<Rightarrow> js_string \<Rightarrow> SessionRegistry \<Rightarrow> RpcRequest \<Rightarrow> OwnerContext \<Rightarrow> (rpc_error, rpc_call) result" where
  "plain_call env now fresh g r ow =
     (let p = rpc_payload r; operation = rpc_operation r in
      if operation = js ''spawn'' then and_then (spawnPayload p) (\<lambda>o1. Inr (Call_spawn (for_owner ow o1)))
      else if operation = js ''exec''
      then and_then (execPayload p) (\<lambda>o1. and_then (exec_options ow o1) (\<lambda>o2. Inr (Call_exec o2)))
      else if operation = js ''execStart''
      then and_then (execPayload p) (\<lambda>o1. and_then (exec_options ow o1) (\<lambda>o2. Inr (Call_execStart o2)))
      else if operation = js ''execWait'' then execWait_call g ow p
      else if operation = js ''resize'' then resize_call g ow p
      else if operation = js ''wait'' then wait_call g ow p
      else if operation = js ''read'' then read_call g ow p
      else if operation = js ''search'' then search_call g ow p
      else if operation = js ''list'' then Inr (Call_list ow)
      else if operation = js ''get'' then and_then (id_payload g ow p) (\<lambda>i. Inr (Call_get i))
      else if operation = js ''rawOutput'' then and_then (id_payload g ow p) (\<lambda>i. Inr (Call_rawOutput i))
      else if operation = js ''execOutput'' then and_then (id_payload g ow p) (\<lambda>i. Inr (Call_execOutput i))
      else if operation = js ''stop'' then and_then (id_payload g ow p) (\<lambda>i. Inr (Call_stop i))
      else if operation = js ''cleanup'' then and_then (id_payload g ow p) (\<lambda>i. Inr (Call_cleanup i))
      else if operation = js ''cleanupByParentSession'' then cleanupByParent_call ow p
      else if operation \<in> set approval_operations
      then and_then (approvalOwner env r) (\<lambda>_. approval_call env now fresh ow operation p)
      else Inl (Invalid (js ''Unsupported RPC operation '' @ quoted operation @ js ''.'')))"

definition dispatch ::
  "server_env \<Rightarrow> int \<Rightarrow> js_string \<Rightarrow> SessionRegistry \<Rightarrow> RpcRequest \<Rightarrow> input_usage \<Rightarrow>
   (rpc_error, rpc_call) result \<times> input_usage" where
  "dispatch env now fresh g r used =
     (if rpc_operation r = js ''health'' then
        (and_then (objectPayload (Some (case rpc_payload r of None \<Rightarrow> JObj [] | Some JNull \<Rightarrow> JObj [] | Some v \<Rightarrow> v))) (\<lambda>m.
         and_then (onlyFields m []) (\<lambda>_. Inr Call_health)), used)
      else case owner env r of
        Inl e \<Rightarrow> (Inl e, used)
      | Inr ow \<Rightarrow>
          if rpc_operation r = js ''diagnostics'' then (Inr (Call_diagnostics ow), used)
          else if rpc_operation r = js ''write'' then
            (case write_call now g ow (rpc_payload r) used of
               Inl e \<Rightarrow> (Inl e, used) | Inr (c, used') \<Rightarrow> (Inr c, used'))
          else if rpc_operation r = js ''sendWait'' then sendWait_call now g ow (rpc_payload r) used
          else (plain_call env now fresh g r ow, used))"

section \<open>Failures\<close>

text \<open>
  What may be thrown below \<open>dispatch\<close>: the validation errors, the errors of the daemon with
  their code, process errors, and any other error, with the \<open>code\<close> the system gave it.
\<close>

datatype thrown =
    Thrown_validation js_string
  | Thrown_daemon js_string DaemonErrorCode
  | Thrown_process js_string "js_string option"
  | Thrown_error js_string "js_string option"

datatype failure_code =
    F_authentication | F_validation | F_not_found | F_session_closed | F_process | F_storage
  | F_internal | F_protocol | F_authorization | F_limit

fun daemon_code :: "DaemonErrorCode \<Rightarrow> failure_code" where
  "daemon_code E_authorization = F_authorization"
| "daemon_code E_limit = F_limit"
| "daemon_code E_not_found = F_not_found"
| "daemon_code E_session_closed = F_session_closed"

text \<open>\<open>/^E[A-Z]+$/\<close>.\<close>

definition isStorageError :: "js_string option \<Rightarrow> bool" where
  "isStorageError code =
     (case code of
        None \<Rightarrow> False
      | Some c \<Rightarrow> length c \<ge> 2 \<and> hd c = 69 \<and> list_all (\<lambda>u. 65 \<le> u \<and> u \<le> 90) (tl c))"

definition classify_message :: "bool \<Rightarrow> js_string \<Rightarrow> failure_code" where
  "classify_message process message =
     (if str_includes message (js ''not authorized'') then F_authorization
      else if str_includes message (js ''limit'') then F_limit
      else if process then F_process
      else if str_includes message (js ''not found'') then F_not_found
      else if str_includes message (js ''closed'') then F_session_closed
      else F_internal)"

fun classifyRpcFailure :: "thrown \<Rightarrow> failure_code" where
  "classifyRpcFailure (Thrown_validation _) = F_validation"
| "classifyRpcFailure (Thrown_daemon _ code) = daemon_code code"
| "classifyRpcFailure (Thrown_process m code) =
     (if isStorageError code then F_storage else classify_message True m)"
| "classifyRpcFailure (Thrown_error m code) =
     (if isStorageError code then F_storage else classify_message False m)"

section \<open>The request\<close>

record http_request =
  hr_method :: js_string
  hr_path :: js_string
  hr_authorization :: "js_string option"
  hr_contentLength :: "js_string option"
  hr_body :: "8 word list list"

datatype http_response =
    Not_found_page
  | Failure js_string failure_code js_string nat
  | Answer js_string rpc_call

fun read_chunks :: "nat \<Rightarrow> 8 word list list \<Rightarrow> (rpc_error, unit) result" where
  "read_chunks bytes [] = Inr ()"
| "read_chunks bytes (c # cs) =
     (if bytes + length c > MAX_REQUEST_BYTES then Inl (Invalid (js ''Request body is too large.''))
      else read_chunks (bytes + length c) cs)"

text \<open>\<open>decode\<close> is the UTF-8 decoder, which works on the chunks as a stream.\<close>

definition requestBody :: "(8 word list \<Rightarrow> js_string) \<Rightarrow> http_request \<Rightarrow> (rpc_error, js_string) result" where
  "requestBody decode h =
     (let declared = nullish (hr_contentLength h) [] in
      if declared \<noteq> [] \<and> (\<not> list_all is_digit declared \<or> digits_value declared > MAX_REQUEST_BYTES)
      then Inl (Invalid (js ''Request body is too large.''))
      else and_then (read_chunks 0 (hr_body h)) (\<lambda>_. Inr (decode (concat (hr_body h)))))"

definition rpc_request_of :: "payload \<Rightarrow> RpcRequest option" where
  "rpc_request_of m =
     (case (map_of m (js ''id''), map_of m (js ''version''), map_of m (js ''operation'')) of
        (Some (JStr i), Some (JNum v), Some (JStr opr)) \<Rightarrow>
          if i = [] \<or> length i > MAX_ID_LENGTH \<or> opr = [] \<or> length opr > 64 then None
          else Some \<lparr> rpc_id = i, rpc_version = v, rpc_operation = opr, rpc_owner = map_of m (js ''owner''),
                      rpc_approvalCapability = map_of m (js ''approvalCapability''),
                      rpc_payload = map_of m (js ''payload'') \<rparr>
      | (Some (JStr i), Some JReal, Some (JStr opr)) \<Rightarrow>
          if i = [] \<or> length i > MAX_ID_LENGTH \<or> opr = [] \<or> length opr > 64 then None
          else Some \<lparr> rpc_id = i, rpc_version = - 1, rpc_operation = opr, rpc_owner = map_of m (js ''owner''),
                      rpc_approvalCapability = map_of m (js ''approvalCapability''),
                      rpc_payload = map_of m (js ''payload'') \<rparr>
      | _ \<Rightarrow> None)"

definition rpc_failure :: "js_string \<Rightarrow> thrown \<Rightarrow> js_string \<Rightarrow> http_response" where
  "rpc_failure i t m =
     (let code = classifyRpcFailure t in Failure i code m (if code = F_not_found then 404 else 400))"

fun thrown_of :: "rpc_error \<Rightarrow> thrown \<times> js_string" where
  "thrown_of (Invalid m) = (Thrown_validation m, m)"
| "thrown_of (Failed (DaemonError m code)) = (Thrown_daemon (js m) code, js m)"
| "thrown_of (Failed (ValidationError m)) = (Thrown_validation (js m), js m)"
| "thrown_of (Failed (PlainError m)) = (Thrown_error (js m) None, js m)"

definition handle ::
  "server_env \<Rightarrow> (8 word list \<Rightarrow> js_string) \<Rightarrow> (js_string \<Rightarrow> json option) \<Rightarrow> js_string \<Rightarrow> int \<Rightarrow> js_string \<Rightarrow>
   SessionRegistry \<Rightarrow> http_request \<Rightarrow> input_usage \<Rightarrow> http_response \<times> input_usage" where
  "handle env decode parse token now fresh g h used =
     (if hr_method h \<noteq> js ''POST'' \<or> hr_path h \<noteq> js ''/rpc'' then (Not_found_page, used)
      else if hr_authorization h \<noteq> Some (js ''Bearer '' @ token)
      then (Failure [] F_authentication (js ''Invalid daemon credential.'') 401, used)
      else case requestBody decode h of
        Inl e \<Rightarrow> (Failure [] F_validation (snd (thrown_of e)) 413, used)
      | Inr body \<Rightarrow>
          (case parse body of
             None \<Rightarrow> (Failure [] F_validation (js ''Request body must be JSON.'') 400, used)
           | Some (JObj m) \<Rightarrow>
               (case rpc_request_of m of
                  None \<Rightarrow> (Failure [] F_validation (js ''Invalid RPC request.'') 400, used)
                | Some r \<Rightarrow>
                    if rpc_version r \<noteq> int DAEMON_PROTOCOL_VERSION
                    then (Failure (rpc_id r) F_protocol (js ''Invalid RPC protocol version.'') 400, used)
                    else case dispatch env now fresh g r used of
                      (Inl e, used') \<Rightarrow> (rpc_failure (rpc_id r) (fst (thrown_of e)) (snd (thrown_of e)), used')
                    | (Inr c, used') \<Rightarrow> (Answer (rpc_id r) c, used'))
           | Some _ \<Rightarrow> (Failure [] F_validation (js ''RPC request must be an object.'') 400, used)))"

section \<open>What the validators guarantee\<close>

lemma requiredString_Inr:
  "requiredString m k = Inr s \<Longrightarrow> map_of m k = Some (JStr s) \<and> 0 < length s \<and> length s \<le> MAX_STRING_LENGTH"
  by (auto simp: requiredString_def split: option.splits json.splits if_splits)

lemma optionalString_Inr:
  "optionalString m k = Inr (Some s) \<Longrightarrow> length s \<le> MAX_STRING_LENGTH"
  by (auto simp: optionalString_def split: option.splits json.splits if_splits)

lemma optionalNonnegativeInteger_Inr:
  "optionalNonnegativeInteger m k = Inr (Some n) \<Longrightarrow> n \<le> MAX_PAGE_SIZE"
  by (auto simp: optionalNonnegativeInteger_def split: option.splits json.splits if_splits)

lemma requiredPositiveInteger_Inr:
  "requiredPositiveInteger m k = Inr n \<Longrightarrow> 0 < n \<and> n \<le> MAX_PAGE_SIZE"
  by (auto simp: requiredPositiveInteger_def and_then_Inr_iff dest: optionalNonnegativeInteger_Inr
      split: option.splits if_splits)

lemma onlyFields_Inr: "onlyFields m names = Inr u \<longleftrightarrow> fst ` set m \<subseteq> set names"
  by (auto simp: onlyFields_def find_None_iff find_Some_iff image_subset_iff split: option.splits)

lemma spawn_args_Inr:
  "spawn_args m = Inr (Some ss) \<Longrightarrow> length ss \<le> MAX_ARGUMENTS \<and> (\<forall>s\<in>set ss. length s \<le> MAX_STRING_LENGTH)"
  by (auto simp: spawn_args_def list_ex_iff not_less split: option.splits json.splits if_splits)

lemma spawn_env_Inr:
  "spawn_env m = Inr (Some es) \<Longrightarrow> length es \<le> MAX_ENVIRONMENT_ENTRIES \<and>
   (\<forall>(k, v)\<in>set es. length k \<le> 256 \<and> length v \<le> MAX_STRING_LENGTH)"
  by (auto simp: spawn_env_def list_ex_iff not_less Let_def split: option.splits json.splits if_splits)

definition spawn_bounded :: "SpawnOptions \<Rightarrow> bool" where
  "spawn_bounded opts \<longleftrightarrow>
     0 < length (so_command opts) \<and> length (so_command opts) \<le> MAX_COMMAND_LENGTH \<and>
     (\<forall>ss. so_args opts = Some ss \<longrightarrow>
        length ss \<le> MAX_ARGUMENTS \<and> (\<forall>s\<in>set ss. length s \<le> MAX_STRING_LENGTH)) \<and>
     (\<forall>es. so_env opts = Some es \<longrightarrow> length es \<le> MAX_ENVIRONMENT_ENTRIES \<and>
        (\<forall>(k, v)\<in>set es. length k \<le> 256 \<and> length v \<le> MAX_STRING_LENGTH)) \<and>
     (\<forall>t. so_timeoutSeconds opts = Some t \<longrightarrow> 0 < t \<and> t \<le> MAX_PAGE_SIZE) \<and>
     (\<forall>s\<in>{so_description opts, so_workdir opts, so_title opts, so_parentAgent opts, so_name opts,
          so_idempotencyKey opts}. \<forall>x. s = Some x \<longrightarrow> length x \<le> MAX_STRING_LENGTH)"

lemma spawnPayload_fields:
  assumes "spawnPayload p = Inr opts"
  shows "\<exists>m. p = Some (JObj m) \<and> fst ` set m \<subseteq> set spawn_fields \<and>
    spawn_args m = Inr (so_args opts) \<and> spawn_env m = Inr (so_env opts) \<and>
    optionalNonnegativeInteger m (js ''timeoutSeconds'') = Inr (so_timeoutSeconds opts) \<and>
    so_timeoutSeconds opts \<noteq> Some 0 \<and>
    requiredString m (js ''command'') = Inr (so_command opts) \<and> length (so_command opts) \<le> MAX_COMMAND_LENGTH \<and>
    optionalString m (js ''description'') = Inr (so_description opts) \<and>
    optionalString m (js ''workdir'') = Inr (so_workdir opts) \<and>
    optionalString m (js ''title'') = Inr (so_title opts) \<and>
    optionalString m (js ''parentAgent'') = Inr (so_parentAgent opts) \<and>
    optionalString m (js ''name'') = Inr (so_name opts) \<and>
    optionalString m (js ''idempotencyKey'') = Inr (so_idempotencyKey opts) \<and>
    so_maxOutputBytes opts = None"
  using assms unfolding spawnPayload_def objectPayload_def
  by (cases p) (auto simp: and_then_Inr_iff onlyFields_Inr not_less simp del: js_simps split: json.splits)

lemma optionalString_bound:
  "optionalString m k = Inr v \<Longrightarrow> \<forall>x. v = Some x \<longrightarrow> length x \<le> MAX_STRING_LENGTH"
  using optionalString_Inr by blast

lemma spawnPayload_bounded:
  assumes "spawnPayload p = Inr opts"
  shows "spawn_bounded opts"
proof -
  from spawnPayload_fields [OF assms] obtain m where m:
    "spawn_args m = Inr (so_args opts)" "spawn_env m = Inr (so_env opts)"
    "optionalNonnegativeInteger m (js ''timeoutSeconds'') = Inr (so_timeoutSeconds opts)"
    "so_timeoutSeconds opts \<noteq> Some 0" "requiredString m (js ''command'') = Inr (so_command opts)"
    "length (so_command opts) \<le> MAX_COMMAND_LENGTH"
    and texts: "optionalString m (js ''description'') = Inr (so_description opts)"
    "optionalString m (js ''workdir'') = Inr (so_workdir opts)"
    "optionalString m (js ''title'') = Inr (so_title opts)"
    "optionalString m (js ''parentAgent'') = Inr (so_parentAgent opts)"
    "optionalString m (js ''name'') = Inr (so_name opts)"
    "optionalString m (js ''idempotencyKey'') = Inr (so_idempotencyKey opts)" by blast
  have "0 < length (so_command opts)" using requiredString_Inr [OF m(5)] by blast
  moreover have "0 < t \<and> t \<le> MAX_PAGE_SIZE" if "so_timeoutSeconds opts = Some t" for t
    using m(3,4) that optionalNonnegativeInteger_Inr [of m] by (cases t) auto
  ultimately show ?thesis
    using m(6) spawn_args_Inr [of m] spawn_env_Inr [of m] m(1,2) texts [THEN optionalString_bound]
    by (simp add: spawn_bounded_def)
qed

lemma execPayload_bounded:
  assumes "execPayload p = Inr opts"
  shows "spawn_bounded opts \<and> (\<forall>n. so_maxOutputBytes opts = Some n \<longrightarrow> 0 < n \<and> n \<le> MAX_REQUEST_BYTES)"
proof -
  from assms have "\<exists>m m0 q mo. spawnPayload (Some (JObj m)) = Inr q \<and>
      optionalBoundedInteger m0 (js ''maxOutputBytes'') MAX_REQUEST_BYTES = Inr mo \<and> mo \<noteq> Some 0 \<and>
      opts = q\<lparr> so_maxOutputBytes := mo \<rparr>"
    unfolding execPayload_def by (auto simp: and_then_Inr_iff simp del: js_simps)
  then obtain m m0 q mo where q: "spawnPayload (Some (JObj m)) = Inr q"
    and mo: "optionalBoundedInteger m0 (js ''maxOutputBytes'') MAX_REQUEST_BYTES = Inr mo" "mo \<noteq> Some 0"
    and opts: "opts = q\<lparr> so_maxOutputBytes := mo \<rparr>" by blast
  have "spawn_bounded opts" using spawnPayload_bounded [OF q] by (simp add: opts spawn_bounded_def)
  moreover have "0 < n \<and> n \<le> MAX_REQUEST_BYTES" if "mo = Some n" for n
    using mo that by (cases n) (auto simp: optionalBoundedInteger_def split: option.splits json.splits if_splits)
  ultimately show ?thesis by (simp add: opts)
qed

section \<open>What dispatch guarantees\<close>

lemma owner_Inr:
  assumes "owner env r = Inr ow"
  shows "ow_capability ow = capability env (ow_parentSessionId ow) (ow_projectDirectory ow)"
    and "ow_parentSessionId ow \<noteq> []"
    and "\<exists>d. realpath env d = Some (ow_projectDirectory ow)"
    and "hex_digest (ow_capability ow)"
  using assms unfolding owner_def Let_def by (auto split: if_splits option.splits)

lemma authorize_Inr: "authorize g i ow = Inr u \<longleftrightarrow> owns g i ow"
  by (simp add: authorize_def)

fun call_session :: "rpc_call \<Rightarrow> js_string option" where
  "call_session (Call_execWait i _) = Some i"
| "call_session (Call_write i _) = Some i"
| "call_session (Call_resize i _ _) = Some i"
| "call_session (Call_wait i _ _) = Some i"
| "call_session (Call_sendWait i _ _ _) = Some i"
| "call_session (Call_read i _ _ _) = Some i"
| "call_session (Call_search i _ _ _ _ _) = Some i"
| "call_session (Call_get i) = Some i"
| "call_session (Call_rawOutput i) = Some i"
| "call_session (Call_execOutput i) = Some i"
| "call_session (Call_stop i) = Some i"
| "call_session (Call_cleanup i) = Some i"
| "call_session _ = None"

fun call_options :: "rpc_call \<Rightarrow> SpawnOptions option" where
  "call_options (Call_spawn opts) = Some opts"
| "call_options (Call_exec opts) = Some opts"
| "call_options (Call_execStart opts) = Some opts"
| "call_options _ = None"

text \<open>A call is within the rights of its owner.\<close>

definition call_ok :: "server_env \<Rightarrow> SessionRegistry \<Rightarrow> RpcRequest \<Rightarrow> OwnerContext \<Rightarrow> rpc_call \<Rightarrow> bool" where
  "call_ok env g r ow c \<longleftrightarrow>
     (\<forall>i. call_session c = Some i \<longrightarrow> owns g i ow) \<and>
     (\<forall>opts. call_options c = Some opts \<longrightarrow>
        so_parentSessionId opts = ow_parentSessionId ow \<and>
        so_ownerProjectDirectory opts = ow_projectDirectory ow \<and>
        so_ownerCapabilityHash opts = ow_capability ow \<and> spawn_bounded opts) \<and>
     (\<forall>ow' opr. c = Call_approval ow' opr \<longrightarrow> ow' = ow \<and> approvalOwner env r = Inr ow) \<and>
     (\<forall>ow' i t. c = Call_approvalWait ow' i t \<longrightarrow> ow' = ow \<and> approvalOwner env r = Inr ow) \<and>
     (\<forall>ow'. c = Call_list ow' \<or> c = Call_diagnostics ow' \<longrightarrow> ow' = ow) \<and>
     (\<forall>p d h. c = Call_cleanupByParentSession p d h \<longrightarrow>
        p = ow_parentSessionId ow \<and> d = ow_projectDirectory ow \<and> h = ow_capability ow)"

lemma for_owner_sel [simp]:
  "so_parentSessionId (for_owner ow opts) = ow_parentSessionId ow"
  "so_ownerProjectDirectory (for_owner ow opts) = ow_projectDirectory ow"
  "so_ownerCapabilityHash (for_owner ow opts) = ow_capability ow"
  by (simp_all add: for_owner_def)

lemma for_owner_bounded: "spawn_bounded (for_owner ow opts) = spawn_bounded opts"
  by (simp add: spawn_bounded_def for_owner_def)

lemma call_ok_intros:
  "owns g i ow \<Longrightarrow> call_session c = Some i \<Longrightarrow> call_ok env g r ow c"
  by (cases c) (auto simp: call_ok_def)

lemma call_ok_spawn:
  "call_options c = Some (for_owner ow opts) \<Longrightarrow> spawn_bounded opts \<Longrightarrow> call_ok env g r ow c"
  by (cases c) (auto simp: call_ok_def for_owner_bounded)

lemma session_calls_ok:
  "execWait_call g ow p = Inr c \<Longrightarrow> call_ok env g r ow c"
  "resize_call g ow p = Inr c \<Longrightarrow> call_ok env g r ow c"
  "wait_call g ow p = Inr c \<Longrightarrow> call_ok env g r ow c"
  "read_call g ow p = Inr c \<Longrightarrow> call_ok env g r ow c"
  "search_call g ow p = Inr c \<Longrightarrow> call_ok env g r ow c"
  unfolding execWait_call_def resize_call_def wait_call_def read_call_def search_call_def
  by (auto simp: and_then_Inr_iff authorize_Inr intro!: call_ok_intros simp del: js_simps)

lemma id_payload_Inr: "id_payload g ow p = Inr i \<Longrightarrow> owns g i ow"
  by (auto simp: id_payload_def and_then_Inr_iff authorize_Inr simp del: js_simps)

lemma exec_options_ok: "exec_options ow opts = Inr o2 \<Longrightarrow> o2 = for_owner ow opts"
  by (auto simp: exec_options_def split: if_splits)

lemma approval_call_shape:
  "approval_call env now fresh ow opr p = Inr c \<Longrightarrow>
   (\<exists>o1. c = Call_approval ow o1) \<or> (\<exists>i t. c = Call_approvalWait ow i t)"
  unfolding approval_call_def approvalWait_call_def
  by (auto simp: and_then_Inr_iff simp del: js_simps split: if_splits)

lemma approval_call_ok:
  "approval_call env now fresh ow opr p = Inr c \<Longrightarrow> approvalOwner env r = Inr ow \<Longrightarrow> call_ok env g r ow c"
  using approval_call_shape by (fastforce simp: call_ok_def)

lemma approvalOwner_owner:
  assumes "approvalOwner env r = Inr ow"
  shows "owner env r = Inr ow"
proof (cases "owner env r")
  case (Inr x)
  have "(case v of Some (JStr c) \<Rightarrow> if P c then Inl e else Inr x | _ \<Rightarrow> Inl e) = Inr ow \<Longrightarrow> x = ow" for v P e
    by (simp split: option.splits json.splits if_splits)
  from this [OF assms [unfolded approvalOwner_def Inr and_then_simps]] Inr show ?thesis by simp
qed (use assms in \<open>simp add: approvalOwner_def\<close>)

lemma spawn_call_ok:
  "and_then (spawnPayload p) (\<lambda>o1. Inr (Call_spawn (for_owner ow o1))) = Inr c \<Longrightarrow> call_ok env g r ow c"
  by (auto simp: and_then_Inr_iff intro!: call_ok_spawn dest: spawnPayload_bounded)

lemma exec_call_ok:
  assumes "and_then (execPayload p) (\<lambda>o1. and_then (exec_options ow o1) (\<lambda>o2. Inr (f o2))) = Inr c"
    and "\<And>o2. call_options (f o2) = Some o2"
  shows "call_ok env g r ow c"
proof -
  from assms(1) obtain o1 o2 where "execPayload p = Inr o1" "exec_options ow o1 = Inr o2" "c = f o2"
    by (auto simp: and_then_Inr_iff)
  then show ?thesis
    using execPayload_bounded [of p o1] exec_options_ok [of ow o1 o2] assms(2) by (auto intro!: call_ok_spawn)
qed

lemma id_call_ok:
  "and_then (id_payload g ow p) (\<lambda>i. Inr (f i)) = Inr c \<Longrightarrow> (\<And>i. call_session (f i) = Some i) \<Longrightarrow>
   call_ok env g r ow c"
  by (auto simp: and_then_Inr_iff dest!: id_payload_Inr intro!: call_ok_intros)

lemma cleanupByParent_call_ok: "cleanupByParent_call ow p = Inr c \<Longrightarrow> call_ok env g r ow c"
  by (auto simp: cleanupByParent_call_def and_then_Inr_iff call_ok_def simp del: js_simps split: if_splits)

lemma list_call_ok: "call_ok env g r ow (Call_list ow)" "call_ok env g r ow (Call_diagnostics ow)"
  by (simp_all add: call_ok_def)

lemma plain_call_ok:
  assumes ow: "owner env r = Inr ow" and c: "plain_call env now fresh g r ow = Inr c"
  shows "call_ok env g r ow c"
proof -
  have ap: "call_ok env g r ow c"
    if "and_then (approvalOwner env r) (\<lambda>_. approval_call env now fresh ow opr p) = Inr c" for opr p
  proof -
    from that obtain x where x: "approvalOwner env r = Inr x" "approval_call env now fresh ow opr p = Inr c"
      by (auto simp: and_then_Inr_iff)
    moreover have "x = ow" using approvalOwner_owner [OF x(1)] ow by simp
    ultimately show ?thesis by (auto intro: approval_call_ok)
  qed
  note exec = exec_call_ok [where f = Call_exec] exec_call_ok [where f = Call_execStart]
  note ids = id_call_ok [where f = Call_get] id_call_ok [where f = Call_rawOutput]
    id_call_ok [where f = Call_execOutput] id_call_ok [where f = Call_stop] id_call_ok [where f = Call_cleanup]
  show ?thesis
    using c unfolding plain_call_def Let_def
    by (simp only: split: if_splits)
       (erule spawn_call_ok exec session_calls_ok ids cleanupByParent_call_ok ap
        | simp add: list_call_ok del: js_simps | fastforce simp: list_call_ok simp del: js_simps)+
qed

lemma spend_input_Inr: "spend_input now g ow m used = Inr (i, d, used') \<Longrightarrow>
    owns g i ow \<and> useInput now ow d used = Inr used'"
  by (auto simp: spend_input_def and_then_Inr_iff authorize_Inr simp del: js_simps)

lemma write_call_ok: "write_call now g ow p used = Inr (c, used') \<Longrightarrow> call_ok env g r ow c"
  by (auto simp: write_call_def and_then_Inr_iff dest!: spend_input_Inr intro: call_ok_intros simp del: js_simps)

lemma sendWait_call_ok: "sendWait_call now g ow p used = (Inr c, used') \<Longrightarrow> call_ok env g r ow c"
  by (auto simp: sendWait_call_def and_then_Inr_iff dest!: spend_input_Inr intro!: call_ok_intros
      simp del: js_simps split: sum.splits)

lemma dispatch_ok:
  assumes "dispatch env now fresh g r used = (Inr c, used')" and "rpc_operation r \<noteq> js ''health''"
  shows "\<exists>ow. owner env r = Inr ow \<and> call_ok env g r ow c"
proof (cases "owner env r")
  case (Inr ow)
  with assms show ?thesis
    unfolding dispatch_def
    by (auto simp: list_call_ok intro: write_call_ok sendWait_call_ok plain_call_ok simp del: js_simps
        split: if_splits sum.splits prod.splits)
qed (use assms in \<open>simp add: dispatch_def del: js_simps\<close>)

section \<open>The input budget over time\<close>

text \<open>The bytes accepted from one owner over a sequence of timed inputs.\<close>

fun accepted_input :: "OwnerContext \<Rightarrow> input_usage \<Rightarrow> (int \<times> js_string) list \<Rightarrow> nat" where
  "accepted_input ow used [] = 0"
| "accepted_input ow used ((now, d) # rest) =
     (case useInput now ow d used of
        Inl _ \<Rightarrow> accepted_input ow used rest
      | Inr used' \<Rightarrow> byteLength d + accepted_input ow used' rest)"

lemma useInput_Inr:
  "useInput now ow d used = Inr used' \<Longrightarrow>
   byteLength d \<le> MAX_INPUT_BYTES \<and>
   (\<forall>k. k \<noteq> input_key ow \<longrightarrow> map_get used' k = map_get used k) \<and>
   (let w = current_window now (map_get used (input_key ow)) in
    map_get used' (input_key ow) = Some (w\<lparr> win_bytes := win_bytes w + byteLength d \<rparr>) \<and>
    win_bytes w + byteLength d \<le> MAX_INPUT_BYTES_PER_MINUTE)"
  by (auto simp: useInput_def Let_def split: if_splits)

lemma accepted_within_window:
  assumes "map_get used (input_key ow) = Some w" and "win_bytes w \<le> MAX_INPUT_BYTES_PER_MINUTE"
    and "\<forall>(t, d)\<in>set evs. t - win_startedAt w < 60000"
  shows "win_bytes w + accepted_input ow used evs \<le> MAX_INPUT_BYTES_PER_MINUTE"
  using assms
proof (induction evs arbitrary: used w)
  case (Cons ev evs)
  obtain t d where ev: "ev = (t, d)" by (cases ev)
  show ?case
  proof (cases "useInput t ow d used")
    case (Inl e)
    with Cons ev show ?thesis by simp
  next
    case (Inr used')
    have cw: "current_window t (map_get used (input_key ow)) = w"
      using Cons.prems ev by (simp add: current_window_def)
    from useInput_Inr [OF Inr] have u: "map_get used' (input_key ow) = Some (w\<lparr> win_bytes := win_bytes w + byteLength d \<rparr>)"
      "win_bytes w + byteLength d \<le> MAX_INPUT_BYTES_PER_MINUTE" by (simp_all add: cw Let_def)
    have "win_bytes (w\<lparr> win_bytes := win_bytes w + byteLength d \<rparr>) + accepted_input ow used' evs \<le> MAX_INPUT_BYTES_PER_MINUTE"
      by (rule Cons.IH [OF u(1)]) (use u Cons.prems in auto)
    with Inr ev show ?thesis by simp
  qed
qed simp

section \<open>Properties\<close>

text \<open>
  C9: no request reaches another owner's session. Whatever a request contains, a call that
  names a session is let through only when the stored record of that session carries the
  parent session, the project directory and the capability of the request's owner, and that
  owner presented the capability the daemon derives from its secret; a new session is
  created under the owner's own identity, and approval calls need the approval capability
  as well.
\<close>

theorem dispatch_authorized:
  assumes "dispatch env now fresh g r used = (Inr c, used')" and "rpc_operation r \<noteq> js ''health''"
  shows "\<exists>ow. owner env r = Inr ow \<and>
    ow_capability ow = capability env (ow_parentSessionId ow) (ow_projectDirectory ow) \<and>
    (\<forall>i. call_session c = Some i \<longrightarrow>
      (\<exists>rec. map_get (records g) i = Some rec \<and> parentSessionId rec = ow_parentSessionId ow \<and>
        ownerProjectDirectory rec = ow_projectDirectory ow \<and> ownerCapabilityHash rec = ow_capability ow)) \<and>
    (\<forall>opts. call_options c = Some opts \<longrightarrow>
      so_parentSessionId opts = ow_parentSessionId ow \<and>
      so_ownerProjectDirectory opts = ow_projectDirectory ow \<and>
      so_ownerCapabilityHash opts = ow_capability ow) \<and>
    (\<forall>ow' opr. c = Call_approval ow' opr \<longrightarrow> ow' = ow \<and> approvalOwner env r = Inr ow)"
proof -
  from dispatch_ok [OF assms] obtain ow where ow: "owner env r = Inr ow" "call_ok env g r ow c" by blast
  have own: "\<exists>rec. map_get (records g) i = Some rec \<and> parentSessionId rec = ow_parentSessionId ow \<and>
      ownerProjectDirectory rec = ow_projectDirectory ow \<and> ownerCapabilityHash rec = ow_capability ow"
    if "owns g i ow" for i
    using that by (cases "map_get (records g) i") (auto simp: owns_def registry_owns_def)
  show ?thesis
    using ow owner_Inr(1) [OF ow(1)] own by (intro exI [of _ ow]) (auto simp: call_ok_def)
qed

text \<open>
  What is spawned is bounded. Options accepted from a request have a non-empty command
  of at most 4096 units, at most 256 arguments and 128 environment entries within their size
  limits, bounded texts, and a timeout that is positive if present; an exec has a positive
  output limit of at most one MiB if it has one.
\<close>

theorem spawn_options_bounded:
  assumes "dispatch env now fresh g r used = (Inr c, used')" and "call_options c = Some opts"
  shows "spawn_bounded opts"
proof -
  have "rpc_operation r \<noteq> js ''health''"
  proof
    assume "rpc_operation r = js ''health''"
    then have "c = Call_health" using assms(1) by (auto simp: dispatch_def and_then_Inr_iff simp del: js_simps)
    then show False using assms(2) by simp
  qed
  from dispatch_ok [OF assms(1) this] assms(2) show ?thesis by (auto simp: call_ok_def)
qed

text \<open>
  C38: only the holder of the daemon's token is served. A request is answered only if it posts
  to the RPC path with the right bearer token, has a body of at most one MiB and speaks the
  protocol version; every other request changes nothing.
\<close>

theorem handle_authenticated:
  assumes "handle env decode parse token now fresh g h used = (res, used')"
  shows "(\<exists>i c. res = Answer i c) \<or> used' \<noteq> used \<longrightarrow>
    hr_method h = js ''POST'' \<and> hr_path h = js ''/rpc'' \<and>
    hr_authorization h = Some (js ''Bearer '' @ token) \<and>
    length (concat (hr_body h)) \<le> MAX_REQUEST_BYTES \<and>
    (\<exists>m r. parse (decode (concat (hr_body h))) = Some (JObj m) \<and> rpc_request_of m = Some r \<and>
      rpc_version r = int DAEMON_PROTOCOL_VERSION)"
proof -
  have chunks: "length (concat cs) + b \<le> MAX_REQUEST_BYTES" if "read_chunks b cs = Inr u" "b \<le> MAX_REQUEST_BYTES" for b cs u
    using that by (induction cs arbitrary: b) (auto split: if_splits, fastforce)
  have body: "length (concat (hr_body h)) \<le> MAX_REQUEST_BYTES \<and> b = decode (concat (hr_body h))"
    if "requestBody decode h = Inr b" for b
    using that chunks [of 0 "hr_body h"] by (auto simp: requestBody_def Let_def and_then_Inr_iff split: if_splits)
  show ?thesis
    using assms unfolding handle_def
    by (auto simp del: js_simps dest!: body split: if_splits sum.splits option.splits json.splits prod.splits)
qed

text \<open>
  The input budget. Writing is charged to its owner only, a single input is at most 64 KiB,
  a window never counts more than 256 KiB, a refused input is not charged, and as long as the
  owner's window lasts the accepted inputs add up to at most 256 KiB.
\<close>

theorem input_budget:
  assumes "map_get used (input_key ow) = None" and "\<forall>(t, d)\<in>set evs. now \<le> t \<and> t - now < 60000"
    and "useInput now ow first used = Inr used'"
  shows "byteLength first + accepted_input ow used' evs \<le> MAX_INPUT_BYTES_PER_MINUTE \<and>
    byteLength first \<le> MAX_INPUT_BYTES \<and>
    (\<forall>k. k \<noteq> input_key ow \<longrightarrow> map_get used' k = map_get used k)"
proof -
  let ?w = "\<lparr> win_startedAt = now, win_bytes = byteLength first \<rparr>"
  from useInput_Inr [OF assms(3)] assms(1) have
    u: "map_get used' (input_key ow) = Some ?w" "byteLength first \<le> MAX_INPUT_BYTES_PER_MINUTE"
      "byteLength first \<le> MAX_INPUT_BYTES" "\<forall>k. k \<noteq> input_key ow \<longrightarrow> map_get used' k = map_get used k"
    by (simp_all add: current_window_def Let_def)
  have "win_bytes ?w + accepted_input ow used' evs \<le> MAX_INPUT_BYTES_PER_MINUTE"
    by (rule accepted_within_window [OF u(1)]) (use u(2) assms(2) in auto)
  with u show ?thesis by simp
qed

text \<open>
  The code of a failure. An error of the daemon is reported with the code it was raised
  with, whatever its message says; validation errors are reported as such; and no other
  error is ever reported as a validation, protocol or authentication failure.
\<close>

theorem failure_code_exact:
  "classifyRpcFailure (Thrown_daemon m code) = daemon_code code \<and>
   (classifyRpcFailure t = F_validation \<longleftrightarrow> (\<exists>m. t = Thrown_validation m)) \<and>
   classifyRpcFailure t \<notin> {F_protocol, F_authentication} \<and>
   (classifyRpcFailure t = F_process \<longrightarrow> (\<exists>m c. t = Thrown_process m c))"
proof -
  have "daemon_code x \<notin> {F_validation, F_protocol, F_authentication, F_process}" for x by (cases x) simp_all
  then show ?thesis by (cases t) (auto simp: classify_message_def)
qed

section \<open>A sample server\<close>

definition sample_digest :: js_string where
  "sample_digest = replicate 64 97"

definition sample_env :: server_env where
  "sample_env = \<lparr> sha256 = (\<lambda>_. sample_digest), realpath = Some, nfc = (\<lambda>s. s), ownershipSecret = js ''s'' \<rparr>"

definition sample_request_of :: "js_string \<Rightarrow> payload \<Rightarrow> RpcRequest" where
  "sample_request_of opr p =
     \<lparr> rpc_id = js ''1'', rpc_version = int DAEMON_PROTOCOL_VERSION, rpc_operation = opr,
       rpc_owner = Some (JObj [(js ''parentSessionId'', JStr (js ''ses_1'')),
         (js ''projectDirectory'', JStr (js ''/w'')), (js ''capability'', JStr sample_digest)]),
       rpc_approvalCapability = None, rpc_payload = Some (JObj p) \<rparr>"

definition sample_rpc_owner :: OwnerContext where
  "sample_rpc_owner = \<lparr> ow_parentSessionId = js ''ses_1'', ow_projectDirectory = js ''/w'', ow_capability = sample_digest \<rparr>"

definition sample_sessions :: SessionRegistry where
  "sample_sessions = (new_registry DEFAULT_SESSION_LIMITS)
     \<lparr> records := [(js ''pty_1'', sample_record\<lparr> ownerCapabilityHash := sample_digest \<rparr>)] \<rparr>"

lemma sample_request_sel [simp]:
  "rpc_operation (sample_request_of opr p) = opr" "rpc_payload (sample_request_of opr p) = Some (JObj p)"
  by (simp_all add: sample_request_of_def)

lemma sample_digest_hex: "hex_digest sample_digest"
  by (simp add: hex_digest_def sample_digest_def is_digit_def list_all_length)

lemma sample_rpc_owner: "owner sample_env (sample_request_of opr p) = Inr sample_rpc_owner"
  using sample_digest_hex
  by (simp add: owner_def sample_request_of_def text_field_def sample_env_def capability_def sample_rpc_owner_def)

lemma sample_owns: "owns sample_sessions (js ''pty_1'') sample_rpc_owner"
  by (simp add: owns_def registry_owns_def sample_sessions_def sample_rpc_owner_def sample_record_def)

lemma sample_get_call:
  "dispatch sample_env 0 [] sample_sessions (sample_request_of (js ''get'') [(js ''id'', JStr (js ''pty_1''))]) [] =
   (Inr (Call_get (js ''pty_1'')), [])"
proof -
  have "id_payload sample_sessions sample_rpc_owner (Some (JObj [(js ''id'', JStr (js ''pty_1''))])) = Inr (js ''pty_1'')"
    using sample_owns
    by (simp add: id_payload_def objectPayload_def onlyFields_def requiredString_def
        MAX_STRING_LENGTH_def authorize_def)
  then show ?thesis
    by (simp add: dispatch_def sample_rpc_owner plain_call_def Let_def)
qed

lemma sample_spawn_call:
  "\<exists>opts. dispatch sample_env 0 [] sample_sessions
     (sample_request_of (js ''spawn'') [(js ''command'', JStr (js ''make'')), (js ''timeoutSeconds'', JNum 5)]) [] =
     (Inr (Call_spawn opts), []) \<and> so_timeoutSeconds opts = Some 5"
proof -
  let ?p = "[(js ''command'', JStr (js ''make'')), (js ''timeoutSeconds'', JNum 5)]"
  have "\<exists>o1. spawnPayload (Some (JObj ?p)) = Inr o1 \<and> so_timeoutSeconds o1 = Some 5"
    by (simp add: spawnPayload_def objectPayload_def onlyFields_def spawn_fields_def spawn_args_def spawn_env_def
        optionalNonnegativeInteger_def MAX_PAGE_SIZE_def optionalBoolean_def spawn_lifecycle_def optionalString_def
        requiredString_def MAX_STRING_LENGTH_def MAX_COMMAND_LENGTH_def)
  then obtain o1 where "spawnPayload (Some (JObj ?p)) = Inr o1" "so_timeoutSeconds o1 = Some 5" by blast
  moreover have "dispatch env now f g (sample_request_of (js ''spawn'') p) u =
      (and_then (spawnPayload (Some (JObj p))) (\<lambda>o1. Inr (Call_spawn (for_owner ow o1))), u)"
    if "owner env (sample_request_of (js ''spawn'') p) = Inr ow" for env now f g p u ow
    using that by (simp add: dispatch_def plain_call_def Let_def)
  from this [OF sample_rpc_owner] have "dispatch sample_env 0 [] sample_sessions (sample_request_of (js ''spawn'') ?p) [] =
      (and_then (spawnPayload (Some (JObj ?p))) (\<lambda>o1. Inr (Call_spawn (for_owner sample_rpc_owner o1))), [])" .
  ultimately show ?thesis by (auto simp: for_owner_def simp del: js_simps)
qed

theorem dispatch_authorized_witness:
  "\<exists>rec. map_get (records sample_sessions) (js ''pty_1'') = Some rec \<and> parentSessionId rec = js ''ses_1''"
proof -
  have "rpc_operation (sample_request_of (js ''get'') p) \<noteq> js ''health''" for p by simp
  from dispatch_authorized [OF sample_get_call this] obtain ow where
    "owner sample_env (sample_request_of (js ''get'') [(js ''id'', JStr (js ''pty_1''))]) = Inr ow"
    "\<exists>rec. map_get (records sample_sessions) (js ''pty_1'') = Some rec \<and> parentSessionId rec = ow_parentSessionId ow"
    by (metis call_session.simps(8))
  then show ?thesis unfolding sample_rpc_owner by (auto simp: sample_rpc_owner_def simp del: js_simps)
qed

theorem spawn_options_bounded_witness: "\<exists>opts. spawn_bounded opts \<and> so_timeoutSeconds opts = Some 5"
  using sample_spawn_call spawn_options_bounded by (metis call_options.simps(1))

definition sample_http :: "js_string \<Rightarrow> http_request" where
  "sample_http tok = \<lparr> hr_method = js ''POST'', hr_path = js ''/rpc'', hr_authorization = Some (js ''Bearer '' @ tok),
     hr_contentLength = None, hr_body = [] \<rparr>"

definition sample_json :: "js_string \<Rightarrow> json option" where
  "sample_json body = Some (JObj [(js ''id'', JStr (js ''1'')), (js ''version'', JNum (int DAEMON_PROTOCOL_VERSION)),
     (js ''operation'', JStr (js ''health''))])"

lemma sample_handle:
  "handle sample_env (\<lambda>_. []) sample_json (js ''k'') 0 [] sample_sessions (sample_http (js ''k'')) [] =
   (Answer (js ''1'') Call_health, [])"
  by (simp add: handle_def sample_http_def requestBody_def Let_def sample_json_def rpc_request_of_def MAX_ID_LENGTH_def
      dispatch_def objectPayload_def onlyFields_def)

theorem handle_authenticated_witness: "hr_authorization (sample_http (js ''k'')) = Some (js ''Bearer '' @ js ''k'')"
  using handle_authenticated [OF sample_handle] by blast

theorem input_budget_witness:
  "\<exists>used'. useInput 0 sample_rpc_owner (js ''ls'') [] = Inr used' \<and>
     byteLength (js ''ls'') + accepted_input sample_rpc_owner used' [(10, js ''pwd''), (59999, js ''x'')] \<le> MAX_INPUT_BYTES_PER_MINUTE"
proof -
  obtain used' where u: "useInput 0 sample_rpc_owner (js ''ls'') [] = Inr used'"
    by (simp add: useInput_def Let_def current_window_def MAX_INPUT_BYTES_def MAX_INPUT_BYTES_PER_MINUTE_def
        unit_bytes_def high_surrogate_def)
  have "byteLength (js ''ls'') + accepted_input sample_rpc_owner used' [(10, js ''pwd''), (59999, js ''x'')] \<le>
      MAX_INPUT_BYTES_PER_MINUTE"
    by (rule input_budget [OF _ _ u, THEN conjunct1]) simp_all
  with u show ?thesis by blast
qed

theorem failure_code_exact_witness:
  "\<exists>m c. Thrown_process (js ''boom'') None = Thrown_process m c \<and>
     classifyRpcFailure (Thrown_process (js ''boom'') None) = F_process"
proof -
  have "classifyRpcFailure (Thrown_process (js ''boom'') None) = F_process"
    by (simp add: isStorageError_def classify_message_def)
  with failure_code_exact [of undefined undefined "Thrown_process (js ''boom'') None"] show ?thesis by blast
qed

end
