(* ===== verification/Journal_Reader.thy ===== *)
theory Journal_Reader
  imports Journal
begin

text \<open>
  The reader of \<open>src/daemon/journal-reader.ts\<close>: the output of a session as numbered lines with
  byte sequences, pages of it, and searches in it.
\<close>

section \<open>Definitions\<close>

definition lineCount_of :: "js_string \<Rightarrow> nat" where
  "lineCount_of output =
     (if output = [] then 0
      else (let lines = split_on LF output in
        if last lines = [] then length lines - 1 else length lines))"

record output_line =
  ln_lineNumber :: nat
  ln_sequence :: nat
  ln_text :: js_string

text \<open>
  The \<open>map\<close> callback of \<open>outputLines\<close>, which advances \<open>sequence\<close> as it goes; \<open>parts\<close> is the
  number of parts, the trailing empty one included.
\<close>

fun number_lines :: "nat \<Rightarrow> nat \<Rightarrow> nat \<Rightarrow> js_string list \<Rightarrow> output_line list" where
  "number_lines parts index sequence [] = []"
| "number_lines parts index sequence (text # rest) =
     \<lparr> ln_lineNumber = index + 1, ln_sequence = sequence, ln_text = text \<rparr> #
     number_lines parts (index + 1)
       (sequence + (byteLength text + (if index < parts - 1 then 1 else 0))) rest"

definition outputLines :: "js_string \<Rightarrow> nat \<Rightarrow> output_line list" where
  "outputLines output firstSequence =
     (if output = [] then []
      else (let parts = split_on LF output;
                count = (if ends_with_lf output then length parts - 1 else length parts)
            in number_lines (length parts) 0 firstSequence (take count parts)))"

text \<open>\<open>toLowerCase\<close> is the Unicode case mapping of the runtime, the argument \<open>lower\<close>.\<close>

definition searchLines ::
  "(js_string \<Rightarrow> js_string) \<Rightarrow> js_string \<Rightarrow> js_string \<Rightarrow> bool \<Rightarrow> nat \<Rightarrow> output_line list" where
  "searchLines lower output pattern ignoreCase firstSequence =
     (let needle = (if ignoreCase then lower pattern else pattern)
      in filter (\<lambda>l. let haystack = (if ignoreCase then lower (ln_text l) else ln_text l)
                     in ln_text l \<noteq> [] \<and> str_includes haystack needle)
           (outputLines output firstSequence))"

record ReadResult =
  rr_lines :: "js_string list"
  rr_sequences :: "nat list"
  rr_totalLines :: nat
  rr_offset :: nat
  rr_hasMore :: bool
  rr_firstRetainedSequence :: nat
  rr_nextSequence :: nat
  rr_truncated :: bool
  rr_containment :: "ContainmentReport option"
  rr_termination :: "TerminationResult option"

record SearchResult =
  sr_matches :: "output_line list"
  sr_totalMatches :: nat
  sr_totalLines :: nat
  sr_offset :: nat
  sr_hasMore :: bool
  sr_firstRetainedSequence :: nat
  sr_nextSequence :: nat
  sr_truncated :: bool
  sr_containment :: "ContainmentReport option"
  sr_termination :: "TerminationResult option"

text \<open>\<open>limit === undefined ? xs.slice(start) : xs.slice(start, start + limit)\<close>.\<close>

definition page_of :: "nat \<Rightarrow> nat option \<Rightarrow> 'a list \<Rightarrow> 'a list" where
  "page_of start limit xs =
     (case limit of None \<Rightarrow> drop start xs | Some n \<Rightarrow> take n (drop start xs))"

definition from_sequence :: "nat option \<Rightarrow> output_line list \<Rightarrow> output_line list" where
  "from_sequence sequence lines =
     filter (\<lambda>l. case sequence of None \<Rightarrow> True | Some s \<Rightarrow> ln_sequence l \<ge> s) lines"

text \<open>\<open>flush\<close> has run: the journal holds everything the session printed.\<close>

definition reader_output :: "journal \<Rightarrow> (journal_error, js_string) result" where
  "reader_output j = readOutput j"

definition reader_read ::
  "journal \<Rightarrow> SessionRecord \<Rightarrow> int \<Rightarrow> nat option \<Rightarrow> nat option \<Rightarrow> (journal_error, ReadResult) result" where
  "reader_read j r offset limit sequence =
     and_then (reader_output j) (\<lambda>output.
       let lines = from_sequence sequence (outputLines output (firstRetainedSequence r));
           start = nat (max 0 offset);
           page = page_of start limit lines
       in Inr \<lparr> rr_lines = map ln_text page, rr_sequences = map ln_sequence page,
                rr_totalLines = length lines, rr_offset = start,
                rr_hasMore = (start + length page < length lines),
                rr_firstRetainedSequence = firstRetainedSequence r, rr_nextSequence = nextSequence r,
                rr_truncated = outputTruncated r, rr_containment = containment r,
                rr_termination = terminationResult r \<rparr>)"

definition reader_search ::
  "(js_string \<Rightarrow> js_string) \<Rightarrow> journal \<Rightarrow> SessionRecord \<Rightarrow> js_string \<Rightarrow> bool \<Rightarrow> int \<Rightarrow> nat option \<Rightarrow> nat option \<Rightarrow>
   (journal_error, SearchResult) result" where
  "reader_search lower j r pattern ignoreCase offset limit sequence =
     and_then (reader_output j) (\<lambda>output.
       let matches = from_sequence sequence
             (searchLines lower output pattern ignoreCase (firstRetainedSequence r));
           start = nat (max 0 offset);
           page = page_of start limit matches
       in Inr \<lparr> sr_matches = page, sr_totalMatches = length matches,
                sr_totalLines = lineCount_of output, sr_offset = start,
                sr_hasMore = (start + length page < length matches),
                sr_firstRetainedSequence = firstRetainedSequence r, sr_nextSequence = nextSequence r,
                sr_truncated = outputTruncated r, sr_containment = containment r,
                sr_termination = terminationResult r \<rparr>)"

record raw_output =
  raw_text :: js_string
  raw_byteLength :: nat
  raw_containment :: "ContainmentReport option"
  raw_termination :: "TerminationResult option"

definition reader_raw :: "journal \<Rightarrow> SessionRecord \<Rightarrow> (journal_error, raw_output) result" where
  "reader_raw j r =
     and_then (reader_output j) (\<lambda>raw.
       Inr \<lparr> raw_text = raw, raw_byteLength = byteLength raw, raw_containment = containment r,
             raw_termination = terminationResult r \<rparr>)"

section \<open>Lines and their byte offsets\<close>

lemma number_lines_length [simp]: "length (number_lines n i s ps) = length ps"
  by (induction ps arbitrary: i s) auto

lemma number_lines_text [simp]: "map ln_text (number_lines n i s ps) = ps"
  by (induction ps arbitrary: i s) auto

lemma number_lines_numbers: "map ln_lineNumber (number_lines n i s ps) = [Suc i..<Suc i + length ps]"
  by (induction ps arbitrary: i s) (auto simp: upt_rec)

lemma split_on_ends: "ends_with_lf s \<longleftrightarrow> s \<noteq> [] \<and> last (split_on LF s) = []"
  by (auto simp: ends_with_lf_def split_on_last_empty)

lemma outputLines_length: "length (outputLines s n) = lineCount_of s"
proof (cases "s = []")
  case False
  have "min (length (split_on LF s)) (length (split_on LF s) - 1) = length (split_on LF s) - 1" by simp
  with False show ?thesis
    by (simp add: outputLines_def lineCount_of_def Let_def split_on_ends)
qed (simp add: outputLines_def lineCount_of_def)

lemma join_lines:
  assumes "s \<noteq> []"
  shows "join_with [LF] (map ln_text (outputLines s n)) @ (if ends_with_lf s then [LF] else []) = s"
proof -
  let ?p = "split_on LF s"
  have ne: "?p \<noteq> []" by simp
  have sn: "join_with [LF] (ps @ [[]]) = join_with [LF] ps @ (if ps = [] then [] else [LF])" for ps :: "js_string list"
    by (induction ps rule: join_with.induct [of _ "[LF]"]) auto
  show ?thesis
  proof (cases "ends_with_lf s")
    case True
    then have l: "last ?p = []" by (simp add: split_on_ends)
    have p: "?p = butlast ?p @ [[]]" using append_butlast_last_id [OF ne] l by simp
    have "butlast ?p \<noteq> []"
    proof
      assume "butlast ?p = []"
      with p have "?p = [[]]" by simp
      with assms show False by (simp add: split_on_single_empty)
    qed
    then have "join_with [LF] ?p = join_with [LF] (butlast ?p) @ [LF]"
      by (subst p) (simp add: sn)
    then have "join_with [LF] (butlast ?p) @ [LF] = s" by (simp add: join_split_on)
    with True assms show ?thesis by (simp add: outputLines_def Let_def butlast_conv_take)
  next
    case False
    with assms show ?thesis by (simp add: outputLines_def Let_def join_split_on)
  qed
qed

definition lines_before :: "js_string list \<Rightarrow> js_string" where
  "lines_before ps = concat (map (\<lambda>p. p @ [LF]) ps)"

lemma lines_before_bytes:
  "byteLength (lines_before ps) = (\<Sum>p\<leftarrow>ps. byteLength p + 1)"
proof (induction ps)
  case (Cons p ps)
  have "byteLength ((p @ [LF]) @ lines_before ps) = byteLength (p @ [LF]) + byteLength (lines_before ps)"
    by (rule byteLength_append) (simp add: splits_pair_units)
  moreover have "byteLength (p @ [LF]) = byteLength p + 1"
    by (subst byteLength_append) (simp_all add: splits_pair_units unit_bytes_def)
  ultimately show ?case using Cons by (simp add: lines_before_def)
qed (simp add: lines_before_def)

lemma number_lines_nth:
  "k < length ps \<Longrightarrow> i + length ps \<le> n \<Longrightarrow>
   number_lines n i q ps ! k =
     \<lparr> ln_lineNumber = i + k + 1, ln_sequence = q + (\<Sum>p\<leftarrow>take k ps. byteLength p + 1), ln_text = ps ! k \<rparr>"
proof (induction ps arbitrary: i q k)
  case (Cons p ps)
  then show ?case by (cases k) auto
qed simp

lemma join_with_drop:
  "k < length ps \<Longrightarrow> join_with [LF] ps = lines_before (take k ps) @ join_with [LF] (drop k ps)"
proof (induction ps arbitrary: k)
  case (Cons p ps)
  show ?case
  proof (cases k)
    case (Suc m)
    with Cons.prems have "ps \<noteq> []" by auto
    then have "join_with [LF] (p # ps) = p @ [LF] @ join_with [LF] ps" by (cases ps) auto
    with Suc Cons show ?thesis by (simp add: lines_before_def)
  qed (simp add: lines_before_def)
qed simp

lemma join_with_hd:
  "ps \<noteq> [] \<Longrightarrow> \<exists>rest. join_with [LF] ps = hd ps @ rest \<and> (rest = [] \<or> hd rest = LF)"
  by (cases "([LF], ps)" rule: join_with.cases) auto

lemma outputLines_nth:
  assumes "k < length (outputLines s n)"
  shows "\<exists>before rest. s = before @ ln_text (outputLines s n ! k) @ rest \<and>
    ln_sequence (outputLines s n ! k) = n + byteLength before \<and>
    ln_lineNumber (outputLines s n ! k) = k + 1 \<and>
    (before = [] \<or> last before = LF) \<and> (rest = [] \<or> hd rest = LF) \<and>
    LF \<notin> set (ln_text (outputLines s n ! k))"
proof -
  let ?p = "split_on LF s"
  have s: "s \<noteq> []" using assms by (auto simp: outputLines_def)
  define c where "c = (if ends_with_lf s then length ?p - 1 else length ?p)"
  have ol: "outputLines s n = number_lines (length ?p) 0 n (take c ?p)"
    using s by (simp add: outputLines_def c_def Let_def)
  have c: "c \<le> length ?p" by (simp add: c_def)
  then have k: "k < c" "k < length ?p" using assms by (simp_all add: ol)
  have nth: "outputLines s n ! k = \<lparr> ln_lineNumber = k + 1,
      ln_sequence = n + byteLength (lines_before (take k ?p)), ln_text = ?p ! k \<rparr>"
    using number_lines_nth [of k "take c ?p" 0 "length ?p" n] k c
    by (simp add: ol lines_before_bytes min_def)
  have "drop k ?p \<noteq> []" using k by simp
  from join_with_hd [OF this] obtain rest where
    rest: "join_with [LF] (drop k ?p) = ?p ! k @ rest" "rest = [] \<or> hd rest = LF"
    using k by (auto simp: hd_drop_conv_nth)
  have "s = lines_before (take k ?p) @ ?p ! k @ rest"
    using join_with_drop [OF k(2)] rest(1) join_split_on [of LF s] by simp
  moreover have "lines_before ps = [] \<or> last (lines_before ps) = LF" for ps
    by (induction ps) (auto simp: lines_before_def)
  moreover have "LF \<notin> set (?p ! k)" using k(2) by (meson nth_mem split_on_no_sep)
  ultimately show ?thesis using rest(2) by (intro exI [of _ "lines_before (take k ?p)"] exI [of _ rest]) (simp add: nth)
qed

lemma reader_read_total: "readOutput j = Inr out \<Longrightarrow> \<exists>res. reader_read j r offset limit sequence = Inr res"
  by (simp add: reader_read_def reader_output_def Let_def)

lemma reader_search_total:
  "readOutput j = Inr out \<Longrightarrow> \<exists>res. reader_search lower j r pattern ic offset limit sequence = Inr res"
  by (simp add: reader_search_def reader_output_def Let_def)

section \<open>Properties\<close>

text \<open>
  The line view of the output is exact. The \<open>k\<close>-th line is the text between two line ends
  of the output, its number is \<open>k + 1\<close>, its sequence is the byte position of its first
  character, the number of lines is the session's line count, and joining the lines gives
  the output back up to its final line end.
\<close>

theorem line_view_exact:
  "length (outputLines s n) = lineCount_of s \<and>
   (s \<noteq> [] \<longrightarrow> join_with [LF] (map ln_text (outputLines s n)) @ (if ends_with_lf s then [LF] else []) = s) \<and>
   (\<forall>k<length (outputLines s n). \<exists>before rest. s = before @ ln_text (outputLines s n ! k) @ rest \<and>
      ln_sequence (outputLines s n ! k) = n + byteLength before \<and>
      ln_lineNumber (outputLines s n ! k) = k + 1 \<and>
      (before = [] \<or> last before = LF) \<and> (rest = [] \<or> hd rest = LF) \<and>
      LF \<notin> set (ln_text (outputLines s n ! k)))"
  using outputLines_length [of s n] join_lines [of s n] outputLines_nth [of _ s n] by blast

theorem line_view_exact_witness:
  "join_with [LF] (map ln_text (outputLines (js ''a'' @ [LF]) 7)) @ [LF] = js ''a'' @ [LF]"
  using line_view_exact [of "js ''a'' @ [LF]" 7] by (simp add: ends_with_lf_def)



text \<open>
  A search returns exactly the non-empty lines that contain the pattern, with the line
  numbers and sequences of the line view, in order.
\<close>

theorem search_exact:
  assumes "readOutput j = Inr out" and "reader_search lower j r pattern ic 0 None None = Inr res"
  shows "sr_matches res = filter (\<lambda>l. ln_text l \<noteq> [] \<and>
      (\<exists>a b. (if ic then lower (ln_text l) else ln_text l) = a @ (if ic then lower pattern else pattern) @ b))
      (outputLines out (firstRetainedSequence r)) \<and>
    sr_totalMatches res = length (sr_matches res) \<and> \<not> sr_hasMore res \<and> sr_totalLines res = lineCount_of out"
  using assms
  by (auto simp: reader_search_def reader_output_def Let_def page_of_def from_sequence_def searchLines_def
      includes_iff)

theorem search_exact_witness:
  "\<exists>res. reader_search id sample_journal sample_record (js ''k'') True 0 None None = Inr res \<and>
     sr_totalMatches res = length (sr_matches res)"
proof -
  have out: "readOutput sample_journal = Inr (chunks_text [sample_chunk])"
    using journal_rep_read [OF sample_journal_rep(1)] by (simp add: readOutput_def)
  from reader_search_total [OF out] obtain res
    where res: "reader_search id sample_journal sample_record (js ''k'') True 0 None None = Inr res" by metis
  from search_exact [OF out res] res show ?thesis by blast
qed

end
