(* ===== verification/Supervisor.thy ===== *)
theory Supervisor
  imports Supervision Rpc Journal_Reader
begin

text \<open>
  The session supervisor (daemon/supervisor.ts): its state, deletion and clean-up of sessions,
  how the snapshots of a worker are taken over and a finished session is finalized, the roll-back
  of a lost worker, and input, resizing and stopping. Answers of workers and outcomes of writes
  are arguments of the operations.
\<close>

section \<open>State\<close>

text \<open>
  The errors of the supervisor: \<open>DaemonError\<close> for a missing and for a closed session, the limits
  of the registry, \<open>ProcessError\<close>, a failed write or an error with code \<open>ESTORAGE\<close>, and plain errors.
\<close>

datatype sup_error =
    Sup_not_found js_string
  | Sup_closed js_string
  | Sup_limit daemon_error
  | Sup_process js_string
  | Sup_storage js_string
  | Sup_plain js_string

record PendingWait =
  pw_condition :: WaitCondition
  pw_reservation :: WaitReservation

text \<open>
  \<open>sv_finalizations\<close> holds the finalizations that have failed: the entry of one that succeeds is
  removed. \<open>sv_persist\<close> is the outcome the queue of wait results has settled with, which is what
  \<open>flush\<close> awaits.
\<close>

record Supervisor =
  sv_registry :: SessionRegistry
  sv_router :: SessionRouter
  sv_waits :: "(js_string, PendingWait list) js_map"
  sv_finalizations :: "(js_string, sup_error) js_map"
  sv_confirmed :: "js_string js_set"
  sv_persist :: "(sup_error, unit) result"
  sv_disk :: session_files

text \<open>\<open>String(error)\<close> for the errors that are reported inside another one.\<close>

fun error_text :: "sup_error \<Rightarrow> js_string" where
  "error_text (Sup_storage m) = js ''Error: '' @ m"
| "error_text (Sup_process m) = js ''Error: '' @ m"
| "error_text (Sup_plain m) = js ''Error: '' @ m"
| "error_text (Sup_not_found i) = js ''Error: PTY session '' @ [39] @ i @ [39] @ js '' not found.''"
| "error_text (Sup_closed i) = js ''Error: PTY session '' @ [39] @ i @ [39] @ js '' is closed.''"
| "error_text (Sup_limit (DaemonError m _)) = js ''Error: '' @ js m"
| "error_text (Sup_limit (ValidationError m)) = js ''Error: '' @ js m"
| "error_text (Sup_limit (PlainError m)) = js ''Error: '' @ js m"

fun storage_message :: "daemon_error \<Rightarrow> js_string" where
  "storage_message (PlainError m) = js m"
| "storage_message (DaemonError m _) = js m"
| "storage_message (ValidationError m) = js m"

definition sv_records :: "Supervisor \<Rightarrow> (js_string, SessionRecord) js_map" where
  "sv_records sv = records (sv_registry sv)"

definition put_record :: "SessionRecord \<Rightarrow> Supervisor \<Rightarrow> Supervisor" where
  "put_record r sv =
     sv\<lparr> sv_registry := (sv_registry sv)\<lparr> records := map_set (sv_records sv) (session_id r) r \<rparr> \<rparr>"

definition recordFor :: "Supervisor \<Rightarrow> js_string \<Rightarrow> (sup_error, SessionRecord) result" where
  "recordFor sv i = (case map_get (sv_records sv) i of None \<Rightarrow> Inl (Sup_not_found i) | Some r \<Rightarrow> Inr r)"

definition attached :: "Supervisor \<Rightarrow> js_string \<Rightarrow> nat option" where
  "attached sv i = map_get (workers (sv_router sv)) i"

definition attach :: "js_string \<Rightarrow> nat \<Rightarrow> Supervisor \<Rightarrow> Supervisor" where
  "attach i h sv = sv\<lparr> sv_router := (sv_router sv)\<lparr> workers := map_set (workers (sv_router sv)) i h \<rparr> \<rparr>"

definition detach :: "js_string \<Rightarrow> Supervisor \<Rightarrow> Supervisor" where
  "detach i sv = sv\<lparr> sv_router := (sv_router sv)\<lparr> workers := map_delete (workers (sv_router sv)) i \<rparr> \<rparr>"

definition bump :: "js_string \<Rightarrow> Supervisor \<Rightarrow> nat \<times> Supervisor" where
  "bump i sv = (case bumpVersion (sv_router sv) i of (v, rt) \<Rightarrow> (v, sv\<lparr> sv_router := rt \<rparr>))"

text \<open>\<open>await this.storage.writeSession(record)\<close>: the record in memory is refreshed even when the write fails.\<close>

definition save :: "platform \<Rightarrow> bool \<Rightarrow> SessionRecord \<Rightarrow> Supervisor \<Rightarrow> (sup_error, unit) result \<times> Supervisor" where
  "save pf io r sv =
     (case writeSession pf io r (sv_disk sv) of
        (res, r', disk) \<Rightarrow>
          (case res of Inl e \<Rightarrow> Inl (Sup_storage (storage_message e)) | Inr u \<Rightarrow> Inr u, put_record r' (sv\<lparr> sv_disk := disk \<rparr>)))"

definition settle_registry :: "platform \<Rightarrow> js_string \<Rightarrow> Supervisor \<Rightarrow> Supervisor" where
  "settle_registry pf i sv =
     (case map_get (sv_records sv) i of
        None \<Rightarrow> sv
      | Some r \<Rightarrow> sv\<lparr> sv_registry := releaseIfSettled pf (sv_registry sv) r \<rparr>)"

text \<open>\<open>await this.flush()\<close>, which every public operation begins with.\<close>

definition flushed :: "Supervisor \<Rightarrow> (Supervisor \<Rightarrow> (sup_error, 'a) result \<times> Supervisor) \<Rightarrow> (sup_error, 'a) result \<times> Supervisor" where
  "flushed sv f = (case sv_persist sv of Inl e \<Rightarrow> (Inl e, sv) | Inr _ \<Rightarrow> f sv)"

section \<open>Deleting\<close>

text \<open>\<open>rm_ok\<close> says whether the directory of the session could be removed.\<close>

definition deleteNativeSession :: "bool \<Rightarrow> js_string \<Rightarrow> Supervisor \<Rightarrow> (sup_error, bool) result \<times> Supervisor" where
  "deleteNativeSession rm_ok i sv =
     (if map_get (sv_records sv) i = None then (Inr False, sv)
      else let sv1 = detach i (snd (bump i sv)) in
        if \<not> rm_ok then (Inl (Sup_storage (js ''Session directory could not be removed.'')), sv1)
        else let g = release (sv_registry sv1) i in
          (Inr True,
           sv1\<lparr> sv_disk := store_deleteSession (sv_disk sv1) i,
                sv_confirmed := set_delete (sv_confirmed sv1) i,
                sv_registry := g\<lparr> records := map_delete (records g) i \<rparr> \<rparr>))"

text \<open>
  What the clean-up of a session learns from outside: whether the receipts in its directory are
  verified, whether its worker can be reconnected, and what the worker answers to a shutdown
  (nothing when the call fails).
\<close>

record cleanup_world =
  cw_prestart_receipt :: bool
  cw_no_child_receipt :: bool
  cw_reconnect :: "nat option"
  cw_shutdown :: "WorkerSnapshot option"
  cw_rm_ok :: bool

definition hasVerifiedNoChildSpawnFailure :: "cleanup_world \<Rightarrow> SessionRecord \<Rightarrow> bool" where
  "hasVerifiedNoChildSpawnFailure cw r \<longleftrightarrow>
     \<not> incompatibleWorker r \<and> postStartNoChildFailureEligible r \<and> worker r \<noteq> None \<and> cw_no_child_receipt cw"

definition shutdown_proven :: "platform \<Rightarrow> cleanup_world \<Rightarrow> bool" where
  "shutdown_proven pf cw = (case cw_shutdown cw of None \<Rightarrow> False | Some s \<Rightarrow> nativeTerminalProof pf s)"

definition cleanup_lost ::
  "platform \<Rightarrow> cleanup_world \<Rightarrow> SessionRecord \<Rightarrow> Supervisor \<Rightarrow> (sup_error, bool) result \<times> Supervisor" where
  "cleanup_lost pf cw r sv =
     (let i = session_id r in
      if terminalDirectChild pf r then deleteNativeSession (cw_rm_ok cw) i sv
      else if incompatibleWorker r then (Inr False, sv)
      else case or_else (attached sv i) (if worker r \<noteq> None then cw_reconnect cw else None) of
        None \<Rightarrow> (Inr False, sv)
      | Some _ \<Rightarrow> if shutdown_proven pf cw then deleteNativeSession (cw_rm_ok cw) i sv else (Inr False, sv))"

definition cleanup_finished ::
  "platform \<Rightarrow> cleanup_world \<Rightarrow> SessionRecord \<Rightarrow> Supervisor \<Rightarrow> (sup_error, bool) result \<times> Supervisor" where
  "cleanup_finished pf cw r sv =
     (let i = session_id r;
          requiresFreshProof = (lifecycle r = Conversation \<and> worker r \<noteq> None \<and> attached sv i = None \<and>
            i \<notin> set (sv_confirmed sv));
          reached = or_else (attached sv i)
            (if requiresFreshProof \<and> \<not> incompatibleWorker r then cw_reconnect cw else None)
      in if requiresFreshProof \<and> reached = None then (Inr False, sv)
         else if reached = None then deleteNativeSession (cw_rm_ok cw) i sv
         else case cw_shutdown cw of
           Some s \<Rightarrow>
             if \<not> nativeTerminalProof pf s then (Inr False, sv)
             else deleteNativeSession (cw_rm_ok cw) i (sv\<lparr> sv_confirmed := set_add (sv_confirmed sv) i \<rparr>)
         | None \<Rightarrow>
             if requiresFreshProof \<or> \<not> terminalDirectChild pf r then (Inr False, sv)
             else deleteNativeSession (cw_rm_ok cw) i sv)"

definition cleanup ::
  "platform \<Rightarrow> cleanup_world \<Rightarrow> js_string \<Rightarrow> Supervisor \<Rightarrow> (sup_error, bool) result \<times> Supervisor" where
  "cleanup pf cw i sv0 = flushed sv0 (\<lambda>sv.
     case map_get (sv_records sv) i of
       None \<Rightarrow> (Inr False, sv)
     | Some r \<Rightarrow>
         if noChildSpawnFailure r then deleteNativeSession (cw_rm_ok cw) i sv
         else case map_get (sv_finalizations sv) i of
           Some e \<Rightarrow> (Inl e, sv)
         | None \<Rightarrow>
             if prestartReceiptAuthority r \<noteq> None \<and> cw_prestart_receipt cw then deleteNativeSession (cw_rm_ok cw) i sv
             else if hasVerifiedNoChildSpawnFailure cw r then deleteNativeSession (cw_rm_ok cw) i sv
             else if status r = St_lost then cleanup_lost pf cw r sv
             else if \<not> isTerminal pf r then (Inr False, sv)
             else cleanup_finished pf cw r sv)"

section \<open>Observing a worker\<close>

definition valid_code :: "int option \<Rightarrow> int option" where
  "valid_code c = (case c of None \<Rightarrow> None | Some n \<Rightarrow> if isSafeInteger n \<and> 0 \<le> n then Some n else None)"

definition finalization_failure :: "sup_error \<Rightarrow> js_string" where
  "finalization_failure e = js ''Native finalization failed: '' @ error_text e"

definition persistNativeFinalizationFailure ::
  "platform \<Rightarrow> int \<Rightarrow> bool \<Rightarrow> WorkerSnapshot \<Rightarrow> sup_error \<Rightarrow> js_string \<Rightarrow> Supervisor \<Rightarrow> (sup_error, unit) result \<times> Supervisor" where
  "persistNativeFinalizationFailure pf now io w e i sv =
     (case map_get (sv_records sv) i of
        None \<Rightarrow> (Inr (), sv)
      | Some r \<Rightarrow>
          save pf io ((transition_or_keep pf r Event_unreachable)
            \<lparr> exitCode := valid_code (ws_exitCode w), storageFailure := Some (finalization_failure e),
              exitReason := Some (Exit_unknown (Some (finalization_failure e))), updatedAt := toISOString now \<rparr>) sv)"

text \<open>The \<open>catch\<close> clause that records a failure and throws one error with code \<open>ESTORAGE\<close>.\<close>

definition report_failure ::
  "platform \<Rightarrow> int \<Rightarrow> bool \<Rightarrow> WorkerSnapshot \<Rightarrow> sup_error \<Rightarrow> js_string \<Rightarrow> Supervisor \<Rightarrow> (sup_error, unit) result \<times> Supervisor" where
  "report_failure pf now io w e i sv =
     (case persistNativeFinalizationFailure pf now io w e i sv of
        (Inl e2, sv2) \<Rightarrow> (Inl e2, sv2)
      | (Inr _, sv2) \<Rightarrow> (Inl (Sup_storage (finalization_failure e)), sv2))"

definition output_failure :: "WorkerSnapshot \<Rightarrow> sup_error option" where
  "output_failure w =
     (case truthy_text (ws_storageFailure w) of
        Some m \<Rightarrow> Some (Sup_storage (js ''Native worker output storage failed: '' @ m))
      | None \<Rightarrow>
          if (truthy_text (ws_readerFailure w) \<noteq> None \<or> ws_outputIncomplete w) \<and> ws_terminationConfirmed w
          then Some (Sup_storage (js ''Native worker output incomplete'' @
            (case truthy_text (ws_readerFailure w) of Some m \<Rightarrow> js '': '' @ m | None \<Rightarrow> js ''.'')))
          else None)"

text \<open>
  \<open>io\<close> gives the outcomes of the writes in the order they are made. The waits that the new record
  may satisfy are resolved by later steps of the event loop.
\<close>

definition finishNativeVersion ::
  "platform \<Rightarrow> int \<Rightarrow> bool \<times> bool \<Rightarrow> WorkerSnapshot \<Rightarrow> js_string \<Rightarrow> Supervisor \<Rightarrow> (sup_error, unit) result \<times> Supervisor" where
  "finishNativeVersion pf now io w i sv =
     (case map_get (sv_records sv) i of
        None \<Rightarrow> (Inr (), sv)
      | Some r \<Rightarrow>
          (case absorb_snapshot pf now w r of
             None \<Rightarrow> (Inr (), sv)
           | Some r1 \<Rightarrow>
               (case save pf (fst io) r1 sv of
                  (Inl e, sv1) \<Rightarrow> report_failure pf now (snd io) w e i sv1
                | (Inr _, sv1) \<Rightarrow>
                    (case output_failure w of Some e \<Rightarrow> Inl e | None \<Rightarrow> Inr (), settle_registry pf i sv1))))"

definition finishNativeInLane ::
  "platform \<Rightarrow> int \<Rightarrow> bool \<times> bool \<Rightarrow> WorkerSnapshot \<Rightarrow> nat \<Rightarrow> bool \<Rightarrow> js_string \<Rightarrow> Supervisor \<Rightarrow>
   (sup_error, unit) result \<times> Supervisor" where
  "finishNativeInLane pf now io w v terminal i sv =
     (if map_get (sv_records sv) i = None \<or> v \<noteq> version (sv_router sv) i then (Inr (), sv)
      else case finishNativeVersion pf now io w i sv of
        (res, sv1) \<Rightarrow> (res, if terminal then snd (bump i sv1) else sv1))"

text \<open>The answers of the worker while a session is finalized: its final snapshot and its shutdown.\<close>

record final_world =
  fw_final :: "(sup_error, WorkerSnapshot) result"
  fw_shutdown :: "WorkerSnapshot option"
  fw_io :: "bool \<times> bool"
  fw_io_failure :: bool

definition finalizeNativeVersion ::
  "platform \<Rightarrow> int \<Rightarrow> final_world \<Rightarrow> WorkerSnapshot \<Rightarrow> nat \<Rightarrow> js_string \<Rightarrow> Supervisor \<Rightarrow> (sup_error, unit) result \<times> Supervisor" where
  "finalizeNativeVersion pf now fw w v i sv =
     (let asked = (if nativeTerminal pf w then fw_final fw else Inr w);
          final = (case asked of Inl _ \<Rightarrow> w | Inr f \<Rightarrow> f);
          attempt = (case asked of
             Inl e \<Rightarrow> (Inl e, sv)
           | Inr f \<Rightarrow> finishNativeInLane pf now (fw_io fw) f v (nativeTerminal pf f) i sv);
          handled = (case attempt of
             (Inr _, sv1) \<Rightarrow> (Inr (), sv1)
           | (Inl e, sv1) \<Rightarrow> report_failure pf now (fw_io_failure fw) final e i sv1)
      in if nativeTerminal pf final
         then (fst handled,
           detach i (case fw_shutdown fw of
             None \<Rightarrow> snd handled
           | Some s \<Rightarrow> if nativeTerminalProof pf s
               then (snd handled)\<lparr> sv_confirmed := set_add (sv_confirmed (snd handled)) i \<rparr> else snd handled))
         else handled)"

definition finalizeNativeInLane ::
  "platform \<Rightarrow> int \<Rightarrow> final_world \<Rightarrow> nat \<Rightarrow> WorkerSnapshot \<Rightarrow> js_string \<Rightarrow> Supervisor \<Rightarrow> (sup_error, unit) result \<times> Supervisor" where
  "finalizeNativeInLane pf now fw h w i sv =
     (if attached sv i \<noteq> Some h then (Inr (), sv)
      else case map_get (sv_finalizations sv) i of
        Some e \<Rightarrow> (Inl e, sv)
      | None \<Rightarrow>
          (case bump i sv of
             (v, sv1) \<Rightarrow>
               (case finalizeNativeVersion pf now fw w v i sv1 of
                  (Inr u, sv2) \<Rightarrow> (Inr u, sv2)
                | (Inl e, sv2) \<Rightarrow> (Inl e, sv2\<lparr> sv_finalizations := map_set (sv_finalizations sv2) i e \<rparr>))))"

definition rollbackNativeInLane ::
  "platform \<Rightarrow> int \<Rightarrow> bool \<Rightarrow> SpawnCleanup \<Rightarrow> js_string \<Rightarrow> nat \<Rightarrow> js_string \<Rightarrow> Supervisor \<Rightarrow> (sup_error, unit) result \<times> Supervisor" where
  "rollbackNativeInLane pf now io c message h i sv =
     (if attached sv i \<noteq> Some h then (Inr (), sv)
      else case map_get (sv_records sv) i of
        None \<Rightarrow> (Inr (), detach i (snd (bump i sv)))
      | Some r \<Rightarrow>
          (case save pf io ((transition_or_keep pf r Event_unreachable)
              \<lparr> terminationRequested := sc_requested c, terminationConfirmed := sc_terminationConfirmed c,
                exitReason := Some (Exit_unknown (Some message)), updatedAt := toISOString now \<rparr>) (snd (bump i sv)) of
             (Inl e, sv1) \<Rightarrow> (Inl e, sv1)
           | (Inr _, sv1) \<Rightarrow> (Inr (), detach i (snd (bump i sv1)))))"

section \<open>Input, size and stopping\<close>

record WriteResult =
  wr_acceptedBytes :: nat
  wr_acceptedCharacters :: nat

definition accepts_input :: "Supervisor \<Rightarrow> js_string \<Rightarrow> SessionRecord \<Rightarrow> bool" where
  "accepts_input sv i r \<longleftrightarrow> attached sv i \<noteq> None \<and> status r = St_running \<and> \<not> truthy (pendingCleanup r)"

text \<open>\<open>write\<close> reserves the bytes before it queues in the lane of the session.\<close>

definition write_begin :: "js_string \<Rightarrow> js_string \<Rightarrow> Supervisor \<Rightarrow> (sup_error, InputReservation) result \<times> Supervisor" where
  "write_begin i data sv0 = flushed sv0 (\<lambda>sv.
     case recordFor sv i of
       Inl e \<Rightarrow> (Inl e, sv)
     | Inr r \<Rightarrow>
         (case reserveInput (sv_registry sv) r (byteLength data) of
            Inl e \<Rightarrow> (Inl (Sup_limit e), sv)
          | Inr (v, g) \<Rightarrow> (Inr v, sv\<lparr> sv_registry := g \<rparr>)))"

definition release_input :: "InputReservation \<Rightarrow> Supervisor \<Rightarrow> Supervisor" where
  "release_input v sv = sv\<lparr> sv_registry := snd (releaseInput (sv_registry sv) v) \<rparr>"

text \<open>The task in the lane; \<open>sent\<close> is the answer of the worker, an error message or its cursor.\<close>

definition write_task ::
  "js_string \<Rightarrow> js_string \<Rightarrow> InputReservation \<Rightarrow> (js_string, nat) result \<Rightarrow> Supervisor \<Rightarrow> (sup_error, WriteResult) result \<times> Supervisor" where
  "write_task i data v sent sv =
     ((case recordFor sv i of
         Inl e \<Rightarrow> Inl e
       | Inr r \<Rightarrow>
           if \<not> accepts_input sv i r then Inl (Sup_closed i)
           else case sent of
             Inl m \<Rightarrow> Inl (Sup_process (js ''Failed to write to PTY '' @ [39] @ i @ [39] @ js '': '' @ m))
           | Inr _ \<Rightarrow> Inr \<lparr> wr_acceptedBytes = byteLength data, wr_acceptedCharacters = codePoints data \<rparr>),
      release_input v sv)"

definition resize ::
  "js_string \<Rightarrow> (js_string, nat \<times> nat) result \<Rightarrow> Supervisor \<Rightarrow> (sup_error, nat \<times> nat) result \<times> Supervisor" where
  "resize i answer sv0 = flushed sv0 (\<lambda>sv.
     (case recordFor sv i of
        Inl e \<Rightarrow> Inl e
      | Inr r \<Rightarrow>
          if mode r \<noteq> Mode_pty then Inl (Sup_plain (js ''Session '' @ [39] @ i @ [39] @ js '' is not a PTY.''))
          else if \<not> accepts_input sv i r then Inl (Sup_closed i)
          else case answer of Inl m \<Rightarrow> Inl (Sup_plain m) | Inr u \<Rightarrow> Inr u, sv))"

record StopResult =
  sp_requested :: bool
  sp_terminationConfirmed :: bool
  sp_directChildExited :: "bool option"
  sp_containment :: "ContainmentReport option"
  sp_termination :: "TerminationResult option"

definition stop_result :: "bool \<Rightarrow> SessionRecord \<Rightarrow> StopResult" where
  "stop_result requested r =
     \<lparr> sp_requested = requested, sp_terminationConfirmed = terminationConfirmed r,
       sp_directChildExited = directChildExited r, sp_containment = containment r,
       sp_termination = terminationResult r \<rparr>"

text \<open>\<open>answer\<close> is what the worker answers to the stop request.\<close>

definition stop ::
  "platform \<Rightarrow> int \<Rightarrow> bool \<Rightarrow> (js_string, WorkerSnapshot) result \<Rightarrow> final_world \<Rightarrow> js_string \<Rightarrow> Supervisor \<Rightarrow> (sup_error, StopResult) result \<times> Supervisor" where
  "stop pf now io answer fw i sv0 = flushed sv0 (\<lambda>sv.
     case (attached sv i, recordFor sv i) of
       (_, Inl e) \<Rightarrow> (Inl e, sv)
     | (None, Inr r) \<Rightarrow> (Inr (stop_result False r), sv)
     | (Some h, Inr r) \<Rightarrow>
         (case save pf io (transition_or_keep pf (r\<lparr> terminationRequested := True \<rparr>) Stop_requested) sv of
            (Inl e, sv1) \<Rightarrow> (Inl e, sv1)
          | (Inr _, sv1) \<Rightarrow>
              (case answer of
                 Inl m \<Rightarrow> (Inl (Sup_plain m), sv1)
               | Inr w \<Rightarrow>
                   (case finalizeNativeInLane pf now fw h w i sv1 of
                      (Inl e, sv2) \<Rightarrow> (Inl e, sv2)
                    | (Inr _, sv2) \<Rightarrow>
                        (case recordFor sv2 i of
                           Inl e \<Rightarrow> (Inl e, sv2) | Inr r2 \<Rightarrow> (Inr (stop_result True r2), sv2))))))"

section \<open>The records and the ledger\<close>

text \<open>
  The ledger agrees with the record table: the registry invariant holds, records are stored under
  their ids, and the ledger counts exactly the records of the table, each for its owner.
\<close>

definition ledger_ok :: "Supervisor \<Rightarrow> bool" where
  "ledger_ok sv \<longleftrightarrow>
     registry_inv (sv_registry sv) \<and> map_ok (sv_records sv) \<and>
     (\<forall>i r. map_get (sv_records sv) i = Some r \<longrightarrow> session_id r = i) \<and>
     (\<forall>i. map_get (recordOwnerBySessionId (sv_registry sv)) i = map_option ownerKey (map_get (sv_records sv) i))"

definition same_owners :: "Supervisor \<Rightarrow> Supervisor \<Rightarrow> bool" where
  "same_owners sv sv' \<longleftrightarrow>
     (\<forall>i. map_option ownerKey (map_get (sv_records sv') i) = map_option ownerKey (map_get (sv_records sv) i))"

text \<open>A step that neither adds nor removes a session nor changes an owner.\<close>

definition observes :: "Supervisor \<Rightarrow> Supervisor \<Rightarrow> bool" where
  "observes sv sv' \<longleftrightarrow> (ledger_ok sv \<longrightarrow> ledger_ok sv' \<and> same_owners sv sv')"

lemma observes_refl [simp, intro]: "observes sv sv"
  by (simp add: observes_def same_owners_def)

lemma observes_trans: "observes a b \<Longrightarrow> observes b c \<Longrightarrow> observes a c"
  by (simp add: observes_def same_owners_def)

lemma observes_ledger: "observes sv sv' \<Longrightarrow> ledger_ok sv \<Longrightarrow> ledger_ok sv'"
  by (simp add: observes_def)

lemma observes_frame:
  "sv_registry sv' = sv_registry sv \<Longrightarrow> observes sv sv'"
  by (simp add: observes_def same_owners_def ledger_ok_def sv_records_def)

lemma registry_inv_records [simp]: "registry_inv (records_update f g) = registry_inv g"
  unfolding registry_inv_def slots.index_inv_def recs.index_inv_def output_ok_def by simp

lemma releaseIfSettled_records [simp]: "records (releaseIfSettled pf g r) = records g"
  by (simp add: releaseIfSettled_def)

lemma sv_records_put [simp]: "sv_records (put_record r sv) = map_set (sv_records sv) (session_id r) r"
  by (simp add: put_record_def sv_records_def)

lemma put_observes:
  assumes "map_get (sv_records sv) (session_id r) = Some r0" and "ownerKey r = ownerKey r0"
  shows "observes sv (put_record r sv)"
  using assms by (auto simp: observes_def same_owners_def ledger_ok_def) (simp_all add: put_record_def sv_records_def)

lemma owner_metadata:
  "LifecycleProjection.more (r :: SessionRecord) = LifecycleProjection.more r' \<Longrightarrow> ownerKey r = ownerKey r'"
  using metadata_more [of r r'] by (simp add: ownerKey_def)

lemma ownerKey_more: "ownerKey (with_projection p (LifecycleProjection.more r)) = ownerKey r"
  by (rule owner_metadata) simp

lemma ownerKey_state [simp]: "ownerKey (state_update f r) = ownerKey r"
  by (simp add: ownerKey_def)

lemma ownerKey_upd [simp]:
  "ownerKey (exitCode_update f1 r) = ownerKey r" "ownerKey (storageFailure_update f2 r) = ownerKey r"
  "ownerKey (exitReason_update f3 r) = ownerKey r" "ownerKey (updatedAt_update f4 r) = ownerKey r"
  "ownerKey (terminationRequested_update f5 r) = ownerKey r" "ownerKey (terminationConfirmed_update f6 r) = ownerKey r"
  "ownerKey (execOutput_update f7 r) = ownerKey r" "ownerKey (pendingCleanup_update f8 r) = ownerKey r"
  "ownerKey (worker_update f9 r) = ownerKey r" "ownerKey (workerPrestart_update f10 r) = ownerKey r"
  "ownerKey (workerStartAttempted_update f11 r) = ownerKey r" "ownerKey (lastWaitResult_update f12 r) = ownerKey r"
  "ownerKey (pid_update f13 r) = ownerKey r" "ownerKey (containment_update f14 r) = ownerKey r"
  "ownerKey (terminationResult_update f15 r) = ownerKey r"
  by (simp_all add: ownerKey_def)

lemma refreshed_ownerKey [simp]: "ownerKey (refreshed_record pf r) = ownerKey r"
  by (simp add: refreshed_record_def Let_def ownerKey_more)

lemma save_cases:
  "save pf io r sv = (res, sv') \<Longrightarrow>
   \<exists>disk. sv' = put_record (refreshed_record pf r) (sv\<lparr> sv_disk := disk \<rparr>) \<and>
     (\<forall>e. res = Inl e \<longrightarrow> disk = sv_disk sv)"
  by (auto simp: save_def writeSession_def Let_def split: if_splits)

lemma save_observes:
  assumes "map_get (sv_records sv) (session_id r) = Some r0" and "ownerKey r = ownerKey r0"
    and "save pf io r sv = (res, sv')"
  shows "observes sv sv'"
proof -
  from save_cases [OF assms(3)] obtain disk where sv': "sv' = put_record (refreshed_record pf r) (sv\<lparr> sv_disk := disk \<rparr>)" by blast
  have "observes (sv\<lparr> sv_disk := disk \<rparr>) sv'"
    unfolding sv' using put_observes [of "sv\<lparr> sv_disk := disk \<rparr>" "refreshed_record pf r" r0] assms
    by (simp add: sv_records_def)
  moreover have "observes sv (sv\<lparr> sv_disk := disk \<rparr>)" by (rule observes_frame) simp
  ultimately show ?thesis using observes_trans by blast
qed

lemma attach_frame [simp]: "sv_registry (attach i h sv) = sv_registry sv" "sv_records (attach i h sv) = sv_records sv"
  by (simp_all add: attach_def sv_records_def)

lemma detach_frame [simp]: "sv_registry (detach i sv) = sv_registry sv" "sv_records (detach i sv) = sv_records sv"
  by (simp_all add: detach_def sv_records_def)

lemma bump_frame [simp]:
  "sv_registry (snd (bump i sv)) = sv_registry sv" "sv_records (snd (bump i sv)) = sv_records sv"
  "sv_confirmed (snd (bump i sv)) = sv_confirmed sv" "sv_disk (snd (bump i sv)) = sv_disk sv"
  by (simp_all add: bump_def bumpVersion_def Let_def sv_records_def)

lemma transition_owner:
  assumes "transition pf r e obs = Some r'" and "LifecycleProjection.more (obs r) = LifecycleProjection.more r"
  shows "ownerKey r' = ownerKey r \<and> session_id r' = session_id r"
proof -
  from assms(1) obtain st where "r' = with_projection (projectSessionState st) (LifecycleProjection.more ((obs r)\<lparr> state := st \<rparr>))"
    by (rule transition_Some)
  then show ?thesis using owner_metadata [OF assms(2)] metadata_more [OF assms(2)] by (simp add: ownerKey_more)
qed

lemma keep_owner [simp]:
  "ownerKey (transition_or_keep pf r e) = ownerKey r" "session_id (transition_or_keep pf r e) = session_id r"
proof -
  have "ownerKey (transition_or_keep pf r e) = ownerKey r \<and> session_id (transition_or_keep pf r e) = session_id r"
  proof (cases "transition pf r e (\<lambda>x. x)")
    case (Some r')
    from transition_owner [OF Some refl] Some show ?thesis by (simp add: transition_or_keep_def)
  qed (simp add: transition_or_keep_def)
  then show "ownerKey (transition_or_keep pf r e) = ownerKey r" "session_id (transition_or_keep pf r e) = session_id r"
    by simp_all
qed

lemma absorb_owner:
  assumes "absorb_snapshot pf now w r = Some r'"
  shows "ownerKey r' = ownerKey r" "session_id r' = session_id r"
proof -
  from assms obtain r1 where t: "transition pf r (workerEvent w) (observations w) = Some r1"
    and r': "ownerKey r' = ownerKey r1" "session_id r' = session_id r1"
    by (auto simp: absorb_snapshot_def Let_def split: option.splits)
  from t obtain st where "r1 = with_projection (projectSessionState st) (LifecycleProjection.more ((observations w r)\<lparr> state := st \<rparr>))"
    by (rule transition_Some)
  moreover have "ownerKey (observations w r) = ownerKey r" by (simp add: ownerKey_def)
  ultimately show "ownerKey r' = ownerKey r" "session_id r' = session_id r"
    using r' by (simp_all add: ownerKey_more)
qed

lemma settle_observes: "observes sv (settle_registry pf i sv)"
  by (cases "map_get (sv_records sv) i")
     (auto simp: settle_registry_def observes_def same_owners_def ledger_ok_def sv_records_def releaseIfSettled_inv)

lemma ledger_id: "ledger_ok sv \<Longrightarrow> map_get (sv_records sv) i = Some r \<Longrightarrow> session_id r = i"
  by (simp add: ledger_ok_def)

lemma observes_when_ledger: "(ledger_ok sv \<Longrightarrow> observes sv sv') \<Longrightarrow> observes sv sv'"
  by (auto simp: observes_def)

text \<open>
  Relations between the states before and after an operation that only touches the session it
  works on: it writes the session's own record again, settles its slot, and changes the router,
  the confirmed shut-downs and the table of finalizations. What holds of these steps holds of
  every operation that observes, finalizes, rolls back or stops a session. The relation may depend on the
  session: \<open>here\<close> holds of the sessions it allows to be written.
\<close>

locale lane_relation =
  fixes R :: "Supervisor \<Rightarrow> Supervisor \<Rightarrow> bool"
    and here :: "js_string \<Rightarrow> bool"
  assumes refl [simp, intro]: "R sv sv"
    and trans: "R a b \<Longrightarrow> R b c \<Longrightarrow> R a c"
    and router: "R sv (sv\<lparr> sv_router := x \<rparr>)"
    and confirmed: "R sv (sv\<lparr> sv_confirmed := y \<rparr>)"
    and finalizations: "R sv (sv\<lparr> sv_finalizations := z \<rparr>)"
    and settle: "R sv (settle_registry pf i sv)"
    and save: "map_get (sv_records sv) i = Some r0 \<Longrightarrow> session_id r = session_id r0 \<Longrightarrow> ownerKey r = ownerKey r0 \<Longrightarrow>
      save pf io r sv = (res, sv') \<Longrightarrow> here i \<Longrightarrow> R sv sv'"
    and put: "map_get (sv_records sv) i = Some r0 \<Longrightarrow> session_id r = session_id r0 \<Longrightarrow> ownerKey r = ownerKey r0 \<Longrightarrow>
      here i \<Longrightarrow> R sv (put_record r sv)"
begin

lemma bump_R: "R sv (snd (bump i sv))"
  using router by (simp add: bump_def bumpVersion_def Let_def)

lemma detach_R: "R sv (detach i sv)"
  using router by (simp add: detach_def)

lemma attach_R: "R sv (attach i h sv)"
  using router by (simp add: attach_def)

lemma persist_failure_R:
  assumes "persistNativeFinalizationFailure pf now io w e i sv = (res, sv')" and h: "here i"
  shows "R sv sv'"
proof (cases "map_get (sv_records sv) i")
  case (Some r)
  with assms show ?thesis
    unfolding persistNativeFinalizationFailure_def by simp (erule save [rotated 3], simp_all add: h)
qed (use assms in \<open>simp add: persistNativeFinalizationFailure_def\<close>)

lemma report_failure_R: "report_failure pf now io w e i sv = (res, sv') \<Longrightarrow> here i \<Longrightarrow> R sv sv'"
  using persist_failure_R by (auto simp: report_failure_def split: prod.splits sum.splits)

lemma finish_version_R:
  assumes "finishNativeVersion pf now io w i sv = (res, sv')" and h: "here i"
  shows "R sv sv'"
proof (cases "map_get (sv_records sv) i")
  case (Some r)
  show ?thesis
  proof (cases "absorb_snapshot pf now w r")
    case None
    then show ?thesis using assms Some by (simp add: finishNativeVersion_def)
  next
    case (Some r1)
    obtain sres sv1 where sv1: "save pf (fst io) r1 sv = (sres, sv1)" by (cases "save pf (fst io) r1 sv")
    have 1: "R sv sv1"
      using \<open>map_get (sv_records sv) i = Some r\<close> absorb_owner(2) [OF Some] absorb_owner(1) [OF Some] sv1 h by (rule save)
    have 2: "R sv1 sv'"
      using assms Some sv1 \<open>map_get (sv_records sv) i = Some r\<close> settle [of sv1 pf i] report_failure_R h
      by (auto simp: finishNativeVersion_def split: sum.splits)
    from 1 2 show ?thesis by (rule trans)
  qed
qed (use assms in \<open>simp add: finishNativeVersion_def\<close>)

lemma finish_lane_R:
  assumes "finishNativeInLane pf now io w v terminal i sv = (res, sv')" and h: "here i"
  shows "R sv sv'"
proof -
  obtain r1 sv1 where f: "finishNativeVersion pf now io w i sv = (r1, sv1)" by (cases "finishNativeVersion pf now io w i sv")
  have "sv' = sv \<or> sv' = sv1 \<or> sv' = snd (bump i sv1)"
    using assms f by (auto simp: finishNativeInLane_def split: if_splits)
  then show ?thesis using finish_version_R [OF f h] bump_R trans refl by metis
qed

lemma finalize_version_R:
  assumes "finalizeNativeVersion pf now fw w v i sv = (res, sv')" and h: "here i"
  shows "R sv sv'"
proof -
  define asked where "asked = (if nativeTerminal pf w then fw_final fw else Inr w)"
  define final where "final = (case asked of Inl _ \<Rightarrow> w | Inr f \<Rightarrow> f)"
  define attempt where "attempt = (case asked of
     Inl e \<Rightarrow> (Inl e, sv) | Inr f \<Rightarrow> finishNativeInLane pf now (fw_io fw) f v (nativeTerminal pf f) i sv)"
  define handled where "handled = (case attempt of
     (Inr _, sv1) \<Rightarrow> (Inr (), sv1) | (Inl e, sv1) \<Rightarrow> report_failure pf now (fw_io_failure fw) final e i sv1)"
  have 1: "R sv (snd attempt)"
  proof (cases asked)
    case (Inr f)
    from finish_lane_R [OF prod.collapse [symmetric] h] Inr show ?thesis by (simp add: attempt_def)
  qed (simp add: attempt_def)
  have 2: "R (snd attempt) (snd handled)"
  proof (cases "fst attempt")
    case (Inl e)
    from report_failure_R [OF prod.collapse [symmetric] h] Inl show ?thesis by (auto simp: handled_def split: prod.split)
  qed (auto simp: handled_def split: prod.split)
  have "sv' = snd handled \<or> sv' = detach i (snd handled) \<or>
      (\<exists>y. sv' = detach i ((snd handled)\<lparr> sv_confirmed := y \<rparr>))"
    using assms unfolding finalizeNativeVersion_def Let_def asked_def [symmetric] final_def [symmetric]
      attempt_def [symmetric] handled_def [symmetric]
    by (auto split: if_splits option.splits)
  then have 3: "R (snd handled) sv'" using detach_R confirmed trans by (elim disjE exE) blast+
  show ?thesis by (rule trans [OF trans [OF 1 2] 3])
qed

lemma finalize_lane_R:
  assumes "finalizeNativeInLane pf now fw h w i sv = (res, sv')" and h: "here i"
  shows "R sv sv'"
proof (cases "attached sv i = Some h \<and> map_get (sv_finalizations sv) i = None")
  case True
  obtain v sv1 where b: "bump i sv = (v, sv1)" by (cases "bump i sv")
  obtain r2 sv2 where f: "finalizeNativeVersion pf now fw w v i sv1 = (r2, sv2)" by (cases "finalizeNativeVersion pf now fw w v i sv1")
  have "sv' = sv2 \<or> (\<exists>z. sv' = sv2\<lparr> sv_finalizations := z \<rparr>)"
    using assms True b f by (auto simp: finalizeNativeInLane_def split: sum.splits)
  moreover have "R sv sv2" using bump_R [of sv i] b finalize_version_R [OF f h] trans by auto
  ultimately show ?thesis using finalizations [of sv2] trans [of sv sv2 sv'] by auto
qed (use assms in \<open>auto simp: finalizeNativeInLane_def split: option.splits if_splits\<close>)

lemma rollback_R:
  assumes "rollbackNativeInLane pf now io c m h i sv = (res, sv')" and h: "here i"
  shows "R sv sv'"
proof (cases "map_get (sv_records sv) i")
  case None
  then have "sv' = sv \<or> sv' = detach i (snd (bump i sv))" using assms by (auto simp: rollbackNativeInLane_def split: if_splits)
  then show ?thesis using bump_R detach_R trans by blast
next
  case (Some r)
  let ?r = "(transition_or_keep pf r Event_unreachable)
    \<lparr> terminationRequested := sc_requested c, terminationConfirmed := sc_terminationConfirmed c,
      exitReason := Some (Exit_unknown (Some m)), updatedAt := toISOString now \<rparr>"
  obtain r1 sv1 where s: "save pf io ?r (snd (bump i sv)) = (r1, sv1)" by (cases "save pf io ?r (snd (bump i sv))")
  have "R (snd (bump i sv)) sv1" using _ _ _ s h by (rule save) (use Some in simp_all)
  then have 1: "R sv sv1" using bump_R trans by blast
  have "sv' = sv \<or> sv' = sv1 \<or> sv' = detach i (snd (bump i sv1))"
    using assms Some s by (auto simp: rollbackNativeInLane_def split: if_splits sum.splits)
  then show ?thesis using 1 bump_R detach_R trans refl by metis
qed

lemma stop_R:
  assumes "stop pf now io answer fw i sv = (res, sv')" and h: "here i"
  shows "R sv sv'"
proof (cases "recordFor sv i")
  case (Inr r)
  then have r: "map_get (sv_records sv) i = Some r" by (auto simp: recordFor_def split: option.splits)
  let ?r = "transition_or_keep pf (r\<lparr> terminationRequested := True \<rparr>) Stop_requested"
  obtain r1 sv1 where s: "save pf io ?r sv = (r1, sv1)" by (cases "save pf io ?r sv")
  have 1: "R sv sv1" using r _ _ s h by (rule save) simp_all
  have "sv' = sv \<or> sv' = sv1 \<or> (\<exists>h w y. finalizeNativeInLane pf now fw h w i sv1 = (y, sv'))"
    using assms Inr s by (auto simp: stop_def flushed_def split: sum.splits option.splits prod.splits)
  with 1 show ?thesis using finalize_lane_R h trans refl by metis
qed (use assms in \<open>auto simp: stop_def flushed_def split: sum.splits option.splits\<close>)

end

interpretation obs: lane_relation observes "\<lambda>_. True"
proof unfold_locales
  show "observes sv sv'" if "map_get (sv_records sv) i = Some r0" "session_id r = session_id r0" "ownerKey r = ownerKey r0"
    "save pf io r sv = (res, sv')" for sv i r0 r pf io res sv'
  proof (rule observes_when_ledger)
    assume "ledger_ok sv"
    from ledger_id [OF this that(1)] that show ?thesis by (intro save_observes [of sv r r0 pf io res sv']) simp_all
  qed
  show "observes sv (put_record r sv)" if "map_get (sv_records sv) i = Some r0" "session_id r = session_id r0"
    "ownerKey r = ownerKey r0" for sv i r0 r
  proof (rule observes_when_ledger)
    assume "ledger_ok sv"
    from ledger_id [OF this that(1)] that show ?thesis by (intro put_observes [of sv r r0]) simp_all
  qed
qed (auto intro: observes_trans observes_frame settle_observes)

text \<open>An operation on a session leaves the records of all other sessions alone.\<close>

definition only_touches :: "(js_string \<Rightarrow> bool) \<Rightarrow> Supervisor \<Rightarrow> Supervisor \<Rightarrow> bool" where
  "only_touches P sv sv' \<longleftrightarrow>
     (ledger_ok sv \<longrightarrow> ledger_ok sv' \<and> (\<forall>j. \<not> P j \<longrightarrow> map_get (sv_records sv') j = map_get (sv_records sv) j))"

lemma only_touches_refl [simp, intro]: "only_touches P sv sv"
  by (simp add: only_touches_def)

lemma only_touches_trans: "only_touches P a b \<Longrightarrow> only_touches P b c \<Longrightarrow> only_touches P a c"
  by (simp add: only_touches_def)

lemma only_touches_registry: "sv_registry sv' = sv_registry sv \<Longrightarrow> only_touches P sv sv'"
  by (simp add: only_touches_def ledger_ok_def sv_records_def)

lemma observes_touches:
  assumes "observes sv sv'" and "ledger_ok sv \<Longrightarrow> \<forall>j. \<not> P j \<longrightarrow> map_get (sv_records sv') j = map_get (sv_records sv) j"
  shows "only_touches P sv sv'"
  using assms by (simp add: only_touches_def observes_def)

interpretation frame: lane_relation "only_touches P" P for P
proof unfold_locales
  show "only_touches P sv sv'" if a: "map_get (sv_records sv) i = Some r0" "session_id r = session_id r0" "ownerKey r = ownerKey r0"
    "save pf io r sv = (res, sv')" "P i" for sv i r0 r pf io res sv'
    using obs.save [OF a(1-4) TrueI]
  proof (rule observes_touches)
    assume "ledger_ok sv"
    then have "session_id r = i" using ledger_id [OF _ a(1)] a(2) by simp
    with save_cases [OF a(4)] a(5) show "\<forall>j. \<not> P j \<longrightarrow> map_get (sv_records sv') j = map_get (sv_records sv) j"
      by (auto simp: sv_records_def put_record_def)
  qed
  show "only_touches P sv (put_record r sv)" if a: "map_get (sv_records sv) i = Some r0" "session_id r = session_id r0"
    "ownerKey r = ownerKey r0" "P i" for sv i r0 r
    using obs.put [OF a(1-3) TrueI]
  proof (rule observes_touches)
    assume "ledger_ok sv"
    then have "session_id r = i" using ledger_id [OF _ a(1)] a(2) by simp
    with a(4) show "\<forall>j. \<not> P j \<longrightarrow> map_get (sv_records (put_record r sv)) j = map_get (sv_records sv) j" by auto
  qed
  show "only_touches P sv (settle_registry pf i sv)" for sv pf i
    using settle_observes by (rule observes_touches) (simp add: settle_registry_def sv_records_def split: option.split)
qed (auto intro: only_touches_trans only_touches_registry)

section \<open>Deleting\<close>

lemma delete_cases:
  assumes "deleteNativeSession ok i sv = (res, sv')"
  shows "res = Inr True \<Longrightarrow> map_get (sv_records sv) i \<noteq> None \<and>
      sv_registry sv' = (let g = release (sv_registry sv) i in g\<lparr> records := map_delete (records g) i \<rparr>) \<and>
      sv_disk sv' = map_delete (sv_disk sv) i"
    and "res \<noteq> Inr True \<Longrightarrow> sv_registry sv' = sv_registry sv \<and> sv_disk sv' = sv_disk sv"
  using assms
  by (auto simp: deleteNativeSession_def Let_def store_deleteSession_def detach_def split: if_splits)

lemma delete_ledger:
  assumes "deleteNativeSession ok i sv = (res, sv')" and ok: "ledger_ok sv"
  shows "ledger_ok sv'"
proof (cases "res = Inr True")
  case True
  have g: "sv_registry sv' = (let g = release (sv_registry sv) i in g\<lparr> records := map_delete (records g) i \<rparr>)"
    using delete_cases(1) [OF assms(1) True] by blast
  have inv: "registry_inv (sv_registry sv)" using ok by (simp add: ledger_ok_def)
  have "map_get (recordOwnerBySessionId (release (sv_registry sv) i)) j =
      (if j = i then None else map_get (recordOwnerBySessionId (sv_registry sv)) j)" for j
    using recs.owner_of_remove inv by (auto simp: registry_inv_def)
  with ok inv show ?thesis
    by (auto simp: ledger_ok_def sv_records_def g Let_def release_inv)
next
  case False
  from delete_cases(2) [OF assms(1) False] ok show ?thesis by (simp add: ledger_ok_def sv_records_def)
qed

definition gone_proof :: "platform \<Rightarrow> cleanup_world \<Rightarrow> SessionRecord \<Rightarrow> bool" where
  "gone_proof pf cw r \<longleftrightarrow>
     noChildSpawnFailure r \<or> (prestartReceiptAuthority r \<noteq> None \<and> cw_prestart_receipt cw) \<or>
     hasVerifiedNoChildSpawnFailure cw r \<or> terminalDirectChild pf r \<or> shutdown_proven pf cw"

lemma cleanup_finished_deletes:
  assumes "cleanup_finished pf cw r sv = (res, sv')" and "isTerminal pf r"
  shows "(\<exists>sv1. deleteNativeSession (cw_rm_ok cw) (session_id r) sv1 = (res, sv') \<and>
      sv_registry sv1 = sv_registry sv \<and> sv_disk sv1 = sv_disk sv \<and>
      (lifecycle r = Conversation \<and> worker r \<noteq> None \<and> attached sv (session_id r) = None \<and>
        session_id r \<notin> set (sv_confirmed sv) \<longrightarrow> shutdown_proven pf cw)) \<or>
    (res = Inr False \<and> sv' = sv)"
  using assms unfolding cleanup_finished_def Let_def shutdown_proven_def
  by (auto split: if_splits option.splits)

lemma cleanup_lost_deletes:
  assumes "cleanup_lost pf cw r sv = (res, sv')"
  shows "(deleteNativeSession (cw_rm_ok cw) (session_id r) sv = (res, sv') \<and>
      (terminalDirectChild pf r \<or> shutdown_proven pf cw)) \<or> (res = Inr False \<and> sv' = sv)"
  using assms unfolding cleanup_lost_def Let_def by (auto split: if_splits option.splits)

lemma cleanup_deletes:
  assumes "cleanup pf cw i sv = (res, sv')" and "ledger_ok sv"
  shows "(\<exists>r sv1. map_get (sv_records sv) i = Some r \<and> gone_proof pf cw r \<and>
      deleteNativeSession (cw_rm_ok cw) i sv1 = (res, sv') \<and> sv_registry sv1 = sv_registry sv \<and> sv_disk sv1 = sv_disk sv) \<or>
    (res \<noteq> Inr True \<and> sv' = sv)"
proof (cases "sv_persist sv")
  case (Inr u)
  show ?thesis
  proof (cases "map_get (sv_records sv) i")
    case (Some r)
    have i: "session_id r = i" using ledger_id [OF assms(2) Some] .
    note lost = cleanup_lost_deletes [of pf cw r sv res sv'] and fin = cleanup_finished_deletes [of pf cw r sv res sv']
    show ?thesis
      using assms(1) Inr Some lost fin i
      unfolding cleanup_def flushed_def gone_proof_def isTerminal_def
      by (auto split: if_splits option.splits)
  qed (use assms(1) Inr in \<open>auto simp: cleanup_def flushed_def\<close>)
qed (use assms(1) in \<open>auto simp: cleanup_def flushed_def\<close>)

section \<open>Reserving\<close>

text \<open>\<open>registry.reserve\<close> followed by \<open>records.set\<close>, as every new session does.\<close>

lemma reserve_ledger:
  assumes ok: "ledger_ok sv" and fresh: "map_get (sv_records sv) (session_id r) = None"
    and res: "reserve pf (sv_registry sv) r m = Inr (rv, g)"
  shows "ledger_ok (put_record r (sv\<lparr> sv_registry := g \<rparr>))"
proof -
  have inv: "registry_inv (sv_registry sv)"
    and own: "map_get (recordOwnerBySessionId (sv_registry sv)) (session_id r) = None"
    using ok fresh by (simp_all add: ledger_ok_def)
  have g: "registry_inv g" by (rule reserve_inv [OF inv own res])
  have "records g = records (sv_registry sv)" unfolding reserve_Inr(1) [OF res]
    by (simp add: setOutput_def addRecord_def addActive_def Let_def)
  moreover have "map_get (recordOwnerBySessionId g) j =
      (if j = session_id r then Some (ownerKey r) else map_get (recordOwnerBySessionId (sv_registry sv)) j)" for j
    unfolding reserve_Inr(1) [OF res] by (simp add: recs.owner_of_add)
  ultimately show ?thesis
    using ok g by (auto simp: ledger_ok_def put_record_def sv_records_def)
qed

section \<open>Properties\<close>


lemma refreshed_exitReason: "exitReason r = Some x \<Longrightarrow> exitReason (refreshed_record pf r) = Some x"
  using refresh_evidence_sel [of pf "state r" r]
  by (simp add: refreshed_record_def Let_def projectSessionState_def record_evidence_def merge_evidence_def)

lemma bump_frame2 [simp]:
  "sv_persist (snd (bump i sv)) = sv_persist sv" "sv_finalizations (snd (bump i sv)) = sv_finalizations sv"
  by (simp_all add: bump_def bumpVersion_def Let_def)

lemma put_frame [simp]:
  "sv_persist (put_record r sv) = sv_persist sv" "sv_finalizations (put_record r sv) = sv_finalizations sv"
  "sv_waits (put_record r sv) = sv_waits sv" "sv_disk (put_record r sv) = sv_disk sv" "sv_router (put_record r sv) = sv_router sv"
  by (simp_all add: put_record_def)

lemma report_failure_shape:
  assumes "report_failure pf now io w e i sv = (res, sv')" and "map_get (sv_records sv) i = Some r" and "session_id r = i"
  shows "sv_persist sv' = sv_persist sv \<and> (\<exists>x. res = Inl x) \<and>
    (\<exists>r'. map_get (sv_records sv') i = Some r' \<and> \<not> noChildSpawnFailure r')"
proof -
  let ?r = "(transition_or_keep pf r Event_unreachable)
     \<lparr> exitCode := valid_code (ws_exitCode w), storageFailure := Some (finalization_failure e),
       exitReason := Some (Exit_unknown (Some (finalization_failure e))), updatedAt := toISOString now \<rparr>"
  obtain r1 sv1 where s: "save pf io ?r sv = (r1, sv1)" by (cases "save pf io ?r sv")
  from save_cases [OF s] obtain disk where sv1: "sv1 = put_record (refreshed_record pf ?r) (sv\<lparr> sv_disk := disk \<rparr>)" by blast
  have "sv' = sv1" "\<exists>x. res = Inl x"
    using assms(1,2) s by (auto simp: report_failure_def persistNativeFinalizationFailure_def split: sum.splits)
  moreover have "\<not> noChildSpawnFailure (refreshed_record pf ?r)"
    by (simp add: noChildSpawnFailure_def refreshed_exitReason)
  ultimately show ?thesis using assms(3) by (auto simp: sv1)
qed

definition keeps_queue :: "Supervisor \<Rightarrow> Supervisor \<Rightarrow> bool" where
  "keeps_queue sv sv' \<longleftrightarrow> sv_persist sv' = sv_persist sv"

interpretation queue: lane_relation keeps_queue "\<lambda>_. True"
proof unfold_locales
  show "keeps_queue sv sv'" if "save pf io r sv = (res, sv')" for sv r pf io res sv'
    using save_cases [OF that] by (auto simp: keeps_queue_def)
qed (auto simp: keeps_queue_def settle_registry_def split: option.splits)

lemma finalize_version_failure:
  assumes "finalizeNativeVersion pf now fw w v i sv = (Inl e, sv')" and ok: "ledger_ok sv"
    and r: "map_get (sv_records sv) i = Some r"
  shows "sv_persist sv' = sv_persist sv \<and> (\<exists>r'. map_get (sv_records sv') i = Some r' \<and> \<not> noChildSpawnFailure r')"
proof -
  define asked where "asked = (if nativeTerminal pf w then fw_final fw else Inr w)"
  define final where "final = (case asked of Inl _ \<Rightarrow> w | Inr f \<Rightarrow> f)"
  define attempt where "attempt = (case asked of
     Inl e \<Rightarrow> (Inl e, sv) | Inr f \<Rightarrow> finishNativeInLane pf now (fw_io fw) f v (nativeTerminal pf f) i sv)"
  define handled where "handled = (case attempt of
     (Inr _, sv1) \<Rightarrow> (Inr (), sv1) | (Inl e, sv1) \<Rightarrow> report_failure pf now (fw_io_failure fw) final e i sv1)"
  have h: "fst handled = Inl e" "sv_persist sv' = sv_persist (snd handled)" "sv_records sv' = sv_records (snd handled)"
    using assms(1) unfolding finalizeNativeVersion_def Let_def asked_def [symmetric] final_def [symmetric]
      attempt_def [symmetric] handled_def [symmetric]
    by (auto simp: sv_records_def detach_def split: if_splits option.splits)
  obtain x sv1 where a: "attempt = (Inl x, sv1)" and rf: "report_failure pf now (fw_io_failure fw) final x i sv1 = handled"
    using h(1) by (auto simp: handled_def split: prod.splits sum.splits)
  have p: "sv_persist sv1 = sv_persist sv"
    using a queue.finish_lane_R by (auto simp: attempt_def keeps_queue_def split: sum.splits)
  have "observes sv sv1"
    using a obs.finish_lane_R by (auto simp: attempt_def split: sum.splits)
  then have "ledger_ok sv1" "map_option ownerKey (map_get (sv_records sv1) i) = map_option ownerKey (Some r)"
    using ok r by (auto simp: observes_def same_owners_def)
  then obtain r1 where "map_get (sv_records sv1) i = Some r1" "session_id r1 = i"
    using ledger_id by fastforce
  with report_failure_shape [of pf now "fw_io_failure fw" final x i sv1 "fst handled" "snd handled" r1] rf p h show ?thesis
    by (cases handled) simp
qed

text \<open>
  A failed finalization blocks the clean-up. When the finalization of a session fails, its
  rejected promise stays in the table, and every later \<open>cleanup\<close> of the session fails with the same
  error for as long as the daemon runs, whatever proof of termination is found.
\<close>

theorem failed_finalization_blocks_cleanup:
  assumes f: "finalizeNativeInLane pf now fw h w i sv = (Inl e, sv')" and "attached sv i = Some h"
    and n: "map_get (sv_finalizations sv) i = None"
    and ok: "ledger_ok sv" and r: "map_get (sv_records sv) i = Some r" and p: "sv_persist sv = Inr ()"
  shows "cleanup pf' cw i sv' = (Inl e, sv')"
proof -
  obtain v sv1 where b: "bump i sv = (v, sv1)" by (cases "bump i sv")
  have sv1: "sv_records sv1 = sv_records sv" "sv_persist sv1 = Inr ()" "ledger_ok sv1"
    using bump_frame [of i sv] bump_frame2 [of i sv] obs.bump_R [of sv i] ok p b observes_ledger by auto
  from f assms(2) n b obtain sv2 where g: "finalizeNativeVersion pf now fw w v i sv1 = (Inl e, sv2)"
    and sv': "sv' = sv2\<lparr> sv_finalizations := map_set (sv_finalizations sv2) i e \<rparr>"
    by (auto simp: finalizeNativeInLane_def split: prod.splits sum.splits)
  from finalize_version_failure [OF g sv1(3)] r sv1 obtain r' where
    "sv_persist sv' = Inr ()" "map_get (sv_records sv') i = Some r'" "\<not> noChildSpawnFailure r'"
    "map_get (sv_finalizations sv') i = Some e"
    by (auto simp: sv' sv_records_def)
  then show ?thesis by (simp add: cleanup_def flushed_def)
qed

text \<open>
  Input is accepted only by a running session, and its bytes are always given back. The
  reservation adds the bytes to the budget in use; whatever happens between it and the task in the
  lane, and however the task ends, the task takes exactly these bytes out again. It reports
  acceptance only if a worker is attached and the session is running and not being cleaned up.
\<close>

theorem write_budget_returned:
  assumes b: "write_begin i data sv = (Inr v, sv1)" and V: "input_ok (sv_registry sv) V"
    and t: "write_task i data v sent sv2 = (res, sv3)" and V2: "input_ok (sv_registry sv2) V2" "v \<in> set V2"
  shows "input_ok (sv_registry sv1) (V @ [v]) \<and> in_bytes v = byteLength data \<and>
    input_ok (sv_registry sv3) (remove1 v V2) \<and>
    (\<forall>wr. res = Inr wr \<longrightarrow> wr_acceptedBytes wr = byteLength data \<and> attached sv2 i \<noteq> None \<and>
      (\<exists>r. map_get (sv_records sv2) i = Some r \<and> status r = St_running \<and> \<not> truthy (pendingCleanup r)))"
proof -
  from b obtain r g where g: "reserveInput (sv_registry sv) r (byteLength data) = Inr (v, g)"
    and sv1: "sv1 = sv\<lparr> sv_registry := g \<rparr>"
    by (auto simp: write_begin_def flushed_def recordFor_def split: sum.splits option.splits)
  obtain v' g2 where rel: "releaseInput (sv_registry sv2) v = (v', g2)" by (cases "releaseInput (sv_registry sv2) v")
  have "sv_registry sv3 = g2" using t rel by (simp add: write_task_def release_input_def) auto
  moreover have "\<forall>wr. res = Inr wr \<longrightarrow> wr_acceptedBytes wr = byteLength data \<and> attached sv2 i \<noteq> None \<and>
      (\<exists>r. map_get (sv_records sv2) i = Some r \<and> status r = St_running \<and> \<not> truthy (pendingCleanup r))"
    using t by (auto simp: write_task_def recordFor_def accepts_input_def split: option.splits if_splits sum.splits)
  ultimately show ?thesis
    using reserveInput_ok [OF V g] reserveInput_Inr(1) [OF g] releaseInput_ok [OF V2 rel] by (simp add: sv1)
qed

section \<open>A sample supervisor\<close>

definition new_supervisor :: "SessionLimits \<Rightarrow> Supervisor" where
  "new_supervisor lim =
     \<lparr> sv_registry = new_registry lim,
       sv_router = \<lparr> workers = [], versions = [], persists = new_lanes, mutations = new_lanes \<rparr>,
       sv_waits = [], sv_finalizations = [], sv_confirmed = [], sv_persist = Inr (), sv_disk = [] \<rparr>"

lemma new_supervisor_ledger: "ledger_ok (new_supervisor lim)"
  by (simp add: ledger_ok_def new_supervisor_def new_registry_inv sv_records_def)
     (simp add: new_registry_def)

definition sample_supervisor :: "SessionRecord \<Rightarrow> Supervisor" where
  "sample_supervisor r = put_record r (put_record sample_record
     ((new_supervisor DEFAULT_SESSION_LIMITS)\<lparr> sv_registry := sample_registry \<rparr>))"

definition failed_session :: SessionRecord where
  "failed_session = sample_record
     \<lparr> status := St_spawn_failed,
       exitReason := Some (Exit_spawn_error (js ''no worker'') (Some \<lparr> sc_requested = False, sc_terminationConfirmed = True,
         sc_method = M_none, sc_directChildStarted = Some False, sc_directChildPid = None, sc_message = None \<rparr>)) \<rparr>"

lemma sample_ledger:
  assumes "session_id r = session_id sample_record" and "ownerKey r = ownerKey sample_record"
  shows "ledger_ok (sample_supervisor r)"
proof -
  let ?sv = "put_record sample_record ((new_supervisor DEFAULT_SESSION_LIMITS)\<lparr> sv_registry := sample_registry \<rparr>)"
  have "ledger_ok ?sv"
    by (rule reserve_ledger [OF new_supervisor_ledger, where pf = Linux and m = 32])
       (simp_all add: new_supervisor_def sv_records_def sample_reserve, simp add: new_registry_def)
  moreover have "observes ?sv (put_record r ?sv)"
    by (rule put_observes) (use assms in simp_all)
  ultimately show ?thesis using observes_ledger by (auto simp: sample_supervisor_def)
qed

definition idle_world :: cleanup_world where
  "idle_world = \<lparr> cw_prestart_receipt = False, cw_no_child_receipt = False, cw_reconnect = None,
     cw_shutdown = None, cw_rm_ok = True \<rparr>"

lemma sample_lookup [simp]: "map_get (sv_records (sample_supervisor r)) (session_id r) = Some r"
  by (simp add: sample_supervisor_def)

lemma sample_persist [simp]: "sv_persist (sample_supervisor r) = Inr ()"
  by (simp add: sample_supervisor_def put_record_def new_supervisor_def)


definition silent_world :: final_world where
  "silent_world = \<lparr> fw_final = Inl (Sup_plain (js ''no answer'')), fw_shutdown = None, fw_io = (True, True), fw_io_failure = True \<rparr>"

theorem failed_finalization_blocks_cleanup_witness:
  "\<exists>e sv'. finalizeNativeInLane Linux 7 silent_world 1 exit_snapshot (session_id running_session)
       (attach (session_id running_session) 1 (sample_supervisor running_session)) = (Inl e, sv') \<and>
     cleanup Linux idle_world (session_id running_session) sv' = (Inl e, sv')"
proof -
  let ?i = "session_id running_session"
  let ?sv = "attach ?i 1 (sample_supervisor running_session)"
  have a: "attached ?sv ?i = Some 1" by (simp add: attached_def attach_def)
  have n: "map_get (sv_finalizations ?sv) ?i = None" "sv_persist ?sv = Inr ()"
    by (simp_all add: attach_def sample_supervisor_def new_supervisor_def)
  have r: "map_get (sv_records ?sv) ?i = Some running_session" by simp
  have "ledger_ok (sample_supervisor running_session)"
    by (rule sample_ledger) (simp_all add: running_session_def ownerKey_def)
  then have ok: "ledger_ok ?sv" using observes_frame [of ?sv "sample_supervisor running_session"] observes_ledger
    by (metis attach_frame(1) observes_frame)
  have t: "nativeTerminal Linux exit_snapshot"
    by (simp add: nativeTerminal_def nativeTerminalProof_def exit_snapshot_def drained_report_def drained_status_def)
  obtain v sv1 where b: "bump ?i ?sv = (v, sv1)" by (cases "bump ?i ?sv")
  have r1: "map_get (sv_records sv1) ?i = Some running_session" using bump_frame(2) [of ?i ?sv] r unfolding b snd_conv by metis
  obtain res sv2 where f: "finalizeNativeInLane Linux 7 silent_world 1 exit_snapshot ?i ?sv = (res, sv2)"
    by (cases "finalizeNativeInLane Linux 7 silent_world 1 exit_snapshot ?i ?sv")
  have "\<exists>e. fst (report_failure Linux 7 True exit_snapshot (Sup_plain (js ''no answer'')) ?i sv1) = Inl e"
    using report_failure_shape [OF prod.collapse [symmetric] r1 refl] by blast
  then have "\<exists>e. res = Inl e"
    using f a n b t by (auto simp: finalizeNativeInLane_def finalizeNativeVersion_def Let_def silent_world_def
        split: prod.splits sum.splits) metis+
  then show ?thesis
    using failed_finalization_blocks_cleanup [OF _ a n(1) ok r n(2)] f by blast
qed

theorem write_budget_returned_witness:
  "\<exists>v sv1. write_begin (session_id running_session) (js ''ls'') (sample_supervisor running_session) = (Inr v, sv1) \<and>
     input_ok (sv_registry (snd (write_task (session_id running_session) (js ''ls'') v (Inr 3) sv1))) []"
proof -
  let ?sv = "sample_supervisor running_session" and ?i = "session_id running_session"
  have g: "sv_registry ?sv = sample_registry\<lparr> records := records (sv_registry ?sv) \<rparr>"
    by (simp add: sample_supervisor_def put_record_def)
  have free: "inputBytesBySession sample_registry = []" "inputBytesByOwner sample_registry = []"
    "inputBytes sample_registry = 0" "limits sample_registry = DEFAULT_SESSION_LIMITS"
    by (simp_all add: sample_registry_def new_registry_def setOutput_def addRecord_def addActive_def Let_def)
  have V: "input_ok (sv_registry ?sv) []"
    by (subst g) (simp add: input_ok_def free)
  have "\<exists>v g1. reserveInput (sample_registry\<lparr> records := records (sv_registry ?sv) \<rparr>) running_session 2 = Inr (v, g1)"
    by (simp add: reserveInput_def Let_def free DEFAULT_SESSION_LIMITS_def)
  then obtain v g1 where v: "reserveInput (sv_registry ?sv) running_session 2 = Inr (v, g1)"
    using g by metis
  have "byteLength (js ''ls'') = 2" by (simp add: high_surrogate_def low_surrogate_def unit_bytes_def)
  with v have w: "write_begin ?i (js ''ls'') ?sv = (Inr v, ?sv\<lparr> sv_registry := g1 \<rparr>)"
    by (simp only: write_begin_def flushed_def sample_persist recordFor_def sample_lookup sum.case option.case prod.case)
  have V2: "input_ok (sv_registry (?sv\<lparr> sv_registry := g1 \<rparr>)) [v]"
    using reserveInput_ok [OF V v] by simp
  have "input_ok (sv_registry (snd (write_task ?i (js ''ls'') v (Inr 3) (?sv\<lparr> sv_registry := g1 \<rparr>)))) (remove1 v [v])"
    using write_budget_returned [OF w V prod.collapse [symmetric] V2] by simp
  with w show ?thesis by auto
qed

end
