(* ===== verification/Supervisor_Waits.thy ===== *)
theory Supervisor_Waits
  imports Supervisor "HOL-Library.Multiset"
begin

text \<open>
  Waits of the session supervisor (daemon/supervisor.ts): which conditions are accepted, the part
  of the output a wait looks at, how a wait is answered or kept pending, how pending waits are
  settled, and \<open>sendWait\<close>. The regular-expression engine is an argument.
\<close>

section \<open>What a wait may ask for\<close>

definition regex_special :: "16 word \<Rightarrow> bool" where
  "regex_special u \<longleftrightarrow> u \<in> set (js ''()*+?{|}'')"

fun backreference :: "js_string \<Rightarrow> bool" where
  "backreference (u # v # us) \<longleftrightarrow> (u = 92 \<and> 49 \<le> v \<and> v \<le> 57) \<or> backreference (v # us)"
| "backreference _ \<longleftrightarrow> False"

text \<open>
  \<open>rx\<close> is the regular-expression engine: \<open>new RegExp(pattern)\<close>, which may refuse the pattern, and
  the first match that \<open>exec\<close> finds in a text.
\<close>

type_synonym regex_engine = "js_string \<Rightarrow> (js_string \<Rightarrow> js_string option) option"

definition safeRegex :: "regex_engine \<Rightarrow> js_string \<Rightarrow> (sup_error, js_string \<Rightarrow> js_string option) result" where
  "safeRegex rx pattern =
     (if length pattern > 512 \<or> list_ex regex_special pattern \<or> backreference pattern
      then Inl (Sup_plain (js ''Regex wait pattern is outside the limited-safe subset.''))
      else case rx pattern of
        None \<Rightarrow> Inl (Sup_plain (js ''Invalid regex wait pattern.''))
      | Some m \<Rightarrow> Inr m)"

definition validateWait :: "regex_engine \<Rightarrow> WaitCondition \<Rightarrow> int \<Rightarrow> (sup_error, unit) result" where
  "validateWait rx c timeout =
     (if timeout \<le> 0 \<or> timeout > int MAX_EXEC_RUNTIME_SECONDS
      then Inl (Sup_plain (js ''wait timeoutSeconds must be a positive integer up to 3600.''))
      else case c of
        Wait_exit \<Rightarrow> Inr ()
      | Wait_output literal regex _ \<Rightarrow>
          if (truthy_text literal \<noteq> None) = (truthy_text regex \<noteq> None)
          then Inl (Sup_plain (js ''Output wait requires exactly one of literal or regex.''))
          else case truthy_text literal of
            Some t \<Rightarrow>
              if byteLength t > 4096 then Inl (Sup_limit (DaemonError ''Output wait literal exceeds the size limit.'' E_limit))
              else Inr ()
          | None \<Rightarrow> (case safeRegex rx (nullish regex []) of Inl e \<Rightarrow> Inl e | Inr _ \<Rightarrow> Inr ()))"

section \<open>The output a wait looks at\<close>

text \<open>
  \<open>Buffer.from(output).subarray(n).toString('utf8')\<close>. The bytes left of a character that the cut
  goes through decode to one U+FFFD each, and a lone surrogate has been encoded as U+FFFD.
\<close>

definition unit_tail :: "nat \<Rightarrow> 16 word \<Rightarrow> js_string" where
  "unit_tail n u =
     (if n = 0 then [if high_surrogate u \<or> low_surrogate u then 0xFFFD else u]
      else replicate (unit_bytes u - n) 0xFFFD)"

fun bytes_from :: "nat \<Rightarrow> js_string \<Rightarrow> js_string" where
  "bytes_from n [] = []"
| "bytes_from n [u] = unit_tail n u"
| "bytes_from n (u # v # us) =
     (if high_surrogate u \<and> low_surrogate v
      then (if n = 0 then [u, v] else replicate (4 - n) 0xFFFD) @ bytes_from (n - 4) us
      else unit_tail n u @ bytes_from (n - unit_bytes u) (v # us))"

definition scoped_output :: "SessionRecord \<Rightarrow> nat option \<Rightarrow> js_string \<Rightarrow> js_string" where
  "scoped_output r afterSequence output =
     (let after = nullish afterSequence (firstRetainedSequence r) in
      if after \<le> firstRetainedSequence r then output
      else bytes_from (after - firstRetainedSequence r) output)"

definition exitWait :: "SessionRecord \<Rightarrow> WaitResult" where
  "exitWait r =
     \<lparr> wr_satisfied = True, wr_reason = By_exit, wr_observedAt = nullish (exitedAt r) (updatedAt r),
       wr_matched = None, wr_exitCode = exitCode r, wr_exitSignal = exitSignal r,
       wr_outputTruncated = outputTruncated r, wr_containment = containment r, wr_termination = terminationResult r \<rparr>"

definition waitEnded :: "SessionRecord \<Rightarrow> WaitCondition \<Rightarrow> WaitResult" where
  "waitEnded r c = (if c = Wait_exit then exitWait r else (exitWait r)\<lparr> wr_satisfied := False \<rparr>)"

definition outputWait :: "int \<Rightarrow> SessionRecord \<Rightarrow> js_string \<Rightarrow> WaitResult" where
  "outputWait now r matched =
     \<lparr> wr_satisfied = True, wr_reason = By_output, wr_observedAt = toISOString now, wr_matched = Some matched,
       wr_exitCode = None, wr_exitSignal = None, wr_outputTruncated = outputTruncated r,
       wr_containment = None, wr_termination = None \<rparr>"

definition deadlineWait :: "int \<Rightarrow> SessionRecord \<Rightarrow> WaitResult" where
  "deadlineWait now r =
     \<lparr> wr_satisfied = False, wr_reason = By_deadline, wr_observedAt = toISOString now, wr_matched = None,
       wr_exitCode = None, wr_exitSignal = None, wr_outputTruncated = outputTruncated r,
       wr_containment = None, wr_termination = None \<rparr>"

text \<open>\<open>this.journal.output(record.id)\<close>: flush, then read the journal \<open>j\<close> of the session.\<close>

definition journal_output :: "journal \<Rightarrow> Supervisor \<Rightarrow> (sup_error, js_string) result" where
  "journal_output j sv =
     (case sv_persist sv of
        Inl e \<Rightarrow> Inl e
      | Inr _ \<Rightarrow> (case reader_output j of Inl (InvalidJournal m) \<Rightarrow> Inl (Sup_storage (js m)) | Inr t \<Rightarrow> Inr t))"

definition waitMatch ::
  "regex_engine \<Rightarrow> int \<Rightarrow> journal \<Rightarrow> SessionRecord \<Rightarrow> WaitCondition \<Rightarrow> Supervisor \<Rightarrow> (sup_error, WaitResult option) result" where
  "waitMatch rx now j r c sv =
     (case c of
        Wait_exit \<Rightarrow> Inr (if activeStatus r then None else Some (exitWait r))
      | Wait_output literal regex afterSequence \<Rightarrow>
          (case journal_output j sv of
             Inl e \<Rightarrow> Inl e
           | Inr output \<Rightarrow>
               let scoped = scoped_output r afterSequence output in
               case truthy_text literal of
                 Some t \<Rightarrow> Inr (if str_includes scoped t then Some (outputWait now r t) else None)
               | None \<Rightarrow>
                   (case safeRegex rx (nullish regex []) of
                      Inl e \<Rightarrow> Inl e
                    | Inr find_in \<Rightarrow> Inr (map_option (outputWait now r) (find_in scoped)))))"

section \<open>Waiting\<close>

text \<open>
  \<open>finishWait(record, result)\<close>: the record object is updated and its write is queued. The caller's
  object \<open>r\<close> is the one in the table unless the session has been deleted; the write goes through in
  both cases, and its outcome is what the queue settles with.
\<close>

definition finishWait ::
  "platform \<Rightarrow> int \<Rightarrow> bool \<Rightarrow> SessionRecord \<Rightarrow> WaitResult \<Rightarrow> Supervisor \<Rightarrow> (sup_error, WaitResult) result \<times> Supervisor" where
  "finishWait pf now io r result sv =
     (let complete = result\<lparr> wr_containment := containment r, wr_termination := terminationResult r \<rparr>;
          r1 = r\<lparr> lastWaitResult := Some complete, updatedAt := toISOString now \<rparr>
      in case writeSession pf io r1 (sv_disk sv) of
           (res, r2, disk) \<Rightarrow>
             let persisted = (case res of Inl e \<Rightarrow> Inl (Sup_storage (storage_message e)) | Inr u \<Rightarrow> Inr u);
                 sv1 = sv\<lparr> sv_disk := disk, sv_persist := persisted \<rparr>;
                 sv2 = (if map_has (sv_records sv) (session_id r) then put_record r2 sv1 else sv1)
             in (case persisted of Inl e \<Rightarrow> Inl e | Inr _ \<Rightarrow> Inr complete, sv2))"

datatype wait_outcome = Wait_done WaitResult | Wait_pending PendingWait

definition release_reserved :: "WaitReservation option \<Rightarrow> Supervisor \<Rightarrow> WaitReservation option \<times> Supervisor" where
  "release_reserved w sv =
     (case w of
        None \<Rightarrow> (None, sv)
      | Some v \<Rightarrow> (case releaseWait (sv_registry sv) v of (v', g) \<Rightarrow> (Some v', sv\<lparr> sv_registry := g \<rparr>)))"

definition push_wait :: "js_string \<Rightarrow> PendingWait \<Rightarrow> Supervisor \<Rightarrow> Supervisor" where
  "push_wait i p sv = sv\<lparr> sv_waits := map_set (sv_waits sv) i (nullish (map_get (sv_waits sv) i) [] @ [p]) \<rparr>"

text \<open>
  The part of \<open>wait\<close> before the promise is pending, with the reservation \<open>sendWait\<close> may have made.
  The reservation object is returned with its \<open>released\<close> flag.
\<close>

definition done_wait ::
  "WaitReservation option \<Rightarrow> (sup_error, WaitResult) result \<times> Supervisor \<Rightarrow>
   (sup_error, wait_outcome) result \<times> WaitReservation option \<times> Supervisor" where
  "done_wait w o_sv = (case fst o_sv of Inl e \<Rightarrow> Inl e | Inr x \<Rightarrow> Inr (Wait_done x), w, snd o_sv)"

definition wait_begin ::
  "platform \<Rightarrow> regex_engine \<Rightarrow> int \<Rightarrow> bool \<Rightarrow> journal \<Rightarrow> js_string \<Rightarrow> WaitCondition \<Rightarrow> int \<Rightarrow> WaitReservation option \<Rightarrow>
   Supervisor \<Rightarrow> (sup_error, wait_outcome) result \<times> WaitReservation option \<times> Supervisor" where
  "wait_begin pf rx now io j i c timeout reserved sv =
     (case sv_persist sv of
        Inl e \<Rightarrow> (Inl e, reserved, sv)
      | Inr _ \<Rightarrow>
        (case validateWait rx c timeout of
           Inl e \<Rightarrow> (Inl e, reserved, sv)
         | Inr _ \<Rightarrow>
           (case recordFor sv i of
              Inl e \<Rightarrow> (Inl e, reserved, sv)
            | Inr r \<Rightarrow>
                if truthy (pendingCleanup r) \<or> status r = St_lost
                then (Inl (Sup_closed i), release_reserved reserved sv)
                else case waitMatch rx now j r c sv of
                  Inl e \<Rightarrow> (Inl e, reserved, sv)
                | Inr (Some matched) \<Rightarrow>
                    (case release_reserved reserved sv of (w, sv1) \<Rightarrow> done_wait w (finishWait pf now io r matched sv1))
                | Inr None \<Rightarrow>
                    if \<not> activeStatus r
                    then (case release_reserved reserved sv of (w, sv1) \<Rightarrow> done_wait w (finishWait pf now io r (waitEnded r c) sv1))
                    else case reserved of
                      Some w \<Rightarrow>
                        (Inr (Wait_pending \<lparr> pw_condition = c, pw_reservation = w \<rparr>), reserved,
                         push_wait i \<lparr> pw_condition = c, pw_reservation = w \<rparr> sv)
                    | None \<Rightarrow>
                        (case reserveWait (sv_registry sv) r of
                           Inl e \<Rightarrow> (Inl (Sup_limit e), None, sv)
                         | Inr (w, g) \<Rightarrow>
                             (Inr (Wait_pending \<lparr> pw_condition = c, pw_reservation = w \<rparr>), Some w,
                              push_wait i \<lparr> pw_condition = c, pw_reservation = w \<rparr> (sv\<lparr> sv_registry := g \<rparr>))))))"

text \<open>Reservations are told apart by their id, as the objects are by identity.\<close>

definition same_wait :: "PendingWait \<Rightarrow> PendingWait \<Rightarrow> bool" where
  "same_wait p q \<longleftrightarrow> wt_id (pw_reservation p) = wt_id (pw_reservation q)"

definition removeWait :: "js_string \<Rightarrow> PendingWait \<Rightarrow> Supervisor \<Rightarrow> Supervisor" where
  "removeWait i p sv =
     (let sv1 = sv\<lparr> sv_registry := snd (releaseWait (sv_registry sv) (pw_reservation p)) \<rparr> in
      case map_get (sv_waits sv1) i of
        None \<Rightarrow> sv1
      | Some pending \<Rightarrow>
          let remaining = filter (\<lambda>q. \<not> same_wait q p) pending in
          sv1\<lparr> sv_waits := (if remaining \<noteq> [] then map_set (sv_waits sv1) i remaining else map_delete (sv_waits sv1) i) \<rparr>)"

definition is_pending :: "js_string \<Rightarrow> PendingWait \<Rightarrow> Supervisor \<Rightarrow> bool" where
  "is_pending i p sv \<longleftrightarrow> p \<in> set (nullish (map_get (sv_waits sv) i) [])"

text \<open>
  \<open>pending.settle(result)\<close>, which does nothing the second time. \<open>r\<close> is the record object the waiter
  holds; it is the object of the table as long as the session has not been deleted.
\<close>

definition held_record :: "SessionRecord \<Rightarrow> Supervisor \<Rightarrow> SessionRecord" where
  "held_record r sv = nullish (map_get (sv_records sv) (session_id r)) r"

definition settle_wait ::
  "platform \<Rightarrow> int \<Rightarrow> bool \<Rightarrow> SessionRecord \<Rightarrow> PendingWait \<Rightarrow> WaitResult \<Rightarrow> Supervisor \<Rightarrow>
   (sup_error, WaitResult) result option \<times> Supervisor" where
  "settle_wait pf now io r p result sv =
     (if \<not> is_pending (session_id r) p sv then (None, sv)
      else case finishWait pf now io (held_record r sv) result (removeWait (session_id r) p sv) of
        (res, sv1) \<Rightarrow> (Some res, sv1))"

text \<open>\<open>resolveExitWaits(record)\<close>: every pending wait ends, with the outcomes \<open>ios\<close> of the writes.\<close>

fun end_waits ::
  "platform \<Rightarrow> regex_engine \<Rightarrow> int \<Rightarrow> journal \<Rightarrow> SessionRecord \<Rightarrow> (PendingWait \<times> bool) list \<Rightarrow> Supervisor \<Rightarrow> Supervisor" where
  "end_waits pf rx now j r [] sv = sv"
| "end_waits pf rx now j r ((p, io) # ps) sv =
     (case waitMatch rx now j (held_record r sv) (pw_condition p) sv of
        Inl _ \<Rightarrow> sv
      | Inr m \<Rightarrow>
          end_waits pf rx now j r ps
            (snd (settle_wait pf now io r p (nullish m (waitEnded (held_record r sv) (pw_condition p))) sv)))"

definition resolveExitWaits ::
  "platform \<Rightarrow> regex_engine \<Rightarrow> int \<Rightarrow> journal \<Rightarrow> (nat \<Rightarrow> bool) \<Rightarrow> SessionRecord \<Rightarrow> Supervisor \<Rightarrow> Supervisor" where
  "resolveExitWaits pf rx now j io r sv =
     (case sv_persist sv of
        Inl _ \<Rightarrow> sv
      | Inr _ \<Rightarrow>
          let pending = nullish (map_get (sv_waits sv) (session_id r)) [] in
          end_waits pf rx now j r (zip pending (map io [0..<length pending])) sv)"

text \<open>One wait of \<open>resolveOutputWaits(record)\<close>; they are independent of each other.\<close>

definition resolveOutputWait ::
  "platform \<Rightarrow> regex_engine \<Rightarrow> int \<Rightarrow> journal \<Rightarrow> bool \<Rightarrow> SessionRecord \<Rightarrow> PendingWait \<Rightarrow> Supervisor \<Rightarrow> Supervisor" where
  "resolveOutputWait pf rx now j io r p sv =
     (if pw_condition p = Wait_exit then sv
      else case waitMatch rx now j (held_record r sv) (pw_condition p) sv of
        Inr (Some result) \<Rightarrow> snd (settle_wait pf now io r p result sv)
      | _ \<Rightarrow> sv)"

section \<open>Sending input and waiting\<close>

text \<open>\<open>sendWait\<close> up to its task in the lane: both reservations are made, or none is kept.\<close>

definition sendWait_begin ::
  "regex_engine \<Rightarrow> js_string \<Rightarrow> js_string \<Rightarrow> WaitCondition \<Rightarrow> int \<Rightarrow> Supervisor \<Rightarrow>
   (sup_error, WaitReservation \<times> InputReservation) result \<times> Supervisor" where
  "sendWait_begin rx i data c timeout sv0 = flushed sv0 (\<lambda>sv.
     case validateWait rx c timeout of
       Inl e \<Rightarrow> (Inl e, sv)
     | Inr _ \<Rightarrow>
       (case recordFor sv i of
          Inl e \<Rightarrow> (Inl e, sv)
        | Inr r \<Rightarrow>
          (case reserveWait (sv_registry sv) r of
             Inl e \<Rightarrow> (Inl (Sup_limit e), sv)
           | Inr (w, g) \<Rightarrow>
             (case reserveInput g r (byteLength data) of
                Inl e \<Rightarrow> (Inl (Sup_limit e), sv\<lparr> sv_registry := snd (releaseWait g w) \<rparr>)
              | Inr (v, g2) \<Rightarrow> (Inr (w, v), sv\<lparr> sv_registry := g2 \<rparr>)))))"

text \<open>The task in the lane answers with the cursor at which the worker accepted the input.\<close>

definition sendWait_task ::
  "js_string \<Rightarrow> InputReservation \<Rightarrow> (js_string, nat) result \<Rightarrow> Supervisor \<Rightarrow> (sup_error, nat) result \<times> Supervisor" where
  "sendWait_task i v sent sv =
     ((case recordFor sv i of
         Inl e \<Rightarrow> Inl e
       | Inr r \<Rightarrow>
           if \<not> accepts_input sv i r then Inl (Sup_closed i)
           else case sent of
             Inl m \<Rightarrow> Inl (Sup_process (js ''Failed to write to PTY '' @ [39] @ i @ [39] @ js '': '' @ m))
           | Inr n \<Rightarrow> Inr n),
      release_input v sv)"

definition after_input :: "nat \<Rightarrow> WaitCondition \<Rightarrow> WaitCondition" where
  "after_input n c = (case c of Wait_exit \<Rightarrow> Wait_exit | Wait_output l x _ \<Rightarrow> Wait_output l x (Some n))"

text \<open>The rest: the wait with its reservation, which the \<open>catch\<close> clause releases on an error.\<close>

definition sendWait_end ::
  "platform \<Rightarrow> regex_engine \<Rightarrow> int \<Rightarrow> bool \<Rightarrow> journal \<Rightarrow> js_string \<Rightarrow> WaitCondition \<Rightarrow> int \<Rightarrow> WaitReservation \<Rightarrow>
   (sup_error, nat) result \<Rightarrow> Supervisor \<Rightarrow> (sup_error, wait_outcome) result \<times> Supervisor" where
  "sendWait_end pf rx now io j i c timeout w sent sv =
     (case sent of
        Inl e \<Rightarrow> (Inl e, snd (release_reserved (Some w) sv))
      | Inr n \<Rightarrow>
          (case wait_begin pf rx now io j i (after_input n c) timeout (Some w) sv of
             (Inl e, w', sv1) \<Rightarrow> (Inl e, snd (release_reserved w' sv1))
           | (Inr x, _, sv1) \<Rightarrow> (Inr x, sv1)))"

section \<open>Cutting output\<close>

lemma bytes_from_0: "validText b \<Longrightarrow> bytes_from 0 b = b"
  by (induction b rule: validText.induct) (auto simp: unit_tail_def split: if_splits)

lemma bytes_from_boundary:
  "\<not> splits_pair a b \<Longrightarrow> validText b \<Longrightarrow> bytes_from (byteLength a) (a @ b) = b"
proof (induction a rule: byteLength.induct)
  case 1
  then show ?case by (simp add: bytes_from_0)
next
  case (2 u)
  then show ?case by (cases b) (auto simp: splits_pair_def unit_tail_def bytes_from_0)
next
  case (3 u v us)
  show ?case
  proof (cases "high_surrogate u \<and> low_surrogate v")
    case True
    then have "\<not> splits_pair us b" using "3.prems" by (auto simp: splits_pair_def split: if_splits)
    with True "3.IH"(1) "3.prems" show ?thesis by simp
  next
    case False
    have "\<not> splits_pair (v # us) b" using "3.prems" by (auto simp: splits_pair_def)
    with False "3.IH"(2) "3.prems" show ?thesis by (auto simp: unit_tail_def)
  qed
qed

lemma scoped_boundary:
  assumes "\<not> splits_pair a b" and "validText b"
  shows "scoped_output r (Some (firstRetainedSequence r + byteLength a)) (a @ b) = b"
  using bytes_from_boundary [OF assms] by (simp add: scoped_output_def)

section \<open>What a wait answers\<close>

lemma refreshed_lastWait: "lastWaitResult r = Some x \<Longrightarrow> lastWaitResult (refreshed_record pf r) = Some x"
  using refresh_evidence_sel [of pf "state r" r]
  by (simp add: refreshed_record_def Let_def projectSessionState_def record_evidence_def merge_evidence_def)
     (simp add: with_projection_def LifecycleProjection.defs)

lemma finishWait_Inr:
  assumes "finishWait pf now io r res sv = (Inr x, sv')"
  shows "x = res\<lparr> wr_containment := containment r, wr_termination := terminationResult r \<rparr>"
    and "sv_persist sv' = Inr ()"
    and "map_has (sv_records sv) (session_id r) \<Longrightarrow>
      \<exists>r'. map_get (sv_records sv') (session_id r) = Some r' \<and> lastWaitResult r' = Some x"
  using assms refreshed_lastWait
  by (auto simp: finishWait_def writeSession_def Let_def split: if_splits sum.splits prod.splits)

lemma waitMatch_Some:
  assumes "waitMatch rx now j r c sv = Inr (Some m)"
  obtains "c = Wait_exit" "\<not> activeStatus r" "m = exitWait r"
  | literal regex after out t where "c = Wait_output literal regex after" "journal_output j sv = Inr out"
    "m = outputWait now r t"
    "truthy_text literal = Some t \<and> str_includes (scoped_output r after out) t \<or>
     truthy_text literal = None \<and> (\<exists>f. safeRegex rx (nullish regex []) = Inr f \<and> f (scoped_output r after out) = Some t)"
  using assms
  by (auto simp: waitMatch_def Let_def split: WaitCondition.splits sum.splits option.splits if_splits)

lemma reserved_records [simp]: "sv_records (snd (release_reserved w sv)) = sv_records sv"
  by (auto simp: release_reserved_def releaseWait_def sv_records_def split: option.splits prod.splits)

lemma wait_done:
  assumes "wait_begin pf rx now io j i c t w sv = (Inr (Wait_done res), w', sv')"
  obtains r m sv1 where "map_get (sv_records sv) i = Some r" "\<not> truthy (pendingCleanup r)" "status r \<noteq> St_lost"
    "sv_records sv1 = sv_records sv" "finishWait pf now io r m sv1 = (Inr res, sv')"
    "waitMatch rx now j r c sv = Inr (Some m) \<or>
     waitMatch rx now j r c sv = Inr None \<and> \<not> activeStatus r \<and> m = waitEnded r c"
proof -
  from assms obtain r where r: "map_get (sv_records sv) i = Some r" "\<not> truthy (pendingCleanup r)" "status r \<noteq> St_lost"
    by (auto simp: wait_begin_def recordFor_def split: sum.splits option.splits if_splits)
  obtain w1 sv1 where rel: "release_reserved w sv = (w1, sv1)" by (cases "release_reserved w sv")
  have rec: "sv_records sv1 = sv_records sv" using reserved_records [of w sv] rel by simp
  have "\<exists>m. finishWait pf now io r m sv1 = (Inr res, sv') \<and>
    (waitMatch rx now j r c sv = Inr (Some m) \<or>
     waitMatch rx now j r c sv = Inr None \<and> \<not> activeStatus r \<and> m = waitEnded r c)"
    using assms r rel
    by (auto simp: wait_begin_def recordFor_def done_wait_def prod_eq_iff split: sum.splits option.splits if_splits prod.splits)
  then show ?thesis using that r rec by blast
qed

section \<open>Reservations of waits\<close>

definition pending_reservations :: "Supervisor \<Rightarrow> WaitReservation list" where
  "pending_reservations sv = map pw_reservation (concat (map_values (sv_waits sv)))"

text \<open>
  Every wait reservation of the registry belongs to a pending wait or to a \<open>sendWait\<close> in progress,
  whose reservations are listed in \<open>H\<close>, and to one only.
\<close>

definition waits_inv :: "Supervisor \<times> WaitReservation list \<Rightarrow> bool" where
  "waits_inv s \<longleftrightarrow>
     map_ok (sv_waits (fst s)) \<and>
     (\<exists>W. wait_ok (sv_registry (fst s)) W \<and> mset W = mset (pending_reservations (fst s)) + mset (snd s))"

lemma wait_ids_distinct: "wait_ok g W \<Longrightarrow> distinct (map wt_id W)"
  by (simp add: wait_ok_def index_ok_def map_ok_def wait_sessions_def o_def)

lemma filter_other:
  "distinct (map f W) \<Longrightarrow> w \<in> set W \<Longrightarrow> mset (filter (\<lambda>v. f v \<noteq> f w) W) = mset W - {#w#}"
proof (induction W)
  case (Cons x W)
  show ?case
  proof (cases "x = w")
    case True
    with Cons.prems have "\<forall>v\<in>set W. f v \<noteq> f w" by (auto simp: image_iff)
    then have "filter (\<lambda>v. f v \<noteq> f w) W = W" by (simp add: filter_id_conv)
    with True show ?thesis by simp
  next
    case False
    with Cons.prems have "w \<in> set W" "f x \<noteq> f w" by (auto simp: image_iff)
    with Cons False show ?thesis by (auto simp: insert_DiffM2)
  qed
qed simp

lemma release_mset:
  assumes "wait_ok g W" and "w \<in> set W"
  shows "wait_ok (snd (releaseWait g w)) (outstanding_waits W w)" "mset (outstanding_waits W w) = mset W - {#w#}"
  using releaseWait_ok [OF assms prod.collapse [symmetric]] filter_other [OF wait_ids_distinct [OF assms(1)] assms(2)]
  by (simp_all add: outstanding_waits_def)

lemma delete_absent: "map_get m i = None \<Longrightarrow> map_delete m i = m"
  by (induction m) (auto split: if_splits)

lemma values_set_mset:
  "map_ok m \<Longrightarrow> map_get m i = Some ps \<Longrightarrow>
   mset (concat (map_values (map_set m i qs))) + mset ps = mset (concat (map_values m)) + mset qs"
  by (induction m) (auto simp: map_ok_def split: if_splits)

lemma values_new_mset:
  "map_get m i = None \<Longrightarrow> mset (concat (map_values (map_set m i qs))) = mset (concat (map_values m)) + mset qs"
  by (induction m) (auto split: if_splits)

lemma values_delete_mset:
  "map_ok m \<Longrightarrow> map_get m i = Some ps \<Longrightarrow>
   mset (concat (map_values (map_delete m i))) + mset ps = mset (concat (map_values m))"
proof (induction m)
  case (Cons e m)
  obtain k v where e: "e = (k, v)" by (cases e)
  show ?case
  proof (cases "k = i")
    case True
    with Cons.prems e have "map_get m i = None" "v = ps" by (auto simp: map_ok_def map_of_eq_None_iff)
    with True e show ?thesis by (simp add: delete_absent)
  next
    case False
    with Cons e show ?thesis by (simp add: map_ok_def)
  qed
qed simp

lemma values_replace_mset:
  assumes "map_ok m" and "map_get m i = Some ps"
  shows "mset (concat (map_values (if qs \<noteq> [] then map_set m i qs else map_delete m i))) + mset ps =
    mset (concat (map_values m)) + mset qs"
  using values_set_mset [OF assms, of qs] values_delete_mset [OF assms] by auto

lemma push_pending:
  assumes "map_ok (sv_waits sv)"
  shows "mset (pending_reservations (push_wait i p sv)) = add_mset (pw_reservation p) (mset (pending_reservations sv))"
    and "map_ok (sv_waits (push_wait i p sv))" "sv_registry (push_wait i p sv) = sv_registry sv"
proof -
  have "mset (concat (map_values (sv_waits (push_wait i p sv)))) = add_mset p (mset (concat (map_values (sv_waits sv))))"
  proof (cases "map_get (sv_waits sv) i")
    case None
    then show ?thesis using values_new_mset [OF None] by (simp add: push_wait_def)
  next
    case (Some ps)
    from values_set_mset [OF assms Some, of "ps @ [p]"] Some show ?thesis by (simp add: push_wait_def)
  qed
  then show "mset (pending_reservations (push_wait i p sv)) = add_mset (pw_reservation p) (mset (pending_reservations sv))"
    by (simp add: pending_reservations_def)
qed (use assms in \<open>simp_all add: push_wait_def\<close>)

lemma inv_distinct:
  assumes "wait_ok g W" and "mset W = mset P + mset H"
  shows "distinct (map wt_id P)"
proof -
  have "mset (map wt_id W) = mset (map wt_id (P @ H))" using assms(2) by simp
  with wait_ids_distinct [OF assms(1)] have "distinct (map wt_id (P @ H))" using mset_eq_imp_distinct_iff by blast
  then show ?thesis by simp
qed

lemma distinct_part: "distinct (map f (concat xss)) \<Longrightarrow> xs \<in> set xss \<Longrightarrow> distinct (map f xs)"
  by (induction xss) auto

lemma removed_mset:
  fixes p :: PendingWait
  assumes ok: "map_ok m" and ps: "map_get m i = Some ps" and p: "p \<in> set ps"
    and d: "distinct (map (\<lambda>q. wt_id (pw_reservation q)) (concat (map_values m)))"
  shows "mset (concat (map_values (if filter (\<lambda>q. \<not> same_wait q p) ps \<noteq> []
      then map_set m i (filter (\<lambda>q. \<not> same_wait q p) ps) else map_delete m i))) =
    mset (concat (map_values m)) - {#p#}"
proof -
  let ?rest = "filter (\<lambda>q. \<not> same_wait q p) ps"
  have "ps \<in> set (map_values m)" using map_of_SomeD [OF ps] by force
  from distinct_part [OF d this] have "distinct (map (\<lambda>q. wt_id (pw_reservation q)) ps)" .
  from filter_other [OF this p] have rest: "mset ?rest = mset ps - {#p#}" by (simp add: same_wait_def)
  have sub: "add_mset p (mset ?rest) = mset ps" unfolding rest using p by simp
  have "mset (concat (map_values (if ?rest \<noteq> [] then map_set m i ?rest else map_delete m i))) + mset ps =
      mset (concat (map_values m)) + mset ?rest"
    by (rule values_replace_mset [OF ok ps])
  then have "add_mset p (mset (concat (map_values (if ?rest \<noteq> [] then map_set m i ?rest else map_delete m i)))) =
      mset (concat (map_values m))"
    unfolding sub [symmetric] by (simp only: union_mset_add_mset_right union_mset_add_mset_left add_mset_add_mset_same_iff
        add_right_cancel flip: union_mset_add_mset_left)
  then show ?thesis by (metis add_mset_remove_trivial)
qed

lemma removeWait_inv:
  assumes inv: "waits_inv (sv, H)" and p: "is_pending i p sv"
  shows "waits_inv (removeWait i p sv, H)"
proof -
  let ?m = "sv_waits sv" and ?w = "pw_reservation p"
  from p obtain ps where ps: "map_get ?m i = Some ps" "p \<in> set ps"
    by (cases "map_get ?m i") (auto simp: is_pending_def)
  from inv obtain W where ok: "map_ok ?m" and W: "wait_ok (sv_registry sv) W" "mset W = mset (pending_reservations sv) + mset H"
    by (auto simp: waits_inv_def)
  have d: "distinct (map (\<lambda>q. wt_id (pw_reservation q)) (concat (map_values ?m)))"
    using inv_distinct [OF W] by (simp add: pending_reservations_def o_def)
  have pin: "p \<in> set (concat (map_values ?m))" using map_of_SomeD [OF ps(1)] ps(2) by force
  have w: "?w \<in> set W" using W(2) pin by (metis image_eqI image_set pending_reservations_def set_mset_mset union_iff)
  have "sv_waits (removeWait i p sv) = (if filter (\<lambda>q. \<not> same_wait q p) ps \<noteq> []
      then map_set ?m i (filter (\<lambda>q. \<not> same_wait q p) ps) else map_delete ?m i)"
    using ps(1) by (simp add: removeWait_def Let_def)
  then have "mset (pending_reservations (removeWait i p sv)) = image_mset pw_reservation (mset (concat (map_values ?m)) - {#p#})"
    unfolding pending_reservations_def mset_map by (simp only: removed_mset [OF ok ps d])
  also have "\<dots> = mset (pending_reservations sv) - {#?w#}"
    using pin by (simp add: pending_reservations_def image_mset_Diff)
  finally have "mset (pending_reservations (removeWait i p sv)) = mset (pending_reservations sv) - {#?w#}" .
  moreover have "?w \<in># mset (pending_reservations sv)" using pin by (simp add: pending_reservations_def)
  ultimately have "mset (outstanding_waits W ?w) = mset (pending_reservations (removeWait i p sv)) + mset H"
    using release_mset(2) [OF W(1) w] W(2) by simp
  moreover have "sv_registry (removeWait i p sv) = snd (releaseWait (sv_registry sv) ?w)"
    using ps(1) by (simp add: removeWait_def Let_def)
  moreover have "map_ok (sv_waits (removeWait i p sv))" using ok ps(1) by (simp add: removeWait_def Let_def)
  ultimately show ?thesis using release_mset(1) [OF W(1) w] by (auto simp: waits_inv_def)
qed

text \<open>A step that leaves the waits and their reservations alone.\<close>

definition keeps_waits :: "Supervisor \<Rightarrow> Supervisor \<Rightarrow> bool" where
  "keeps_waits sv sv' \<longleftrightarrow>
     sv_waits sv' = sv_waits sv \<and> (\<forall>W. wait_ok (sv_registry sv) W \<longrightarrow> wait_ok (sv_registry sv') W)"

lemma keeps_inv: "keeps_waits sv sv' \<Longrightarrow> waits_inv (sv, H) \<Longrightarrow> waits_inv (sv', H)"
  by (auto simp: keeps_waits_def waits_inv_def pending_reservations_def)

lemma wait_ok_records [simp]: "wait_ok (records_update f g) W = wait_ok g W"
  by (simp add: wait_ok_def)

lemma finishWait_keeps: "keeps_waits sv (snd (finishWait pf now io r res sv))"
  by (simp add: finishWait_def keeps_waits_def Let_def put_record_def split: prod.split)

lemma settle_inv: "waits_inv (sv, H) \<Longrightarrow> waits_inv (snd (settle_wait pf now io r p res sv), H)"
  using removeWait_inv [of sv H "session_id r" p] keeps_inv [OF finishWait_keeps]
  by (auto simp: settle_wait_def split: prod.splits) (metis snd_conv)

lemma end_waits_inv: "waits_inv (sv, H) \<Longrightarrow> waits_inv (end_waits pf rx now j r ps sv, H)"
proof (induction ps arbitrary: sv)
  case (Cons q ps)
  then show ?case by (cases q) (simp add: settle_inv split: sum.split)
qed simp

lemma held_mset: "w \<in> set H \<Longrightarrow> mset (remove1 w H) = mset H - {#w#}"
  by simp

lemma release_reserved_Some [simp]:
  "release_reserved (Some w) sv = (Some (fst (releaseWait (sv_registry sv) w)), sv\<lparr> sv_registry := snd (releaseWait (sv_registry sv) w) \<rparr>)"
  "release_reserved None sv = (None, sv)"
  by (simp_all add: release_reserved_def split: prod.split)

lemma release_held:
  assumes inv: "waits_inv (sv, H)" and w: "w \<in> set H"
  shows "waits_inv (sv\<lparr> sv_registry := snd (releaseWait (sv_registry sv) w) \<rparr>, remove1 w H)" "\<not> wt_released w"
proof -
  from inv obtain W where ok: "map_ok (sv_waits sv)" and W: "wait_ok (sv_registry sv) W" "mset W = mset (pending_reservations sv) + mset H"
    by (auto simp: waits_inv_def)
  have wW: "w \<in> set W" using W(2) w by (metis set_mset_mset union_iff)
  have "mset (outstanding_waits W w) = mset (pending_reservations sv) + mset (remove1 w H)"
    using release_mset(2) [OF W(1) wW] W(2) w by simp
  with release_mset(1) [OF W(1) wW] ok show "waits_inv (sv\<lparr> sv_registry := snd (releaseWait (sv_registry sv) w) \<rparr>, remove1 w H)"
    by (auto simp: waits_inv_def pending_reservations_def)
  show "\<not> wt_released w" using W(1) wW by (simp add: wait_ok_def)
qed

lemma reserve_held:
  assumes inv: "waits_inv (sv, H)" and res: "reserveWait (sv_registry sv) r = Inr (w, g)"
  shows "waits_inv (sv\<lparr> sv_registry := g \<rparr>, w # H)"
proof -
  from inv obtain W where "map_ok (sv_waits sv)" "wait_ok (sv_registry sv) W" "mset W = mset (pending_reservations sv) + mset H"
    by (auto simp: waits_inv_def)
  with reserveWait_ok [OF _ res, of W] show ?thesis
    by (auto simp: waits_inv_def pending_reservations_def intro!: exI [of _ "W @ [w]"])
qed

lemma push_held:
  assumes "waits_inv (sv, H)" and "w \<in> set H"
  shows "waits_inv (push_wait i \<lparr> pw_condition = c, pw_reservation = w \<rparr> sv, remove1 w H)"
  using assms push_pending [of sv i "\<lparr> pw_condition = c, pw_reservation = w \<rparr>"]
  by (auto simp: waits_inv_def)

lemma wait_begin_inv:
  assumes inv: "waits_inv (sv, H)" and w: "w = None \<or> (\<exists>v\<in>set H. w = Some v)"
    and b: "wait_begin pf rx now io j i c t w sv = (res, w', sv')"
  shows "case w of
      None \<Rightarrow> waits_inv (sv', H)
    | Some v \<Rightarrow> (case res of
        Inl _ \<Rightarrow> waits_inv (snd (release_reserved w' sv'), remove1 v H)
      | Inr _ \<Rightarrow> waits_inv (sv', remove1 v H))"
proof (cases w)
  case None
  have "sv' = sv \<or> (\<exists>r m. sv' = snd (finishWait pf now io r m sv)) \<or>
      (\<exists>r v g. reserveWait (sv_registry sv) r = Inr (v, g) \<and>
        sv' = push_wait i \<lparr> pw_condition = c, pw_reservation = v \<rparr> (sv\<lparr> sv_registry := g \<rparr>))"
    using b None
    by (auto simp: wait_begin_def done_wait_def split: sum.splits option.splits if_splits prod.splits) blast
  moreover have "waits_inv (push_wait i \<lparr> pw_condition = c, pw_reservation = v \<rparr> (sv\<lparr> sv_registry := g \<rparr>), H)"
    if "reserveWait (sv_registry sv) r = Inr (v, g)" for r v g
    using push_held [OF reserve_held [OF inv that], of v i c] by simp
  ultimately show ?thesis using inv None keeps_inv [OF finishWait_keeps] by auto
next
  case (Some v)
  with w have v: "v \<in> set H" by auto
  note rel = release_held [OF inv v]
  let ?sv = "sv\<lparr> sv_registry := snd (releaseWait (sv_registry sv) v) \<rparr>" and ?v = "fst (releaseWait (sv_registry sv) v)"
  have gone: "wt_released ?v" using rel(2) by (simp add: releaseWait_def)
  have again: "releaseWait g ?v = (?v, g)" for g using gone by (simp add: releaseWait_def)
  have fin: "waits_inv (snd (finishWait pf now io r m ?sv), remove1 v H)" for r m
    using keeps_inv [OF finishWait_keeps rel(1)] .
  have "(\<exists>e. res = Inl e) \<and> w' = Some v \<and> sv' = sv \<or>
      (\<exists>e. res = Inl e) \<and> w' = Some ?v \<and> sv' = ?sv \<or>
      (\<exists>r m. w' = Some ?v \<and> sv' = snd (finishWait pf now io r m ?sv)) \<or>
      (\<exists>x. res = Inr x) \<and> sv' = push_wait i \<lparr> pw_condition = c, pw_reservation = v \<rparr> sv"
    using b Some
    by (auto simp: wait_begin_def done_wait_def split: sum.splits option.splits if_splits)
  then show ?thesis
    using Some rel fin push_held [OF inv v, of i c] by (auto simp: again split: sum.split)
qed

lemma sendWait_begin_inv:
  assumes inv: "waits_inv (sv, H)" and b: "sendWait_begin rx i data c t sv = (res, sv')"
  shows "case res of Inl _ \<Rightarrow> waits_inv (sv', H) | Inr (w, _) \<Rightarrow> waits_inv (sv', w # H)"
proof -
  have "(\<exists>e. res = Inl e) \<and> sv' = sv \<or>
    (\<exists>r w g. reserveWait (sv_registry sv) r = Inr (w, g) \<and>
      ((\<exists>e. res = Inl e) \<and> sv' = sv\<lparr> sv_registry := snd (releaseWait g w) \<rparr> \<or>
       (\<exists>v n g2. res = Inr (w, v) \<and> reserveInput g r n = Inr (v, g2) \<and> sv' = sv\<lparr> sv_registry := g2 \<rparr>)))"
    using b by (auto simp: sendWait_begin_def flushed_def split: sum.splits prod.splits) blast+
  then show ?thesis
  proof (elim disjE exE conjE)
    fix r w g e assume r: "reserveWait (sv_registry sv) r = Inr (w, g)" "res = Inl e"
      "sv' = sv\<lparr> sv_registry := snd (releaseWait g w) \<rparr>"
    from release_held(1) [OF reserve_held [OF inv r(1)], of w] r show ?thesis by simp
  next
    fix r w g v n g2 assume r: "reserveWait (sv_registry sv) r = Inr (w, g)" "res = Inr (w, v)"
      "reserveInput g r n = Inr (v, g2)" "sv' = sv\<lparr> sv_registry := g2 \<rparr>"
    have "keeps_waits (sv\<lparr> sv_registry := g \<rparr>) sv'"
      using reserveInput_Inr(2) [OF r(3)] r(4) by (simp add: keeps_waits_def)
    from keeps_inv [OF this reserve_held [OF inv r(1)]] r(2) show ?thesis by simp
  qed (use inv in auto)
qed

lemma sendWait_end_inv:
  assumes inv: "waits_inv (sv, H)" and w: "w \<in> set H"
  shows "waits_inv (snd (sendWait_end pf rx now io j i c t w sent sv), remove1 w H)"
proof (cases sent)
  case (Inl e)
  with release_held(1) [OF assms] show ?thesis by (simp add: sendWait_end_def)
next
  case (Inr n)
  obtain res w' sv' where b: "wait_begin pf rx now io j i (after_input n c) t (Some w) sv = (res, w', sv')"
    by (cases "wait_begin pf rx now io j i (after_input n c) t (Some w) sv")
  from wait_begin_inv [OF inv _ b] w b Inr show ?thesis
    by (auto simp: sendWait_end_def split: sum.splits)
qed

section \<open>Runs of waits\<close>

text \<open>
  The steps in which waits are made and settled, in any interleaving; \<open>Other sv'\<close> is a step of
  another operation, which leaves the waits alone.
\<close>

datatype wait_event =
    Wait_call int bool journal js_string WaitCondition int
  | Send_begin js_string js_string WaitCondition int
  | Send_end int bool journal js_string WaitCondition int WaitReservation "(sup_error, nat) result"
  | Settle_wait int bool SessionRecord PendingWait WaitResult
  | Exit_waits int journal "nat \<Rightarrow> bool" SessionRecord
  | Output_wait int journal bool SessionRecord PendingWait
  | Other Supervisor

fun wait_enabled :: "Supervisor \<times> WaitReservation list \<Rightarrow> wait_event \<Rightarrow> bool" where
  "wait_enabled s (Send_end _ _ _ _ _ _ w _) = (w \<in> set (snd s))"
| "wait_enabled s (Other sv') = keeps_waits (fst s) sv'"
| "wait_enabled s _ = True"

fun wait_step ::
  "platform \<Rightarrow> regex_engine \<Rightarrow> Supervisor \<times> WaitReservation list \<Rightarrow> wait_event \<Rightarrow> Supervisor \<times> WaitReservation list" where
  "wait_step pf rx s (Wait_call now io j i c t) = (snd (snd (wait_begin pf rx now io j i c t None (fst s))), snd s)"
| "wait_step pf rx s (Send_begin i data c t) =
     (case sendWait_begin rx i data c t (fst s) of
        (Inl _, sv) \<Rightarrow> (sv, snd s) | (Inr (w, _), sv) \<Rightarrow> (sv, w # snd s))"
| "wait_step pf rx s (Send_end now io j i c t w sent) =
     (snd (sendWait_end pf rx now io j i c t w sent (fst s)), remove1 w (snd s))"
| "wait_step pf rx s (Settle_wait now io r p res) = (snd (settle_wait pf now io r p res (fst s)), snd s)"
| "wait_step pf rx s (Exit_waits now j io r) = (resolveExitWaits pf rx now j io r (fst s), snd s)"
| "wait_step pf rx s (Output_wait now j io r p) = (resolveOutputWait pf rx now j io r p (fst s), snd s)"
| "wait_step pf rx s (Other sv') = (sv', snd s)"

lemma wait_step_inv:
  assumes "waits_inv s" and "wait_enabled s e"
  shows "waits_inv (wait_step pf rx s e)"
proof -
  obtain sv H where s: "s = (sv, H)" by (cases s)
  have inv: "waits_inv (sv, H)" using assms s by simp
  show ?thesis
  proof (cases e)
    case (Wait_call now io j i c t)
    with wait_begin_inv [OF inv disjI1 [OF refl], of pf rx now io j i c t] s show ?thesis
      by (cases "wait_begin pf rx now io j i c t None sv") simp
  next
    case (Send_begin i data c t)
    with sendWait_begin_inv [OF inv, of rx i data c t] s show ?thesis
      by (auto split: prod.split sum.split)
  next
    case (Output_wait now j io r p)
    with settle_inv [OF inv] inv s show ?thesis
      by (simp add: resolveOutputWait_def split: sum.split option.split)
  qed (use assms s inv in \<open>auto simp: sendWait_end_inv settle_inv end_waits_inv keeps_inv resolveExitWaits_def Let_def
    split: sum.split\<close>)
qed

interpretation wait_runs: invariant_system "wait_step pf rx" wait_enabled waits_inv for pf rx
  by unfold_locales (rule wait_step_inv)

lemma waits_count:
  assumes "waits_inv (sv, H)"
  shows "length (waits (sv_registry sv)) = length (pending_reservations sv) + length H"
proof -
  from assms obtain W where W: "wait_ok (sv_registry sv) W" "mset W = mset (pending_reservations sv) + mset H"
    by (auto simp: waits_inv_def)
  have "size (mset W) = size (mset (pending_reservations sv) + mset H)" using W(2) by simp
  then show ?thesis using W(1) by (simp add: wait_ok_def)
qed

lemma owner_count:
  assumes "waits_inv (sv, H)"
  shows "us_pendingWaits (usage (sv_registry sv) k) =
    length (filter (\<lambda>w. wt_ownerKey w = k) (pending_reservations sv @ H))"
proof -
  from assms obtain W where W: "wait_ok (sv_registry sv) W" "mset W = mset (pending_reservations sv) + mset H"
    by (auto simp: waits_inv_def)
  have d: "distinct (map wt_id W)" by (rule wait_ids_distinct [OF W(1)])
  have "map_get (wait_owners W) n = Some k \<longleftrightarrow> n \<in> wt_id ` {w \<in> set W. wt_ownerKey w = k}" for n
    using wait_maps_get(2) [OF W(1)] map_of_SomeD [of "wait_owners W" n k] by (auto simp: wait_owners_def)
  then have "{n. map_get (wait_owners W) n = Some k} = set (map wt_id (filter (\<lambda>w. wt_ownerKey w = k) W))" by auto
  moreover have "distinct (map wt_id (filter (\<lambda>w. wt_ownerKey w = k) W))" using d by (simp add: distinct_map_filter)
  ultimately have "card {n. map_get (wait_owners W) n = Some k} = length (filter (\<lambda>w. wt_ownerKey w = k) W)"
    by (metis distinct_card length_map)
  moreover have "set_size (waitsByOwner (sv_registry sv)) k = card {n. map_get (wait_owners W) n = Some k}"
    using W(1) set_size_card by (auto simp: wait_ok_def)
  moreover have "mset (filter (\<lambda>w. wt_ownerKey w = k) W) = mset (filter (\<lambda>w. wt_ownerKey w = k) (pending_reservations sv @ H))"
    using W(2) by (simp add: mset_filter)
  then have "length (filter (\<lambda>w. wt_ownerKey w = k) W) = length (filter (\<lambda>w. wt_ownerKey w = k) (pending_reservations sv @ H))"
    by (metis mset_eq_length)
  ultimately show ?thesis by (simp add: usage_def)
qed

section \<open>The other operations\<close>

lemma keeps_refl [simp, intro]: "keeps_waits sv sv"
  by (simp add: keeps_waits_def)

lemma keeps_trans: "keeps_waits a b \<Longrightarrow> keeps_waits b c \<Longrightarrow> keeps_waits a c"
  by (simp add: keeps_waits_def)

interpretation others: lane_relation keeps_waits "\<lambda>_. True"
proof unfold_locales
  show "keeps_waits sv sv'" if "save pf io r sv = (res, sv')" for sv r pf io res sv'
    using save_cases [OF that] by (auto simp: keeps_waits_def put_record_def)
qed (auto simp: keeps_waits_def settle_registry_def put_record_def split: option.splits)

lemma delete_keeps: "deleteNativeSession ok i sv = (res, sv') \<Longrightarrow> keeps_waits sv sv'"
  by (auto simp: deleteNativeSession_def keeps_waits_def Let_def detach_def bump_def bumpVersion_def split: if_splits)

lemma cleanup_keeps:
  assumes "cleanup pf cw i sv = (res, sv')"
  shows "keeps_waits sv sv'"
proof -
  have confirmed: "deleteNativeSession ok i (sv\<lparr> sv_confirmed := y \<rparr>) = (res, sv') \<Longrightarrow> keeps_waits sv sv'" for ok i y
    using delete_keeps [of ok i "sv\<lparr> sv_confirmed := y \<rparr>"] by (simp add: keeps_waits_def)
  show ?thesis
    using assms delete_keeps confirmed
    unfolding cleanup_def cleanup_lost_def cleanup_finished_def flushed_def Let_def
    by (auto split: if_splits option.splits sum.splits)
qed

lemma write_keeps:
  "write_begin i data sv = (res, sv') \<Longrightarrow> keeps_waits sv sv'"
  "write_task i data v sent sv = (res2, sv') \<Longrightarrow> keeps_waits sv sv'"
  "sendWait_task i v sent sv = (res3, sv') \<Longrightarrow> keeps_waits sv sv'"
  by (auto simp: write_begin_def write_task_def sendWait_task_def flushed_def release_input_def keeps_waits_def
      releaseInput_def recordFor_def dest!: reserveInput_Inr(2) split: sum.splits prod.splits option.splits if_splits)

section \<open>Properties\<close>

text \<open>
  A wait answers truthfully. When \<open>wait\<close> answers at once, the session is neither closed nor
  lost, and the answer is an output match whose literal occurs in the scoped output (or that the
  regular expression found there), or an exit of a session that is no longer active, which counts
  as success exactly for an exit wait. The answer is also the one stored with the session.
\<close>

theorem wait_answer_sound:
  assumes w: "wait_begin pf rx now io j i c t w sv = (Inr (Wait_done res), w', sv')" and ok: "ledger_ok sv"
  shows "\<exists>r. map_get (sv_records sv) i = Some r \<and> \<not> truthy (pendingCleanup r) \<and> status r \<noteq> St_lost \<and>
    (wr_reason res = By_exit \<and> \<not> activeStatus r \<and> (wr_satisfied res \<longleftrightarrow> c = Wait_exit) \<or>
     wr_reason res = By_output \<and> wr_satisfied res \<and>
     (\<exists>literal regex after output m.
       c = Wait_output literal regex after \<and> journal_output j sv = Inr output \<and> wr_matched res = Some m \<and>
       (truthy_text literal = Some m \<and> (\<exists>a b. scoped_output r after output = a @ m @ b) \<or>
        truthy_text literal = None \<and>
        (\<exists>f. safeRegex rx (nullish regex []) = Inr f \<and> f (scoped_output r after output) = Some m)))) \<and>
    (\<exists>r'. map_get (sv_records sv') i = Some r' \<and> lastWaitResult r' = Some res)"
proof -
  from w obtain r m sv1 where r: "map_get (sv_records sv) i = Some r" "\<not> truthy (pendingCleanup r)" "status r \<noteq> St_lost"
    "sv_records sv1 = sv_records sv" "finishWait pf now io r m sv1 = (Inr res, sv')"
    and m: "waitMatch rx now j r c sv = Inr (Some m) \<or>
     waitMatch rx now j r c sv = Inr None \<and> \<not> activeStatus r \<and> m = waitEnded r c"
    by (rule wait_done)
  note f = finishWait_Inr [OF r(5)]
  have i: "session_id r = i" by (rule ledger_id [OF ok r(1)])
  have "\<exists>r'. map_get (sv_records sv') i = Some r' \<and> lastWaitResult r' = Some res"
    using f(3) r(1,4) i by simp
  moreover have "wr_reason res = By_exit \<and> \<not> activeStatus r \<and> (wr_satisfied res \<longleftrightarrow> c = Wait_exit) \<or>
     wr_reason res = By_output \<and> wr_satisfied res \<and>
     (\<exists>literal regex after output m.
       c = Wait_output literal regex after \<and> journal_output j sv = Inr output \<and> wr_matched res = Some m \<and>
       (truthy_text literal = Some m \<and> (\<exists>a b. scoped_output r after output = a @ m @ b) \<or>
        truthy_text literal = None \<and>
        (\<exists>f. safeRegex rx (nullish regex []) = Inr f \<and> f (scoped_output r after output) = Some m)))"
    using m
  proof
    assume "waitMatch rx now j r c sv = Inr (Some m)"
    then show ?thesis
      by (rule waitMatch_Some) (auto simp: f(1) exitWait_def outputWait_def includes_iff)
  qed (auto simp: f(1) waitEnded_def exitWait_def)
  ultimately show ?thesis using r by blast
qed

text \<open>
  A wait after input sees only the output that follows it. When the worker accepted the input
  at the cursor between \<open>a\<close> and \<open>b\<close> of the retained output, the wait for a literal that follows
  succeeds exactly when the literal occurs in \<open>b\<close>, whatever \<open>a\<close> contains.
\<close>

theorem sendWait_sees_new_output:
  assumes "journal_output j sv = Inr (a @ b)" and "\<not> splits_pair a b" and "validText b" and "t \<noteq> []"
  shows "waitMatch rx now j r (after_input (firstRetainedSequence r + byteLength a) (Wait_output (Some t) x seq)) sv =
    Inr (if \<exists>p s. b = p @ t @ s then Some (outputWait now r t) else None)"
  using assms scoped_boundary [OF assms(2,3), of r]
  by (simp add: waitMatch_def after_input_def truthy_text_def Let_def includes_iff)

text \<open>
  C25: wait reservations never leak. In every run of waits, of waits after input and of the steps
  that settle them, interleaved with other operations, the registry counts exactly the waits that
  are pending and the \<open>sendWait\<close> calls in progress, in total and for each owner; when none is left,
  all the wait quota is available again.
\<close>

theorem wait_reservations_balanced:
  assumes "wait_runs.run_enabled pf rx (new_supervisor lim, []) es"
    and "wait_runs.run pf rx (new_supervisor lim, []) es = (sv, H)"
  shows "length (waits (sv_registry sv)) = length (pending_reservations sv) + length H \<and>
    us_pendingWaits (usage (sv_registry sv) k) = length (filter (\<lambda>w. wt_ownerKey w = k) (pending_reservations sv @ H))"
proof -
  have "waits_inv (new_supervisor lim, [])"
    by (auto simp: waits_inv_def pending_reservations_def new_supervisor_def new_registry_def wait_ok_def
        wait_sessions_def wait_owners_def intro!: exI [of _ "[]"])
  from wait_runs.run_inv [OF this assms(1)] assms(2) have "waits_inv (sv, H)" by simp
  from waits_count [OF this] owner_count [OF this] show ?thesis by simp
qed


section \<open>Instances\<close>

definition stored_registry :: SessionRegistry where
  "stored_registry = setOutput (addRecord (addActive (new_registry DEFAULT_SESSION_LIMITS)
     (session_id sample_session) (ownerKey sample_session)) (session_id sample_session) (ownerKey sample_session))
     (session_id sample_session) (ownerKey sample_session) 1000"

definition stored_supervisor :: Supervisor where
  "stored_supervisor = put_record sample_session ((new_supervisor DEFAULT_SESSION_LIMITS)\<lparr> sv_registry := stored_registry \<rparr>)"

lemma stored_reserve:
  "reserve Linux (new_registry DEFAULT_SESSION_LIMITS) sample_session 32 =
     Inr (\<lparr> rs_id = session_id sample_session, rs_ownerKey = ownerKey sample_session, rs_state = Reserved \<rparr>, stored_registry)"
proof -
  have o: "outputReservation Linux sample_session = 1000"
    by (simp add: outputReservation_def occupiesSlot_def terminalDirectChild_def sample_session_def sample_record_def
        no_child_cleanup_def spawn_cleanup_of_def)
  show ?thesis
    unfolding reserve_def o Let_def unfolding stored_registry_def [symmetric]
    by (simp add: new_registry_def DEFAULT_SESSION_LIMITS_def set_size_def)
qed

lemma stored_ledger: "ledger_ok stored_supervisor"
  unfolding stored_supervisor_def
  by (rule reserve_ledger [OF new_supervisor_ledger, where pf = Linux and m = 32])
     (simp_all add: new_supervisor_def sv_records_def stored_reserve, simp add: new_registry_def)

lemma stored_supervisor_sel [simp]:
  "map_get (sv_records stored_supervisor) (session_id sample_session) = Some sample_session"
  "sv_persist stored_supervisor = Inr ()" "sv_waits stored_supervisor = []" "sv_disk stored_supervisor = []"
  "sv_finalizations stored_supervisor = []"
  by (simp_all add: stored_supervisor_def new_supervisor_def)

lemma sample_output_text: "sv_persist sv = Inr u \<Longrightarrow> journal_output sample_journal sv = Inr (js ''ok'')"
  using journal_rep_read [OF sample_journal_rep(1)]
  by (simp add: journal_output_def reader_output_def readOutput_def chunks_text_def) (simp add: sample_chunk_def)

definition no_regex :: regex_engine where
  "no_regex p = None"

text \<open>The wait for the output \<open>ok\<close>, and the session as that wait leaves it.\<close>

definition ok_wait :: WaitCondition where
  "ok_wait = Wait_output (Some (js ''ok'')) None None"

definition ok_result :: WaitResult where
  "ok_result = outputWait 7 sample_session (js ''ok'')"

definition answered_session :: SessionRecord where
  "answered_session = sample_session\<lparr> lastWaitResult := Some ok_result, updatedAt := toISOString 7 \<rparr>"

lemma answered_refreshed:
  "refreshed_record Linux answered_session = answered_session\<lparr> state := with_kind (record_evidence answered_session) Creating \<rparr>"
proof -
  have k: "state_kind (state answered_session) = Creating" "pendingCleanup answered_session = None"
    "storageFailure answered_session = None" "status answered_session = St_starting" "legacyTombstone answered_session = None"
    "legacyOutputCleanupPending answered_session = None" "streamDrain answered_session = Some Drain_unknown"
    "lastKnown answered_session = None"
    by (simp_all add: answered_session_def sample_session_def sample_record_def)
  have st: "refreshSessionState Linux (state answered_session) answered_session = with_kind (record_evidence answered_session) Creating"
    using k by (simp add: refreshSessionState_def with_kind_def Let_def)
  have "projectSessionState (with_kind (record_evidence answered_session) Creating) = LifecycleProjection.truncate answered_session"
    using k by (simp add: projectSessionState_def projected_status_def projected_lastKnown_def is_cleaning_def
        record_evidence_def LifecycleProjection.defs Let_def truthy_text_def)
  moreover have "LifecycleProjection.truncate (answered_session\<lparr> state := x \<rparr>) = LifecycleProjection.truncate answered_session" for x
    by (simp add: LifecycleProjection.defs)
  ultimately show ?thesis
    using with_projection_collapse [of "answered_session\<lparr> state := with_kind (record_evidence answered_session) Creating \<rparr>"]
    by (simp add: refreshed_record_def Let_def st)
qed

lemma write_valid:
  assumes "validSession (refreshed_record pf r) (session_id r)" and "validV2State pf (refreshSessionState pf (state r) r)"
  shows "writeSession pf True r disk =
    (Inr (), refreshed_record pf r, map_set disk (session_id r) (toV2Session (refreshed_record pf r)))"
proof -
  have "stored_state (toV2Session (refreshed_record pf r)) = refreshSessionState pf (state r) r"
    by (simp add: toV2Session_def)
  then show ?thesis
    using assms by (simp add: writeSession_def Let_def validCompatibilitySession_def validV2Session_def from_to_V2)
qed

lemma answered_written:
  "writeSession Linux True answered_session disk =
     (Inr (), refreshed_record Linux answered_session,
      map_set disk (session_id answered_session) (toV2Session (refreshed_record Linux answered_session)))"
proof (rule write_valid)
  let ?r = "answered_session\<lparr> state := with_kind (record_evidence answered_session) Creating \<rparr>"
  have nums: "safe_nat 0" "safe_nat 1000" by (simp_all add: safe_nat_def validNonnegativeInteger_def isSafeInteger_def MAX_SAFE_INTEGER_def)
  have hash: "validCapabilityHash (replicate 64 97)" by (simp add: validCapabilityHash_def list_all_length)
  have t: "validTimestamp (toISOString n)" for n by (simp add: validTimestamp_def)
  have okt: "validText (js ''ok'')" by (simp add: high_surrogate_def low_surrogate_def)
  note sample = answered_session_def sample_session_def sample_record_def
  have "valid_identity ?r (session_id answered_session)"
    using sample_texts hash by (simp add: valid_identity_def sample validOptional_def nonemptyText_def validEnvironment_def)
  moreover have "valid_lifecycle ?r"
    using nums t okt by (simp add: valid_lifecycle_def sample validOptional_def ok_result_def outputWait_def validWait_def)
  moreover have "valid_journal ?r"
    using nums t by (simp add: valid_journal_def sample validOptional_def MAX_OUTPUT_BYTES_def OUTPUT_JOURNAL_VERSION_def)
  moreover have "tombstone_consistent ?r" "worker_consistent ?r" "cleanup_pending_consistent ?r"
    "times_consistent ?r" "cursors_consistent ?r"
    by (simp_all add: sample tombstone_consistent_def worker_consistent_def cleanup_pending_consistent_def
        times_consistent_def cursors_consistent_def validOptional_def timestamp_less_iff)
  ultimately show "validSession (refreshed_record Linux answered_session) (session_id answered_session)"
    unfolding answered_refreshed by (simp add: validSession_def)
  have "refreshSessionState Linux (state answered_session) answered_session = with_kind (record_evidence answered_session) Creating"
    using refreshed_record_state [of Linux answered_session] unfolding answered_refreshed by simp
  then show "validV2State Linux (refreshSessionState Linux (state answered_session) answered_session)"
    using nums by (simp add: validV2State_def record_evidence_def sample validOptional_def terminal_outcome_def state_payload_def)
qed

lemma ok_wait_done:
  "\<exists>sv'. wait_begin Linux no_regex 7 True sample_journal (session_id sample_session) ok_wait 5 None stored_supervisor =
     (Inr (Wait_done ok_result), None, sv')"
proof -
  have r: "\<not> truthy (pendingCleanup sample_session)" "status sample_session \<noteq> St_lost" "containment sample_session = None"
    "terminationResult sample_session = None"
    by (simp_all add: sample_session_def sample_record_def)
  have b: "byteLength (js ''ok'') = 2" by (simp add: high_surrogate_def low_surrogate_def unit_bytes_def)
  have v: "validateWait no_regex ok_wait 5 = Inr ()"
    using b by (simp add: validateWait_def ok_wait_def truthy_text_def MAX_EXEC_RUNTIME_SECONDS_def)
  have m: "waitMatch no_regex 7 sample_journal sample_session ok_wait stored_supervisor = Inr (Some ok_result)"
    using sample_output_text [of stored_supervisor]
    by (simp add: waitMatch_def ok_wait_def truthy_text_def scoped_output_def ok_result_def Let_def)
  have i: "session_id answered_session = session_id sample_session" by (simp add: answered_session_def)
  have "sample_session\<lparr> lastWaitResult := Some (ok_result\<lparr> wr_containment := None, wr_termination := None \<rparr>), updatedAt := toISOString 7 \<rparr> =
      answered_session"
    by (simp add: answered_session_def ok_result_def outputWait_def)
  then have "\<exists>sv'. finishWait Linux 7 True sample_session ok_result stored_supervisor = (Inr ok_result, sv')"
    using r answered_written [of "[]"] by (simp add: finishWait_def Let_def) (simp add: ok_result_def outputWait_def)
  then show ?thesis
    using r v m by (auto simp: wait_begin_def recordFor_def done_wait_def)
qed

theorem wait_answer_sound_witness: "\<exists>sv'. wr_reason ok_result = By_output \<and>
  wait_begin Linux no_regex 7 True sample_journal (session_id sample_session) ok_wait 5 None stored_supervisor =
     (Inr (Wait_done ok_result), None, sv')"
proof -
  obtain sv' where w: "wait_begin Linux no_regex 7 True sample_journal (session_id sample_session) ok_wait 5 None stored_supervisor =
     (Inr (Wait_done ok_result), None, sv')" using ok_wait_done by blast
  from wait_answer_sound [OF w stored_ledger] have "wr_reason ok_result = By_output \<or> (wr_satisfied ok_result \<longleftrightarrow> ok_wait = Wait_exit)"
    by blast
  with w show ?thesis by (auto simp: ok_result_def outputWait_def ok_wait_def)
qed

theorem sendWait_sees_new_output_witness:
  "waitMatch no_regex 7 sample_journal sample_session
     (after_input (firstRetainedSequence sample_session + 1) (Wait_output (Some (js ''k'')) None None)) stored_supervisor =
   Inr (Some (outputWait 7 sample_session (js ''k'')))"
proof -
  have "journal_output sample_journal stored_supervisor = Inr (js ''o'' @ js ''k'')"
    using sample_output_text [of stored_supervisor] by simp
  moreover have "byteLength (js ''o'') = 1" "validText (js ''k'')" "\<not> splits_pair (js ''o'') (js ''k'')"
    by (simp_all add: high_surrogate_def low_surrogate_def unit_bytes_def splits_pair_def)
  moreover have "\<exists>p s. js ''k'' = p @ js ''k'' @ s" by (rule exI [of _ "[]"]) simp
  ultimately show ?thesis
    using sendWait_sees_new_output [of sample_journal stored_supervisor "js ''o''" "js ''k''" "js ''k''" no_regex 7 sample_session None None]
    by simp
qed

theorem wait_reservations_balanced_witness:
  "length (waits (sv_registry (fst (wait_runs.run Linux no_regex (new_supervisor DEFAULT_SESSION_LIMITS, [])
     [Other stored_supervisor, Wait_call 3 True sample_journal (session_id sample_session) Wait_exit 5])))) = 1"
proof -
  let ?es = "[Other stored_supervisor, Wait_call 3 True sample_journal (session_id sample_session) Wait_exit 5]"
  have k: "keeps_waits (new_supervisor DEFAULT_SESSION_LIMITS) stored_supervisor"
    by (simp add: keeps_waits_def stored_supervisor_def put_record_def new_supervisor_def stored_registry_def)
  have en: "wait_runs.run_enabled Linux no_regex (new_supervisor DEFAULT_SESSION_LIMITS, []) ?es" using k by simp
  have r: "\<not> truthy (pendingCleanup sample_session)" "status sample_session \<noteq> St_lost" "activeStatus sample_session"
    by (simp_all add: sample_session_def sample_record_def activeStatus_def isActiveDaemonStatus_def)
  have "\<exists>w g. reserveWait (sv_registry stored_supervisor) sample_session = Inr (w, g)"
    by (simp add: reserveWait_def Let_def stored_supervisor_def put_record_def stored_registry_def new_registry_def
        setOutput_def addRecord_def addActive_def DEFAULT_SESSION_LIMITS_def set_size_def)
  then obtain w g where w: "reserveWait (sv_registry stored_supervisor) sample_session = Inr (w, g)" by blast
  have b: "wait_begin Linux no_regex 3 True sample_journal (session_id sample_session) Wait_exit 5 None stored_supervisor =
      (Inr (Wait_pending \<lparr> pw_condition = Wait_exit, pw_reservation = w \<rparr>), Some w,
       push_wait (session_id sample_session) \<lparr> pw_condition = Wait_exit, pw_reservation = w \<rparr> (stored_supervisor\<lparr> sv_registry := g \<rparr>))"
    using r w by (simp add: wait_begin_def recordFor_def validateWait_def waitMatch_def MAX_EXEC_RUNTIME_SECONDS_def)
  have "wait_runs.run Linux no_regex (new_supervisor DEFAULT_SESSION_LIMITS, []) ?es =
      (push_wait (session_id sample_session) \<lparr> pw_condition = Wait_exit, pw_reservation = w \<rparr> (stored_supervisor\<lparr> sv_registry := g \<rparr>), [])"
    by (simp add: b)
  with wait_reservations_balanced [OF en this] show ?thesis
    by (simp add: pending_reservations_def push_wait_def)
qed

end
