(* ===== verification/Supervisor_Sessions.thy ===== *)
theory Supervisor_Sessions
  imports Supervisor_Waits
begin

text \<open>
  Sessions from their start to their removal (daemon/supervisor.ts): spawning a terminal session
  or an exec session, spawning twice with one idempotency key, the removal of expired and of
  abandoned sessions, the clean-up after a conversation, the start of the daemon and the recovery
  of its workers, and what callers are shown of a session.
\<close>

section \<open>The host and what callers see\<close>

text \<open>
  What the supervisor takes from its host: the platform, \<open>toUpperCase\<close>, the environment of the
  daemon, \<open>realpathSync(resolve(path))\<close> (which may throw), the digest of an environment and the
  configured output limit.
\<close>

record host =
  h_platform :: platform
  h_windows :: bool
  h_upper :: "js_string \<Rightarrow> js_string"
  h_source :: env_map
  h_canon :: "js_string \<Rightarrow> js_string option"
  h_fingerprint :: "env_map \<Rightarrow> js_string"
  h_maxOutputBytes :: nat

record PTYSessionInfo =
  pi_id :: js_string
  pi_title :: js_string
  pi_description :: "js_string option"
  pi_command :: js_string
  pi_args :: "js_string list"
  pi_mode :: ExecutionMode
  pi_lifecycle :: SessionLifecycle
  pi_name :: "js_string option"
  pi_idempotencyKey :: "js_string option"
  pi_workdir :: js_string
  pi_status :: DaemonStatus
  pi_timeoutSeconds :: "nat option"
  pi_timedOut :: bool
  pi_terminationRequested :: bool
  pi_terminationConfirmed :: bool
  pi_directChildExited :: "bool option"
  pi_containment :: "ContainmentReport option"
  pi_termination :: "TerminationResult option"
  pi_exitCode :: "int option"
  pi_exitSignal :: "exit_signal option"
  pi_exitReason :: "ExitReason option"
  pi_pid :: nat
  pi_createdAt :: timestamp
  pi_startedAt :: "timestamp option"
  pi_exitedAt :: "timestamp option"
  pi_lineCount :: nat
  pi_outputSequence :: nat
  pi_firstRetainedSequence :: nat
  pi_outputTruncated :: bool
  pi_diagnostics :: "js_string list option"
  pi_lastWaitResult :: "WaitResult option"
  pi_execOutput :: "ExecOutput option"
  pi_environment :: EnvironmentProfile

definition toInfo :: "SessionRecord \<Rightarrow> PTYSessionInfo" where
  "toInfo r =
     \<lparr> pi_id = session_id r, pi_title = title r, pi_description = description r, pi_command = command r,
       pi_args = args r, pi_mode = mode r, pi_lifecycle = lifecycle r, pi_name = session_name r,
       pi_idempotencyKey = idempotencyKey r, pi_workdir = workdir r, pi_status = status r,
       pi_timeoutSeconds = timeoutSeconds r, pi_timedOut = timedOut r,
       pi_terminationRequested = terminationRequested r, pi_terminationConfirmed = terminationConfirmed r,
       pi_directChildExited = directChildExited r, pi_containment = containment r,
       pi_termination = terminationResult r, pi_exitCode = exitCode r, pi_exitSignal = exitSignal r,
       pi_exitReason = exitReason r, pi_pid = pid r, pi_createdAt = createdAt r, pi_startedAt = startedAt r,
       pi_exitedAt = exitedAt r, pi_lineCount = lineCount r, pi_outputSequence = nextSequence r,
       pi_firstRetainedSequence = firstRetainedSequence r, pi_outputTruncated = outputTruncated r,
       pi_diagnostics = diagnostics r, pi_lastWaitResult = lastWaitResult r, pi_execOutput = execOutput r,
       pi_environment = environment r \<rparr>"

definition canonicalWorkdir :: "host \<Rightarrow> js_string option \<Rightarrow> js_string \<Rightarrow> (sup_error, js_string) result" where
  "canonicalWorkdir h dir ownerDirectory =
     (case h_canon h (nullish dir ownerDirectory) of
        None \<Rightarrow> Inl (Sup_plain (js ''ENOENT: no such file or directory'')) | Some d \<Rightarrow> Inr d)"

definition sessionEnvironment :: "host \<Rightarrow> SpawnOptions \<Rightarrow> (sup_error, env_map) result" where
  "sessionEnvironment h opts =
     (case runtimeEnvironment (h_upper h) (so_env opts) (so_inheritEnv opts = Some True) (h_source h) (h_windows h) of
        Inl m \<Rightarrow> Inl (Sup_plain m) | Inr env \<Rightarrow> Inr env)"

definition sessionProfile :: "host \<Rightarrow> SpawnOptions \<Rightarrow> env_map \<Rightarrow> EnvironmentProfile" where
  "sessionProfile h opts env = environmentProfile (h_fingerprint h) env (so_inheritEnv opts = Some True)"

section \<open>Spawning twice\<close>

text \<open>
  The first record that \<open>find\<close> accepts. The directories are resolved only when the conditions
  before them hold.
\<close>

fun find_idempotent :: "host \<Rightarrow> SpawnOptions \<Rightarrow> SessionRecord list \<Rightarrow> (sup_error, SessionRecord option) result" where
  "find_idempotent h opts [] = Inr None"
| "find_idempotent h opts (r # rs) =
     (if \<not> activeStatus r \<or> truthy (pendingCleanup r) \<or> legacyTombstone r \<noteq> None \<or> mode r \<noteq> Mode_pty \<or>
         parentSessionId r \<noteq> so_parentSessionId opts
      then find_idempotent h opts rs
      else case canonicalWorkdir h (Some (so_ownerProjectDirectory opts)) [] of
        Inl e \<Rightarrow> Inl e
      | Inr d \<Rightarrow>
          if ownerProjectDirectory r \<noteq> d \<or> ownerCapabilityHash r \<noteq> so_ownerCapabilityHash opts
          then find_idempotent h opts rs
          else case canonicalWorkdir h (so_workdir opts) (so_ownerProjectDirectory opts) of
            Inl e \<Rightarrow> Inl e
          | Inr wd \<Rightarrow>
              if workdir r = wd \<and> idempotencyKey r = so_idempotencyKey opts then Inr (Some r)
              else find_idempotent h opts rs)"

definition same_specification :: "SpawnOptions \<Rightarrow> js_string list \<Rightarrow> EnvironmentProfile \<Rightarrow> SessionRecord \<Rightarrow> bool" where
  "same_specification opts as env r \<longleftrightarrow>
     command r = so_command opts \<and> args r = as \<and> env_kind (environment r) = env_kind env \<and>
     env_fingerprint (environment r) = env_fingerprint env \<and> session_name r = so_name opts \<and>
     timeoutSeconds r = so_timeoutSeconds opts"

definition idempotentSession ::
  "host \<Rightarrow> SpawnOptions \<Rightarrow> js_string list \<Rightarrow> Supervisor \<Rightarrow> (sup_error, SessionRecord option) result" where
  "idempotentSession h opts as sv =
     (if truthy_text (so_idempotencyKey opts) = None then Inr None
      else case find_idempotent h opts (map_values (sv_records sv)) of
        Inl e \<Rightarrow> Inl e
      | Inr None \<Rightarrow> Inr None
      | Inr (Some r) \<Rightarrow>
          (case sessionEnvironment h opts of
             Inl e \<Rightarrow> Inl e
           | Inr env \<Rightarrow>
               if same_specification opts as (sessionProfile h opts env) r then Inr (Some r)
               else Inl (Sup_plain (js ''Idempotency key matches an active PTY with a different command or specification.''))))"

definition execOutputLimit :: "host \<Rightarrow> nat option \<Rightarrow> (sup_error, nat) result" where
  "execOutputLimit h requested =
     (case requested of
        None \<Rightarrow> Inr (h_maxOutputBytes h)
      | Some n \<Rightarrow>
          if \<not> isSafeInteger (int n) \<or> n = 0 then Inl (Sup_plain (js ''maxOutputBytes must be a positive integer.''))
          else Inr (min n (h_maxOutputBytes h)))"

section \<open>Removing expired sessions\<close>

definition expired :: "platform \<Rightarrow> int \<Rightarrow> SessionRecord \<Rightarrow> bool" where
  "expired pf cutoff r \<longleftrightarrow>
     \<not> truthy (pendingCleanup r) \<and> isTerminal pf r \<and>
     (case date_parse (nullish (exitedAt r) (updatedAt r)) of None \<Rightarrow> False | Some t \<Rightarrow> t \<le> cutoff)"

text \<open>
  \<open>Promise.all\<close> over operations on different sessions: all of them run, and the first failure is
  reported.
\<close>

fun run_all ::
  "('a \<Rightarrow> Supervisor \<Rightarrow> (sup_error, 'b) result \<times> Supervisor) \<Rightarrow> 'a list \<Rightarrow> Supervisor \<Rightarrow> (sup_error, unit) result \<times> Supervisor" where
  "run_all f [] sv = (Inr (), sv)"
| "run_all f (x # xs) sv =
     (case f x sv of
        (res, sv1) \<Rightarrow>
          (case run_all f xs sv1 of
             (rest, sv2) \<Rightarrow> (case res of Inl e \<Rightarrow> Inl e | Inr _ \<Rightarrow> rest, sv2)))"

definition pruneExpiredTerminals ::
  "platform \<Rightarrow> int \<Rightarrow> (js_string \<Rightarrow> cleanup_world) \<Rightarrow> Supervisor \<Rightarrow> (sup_error, unit) result \<times> Supervisor" where
  "pruneExpiredTerminals pf now cw sv =
     (let cutoff = now - int (terminalRetentionSeconds (limits (sv_registry sv))) * 1000
      in run_all (\<lambda>i. cleanup pf (cw i) i) (map session_id (filter (expired pf cutoff) (map_values (sv_records sv)))) sv)"

section \<open>Starting a session\<close>

text \<open>
  Errors while a worker is started: \<open>WorkerStartError\<close> with its cleanup, the reference of a worker
  that was ready but not started, and whether no worker process was created; or any other error.
\<close>

datatype start_error =
    Start_error (se_message: js_string) SpawnCleanup "WorkerReference option" bool
  | Start_plain (se_message: js_string)

datatype prepare_outcome =
    Prepare_refused start_error
  | Prepare_failed WorkerPrestartAuthority start_error
  | Prepare_ready WorkerPrestartAuthority WorkerReference

text \<open>What a start meets outside: the worker's answers and the outcomes of the writes.\<close>

record start_world =
  sw_uuid :: js_string
  sw_first_write :: bool
  sw_prepare :: prepare_outcome
  sw_authority_write :: bool
  sw_reference_write :: bool
  sw_attempted_write :: bool
  sw_start :: "(start_error, WorkerSnapshot) result"
  sw_client :: nat
  sw_ready_write :: bool
  sw_rollback :: "(js_string, SpawnCleanup) result"
  sw_failure_write :: bool
  sw_rm_ok :: bool

text \<open>\<open>error.message\<close>, which \<open>String(error)\<close> prefixes with the name of the error.\<close>

definition error_message :: "sup_error \<Rightarrow> js_string" where
  "error_message e = drop 7 (error_text e)"

definition no_cleanup :: SpawnCleanup where
  "no_cleanup = \<lparr> sc_requested = False, sc_terminationConfirmed = False, sc_method = M_none,
     sc_directChildStarted = None, sc_directChildPid = None, sc_message = None \<rparr>"

definition nothing_spawned :: SpawnCleanup where
  "nothing_spawned = no_cleanup\<lparr> sc_terminationConfirmed := True, sc_directChildStarted := Some False \<rparr>"

definition new_state :: "int \<Rightarrow> bool option \<Rightarrow> SessionState" where
  "new_state now direct =
     with_kind (fresh_evidence\<lparr> ev_directExited := direct, ev_startedAt := Some (toISOString now) \<rparr>) Creating"

text \<open>The record of a new session; \<open>m\<close> and what depends on it are the only differences of the modes.\<close>

definition new_record ::
  "host \<Rightarrow> int \<Rightarrow> ExecutionMode \<Rightarrow> js_string \<Rightarrow> js_string \<Rightarrow> SpawnOptions \<Rightarrow> EnvironmentProfile \<Rightarrow> js_string \<Rightarrow> js_string \<Rightarrow> nat \<Rightarrow>
   SessionRecord" where
  "new_record h now m i ttl opts env wd dir limit =
     (let direct = (if m = Mode_pty then Some False else None) in
      \<lparr> status = St_starting, pid = 0, startedAt = Some (toISOString now), exitedAt = None, timedOut = False,
        terminationRequested = False, terminationConfirmed = False, pendingCleanup = None,
        directChildExited = direct, exitCode = None, exitSignal = None, exitReason = None,
        worker = None, workerPrestart = None, workerStartAttempted = None, containment = None,
        terminationResult = None, execOutput = None, storageFailure = None, diagnostics = None,
        lastWaitResult = None, legacyTombstone = None, legacyOutputCleanupPending = None,
        streamDrain = None, lastKnown = None,
        session_id = i, title = ttl, description = so_description opts, command = so_command opts,
        args = nullish (so_args opts) [], mode = m,
        session_name = (if m = Mode_pty then so_name opts else None),
        idempotencyKey = (if m = Mode_pty then so_idempotencyKey opts else None),
        workdir = wd, ownerProjectDirectory = dir, ownerCapabilityHash = so_ownerCapabilityHash opts,
        lifecycle = nullish (so_lifecycle opts) Conversation, environment = env, state = new_state now direct,
        createdAt = toISOString now, lastOutputAt = None, updatedAt = toISOString now,
        parentSessionId = so_parentSessionId opts, parentAgent = so_parentAgent opts,
        timeoutSeconds = so_timeoutSeconds opts, nextSequence = 0, firstRetainedSequence = 0, outputBytes = 0,
        outputLimitBytes = Some limit, outputTruncated = False, lineCount = 0, outputHasPartialLine = False,
        outputJournalVersion = OUTPUT_JOURNAL_VERSION \<rparr>)"

definition sessionTitle :: "ExecutionMode \<Rightarrow> SpawnOptions \<Rightarrow> js_string \<Rightarrow> js_string" where
  "sessionTitle m opts i =
     (let joined = so_command opts @ [32] @ join_with [32] (nullish (so_args opts) []);
          trimmed = rev (dropWhile js_space (rev (dropWhile js_space joined)))
      in nullish (so_title opts)
           (if m = Mode_pty \<and> trimmed = [] then js ''Terminal '' @ drop (length i - 8) i else trimmed))"

text \<open>A write of the record object, and the object afterwards.\<close>

definition save_as ::
  "platform \<Rightarrow> bool \<Rightarrow> SessionRecord \<Rightarrow> Supervisor \<Rightarrow> (sup_error, SessionRecord) result \<times> SessionRecord \<times> Supervisor" where
  "save_as pf io r sv =
     (case save pf io r sv of
        (res, sv') \<Rightarrow> (case res of Inl e \<Rightarrow> Inl e | Inr _ \<Rightarrow> Inr (refreshed_record pf r), refreshed_record pf r, sv'))"

definition persist_authority :: "int \<Rightarrow> WorkerPrestartAuthority \<Rightarrow> SessionRecord \<Rightarrow> SessionRecord" where
  "persist_authority now a r =
     r\<lparr> workerPrestart := Some a, workerStartAttempted := Some False, updatedAt := toISOString now \<rparr>"

definition persist_reference :: "int \<Rightarrow> WorkerReference \<Rightarrow> SessionRecord \<Rightarrow> SessionRecord" where
  "persist_reference now w r =
     r\<lparr> worker := Some w, workerStartAttempted := Some False, updatedAt := toISOString now \<rparr>"

definition persist_ready :: "platform \<Rightarrow> int \<Rightarrow> WorkerSnapshot \<Rightarrow> SessionRecord \<Rightarrow> SessionRecord" where
  "persist_ready pf now w r =
     (transition_or_keep pf
       (r\<lparr> pid := ws_pid w, containment := Some (ws_containment w), terminationResult := ws_termination w \<rparr>) Worker_ready)
     \<lparr> updatedAt := toISOString now \<rparr>"

text \<open>
  The \<open>try\<close> block: the failure carries the error and whether the worker had been prepared.
\<close>

definition start_prepared ::
  "platform \<Rightarrow> int \<Rightarrow> start_world \<Rightarrow> WorkerReference \<Rightarrow> SessionRecord \<Rightarrow> Supervisor \<Rightarrow>
   (start_error \<times> bool, unit) result \<times> SessionRecord \<times> Supervisor" where
  "start_prepared pf now sw w r sv =
     (case save_as pf (sw_reference_write sw) (persist_reference now w r) sv of
        (Inl e, r1, sv1) \<Rightarrow> (Inl (Start_plain (error_message e), True), r1, sv1)
      | (Inr _, r1, sv1) \<Rightarrow>
        (case save_as pf (sw_attempted_write sw) (r1\<lparr> workerStartAttempted := Some True \<rparr>) sv1 of
           (Inl e, r2, sv2) \<Rightarrow>
             (Inl (Start_plain (error_message e), True), r2\<lparr> workerStartAttempted := Some False \<rparr>,
              put_record (r2\<lparr> workerStartAttempted := Some False \<rparr>) sv2)
         | (Inr _, r2, sv2) \<Rightarrow>
           (case sw_start sw of
              Inl e \<Rightarrow> (Inl (e, True), r2, sv2)
            | Inr snap \<Rightarrow>
              (case save_as pf (sw_ready_write sw) (persist_ready pf now snap r2) (attach (session_id r) (sw_client sw) sv2) of
                 (Inl e, r3, sv3) \<Rightarrow> (Inl (Start_plain (error_message e), True), r3, sv3)
               | (Inr _, r3, sv3) \<Rightarrow> (Inr (), r3, sv3)))))"

definition start_worker ::
  "platform \<Rightarrow> int \<Rightarrow> start_world \<Rightarrow> SessionRecord \<Rightarrow> Supervisor \<Rightarrow> (start_error \<times> bool, unit) result \<times> SessionRecord \<times> Supervisor" where
  "start_worker pf now sw r sv =
     (let refused = (\<lambda>e. Start_error (error_message e) nothing_spawned None True) in
      case sw_prepare sw of
        Prepare_refused e \<Rightarrow> (Inl (e, False), r, sv)
      | Prepare_failed a e \<Rightarrow>
          (case save_as pf (sw_authority_write sw) (persist_authority now a r) sv of
             (Inl x, r1, sv1) \<Rightarrow> (Inl (refused x, False), r1, sv1)
           | (Inr _, r1, sv1) \<Rightarrow> (Inl (e, False), r1, sv1))
      | Prepare_ready a w \<Rightarrow>
          (case save_as pf (sw_authority_write sw) (persist_authority now a r) sv of
             (Inl x, r1, sv1) \<Rightarrow> (Inl (refused x, False), r1, sv1)
           | (Inr _, r1, sv1) \<Rightarrow> start_prepared pf now sw w r1 sv1))"

fun failure_cleanup :: "start_error \<Rightarrow> bool \<Rightarrow> (js_string, SpawnCleanup) result \<Rightarrow> SpawnCleanup" where
  "failure_cleanup (Start_error _ c _ _) _ _ = c"
| "failure_cleanup (Start_plain _) True (Inr c) = c"
| "failure_cleanup (Start_plain _) True (Inl m) = no_cleanup\<lparr> sc_message := Some m \<rparr>"
| "failure_cleanup (Start_plain _) False _ = no_cleanup"

fun ready_reference :: "start_error \<Rightarrow> bool \<Rightarrow> SessionRecord \<Rightarrow> SessionRecord" where
  "ready_reference (Start_error _ _ (Some w) _) False r = r\<lparr> worker := Some w, workerStartAttempted := Some False \<rparr>"
| "ready_reference _ _ r = r"

fun no_worker_spawned :: "start_error \<Rightarrow> bool" where
  "no_worker_spawned (Start_error _ _ _ b) = b"
| "no_worker_spawned (Start_plain _) = False"

text \<open>The \<open>catch\<close> block; \<open>m\<close> decides how the error is worded.\<close>

definition failed_start_record ::
  "platform \<Rightarrow> int \<Rightarrow> start_world \<Rightarrow> js_string \<Rightarrow> start_error \<Rightarrow> bool \<Rightarrow> SessionRecord \<Rightarrow> SessionRecord" where
  "failed_start_record pf now sw message e prepared r =
     (let c = failure_cleanup e prepared (sw_rollback sw);
          r1 = (ready_reference e prepared r)
            \<lparr> terminationRequested := sc_requested c, terminationConfirmed := sc_terminationConfirmed c,
              exitReason := Some (Exit_spawn_error message (Some c)) \<rparr>
      in (transition_or_keep pf r1 (if noChildCleanup c then Event_spawn_failed else Event_unreachable))
         \<lparr> updatedAt := toISOString now \<rparr>)"

definition start_failed ::
  "platform \<Rightarrow> int \<Rightarrow> start_world \<Rightarrow> start_error \<Rightarrow> bool \<Rightarrow> SessionRecord \<Rightarrow> Supervisor \<Rightarrow> (sup_error, SessionRecord) result \<times> Supervisor" where
  "start_failed pf now sw e prepared r sv =
     (let i = session_id r;
          spoken = (if mode r = Mode_pty then se_message e else js ''Error: '' @ se_message e)
      in case save pf (sw_failure_write sw) (failed_start_record pf now sw spoken e prepared r) sv of
           (Inl x, sv1) \<Rightarrow> (Inl x, sv1)
         | (Inr _, sv1) \<Rightarrow>
             (let sv2 = settle_registry pf i sv1;
                  sv3 = (if no_worker_spawned e then snd (deleteNativeSession (sw_rm_ok sw) i sv2) else sv2)
              in (Inl (Sup_process
                    (if mode r = Mode_pty then js ''Failed to spawn PTY '' @ [39] @ i @ [39] @ js '': '' @ se_message e else spoken)),
                  sv3)))"

text \<open>From the reservation on, \<open>spawn\<close> and \<open>nativeExecStart\<close> do the same.\<close>

definition launch ::
  "platform \<Rightarrow> int \<Rightarrow> start_world \<Rightarrow> nat \<Rightarrow> SessionRecord \<Rightarrow> Supervisor \<Rightarrow> (sup_error, SessionRecord) result \<times> Supervisor" where
  "launch pf now sw maxSessionsPerOwner r sv =
     (case reserve pf (sv_registry sv) r maxSessionsPerOwner of
        Inl e \<Rightarrow> (Inl (Sup_limit e), sv)
      | Inr (rv, g) \<Rightarrow>
          (case save_as pf (sw_first_write sw) r (put_record r (sv\<lparr> sv_registry := g \<rparr>)) of
             (Inl e, _, sv1) \<Rightarrow>
               (Inl e, sv1\<lparr> sv_registry := snd (releaseReservation
                  ((sv_registry sv1)\<lparr> records := map_delete (sv_records sv1) (session_id r) \<rparr>)
                  (rv\<lparr> rs_state := Committed \<rparr>)) \<rparr>)
           | (Inr _, r1, sv1) \<Rightarrow>
               (case start_worker pf now sw r1 sv1 of
                  (Inr _, r2, sv2) \<Rightarrow> (Inr r2, sv2)
                | (Inl (e, prepared), r2, sv2) \<Rightarrow> start_failed pf now sw e prepared r2 sv2)))"

text \<open>The records \<open>spawn\<close> and \<open>nativeExecStart\<close> build from their options.\<close>

definition spawn_record :: "host \<Rightarrow> int \<Rightarrow> js_string \<Rightarrow> SpawnOptions \<Rightarrow> (sup_error, SessionRecord) result" where
  "spawn_record h now i opts =
     and_then (sessionEnvironment h opts) (\<lambda>env.
     and_then (canonicalWorkdir h (so_workdir opts) (so_ownerProjectDirectory opts)) (\<lambda>wd.
     and_then (canonicalWorkdir h (Some (so_ownerProjectDirectory opts)) []) (\<lambda>dir.
       Inr (new_record h now Mode_pty i (sessionTitle Mode_pty opts i) opts (sessionProfile h opts env) wd dir
         (h_maxOutputBytes h)))))"

definition exec_record :: "host \<Rightarrow> int \<Rightarrow> js_string \<Rightarrow> SpawnOptions \<Rightarrow> (sup_error, SessionRecord) result" where
  "exec_record h now i opts =
     and_then (sessionEnvironment h opts) (\<lambda>env.
     and_then (execOutputLimit h (so_maxOutputBytes opts)) (\<lambda>limit.
     and_then (canonicalWorkdir h (so_workdir opts) (so_ownerProjectDirectory opts)) (\<lambda>wd.
     and_then (canonicalWorkdir h (Some (so_ownerProjectDirectory opts)) []) (\<lambda>dir.
       Inr (new_record h now Mode_exec i (sessionTitle Mode_exec opts i) opts (sessionProfile h opts env) wd dir limit)))))"

definition spawn ::
  "host \<Rightarrow> int \<Rightarrow> start_world \<Rightarrow> (js_string \<Rightarrow> cleanup_world) \<Rightarrow> nat \<Rightarrow> SpawnOptions \<Rightarrow> Supervisor \<Rightarrow>
   (sup_error, PTYSessionInfo) result \<times> Supervisor" where
  "spawn h now sw cw maxSessionsPerOwner opts sv0 = flushed sv0 (\<lambda>sv.
     if so_command opts = [] then (Inl (Sup_plain (js ''command is required'')), sv)
     else if so_timeoutSeconds opts = Some 0
     then (Inl (Sup_plain (js ''timeoutSeconds must be a positive integer in seconds'')), sv)
     else case idempotentSession h opts (nullish (so_args opts) []) sv of
       Inl e \<Rightarrow> (Inl e, sv)
     | Inr (Some r) \<Rightarrow> (Inr (toInfo r), sv)
     | Inr None \<Rightarrow>
         (case pruneExpiredTerminals (h_platform h) now cw sv of
            (Inl e, sv1) \<Rightarrow> (Inl e, sv1)
          | (Inr _, sv1) \<Rightarrow>
              (case spawn_record h now (js ''pty_'' @ sw_uuid sw) opts of
                 Inl e \<Rightarrow> (Inl e, sv1)
               | Inr r \<Rightarrow>
                   (case launch (h_platform h) now sw maxSessionsPerOwner r sv1 of
                      (Inl e, sv2) \<Rightarrow> (Inl e, sv2) | (Inr r2, sv2) \<Rightarrow> (Inr (toInfo r2), sv2)))))"

record ExecStart =
  es_id :: js_string
  es_status :: DaemonStatus
  es_pid :: nat

definition nativeExecStart ::
  "host \<Rightarrow> int \<Rightarrow> start_world \<Rightarrow> (js_string \<Rightarrow> cleanup_world) \<Rightarrow> nat \<Rightarrow> SpawnOptions \<Rightarrow> Supervisor \<Rightarrow>
   (sup_error, ExecStart) result \<times> Supervisor" where
  "nativeExecStart h now sw cw maxSessionsPerOwner opts sv0 = flushed sv0 (\<lambda>sv.
     if so_command opts = [] then (Inl (Sup_plain (js ''command is required'')), sv)
     else case so_timeoutSeconds opts of
       None \<Rightarrow> (Inl (Sup_plain (js ''timeoutSeconds must be a positive integer up to 3600 for exec'')), sv)
     | Some t \<Rightarrow>
         if t = 0 \<or> t > MAX_EXEC_RUNTIME_SECONDS
         then (Inl (Sup_plain (js ''timeoutSeconds must be a positive integer up to 3600 for exec'')), sv)
         else case pruneExpiredTerminals (h_platform h) now cw sv of
           (Inl e, sv1) \<Rightarrow> (Inl e, sv1)
         | (Inr _, sv1) \<Rightarrow>
             (case exec_record h now (js ''exec_'' @ sw_uuid sw) opts of
                Inl e \<Rightarrow> (Inl e, sv1)
              | Inr r \<Rightarrow>
                  (case launch (h_platform h) now sw maxSessionsPerOwner r sv1 of
                     (Inl e, sv2) \<Rightarrow> (Inl e, sv2)
                   | (Inr r2, sv2) \<Rightarrow> (Inr \<lparr> es_id = session_id r, es_status = status r2, es_pid = pid r2 \<rparr>, sv2))))"

section \<open>Cleaning up after a conversation\<close>

text \<open>What the clean-up of one conversation session meets outside.\<close>

record conversation_world =
  vw_mark_write :: bool
  vw_stop_write :: bool
  vw_stop :: "(js_string, WorkerSnapshot) result"
  vw_final :: final_world
  vw_cleanup :: cleanup_world

definition cleanupConversation ::
  "platform \<Rightarrow> int \<Rightarrow> conversation_world \<Rightarrow> js_string \<Rightarrow> Supervisor \<Rightarrow> (sup_error, unit) result \<times> Supervisor" where
  "cleanupConversation pf now vw i sv =
     (case map_get (sv_records sv) i of
        None \<Rightarrow> (Inr (), sv)
      | Some r \<Rightarrow>
          (case save_as pf (vw_mark_write vw) (r\<lparr> pendingCleanup := Some True \<rparr>) sv of
             (Inl e, _, sv1) \<Rightarrow> (Inl e, sv1)
           | (Inr _, r1, sv1) \<Rightarrow>
               if status r1 = St_lost \<or> \<not> activeStatus r1
               then (case cleanup pf (vw_cleanup vw) i sv1 of (Inl e, sv2) \<Rightarrow> (Inl e, sv2) | (Inr _, sv2) \<Rightarrow> (Inr (), sv2))
               else if attached sv1 i = None then (Inr (), sv1)
               else case stop pf now (vw_stop_write vw) (vw_stop vw) (vw_final vw) i sv1 of
                 (Inl e, sv2) \<Rightarrow> (Inl e, sv2)
               | (Inr _, sv2) \<Rightarrow>
                   (case cleanup pf (vw_cleanup vw) i sv2 of (Inl e, sv3) \<Rightarrow> (Inl e, sv3) | (Inr _, sv3) \<Rightarrow> (Inr (), sv3))))"

definition cleanupByParentSession ::
  "platform \<Rightarrow> int \<Rightarrow> (js_string \<Rightarrow> conversation_world) \<Rightarrow> js_string \<Rightarrow> js_string \<Rightarrow> js_string \<Rightarrow> Supervisor \<Rightarrow>
   (sup_error, unit) result \<times> Supervisor" where
  "cleanupByParentSession pf now vw parent dir cap sv =
     run_all (\<lambda>i. cleanupConversation pf now (vw i) i)
       (map session_id (filter (\<lambda>r. parentSessionId r = parent \<and> ownerProjectDirectory r = dir \<and>
          ownerCapabilityHash r = cap \<and> lifecycle r = Conversation) (map_values (sv_records sv)))) sv"

text \<open>The sequential loop that marks the sessions to recover: it stops at the first failing write.\<close>

fun mark_conversations ::
  "platform \<Rightarrow> int \<Rightarrow> (js_string \<Rightarrow> bool) \<Rightarrow> SessionRecord list \<Rightarrow> Supervisor \<Rightarrow> (sup_error, unit) result \<times> Supervisor" where
  "mark_conversations pf now io [] sv = (Inr (), sv)"
| "mark_conversations pf now io (r # rs) sv =
     (if lifecycle r = Conversation \<and> (activeStatus r \<or> status r = St_lost) \<and> \<not> truthy (pendingCleanup r)
      then (case save pf (io (session_id r)) (r\<lparr> pendingCleanup := Some True, updatedAt := toISOString now \<rparr>) sv of
              (Inl e, sv1) \<Rightarrow> (Inl e, sv1) | (Inr _, sv1) \<Rightarrow> mark_conversations pf now io rs sv1)
      else mark_conversations pf now io rs sv)"

definition finished_conversation :: "platform \<Rightarrow> SessionRecord \<Rightarrow> bool" where
  "finished_conversation pf r \<longleftrightarrow>
     lifecycle r = Conversation \<and> \<not> (activeStatus r \<or> status r = St_lost) \<and> isTerminal pf r"

definition markConversationRecoveryCleanup ::
  "platform \<Rightarrow> int \<Rightarrow> (js_string \<Rightarrow> bool) \<Rightarrow> (js_string \<Rightarrow> conversation_world) \<Rightarrow> Supervisor \<Rightarrow> (sup_error, unit) result \<times> Supervisor" where
  "markConversationRecoveryCleanup pf now io vw sv =
     (let rs = map_values (sv_records sv) in
      case mark_conversations pf now io rs sv of
        (Inl e, sv1) \<Rightarrow> (Inl e, sv1)
      | (Inr _, sv1) \<Rightarrow>
          run_all (\<lambda>i. cleanupConversation pf now (vw i) i) (map session_id (filter (finished_conversation pf) rs)) sv1)"

section \<open>Start of the daemon\<close>

definition abandoned :: "SessionRecord \<Rightarrow> bool" where
  "abandoned r \<longleftrightarrow>
     noChildSpawnFailure r \<or> (status r = St_starting \<and> worker r = None \<and> workerPrestart r = None)"

definition incompatible_message :: "js_string \<Rightarrow> js_string" where
  "incompatible_message digits =
     js ''Native worker protocol v'' @ digits @
     js '' is incompatible with this daemon; output remains readable but the worker cannot be reconnected or controlled.''"

text \<open>
  One record of \<open>loadSessions\<close>; \<open>rm\<close> and \<open>io\<close> are the outcomes of the deletion and of the write for
  each session.
\<close>

definition adopt_session ::
  "platform \<Rightarrow> int \<Rightarrow> (js_string \<Rightarrow> bool) \<Rightarrow> (js_string \<Rightarrow> bool) \<Rightarrow> SessionRecord \<Rightarrow> Supervisor \<Rightarrow>
   (sup_error, unit) result \<times> Supervisor" where
  "adopt_session pf now rm io r sv =
     (if abandoned r \<and> rm (session_id r) then (Inr (), sv\<lparr> sv_disk := store_deleteSession (sv_disk sv) (session_id r) \<rparr>)
      else let sv1 = put_record r sv in
        case worker r of
          None \<Rightarrow> (Inr (), sv1)
        | Some w \<Rightarrow>
            if wk_protocolVersion w = NATIVE_WORKER_PROTOCOL_VERSION \<or> terminalDirectChild pf r then (Inr (), sv1)
            else save pf (io (session_id r)) ((transition_or_keep pf r Event_unreachable)
              \<lparr> terminationConfirmed := False,
                exitReason := Some (Exit_unknown (Some (incompatible_message (decimal (wk_protocolVersion w))))),
                updatedAt := toISOString now \<rparr>) sv1)"

fun adopt_sessions ::
  "platform \<Rightarrow> int \<Rightarrow> (js_string \<Rightarrow> bool) \<Rightarrow> (js_string \<Rightarrow> bool) \<Rightarrow> SessionRecord list \<Rightarrow> Supervisor \<Rightarrow>
   (sup_error, unit) result \<times> Supervisor" where
  "adopt_sessions pf now rm io [] sv = (Inr (), sv)"
| "adopt_sessions pf now rm io (r # rs) sv =
     (case adopt_session pf now rm io r sv of
        (Inl e, sv1) \<Rightarrow> (Inl e, sv1) | (Inr _, sv1) \<Rightarrow> adopt_sessions pf now rm io rs sv1)"

text \<open>\<open>initialize(false)\<close>; the server reconciles the workers afterwards.\<close>

definition initialize ::
  "platform \<Rightarrow> int \<Rightarrow> (js_string \<Rightarrow> bool) \<Rightarrow> (js_string \<Rightarrow> bool) \<Rightarrow> SessionRecord list \<Rightarrow> Supervisor \<Rightarrow>
   (sup_error, unit) result \<times> Supervisor" where
  "initialize pf now rm io loaded sv =
     (case adopt_sessions pf now rm io loaded sv of
        (Inl e, sv1) \<Rightarrow> (Inl e, sv1)
      | (Inr _, sv1) \<Rightarrow> (Inr (), sv1\<lparr> sv_registry := rebuildSlots pf (sv_registry sv1) \<rparr>))"

section \<open>Recovering workers\<close>

text \<open>
  What the recovery of one session meets: the receipts and reconnections found in its attempts, the
  snapshot of a reconnected worker (or the error of the request), the retained output, and the
  outcomes of writes and removals.
\<close>

record recovery_world =
  rw_prestart_receipts :: "bool list"
  rw_cleanup :: cleanup_world
  rw_connections :: "nat option list"
  rw_snapshot :: "(sup_error, WorkerSnapshot) result"
  rw_final :: final_world
  rw_conversation :: conversation_world
  rw_output :: journal
  rw_io :: "bool \<times> bool"

definition first_connection :: "nat \<Rightarrow> nat option list \<Rightarrow> nat option" where
  "first_connection attempts cs = (case find (\<lambda>c. c \<noteq> None) (take attempts cs) of None \<Rightarrow> None | Some c \<Rightarrow> c)"

definition lost_record :: "platform \<Rightarrow> int \<Rightarrow> js_string \<Rightarrow> SessionRecord \<Rightarrow> SessionRecord" where
  "lost_record pf now out r =
     (transition_or_keep pf r Event_unreachable)
     \<lparr> exitReason := Some (Exit_unknown None), outputBytes := byteLength out, lineCount := lineCount_of out,
       outputHasPartialLine := (out \<noteq> [] \<and> last out \<noteq> LF), updatedAt := toISOString now \<rparr>"

definition recover_lost ::
  "platform \<Rightarrow> int \<Rightarrow> recovery_world \<Rightarrow> nat \<Rightarrow> SessionRecord \<Rightarrow> Supervisor \<Rightarrow> (sup_error, unit) result \<times> Supervisor" where
  "recover_lost pf now rw c r sv =
     (case rw_snapshot rw of
        Inl e \<Rightarrow> (Inl e, sv)
      | Inr snap \<Rightarrow>
          if ws_status snap = W_lost then (Inr (), sv)
          else case transition pf r Recovered (\<lambda>x. x) of
            None \<Rightarrow> (Inr (), sv)
          | Some r1 \<Rightarrow>
              (let i = session_id r; sv1 = attach i c (put_record r1 sv) in
               if nativeTerminal pf snap then finalizeNativeInLane pf now (rw_final rw) c snap i sv1
               else finishNativeInLane pf now (rw_io rw) snap (version (sv_router sv1) i) False i sv1))"

definition reconcileWorker ::
  "platform \<Rightarrow> int \<Rightarrow> nat \<Rightarrow> recovery_world \<Rightarrow> js_string \<Rightarrow> Supervisor \<Rightarrow> (sup_error, unit) result \<times> Supervisor" where
  "reconcileWorker pf now attempts rw i sv =
     (case map_get (sv_records sv) i of
        None \<Rightarrow> (Inr (), sv)
      | Some r \<Rightarrow>
          let forget = (case deleteNativeSession (cw_rm_ok (rw_cleanup rw)) i sv of
                (Inl e, sv1) \<Rightarrow> (Inl e, sv1) | (Inr _, sv1) \<Rightarrow> (Inr (), sv1))
          in if incompatibleWorker r then (Inr (), sv)
          else if prestartReceiptAuthority r \<noteq> None
          then (if list_ex (\<lambda>b. b) (take attempts (rw_prestart_receipts rw)) then forget else (Inr (), sv))
          else if hasVerifiedNoChildSpawnFailure (rw_cleanup rw) r then forget
          else case (if worker r = None then None else first_connection attempts (rw_connections rw)) of
            Some c \<Rightarrow>
              if truthy (pendingCleanup r) then cleanupConversation pf now (rw_conversation rw) i (attach i c sv)
              else if status r = St_lost then recover_lost pf now rw c r sv
              else (Inr (), attach i c sv)
          | None \<Rightarrow>
              (case reader_output (rw_output rw) of
                 Inl (InvalidJournal m) \<Rightarrow> (Inl (Sup_storage (js m)), sv)
               | Inr out \<Rightarrow> save pf (fst (rw_io rw)) (lost_record pf now out r) sv))"

text \<open>A recovery that fails is reported and skipped.\<close>

definition reconcileWorkers ::
  "platform \<Rightarrow> int \<Rightarrow> nat \<Rightarrow> (js_string \<Rightarrow> recovery_world) \<Rightarrow> Supervisor \<Rightarrow> Supervisor" where
  "reconcileWorkers pf now attempts rw sv =
     snd (run_all (\<lambda>i. reconcileWorker pf now attempts (rw i) i)
       (map session_id (filter needs_reconciling (map_values (sv_records sv)))) sv)"

section \<open>Looking at sessions\<close>

text \<open>
  \<open>syncNative\<close>: the snapshot is taken over unless the worker has been replaced meanwhile. The
  answer of the worker is \<open>snap\<close>.
\<close>

definition syncNative ::
  "platform \<Rightarrow> int \<Rightarrow> bool \<times> bool \<Rightarrow> final_world \<Rightarrow> (sup_error, WorkerSnapshot) result \<Rightarrow> nat \<Rightarrow> js_string \<Rightarrow> Supervisor \<Rightarrow>
   (sup_error, unit) result \<times> Supervisor" where
  "syncNative pf now io fw snap c i sv =
     (case snap of
        Inl e \<Rightarrow> (Inl e, sv)
      | Inr w \<Rightarrow>
          if nativeTerminal pf w then finalizeNativeInLane pf now fw c w i sv
          else finishNativeInLane pf now io w (version (sv_router sv) i) False i sv)"

definition get_session ::
  "platform \<Rightarrow> int \<Rightarrow> bool \<times> bool \<Rightarrow> final_world \<Rightarrow> (sup_error, WorkerSnapshot) result \<Rightarrow> js_string \<Rightarrow> Supervisor \<Rightarrow>
   (sup_error, PTYSessionInfo option) result \<times> Supervisor" where
  "get_session pf now io fw snap i sv0 = flushed sv0 (\<lambda>sv.
     case map_get (sv_records sv) i of
       None \<Rightarrow> (Inr None, sv)
     | Some r \<Rightarrow>
         (case (worker r, attached sv i) of
            (Some _, Some c) \<Rightarrow>
              (case syncNative pf now io fw snap c i sv of
                 (Inl e, sv1) \<Rightarrow> (Inl e, sv1)
               | (Inr _, sv1) \<Rightarrow> (Inr (map_option toInfo (map_get (sv_records sv1) i)), sv1))
          | _ \<Rightarrow> (Inr (Some (toInfo r)), sv)))"

definition list_sessions :: "Supervisor \<Rightarrow> (sup_error, PTYSessionInfo list) result \<times> Supervisor" where
  "list_sessions sv0 = flushed sv0 (\<lambda>sv. (Inr (map toInfo (map_values (sv_records sv))), sv))"

definition execOutput_of ::
  "platform \<Rightarrow> int \<Rightarrow> bool \<times> bool \<Rightarrow> final_world \<Rightarrow> (sup_error, WorkerSnapshot) result \<Rightarrow> js_string \<Rightarrow> Supervisor \<Rightarrow>
   (sup_error, ExecOutput option) result \<times> Supervisor" where
  "execOutput_of pf now io fw snap i sv =
     (case get_session pf now io fw snap i sv of
        (Inl e, sv1) \<Rightarrow> (Inl e, sv1)
      | (Inr _, sv1) \<Rightarrow>
          (Inr (case map_get (sv_records sv1) i of
             None \<Rightarrow> None
           | Some r \<Rightarrow> map_option (\<lambda>x. x\<lparr> eo_containment := containment r, eo_termination := terminationResult r \<rparr>) (execOutput r)), sv1))"

record ExecResult =
  er_session :: ExecStart
  er_stdout :: js_string
  er_stderr :: js_string
  er_exitCode :: "int option"
  er_exitSignal :: "exit_signal option"
  er_timedOut :: bool
  er_outputLimited :: bool
  er_terminationConfirmed :: bool
  er_containment :: "ContainmentReport option"
  er_termination :: "TerminationResult option"
  er_startedAt :: timestamp
  er_exitedAt :: timestamp

text \<open>The end of \<open>nativeExecWait\<close>, after the waits; \<open>reason\<close> is how the first of them ended.\<close>

definition execWait_end :: "platform \<Rightarrow> wait_reason \<Rightarrow> js_string \<Rightarrow> Supervisor \<Rightarrow> (sup_error, ExecResult) result" where
  "execWait_end pf reason i sv =
     and_then (recordFor sv i) (\<lambda>r.
       case (if reason = By_exit \<or> status r = St_lost then map_get (sv_finalizations sv) i else None) of
         Some e \<Rightarrow> Inl e
       | None \<Rightarrow>
           if \<not> isTerminal pf r \<or> status r = St_lost \<or> status r = St_spawn_failed
           then Inl (Sup_process (js ''Exec wait completed without terminal evidence.''))
           else Inr \<lparr> er_session = \<lparr> es_id = session_id r, es_status = status r, es_pid = pid r \<rparr>,
             er_stdout = (case execOutput r of None \<Rightarrow> [] | Some x \<Rightarrow> eo_stdout x),
             er_stderr = (case execOutput r of None \<Rightarrow> [] | Some x \<Rightarrow> eo_stderr x),
             er_exitCode = exitCode r, er_exitSignal = exitSignal r, er_timedOut = timedOut r,
             er_outputLimited = outputTruncated r, er_terminationConfirmed = terminationConfirmed r,
             er_containment = containment r, er_termination = terminationResult r,
             er_startedAt = nullish (startedAt r) (createdAt r), er_exitedAt = nullish (exitedAt r) (updatedAt r) \<rparr>)"

end
