(* ===== verification/Supervisor_Runs.thy ===== *)
theory Supervisor_Runs
  imports Supervisor_Sessions
begin

text \<open>
  Runs of the session supervisor: every operation keeps the ledger of the registry in step with the
  table of records, at the start of the daemon and in any interleaving afterwards, and what follows
  for spawning, for restarts and for failed writes.
\<close>

section \<open>Starting a session keeps the ledger\<close>

definition tracks :: "SessionRecord \<Rightarrow> Supervisor \<Rightarrow> bool" where
  "tracks r sv \<longleftrightarrow> map_get (sv_records sv) (session_id r) = Some r"

definition same_session :: "SessionRecord \<Rightarrow> SessionRecord \<Rightarrow> bool" where
  "same_session r r' \<longleftrightarrow> session_id r' = session_id r \<and> ownerKey r' = ownerKey r \<and> mode r' = mode r \<and>
     parentSessionId r' = parentSessionId r \<and> ownerProjectDirectory r' = ownerProjectDirectory r \<and>
     ownerCapabilityHash r' = ownerCapabilityHash r"

lemma same_session_refl [simp]: "same_session r r"
  by (simp add: same_session_def)

lemma same_session_trans: "same_session a b \<Longrightarrow> same_session b c \<Longrightarrow> same_session a c"
  by (simp add: same_session_def)

lemma refreshed_mode [simp]:
  "mode (refreshed_record pf r) = mode r" "parentSessionId (refreshed_record pf r) = parentSessionId r"
  "ownerProjectDirectory (refreshed_record pf r) = ownerProjectDirectory r"
  "ownerCapabilityHash (refreshed_record pf r) = ownerCapabilityHash r"
  by (simp_all add: refreshed_record_def Let_def)

lemma keep_mode [simp]:
  "mode (transition_or_keep pf r e) = mode r" "parentSessionId (transition_or_keep pf r e) = parentSessionId r"
  "ownerProjectDirectory (transition_or_keep pf r e) = ownerProjectDirectory r"
  "ownerCapabilityHash (transition_or_keep pf r e) = ownerCapabilityHash r"
proof -
  have "mode (transition_or_keep pf r e) = mode r \<and> parentSessionId (transition_or_keep pf r e) = parentSessionId r \<and>
      ownerProjectDirectory (transition_or_keep pf r e) = ownerProjectDirectory r \<and>
      ownerCapabilityHash (transition_or_keep pf r e) = ownerCapabilityHash r"
  proof (cases "transition pf r e (\<lambda>x. x)")
    case (Some r')
    then obtain st where "r' = with_projection (projectSessionState st) (LifecycleProjection.more (r\<lparr> state := st \<rparr>))"
      by (rule transition_Some)
    with Some show ?thesis by (simp add: transition_or_keep_def)
  qed (simp add: transition_or_keep_def)
  then show "mode (transition_or_keep pf r e) = mode r" "parentSessionId (transition_or_keep pf r e) = parentSessionId r"
    "ownerProjectDirectory (transition_or_keep pf r e) = ownerProjectDirectory r"
    "ownerCapabilityHash (transition_or_keep pf r e) = ownerCapabilityHash r" by simp_all
qed

lemma save_as_shape:
  assumes "save_as pf io r sv = (res, r', sv')"
  shows "r' = refreshed_record pf r" "tracks r' sv'" "same_session r r'" "\<exists>x. save pf io r sv = (x, sv')"
    "\<And>x. res = Inr x \<Longrightarrow> x = r'"
proof -
  obtain x sv1 where s: "save pf io r sv = (x, sv1)" by (cases "save pf io r sv")
  from save_cases [OF s] obtain disk where sv1: "sv1 = put_record (refreshed_record pf r) (sv\<lparr> sv_disk := disk \<rparr>)" by blast
  show "r' = refreshed_record pf r" "tracks r' sv'" "same_session r r'" "\<exists>x. save pf io r sv = (x, sv')"
    "\<And>x. res = Inr x \<Longrightarrow> x = r'"
    using assms s by (auto simp: save_as_def sv1 tracks_def same_session_def split: sum.splits)
qed

lemma changed_session [simp]:
  "same_session r (persist_authority now a r)" "same_session r (persist_reference now w r)"
  "same_session r (r\<lparr> workerStartAttempted := b \<rparr>)" "same_session r (persist_ready pf now snap r)"
  "same_session r (ready_reference e p r)"
  by (simp_all add: same_session_def persist_authority_def persist_reference_def persist_ready_def)
     (cases "(e, p, r)" rule: ready_reference.cases; simp)+

lemma failed_session_same: "same_session r (failed_start_record pf now sw m e p r)"
  using changed_session(5) [of r e p] by (simp add: failed_start_record_def Let_def same_session_def)

context lane_relation
begin

lemma save_as_R:
  assumes "save_as pf io r sv = (res, r', sv')" and "tracks r0 sv" and "same_session r0 r" and "here (session_id r0)"
  shows "R sv sv' \<and> tracks r' sv' \<and> same_session r0 r'"
proof -
  note sh = save_as_shape [OF assms(1)]
  obtain x where "save pf io r sv = (x, sv')" using sh(4) by blast
  with assms(2-4) have "R sv sv'" by (auto simp: tracks_def same_session_def intro: save)
  with sh assms(3) show ?thesis using same_session_trans by blast
qed

lemma start_prepared_R:
  assumes "start_prepared pf now sw w r sv = (res, r', sv')" and t: "tracks r sv" and h: "here (session_id r)"
  shows "R sv sv' \<and> tracks r' sv' \<and> same_session r r'"
proof -
  obtain x1 r1 sv1 where s1: "save_as pf (sw_reference_write sw) (persist_reference now w r) sv = (x1, r1, sv1)"
    by (cases "save_as pf (sw_reference_write sw) (persist_reference now w r) sv")
  note 1 = save_as_R [OF s1 t changed_session(2) h]
  obtain x2 r2 sv2 where s2: "save_as pf (sw_attempted_write sw) (r1\<lparr> workerStartAttempted := Some True \<rparr>) sv1 = (x2, r2, sv2)"
    by (cases "save_as pf (sw_attempted_write sw) (r1\<lparr> workerStartAttempted := Some True \<rparr>) sv1")
  have "tracks r1 sv1" and h1: "here (session_id r1)" using 1 h by (auto simp: same_session_def)
  note 2 = save_as_R [OF s2 this(1) changed_session(3) h1]
  have h2: "here (session_id r2)" using 2 h1 by (auto simp: same_session_def)
  have 3: "R sv2 sv4 \<and> tracks r4 sv4 \<and> same_session r2 r4"
    if s: "save_as pf b (persist_ready pf now snap r2) (attach (session_id r) c sv2) = (x, r4, sv4)" for b snap c x r4 sv4
  proof -
    have "tracks r2 (attach (session_id r) c sv2)" using 2 by (simp add: tracks_def)
    from save_as_R [OF s this changed_session(4) h2] show ?thesis using attach_R trans by blast
  qed
  have undo: "R sv2 (put_record (r2\<lparr> workerStartAttempted := Some False \<rparr>) sv2) \<and>
      tracks (r2\<lparr> workerStartAttempted := Some False \<rparr>) (put_record (r2\<lparr> workerStartAttempted := Some False \<rparr>) sv2)"
    using 2 h2 put [of sv2 "session_id r2" r2 "r2\<lparr> workerStartAttempted := Some False \<rparr>"] by (auto simp: tracks_def)
  have "(r' = r1 \<and> sv' = sv1) \<or> (r' = r2 \<and> sv' = sv2) \<or>
      (r' = r2\<lparr> workerStartAttempted := Some False \<rparr> \<and> sv' = put_record (r2\<lparr> workerStartAttempted := Some False \<rparr>) sv2) \<or>
      (\<exists>b snap c x. save_as pf b (persist_ready pf now snap r2) (attach (session_id r) c sv2) = (x, r', sv'))"
    using assms(1) s1 s2 by (auto simp: start_prepared_def split: sum.splits prod.splits)
  then show ?thesis
  proof (elim disjE exE)
    fix b snap c x assume "save_as pf b (persist_ready pf now snap r2) (attach (session_id r) c sv2) = (x, r', sv')"
    from 3 [OF this] 1 2 show ?thesis using trans same_session_trans by meson
  next
    assume "r' = r1 \<and> sv' = sv1" with 1 show ?thesis by simp
  next
    assume "r' = r2 \<and> sv' = sv2" with 1 2 show ?thesis using trans same_session_trans by meson
  next
    assume "r' = r2\<lparr> workerStartAttempted := Some False \<rparr> \<and> sv' = put_record (r2\<lparr> workerStartAttempted := Some False \<rparr>) sv2"
    with 1 2 undo show ?thesis using trans same_session_trans changed_session(3) by meson
  qed
qed

lemma start_worker_R:
  assumes "start_worker pf now sw r sv = (res, r', sv')" and t: "tracks r sv" and h: "here (session_id r)"
  shows "R sv sv' \<and> tracks r' sv' \<and> same_session r r'"
proof (cases "sw_prepare sw")
  case (Prepare_refused e)
  with assms show ?thesis by (simp add: start_worker_def)
next
  case (Prepare_failed a e)
  obtain x1 r1 sv1 where s1: "save_as pf (sw_authority_write sw) (persist_authority now a r) sv = (x1, r1, sv1)"
    by (cases "save_as pf (sw_authority_write sw) (persist_authority now a r) sv")
  have "r' = r1 \<and> sv' = sv1" using assms(1) Prepare_failed s1 by (auto simp: start_worker_def Let_def split: sum.splits)
  with save_as_R [OF s1 t changed_session(1) h] show ?thesis by simp
next
  case (Prepare_ready a w)
  obtain x1 r1 sv1 where s1: "save_as pf (sw_authority_write sw) (persist_authority now a r) sv = (x1, r1, sv1)"
    by (cases "save_as pf (sw_authority_write sw) (persist_authority now a r) sv")
  note 1 = save_as_R [OF s1 t changed_session(1) h]
  have "(r' = r1 \<and> sv' = sv1) \<or> start_prepared pf now sw w r1 sv1 = (res, r', sv')"
    using assms(1) Prepare_ready s1 by (auto simp: start_worker_def Let_def split: sum.splits)
  then show ?thesis
  proof
    assume "start_prepared pf now sw w r1 sv1 = (res, r', sv')"
    from start_prepared_R [OF this] 1 h show ?thesis using trans same_session_trans by (simp add: same_session_def) meson
  qed (use 1 in simp)
qed

end

section \<open>Every operation keeps the ledger\<close>

lemma release_records: "release (g\<lparr> records := m \<rparr>) i = (release g i)\<lparr> records := m \<rparr>"
proof -
  have a: "releaseActive (g\<lparr> records := m \<rparr>) i = (releaseActive g i)\<lparr> records := m \<rparr>" for g
    unfolding releaseActive_def by (cases "map_get (slotOwnerBySessionId g) i") simp_all
  have o: "setOutput (g\<lparr> records := m \<rparr>) i k b = (setOutput g i k b)\<lparr> records := m \<rparr>" for g k b
    by (simp add: setOutput_def Let_def)
  have comm: "g\<lparr> records := m, recordsByOwner := x, recordOwnerBySessionId := y \<rparr> =
      g\<lparr> recordsByOwner := x, recordOwnerBySessionId := y, records := m \<rparr>" for g :: SessionRegistry and x y
    by simp
  show ?thesis
    unfolding release_def Let_def a
    by (cases "map_get (recordOwnerBySessionId (releaseActive g i)) i") (simp_all add: comm o)
qed

lemma run_all_inv:
  assumes "\<And>x sv. x \<in> set xs \<Longrightarrow> P sv \<Longrightarrow> P (snd (f x sv))" and "P sv"
  shows "P (snd (run_all f xs sv))"
  using assms
proof (induction xs arbitrary: sv)
  case (Cons x xs)
  have "P (snd (f x sv))" using Cons.prems by simp
  with Cons.IH [of "snd (f x sv)"] Cons.prems(1) show ?case by (auto split: prod.split)
qed simp

text \<open>The ledger is in order and the session id \<open>j\<close> is not in use.\<close>

definition ledger_without :: "js_string \<Rightarrow> Supervisor \<Rightarrow> bool" where
  "ledger_without j sv \<longleftrightarrow> ledger_ok sv \<and> map_get (sv_records sv) j = None"

lemma delete_without:
  assumes "deleteNativeSession ok i sv = (res, sv')" and "ledger_without j sv"
  shows "ledger_without j sv'"
proof -
  have "ledger_ok sv'" using delete_ledger [OF assms(1)] assms(2) by (simp add: ledger_without_def)
  moreover have "map_get (sv_records sv') j = None"
    using assms(2) delete_cases [OF assms(1)]
    by (cases "res = Inr True") (auto simp: ledger_without_def sv_records_def Let_def)
  ultimately show ?thesis by (simp add: ledger_without_def)
qed

lemma ledger_registry:
  "sv_registry a = sv_registry b \<Longrightarrow> ledger_ok a = ledger_ok b"
  "sv_registry a = sv_registry b \<Longrightarrow> ledger_without j a = ledger_without j b"
  by (simp_all add: ledger_without_def ledger_ok_def sv_records_def)

lemma cleanup_inv:
  assumes ok: "ledger_ok sv" and P: "P sv" and reg: "\<And>a. sv_registry a = sv_registry sv \<Longrightarrow> P a"
    and del: "\<And>a res b. P a \<Longrightarrow> deleteNativeSession (cw_rm_ok cw) i a = (res, b) \<Longrightarrow> P b"
  shows "P (snd (cleanup pf cw i sv))"
proof -
  obtain res sv' where c: "cleanup pf cw i sv = (res, sv')" by (cases "cleanup pf cw i sv")
  from cleanup_deletes [OF c ok] show ?thesis
  proof (elim disjE exE conjE)
    fix sv1 assume "sv_registry sv1 = sv_registry sv" "deleteNativeSession (cw_rm_ok cw) i sv1 = (res, sv')"
    with del [OF reg] c show ?thesis by simp
  qed (use P c in simp)
qed

lemma cleanup_ledger: "ledger_ok sv \<Longrightarrow> ledger_ok (snd (cleanup pf cw i sv))"
  by (rule cleanup_inv [where P = ledger_ok]) (blast dest: ledger_registry(1) intro: delete_ledger)+

lemma cleanup_without:
  assumes "ledger_without j sv"
  shows "ledger_without j (snd (cleanup pf cw i sv))"
proof (rule cleanup_inv [where P = "ledger_without j"])
  show "ledger_ok sv" using assms by (simp add: ledger_without_def)
qed (use assms in \<open>blast dest: ledger_registry(2) intro: delete_without\<close>)+

lemma prune_without: "ledger_without j sv \<Longrightarrow> ledger_without j (snd (pruneExpiredTerminals pf now cw sv))"
  unfolding pruneExpiredTerminals_def Let_def by (rule run_all_inv) (simp_all add: cleanup_without)

lemma prune_ledger: "ledger_ok sv \<Longrightarrow> ledger_ok (snd (pruneExpiredTerminals pf now cw sv))"
  unfolding pruneExpiredTerminals_def Let_def by (rule run_all_inv) (simp_all add: cleanup_ledger)

lemma start_failed_steps:
  assumes "start_failed pf now sw e prepared r sv = (res, sv')" and t: "tracks r sv"
  shows "\<exists>sv2. observes sv sv2 \<and> (\<exists>x. res = Inl x) \<and>
    (sv' = sv2 \<or> no_worker_spawned e \<and> (\<exists>x. deleteNativeSession (sw_rm_ok sw) (session_id r) sv2 = (x, sv')))"
proof -
  define spoken where "spoken = (if mode r = Mode_pty then se_message e else js ''Error: '' @ se_message e)"
  let ?r = "failed_start_record pf now sw spoken e prepared r"
  obtain x sv1 where s: "save pf (sw_failure_write sw) ?r sv = (x, sv1)" by (cases "save pf (sw_failure_write sw) ?r sv")
  have 1: "observes sv sv1"
    using t failed_session_same [of r pf now sw spoken e prepared] s
    by (intro obs.save [of sv "session_id r" r ?r]) (auto simp: tracks_def same_session_def)
  have 2: "observes sv (settle_registry pf (session_id r) sv1)" using 1 obs.settle obs.trans by blast
  obtain y sv3 where d: "deleteNativeSession (sw_rm_ok sw) (session_id r) (settle_registry pf (session_id r) sv1) = (y, sv3)"
    by (cases "deleteNativeSession (sw_rm_ok sw) (session_id r) (settle_registry pf (session_id r) sv1)")
  have "(\<exists>x. res = Inl x) \<and> (sv' = sv1 \<or> sv' = settle_registry pf (session_id r) sv1 \<or> no_worker_spawned e \<and> sv' = sv3)"
    using assms(1) s d unfolding start_failed_def spoken_def [symmetric] Let_def
    by (auto split: sum.splits if_splits)
  with 1 2 d show ?thesis by blast
qed

lemma launch_ledger:
  assumes "launch pf now sw m r sv = (res, sv')" and "ledger_without (session_id r) sv"
  shows "ledger_ok sv'"
proof (cases "reserve pf (sv_registry sv) r m")
  case (Inl e)
  with assms show ?thesis by (simp add: launch_def ledger_without_def)
next
  case (Inr p)
  obtain rv g where p: "p = (rv, g)" by (cases p)
  let ?sv = "put_record r (sv\<lparr> sv_registry := g \<rparr>)"
  have ok: "ledger_ok ?sv" using assms(2) reserve_ledger Inr p by (simp add: ledger_without_def)
  have t: "tracks r ?sv" by (simp add: tracks_def)
  obtain x r1 sv1 where s: "save_as pf (sw_first_write sw) r ?sv = (x, r1, sv1)" by (cases "save_as pf (sw_first_write sw) r ?sv")
  have 1: "observes ?sv sv1 \<and> tracks r1 sv1 \<and> same_session r r1" by (rule obs.save_as_R [OF s t]) simp_all
  have ok1: "ledger_ok sv1" using 1 ok observes_ledger by blast
  show ?thesis
  proof (cases x)
    case (Inl e)
    have rv: "rs_id rv = session_id r" using reserve_Inr(2) [OF Inr [unfolded p]] by simp
    have g1: "sv_registry sv' = (release (sv_registry sv1) (session_id r))\<lparr> records := map_delete (sv_records sv1) (session_id r) \<rparr>"
      using assms(1) Inr p s Inl rv by (auto simp: launch_def releaseReservation_def release_records)
    have inv: "registry_inv (sv_registry sv1)" using ok1 by (simp add: ledger_ok_def)
    then have "map_get (recordOwnerBySessionId (release (sv_registry sv1) (session_id r))) j =
        (if j = session_id r then None else map_get (recordOwnerBySessionId (sv_registry sv1)) j)" for j
      using recs.owner_of_remove by (auto simp: registry_inv_def)
    with ok1 inv show ?thesis by (auto simp: ledger_ok_def sv_records_def g1 release_inv)
  next
    case (Inr x')
    obtain y r2 sv2 where w: "start_worker pf now sw r1 sv1 = (y, r2, sv2)" by (cases "start_worker pf now sw r1 sv1")
    have 2: "observes sv1 sv2 \<and> tracks r2 sv2 \<and> same_session r1 r2" using obs.start_worker_R [OF w] 1 by blast
    have ok2: "ledger_ok sv2" using 2 ok1 observes_ledger by blast
    have "sv' = sv2 \<or> (\<exists>e b. start_failed pf now sw e b r2 sv2 = (res, sv'))"
      using assms(1) \<open>reserve pf (sv_registry sv) r m = Inr p\<close> p s Inr w
      by (auto simp: launch_def split: sum.splits prod.splits)
    then show ?thesis
    proof (elim disjE exE)
      fix e b assume "start_failed pf now sw e b r2 sv2 = (res, sv')"
      from start_failed_steps [OF this] 2 obtain sv3 where "observes sv2 sv3"
        "sv' = sv3 \<or> (\<exists>x. deleteNativeSession (sw_rm_ok sw) (session_id r2) sv3 = (x, sv'))" by blast
      with ok2 show ?thesis using observes_ledger delete_ledger by blast
    qed (use ok2 in simp)
  qed
qed

lemma launch_snd: "ledger_without (session_id r) sv \<Longrightarrow> ledger_ok (snd (launch pf now sw m r sv))"
  by (rule launch_ledger [OF prod.collapse [symmetric]])

lemma without_ok: "ledger_without j sv \<Longrightarrow> ledger_ok sv"
  by (simp add: ledger_without_def)

lemma new_record_id [simp]: "session_id (new_record h now m i ttl opts env wd dir limit) = i"
  by (simp add: new_record_def Let_def)

lemma made_id:
  "spawn_record h now i opts = Inr r \<Longrightarrow> session_id r = i" "exec_record h now i opts = Inr r \<Longrightarrow> session_id r = i"
  by (auto simp: spawn_record_def exec_record_def and_then_Inr_iff)

lemma snd_relabel [simp]:
  "snd (case x of (Inl e, s) \<Rightarrow> (Inl e, s) | (Inr y, s) \<Rightarrow> (Inr (f y), s)) = snd x"
  by (auto split: prod.split sum.split)

lemma spawn_ledger:
  assumes "ledger_without (js ''pty_'' @ sw_uuid sw) sv"
  shows "ledger_ok (snd (spawn h now sw cw m opts sv))"
proof -
  define i where "i = js ''pty_'' @ sw_uuid sw"
  have w: "ledger_without i sv" using assms by (simp only: i_def)
  obtain x sv1 where p: "pruneExpiredTerminals (h_platform h) now cw sv = (x, sv1)" by (cases "pruneExpiredTerminals (h_platform h) now cw sv")
  have w1: "ledger_without i sv1" using prune_without [OF w, of "h_platform h" now cw] p by simp
  have "ledger_ok (snd (launch (h_platform h) now sw m r sv1))" if "spawn_record h now i opts = Inr r" for r
    using launch_snd w1 made_id(1) [OF that] by simp
  then show ?thesis
    using w1 w without_ok unfolding spawn_def flushed_def i_def [symmetric] p
    by (simp split: sum.split option.split)
qed

lemma exec_ledger:
  assumes "ledger_without (js ''exec_'' @ sw_uuid sw) sv"
  shows "ledger_ok (snd (nativeExecStart h now sw cw m opts sv))"
proof -
  define i where "i = js ''exec_'' @ sw_uuid sw"
  have w: "ledger_without i sv" using assms by (simp only: i_def)
  obtain x sv1 where p: "pruneExpiredTerminals (h_platform h) now cw sv = (x, sv1)" by (cases "pruneExpiredTerminals (h_platform h) now cw sv")
  have w1: "ledger_without i sv1" using prune_without [OF w, of "h_platform h" now cw] p by simp
  have "ledger_ok (snd (launch (h_platform h) now sw m r sv1))" if "exec_record h now i opts = Inr r" for r
    using launch_snd w1 made_id(2) [OF that] by simp
  then show ?thesis
    using w1 w without_ok unfolding nativeExecStart_def flushed_def i_def [symmetric] p
    by (simp split: sum.split option.split)
qed

lemma stop_ledger: "ledger_ok sv \<Longrightarrow> ledger_ok (snd (stop pf now io answer fw i sv))"
  using obs.stop_R [OF prod.collapse [symmetric]] observes_ledger by blast

lemma conversation_ledger:
  assumes ok: "ledger_ok sv"
  shows "ledger_ok (snd (cleanupConversation pf now vw i sv))"
proof (cases "map_get (sv_records sv) i")
  case (Some r)
  have i: "session_id r = i" by (rule ledger_id [OF ok Some])
  obtain x r1 sv1 where s: "save_as pf (vw_mark_write vw) (r\<lparr> pendingCleanup := Some True \<rparr>) sv = (x, r1, sv1)"
    by (cases "save_as pf (vw_mark_write vw) (r\<lparr> pendingCleanup := Some True \<rparr>) sv")
  have "observes sv sv1"
    using obs.save_as_R [OF s, of r] Some i by (simp add: tracks_def same_session_def)
  then have ok1: "ledger_ok sv1" using ok observes_ledger by blast
  let ?stop = "stop pf now (vw_stop_write vw) (vw_stop vw) (vw_final vw) i sv1"
  obtain y sv2 where y: "?stop = (y, sv2)" by (cases ?stop)
  then have "ledger_ok sv2" using stop_ledger [OF ok1, of pf now "vw_stop_write vw" "vw_stop vw" "vw_final vw" i] by simp
  with ok1 cleanup_ledger show ?thesis
    unfolding cleanupConversation_def Some by (simp add: s y split: sum.split)
qed (use ok in \<open>simp add: cleanupConversation_def\<close>)

lemma byParent_ledger: "ledger_ok sv \<Longrightarrow> ledger_ok (snd (cleanupByParentSession pf now vw p d c sv))"
  unfolding cleanupByParentSession_def by (rule run_all_inv) (simp_all add: conversation_ledger)

lemma mark_ledger:
  assumes "ledger_ok sv" and "\<forall>r\<in>set rs. map_option ownerKey (map_get (sv_records sv) (session_id r)) = Some (ownerKey r)"
  shows "ledger_ok (snd (mark_conversations pf now io rs sv))"
  using assms
proof (induction rs arbitrary: sv)
  case (Cons r rs)
  let ?r = "r\<lparr> pendingCleanup := Some True, updatedAt := toISOString now \<rparr>"
  obtain x sv1 where s: "save pf (io (session_id r)) ?r sv = (x, sv1)" by (cases "save pf (io (session_id r)) ?r sv")
  from Cons.prems obtain r0 where r0: "map_get (sv_records sv) (session_id r) = Some r0" "ownerKey r0 = ownerKey r"
    by (cases "map_get (sv_records sv) (session_id r)") auto
  have "session_id r0 = session_id r" using ledger_id Cons.prems(1) r0(1) by blast
  with r0 have o: "observes sv sv1" using s by (intro obs.save [OF r0(1) _ _ s]) auto
  then have "ledger_ok sv1" "\<forall>r\<in>set rs. map_option ownerKey (map_get (sv_records sv1) (session_id r)) = Some (ownerKey r)"
    using Cons.prems by (auto simp: observes_def same_owners_def)
  with Cons.IH [of sv1] Cons.IH [of sv] Cons.prems s show ?case by (auto split: sum.split)
qed simp

lemma records_owned:
  assumes "ledger_ok sv" and "r \<in> set (map_values (sv_records sv))"
  shows "map_option ownerKey (map_get (sv_records sv) (session_id r)) = Some (ownerKey r)"
proof -
  from assms obtain i where "(i, r) \<in> set (sv_records sv)" by auto
  then have "map_get (sv_records sv) i = Some r" using assms(1) by (simp add: ledger_ok_def map_ok_def)
  with ledger_id [OF assms(1) this] show ?thesis by simp
qed

lemma markRecovery_ledger:
  assumes "ledger_ok sv"
  shows "ledger_ok (snd (markConversationRecoveryCleanup pf now io vw sv))"
proof -
  obtain x sv1 where m: "mark_conversations pf now io (map_values (sv_records sv)) sv = (x, sv1)"
    by (cases "mark_conversations pf now io (map_values (sv_records sv)) sv")
  have ok1: "ledger_ok sv1" using mark_ledger [OF assms, of "map_values (sv_records sv)" pf now io] records_owned [OF assms] m by auto
  have "ledger_ok (snd (run_all (\<lambda>i. cleanupConversation pf now (vw i) i) xs sv1))" for xs
    by (rule run_all_inv [where P = ledger_ok]) (simp_all add: conversation_ledger ok1)
  with ok1 show ?thesis by (simp add: markConversationRecoveryCleanup_def Let_def m split: sum.split)
qed

lemma ownerKey_journal [simp]:
  "ownerKey (outputBytes_update f r) = ownerKey r" "ownerKey (lineCount_update f r) = ownerKey r"
  "ownerKey (outputHasPartialLine_update g r) = ownerKey r"
  by (simp_all add: ownerKey_def)

lemma attach_ledger: "ledger_ok sv \<Longrightarrow> ledger_ok (attach i c sv)"
  using obs.attach_R observes_ledger by blast

lemma finalize_ledger: "ledger_ok sv \<Longrightarrow> ledger_ok (snd (finalizeNativeInLane pf now fw c w i sv))"
  using obs.finalize_lane_R [OF prod.collapse [symmetric]] observes_ledger by blast

lemma finish_ledger: "ledger_ok sv \<Longrightarrow> ledger_ok (snd (finishNativeInLane pf now io w v t i sv))"
  using obs.finish_lane_R [OF prod.collapse [symmetric]] observes_ledger by blast

lemma rollback_ledger: "ledger_ok sv \<Longrightarrow> ledger_ok (snd (rollbackNativeInLane pf now io c m h i sv))"
  using obs.rollback_R [OF prod.collapse [symmetric]] observes_ledger by blast

lemma recover_ledger:
  assumes ok: "ledger_ok sv" and r: "map_get (sv_records sv) i = Some r"
  shows "ledger_ok (snd (recover_lost pf now rw c r sv))"
proof -
  have i: "session_id r = i" by (rule ledger_id [OF ok r])
  have "ledger_ok (attach i c (put_record r1 sv))" if "transition pf r Recovered (\<lambda>x. x) = Some r1" for r1
  proof -
    have "observes sv (put_record r1 sv)"
      using transition_owner [OF that] r by (intro obs.put [OF r]) simp_all
    then show ?thesis using ok observes_ledger attach_ledger by blast
  qed
  then show ?thesis
    using ok finalize_ledger finish_ledger unfolding recover_lost_def i Let_def
    by (simp split: sum.split option.split)
qed

lemma reconcile_ledger:
  assumes ok: "ledger_ok sv"
  shows "ledger_ok (snd (reconcileWorker pf now n rw i sv))"
proof (cases "map_get (sv_records sv) i")
  case (Some r)
  have i: "session_id r = i" by (rule ledger_id [OF ok Some])
  obtain x sv1 where d: "deleteNativeSession (cw_rm_ok (rw_cleanup rw)) i sv = (x, sv1)"
    by (cases "deleteNativeSession (cw_rm_ok (rw_cleanup rw)) i sv")
  have ok1: "ledger_ok sv1" by (rule delete_ledger [OF d ok])
  have lost: "ledger_ok (snd (save pf (fst (rw_io rw)) (lost_record pf now out r) sv))" for out
  proof -
    have "observes sv (snd (save pf (fst (rw_io rw)) (lost_record pf now out r) sv))"
      by (rule obs.save [OF Some _ _ prod.collapse [symmetric]]) (simp_all add: lost_record_def)
    then show ?thesis using ok observes_ledger by blast
  qed
  show ?thesis
    using ok ok1 lost attach_ledger conversation_ledger recover_ledger [OF ok Some]
    unfolding reconcileWorker_def Some Let_def d
    by (simp split: sum.split option.split journal_error.split)
qed (use ok in \<open>simp add: reconcileWorker_def\<close>)

lemma reconcileAll_ledger: "ledger_ok sv \<Longrightarrow> ledger_ok (reconcileWorkers pf now n rw sv)"
  unfolding reconcileWorkers_def by (rule run_all_inv) (simp_all add: reconcile_ledger)

lemma sync_ledger: "ledger_ok sv \<Longrightarrow> ledger_ok (snd (syncNative pf now io fw snap c i sv))"
  unfolding syncNative_def by (simp add: finalize_ledger finish_ledger split: sum.split)

lemma get_ledger: "ledger_ok sv \<Longrightarrow> ledger_ok (snd (get_session pf now io fw snap i sv))"
  using sync_ledger [of sv pf now io fw snap _ i]
  unfolding get_session_def flushed_def by (auto split: sum.split option.split prod.split) (metis snd_conv)+

lemma registry_frame:
  assumes "registry_inv g = registry_inv (sv_registry sv)" and "records g = records (sv_registry sv)"
    and "recordOwnerBySessionId g = recordOwnerBySessionId (sv_registry sv)"
  shows "ledger_ok (sv\<lparr> sv_registry := g \<rparr>) = ledger_ok sv"
  using assms by (simp add: ledger_ok_def sv_records_def)

lemma waiting_frame:
  "reserveWait (sv_registry sv) r = Inr (w, g) \<Longrightarrow> ledger_ok (sv\<lparr> sv_registry := g \<rparr>) = ledger_ok sv"
  "ledger_ok (sv\<lparr> sv_registry := snd (releaseWait (sv_registry sv) w) \<rparr>) = ledger_ok sv"
  "reserveInput (sv_registry sv) r n = Inr (v, g) \<Longrightarrow> ledger_ok (sv\<lparr> sv_registry := g \<rparr>) = ledger_ok sv"
  "ledger_ok (release_input v sv) = ledger_ok sv"
proof -
  show "reserveWait (sv_registry sv) r = Inr (w, g) \<Longrightarrow> ledger_ok (sv\<lparr> sv_registry := g \<rparr>) = ledger_ok sv"
    by (drule reserveWait_Inr(2), rule registry_frame) simp_all
  show "ledger_ok (sv\<lparr> sv_registry := snd (releaseWait (sv_registry sv) w) \<rparr>) = ledger_ok sv"
    by (rule registry_frame) (simp_all add: releaseWait_def)
  show "reserveInput (sv_registry sv) r n = Inr (v, g) \<Longrightarrow> ledger_ok (sv\<lparr> sv_registry := g \<rparr>) = ledger_ok sv"
    by (drule reserveInput_Inr(2), rule registry_frame) simp_all
  show "ledger_ok (release_input v sv) = ledger_ok sv"
    unfolding release_input_def by (rule registry_frame) (simp_all add: releaseInput_def)
qed

lemma push_ledger: "ledger_ok (push_wait i p sv) = ledger_ok sv"
  by (rule ledger_registry(1)) (simp add: push_wait_def)

lemma finishWait_ledger:
  assumes ok: "ledger_ok sv" and r: "map_get (sv_records sv) (session_id r) = Some r \<or> map_get (sv_records sv) (session_id r) = None"
  shows "ledger_ok (snd (finishWait pf now io r res sv))"
proof -
  define complete where "complete = res\<lparr> wr_containment := containment r, wr_termination := terminationResult r \<rparr>"
  define r1 where "r1 = r\<lparr> lastWaitResult := Some complete, updatedAt := toISOString now \<rparr>"
  obtain x r2 disk where w: "writeSession pf io r1 (sv_disk sv) = (x, r2, disk)" by (cases "writeSession pf io r1 (sv_disk sv)")
  have r2: "r2 = refreshed_record pf r1" using w by (auto simp: writeSession_def Let_def split: if_splits)
  have s: "session_id r2 = session_id r" "ownerKey r2 = ownerKey r" by (simp_all add: r2 r1_def)
  obtain q where sv': "snd (finishWait pf now io r res sv) =
      (if map_has (sv_records sv) (session_id r) then put_record r2 (sv\<lparr> sv_disk := disk, sv_persist := q \<rparr>)
       else sv\<lparr> sv_disk := disk, sv_persist := q \<rparr>)"
    unfolding finishWait_def complete_def [symmetric] Let_def r1_def [symmetric] w by simp
  have f: "ledger_ok (sv\<lparr> sv_disk := disk, sv_persist := q \<rparr>)" using ok ledger_registry(1) [of "sv\<lparr> sv_disk := disk, sv_persist := q \<rparr>" sv] by simp
  have "observes (sv\<lparr> sv_disk := disk, sv_persist := q \<rparr>) (put_record r2 (sv\<lparr> sv_disk := disk, sv_persist := q \<rparr>))"
    if "map_get (sv_records sv) (session_id r) = Some r"
    using that s by (intro obs.put [of _ "session_id r" r]) (simp_all add: sv_records_def)
  with f r sv' show ?thesis using observes_ledger by auto
qed

lemma removeWait_ledger: "ledger_ok (removeWait i p sv) = ledger_ok sv" "sv_records (removeWait i p sv) = sv_records sv"
proof -
  have "sv_registry (removeWait i p sv) = snd (releaseWait (sv_registry sv) (pw_reservation p))"
    by (simp add: removeWait_def Let_def split: option.split)
  then show "ledger_ok (removeWait i p sv) = ledger_ok sv"
    using ledger_registry(1) [of "removeWait i p sv" "sv\<lparr> sv_registry := snd (releaseWait (sv_registry sv) (pw_reservation p)) \<rparr>"]
      waiting_frame(2) by simp
  show "sv_records (removeWait i p sv) = sv_records sv"
    by (simp add: removeWait_def Let_def sv_records_def releaseWait_def split: option.split)
qed

lemma settle_wait_ledger:
  assumes ok: "ledger_ok sv"
  shows "ledger_ok (snd (settle_wait pf now io r p res sv))"
proof -
  have "map_get (sv_records sv) (session_id (held_record r sv)) \<in> {Some (held_record r sv), None}"
    using ledger_id [OF ok] by (cases "map_get (sv_records sv) (session_id r)") (auto simp: held_record_def)
  then have "ledger_ok (snd (finishWait pf now io (held_record r sv) res (removeWait (session_id r) p sv)))"
    using ok by (intro finishWait_ledger) (auto simp: removeWait_ledger)
  then show ?thesis using ok by (cases "finishWait pf now io (held_record r sv) res (removeWait (session_id r) p sv)") (simp add: settle_wait_def)
qed

lemma reserved_frame [simp]: "ledger_ok (snd (release_reserved w sv)) = ledger_ok sv"
  by (cases w) (simp_all add: waiting_frame(2))

lemma wait_ledger:
  assumes ok: "ledger_ok sv"
  shows "ledger_ok (snd (snd (wait_begin pf rx now io j i c t w sv)))"
proof (cases "recordFor sv i")
  case (Inr r)
  then have r: "map_get (sv_records sv) i = Some r" by (auto simp: recordFor_def split: option.splits)
  have i: "session_id r = i" by (rule ledger_id [OF ok r])
  obtain w1 sv1 where rel: "release_reserved w sv = (w1, sv1)" by (cases "release_reserved w sv")
  have ok1: "ledger_ok sv1" using reserved_frame [of w sv] rel ok by simp
  have "map_get (sv_records sv1) (session_id r) = Some r" using reserved_records [of w sv] rel r i by simp
  then have fin: "ledger_ok (snd (finishWait pf now io r m sv1))" for m
    using finishWait_ledger [OF ok1] by blast
  show ?thesis
    using ok ok1 fin waiting_frame(1) [of sv r]
    unfolding wait_begin_def Inr rel done_wait_def
    by (simp add: push_ledger split: sum.split option.split prod.split)
qed (use ok in \<open>simp add: wait_begin_def split: sum.split\<close>)

lemma send_begin_ledger:
  assumes "ledger_ok sv"
  shows "ledger_ok (snd (sendWait_begin rx i data c t sv))"
proof -
  have "ledger_ok (sv\<lparr> sv_registry := snd (releaseWait g w) \<rparr>) \<and>
      (\<forall>n v g2. reserveInput g r n = Inr (v, g2) \<longrightarrow> ledger_ok (sv\<lparr> sv_registry := g2 \<rparr>))"
    if res: "reserveWait (sv_registry sv) r = Inr (w, g)" for r w g
    using assms waiting_frame(1) [OF res] waiting_frame(2) [of "sv\<lparr> sv_registry := g \<rparr>" w]
      waiting_frame(3) [of "sv\<lparr> sv_registry := g \<rparr>" r] by auto
  then show ?thesis
    using assms unfolding sendWait_begin_def flushed_def by (simp split: sum.split prod.split)
qed

lemma send_end_ledger:
  assumes "ledger_ok sv"
  shows "ledger_ok (snd (sendWait_end pf rx now io j i c t w sent sv))"
proof (cases sent)
  case (Inr n)
  obtain x w' sv1 where b: "wait_begin pf rx now io j i (after_input n c) t (Some w) sv = (x, w', sv1)"
    by (cases "wait_begin pf rx now io j i (after_input n c) t (Some w) sv")
  have "ledger_ok sv1" using wait_ledger [OF assms, of pf rx now io j i "after_input n c" t "Some w"] b by simp
  then show ?thesis by (simp add: sendWait_end_def Inr b split: sum.split)
qed (use assms in \<open>simp add: sendWait_end_def waiting_frame(2)\<close>)

lemma end_waits_ledger: "ledger_ok sv \<Longrightarrow> ledger_ok (end_waits pf rx now j r ps sv)"
proof (induction ps arbitrary: sv)
  case (Cons q ps)
  then show ?case by (cases q) (simp add: settle_wait_ledger split: sum.split)
qed simp

lemma write_ledger:
  "ledger_ok sv \<Longrightarrow> ledger_ok (snd (write_begin i data sv))"
  using waiting_frame(3) [of sv] unfolding write_begin_def flushed_def
  by (simp split: sum.split prod.split)

section \<open>Runs of the supervisor\<close>

text \<open>
  One operation of the supervisor, or one step of a longer one: what it does between two points
  where other operations can take their turn. Every answer from outside is a part of the event.
\<close>

datatype supervisor_event =
    Op_spawn host int start_world "js_string \<Rightarrow> cleanup_world" nat SpawnOptions
  | Op_exec host int start_world "js_string \<Rightarrow> cleanup_world" nat SpawnOptions
  | Op_write_begin js_string js_string
  | Op_write_task js_string js_string InputReservation "(js_string, nat) result"
  | Op_stop int bool "(js_string, WorkerSnapshot) result" final_world js_string
  | Op_cleanup cleanup_world js_string
  | Op_parent int "js_string \<Rightarrow> conversation_world" js_string js_string js_string
  | Op_get int "bool \<times> bool" final_world "(sup_error, WorkerSnapshot) result" js_string
  | Op_wait int bool journal js_string WaitCondition int
  | Op_send_begin js_string js_string WaitCondition int
  | Op_send_task js_string InputReservation "(js_string, nat) result"
  | Op_send_end int bool journal js_string WaitCondition int WaitReservation "(sup_error, nat) result"
  | Op_settle int bool SessionRecord PendingWait WaitResult
  | Op_exit_waits int journal "nat \<Rightarrow> bool" SessionRecord
  | Op_output_wait int journal bool SessionRecord PendingWait
  | Op_finish int "bool \<times> bool" WorkerSnapshot nat bool js_string
  | Op_finalize int final_world nat WorkerSnapshot js_string
  | Op_rollback int bool SpawnCleanup js_string nat js_string
  | Op_mark int "js_string \<Rightarrow> bool" "js_string \<Rightarrow> conversation_world"
  | Op_reconcile int nat "js_string \<Rightarrow> recovery_world"

fun supervisor_step :: "platform \<Rightarrow> regex_engine \<Rightarrow> Supervisor \<Rightarrow> supervisor_event \<Rightarrow> Supervisor" where
  "supervisor_step pf rx sv (Op_spawn h now sw cw m opts) = snd (spawn h now sw cw m opts sv)"
| "supervisor_step pf rx sv (Op_exec h now sw cw m opts) = snd (nativeExecStart h now sw cw m opts sv)"
| "supervisor_step pf rx sv (Op_write_begin i data) = snd (write_begin i data sv)"
| "supervisor_step pf rx sv (Op_write_task i data v sent) = snd (write_task i data v sent sv)"
| "supervisor_step pf rx sv (Op_stop now io answer fw i) = snd (stop pf now io answer fw i sv)"
| "supervisor_step pf rx sv (Op_cleanup cw i) = snd (cleanup pf cw i sv)"
| "supervisor_step pf rx sv (Op_parent now vw p d c) = snd (cleanupByParentSession pf now vw p d c sv)"
| "supervisor_step pf rx sv (Op_get now io fw snap i) = snd (get_session pf now io fw snap i sv)"
| "supervisor_step pf rx sv (Op_wait now io j i c t) = snd (snd (wait_begin pf rx now io j i c t None sv))"
| "supervisor_step pf rx sv (Op_send_begin i data c t) = snd (sendWait_begin rx i data c t sv)"
| "supervisor_step pf rx sv (Op_send_task i v sent) = snd (sendWait_task i v sent sv)"
| "supervisor_step pf rx sv (Op_send_end now io j i c t w sent) = snd (sendWait_end pf rx now io j i c t w sent sv)"
| "supervisor_step pf rx sv (Op_settle now io r p res) = snd (settle_wait pf now io r p res sv)"
| "supervisor_step pf rx sv (Op_exit_waits now j io r) = resolveExitWaits pf rx now j io r sv"
| "supervisor_step pf rx sv (Op_output_wait now j io r p) = resolveOutputWait pf rx now j io r p sv"
| "supervisor_step pf rx sv (Op_finish now io w v t i) = snd (finishNativeInLane pf now io w v t i sv)"
| "supervisor_step pf rx sv (Op_finalize now fw c w i) = snd (finalizeNativeInLane pf now fw c w i sv)"
| "supervisor_step pf rx sv (Op_rollback now io cl m c i) = snd (rollbackNativeInLane pf now io cl m c i sv)"
| "supervisor_step pf rx sv (Op_mark now io vw) = snd (markConversationRecoveryCleanup pf now io vw sv)"
| "supervisor_step pf rx sv (Op_reconcile now n rw) = reconcileWorkers pf now n rw sv"

text \<open>Only the freshness of a generated session id is assumed.\<close>

fun supervisor_enabled :: "Supervisor \<Rightarrow> supervisor_event \<Rightarrow> bool" where
  "supervisor_enabled sv (Op_spawn h now sw cw m opts) = (map_get (sv_records sv) (js ''pty_'' @ sw_uuid sw) = None)"
| "supervisor_enabled sv (Op_exec h now sw cw m opts) = (map_get (sv_records sv) (js ''exec_'' @ sw_uuid sw) = None)"
| "supervisor_enabled sv _ = True"

lemma supervisor_step_ledger:
  assumes "ledger_ok sv" and "supervisor_enabled sv e"
  shows "ledger_ok (supervisor_step pf rx sv e)"
proof (cases e)
  case (Op_spawn h now sw cw m opts)
  with assms show ?thesis by (simp only: supervisor_step.simps supervisor_enabled.simps) (rule spawn_ledger, simp only: ledger_without_def simp_thms)
next
  case (Op_exec h now sw cw m opts)
  with assms show ?thesis by (simp only: supervisor_step.simps supervisor_enabled.simps) (rule exec_ledger, simp only: ledger_without_def simp_thms)
next
  case (Op_output_wait now j io r p)
  with assms settle_wait_ledger show ?thesis by (simp add: resolveOutputWait_def split: sum.split option.split)
next
  case (Op_exit_waits now j io r)
  with assms end_waits_ledger show ?thesis by (simp add: resolveExitWaits_def Let_def split: sum.split)
qed (use assms(1) in \<open>simp_all add: write_ledger write_task_def waiting_frame(4) stop_ledger cleanup_ledger byParent_ledger get_ledger
  wait_ledger send_begin_ledger sendWait_task_def send_end_ledger settle_wait_ledger finish_ledger finalize_ledger rollback_ledger
  markRecovery_ledger reconcileAll_ledger\<close>)

interpretation supervisor_runs: invariant_system "supervisor_step pf rx" supervisor_enabled ledger_ok for pf rx
  by unfold_locales (rule supervisor_step_ledger)

section \<open>The start of the daemon\<close>

lemma rebuild_keeps_records [simp]: "records (rebuildSlots pf g) = records g"
proof -
  have "records (fold (rebuild_record pf) rs g) = records g" for rs g
    by (induction rs arbitrary: g) (simp_all add: rebuild_record_def addActive_def addRecord_def setOutput_def Let_def updateOutput_def)
  then show ?thesis by (simp add: rebuildSlots_def)
qed

lemma keyed_set: "records_keyed g \<Longrightarrow> records_keyed (g\<lparr> records := map_set (records g) (session_id r) r \<rparr>)"
proof -
  assume k: "records_keyed g"
  have "(j, x) \<in> set (map_set m i r) \<Longrightarrow> (j, x) \<in> set m \<or> (j = i \<and> x = r)" for m :: "(js_string, SessionRecord) js_map" and i j x
    by (induction m) (auto split: if_splits)
  then have "\<forall>(j, x)\<in>set (map_set (records g) (session_id r) r). session_id x = j"
    using k unfolding records_keyed_def by fast
  with k show ?thesis by (simp add: records_keyed_def)
qed

lemma put_keyed: "records_keyed (sv_registry sv) \<Longrightarrow> records_keyed (sv_registry (put_record r sv))"
  using keyed_set by (simp add: put_record_def sv_records_def)

lemma save_keyed: "records_keyed (sv_registry sv) \<Longrightarrow> records_keyed (sv_registry (snd (save pf io r sv)))"
proof -
  assume k: "records_keyed (sv_registry sv)"
  obtain x sv' where s: "save pf io r sv = (x, sv')" by (cases "save pf io r sv")
  from save_cases [OF s] obtain disk where "sv' = put_record (refreshed_record pf r) (sv\<lparr> sv_disk := disk \<rparr>)" by blast
  with put_keyed [of "sv\<lparr> sv_disk := disk \<rparr>"] k s show ?thesis by simp
qed

lemma adopt_records:
  assumes "adopt_session pf now rm io r sv = (Inr u, sv')"
  shows "records_keyed (sv_registry sv) \<Longrightarrow> records_keyed (sv_registry sv')"
    and "map_get (sv_records sv) j \<noteq> None \<Longrightarrow> map_get (sv_records sv') j \<noteq> None"
    and "\<not> abandoned r \<Longrightarrow> map_get (sv_records sv') (session_id r) \<noteq> None"
proof -
  have save: "sv_records (snd (save pf b x s)) = map_set (sv_records s) (session_id x) (refreshed_record pf x)" for b x s
    using save_cases [OF prod.collapse [symmetric], of pf b x s] by (auto simp: sv_records_def put_record_def)
  let ?sv = "put_record r sv"
  let ?x = "\<lambda>w :: WorkerReference. (transition_or_keep pf r Event_unreachable)\<lparr> terminationConfirmed := False,
      exitReason := Some (Exit_unknown (Some (incompatible_message (decimal (wk_protocolVersion w))))), updatedAt := toISOString now \<rparr>"
  have x: "session_id (?x w) = session_id r" for w by simp
  have c: "(abandoned r \<and> sv_registry sv' = sv_registry sv) \<or> sv' = ?sv \<or> (\<exists>b w. sv' = snd (save pf b (?x w) ?sv))"
  proof (cases "abandoned r \<and> rm (session_id r)")
    case True
    with assms show ?thesis by (auto simp: adopt_session_def)
  next
    case False
    show ?thesis
    proof (cases "worker r")
      case (Some w)
      have "sv' = ?sv \<or> save pf (io (session_id r)) (?x w) ?sv = (Inr u, sv')"
        using assms unfolding adopt_session_def Let_def if_not_P [OF False] Some option.case by (simp only: prod.inject simp_thms split: if_splits)
      then show ?thesis
      proof
        assume "save pf (io (session_id r)) (?x w) ?sv = (Inr u, sv')"
        then have "sv' = snd (save pf (io (session_id r)) (?x w) ?sv)" by (simp only: snd_conv)
        then show ?thesis by - (rule disjI2, rule disjI2, rule exI [of _ "io (session_id r)"], rule exI [of _ w], assumption)
      qed (intro disjI2 disjI1)
    qed (use assms False in \<open>simp add: adopt_session_def\<close>)
  qed
  show "records_keyed (sv_registry sv) \<Longrightarrow> records_keyed (sv_registry sv')"
    using c put_keyed [of sv r] save_keyed by (elim disjE exE) auto
  show "map_get (sv_records sv') j \<noteq> None" if "map_get (sv_records sv) j \<noteq> None"
    using c
  proof (elim disjE exE)
    assume "abandoned r \<and> sv_registry sv' = sv_registry sv" with that show ?thesis by (simp add: sv_records_def)
  qed (use that in \<open>simp_all add: save x\<close>)
  show "map_get (sv_records sv') (session_id r) \<noteq> None" if "\<not> abandoned r"
    using c that by (elim disjE exE) (simp_all add: save x)
qed

lemma adopt_all_records:
  assumes "adopt_sessions pf now rm io rs sv = (Inr u, sv')"
  shows "(records_keyed (sv_registry sv) \<longrightarrow> records_keyed (sv_registry sv')) \<and>
    (\<forall>j. map_get (sv_records sv) j \<noteq> None \<longrightarrow> map_get (sv_records sv') j \<noteq> None) \<and>
    (\<forall>r\<in>set rs. \<not> abandoned r \<longrightarrow> map_get (sv_records sv') (session_id r) \<noteq> None)"
  using assms
proof (induction rs arbitrary: sv)
  case (Cons r rs)
  then obtain u1 sv1 where a: "adopt_session pf now rm io r sv = (Inr u1, sv1)" and b: "adopt_sessions pf now rm io rs sv1 = (Inr u, sv')"
    by (auto split: prod.splits sum.splits)
  have 1: "records_keyed (sv_registry sv) \<longrightarrow> records_keyed (sv_registry sv1)"
    "\<forall>j. map_get (sv_records sv) j \<noteq> None \<longrightarrow> map_get (sv_records sv1) j \<noteq> None"
    "\<not> abandoned r \<longrightarrow> map_get (sv_records sv1) (session_id r) \<noteq> None"
    using adopt_records [OF a] by blast+
  from Cons.IH [OF b] 1 show ?case by (simp only: list.set ball_simps) blast
qed simp

lemma initialize_Inr:
  assumes "initialize pf now rm io loaded sv = (Inr u, sv')" and "sv_records sv = []"
  shows "ledger_ok sv'" "\<forall>r\<in>set loaded. \<not> abandoned r \<longrightarrow> map_get (sv_records sv') (session_id r) \<noteq> None"
proof -
  from assms(1) obtain u1 sv1 where a: "adopt_sessions pf now rm io loaded sv = (Inr u1, sv1)"
    and sv': "sv' = sv1\<lparr> sv_registry := rebuildSlots pf (sv_registry sv1) \<rparr>"
    by (auto simp: initialize_def split: prod.splits sum.splits)
  have k: "records_keyed (sv_registry sv1)"
    using adopt_all_records [OF a] assms(2) by (simp add: records_keyed_def sv_records_def)
  have "map_get (records (sv_registry sv1)) i = Some r \<Longrightarrow> session_id r = i" for i r
    using k by (auto simp: records_keyed_def dest!: map_of_SomeD)
  then show "ledger_ok sv'"
    using rebuildSlots_spec(1,2) [OF k, of pf] k by (simp add: sv' ledger_ok_def sv_records_def records_keyed_def)
  show "\<forall>r\<in>set loaded. \<not> abandoned r \<longrightarrow> map_get (sv_records sv') (session_id r) \<noteq> None"
    using adopt_all_records [OF a] by (simp add: sv' sv_records_def)
qed

section \<open>Properties\<close>

text \<open>
  C5: the ledger of the daemon is exact. After the start of the daemon with any stored sessions, and
  after any sequence of operations of the supervisor with any answers of workers and any failing
  writes, the registry counts for each owner exactly the sessions of the record table that belong
  to it, and a session holds an active slot only under the owner of its record.
\<close>

theorem supervisor_ledger_exact:
  assumes "initialize pf now rm io loaded sv = (Inr u, sv0)" and "sv_records sv = []"
    and "supervisor_runs.run_enabled pf rx sv0 es"
  shows "us_records (usage (sv_registry (supervisor_runs.run pf rx sv0 es)) k) =
      card {i. \<exists>r. map_get (sv_records (supervisor_runs.run pf rx sv0 es)) i = Some r \<and> ownerKey r = k} \<and>
    (\<forall>i. map_get (slotOwnerBySessionId (sv_registry (supervisor_runs.run pf rx sv0 es))) i = Some k \<longrightarrow>
      (\<exists>r. map_get (sv_records (supervisor_runs.run pf rx sv0 es)) i = Some r \<and> ownerKey r = k \<and> session_id r = i))"
proof -
  define sv' where "sv' = supervisor_runs.run pf rx sv0 es"
  have ok: "ledger_ok sv'"
    unfolding sv'_def using supervisor_runs.run_inv [OF initialize_Inr(1) [OF assms(1,2)] assms(3)] .
  have own: "map_get (recordOwnerBySessionId (sv_registry sv')) i = Some k \<longleftrightarrow>
      (\<exists>r. map_get (sv_records sv') i = Some r \<and> ownerKey r = k)" for i
    using ok by (auto simp: ledger_ok_def)
  have "us_records (usage (sv_registry sv') k) = card {i. map_get (recordOwnerBySessionId (sv_registry sv')) i = Some k}"
    using ok set_size_card [of "recordsByOwner (sv_registry sv')" "recordOwnerBySessionId (sv_registry sv')" k]
    by (simp add: usage_def ledger_ok_def registry_inv_def recs.index_inv_def)
  moreover have "\<exists>r. map_get (sv_records sv') i = Some r \<and> ownerKey r = k \<and> session_id r = i"
    if "map_get (slotOwnerBySessionId (sv_registry sv')) i = Some k" for i
  proof -
    have "map_get (recordOwnerBySessionId (sv_registry sv')) i = Some k" using ok that unfolding ledger_ok_def registry_inv_def by blast
    then show ?thesis using own ledger_id [OF ok] by blast
  qed
  ultimately show ?thesis unfolding sv'_def [symmetric] own by blast
qed


lemma find_idempotent_Some:
  assumes "find_idempotent h opts rs = Inr (Some r)"
  shows "r \<in> set rs \<and> activeStatus r \<and> \<not> truthy (pendingCleanup r) \<and> mode r = Mode_pty \<and>
    parentSessionId r = so_parentSessionId opts \<and> h_canon h (so_ownerProjectDirectory opts) = Some (ownerProjectDirectory r) \<and>
    ownerCapabilityHash r = so_ownerCapabilityHash opts \<and> idempotencyKey r = so_idempotencyKey opts"
  using assms
  by (induction rs) (auto simp: canonicalWorkdir_def split: if_splits option.splits sum.splits)

definition matches_spawn :: "host \<Rightarrow> SpawnOptions \<Rightarrow> SessionRecord \<Rightarrow> bool" where
  "matches_spawn h opts r \<longleftrightarrow>
     activeStatus r \<and> \<not> truthy (pendingCleanup r) \<and> legacyTombstone r = None \<and> mode r = Mode_pty \<and>
     parentSessionId r = so_parentSessionId opts \<and> h_canon h (so_ownerProjectDirectory opts) = Some (ownerProjectDirectory r) \<and>
     ownerCapabilityHash r = so_ownerCapabilityHash opts \<and>
     h_canon h (nullish (so_workdir opts) (so_ownerProjectDirectory opts)) = Some (workdir r) \<and>
     idempotencyKey r = so_idempotencyKey opts"

lemma find_idempotent_found: "r \<in> set rs \<Longrightarrow> matches_spawn h opts r \<Longrightarrow> \<exists>x. find_idempotent h opts rs = Inr (Some x)"
  by (induction rs) (auto simp: matches_spawn_def canonicalWorkdir_def)

lemma idempotent_Some:
  assumes "idempotentSession h opts as sv = Inr (Some r)"
  shows "r \<in> set (map_values (sv_records sv)) \<and> activeStatus r \<and> \<not> truthy (pendingCleanup r) \<and>
    parentSessionId r = so_parentSessionId opts \<and> h_canon h (so_ownerProjectDirectory opts) = Some (ownerProjectDirectory r) \<and>
    ownerCapabilityHash r = so_ownerCapabilityHash opts \<and> idempotencyKey r = so_idempotencyKey opts \<and>
    (\<exists>env. sessionEnvironment h opts = Inr env \<and> same_specification opts as (sessionProfile h opts env) r)"
  using assms find_idempotent_Some [of h opts "map_values (sv_records sv)" r]
  by (auto simp: idempotentSession_def split: if_splits sum.splits option.splits)

text \<open>
  C31: spawning twice with one idempotency key starts one session. While an active session of the
  same owner, project, capability, directory and key exists, \<open>spawn\<close> changes nothing: it answers
  with an active session of that same owner and key that has the requested command, arguments,
  environment, name and time limit, or with an error.
\<close>

theorem spawn_idempotent:
  assumes r: "r \<in> set (map_values (sv_records sv))" "matches_spawn h opts r" and key: "truthy_text (so_idempotencyKey opts) \<noteq> None"
    and s: "spawn h now sw cw m opts sv = (res, sv')"
  shows "sv' = sv \<and> (\<forall>info. res = Inr info \<longrightarrow>
    (\<exists>r'. r' \<in> set (map_values (sv_records sv)) \<and> info = toInfo r' \<and> activeStatus r' \<and>
      parentSessionId r' = so_parentSessionId opts \<and> ownerProjectDirectory r' = ownerProjectDirectory r \<and>
      ownerCapabilityHash r' = so_ownerCapabilityHash opts \<and> idempotencyKey r' = so_idempotencyKey opts \<and>
      command r' = so_command opts \<and> args r' = nullish (so_args opts) [] \<and> session_name r' = so_name opts \<and>
      timeoutSeconds r' = so_timeoutSeconds opts \<and>
      (\<exists>env. sessionEnvironment h opts = Inr env \<and> env_fingerprint (environment r') = h_fingerprint h env)))"
proof -
  have found: "idempotentSession h opts (nullish (so_args opts) []) sv \<noteq> Inr None"
    using find_idempotent_found [OF r] key by (auto simp: idempotentSession_def split: sum.splits if_splits)
  show ?thesis
  proof (cases "\<exists>r'. idempotentSession h opts (nullish (so_args opts) []) sv = Inr (Some r') \<and> res = Inr (toInfo r')")
    case True
    then obtain r' where i: "idempotentSession h opts (nullish (so_args opts) []) sv = Inr (Some r')" and res: "res = Inr (toInfo r')" by blast
    have "sv' = sv" using s i by (auto simp: spawn_def flushed_def split: sum.splits if_splits)
    moreover have "ownerProjectDirectory r' = ownerProjectDirectory r"
      using idempotent_Some [OF i] r(2) by (simp add: matches_spawn_def)
    ultimately show ?thesis
      using idempotent_Some [OF i] res by (auto simp: same_specification_def sessionProfile_def environmentProfile_def)
  next
    case False
    with s found show ?thesis by (auto simp: spawn_def flushed_def split: sum.splits if_splits option.splits)
  qed
qed

text \<open>
  A failed write of a wait result stops the daemon. When a wait is answered and the write of its
  result fails, the queue of writes stays rejected: from then on every operation on every session
  of every owner fails with that error and changes nothing.
\<close>

theorem failed_wait_write_blocks_daemon:
  assumes w: "wait_begin pf rx now False j i c t None sv = (x, w', sv')"
    and p: "sv_persist sv = Inr ()" "validateWait rx c t = Inr ()"
    and r: "map_get (sv_records sv) i = Some r" "\<not> truthy (pendingCleanup r)" "status r \<noteq> St_lost"
    and m: "waitMatch rx now j r c sv = Inr (Some m)"
  shows "\<exists>e. x = Inl e \<and> write_begin i' data sv' = (Inl e, sv') \<and> resize i' answer sv' = (Inl e, sv') \<and>
    stop pf now2 io a fw i' sv' = (Inl e, sv') \<and> cleanup pf cw i' sv' = (Inl e, sv') \<and>
    wait_begin pf rx now2 io2 j2 i' c2 t2 None sv' = (Inl e, None, sv') \<and>
    sendWait_begin rx i' data c2 t2 sv' = (Inl e, sv') \<and> spawn h now2 sw cws lim opts sv' = (Inl e, sv') \<and>
    nativeExecStart h now2 sw cws lim opts sv' = (Inl e, sv') \<and> list_sessions sv' = (Inl e, sv') \<and>
    get_session pf now2 ios fw snap i' sv' = (Inl e, sv')"
proof -
  have "\<exists>e. fst (finishWait pf now False r m sv) = Inl e \<and> sv_persist (snd (finishWait pf now False r m sv)) = Inl e"
    by (simp add: finishWait_def writeSession_def Let_def)
  then obtain e where "x = Inl e" "sv_persist sv' = Inl e"
    using w p r m by (auto simp: wait_begin_def recordFor_def done_wait_def)
  then show ?thesis
    by (simp add: write_begin_def resize_def stop_def cleanup_def wait_begin_def sendWait_begin_def spawn_def
        nativeExecStart_def list_sessions_def get_session_def flushed_def)
qed

lemma usage_records [simp]: "usage (records_update f g) k = usage g k"
  by (simp add: usage_def)

lemma failed_first_write_usage:
  assumes l: "launch pf now sw m r sv = (Inl e, sv')" and ok: "ledger_without (session_id r) sv"
    and rv: "reserve pf (sv_registry sv) r m = Inr (rv, g)"
    and s: "save_as pf (sw_first_write sw) r (put_record r (sv\<lparr> sv_registry := g \<rparr>)) = (Inl z, r1, sv1)"
  shows "usage (sv_registry sv') k = usage (sv_registry sv) k"
proof -
  obtain y where sy: "save pf (sw_first_write sw) r (put_record r (sv\<lparr> sv_registry := g \<rparr>)) = (y, sv1)"
    using save_as_shape(4) [OF s] by blast
  have i: "rs_id rv = session_id r" using reserve_Inr(2) [OF rv] by simp
  have "\<exists>f. sv_registry sv1 = g\<lparr> records := f \<rparr>" using save_cases [OF sy] by (auto simp: put_record_def)
  then obtain f where f: "sv_registry sv1 = g\<lparr> records := f \<rparr>" by blast
  have "sv_registry sv' = (release g (session_id r))\<lparr> records := map_delete (sv_records sv1) (session_id r) \<rparr>"
    using l rv s i by (auto simp: launch_def releaseReservation_def release_records f)
  moreover have "registry_inv (sv_registry sv)" "map_get (recordOwnerBySessionId (sv_registry sv)) (session_id r) = None"
    using ok by (simp_all add: ledger_without_def ledger_ok_def)
  ultimately show ?thesis using release_reserved_usage rv by simp
qed

lemma written_ledger:
  assumes ok: "ledger_without (session_id r) sv" and rv: "reserve pf (sv_registry sv) r m = Inr (rv, g)"
    and s: "save_as pf w r (put_record r (sv\<lparr> sv_registry := g \<rparr>)) = (x, r1, sv1)"
  shows "ledger_ok sv1"
proof -
  have "ledger_ok (put_record r (sv\<lparr> sv_registry := g \<rparr>))"
    using ok reserve_ledger rv by (simp add: ledger_without_def)
  moreover have "observes (put_record r (sv\<lparr> sv_registry := g \<rparr>)) sv1" using obs.save_as_R [OF s, of r] by (simp add: tracks_def)
  ultimately show ?thesis using observes_ledger by blast
qed

text \<open>
  A failed spawn loses no process and no quota. However a spawn fails, the ledger stays exact.
  If the failure leaves no record of the session, then either every quota is as it was before the
  spawn, or the worker client has reported that no worker process was created; in every other case
  the record is kept for the recovery.
\<close>

theorem failed_spawn_accounted:
  assumes l: "launch pf now sw m r sv = (Inl e, sv')" and ok: "ledger_without (session_id r) sv"
  shows "ledger_ok sv' \<and>
    (map_get (sv_records sv') (session_id r) = None \<longrightarrow>
      (\<forall>k. usage (sv_registry sv') k = usage (sv_registry sv) k) \<or>
      (\<exists>r1 sv1 err prepared r2 sv2. start_worker pf now sw r1 sv1 = (Inl (err, prepared), r2, sv2) \<and> no_worker_spawned err))"
proof (intro conjI impI launch_ledger [OF l ok])
  assume gone: "map_get (sv_records sv') (session_id r) = None"
  show "(\<forall>k. usage (sv_registry sv') k = usage (sv_registry sv) k) \<or>
      (\<exists>r1 sv1 err prepared r2 sv2. start_worker pf now sw r1 sv1 = (Inl (err, prepared), r2, sv2) \<and> no_worker_spawned err)"
  proof (cases "reserve pf (sv_registry sv) r m")
    case (Inl x)
    with l show ?thesis by (simp add: launch_def)
  next
    case (Inr p)
    obtain rv g where p: "p = (rv, g)" by (cases p)
    let ?sv = "put_record r (sv\<lparr> sv_registry := g \<rparr>)"
    obtain x r1 sv1 where s: "save_as pf (sw_first_write sw) r ?sv = (x, r1, sv1)" by (cases "save_as pf (sw_first_write sw) r ?sv")
    note t = save_as_shape(2,3) [OF s]
    show ?thesis
    proof (cases x)
      case (Inl z)
      show ?thesis using failed_first_write_usage [OF l ok Inr [unfolded p] s [unfolded Inl]] by blast
    next
      case (Inr x')
      obtain z r2 sv2 where w: "start_worker pf now sw r1 sv1 = (z, r2, sv2)" by (cases "start_worker pf now sw r1 sv1")
      have r2: "tracks r2 sv2" "same_session r r2" using obs.start_worker_R [OF w t(1)] t(2) same_session_trans by blast+
      obtain err b where z: "z = Inl (err, b)" and f: "start_failed pf now sw err b r2 sv2 = (Inl e, sv')"
        using l \<open>reserve pf (sv_registry sv) r m = Inr p\<close> p s Inr w by (auto simp: launch_def split: sum.splits prod.splits)
      obtain sv3 where o: "observes sv2 sv3" and
        c: "sv' = sv3 \<or> no_worker_spawned err \<and> (\<exists>x. deleteNativeSession (sw_rm_ok sw) (session_id r2) sv3 = (x, sv'))"
        using start_failed_steps [OF f r2(1)] by blast
      have ok1: "ledger_ok sv1" using written_ledger [OF ok _ s] \<open>reserve pf (sv_registry sv) r m = Inr p\<close> p by blast
      have "ledger_ok sv2" using obs.start_worker_R [OF w t(1)] ok1 observes_ledger by blast
      then have "map_option ownerKey (map_get (sv_records sv3) (session_id r)) = Some (ownerKey r2)"
        using o r2 by (auto simp: observes_def same_owners_def tracks_def same_session_def)
      then have "map_get (sv_records sv3) (session_id r) \<noteq> None" by auto
      with gone c w z show ?thesis by blast
    qed
  qed
qed

section \<open>Instances\<close>

lemma sample_not_abandoned: "\<not> abandoned (sample_session\<lparr> workerPrestart := Some a \<rparr>)"
  by (simp add: abandoned_def noChildSpawnFailure_def)

definition sample_authority :: WorkerPrestartAuthority where
  "sample_authority = \<lparr> pa_workerId = js ''w'', pa_tokenFingerprint = js ''f'', pa_protocolVersion = 5 \<rparr>"

definition loaded_session :: SessionRecord where
  "loaded_session = sample_session\<lparr> workerPrestart := Some sample_authority \<rparr>"

definition restarted :: "Supervisor" where
  "restarted = (let sv = put_record loaded_session (new_supervisor DEFAULT_SESSION_LIMITS)
     in sv\<lparr> sv_registry := rebuildSlots Linux (sv_registry sv) \<rparr>)"

lemma sample_initialize:
  "initialize Linux 9 (\<lambda>_. True) (\<lambda>_. True) [loaded_session] (new_supervisor DEFAULT_SESSION_LIMITS) = (Inr (), restarted)"
  by (simp add: initialize_def adopt_session_def loaded_session_def sample_not_abandoned restarted_def Let_def)
     (simp add: sample_session_def sample_record_def)

lemma sample_no_records: "sv_records (new_supervisor DEFAULT_SESSION_LIMITS) = []"
  by (simp add: new_supervisor_def sv_records_def new_registry_def)

theorem supervisor_ledger_exact_witness:
  "us_records (usage (sv_registry (supervisor_runs.run Linux no_regex restarted [Op_cleanup idle_world (js ''x'')])) (ownerKey loaded_session)) =
     card {i. \<exists>r. map_get (sv_records (supervisor_runs.run Linux no_regex restarted [Op_cleanup idle_world (js ''x'')])) i = Some r \<and>
       ownerKey r = ownerKey loaded_session}"
  using supervisor_ledger_exact [OF sample_initialize sample_no_records, of no_regex "[Op_cleanup idle_world (js ''x'')]" "ownerKey loaded_session"]
  by simp


definition keyed_session :: SessionRecord where
  "keyed_session = running_session\<lparr> idempotencyKey := Some (js ''build'') \<rparr>"

definition keyed_options :: SpawnOptions where
  "keyed_options =
     \<lparr> so_command = js ''make'', so_args = Some [js ''all''], so_description = None, so_workdir = None, so_env = None,
       so_title = None, so_parentSessionId = js ''ses_1'', so_parentAgent = None, so_timeoutSeconds = None, so_name = None,
       so_idempotencyKey = Some (js ''build''), so_inheritEnv = None, so_lifecycle = None, so_maxOutputBytes = None,
       so_ownerProjectDirectory = js ''/w'', so_ownerCapabilityHash = js ''ab'' \<rparr>"

definition sample_host :: host where
  "sample_host =
     \<lparr> h_platform = Linux, h_windows = False, h_upper = (\<lambda>s. s), h_source = [], h_canon = Some,
       h_fingerprint = (\<lambda>_. js ''f''), h_maxOutputBytes = 1000 \<rparr>"

definition failing_start :: start_world where
  "failing_start =
     \<lparr> sw_uuid = js ''u'', sw_first_write = False, sw_prepare = Prepare_refused (Start_plain []), sw_authority_write = False,
       sw_reference_write = False, sw_attempted_write = False, sw_start = Inl (Start_plain []), sw_client = 0,
       sw_ready_write = False, sw_rollback = Inl [], sw_failure_write = False, sw_rm_ok = False \<rparr>"

theorem spawn_idempotent_witness:
  "snd (spawn sample_host 9 failing_start (\<lambda>_. idle_world) 32 keyed_options (sample_supervisor keyed_session)) =
   sample_supervisor keyed_session"
proof -
  have "(session_id keyed_session, keyed_session) \<in> set (sv_records (sample_supervisor keyed_session))"
    using sample_lookup [of keyed_session] by (rule map_of_SomeD)
  then have "keyed_session \<in> set (map_values (sv_records (sample_supervisor keyed_session)))" by force
  moreover have "matches_spawn sample_host keyed_options keyed_session"
    by (simp add: matches_spawn_def sample_host_def keyed_options_def keyed_session_def running_session_def sample_record_def
        activeStatus_def isActiveDaemonStatus_def)
  moreover have "truthy_text (so_idempotencyKey keyed_options) \<noteq> None"
    by (simp add: truthy_text_def keyed_options_def)
  ultimately show ?thesis using spawn_idempotent [OF _ _ _ prod.collapse [symmetric]] by blast
qed

theorem failed_wait_write_blocks_daemon_witness:
  "\<exists>e sv'. wait_begin Linux no_regex 7 False sample_journal (session_id sample_session) ok_wait 5 None stored_supervisor =
      (Inl e, None, sv') \<and> list_sessions sv' = (Inl e, sv')"
proof -
  have v: "validateWait no_regex ok_wait 5 = Inr ()"
    by (simp add: validateWait_def ok_wait_def truthy_text_def MAX_EXEC_RUNTIME_SECONDS_def high_surrogate_def low_surrogate_def
        unit_bytes_def)
  have m: "waitMatch no_regex 7 sample_journal sample_session ok_wait stored_supervisor = Inr (Some ok_result)"
    using sample_output_text [of stored_supervisor]
    by (simp add: waitMatch_def ok_wait_def truthy_text_def scoped_output_def ok_result_def Let_def)
  have r: "\<not> truthy (pendingCleanup sample_session)" "status sample_session \<noteq> St_lost"
    by (simp_all add: sample_session_def sample_record_def)
  obtain x w sv' where w: "wait_begin Linux no_regex 7 False sample_journal (session_id sample_session) ok_wait 5 None stored_supervisor = (x, w, sv')"
    by (cases "wait_begin Linux no_regex 7 False sample_journal (session_id sample_session) ok_wait 5 None stored_supervisor")
  have "w = None" using w v m r by (auto simp: wait_begin_def recordFor_def done_wait_def)
  moreover obtain e where "x = Inl e" "list_sessions sv' = (Inl e, sv')"
    by (rule exE [OF failed_wait_write_blocks_daemon [OF w stored_supervisor_sel(2) v stored_supervisor_sel(1) r m]])
       (elim conjE, rule that)
  ultimately show ?thesis using w by blast
qed

theorem failed_spawn_accounted_witness:
  "\<exists>e sv'. launch Linux 9 failing_start 32 sample_session (new_supervisor DEFAULT_SESSION_LIMITS) = (Inl e, sv') \<and> ledger_ok sv'"
proof -
  let ?sv = "new_supervisor DEFAULT_SESSION_LIMITS"
  have w: "ledger_without (session_id sample_session) ?sv"
    by (simp add: ledger_without_def new_supervisor_ledger sample_no_records)
  have "sv_registry ?sv = new_registry DEFAULT_SESSION_LIMITS" by (simp add: new_supervisor_def)
  moreover have "\<exists>e. fst (save_as Linux False r s) = Inl e" for r s
    by (simp add: save_as_def save_def writeSession_def Let_def)
  ultimately have "\<exists>e. fst (launch Linux 9 failing_start 32 sample_session ?sv) = Inl e"
    by (simp add: launch_def stored_reserve failing_start_def split: prod.split sum.split) (metis fst_conv sum.distinct(1))
  then obtain e sv' where l: "launch Linux 9 failing_start 32 sample_session ?sv = (Inl e, sv')" by (metis prod.collapse)
  from failed_spawn_accounted [OF l w] l show ?thesis by blast
qed

end
