(* ===== verification/Daemon_Server.thy ===== *)
theory Daemon_Server
  imports Supervisor_Runs
begin

text \<open>
  The server over its supervisor (daemon/server.ts, daemon/supervisor.ts): what each validated request does to the state of the
  daemon, the remaining operations of the supervisor (reading, waiting for a command, watching a worker), and runs of the daemon under
  requests of any clients. The lane operations are taken at the relation of touching only certain sessions, which gives
  the theorems on owners.
\<close>

section \<open>Reading sessions\<close>

definition journal_failure :: "(journal_error, 'a) result \<Rightarrow> (sup_error, 'a) result" where
  "journal_failure res = (case res of Inl (InvalidJournal m) \<Rightarrow> Inl (Sup_storage (js m)) | Inr x \<Rightarrow> Inr x)"

text \<open>\<open>j\<close> is the journal of the session, which the reader opens after a flush.\<close>

definition read_session ::
  "journal \<Rightarrow> js_string \<Rightarrow> nat option \<Rightarrow> nat option \<Rightarrow> nat option \<Rightarrow> Supervisor \<Rightarrow> (sup_error, ReadResult) result" where
  "read_session j i off lim sq sv =
     and_then (recordFor sv i) (\<lambda>r.
     and_then (sv_persist sv) (\<lambda>_. journal_failure (reader_read j r (int (nullish off 0)) lim sq)))"

definition search_session ::
  "(js_string \<Rightarrow> js_string) \<Rightarrow> journal \<Rightarrow> js_string \<Rightarrow> js_string \<Rightarrow> bool \<Rightarrow> nat option \<Rightarrow> nat option \<Rightarrow> nat option \<Rightarrow> Supervisor \<Rightarrow>
   (sup_error, SearchResult) result" where
  "search_session lower j i pat ic off lim sq sv =
     and_then (recordFor sv i) (\<lambda>r.
     and_then (sv_persist sv) (\<lambda>_. journal_failure (reader_search lower j r pat ic (int (nullish off 0)) lim sq)))"

definition rawOutput :: "journal \<Rightarrow> js_string \<Rightarrow> Supervisor \<Rightarrow> (sup_error, raw_output option) result" where
  "rawOutput j i sv =
     and_then (sv_persist sv) (\<lambda>_.
       case map_get (sv_records sv) i of
         None \<Rightarrow> Inr None
       | Some r \<Rightarrow> and_then (journal_failure (reader_raw j r)) (\<lambda>x. Inr (Some x)))"

definition quotaUsage :: "js_string \<Rightarrow> js_string \<Rightarrow> js_string \<Rightarrow> Supervisor \<Rightarrow> SessionUsage \<times> SessionUsage" where
  "quotaUsage parent dir cap sv = (usageFor (sv_registry sv) parent dir cap, totalUsage (sv_registry sv))"

definition quotaLimits :: "Supervisor \<Rightarrow> SessionLimits" where
  "quotaLimits sv = limits (sv_registry sv)"

section \<open>Waiting for a command\<close>

definition EXEC_TERMINAL_WAIT_SECONDS :: nat where
  "EXEC_TERMINAL_WAIT_SECONDS = MAX_EXEC_WAIT_SECONDS - MAX_EXEC_RUNTIME_SECONDS"

text \<open>
  \<open>nativeExecWait\<close> up to its first wait, from there to its second one, and \<open>execWait_end\<close> after that. The record
  is looked up once and kept; \<open>r\<close> is the object the caller holds.
\<close>

definition execWait_begin ::
  "platform \<Rightarrow> regex_engine \<Rightarrow> int \<Rightarrow> bool \<Rightarrow> journal \<Rightarrow> js_string \<Rightarrow> nat \<Rightarrow> Supervisor \<Rightarrow> (sup_error, wait_outcome) result \<times> Supervisor" where
  "execWait_begin pf rx now io j i t sv =
     (if t = 0 \<or> t > MAX_EXEC_WAIT_SECONDS
      then (Inl (Sup_plain (js ''timeoutSeconds must be a positive integer up to 3605 for exec wait'')), sv)
      else case recordFor sv i of
        Inl e \<Rightarrow> (Inl e, sv)
      | Inr r \<Rightarrow>
          if mode r \<noteq> Mode_exec
          then (Inl (Sup_plain (js ''Session '' @ [39] @ i @ [39] @ js '' is not an exec session.'')), sv)
          else (case wait_begin pf rx now io j i Wait_exit (int (min t MAX_EXEC_RUNTIME_SECONDS)) None sv of
            (res, _, sv1) \<Rightarrow> (res, sv1)))"

definition execWait_deadline ::
  "platform \<Rightarrow> regex_engine \<Rightarrow> int \<Rightarrow> bool \<times> bool \<Rightarrow> journal \<Rightarrow> (js_string, WorkerSnapshot) result \<Rightarrow> final_world \<Rightarrow>
   SessionRecord \<Rightarrow> wait_reason \<Rightarrow> js_string \<Rightarrow> Supervisor \<Rightarrow> (sup_error, wait_outcome option) result \<times> Supervisor" where
  "execWait_deadline pf rx now io j answer fw r reason i sv =
     (if reason = By_deadline \<and> activeStatus (held_record r sv)
      then (case stop pf now (fst io) answer fw i sv of
          (Inl e, sv1) \<Rightarrow> (Inl e, sv1)
        | (Inr _, sv1) \<Rightarrow>
            (case wait_begin pf rx now (snd io) j i Wait_exit (int EXEC_TERMINAL_WAIT_SECONDS) None sv1 of
               (Inl e, _, sv2) \<Rightarrow> (Inl e, sv2) | (Inr x, _, sv2) \<Rightarrow> (Inr (Some x), sv2)))
      else (Inr None, sv))"

definition exec_wait_seconds :: "SpawnOptions \<Rightarrow> nat" where
  "exec_wait_seconds opts = min (nullish (so_timeoutSeconds opts) 0 + EXEC_TERMINAL_WAIT_SECONDS) MAX_EXEC_WAIT_SECONDS"

section \<open>Watching a worker\<close>

text \<open>
  One turn of \<open>monitorNative\<close>: the answer of the worker \<open>h\<close> to the wait, and whether the watch goes on. Every
  way out of the inner loop ends the watch, so the condition of the outer one is checked only at the start.
\<close>

definition monitor_failed ::
  "platform \<Rightarrow> int \<Rightarrow> bool \<Rightarrow> SpawnCleanup \<Rightarrow> js_string \<Rightarrow> nat \<Rightarrow> js_string \<Rightarrow> Supervisor \<Rightarrow> bool \<times> Supervisor" where
  "monitor_failed pf now io cl m h i sv =
     (if attached sv i \<noteq> Some h then (False, sv) else (False, snd (rollbackNativeInLane pf now io cl m h i sv)))"

definition monitorNative ::
  "platform \<Rightarrow> int \<Rightarrow> bool \<times> bool \<Rightarrow> final_world \<Rightarrow> bool \<Rightarrow> SpawnCleanup \<Rightarrow> js_string \<Rightarrow> nat \<Rightarrow>
   (sup_error, WorkerSnapshot) result \<Rightarrow> js_string \<Rightarrow> Supervisor \<Rightarrow> bool \<times> Supervisor" where
  "monitorNative pf now io fw io_rollback cl m h answer i sv =
     (case answer of
        Inl _ \<Rightarrow> monitor_failed pf now io_rollback cl m h i sv
      | Inr w \<Rightarrow>
          if nativeTerminal pf w then
            (case finalizeNativeInLane pf now fw h w i sv of
               (Inl _, sv1) \<Rightarrow> monitor_failed pf now io_rollback cl m h i sv1
             | (Inr _, sv1) \<Rightarrow> (False, sv1))
          else
            (case finishNativeInLane pf now io w (version (sv_router sv) i) False i sv of
               (Inl _, sv1) \<Rightarrow> monitor_failed pf now io_rollback cl m h i sv1
             | (Inr _, sv1) \<Rightarrow> (True, sv1)))"

section \<open>The server\<close>

text \<open>What the daemon keeps: the supervisor, the approvals and the input budgets of the owners.\<close>

record daemon =
  dm_supervisor :: Supervisor
  dm_approvals :: approval_state
  dm_inputUsage :: input_usage

record DaemonDiagnostics =
  dg_pid :: int
  dg_protocolVersion :: nat
  dg_maxSessionsPerOwner :: nat
  dg_quotas :: SessionLimits
  dg_maxInputBytes :: nat
  dg_maxInputBytesPerMinute :: nat
  dg_maxOutputBytes :: nat
  dg_maxExecRuntimeSeconds :: nat
  dg_owner_usage :: SessionUsage
  dg_global_usage :: SessionUsage
  dg_inheritEnabled :: bool
  dg_defaultProfile :: js_string
  dg_nativeContainment :: bool
  dg_processTreeTermination :: bool
  dg_ptyContainment :: bool
  dg_containmentVerification :: js_string

text \<open>What a request meets outside: the clock, fresh identifiers, answers of workers, and outcomes of writes.\<close>

record request_world =
  rw_now :: int
  rw_pid :: int
  rw_fresh :: js_string
  rw_host :: host
  rw_lower :: "js_string \<Rightarrow> js_string"
  rw_start :: start_world
  rw_expired :: "js_string \<Rightarrow> cleanup_world"
  rw_cleanup :: cleanup_world
  rw_conversations :: "js_string \<Rightarrow> conversation_world"
  rw_writes :: "bool \<times> bool"
  rw_final :: final_world
  rw_snapshot :: "(sup_error, WorkerSnapshot) result"
  rw_stop :: "(js_string, WorkerSnapshot) result"
  rw_resize :: "(js_string, nat \<times> nat) result"
  rw_journal :: journal

datatype served =
    Served_health int nat
  | Served_diagnostics DaemonDiagnostics
  | Served_session PTYSessionInfo
  | Served_exec ExecStart nat
  | Served_started ExecStart
  | Served_wait wait_outcome
  | Served_input InputReservation
  | Served_send WaitReservation InputReservation
  | Served_size nat nat
  | Served_page ReadResult
  | Served_matches SearchResult
  | Served_sessions "PTYSessionInfo list"
  | Served_found "PTYSessionInfo option"
  | Served_raw "raw_output option"
  | Served_exec_output "ExecOutput option"
  | Served_stop StopResult
  | Served_cleanup bool
  | Served_done
  | Served_approval approval_result

datatype serve_error =
    Request_refused rpc_error
  | Session_failed sup_error
  | Approval_failed daemon_error

definition server_diagnostics :: "nat \<Rightarrow> request_world \<Rightarrow> OwnerContext \<Rightarrow> Supervisor \<Rightarrow> (serve_error, DaemonDiagnostics) result" where
  "server_diagnostics maxSessionsPerOwner rw ow sv =
     (if ow_parentSessionId ow = [] then Inl (Request_refused not_authorized)
      else
        (let pf = h_platform (rw_host rw); contained = pf = Linux \<or> pf = Win32;
             (mine, all) = quotaUsage (ow_parentSessionId ow) (ow_projectDirectory ow) (ow_capability ow) sv
         in Inr \<lparr> dg_pid = rw_pid rw, dg_protocolVersion = DAEMON_PROTOCOL_VERSION,
           dg_maxSessionsPerOwner = maxSessionsPerOwner, dg_quotas = quotaLimits sv, dg_maxInputBytes = MAX_INPUT_BYTES,
           dg_maxInputBytesPerMinute = MAX_INPUT_BYTES_PER_MINUTE, dg_maxOutputBytes = h_maxOutputBytes (rw_host rw),
           dg_maxExecRuntimeSeconds = MAX_EXEC_RUNTIME_SECONDS, dg_owner_usage = mine, dg_global_usage = all,
           dg_inheritEnabled = True, dg_defaultProfile = js ''safe'', dg_nativeContainment = contained,
           dg_processTreeTermination = contained, dg_ptyContainment = contained,
           dg_containmentVerification = (if pf = Linux then js ''linux_proc'' else if pf = Win32 then js ''windows_job''
             else js ''unavailable'') \<rparr>))"

text \<open>The handlers of \<open>spawn\<close>, \<open>exec\<close> and \<open>execStart\<close>; the options already name the owner (\<open>for_owner\<close>).\<close>

definition on_supervisor ::
  "('a \<Rightarrow> served) \<Rightarrow> (sup_error, 'a) result \<times> Supervisor \<Rightarrow> (serve_error, served) result \<times> Supervisor" where
  "on_supervisor f res = (case fst res of Inl e \<Rightarrow> Inl (Session_failed e) | Inr x \<Rightarrow> Inr (f x), snd res)"

definition serve_spawn :: "nat \<Rightarrow> request_world \<Rightarrow> SpawnOptions \<Rightarrow> Supervisor \<Rightarrow> (serve_error, served) result \<times> Supervisor" where
  "serve_spawn m rw opts sv = on_supervisor Served_session (spawn (rw_host rw) (rw_now rw) (rw_start rw) (rw_expired rw) m opts sv)"

definition serve_exec :: "nat \<Rightarrow> request_world \<Rightarrow> SpawnOptions \<Rightarrow> Supervisor \<Rightarrow> (serve_error, served) result \<times> Supervisor" where
  "serve_exec m rw opts sv = on_supervisor (\<lambda>s. Served_exec s (exec_wait_seconds opts))
     (nativeExecStart (rw_host rw) (rw_now rw) (rw_start rw) (rw_expired rw) m opts sv)"

definition serve_execStart :: "nat \<Rightarrow> request_world \<Rightarrow> SpawnOptions \<Rightarrow> Supervisor \<Rightarrow> (serve_error, served) result \<times> Supervisor" where
  "serve_execStart m rw opts sv = on_supervisor Served_started
     (nativeExecStart (rw_host rw) (rw_now rw) (rw_start rw) (rw_expired rw) m opts sv)"

definition serve_list :: "OwnerContext \<Rightarrow> Supervisor \<Rightarrow> (serve_error, served) result \<times> Supervisor" where
  "serve_list ow sv =
     (case list_sessions sv of
        (Inl e, sv1) \<Rightarrow> (Inl (Session_failed e), sv1)
      | (Inr infos, sv1) \<Rightarrow> (Inr (Served_sessions (filter (\<lambda>x. owns (sv_registry sv1) (pi_id x) ow) infos)), sv1))"

text \<open>
  What the handlers do once the request is validated. The answers of \<open>write\<close>, \<open>wait\<close>, \<open>sendWait\<close>, \<open>exec\<close> and \<open>execWait\<close> come after further
  steps of the supervisor; here they are what the first step gives.
\<close>

fun session_call ::
  "regex_engine \<Rightarrow> nat \<Rightarrow> request_world \<Rightarrow> rpc_call \<Rightarrow> Supervisor \<Rightarrow> (serve_error, served) result \<times> Supervisor" where
  "session_call rx m rw Call_health sv = (Inr (Served_health (rw_pid rw) DAEMON_PROTOCOL_VERSION), sv)"
| "session_call rx m rw (Call_diagnostics ow) sv =
     (case server_diagnostics m rw ow sv of Inl e \<Rightarrow> Inl e | Inr d \<Rightarrow> Inr (Served_diagnostics d), sv)"
| "session_call rx m rw (Call_spawn opts) sv = serve_spawn m rw opts sv"
| "session_call rx m rw (Call_exec opts) sv = serve_exec m rw opts sv"
| "session_call rx m rw (Call_execStart opts) sv = serve_execStart m rw opts sv"
| "session_call rx m rw (Call_execWait i t) sv =
     on_supervisor Served_wait
       (execWait_begin (h_platform (rw_host rw)) rx (rw_now rw) (fst (rw_writes rw)) (rw_journal rw) i t sv)"
| "session_call rx m rw (Call_write i data) sv = on_supervisor Served_input (write_begin i data sv)"
| "session_call rx m rw (Call_resize i cols rows) sv = on_supervisor (\<lambda>(c, r). Served_size c r) (resize i (rw_resize rw) sv)"
| "session_call rx m rw (Call_wait i c t) sv =
     (case wait_begin (h_platform (rw_host rw)) rx (rw_now rw) (fst (rw_writes rw)) (rw_journal rw) i c (int t) None sv of
        (res, _, sv1) \<Rightarrow> on_supervisor Served_wait (res, sv1))"
| "session_call rx m rw (Call_sendWait i data c t) sv =
     on_supervisor (\<lambda>(w, v). Served_send w v) (sendWait_begin rx i data c (int t) sv)"
| "session_call rx m rw (Call_read i off lim sq) sv = on_supervisor Served_page (read_session (rw_journal rw) i off lim sq sv, sv)"
| "session_call rx m rw (Call_search i pat ic off lim sq) sv =
     on_supervisor Served_matches (search_session (rw_lower rw) (rw_journal rw) i pat ic off lim sq sv, sv)"
| "session_call rx m rw (Call_list ow) sv = serve_list ow sv"
| "session_call rx m rw (Call_get i) sv =
     on_supervisor Served_found
       (get_session (h_platform (rw_host rw)) (rw_now rw) (rw_writes rw) (rw_final rw) (rw_snapshot rw) i sv)"
| "session_call rx m rw (Call_rawOutput i) sv = on_supervisor Served_raw (rawOutput (rw_journal rw) i sv, sv)"
| "session_call rx m rw (Call_execOutput i) sv =
     on_supervisor Served_exec_output
       (execOutput_of (h_platform (rw_host rw)) (rw_now rw) (rw_writes rw) (rw_final rw) (rw_snapshot rw) i sv)"
| "session_call rx m rw (Call_stop i) sv =
     on_supervisor Served_stop
       (stop (h_platform (rw_host rw)) (rw_now rw) (fst (rw_writes rw)) (rw_stop rw) (rw_final rw) i sv)"
| "session_call rx m rw (Call_cleanup i) sv = on_supervisor Served_cleanup (cleanup (h_platform (rw_host rw)) (rw_cleanup rw) i sv)"
| "session_call rx m rw (Call_cleanupByParentSession parent dir cap) sv =
     on_supervisor (\<lambda>_. Served_done)
       (cleanupByParentSession (h_platform (rw_host rw)) (rw_now rw) (rw_conversations rw) parent dir cap sv)"
| "session_call rx m rw (Call_approval ow op) sv = (Inr Served_done, sv)"
| "session_call rx m rw (Call_approvalWait ow i deadline) sv = (Inr Served_done, sv)"

definition on_approvals ::
  "(daemon_error, approval_result) result \<times> approval_state \<Rightarrow> daemon \<Rightarrow> (serve_error, served) result \<times> daemon" where
  "on_approvals res d =
     (case fst res of Inl e \<Rightarrow> Inl (Approval_failed e) | Inr x \<Rightarrow> Inr (Served_approval x), d\<lparr> dm_approvals := snd res \<rparr>)"

text \<open>The approval operations; \<open>approvalWait\<close> begins with a look at the request.\<close>

definition serve_call ::
  "(approval_intent \<Rightarrow> js_string) \<Rightarrow> regex_engine \<Rightarrow> nat \<Rightarrow> request_world \<Rightarrow> rpc_call \<Rightarrow> daemon \<Rightarrow>
   (serve_error, served) result \<times> daemon" where
  "serve_call digest rx m rw call d =
     (case call of
        Call_approval ow op \<Rightarrow> on_approvals (approval_exec digest (rw_now rw) ow op (dm_approvals d)) d
      | Call_approvalWait ow i deadline \<Rightarrow> on_approvals (approval_exec digest (rw_now rw) ow (Op_status i) (dm_approvals d)) d
      | _ \<Rightarrow> (case session_call rx m rw call (dm_supervisor d) of (res, sv) \<Rightarrow> (res, d\<lparr> dm_supervisor := sv \<rparr>)))"

definition serve ::
  "server_env \<Rightarrow> (approval_intent \<Rightarrow> js_string) \<Rightarrow> regex_engine \<Rightarrow> nat \<Rightarrow> request_world \<Rightarrow> RpcRequest \<Rightarrow> daemon \<Rightarrow>
   (serve_error, served) result \<times> daemon" where
  "serve env digest rx m rw r d =
     (case dispatch env (rw_now rw) (rw_fresh rw) (sv_registry (dm_supervisor d)) r (dm_inputUsage d) of
        (Inl e, used) \<Rightarrow> (Inl (Request_refused e), d\<lparr> dm_inputUsage := used \<rparr>)
      | (Inr call, used) \<Rightarrow> serve_call digest rx m rw call (d\<lparr> dm_inputUsage := used \<rparr>))"


section \<open>Every operation touches only its sessions\<close>

text \<open>
  \<open>frame\<close> is the locale of lane operations at the relation \<open>only_touches P\<close>: an operation of the lane of a session in \<open>P\<close>
  changes no record outside of \<open>P\<close>. The other operations follow from it.
\<close>

lemma touchesI:
  assumes "ledger_ok sv \<Longrightarrow> ledger_ok sv'" and "ledger_ok sv \<Longrightarrow> (\<And>j. \<not> P j \<Longrightarrow> map_get (sv_records sv') j = map_get (sv_records sv) j)"
  shows "only_touches P sv sv'"
  using assms by (simp add: only_touches_def)

lemma delete_touches:
  assumes "P i"
  shows "only_touches P sv (snd (deleteNativeSession ok i sv))"
proof -
  obtain res sv' where d: "deleteNativeSession ok i sv = (res, sv')" by (cases "deleteNativeSession ok i sv")
  have "only_touches P sv sv'"
  proof (rule touchesI)
    fix j assume "\<not> P j"
    with assms have "j \<noteq> i" by auto
    with delete_cases [OF d] show "map_get (sv_records sv') j = map_get (sv_records sv) j"
      by (cases "res = Inr True") (auto simp: sv_records_def Let_def)
  qed (rule delete_ledger [OF d])
  with d show ?thesis by simp
qed

lemma cleanup_touches:
  assumes "P i"
  shows "only_touches P sv (snd (cleanup pf cw i sv))"
proof -
  let ?Q = "\<lambda>a. \<forall>j. \<not> P j \<longrightarrow> map_get (sv_records a) j = map_get (sv_records sv) j"
  have "?Q (snd (cleanup pf cw i sv))" if ok: "ledger_ok sv"
  proof (rule conjunct2 [OF cleanup_inv [where P = "\<lambda>a. ledger_ok a \<and> ?Q a", OF ok]])
    show "ledger_ok a \<and> ?Q a" if "sv_registry a = sv_registry sv" for a
      using that ok ledger_registry(1) [OF that] by (simp add: sv_records_def)
    show "ledger_ok b \<and> ?Q b" if "ledger_ok a \<and> ?Q a" "deleteNativeSession (cw_rm_ok cw) i a = (res, b)" for a res b
      using delete_touches [of P i a "cw_rm_ok cw", OF assms] that by (simp add: only_touches_def)
  qed (use ok in simp)
  then show ?thesis using cleanup_ledger by (intro touchesI) blast+
qed

lemma run_all_touches:
  assumes "\<And>x sv. x \<in> set xs \<Longrightarrow> only_touches P sv (snd (f x sv))"
  shows "only_touches P sv (snd (run_all f xs sv))"
  using run_all_inv [of xs "only_touches P sv" f sv] assms only_touches_trans by blast

lemma conversation_touches:
  assumes "P i"
  shows "only_touches P sv (snd (cleanupConversation pf now vw i sv))"
proof (rule touchesI)
  fix j assume ok: "ledger_ok sv" and j: "\<not> P j"
  have "only_touches P sv (snd (cleanupConversation pf now vw i sv))"
  proof (cases "map_get (sv_records sv) i")
    case (Some r)
    have i: "session_id r = i" by (rule ledger_id [OF ok Some])
    obtain x r1 sv1 where s: "save_as pf (vw_mark_write vw) (r\<lparr> pendingCleanup := Some True \<rparr>) sv = (x, r1, sv1)"
      by (cases "save_as pf (vw_mark_write vw) (r\<lparr> pendingCleanup := Some True \<rparr>) sv")
    have 1: "only_touches P sv sv1"
      using frame.save_as_R [where P = P, OF s, of r] Some i assms by (simp add: tracks_def same_session_def)
    let ?stop = "stop pf now (vw_stop_write vw) (vw_stop vw) (vw_final vw) i sv1"
    obtain y sv2 where y: "?stop = (y, sv2)" by (cases ?stop)
    have 2: "only_touches P sv sv2" using frame.stop_R [where P = P, OF y assms] 1 only_touches_trans by blast
    have 3: "only_touches P sv (snd (cleanup pf (vw_cleanup vw) i a))" if "only_touches P sv a" for a
      using that cleanup_touches [where P = P, OF assms] only_touches_trans by blast
    show ?thesis
      using 1 2 3 [OF 1] 3 [OF 2] unfolding cleanupConversation_def Some by (simp add: s y split: sum.split)
  qed (simp add: cleanupConversation_def)
  with ok j show "map_get (sv_records (snd (cleanupConversation pf now vw i sv))) j = map_get (sv_records sv) j"
    by (simp add: only_touches_def)
qed (rule conversation_ledger)

definition owned_by :: "OwnerContext \<Rightarrow> SessionRecord \<Rightarrow> bool" where
  "owned_by ow r \<longleftrightarrow> parentSessionId r = ow_parentSessionId ow \<and> ownerProjectDirectory r = ow_projectDirectory ow \<and>
     ownerCapabilityHash r = ow_capability ow"

lemma values_get: "ledger_ok sv \<Longrightarrow> r \<in> set (map_values (sv_records sv)) \<Longrightarrow> map_get (sv_records sv) (session_id r) = Some r"
proof -
  assume ok: "ledger_ok sv" and "r \<in> set (map_values (sv_records sv))"
  then obtain i where "(i, r) \<in> set (sv_records sv)" by auto
  then have "map_get (sv_records sv) i = Some r" using ok by (simp add: ledger_ok_def map_ok_def)
  with ledger_id [OF ok this] show ?thesis by simp
qed

lemma byParent_touches:
  assumes "ledger_ok sv" and "\<And>r. map_get (sv_records sv) (session_id r) = Some r \<Longrightarrow> parentSessionId r = p \<Longrightarrow> ownerProjectDirectory r = d \<Longrightarrow>
      ownerCapabilityHash r = c \<Longrightarrow> P (session_id r)"
  shows "only_touches P sv (snd (cleanupByParentSession pf now vw p d c sv))"
  unfolding cleanupByParentSession_def
proof (rule run_all_touches)
  fix i s assume "i \<in> set (map session_id (filter (\<lambda>r. parentSessionId r = p \<and> ownerProjectDirectory r = d \<and>
          ownerCapabilityHash r = c \<and> lifecycle r = Conversation) (map_values (sv_records sv))))"
  then obtain r where r: "r \<in> set (map_values (sv_records sv))" "i = session_id r" "parentSessionId r = p" "ownerProjectDirectory r = d"
    "ownerCapabilityHash r = c" by auto
  have "P i" unfolding r(2) by (rule assms(2) [OF values_get [OF assms(1) r(1)] r(3-5)])
  then show "only_touches P s (snd (cleanupConversation pf now (vw i) i s))" by (rule conversation_touches)
qed

lemma prune_touches:
  assumes "ledger_ok sv"
    and "\<And>r. map_get (sv_records sv) (session_id r) = Some r \<Longrightarrow>
      expired pf (now - int (terminalRetentionSeconds (limits (sv_registry sv))) * 1000) r \<Longrightarrow> P (session_id r)"
  shows "only_touches P sv (snd (pruneExpiredTerminals pf now cw sv))"
  unfolding pruneExpiredTerminals_def Let_def
proof (rule run_all_touches)
  fix i s assume "i \<in> set (map session_id (filter (expired pf (now - int (terminalRetentionSeconds (limits (sv_registry sv))) * 1000))
      (map_values (sv_records sv))))"
  then obtain r where r: "r \<in> set (map_values (sv_records sv))" "i = session_id r"
    "expired pf (now - int (terminalRetentionSeconds (limits (sv_registry sv))) * 1000) r" by auto
  have "P i" unfolding r(2) by (rule assms(2) [OF values_get [OF assms(1) r(1)] r(3)])
  then show "only_touches P s (snd (cleanup pf (cw i) i s))" by (rule cleanup_touches)
qed

lemma sync_touches:
  assumes "P i"
  shows "only_touches P sv (snd (syncNative pf now io fw snap c i sv))"
  using frame.finalize_lane_R [where P = P, OF prod.collapse [symmetric] assms] frame.finish_lane_R [where P = P, OF prod.collapse [symmetric] assms]
  unfolding syncNative_def by (simp split: sum.split)

lemma get_touches:
  assumes "P i"
  shows "only_touches P sv (snd (get_session pf now io fw snap i sv))"
  using sync_touches [where P = P, OF assms, of sv pf now io fw snap]
  unfolding get_session_def flushed_def by (auto split: sum.split option.split prod.split) (metis snd_conv)+


lemma start_failed_touches:
  assumes "start_failed pf now sw e prepared r sv = (res, sv')" and t: "tracks r sv" and P: "P (session_id r)"
  shows "only_touches P sv sv'"
proof -
  define spoken where "spoken = (if mode r = Mode_pty then se_message e else js ''Error: '' @ se_message e)"
  let ?r = "failed_start_record pf now sw spoken e prepared r"
  obtain x sv1 where s: "save pf (sw_failure_write sw) ?r sv = (x, sv1)" by (cases "save pf (sw_failure_write sw) ?r sv")
  have 1: "only_touches P sv sv1"
    using t failed_session_same [of r pf now sw spoken e prepared] s P
    by (intro frame.save [of sv "session_id r" r ?r pf "sw_failure_write sw" x sv1 P]) (auto simp: tracks_def same_session_def)
  let ?s = "settle_registry pf (session_id r) sv1"
  have 2: "only_touches P sv ?s" using 1 frame.settle only_touches_trans by blast
  have 3: "only_touches P sv (snd (deleteNativeSession (sw_rm_ok sw) (session_id r) ?s))"
    using 2 delete_touches [where P = P, OF P] only_touches_trans by blast
  have "sv' = sv1 \<or> sv' = ?s \<or> sv' = snd (deleteNativeSession (sw_rm_ok sw) (session_id r) ?s)"
    using assms(1) s unfolding start_failed_def spoken_def [symmetric] Let_def by (auto split: sum.splits if_splits)
  with 1 2 3 show ?thesis by auto
qed

lemma launch_touches:
  assumes P: "P (session_id r)" and w: "ledger_without (session_id r) sv"
  shows "only_touches P sv (snd (launch pf now sw m r sv))"
proof (rule touchesI)
  fix j assume j: "\<not> P j"
  then have ne: "j \<noteq> session_id r" using P by auto
  obtain res sv' where l: "launch pf now sw m r sv = (res, sv')" by (cases "launch pf now sw m r sv")
  have "map_get (sv_records sv') j = map_get (sv_records sv) j"
  proof (cases "reserve pf (sv_registry sv) r m")
    case (Inl e)
    with l show ?thesis by (auto simp: launch_def)
  next
    case (Inr p)
    obtain rv g where p: "p = (rv, g)" by (cases p)
    let ?sv = "put_record r (sv\<lparr> sv_registry := g \<rparr>)"
    have "records g = records (sv_registry sv)" unfolding reserve_Inr(1) [OF Inr [unfolded p]]
      by (simp add: setOutput_def addRecord_def addActive_def Let_def)
    then have 0: "map_get (sv_records ?sv) j = map_get (sv_records sv) j" using ne by (simp add: sv_records_def put_record_def)
    have ok: "ledger_ok ?sv" using w reserve_ledger Inr p by (simp add: ledger_without_def)
    have t: "tracks r ?sv" by (simp add: tracks_def)
    obtain x r1 sv1 where s: "save_as pf (sw_first_write sw) r ?sv = (x, r1, sv1)" by (cases "save_as pf (sw_first_write sw) r ?sv")
    have 1: "only_touches P ?sv sv1" "tracks r1 sv1" "same_session r r1"
      using frame.save_as_R [where P = P, OF s t] P by auto
    show ?thesis
    proof (cases x)
      case (Inl e)
      then have "sv_records sv' = map_delete (sv_records sv1) (session_id r)"
        using l \<open>reserve pf (sv_registry sv) r m = Inr p\<close> p s
        by (auto simp: launch_def sv_records_def releaseReservation_def release_records)
      with 0 1(1) ok j ne show ?thesis by (simp add: only_touches_def)
    next
      case (Inr x')
      obtain y r2 sv2 where sw: "start_worker pf now sw r1 sv1 = (y, r2, sv2)" by (cases "start_worker pf now sw r1 sv1")
      have P1: "P (session_id r1)" using 1(3) P by (simp add: same_session_def)
      have 2: "only_touches P sv1 sv2" "tracks r2 sv2" "same_session r1 r2"
        using frame.start_worker_R [where P = P, OF sw 1(2) P1] by auto
      have P2: "P (session_id r2)" using 2(3) P1 by (simp add: same_session_def)
      have "sv' = sv2 \<or> (\<exists>e b. start_failed pf now sw e b r2 sv2 = (res, sv'))"
        using l \<open>reserve pf (sv_registry sv) r m = Inr p\<close> p s Inr sw
        by (auto simp: launch_def split: sum.splits prod.splits)
      then have "only_touches P sv2 sv'" using start_failed_touches [OF _ 2(2), of pf now sw _ _ res sv' P] P2 by auto
      with 1(1) 2(1) have "only_touches P ?sv sv'" using only_touches_trans by blast
      with 0 ok j show ?thesis by (simp add: only_touches_def)
    qed
  qed
  with l show "map_get (sv_records (snd (launch pf now sw m r sv))) j = map_get (sv_records sv) j" by simp
qed (rule launch_snd [OF w])

abbreviation cutoff :: "int \<Rightarrow> Supervisor \<Rightarrow> int" where
  "cutoff now sv \<equiv> now - int (terminalRetentionSeconds (limits (sv_registry sv))) * 1000"

lemma spawn_touches:
  assumes w: "ledger_without (js ''pty_'' @ sw_uuid sw) sv" and P: "P (js ''pty_'' @ sw_uuid sw)"
    and e: "\<And>r. map_get (sv_records sv) (session_id r) = Some r \<Longrightarrow> expired (h_platform h) (cutoff now sv) r \<Longrightarrow> P (session_id r)"
  shows "only_touches P sv (snd (spawn h now sw cw m opts sv))"
proof -
  define i where "i = js ''pty_'' @ sw_uuid sw"
  have wi: "ledger_without i sv" and Pi: "P i" using w P by (simp_all only: i_def)
  obtain x sv1 where p: "pruneExpiredTerminals (h_platform h) now cw sv = (x, sv1)" by (cases "pruneExpiredTerminals (h_platform h) now cw sv")
  have 1: "only_touches P sv sv1" using prune_touches [where P = P, OF without_ok [OF wi] e] p by (metis snd_conv)
  have w1: "ledger_without i sv1" using prune_without [OF wi, of "h_platform h" now cw] p by simp
  have "only_touches P sv (snd (launch (h_platform h) now sw m r sv1))" if "spawn_record h now i opts = Inr r" for r
    using launch_touches [of P r sv1 "h_platform h" now sw m] w1 Pi made_id(1) [OF that] 1 only_touches_trans by blast
  then show ?thesis
    using 1 unfolding spawn_def flushed_def i_def [symmetric] p by (simp split: sum.split option.split)
qed

lemma exec_touches:
  assumes w: "ledger_without (js ''exec_'' @ sw_uuid sw) sv" and P: "P (js ''exec_'' @ sw_uuid sw)"
    and e: "\<And>r. map_get (sv_records sv) (session_id r) = Some r \<Longrightarrow> expired (h_platform h) (cutoff now sv) r \<Longrightarrow> P (session_id r)"
  shows "only_touches P sv (snd (nativeExecStart h now sw cw m opts sv))"
proof -
  define i where "i = js ''exec_'' @ sw_uuid sw"
  have wi: "ledger_without i sv" and Pi: "P i" using w P by (simp_all only: i_def)
  obtain x sv1 where p: "pruneExpiredTerminals (h_platform h) now cw sv = (x, sv1)" by (cases "pruneExpiredTerminals (h_platform h) now cw sv")
  have 1: "only_touches P sv sv1" using prune_touches [where P = P, OF without_ok [OF wi] e] p by (metis snd_conv)
  have w1: "ledger_without i sv1" using prune_without [OF wi, of "h_platform h" now cw] p by simp
  have "only_touches P sv (snd (launch (h_platform h) now sw m r sv1))" if "exec_record h now i opts = Inr r" for r
    using launch_touches [of P r sv1 "h_platform h" now sw m] w1 Pi made_id(2) [OF that] 1 only_touches_trans by blast
  then show ?thesis
    using 1 unfolding nativeExecStart_def flushed_def i_def [symmetric] p by (simp split: sum.split option.split)
qed

lemma registry_touches:
  assumes "ledger_ok sv \<Longrightarrow> ledger_ok sv'" and "records (sv_registry sv') = records (sv_registry sv)"
  shows "only_touches P sv sv'"
  using assms by (intro touchesI) (simp_all add: sv_records_def)

lemma write_touches: "only_touches P sv (snd (write_begin i data sv))"
proof (rule registry_touches)
  show "records (sv_registry (snd (write_begin i data sv))) = records (sv_registry sv)"
    unfolding write_begin_def flushed_def by (auto dest: reserveInput_Inr(2) split: sum.split prod.split)
qed (rule write_ledger)

lemma send_touches: "only_touches P sv (snd (sendWait_begin rx i data c t sv))"
proof (rule registry_touches)
  show "records (sv_registry (snd (sendWait_begin rx i data c t sv))) = records (sv_registry sv)"
    unfolding sendWait_begin_def flushed_def
    by (auto dest!: reserveInput_Inr(2) reserveWait_Inr(2) simp: releaseWait_def split: sum.split prod.split)
qed (rule send_begin_ledger)

lemma finishWait_records:
  assumes "j \<noteq> session_id r"
  shows "map_get (sv_records (snd (finishWait pf now io r res sv))) j = map_get (sv_records sv) j"
proof -
  define complete where "complete = res\<lparr> wr_containment := containment r, wr_termination := terminationResult r \<rparr>"
  define r1 where "r1 = r\<lparr> lastWaitResult := Some complete, updatedAt := toISOString now \<rparr>"
  obtain x r2 disk where w: "writeSession pf io r1 (sv_disk sv) = (x, r2, disk)" by (cases "writeSession pf io r1 (sv_disk sv)")
  have r2: "r2 = refreshed_record pf r1" using w by (auto simp: writeSession_def Let_def split: if_splits)
  have s: "session_id r2 = session_id r" by (simp add: r2 r1_def)
  obtain q where sv': "snd (finishWait pf now io r res sv) =
      (if map_has (sv_records sv) (session_id r) then put_record r2 (sv\<lparr> sv_disk := disk, sv_persist := q \<rparr>)
       else sv\<lparr> sv_disk := disk, sv_persist := q \<rparr>)"
    unfolding finishWait_def complete_def [symmetric] Let_def r1_def [symmetric] w by simp
  have "sv_records (sv\<lparr> sv_disk := disk, sv_persist := q \<rparr>) = sv_records sv" by (simp add: sv_records_def)
  with assms s show ?thesis unfolding sv' by simp
qed

lemma wait_touches:
  assumes "P i"
  shows "only_touches P sv (snd (snd (wait_begin pf rx now io j i c t w sv)))"
proof (rule touchesI)
  fix k assume ok: "ledger_ok sv" and k: "\<not> P k"
  show "map_get (sv_records (snd (snd (wait_begin pf rx now io j i c t w sv)))) k = map_get (sv_records sv) k"
  proof (cases "recordFor sv i")
    case (Inr r)
    then have r: "map_get (sv_records sv) i = Some r" by (auto simp: recordFor_def split: option.splits)
    have "session_id r = i" by (rule ledger_id [OF ok r])
    then have ne: "k \<noteq> session_id r" using k assms by auto
    obtain w1 sv1 where rel: "release_reserved w sv = (w1, sv1)" by (cases "release_reserved w sv")
    have rec: "sv_records sv1 = sv_records sv" using reserved_records [of w sv] rel by simp
    have fin: "map_get (sv_records (snd (finishWait pf now io r m sv1))) k = map_get (sv_records sv) k" for m
      using finishWait_records [OF ne] rec by simp
    have res: "sv_records (push_wait i p (sv\<lparr> sv_registry := g \<rparr>)) = sv_records sv" if "reserveWait (sv_registry sv) r = Inr (v, g)" for v g p
      using reserveWait_Inr(2) [OF that] by (simp add: push_wait_def sv_records_def)
    have push: "sv_records (push_wait i p sv) = sv_records sv" for p by (simp add: push_wait_def sv_records_def)
    show ?thesis
      unfolding wait_begin_def Inr rel done_wait_def
      by (simp add: fin rec res push split: sum.split option.split prod.split)
  qed (simp add: wait_begin_def split: sum.split)
qed (rule wait_ledger)


text \<open>The sessions a request may change: those of its owner, new ones, and those that have expired.\<close>

definition within_reach :: "server_env \<Rightarrow> request_world \<Rightarrow> RpcRequest \<Rightarrow> Supervisor \<Rightarrow> js_string \<Rightarrow> bool" where
  "within_reach env rw r sv j =
     (case map_get (sv_records sv) j of
        None \<Rightarrow> True
      | Some x \<Rightarrow> (\<exists>ow. owner env r = Inr ow \<and> owned_by ow x) \<or> expired (h_platform (rw_host rw)) (cutoff (rw_now rw) sv) x)"

definition fresh_ids :: "request_world \<Rightarrow> Supervisor \<Rightarrow> bool" where
  "fresh_ids rw sv \<longleftrightarrow> map_get (sv_records sv) (js ''pty_'' @ sw_uuid (rw_start rw)) = None \<and>
     map_get (sv_records sv) (js ''exec_'' @ sw_uuid (rw_start rw)) = None"

lemma on_supervisor_snd [simp]: "snd (on_supervisor f x) = snd x"
  by (simp add: on_supervisor_def)

lemma owns_reach: "owner env r = Inr ow \<Longrightarrow> owns (sv_registry sv) i ow \<Longrightarrow> within_reach env rw r sv i"
  by (auto simp: owns_def registry_owns_def within_reach_def owned_by_def sv_records_def split: option.splits)

lemma execWait_touches:
  assumes "P i"
  shows "only_touches P sv (snd (execWait_begin pf rx now io j i t sv))"
  using wait_touches [where P = P, OF assms]
  unfolding execWait_begin_def by (auto split: sum.split prod.split) (metis snd_conv)

lemma execOutput_touches:
  assumes "P i"
  shows "only_touches P sv (snd (execOutput_of pf now io fw snap i sv))"
  using get_touches [where P = P, OF assms, of sv pf now io fw snap]
  unfolding execOutput_of_def by (cases "get_session pf now io fw snap i sv") (simp split: sum.split)

lemma unchanged_supervisor [simp]: "snd (serve_list ow sv) = sv" "snd (resize i answer sv) = sv"
  by (simp_all add: serve_list_def list_sessions_def resize_def flushed_def split: sum.split)

lemma session_call_touches:
  assumes ok: "ledger_ok sv" and fresh: "fresh_ids rw sv" and ow: "owner env r = Inr ow"
    and call: "call_ok env (sv_registry sv) r ow c"
  shows "only_touches (within_reach env rw r sv) sv (snd (session_call rx m rw c sv))"
proof -
  let ?P = "within_reach env rw r sv"
  have i: "?P i" if "call_session c = Some i" for i
    using call that owns_reach [OF ow] by (auto simp: call_ok_def)
  have new: "?P (js ''pty_'' @ sw_uuid (rw_start rw))" "?P (js ''exec_'' @ sw_uuid (rw_start rw))"
    using fresh by (simp_all only: within_reach_def fresh_ids_def option.case)
  have w: "ledger_without (js ''pty_'' @ sw_uuid (rw_start rw)) sv" "ledger_without (js ''exec_'' @ sw_uuid (rw_start rw)) sv"
    using ok fresh by (simp_all only: ledger_without_def fresh_ids_def simp_thms)
  have ex: "?P (session_id x)" if "map_get (sv_records sv) (session_id x) = Some x"
      "expired (h_platform (rw_host rw)) (cutoff (rw_now rw) sv) x" for x
    using that by (simp add: within_reach_def)
  note sp = spawn_touches [where P = ?P, OF w(1) new(1) ex] and xp = exec_touches [where P = ?P, OF w(2) new(2) ex]
  show ?thesis
  proof (cases c)
    case (Call_cleanupByParentSession p d h)
    then have pdh: "p = ow_parentSessionId ow" "d = ow_projectDirectory ow" "h = ow_capability ow"
      using call by (auto simp: call_ok_def)
    have "only_touches ?P sv (snd (cleanupByParentSession (h_platform (rw_host rw)) (rw_now rw) (rw_conversations rw) p d h sv))"
      by (rule byParent_touches [OF ok]) (use ow pdh in \<open>auto simp: within_reach_def owned_by_def\<close>)
    with Call_cleanupByParentSession show ?thesis by simp
  next
    case (Call_wait k wc t)
    then show ?thesis using wait_touches [where P = ?P, of k] i by (auto split: prod.split) (metis snd_conv)
  next
    case (Call_stop k)
    then show ?thesis using frame.stop_R [where P = ?P, OF prod.collapse [symmetric]] i by simp
  qed (use i sp xp in \<open>auto simp: serve_spawn_def serve_exec_def serve_execStart_def write_touches send_touches
      intro: execWait_touches get_touches execOutput_touches cleanup_touches simp del: js_simps\<close>)
qed

lemma serve_call_supervisor:
  "dm_supervisor (snd (serve_call digest rx m rw call d)) = snd (session_call rx m rw call (dm_supervisor d))"
  by (cases call) (simp_all add: serve_call_def on_approvals_def case_prod_unfold del: session_call.simps, simp_all)

lemma serve_touches:
  assumes ok: "ledger_ok (dm_supervisor d)" and fresh: "fresh_ids rw (dm_supervisor d)"
  shows "only_touches (within_reach env rw r (dm_supervisor d)) (dm_supervisor d) (dm_supervisor (snd (serve env digest rx m rw r d)))"
proof -
  let ?sv = "dm_supervisor d"
  obtain res used where dp: "dispatch env (rw_now rw) (rw_fresh rw) (sv_registry ?sv) r (dm_inputUsage d) = (res, used)"
    by (cases "dispatch env (rw_now rw) (rw_fresh rw) (sv_registry ?sv) r (dm_inputUsage d)")
  show ?thesis
  proof (cases res)
    case (Inl e)
    with dp show ?thesis by (simp add: serve_def)
  next
    case (Inr call)
    have "only_touches (within_reach env rw r ?sv) ?sv (snd (session_call rx m rw call ?sv))"
    proof (cases "rpc_operation r = js ''health''")
      case True
      then have "call = Call_health" using dp Inr by (auto simp: dispatch_def and_then_Inr_iff simp del: js_simps)
      then show ?thesis by simp
    next
      case False
      from dispatch_ok [OF dp [unfolded Inr] this] session_call_touches [OF ok fresh] show ?thesis by blast
    qed
    with dp Inr show ?thesis by (simp add: serve_def serve_call_supervisor)
  qed
qed


section \<open>Runs of the daemon\<close>

text \<open>Requests in any order, and the steps the supervisor takes by itself or for an earlier request.\<close>

datatype daemon_event =
    Request request_world RpcRequest
  | Supervisor_acts supervisor_event

fun daemon_step ::
  "server_env \<Rightarrow> (approval_intent \<Rightarrow> js_string) \<Rightarrow> platform \<Rightarrow> regex_engine \<Rightarrow> nat \<Rightarrow> daemon \<Rightarrow> daemon_event \<Rightarrow> daemon" where
  "daemon_step env digest pf rx m d (Request rw r) = snd (serve env digest rx m rw r d)"
| "daemon_step env digest pf rx m d (Supervisor_acts e) = d\<lparr> dm_supervisor := supervisor_step pf rx (dm_supervisor d) e \<rparr>"

text \<open>Only the freshness of generated session ids is assumed.\<close>

fun daemon_enabled :: "daemon \<Rightarrow> daemon_event \<Rightarrow> bool" where
  "daemon_enabled d (Request rw r) = fresh_ids rw (dm_supervisor d)"
| "daemon_enabled d (Supervisor_acts e) = supervisor_enabled (dm_supervisor d) e"

lemma daemon_step_ledger:
  assumes "ledger_ok (dm_supervisor d)" "daemon_enabled d e"
  shows "ledger_ok (dm_supervisor (daemon_step env digest pf rx m d e))"
proof (cases e)
  case (Request rw r)
  with assms serve_touches [of d rw env r digest rx m] show ?thesis by (simp add: only_touches_def)
next
  case (Supervisor_acts se)
  with assms supervisor_step_ledger show ?thesis by simp
qed

interpretation daemon_runs: invariant_system "daemon_step env digest pf rx m" daemon_enabled "\<lambda>d. ledger_ok (dm_supervisor d)"
  for env digest pf rx m
  by unfold_locales (rule daemon_step_ledger)

text \<open>A request of somebody else than the owner of the session \<open>x\<close>.\<close>

fun of_stranger :: "server_env \<Rightarrow> platform \<Rightarrow> SessionRecord \<Rightarrow> daemon_event \<Rightarrow> bool" where
  "of_stranger env pf x (Request rw r) =
     (h_platform (rw_host rw) = pf \<and> (case owner env r of Inl _ \<Rightarrow> True | Inr ow \<Rightarrow> \<not> owned_by ow x))"
| "of_stranger env pf x (Supervisor_acts e) = False"

lemma stranger_step:
  assumes ok: "ledger_ok (dm_supervisor d)" and en: "daemon_enabled d e" and st: "of_stranger env pf x e"
    and x: "map_get (sv_records (dm_supervisor d)) i = Some x" and live: "\<not> isTerminal pf x"
  shows "map_get (sv_records (dm_supervisor (daemon_step env digest pf rx m d e))) i = Some x"
proof (cases e)
  case (Request rw r)
  have "\<not> within_reach env rw r (dm_supervisor d) i"
    using st Request x live by (auto simp: within_reach_def expired_def split: sum.splits)
  with ok en x Request serve_touches [of d rw env r digest rx m] show ?thesis by (simp add: only_touches_def)
qed (use st in simp)

lemma stranger_run:
  assumes "ledger_ok (dm_supervisor d)" and "daemon_runs.run_enabled env digest pf rx m d es" and "list_all (of_stranger env pf x) es"
    and "map_get (sv_records (dm_supervisor d)) i = Some x" and "\<not> isTerminal pf x"
  shows "map_get (sv_records (dm_supervisor (daemon_runs.run env digest pf rx m d es))) i = Some x"
  using assms
proof (induction es arbitrary: d)
  case (Cons e es)
  then have "ledger_ok (dm_supervisor (daemon_step env digest pf rx m d e))"
    "map_get (sv_records (dm_supervisor (daemon_step env digest pf rx m d e))) i = Some x"
    using daemon_step_ledger [of d e env digest pf rx m] stranger_step [of d e env pf x i digest rx m] by simp_all
  with Cons show ?case by simp
qed simp

lemma sessions_answer:
  assumes "fst (session_call rx m rw c sv) = Inr (Served_sessions infos)"
  shows "\<exists>ow. c = Call_list ow"
  using assms
  by (cases c) (auto simp: on_supervisor_def serve_spawn_def serve_exec_def serve_execStart_def split: sum.splits prod.splits)

lemma list_answer:
  assumes "fst (serve_list ow sv) = Inr (Served_sessions infos)" and "s \<in> set infos"
  shows "\<exists>x. map_get (sv_records sv) (pi_id s) = Some x \<and> owned_by ow x"
  using assms
  by (auto simp: serve_list_def list_sessions_def flushed_def owns_def registry_owns_def owned_by_def sv_records_def
      split: sum.splits option.splits)

lemma list_shows_own:
  assumes sv: "fst (serve env digest rx m rw r d) = Inr (Served_sessions infos)" and s: "s \<in> set infos"
  shows "\<exists>ow x. owner env r = Inr ow \<and> map_get (sv_records (dm_supervisor d)) (pi_id s) = Some x \<and> owned_by ow x"
proof -
  obtain res used where dp: "dispatch env (rw_now rw) (rw_fresh rw) (sv_registry (dm_supervisor d)) r (dm_inputUsage d) = (res, used)"
    by (cases "dispatch env (rw_now rw) (rw_fresh rw) (sv_registry (dm_supervisor d)) r (dm_inputUsage d)")
  obtain call where call: "res = Inr call" using sv dp by (cases res) (auto simp: serve_def)
  have "fst (session_call rx m rw call (dm_supervisor d)) = Inr (Served_sessions infos)"
    using sv dp call
    by (cases call) (auto simp: serve_def serve_call_def on_approvals_def case_prod_unfold simp del: session_call.simps split: sum.splits)
  with sessions_answer obtain ow where ow: "call = Call_list ow" by blast
  with \<open>fst (session_call rx m rw call (dm_supervisor d)) = _\<close> have l: "fst (serve_list ow (dm_supervisor d)) = Inr (Served_sessions infos)" by simp
  have "rpc_operation r \<noteq> js ''health''" using dp call ow by (auto simp: dispatch_def and_then_Inr_iff simp del: js_simps)
  from dispatch_ok [OF dp [unfolded call] this] ow have "owner env r = Inr ow" by (auto simp: call_ok_def)
  with list_answer [OF l s] show ?thesis by blast
qed

text \<open>
  C7: no request of somebody else reaches a session. However many requests arrive, with whatever operations and payloads, and
  whatever the workers, the files and the clock do while they are served: as long as none of them is authenticated
  as the owner of a session that has not ended, the record of the session is exactly what it was, and no answer to a list contains it.
\<close>

theorem strangers_change_nothing:
  fixes env :: server_env and digest :: "approval_intent \<Rightarrow> js_string"
  assumes "ledger_ok (dm_supervisor d)" and "daemon_runs.run_enabled env digest pf rx m d es" and "list_all (of_stranger env pf x) es"
    and "map_get (sv_records (dm_supervisor d)) i = Some x" and "\<not> isTerminal pf x"
  shows "map_get (sv_records (dm_supervisor (daemon_runs.run env digest pf rx m d es))) i = Some x \<and>
    (\<forall>rw r infos. fst (serve env digest rx m rw r (daemon_runs.run env digest pf rx m d es)) = Inr (Served_sessions infos) \<longrightarrow>
       of_stranger env pf x (Request rw r) \<longrightarrow> i \<notin> pi_id ` set infos)"
proof -
  have x: "map_get (sv_records (dm_supervisor (daemon_runs.run env digest pf rx m d es))) i = Some x"
    by (rule stranger_run [OF assms])
  show ?thesis
  proof (intro conjI allI impI notI)
    fix rw r infos
    assume "fst (serve env digest rx m rw r (daemon_runs.run env digest pf rx m d es)) = Inr (Served_sessions infos)"
      "of_stranger env pf x (Request rw r)" "i \<in> pi_id ` set infos"
    with list_shows_own x show False by fastforce
  qed (rule x)
qed


section \<open>The owner of a new session\<close>

lemma launch_success:
  assumes "launch pf now sw m r sv = (Inr r2, sv2)"
  shows "tracks r2 sv2 \<and> same_session r r2"
proof -
  from assms obtain rv g where res: "reserve pf (sv_registry sv) r m = Inr (rv, g)"
    by (auto simp: launch_def split: sum.splits)
  let ?sv = "put_record r (sv\<lparr> sv_registry := g \<rparr>)"
  obtain x r1 sv1 where s: "save_as pf (sw_first_write sw) r ?sv = (x, r1, sv1)" by (cases "save_as pf (sw_first_write sw) r ?sv")
  have 1: "tracks r1 sv1" "same_session r r1" using save_as_shape [OF s] by blast+
  obtain y r' sv' where w: "start_worker pf now sw r1 sv1 = (y, r', sv')" by (cases "start_worker pf now sw r1 sv1")
  have 2: "tracks r' sv'" "same_session r1 r'" using obs.start_worker_R [OF w 1(1)] by auto
  have "start_failed pf now sw e b r' sv' \<noteq> (Inr r2, sv2)" for e b
    by (simp add: start_failed_def Let_def split: sum.split prod.split)
  with assms res s w have "r2 = r' \<and> sv2 = sv'" by (auto simp: launch_def split: sum.splits prod.splits)
  with 1 2 show ?thesis using same_session_trans by blast
qed

text \<open>The session is stored for the owner the options name, when that directory is canonical.\<close>

definition stored_for :: "SpawnOptions \<Rightarrow> js_string \<Rightarrow> Supervisor \<Rightarrow> bool" where
  "stored_for opts i sv \<longleftrightarrow>
     (\<exists>x. map_get (sv_records sv) i = Some x \<and> parentSessionId x = so_parentSessionId opts \<and>
        ownerProjectDirectory x = so_ownerProjectDirectory opts \<and> ownerCapabilityHash x = so_ownerCapabilityHash opts)"

lemma made_for:
  assumes "h_canon h (so_ownerProjectDirectory opts) = Some (so_ownerProjectDirectory opts)"
    and "spawn_record h now i opts = Inr r \<or> exec_record h now i opts = Inr r" and "tracks r2 sv" "same_session r r2"
  shows "stored_for opts (session_id r2) sv"
  using assms
  by (auto simp: spawn_record_def exec_record_def and_then_Inr_iff canonicalWorkdir_def new_record_def Let_def same_session_def
      tracks_def stored_for_def)

lemma idempotent_found:
  "find_idempotent h opts rs = Inr (Some r) \<Longrightarrow> h_canon h (so_ownerProjectDirectory opts) = Some (so_ownerProjectDirectory opts) \<Longrightarrow>
   r \<in> set rs \<and> parentSessionId r = so_parentSessionId opts \<and> ownerProjectDirectory r = so_ownerProjectDirectory opts \<and>
   ownerCapabilityHash r = so_ownerCapabilityHash opts"
  by (induction rs) (auto simp: canonicalWorkdir_def split: if_splits sum.splits option.splits)

lemma toInfo_id [simp]: "pi_id (toInfo r) = session_id r"
  by (simp add: toInfo_def)

lemma spawn_success:
  assumes s: "spawn h now sw cw m opts sv = (Inr info, sv')" and ok: "ledger_ok sv"
    and canon: "h_canon h (so_ownerProjectDirectory opts) = Some (so_ownerProjectDirectory opts)"
  shows "stored_for opts (pi_id info) sv'"
proof (cases "idempotentSession h opts (nullish (so_args opts) []) sv")
  case (Inl e)
  with s show ?thesis by (auto simp: spawn_def flushed_def split: sum.splits if_splits)
next
  case (Inr found)
  show ?thesis
  proof (cases found)
    case (Some r)
    then have "find_idempotent h opts (map_values (sv_records sv)) = Inr (Some r)"
      using Inr by (auto simp: idempotentSession_def split: if_splits sum.splits option.splits)
    from idempotent_found [OF this canon] values_get [OF ok, of r] have "stored_for opts (session_id r) sv"
      by (simp add: stored_for_def)
    moreover have "info = toInfo r" "sv' = sv"
      using s Inr Some by (auto simp: spawn_def flushed_def split: sum.splits if_splits)
    ultimately show ?thesis by simp
  next
    case None
    obtain x sv1 where p: "pruneExpiredTerminals (h_platform h) now cw sv = (x, sv1)" by (cases "pruneExpiredTerminals (h_platform h) now cw sv")
    from s Inr None p obtain r r2 where "spawn_record h now (js ''pty_'' @ sw_uuid sw) opts = Inr r"
      "launch (h_platform h) now sw m r sv1 = (Inr r2, sv')" "info = toInfo r2"
      by (auto simp: spawn_def flushed_def simp del: js_simps split: sum.splits if_splits prod.splits)
    with made_for [OF canon, of now _ r r2 sv'] launch_success show ?thesis by auto
  qed
qed

lemma exec_success:
  assumes s: "nativeExecStart h now sw cw m opts sv = (Inr started, sv')"
    and canon: "h_canon h (so_ownerProjectDirectory opts) = Some (so_ownerProjectDirectory opts)"
  shows "stored_for opts (es_id started) sv'"
proof -
  obtain x sv1 where p: "pruneExpiredTerminals (h_platform h) now cw sv = (x, sv1)" by (cases "pruneExpiredTerminals (h_platform h) now cw sv")
  from s p obtain r r2 where r: "exec_record h now (js ''exec_'' @ sw_uuid sw) opts = Inr r"
    "launch (h_platform h) now sw m r sv1 = (Inr r2, sv')" "es_id started = session_id r"
    by (auto simp: nativeExecStart_def flushed_def simp del: js_simps split: sum.splits if_splits prod.splits option.splits)
  from launch_success [OF r(2)] made_for [OF canon, of now _ r r2 sv'] r(1,3) show ?thesis by (auto simp: same_session_def)
qed

fun served_id :: "served \<Rightarrow> js_string option" where
  "served_id (Served_session info) = Some (pi_id info)"
| "served_id (Served_exec s _) = Some (es_id s)"
| "served_id (Served_started s) = Some (es_id s)"
| "served_id _ = None"

lemma session_call_stored:
  assumes "session_call rx m rw c sv = (Inr a, sv')" and "served_id a = Some i" and ok: "ledger_ok sv"
    and canon: "\<And>opts. call_options c = Some opts \<Longrightarrow> h_canon (rw_host rw) (so_ownerProjectDirectory opts) = Some (so_ownerProjectDirectory opts)"
  shows "\<exists>opts. call_options c = Some opts \<and> stored_for opts i sv'"
proof -
  have on: "\<exists>x y. res = (Inr x, y) \<and> a = f x \<and> sv' = y" if "on_supervisor f res = (Inr a, sv')" for f and res :: "(sup_error, 'x) result \<times> Supervisor"
    using that by (cases res) (auto simp: on_supervisor_def split: sum.splits)
  show ?thesis
  proof (cases c)
    case (Call_spawn opts)
    with assms(1) obtain info where "spawn (rw_host rw) (rw_now rw) (rw_start rw) (rw_expired rw) m opts sv = (Inr info, sv')" "a = Served_session info"
      by (auto simp: serve_spawn_def dest!: on)
    with spawn_success [OF this(1) ok] canon Call_spawn assms(2) show ?thesis by simp
  next
    case (Call_exec opts)
    with assms(1) obtain st where "nativeExecStart (rw_host rw) (rw_now rw) (rw_start rw) (rw_expired rw) m opts sv = (Inr st, sv')"
      "a = Served_exec st (exec_wait_seconds opts)" by (auto simp: serve_exec_def dest!: on)
    with exec_success [OF this(1)] canon Call_exec assms(2) show ?thesis by simp
  next
    case (Call_execStart opts)
    with assms(1) obtain st where "nativeExecStart (rw_host rw) (rw_now rw) (rw_start rw) (rw_expired rw) m opts sv = (Inr st, sv')"
      "a = Served_started st" by (auto simp: serve_execStart_def dest!: on)
    with exec_success [OF this(1)] canon Call_execStart assms(2) show ?thesis by simp
  qed (use assms(1,2) in \<open>auto simp: serve_list_def split: sum.splits prod.splits dest!: on\<close>)
qed


text \<open>
  C10: a session that a request creates belongs to the owner of the request. Whenever the daemon answers a request to spawn or
  to execute with a session, the session is stored for the owner the request is authenticated as, also when it is an existing
  session that the idempotency key names; from then on it is open to this owner and to nobody else. The directory of an owner is canonical
  for the host, as a resolved path is.
\<close>

theorem new_session_belongs_to_requester:
  assumes "serve env digest rx m rw r d = (Inr a, d')" and "served_id a = Some i" and "ledger_ok (dm_supervisor d)"
    and "\<And>p q. realpath env p = Some q \<Longrightarrow> h_canon (rw_host rw) q = Some q"
  shows "\<exists>ow. owner env r = Inr ow \<and>
    (\<forall>ow'. authorize (sv_registry (dm_supervisor d')) i ow' =
       (if ow_parentSessionId ow' = ow_parentSessionId ow \<and> ow_projectDirectory ow' = ow_projectDirectory ow \<and>
           ow_capability ow' = ow_capability ow
        then Inr () else Inl not_authorized))"
proof -
  obtain res used where dp: "dispatch env (rw_now rw) (rw_fresh rw) (sv_registry (dm_supervisor d)) r (dm_inputUsage d) = (res, used)"
    by (cases "dispatch env (rw_now rw) (rw_fresh rw) (sv_registry (dm_supervisor d)) r (dm_inputUsage d)")
  obtain call where call: "res = Inr call" using assms(1) dp by (cases res) (auto simp: serve_def)
  have sc: "session_call rx m rw call (dm_supervisor d) = (Inr a, dm_supervisor d')"
    using assms(1,2) dp call
    by (cases call) (auto simp: serve_def serve_call_def on_approvals_def simp del: session_call.simps split: sum.splits prod.splits)
  have "rpc_operation r \<noteq> js ''health''"
    using dp call sc assms(2) by (auto simp: dispatch_def and_then_Inr_iff simp del: js_simps)
  from dispatch_ok [OF dp [unfolded call] this] obtain ow where ow: "owner env r = Inr ow" "call_ok env (sv_registry (dm_supervisor d)) r ow call" by blast
  have dir: "h_canon (rw_host rw) (ow_projectDirectory ow) = Some (ow_projectDirectory ow)"
    using ow(1) assms(4) by (auto simp: owner_def Let_def split: option.splits json.splits if_splits)
  have "\<exists>opts. call_options call = Some opts \<and> stored_for opts i (dm_supervisor d')"
    by (rule session_call_stored [OF sc assms(2,3)]) (use ow(2) dir in \<open>auto simp: call_ok_def\<close>)
  with ow(2) obtain x where x: "map_get (sv_records (dm_supervisor d')) i = Some x" "parentSessionId x = ow_parentSessionId ow"
    "ownerProjectDirectory x = ow_projectDirectory ow" "ownerCapabilityHash x = ow_capability ow"
    by (auto simp: call_ok_def stored_for_def)
  then have "owns (sv_registry (dm_supervisor d')) i ow' \<longleftrightarrow> ow_parentSessionId ow' = ow_parentSessionId ow \<and>
      ow_projectDirectory ow' = ow_projectDirectory ow \<and> ow_capability ow' = ow_capability ow" for ow'
    by (auto simp: owns_def registry_owns_def sv_records_def)
  with ow(1) show ?thesis by (auto simp: authorize_def)
qed


section \<open>Instances\<close>

definition sample_world :: request_world where
  "sample_world =
     \<lparr> rw_now = 9, rw_pid = 42, rw_fresh = js ''f'', rw_host = Supervisor_Runs.sample_host, rw_lower = (\<lambda>s. s), rw_start = failing_start,
       rw_expired = (\<lambda>_. idle_world), rw_cleanup = idle_world,
       rw_conversations = (\<lambda>_. \<lparr> vw_mark_write = True, vw_stop_write = True, vw_stop = Inl (js ''gone''), vw_final = silent_world,
         vw_cleanup = idle_world \<rparr>),
       rw_writes = (True, True), rw_final = silent_world, rw_snapshot = Inl (Sup_plain (js ''gone'')), rw_stop = Inl (js ''gone''),
       rw_resize = Inl (js ''gone''), rw_journal = sample_journal \<rparr>"

definition daemon_of :: "Supervisor \<Rightarrow> daemon" where
  "daemon_of sv = \<lparr> dm_supervisor = sv, dm_approvals = sample_approvals Pending, dm_inputUsage = [] \<rparr>"

text \<open>A clean-up request of another owner for a running session.\<close>

definition foreign_cleanup :: daemon_event where
  "foreign_cleanup = Request sample_world (sample_request_of (js ''cleanup'') [(js ''id'', JStr (session_id running_session))])"

lemma sample_digest_other: "js ''ab'' \<noteq> sample_digest"
proof
  assume "js ''ab'' = sample_digest"
  then have "length (js ''ab'') = length sample_digest" by (rule arg_cong)
  then show False by (simp add: sample_digest_def)
qed

theorem strangers_change_nothing_witness:
  "map_get (sv_records (dm_supervisor (daemon_runs.run sample_env it_command Linux no_regex 32 (daemon_of (sample_supervisor running_session))
     [foreign_cleanup]))) (session_id running_session) = Some running_session"
proof -
  let ?sv = "sample_supervisor running_session"
  have l: "ledger_ok (dm_supervisor (daemon_of ?sv))"
    unfolding daemon_of_def by simp (rule sample_ledger, simp_all add: running_session_def ownerKey_def)
  have e: "daemon_runs.run_enabled sample_env it_command Linux no_regex 32 (daemon_of ?sv) [foreign_cleanup]"
    by (simp add: foreign_cleanup_def fresh_ids_def sample_world_def failing_start_def daemon_of_def sample_supervisor_def
        running_session_def sample_record_def new_supervisor_def sv_records_def put_record_def sample_registry_def new_registry_def)
  have st: "list_all (of_stranger sample_env Linux running_session) [foreign_cleanup]"
    using sample_digest_other
    by (simp add: foreign_cleanup_def sample_rpc_owner sample_world_def Supervisor_Runs.sample_host_def owned_by_def running_session_def
        sample_record_def sample_rpc_owner_def)
  have x: "map_get (sv_records (dm_supervisor (daemon_of ?sv))) (session_id running_session) = Some running_session"
    unfolding daemon_of_def by simp
  have t: "\<not> isTerminal Linux running_session"
    by (simp add: running_session_def isTerminal_def activeStatus_def isActiveDaemonStatus_def)
  from strangers_change_nothing [OF l e st x t] show ?thesis by (rule conjunct1)
qed


definition home_session :: SessionRecord where
  "home_session = keyed_session\<lparr> ownerCapabilityHash := sample_digest \<rparr>"

definition home :: Supervisor where
  "home = (let sv = put_record home_session (new_supervisor DEFAULT_SESSION_LIMITS)
     in sv\<lparr> sv_registry := rebuildSlots Linux (sv_registry sv) \<rparr>)"

lemma home_initialize: "initialize Linux 9 (\<lambda>_. True) (\<lambda>_. True) [home_session] (new_supervisor DEFAULT_SESSION_LIMITS) = (Inr (), home)"
  by (simp add: initialize_def adopt_session_def home_session_def keyed_session_def running_session_def home_def Let_def abandoned_def
      noChildSpawnFailure_def) (simp add: sample_record_def)

lemma home_ledger: "ledger_ok home"
  by (rule initialize_Inr(1) [OF home_initialize sample_no_records])

lemma home_records: "sv_records home = [(js ''pty_1'', home_session)]"
  by (simp add: home_def Let_def sv_records_def put_record_def new_supervisor_def new_registry_def)
     (simp add: home_session_def keyed_session_def running_session_def sample_record_def)

definition spawn_request :: RpcRequest where
  "spawn_request = sample_request_of (js ''spawn'') [(js ''command'', JStr (js ''make'')), (js ''args'', JArr [JStr (js ''all'')]),
     (js ''idempotencyKey'', JStr (js ''build''))]"

lemma spawn_request_options:
  "\<exists>o1. spawnPayload (rpc_payload spawn_request) = Inr o1 \<and> so_command o1 = js ''make'' \<and> so_args o1 = Some [js ''all''] \<and>
     so_idempotencyKey o1 = Some (js ''build'') \<and> so_timeoutSeconds o1 = None \<and> so_name o1 = None \<and> so_env o1 = None \<and>
     so_inheritEnv o1 = None \<and> so_workdir o1 = None"
  by (simp add: spawn_request_def spawnPayload_def objectPayload_def onlyFields_def spawn_fields_def spawn_args_def spawn_env_def
        optionalNonnegativeInteger_def MAX_PAGE_SIZE_def optionalBoolean_def spawn_lifecycle_def optionalString_def
        requiredString_def MAX_STRING_LENGTH_def MAX_COMMAND_LENGTH_def MAX_ARGUMENTS_def string_list_def)


lemma home_answers:
  "serve sample_env it_command no_regex 32 sample_world spawn_request (daemon_of home) =
     (Inr (Served_session (toInfo home_session)), daemon_of home)"
proof -
  from spawn_request_options obtain o1 where o1: "spawnPayload (rpc_payload spawn_request) = Inr o1" "so_command o1 = js ''make''"
    "so_args o1 = Some [js ''all'']" "so_idempotencyKey o1 = Some (js ''build'')" "so_timeoutSeconds o1 = None" "so_name o1 = None"
    "so_env o1 = None" "so_inheritEnv o1 = None" "so_workdir o1 = None" by blast
  let ?o = "for_owner sample_rpc_owner o1"
  have ow: "owner sample_env spawn_request = Inr sample_rpc_owner" unfolding spawn_request_def by (rule sample_rpc_owner)
  have op: "rpc_operation spawn_request = js ''spawn''" by (simp add: spawn_request_def)
  have d: "dispatch sample_env (rw_now sample_world) (rw_fresh sample_world) (sv_registry home) spawn_request [] = (Inr (Call_spawn ?o), [])"
    using o1(1) ow op by (simp add: dispatch_def plain_call_def Let_def)
  have h: "activeStatus home_session" "\<not> truthy (pendingCleanup home_session)" "legacyTombstone home_session = None"
    "mode home_session = Mode_pty" "parentSessionId home_session = js ''ses_1''" "ownerProjectDirectory home_session = js ''/w''"
    "ownerCapabilityHash home_session = sample_digest" "workdir home_session = js ''/w''" "idempotencyKey home_session = Some (js ''build'')"
    "command home_session = js ''make''" "args home_session = [js ''all'']" "env_kind (environment home_session) = Env_safe"
    "env_fingerprint (environment home_session) = js ''f''" "session_name home_session = None" "timeoutSeconds home_session = None"
    by (simp_all add: home_session_def keyed_session_def running_session_def sample_record_def activeStatus_def isActiveDaemonStatus_def)
  have "find_idempotent Supervisor_Runs.sample_host ?o (map_values (sv_records home)) = Inr (Some home_session)"
    using h o1 by (simp add: home_records for_owner_def sample_rpc_owner_def canonicalWorkdir_def Supervisor_Runs.sample_host_def)
  moreover have "\<exists>env. sessionEnvironment Supervisor_Runs.sample_host ?o = Inr env" using o1
    by (simp add: sessionEnvironment_def Supervisor_Runs.sample_host_def for_owner_def runtimeEnvironment_def environment_base_def
        trustedPath_def fromEntries_def Let_def)
  ultimately have "idempotentSession Supervisor_Runs.sample_host ?o (nullish (so_args ?o) []) home = Inr (Some home_session)"
    using h o1 by (auto simp: idempotentSession_def truthy_text_def for_owner_def same_specification_def sessionProfile_def environmentProfile_def
        Supervisor_Runs.sample_host_def)
  moreover have "sv_persist home = Inr ()" by (simp add: home_def Let_def put_record_def new_supervisor_def)
  ultimately have "spawn Supervisor_Runs.sample_host 9 failing_start (\<lambda>_. idle_world) 32 ?o home = (Inr (toInfo home_session), home)"
    using o1 by (simp add: spawn_def flushed_def for_owner_def)
  then show ?thesis
    using d by (simp add: serve_def serve_call_def daemon_of_def serve_spawn_def on_supervisor_def sample_world_def)
qed

theorem new_session_belongs_to_requester_witness:
  "authorize (sv_registry (dm_supervisor (daemon_of home))) (js ''pty_1'') sample_rpc_owner = Inr () \<and>
   authorize (sv_registry (dm_supervisor (daemon_of home))) (js ''pty_1'') other_owner = Inl not_authorized"
proof -
  have i: "served_id (Served_session (toInfo home_session)) = Some (js ''pty_1'')"
    by (simp add: home_session_def keyed_session_def running_session_def sample_record_def)
  have l: "ledger_ok (dm_supervisor (daemon_of home))" using home_ledger by (simp add: daemon_of_def)
  have c: "realpath sample_env p = Some q \<Longrightarrow> h_canon (rw_host sample_world) q = Some q" for p q
    by (simp add: sample_world_def Supervisor_Runs.sample_host_def)
  have ow: "owner sample_env spawn_request = Inr sample_rpc_owner" unfolding spawn_request_def by (rule sample_rpc_owner)
  from new_session_belongs_to_requester [OF home_answers i l c] show ?thesis
    unfolding ow by (auto simp: sample_rpc_owner_def other_owner_def)
qed

end
