(* ===== verification/Daemon_Client.thy ===== *)
theory Daemon_Client
  imports Rpc
begin

text \<open>
  The client of the daemon in the plugin (plugin/pty/daemon-client.ts), as far as it speaks the protocol:
  owner contexts, capabilities, the request body, and one definition for every operation. The theorem
  composes it with the server: what the client sends is what the server dispatches. JSON text is left out
  on both sides, a request is the object that is sent.
\<close>

section \<open>Owners and requests\<close>

definition RPC_TIMEOUT_MS :: nat where "RPC_TIMEOUT_MS = 5000"
definition SPAWN_TIMEOUT_MS :: nat where "SPAWN_TIMEOUT_MS = 20000"

definition requestTimeout :: "nat \<Rightarrow> nat" where
  "requestTimeout seconds = seconds * 1000 + RPC_TIMEOUT_MS"

text \<open>The owner a tool works for; \<open>realpathSync\<close> throws when the directory does not exist.\<close>

definition ownerContext :: "server_env \<Rightarrow> js_string \<Rightarrow> js_string \<Rightarrow> (js_string, OwnerContext) result" where
  "ownerContext env parent dir =
     (if parent = [] \<or> dir = []
      then Inl (js ''PTY owner context requires a session id and project directory.'')
      else case realpath env dir of
        None \<Rightarrow> Inl (js ''ENOENT: no such file or directory'')
      | Some d \<Rightarrow> Inr \<lparr> ow_parentSessionId = parent, ow_projectDirectory = d, ow_capability = [] \<rparr>)"

definition client_capability :: "server_env \<Rightarrow> OwnerContext \<Rightarrow> js_string" where
  "client_capability env ow =
     sha256 env (ownershipSecret env @ [NUL] @ ow_parentSessionId ow @ [NUL] @ ow_projectDirectory ow)"

definition client_approvalCapability :: "server_env \<Rightarrow> OwnerContext \<Rightarrow> js_string" where
  "client_approvalCapability env ow =
     sha256 env (js ''approval'' @ [NUL] @ ownershipSecret env @ [NUL] @ ow_parentSessionId ow @ [NUL] @
       ow_projectDirectory ow)"

text \<open>\<open>JSON.stringify\<close> leaves out the properties that are \<open>undefined\<close>.\<close>

definition stringified :: "(js_string \<times> json option) list \<Rightarrow> payload" where
  "stringified fs = List.map_filter (\<lambda>(k, v). map_option (\<lambda>j. (k, j)) v) fs"

text \<open>The arguments of one \<open>call\<close>, the owner apart.\<close>

record rpc_args =
  ra_operation :: js_string
  ra_payload :: payload
  ra_timeout :: nat
  ra_approval :: bool

definition rpc_args_of :: "js_string \<Rightarrow> (js_string \<times> json option) list \<Rightarrow> nat \<Rightarrow> bool \<Rightarrow> rpc_args" where
  "rpc_args_of operation fs timeout approval =
     \<lparr> ra_operation = operation, ra_payload = stringified fs, ra_timeout = timeout, ra_approval = approval \<rparr>"

text \<open>The body of the request that \<open>call\<close> sends; \<open>uuid\<close> is the fresh request id.\<close>

definition call_body :: "server_env \<Rightarrow> js_string \<Rightarrow> OwnerContext option \<Rightarrow> rpc_args \<Rightarrow> payload" where
  "call_body env uuid ow a =
     stringified
       [(js ''id'', Some (JStr uuid)),
        (js ''version'', Some (JNum (int DAEMON_PROTOCOL_VERSION))),
        (js ''operation'', Some (JStr (ra_operation a))),
        (js ''owner'', map_option (\<lambda>c. JObj
           [(js ''parentSessionId'', JStr (ow_parentSessionId c)),
            (js ''projectDirectory'', JStr (ow_projectDirectory c)),
            (js ''capability'', JStr (client_capability env c))]) ow),
        (js ''approvalCapability'',
           if ra_approval a then map_option (\<lambda>c. JStr (client_approvalCapability env c)) ow else None),
        (js ''payload'', Some (JObj (ra_payload a)))]"

section \<open>The operations of the client\<close>

definition text_json :: "js_string option \<Rightarrow> json option" where
  "text_json t = map_option JStr t"

definition number_json :: "nat option \<Rightarrow> json option" where
  "number_json n = map_option (\<lambda>k. JNum (int k)) n"

fun lifecycle_json :: "SessionLifecycle \<Rightarrow> json" where
  "lifecycle_json Conversation = JStr (js ''conversation'')"
| "lifecycle_json Persistent = JStr (js ''persistent'')"

text \<open>The options of a spawn as the tools build them; the fields of the owner are the server's.\<close>

definition spawn_json :: "SpawnOptions \<Rightarrow> (js_string \<times> json option) list" where
  "spawn_json o1 =
     [(js ''command'', Some (JStr (so_command o1))),
      (js ''args'', map_option (\<lambda>ss. JArr (map JStr ss)) (so_args o1)),
      (js ''description'', text_json (so_description o1)),
      (js ''workdir'', text_json (so_workdir o1)),
      (js ''env'', map_option (\<lambda>es. JObj (map (\<lambda>(k, v). (k, JStr v)) es)) (so_env o1)),
      (js ''inheritEnv'', map_option JBool (so_inheritEnv o1)),
      (js ''lifecycle'', map_option lifecycle_json (so_lifecycle o1)),
      (js ''title'', text_json (so_title o1)),
      (js ''parentSessionId'', Some (JStr (so_parentSessionId o1))),
      (js ''parentAgent'', text_json (so_parentAgent o1)),
      (js ''timeoutSeconds'', number_json (so_timeoutSeconds o1)),
      (js ''name'', text_json (so_name o1)),
      (js ''idempotencyKey'', text_json (so_idempotencyKey o1)),
      (js ''maxOutputBytes'', number_json (so_maxOutputBytes o1))]"

fun condition_json :: "WaitCondition \<Rightarrow> json" where
  "condition_json Wait_exit = JObj [(js ''kind'', JStr (js ''exit''))]"
| "condition_json (Wait_output literal regex _) =
     JObj (stringified [(js ''kind'', Some (JStr (js ''output''))), (js ''literal'', text_json literal), (js ''regex'', text_json regex)])"

definition client_spawn :: "SpawnOptions \<Rightarrow> rpc_args" where
  "client_spawn o1 = rpc_args_of (js ''spawn'') (spawn_json o1) SPAWN_TIMEOUT_MS False"

definition client_exec :: "SpawnOptions \<Rightarrow> rpc_args" where
  "client_exec o1 = rpc_args_of (js ''exec'') (spawn_json o1) (requestTimeout (nullish (so_timeoutSeconds o1) 0)) False"

definition client_execStart :: "SpawnOptions \<Rightarrow> rpc_args" where
  "client_execStart o1 = rpc_args_of (js ''execStart'') (spawn_json o1) RPC_TIMEOUT_MS False"

definition client_execWait :: "js_string \<Rightarrow> nat \<Rightarrow> rpc_args" where
  "client_execWait i t = rpc_args_of (js ''execWait'')
     [(js ''id'', Some (JStr i)), (js ''timeoutSeconds'', Some (JNum (int t)))] (requestTimeout t) False"

definition client_wait :: "js_string \<Rightarrow> WaitCondition \<Rightarrow> nat \<Rightarrow> rpc_args" where
  "client_wait i c t = rpc_args_of (js ''wait'')
     [(js ''id'', Some (JStr i)), (js ''condition'', Some (condition_json c)), (js ''timeoutSeconds'', Some (JNum (int t)))]
     (requestTimeout t) False"

definition client_sendWait :: "js_string \<Rightarrow> js_string \<Rightarrow> WaitCondition \<Rightarrow> nat \<Rightarrow> rpc_args" where
  "client_sendWait i d c t = rpc_args_of (js ''sendWait'')
     [(js ''id'', Some (JStr i)), (js ''data'', Some (JStr d)), (js ''condition'', Some (condition_json c)),
      (js ''timeoutSeconds'', Some (JNum (int t)))] (requestTimeout t) False"

definition client_write :: "js_string \<Rightarrow> js_string \<Rightarrow> rpc_args" where
  "client_write i d = rpc_args_of (js ''write'') [(js ''id'', Some (JStr i)), (js ''data'', Some (JStr d))] RPC_TIMEOUT_MS False"

definition client_resize :: "js_string \<Rightarrow> nat \<Rightarrow> nat \<Rightarrow> rpc_args" where
  "client_resize i c r = rpc_args_of (js ''resize'')
     [(js ''id'', Some (JStr i)), (js ''cols'', Some (JNum (int c))), (js ''rows'', Some (JNum (int r)))] RPC_TIMEOUT_MS False"

definition client_read :: "js_string \<Rightarrow> nat option \<Rightarrow> nat option \<Rightarrow> nat option \<Rightarrow> rpc_args" where
  "client_read i off lim sq = rpc_args_of (js ''read'')
     [(js ''id'', Some (JStr i)), (js ''offset'', number_json off), (js ''limit'', number_json lim),
      (js ''sequence'', number_json sq)] RPC_TIMEOUT_MS False"

definition client_search ::
  "js_string \<Rightarrow> js_string \<Rightarrow> bool option \<Rightarrow> nat option \<Rightarrow> nat option \<Rightarrow> nat option \<Rightarrow> rpc_args" where
  "client_search i pat ic off lim sq = rpc_args_of (js ''search'')
     [(js ''id'', Some (JStr i)), (js ''pattern'', Some (JStr pat)), (js ''ignoreCase'', Some (JBool (nullish ic False))),
      (js ''offset'', number_json off), (js ''limit'', number_json lim), (js ''sequence'', number_json sq)] RPC_TIMEOUT_MS False"

definition client_list :: rpc_args where
  "client_list = rpc_args_of (js ''list'') [] RPC_TIMEOUT_MS False"

definition client_get :: "js_string \<Rightarrow> rpc_args" where
  "client_get i = rpc_args_of (js ''get'') [(js ''id'', Some (JStr i))] RPC_TIMEOUT_MS False"

definition client_getRawBuffer :: "js_string \<Rightarrow> rpc_args" where
  "client_getRawBuffer i = rpc_args_of (js ''rawOutput'') [(js ''id'', Some (JStr i))] RPC_TIMEOUT_MS False"

definition client_stop :: "js_string \<Rightarrow> rpc_args" where
  "client_stop i = rpc_args_of (js ''stop'') [(js ''id'', Some (JStr i))] RPC_TIMEOUT_MS False"

definition client_cleanup :: "js_string \<Rightarrow> rpc_args" where
  "client_cleanup i = rpc_args_of (js ''cleanup'') [(js ''id'', Some (JStr i))] RPC_TIMEOUT_MS False"

text \<open>The two requests of \<open>cleanupBySession\<close>.\<close>

definition client_cleanupBySession :: "OwnerContext option \<Rightarrow> rpc_args list" where
  "client_cleanupBySession ow =
     [rpc_args_of (js ''cleanupByParentSession'')
        [(js ''parentSessionId'', map_option (\<lambda>c. JStr (ow_parentSessionId c)) ow)] RPC_TIMEOUT_MS False,
      rpc_args_of (js ''approvalCleanupByParentSession'')
        [(js ''parentSessionId'', map_option (\<lambda>c. JStr (ow_parentSessionId c)) ow)] RPC_TIMEOUT_MS True]"

definition intent_json :: "approval_intent \<Rightarrow> (js_string \<times> json option) list" where
  "intent_json it =
     [(js ''command'', Some (JStr (it_command it))), (js ''reason'', text_json (it_reason it)),
      (js ''capability'', Some (JStr (it_capability it))), (js ''workdir'', Some (JStr (it_workdir it)))]"

definition creation_json :: "approval_intent \<Rightarrow> nat \<Rightarrow> nat option \<Rightarrow> (js_string \<times> json option) list" where
  "creation_json it expirySeconds uiLeaseSeconds =
     intent_json it @ [(js ''expirySeconds'', Some (JNum (int expirySeconds))), (js ''uiLeaseSeconds'', number_json uiLeaseSeconds)]"

definition client_createApproval :: "approval_intent \<Rightarrow> nat \<Rightarrow> nat option \<Rightarrow> rpc_args" where
  "client_createApproval it ex le = rpc_args_of (js ''approvalCreate'') (creation_json it ex le) RPC_TIMEOUT_MS True"

definition client_prepareApproval :: "approval_intent \<Rightarrow> nat \<Rightarrow> nat option \<Rightarrow> rpc_args" where
  "client_prepareApproval it ex le = rpc_args_of (js ''approvalPrepare'') (creation_json it ex le) RPC_TIMEOUT_MS True"

definition client_claimApproval :: "js_string \<Rightarrow> rpc_args" where
  "client_claimApproval i = rpc_args_of (js ''approvalClaim'') [(js ''id'', Some (JStr i))] RPC_TIMEOUT_MS True"

fun decision_text :: "decision \<Rightarrow> js_string" where
  "decision_text Approve_once = js ''approve_once''"
| "decision_text Approve_session = js ''approve_session''"
| "decision_text Reject = js ''reject''"

definition client_decideApproval :: "js_string \<Rightarrow> decision \<Rightarrow> js_string \<Rightarrow> rpc_args" where
  "client_decideApproval i d claimToken = rpc_args_of (js ''approvalDecide'')
     [(js ''id'', Some (JStr i)), (js ''decision'', Some (JStr (decision_text d))), (js ''claimToken'', Some (JStr claimToken))]
     RPC_TIMEOUT_MS True"

definition client_waitForApproval :: "js_string \<Rightarrow> nat \<Rightarrow> rpc_args" where
  "client_waitForApproval i t = rpc_args_of (js ''approvalWait'')
     [(js ''id'', Some (JStr i)), (js ''timeoutSeconds'', Some (JNum (int t)))] (requestTimeout t) True"

definition client_consumeApproval :: "js_string \<Rightarrow> approval_intent \<Rightarrow> rpc_args" where
  "client_consumeApproval i it = rpc_args_of (js ''approvalConsume'')
     ((js ''id'', Some (JStr i)) # intent_json it) RPC_TIMEOUT_MS True"

definition client_listApprovalGrants :: rpc_args where
  "client_listApprovalGrants = rpc_args_of (js ''approvalListGrants'') [] RPC_TIMEOUT_MS True"

definition client_listApprovalRequests :: rpc_args where
  "client_listApprovalRequests = rpc_args_of (js ''approvalListRequests'') [] RPC_TIMEOUT_MS True"

definition client_revokeApprovalGrant :: "js_string \<Rightarrow> rpc_args" where
  "client_revokeApprovalGrant i = rpc_args_of (js ''approvalRevokeGrant'') [(js ''id'', Some (JStr i))] RPC_TIMEOUT_MS True"

definition client_cancelApproval :: "js_string \<Rightarrow> rpc_args" where
  "client_cancelApproval i = rpc_args_of (js ''approvalCancel'') [(js ''id'', Some (JStr i))] RPC_TIMEOUT_MS True"

definition client_approveNativeApproval :: "js_string \<Rightarrow> rpc_args" where
  "client_approveNativeApproval i = rpc_args_of (js ''approvalNativeApprove'') [(js ''id'', Some (JStr i))] RPC_TIMEOUT_MS True"

section \<open>The server understands the client\<close>

lemma of_char_word_inj: "(of_char a :: 16 word) = of_char b \<longleftrightarrow> a = b"
proof
  assume "(of_char a :: 16 word) = of_char b"
  then have "unat (of_nat (of_char a) :: 16 word) = unat (of_nat (of_char b) :: 16 word)" by (simp only: of_nat_of_char)
  then have "(of_char a :: nat) = of_char b"
    using nat_of_char_less_256 [of a] nat_of_char_less_256 [of b] by (simp only: unat_of_nat) simp
  then show "a = b" by simp
qed simp

lemma js_Nil_iff: "js a = [] \<longleftrightarrow> a = []"
  by (simp add: js_def)

lemma js_eq_iff: "js a = js b \<longleftrightarrow> a = b"
  by (simp add: js_def list_eq_iff_nth_eq of_char_word_inj cong: conj_cong)

text \<open>What one method of the client, called with these arguments, asks for.\<close>

datatype client_method =
    Do_spawn SpawnOptions
  | Do_exec SpawnOptions
  | Do_execStart SpawnOptions
  | Do_execWait js_string nat
  | Do_wait js_string WaitCondition nat
  | Do_sendWait js_string js_string WaitCondition nat
  | Do_write js_string js_string
  | Do_resize js_string nat nat
  | Do_read js_string "nat option" "nat option" "nat option"
  | Do_search js_string js_string "bool option" "nat option" "nat option" "nat option"
  | Do_list
  | Do_get js_string
  | Do_getRawBuffer js_string
  | Do_stop js_string
  | Do_cleanup js_string
  | Do_cleanupSessions
  | Do_cleanupApprovals
  | Do_createApproval approval_intent nat "nat option"
  | Do_prepareApproval approval_intent nat "nat option"
  | Do_claimApproval js_string
  | Do_decideApproval js_string decision js_string
  | Do_waitForApproval js_string nat
  | Do_consumeApproval js_string approval_intent
  | Do_listApprovalGrants
  | Do_listApprovalRequests
  | Do_revokeApprovalGrant js_string
  | Do_cancelApproval js_string
  | Do_approveNativeApproval js_string

fun client_args :: "OwnerContext \<Rightarrow> client_method \<Rightarrow> rpc_args" where
  "client_args ow (Do_spawn o1) = client_spawn o1"
| "client_args ow (Do_exec o1) = client_exec o1"
| "client_args ow (Do_execStart o1) = client_execStart o1"
| "client_args ow (Do_execWait i t) = client_execWait i t"
| "client_args ow (Do_wait i c t) = client_wait i c t"
| "client_args ow (Do_sendWait i d c t) = client_sendWait i d c t"
| "client_args ow (Do_write i d) = client_write i d"
| "client_args ow (Do_resize i c r) = client_resize i c r"
| "client_args ow (Do_read i off lim sq) = client_read i off lim sq"
| "client_args ow (Do_search i pat ic off lim sq) = client_search i pat ic off lim sq"
| "client_args ow Do_list = client_list"
| "client_args ow (Do_get i) = client_get i"
| "client_args ow (Do_getRawBuffer i) = client_getRawBuffer i"
| "client_args ow (Do_stop i) = client_stop i"
| "client_args ow (Do_cleanup i) = client_cleanup i"
| "client_args ow Do_cleanupSessions = client_cleanupBySession (Some ow) ! 0"
| "client_args ow Do_cleanupApprovals = client_cleanupBySession (Some ow) ! 1"
| "client_args ow (Do_createApproval it ex le) = client_createApproval it ex le"
| "client_args ow (Do_prepareApproval it ex le) = client_prepareApproval it ex le"
| "client_args ow (Do_claimApproval i) = client_claimApproval i"
| "client_args ow (Do_decideApproval i d tok) = client_decideApproval i d tok"
| "client_args ow (Do_waitForApproval i t) = client_waitForApproval i t"
| "client_args ow (Do_consumeApproval i it) = client_consumeApproval i it"
| "client_args ow Do_listApprovalGrants = client_listApprovalGrants"
| "client_args ow Do_listApprovalRequests = client_listApprovalRequests"
| "client_args ow (Do_revokeApprovalGrant i) = client_revokeApprovalGrant i"
| "client_args ow (Do_cancelApproval i) = client_cancelApproval i"
| "client_args ow (Do_approveNativeApproval i) = client_approveNativeApproval i"

text \<open>The call of the daemon each of them stands for, and the limits its arguments keep.\<close>

definition canonical_intent :: "server_env \<Rightarrow> approval_intent \<Rightarrow> approval_intent" where
  "canonical_intent env it =
     \<lparr> it_command = nfc env (it_command it), it_capability = nfc env (it_capability it),
       it_workdir = nullish (realpath env (nfc env (it_workdir it))) [],
       it_reason = map_option (nfc env) (it_reason it) \<rparr>"

fun intended :: "server_env \<Rightarrow> int \<Rightarrow> js_string \<Rightarrow> OwnerContext \<Rightarrow> client_method \<Rightarrow> rpc_call" where
  "intended env now fresh ow (Do_spawn o1) = Call_spawn (for_owner ow o1)"
| "intended env now fresh ow (Do_exec o1) = Call_exec (for_owner ow o1)"
| "intended env now fresh ow (Do_execStart o1) = Call_execStart (for_owner ow o1)"
| "intended env now fresh ow (Do_execWait i t) = Call_execWait i t"
| "intended env now fresh ow (Do_wait i c t) = Call_wait i c t"
| "intended env now fresh ow (Do_sendWait i d c t) = Call_sendWait i d c t"
| "intended env now fresh ow (Do_write i d) = Call_write i d"
| "intended env now fresh ow (Do_resize i c r) = Call_resize i c r"
| "intended env now fresh ow (Do_read i off lim sq) = Call_read i off lim sq"
| "intended env now fresh ow (Do_search i pat ic off lim sq) = Call_search i pat (ic = Some True) off lim sq"
| "intended env now fresh ow Do_list = Call_list ow"
| "intended env now fresh ow (Do_get i) = Call_get i"
| "intended env now fresh ow (Do_getRawBuffer i) = Call_rawOutput i"
| "intended env now fresh ow (Do_stop i) = Call_stop i"
| "intended env now fresh ow (Do_cleanup i) = Call_cleanup i"
| "intended env now fresh ow Do_cleanupSessions =
     Call_cleanupByParentSession (ow_parentSessionId ow) (ow_projectDirectory ow) (ow_capability ow)"
| "intended env now fresh ow Do_cleanupApprovals = Call_approval ow (Op_cleanup (ow_parentSessionId ow))"
| "intended env now fresh ow (Do_createApproval it ex le) = Call_approval ow (Op_create fresh (canonical_intent env it) ex le)"
| "intended env now fresh ow (Do_prepareApproval it ex le) = Call_approval ow (Op_prepare fresh (canonical_intent env it) ex le)"
| "intended env now fresh ow (Do_claimApproval i) = Call_approval ow (Op_claim fresh i)"
| "intended env now fresh ow (Do_decideApproval i d tok) = Call_approval ow (Op_decide fresh i d (Inr tok))"
| "intended env now fresh ow (Do_waitForApproval i t) = Call_approvalWait ow i (now + int t * 1000)"
| "intended env now fresh ow (Do_consumeApproval i it) = Call_approval ow (Op_consume i (canonical_intent env it))"
| "intended env now fresh ow Do_listApprovalGrants = Call_approval ow Op_list_grants"
| "intended env now fresh ow Do_listApprovalRequests = Call_approval ow Op_list_requests"
| "intended env now fresh ow (Do_revokeApprovalGrant i) = Call_approval ow (Op_revoke_grant i)"
| "intended env now fresh ow (Do_cancelApproval i) = Call_approval ow (Op_cancel i)"
| "intended env now fresh ow (Do_approveNativeApproval i) = Call_approval ow (Op_native_approve i)"

definition text_fits :: "js_string \<Rightarrow> bool" where
  "text_fits s \<longleftrightarrow> s \<noteq> [] \<and> length s \<le> MAX_STRING_LENGTH"

definition short_text :: "js_string option \<Rightarrow> bool" where
  "short_text t \<longleftrightarrow> (case t of None \<Rightarrow> True | Some s \<Rightarrow> length s \<le> MAX_STRING_LENGTH)"

definition page_fits :: "nat option \<Rightarrow> bool" where
  "page_fits n \<longleftrightarrow> (case n of None \<Rightarrow> True | Some k \<Rightarrow> k \<le> MAX_PAGE_SIZE)"

definition sequence_fits :: "nat option \<Rightarrow> bool" where
  "sequence_fits n \<longleftrightarrow> (case n of None \<Rightarrow> True | Some k \<Rightarrow> isSafeInteger (int k))"

definition seconds_fit :: "nat \<Rightarrow> bool" where
  "seconds_fit t \<longleftrightarrow> 0 < t \<and> t \<le> MAX_PAGE_SIZE"

definition spawn_fits :: "SpawnOptions \<Rightarrow> bool" where
  "spawn_fits o1 \<longleftrightarrow>
     so_command o1 \<noteq> [] \<and> length (so_command o1) \<le> MAX_COMMAND_LENGTH \<and>
     (case so_args o1 of None \<Rightarrow> True
      | Some ss \<Rightarrow> length ss \<le> MAX_ARGUMENTS \<and> list_all (\<lambda>s. length s \<le> MAX_STRING_LENGTH) ss) \<and>
     (case so_env o1 of None \<Rightarrow> True
      | Some es \<Rightarrow> length es \<le> MAX_ENVIRONMENT_ENTRIES \<and>
          list_all (\<lambda>(k, v). length k \<le> 256 \<and> length v \<le> MAX_STRING_LENGTH) es) \<and>
     short_text (so_description o1) \<and> short_text (so_workdir o1) \<and> short_text (so_title o1) \<and>
     length (so_parentSessionId o1) \<le> MAX_STRING_LENGTH \<and> short_text (so_parentAgent o1) \<and>
     short_text (so_name o1) \<and> short_text (so_idempotencyKey o1) \<and>
     (case so_timeoutSeconds o1 of None \<Rightarrow> True | Some t \<Rightarrow> seconds_fit t)"

definition exec_fits :: "SpawnOptions \<Rightarrow> bool" where
  "exec_fits o1 \<longleftrightarrow> spawn_fits o1 \<and> so_name o1 = None \<and> so_idempotencyKey o1 = None \<and>
     nullish (so_timeoutSeconds o1) 0 \<le> MAX_EXEC_RUNTIME_SECONDS \<and>
     (case so_maxOutputBytes o1 of None \<Rightarrow> True | Some n \<Rightarrow> 0 < n \<and> n \<le> MAX_REQUEST_BYTES)"

fun condition_fits :: "WaitCondition \<Rightarrow> bool" where
  "condition_fits Wait_exit = True"
| "condition_fits (Wait_output literal regex since) =
     (short_text literal \<and> short_text regex \<and> since = None \<and>
      (truthy_text literal = None) \<noteq> (truthy_text regex = None))"

definition intent_text_fits :: "server_env \<Rightarrow> nat \<Rightarrow> js_string \<Rightarrow> bool" where
  "intent_text_fits env n s \<longleftrightarrow> text_fits s \<and> length (nfc env s) \<le> n \<and> NUL \<notin> set (nfc env s)"

definition intent_fits :: "server_env \<Rightarrow> approval_intent \<Rightarrow> bool" where
  "intent_fits env it \<longleftrightarrow>
     intent_text_fits env MAX_COMMAND_LENGTH (it_command it) \<and> intent_text_fits env 1024 (it_capability it) \<and>
     intent_text_fits env MAX_STRING_LENGTH (it_workdir it) \<and>
     realpath env (nfc env (it_workdir it)) \<noteq> None \<and>
     (case it_reason it of None \<Rightarrow> True | Some s \<Rightarrow> intent_text_fits env MAX_STRING_LENGTH s)"

definition expiry_fits :: "nat \<Rightarrow> bool" where
  "expiry_fits t \<longleftrightarrow> seconds_fit t \<and> t \<le> MAX_APPROVAL_EXPIRY_SECONDS"

definition lease_fits :: "nat option \<Rightarrow> bool" where
  "lease_fits n \<longleftrightarrow> (case n of None \<Rightarrow> True | Some k \<Rightarrow> MIN_UI_LEASE_SECONDS \<le> k \<and> k \<le> MAX_UI_LEASE_SECONDS)"

text \<open>The session a method works on must belong to the owner, and input must fit the budget.\<close>

definition session_fits :: "SessionRegistry \<Rightarrow> OwnerContext \<Rightarrow> js_string \<Rightarrow> bool" where
  "session_fits g ow i \<longleftrightarrow> text_fits i \<and> owns g i ow"

definition input_fits :: "int \<Rightarrow> OwnerContext \<Rightarrow> input_usage \<Rightarrow> js_string \<Rightarrow> bool" where
  "input_fits now ow used d \<longleftrightarrow> text_fits d \<and> (case useInput now ow d used of Inl _ \<Rightarrow> False | Inr _ \<Rightarrow> True)"

fun method_fits :: "server_env \<Rightarrow> int \<Rightarrow> SessionRegistry \<Rightarrow> OwnerContext \<Rightarrow> input_usage \<Rightarrow> client_method \<Rightarrow> bool" where
  "method_fits env now g ow used (Do_spawn o1) = (spawn_fits o1 \<and> so_maxOutputBytes o1 = None)"
| "method_fits env now g ow used (Do_exec o1) = exec_fits o1"
| "method_fits env now g ow used (Do_execStart o1) = exec_fits o1"
| "method_fits env now g ow used (Do_execWait i t) = (session_fits g ow i \<and> seconds_fit t)"
| "method_fits env now g ow used (Do_wait i c t) = (session_fits g ow i \<and> condition_fits c \<and> seconds_fit t)"
| "method_fits env now g ow used (Do_sendWait i d c t) =
     (session_fits g ow i \<and> input_fits now ow used d \<and> condition_fits c \<and> seconds_fit t)"
| "method_fits env now g ow used (Do_write i d) = (session_fits g ow i \<and> input_fits now ow used d)"
| "method_fits env now g ow used (Do_resize i c r) = (session_fits g ow i \<and> 1 \<le> c \<and> c \<le> 1000 \<and> 1 \<le> r \<and> r \<le> 1000)"
| "method_fits env now g ow used (Do_read i off lim sq) =
     (session_fits g ow i \<and> page_fits off \<and> page_fits lim \<and> sequence_fits sq)"
| "method_fits env now g ow used (Do_search i pat ic off lim sq) =
     (session_fits g ow i \<and> text_fits pat \<and> page_fits off \<and> page_fits lim \<and> sequence_fits sq)"
| "method_fits env now g ow used Do_list = True"
| "method_fits env now g ow used (Do_get i) = session_fits g ow i"
| "method_fits env now g ow used (Do_getRawBuffer i) = session_fits g ow i"
| "method_fits env now g ow used (Do_stop i) = session_fits g ow i"
| "method_fits env now g ow used (Do_cleanup i) = session_fits g ow i"
| "method_fits env now g ow used Do_cleanupSessions = (length (ow_parentSessionId ow) \<le> MAX_STRING_LENGTH)"
| "method_fits env now g ow used Do_cleanupApprovals = (length (ow_parentSessionId ow) \<le> MAX_STRING_LENGTH)"
| "method_fits env now g ow used (Do_createApproval it ex le) = (intent_fits env it \<and> expiry_fits ex \<and> lease_fits le)"
| "method_fits env now g ow used (Do_prepareApproval it ex le) = (intent_fits env it \<and> expiry_fits ex \<and> lease_fits le)"
| "method_fits env now g ow used (Do_claimApproval i) = text_fits i"
| "method_fits env now g ow used (Do_decideApproval i d tok) = (text_fits i \<and> text_fits tok)"
| "method_fits env now g ow used (Do_waitForApproval i t) = (text_fits i \<and> expiry_fits t)"
| "method_fits env now g ow used (Do_consumeApproval i it) = (text_fits i \<and> intent_fits env it)"
| "method_fits env now g ow used Do_listApprovalGrants = True"
| "method_fits env now g ow used Do_listApprovalRequests = True"
| "method_fits env now g ow used (Do_revokeApprovalGrant i) = text_fits i"
| "method_fits env now g ow used (Do_cancelApproval i) = text_fits i"
| "method_fits env now g ow used (Do_approveNativeApproval i) = text_fits i"

subsection \<open>Fields survive the encoding\<close>

lemma stringified_simps [simp]:
  "stringified [] = []"
  "stringified ((k, Some v) # fs) = (k, v) # stringified fs"
  "stringified ((k, None) # fs) = stringified fs"
  by (simp_all add: stringified_def List.map_filter_simps)

lemma stringified_append: "stringified (fs @ gs) = stringified fs @ stringified gs"
  by (simp add: stringified_def List.map_filter_def)

lemma keys_stringified: "fst ` set (stringified fs) \<subseteq> fst ` set fs"
proof (induction fs)
  case (Cons f fs)
  obtain k v where "f = (k, v)" by fastforce
  with Cons show ?case by (cases v) auto
qed simp

lemma lookup_stringified:
  "distinct (map fst fs) \<Longrightarrow> map_of (stringified fs) k = Option.bind (map_of fs k) id"
proof (induction fs)
  case (Cons f fs)
  obtain k' v where f: "f = (k', v)" by fastforce
  have "map_of fs k = None" if "k = k'" using Cons.prems f that by (simp add: map_of_eq_None_iff)
  with Cons f show ?case by (cases v) auto
qed simp

lemma onlyFields_stringified:
  "fst ` set fs \<subseteq> set names \<Longrightarrow> onlyFields (stringified fs) names = Inr ()"
  using order_trans [OF keys_stringified] by (simp only: onlyFields_Inr)

lemma requiredString_fits: "map_of m k = Some (JStr s) \<Longrightarrow> text_fits s \<Longrightarrow> requiredString m k = Inr s"
  by (simp add: requiredString_def text_fits_def)

lemma optionalString_fits: "map_of m k = text_json t \<Longrightarrow> short_text t \<Longrightarrow> optionalString m k = Inr t"
  by (cases t) (simp_all add: optionalString_def text_json_def short_text_def)

lemma page_number_fits: "map_of m k = number_json n \<Longrightarrow> page_fits n \<Longrightarrow> optionalNonnegativeInteger m k = Inr n"
  by (cases n) (simp_all add: optionalNonnegativeInteger_def number_json_def page_fits_def)

lemma sequence_number_fits: "map_of m k = number_json n \<Longrightarrow> sequence_fits n \<Longrightarrow> optionalSequence m k = Inr n"
  by (cases n) (simp_all add: optionalSequence_def number_json_def sequence_fits_def)

lemma seconds_number_fits: "map_of m k = Some (JNum (int t)) \<Longrightarrow> seconds_fit t \<Longrightarrow> requiredPositiveInteger m k = Inr t"
  by (simp add: requiredPositiveInteger_def optionalNonnegativeInteger_def seconds_fit_def)

lemma boolean_fits: "map_of m k = map_option JBool b \<Longrightarrow> optionalBoolean m k = Inr b"
  by (cases b) (simp_all add: optionalBoolean_def)

lemma bounded_number_fits:
  "map_of m k = Some (JNum (int n)) \<Longrightarrow> 1 \<le> n \<Longrightarrow> n \<le> b \<Longrightarrow> isSafeInteger (int n) \<Longrightarrow> requiredBoundedInteger m k b = Inr n"
  by (simp add: requiredBoundedInteger_def)

lemma authorize_fits: "session_fits g ow i \<Longrightarrow> authorize g i ow = Inr ()"
  by (simp add: session_fits_def authorize_def)

lemma session_text: "session_fits g ow i \<Longrightarrow> text_fits i"
  by (simp add: session_fits_def)

lemmas field_fits = requiredString_fits optionalString_fits page_number_fits sequence_number_fits seconds_number_fits
  boolean_fits bounded_number_fits authorize_fits session_text

subsection \<open>The owner of a request\<close>

definition authenticated :: "server_env \<Rightarrow> OwnerContext \<Rightarrow> OwnerContext" where
  "authenticated env ow = ow\<lparr> ow_capability := client_capability env ow \<rparr>"

definition client_request :: "server_env \<Rightarrow> js_string \<Rightarrow> OwnerContext \<Rightarrow> rpc_args \<Rightarrow> RpcRequest" where
  "client_request env uuid ow a =
     \<lparr> rpc_id = uuid, rpc_version = int DAEMON_PROTOCOL_VERSION, rpc_operation = ra_operation a,
       rpc_owner = Some (JObj
           [(js ''parentSessionId'', JStr (ow_parentSessionId ow)),
            (js ''projectDirectory'', JStr (ow_projectDirectory ow)),
            (js ''capability'', JStr (client_capability env ow))]),
       rpc_approvalCapability = (if ra_approval a then Some (JStr (client_approvalCapability env ow)) else None),
       rpc_payload = Some (JObj (ra_payload a)) \<rparr>"

lemma client_request_parsed:
  assumes "uuid \<noteq> []" "length uuid \<le> MAX_ID_LENGTH" "ra_operation a \<noteq> []" "length (ra_operation a) \<le> 64"
  shows "rpc_request_of (call_body env uuid (Some ow) a) = Some (client_request env uuid ow a)"
  using assms
  by (cases "ra_approval a")
    (simp_all add: rpc_request_of_def call_body_def client_request_def js_eq_iff del: js_simps)

lemma client_owner:
  assumes "ownerContext env parent dir = Inr ow" "\<And>x. hex_digest (sha256 env x)"
    and "\<And>d p. realpath env d = Some p \<Longrightarrow> realpath env p = Some p \<and> p \<noteq> []"
  shows "owner env (client_request env uuid ow a) = Inr (authenticated env ow)"
  using assms
  by (auto simp: ownerContext_def owner_def client_request_def text_field_def authenticated_def client_capability_def
      capability_def js_eq_iff simp del: js_simps split: if_splits option.splits)

lemma client_approval_owner:
  assumes "ownerContext env parent dir = Inr ow" "\<And>x. hex_digest (sha256 env x)"
    and "\<And>d p. realpath env d = Some p \<Longrightarrow> realpath env p = Some p \<and> p \<noteq> []" "ra_approval a"
  shows "approvalOwner env (client_request env uuid ow a) = Inr (authenticated env ow)"
proof -
  have "length (client_approvalCapability env ow) = 64"
    using assms(2) by (simp only: client_approvalCapability_def hex_digest_def)
  moreover have "client_approvalCapability env ow = approvalCapability env (ow_parentSessionId ow) (ow_projectDirectory ow)"
    by (simp only: client_approvalCapability_def approvalCapability_def)
  moreover have "rpc_approvalCapability (client_request env uuid ow a) = Some (JStr (client_approvalCapability env ow))"
    using assms(4) by (simp add: client_request_def)
  ultimately show ?thesis
    using client_owner [OF assms(1-3), where uuid=uuid and a=a] by (simp add: approvalOwner_def authenticated_def)
qed

subsection \<open>The payloads\<close>

lemma onlyFields_present:
  "(\<And>k v. (k, Some v) \<in> set fs \<Longrightarrow> k \<in> set names) \<Longrightarrow> onlyFields (stringified fs) names = Inr ()"
  by (auto simp: onlyFields_Inr stringified_def List.map_filter_def image_iff)

lemma spawn_json_distinct: "distinct (map fst (spawn_json o1))"
  by (simp add: spawn_json_def js_eq_iff del: js_simps)

lemma spawn_lookup:
  "map_of (stringified (spawn_json o1)) (js ''command'') = Some (JStr (so_command o1))"
  "map_of (stringified (spawn_json o1)) (js ''args'') = map_option (\<lambda>ss. JArr (map JStr ss)) (so_args o1)"
  "map_of (stringified (spawn_json o1)) (js ''description'') = text_json (so_description o1)"
  "map_of (stringified (spawn_json o1)) (js ''workdir'') = text_json (so_workdir o1)"
  "map_of (stringified (spawn_json o1)) (js ''env'') = map_option (\<lambda>es. JObj (map (\<lambda>(k, v). (k, JStr v)) es)) (so_env o1)"
  "map_of (stringified (spawn_json o1)) (js ''inheritEnv'') = map_option JBool (so_inheritEnv o1)"
  "map_of (stringified (spawn_json o1)) (js ''lifecycle'') = map_option lifecycle_json (so_lifecycle o1)"
  "map_of (stringified (spawn_json o1)) (js ''title'') = text_json (so_title o1)"
  "map_of (stringified (spawn_json o1)) (js ''parentSessionId'') = text_json (Some (so_parentSessionId o1))"
  "map_of (stringified (spawn_json o1)) (js ''parentAgent'') = text_json (so_parentAgent o1)"
  "map_of (stringified (spawn_json o1)) (js ''timeoutSeconds'') = number_json (so_timeoutSeconds o1)"
  "map_of (stringified (spawn_json o1)) (js ''name'') = text_json (so_name o1)"
  "map_of (stringified (spawn_json o1)) (js ''idempotencyKey'') = text_json (so_idempotencyKey o1)"
  "map_of (stringified (spawn_json o1)) (js ''maxOutputBytes'') = number_json (so_maxOutputBytes o1)"
  by (simp_all only: lookup_stringified [OF spawn_json_distinct])
    (simp_all add: spawn_json_def js_eq_iff text_json_def del: js_simps)

lemma string_list_texts [simp]: "string_list (map JStr ss) = Some ss"
  by (simp add: string_list_def list_all_iff comp_def)

lemma spawn_args_fits:
  assumes "map_of m (js ''args'') = map_option (\<lambda>ss. JArr (map JStr ss)) a"
    and "case a of None \<Rightarrow> True | Some ss \<Rightarrow> length ss \<le> MAX_ARGUMENTS \<and> list_all (\<lambda>s. length s \<le> MAX_STRING_LENGTH) ss"
  shows "spawn_args m = Inr a"
  using assms by (cases a) (auto simp: spawn_args_def list_all_iff list_ex_iff simp del: js_simps)

lemma spawn_env_fits:
  assumes "map_of m (js ''env'') = map_option (\<lambda>es. JObj (map (\<lambda>(k, v). (k, JStr v)) es)) e"
    and "case e of None \<Rightarrow> True | Some es \<Rightarrow> length es \<le> MAX_ENVIRONMENT_ENTRIES \<and>
      list_all (\<lambda>(k, v). length k \<le> 256 \<and> length v \<le> MAX_STRING_LENGTH) es"
  shows "spawn_env m = Inr e"
proof (cases e)
  case None
  with assms show ?thesis by (simp add: spawn_env_def del: js_simps)
next
  case (Some es)
  have s: "map snd (map (\<lambda>(k, v). (k, JStr v)) es) = map JStr (map snd es)"
    "map fst (map (\<lambda>(k, v). (k, JStr v)) es) = map fst es" by auto
  have z: "zip (map fst es) (map snd es) = es" by (simp add: zip_map_fst_snd)
  have n: "\<not> list_ex (\<lambda>(k, v). length k > 256 \<or> length v > MAX_STRING_LENGTH) es"
    using assms(2) Some by (fastforce simp: list_all_iff list_ex_iff)
  show ?thesis
    using assms Some n by (simp add: spawn_env_def s z Let_def del: js_simps map_map list.map_comp)
qed

lemma spawn_lifecycle_fits:
  assumes "map_of m (js ''lifecycle'') = map_option lifecycle_json l"
  shows "spawn_lifecycle m = Inr l"
proof (cases l)
  case None
  with assms show ?thesis by (simp add: spawn_lifecycle_def optionalString_def del: js_simps)
next
  case (Some x)
  with assms show ?thesis
    by (cases x) (simp_all add: spawn_lifecycle_def optionalString_def MAX_STRING_LENGTH_def js_eq_iff del: js_simps)
qed

lemma spawn_only:
  "so_maxOutputBytes o1 = None \<Longrightarrow> onlyFields (stringified (spawn_json o1)) spawn_fields = Inr ()"
  by (rule onlyFields_present) (auto simp: spawn_json_def spawn_fields_def number_json_def js_eq_iff simp del: js_simps)

lemma exec_only:
  "so_name o1 = None \<Longrightarrow> so_idempotencyKey o1 = None \<Longrightarrow> onlyFields (stringified (spawn_json o1)) exec_fields = Inr ()"
  by (rule onlyFields_present) (auto simp: spawn_json_def exec_fields_def text_json_def js_eq_iff simp del: js_simps)

lemma command_fits: "spawn_fits o1 \<Longrightarrow> text_fits (so_command o1)"
  by (auto simp: spawn_fits_def text_fits_def MAX_COMMAND_LENGTH_def MAX_STRING_LENGTH_def)

lemma spawnPayload_fits:
  assumes f: "spawn_fits o1" and "so_maxOutputBytes o1 = None"
  shows "spawnPayload (Some (JObj (stringified (spawn_json o1)))) =
    Inr (o1\<lparr> so_ownerProjectDirectory := [], so_ownerCapabilityHash := [] \<rparr>)"
proof -
  have t: "page_fits (so_timeoutSeconds o1)" "so_timeoutSeconds o1 \<noteq> Some 0"
    using f by (auto simp: spawn_fits_def page_fits_def seconds_fit_def split: option.splits)
  have p: "short_text (Some (so_parentSessionId o1))" using f by (simp add: spawn_fits_def short_text_def)
  note l = spawn_lookup [of o1]
  note [simp] = spawn_only [OF assms(2)] spawn_args_fits [OF l(2)] spawn_env_fits [OF l(5)] spawn_lifecycle_fits [OF l(7)]
    page_number_fits [OF l(11) t(1)] boolean_fits [OF l(6)] requiredString_fits [OF l(1) command_fits [OF f]]
    optionalString_fits [OF l(3)] optionalString_fits [OF l(4)] optionalString_fits [OF l(8)] optionalString_fits [OF l(9) p]
    optionalString_fits [OF l(10)] optionalString_fits [OF l(12)] optionalString_fits [OF l(13)]
  show ?thesis
    using f t(2) assms(2) by (simp add: spawnPayload_def objectPayload_def spawn_fits_def del: js_simps)
qed

lemma without_maxOutputBytes:
  "filter (\<lambda>(k, _). k \<noteq> js ''maxOutputBytes'') (stringified (spawn_json o1)) =
   stringified (spawn_json (o1\<lparr> so_maxOutputBytes := None \<rparr>))"
proof -
  have "filter (\<lambda>(k, _). P k) (stringified fs) = stringified (filter (\<lambda>(k, _). P k) fs)" for P and fs :: "(js_string \<times> json option) list"
    by (induction fs) (auto simp: stringified_def List.map_filter_def)
  moreover have "spawn_json (o1\<lparr> so_maxOutputBytes := None \<rparr>) =
      filter (\<lambda>(k, _). k \<noteq> js ''maxOutputBytes'') (spawn_json o1) @ [(js ''maxOutputBytes'', None)]"
    by (simp add: spawn_json_def js_eq_iff number_json_def del: js_simps)
  ultimately show ?thesis by (simp add: stringified_append del: js_simps)
qed

lemma execPayload_fits:
  assumes f: "exec_fits o1"
  shows "execPayload (Some (JObj (stringified (spawn_json o1)))) =
    Inr (o1\<lparr> so_ownerProjectDirectory := [], so_ownerCapabilityHash := [] \<rparr>)"
proof -
  have s: "spawn_fits (o1\<lparr> so_maxOutputBytes := None \<rparr>)" using f by (auto simp: exec_fits_def spawn_fits_def)
  have m: "optionalBoundedInteger (stringified (spawn_json o1)) (js ''maxOutputBytes'') MAX_REQUEST_BYTES =
      Inr (so_maxOutputBytes o1)" "so_maxOutputBytes o1 \<noteq> Some 0"
    using f spawn_lookup(14) [of o1]
    by (auto simp: exec_fits_def optionalBoundedInteger_def number_json_def isSafeInteger_def MAX_SAFE_INTEGER_def
        MAX_REQUEST_BYTES_def simp del: js_simps split: option.splits)
  have e: "onlyFields (stringified (spawn_json o1)) exec_fields = Inr ()" using f exec_only by (simp add: exec_fits_def)
  show ?thesis
    using spawnPayload_fits [OF s] m e
    by (simp add: execPayload_def objectPayload_def without_maxOutputBytes del: js_simps)
qed

lemma exec_options_fits:
  "exec_fits o1 \<Longrightarrow> exec_options ow (o1\<lparr> so_ownerProjectDirectory := [], so_ownerCapabilityHash := [] \<rparr>) = Inr (for_owner ow o1)"
  by (simp add: exec_options_def exec_fits_def for_owner_def)

lemma condition_roundtrip:
  assumes "condition_fits c" shows "waitCondition (Some (condition_json c)) = Inr c"
proof (cases c)
  case Wait_exit
  then show ?thesis
    by (simp add: waitCondition_def objectPayload_def requiredString_def onlyFields_def js_eq_iff js_Nil_iff MAX_STRING_LENGTH_def del: js_simps)
next
  case (Wait_output literal regex since)
  let ?fs = "[(js ''kind'', Some (JStr (js ''output''))), (js ''literal'', text_json literal), (js ''regex'', text_json regex)]"
  have d: "distinct (map fst ?fs)" by (simp add: js_eq_iff del: js_simps)
  have l: "map_of (stringified ?fs) (js ''kind'') = Some (JStr (js ''output''))"
    "map_of (stringified ?fs) (js ''literal'') = text_json literal" "map_of (stringified ?fs) (js ''regex'') = text_json regex"
    by (simp_all only: lookup_stringified [OF d]) (simp_all add: js_eq_iff del: js_simps)
  have k: "requiredString (stringified ?fs) (js ''kind'') = Inr (js ''output'')"
    using l(1) by (rule requiredString_fits) (simp add: text_fits_def MAX_STRING_LENGTH_def)
  have o1: "onlyFields (stringified ?fs) [js ''kind'', js ''literal'', js ''regex''] = Inr ()"
    by (rule onlyFields_stringified) simp
  have "optionalString (stringified ?fs) (js ''literal'') = Inr literal" "optionalString (stringified ?fs) (js ''regex'') = Inr regex"
    using l(2,3) assms Wait_output by (auto intro!: optionalString_fits)
  with k o1 assms Wait_output show ?thesis
    by (simp only: condition_json.simps waitCondition_def objectPayload_def option.case json.case and_then_simps)
      (auto simp: js_eq_iff simp del: js_simps stringified_simps)
qed

lemma intent_lookup:
  assumes "distinct (map fst (fs @ intent_json it @ gs))"
  shows "map_of (stringified (fs @ intent_json it @ gs)) (js ''command'') = Some (JStr (it_command it))"
    "map_of (stringified (fs @ intent_json it @ gs)) (js ''reason'') = text_json (it_reason it)"
    "map_of (stringified (fs @ intent_json it @ gs)) (js ''capability'') = Some (JStr (it_capability it))"
    "map_of (stringified (fs @ intent_json it @ gs)) (js ''workdir'') = Some (JStr (it_workdir it))"
proof -
  have n: "map_of fs k = None" if "k \<in> fst ` set (intent_json it)" for k
    using assms that by (auto simp: map_of_eq_None_iff)
  have m: "fst ` set (intent_json it) = {js ''command'', js ''reason'', js ''capability'', js ''workdir''}"
    by (auto simp: intent_json_def)
  have a: "map_of (fs @ intent_json it @ gs) k = map_of (intent_json it) k" if "k \<in> fst ` set (intent_json it)" for k
  proof -
    have "map_of (intent_json it) k \<noteq> None" using that by (simp only: map_of_eq_None_iff not_not)
    then obtain v where "map_of (intent_json it) k = Some v" by blast
    with n [OF that] show ?thesis by (simp add: map_add_def)
  qed
  show "map_of (stringified (fs @ intent_json it @ gs)) (js ''command'') = Some (JStr (it_command it))"
    "map_of (stringified (fs @ intent_json it @ gs)) (js ''reason'') = text_json (it_reason it)"
    "map_of (stringified (fs @ intent_json it @ gs)) (js ''capability'') = Some (JStr (it_capability it))"
    "map_of (stringified (fs @ intent_json it @ gs)) (js ''workdir'') = Some (JStr (it_workdir it))"
    by (simp_all only: lookup_stringified [OF assms] a m insertI1 insertI2)
      (simp_all add: intent_json_def js_eq_iff text_json_def del: js_simps)
qed

lemma approvalText_fits:
  "map_of m k = Some (JStr s) \<Longrightarrow> intent_text_fits env n s \<Longrightarrow> approvalText env m k n = Inr (nfc env s)"
  by (simp add: approvalText_def requiredString_fits intent_text_fits_def)

lemma approvalIntent_fits:
  assumes d: "distinct (map fst (fs @ intent_json it @ gs))" and f: "intent_fits env it"
  shows "approvalIntent env (stringified (fs @ intent_json it @ gs)) = Inr (canonical_intent env it)"
proof -
  let ?m = "stringified (fs @ intent_json it @ gs)"
  note l = intent_lookup [OF d]
  have "approvalText_optional env ?m (js ''reason'') MAX_STRING_LENGTH = Inr (map_option (nfc env) (it_reason it))"
    using l(2) f
    by (cases "it_reason it") (simp_all add: approvalText_optional_def text_json_def intent_fits_def approvalText_fits del: js_simps)
  moreover obtain p where "realpath env (nfc env (it_workdir it)) = Some p" using f by (auto simp: intent_fits_def)
  ultimately show ?thesis
    using f approvalText_fits [OF l(1)] approvalText_fits [OF l(3)] approvalText_fits [OF l(4)]
    by (simp add: approvalIntent_def canonicalApprovalWorkdir_def canonical_intent_def intent_fits_def del: js_simps)
qed

subsection \<open>The calls\<close>

lemma client_request_sel [simp]:
  "rpc_operation (client_request env uuid ow a) = ra_operation a"
  "rpc_payload (client_request env uuid ow a) = Some (JObj (ra_payload a))"
  by (simp_all add: client_request_def)

lemma rpc_args_of_sel [simp]:
  "ra_operation (rpc_args_of operation fs timeout approval) = operation"
  "ra_payload (rpc_args_of operation fs timeout approval) = stringified fs"
  "ra_timeout (rpc_args_of operation fs timeout approval) = timeout"
  "ra_approval (rpc_args_of operation fs timeout approval) = approval"
  by (simp_all add: rpc_args_of_def)

lemma id_payload_fits:
  "session_fits g ow i \<Longrightarrow> id_payload g ow (Some (JObj (stringified [(js ''id'', Some (JStr i))]))) = Inr i"
  by (simp add: id_payload_def objectPayload_def onlyFields_def field_fits del: js_simps)

lemma execWait_fits:
  "session_fits g ow i \<Longrightarrow> seconds_fit t \<Longrightarrow> execWait_call g ow (Some (JObj (ra_payload (client_execWait i t)))) = Inr (Call_execWait i t)"
  by (simp add: client_execWait_def execWait_call_def objectPayload_def onlyFields_def field_fits js_eq_iff del: js_simps)

lemma wait_fits:
  "session_fits g ow i \<Longrightarrow> condition_fits c \<Longrightarrow> seconds_fit t \<Longrightarrow>
   wait_call g ow (Some (JObj (ra_payload (client_wait i c t)))) = Inr (Call_wait i c t)"
  by (simp add: client_wait_def wait_call_def objectPayload_def onlyFields_def field_fits condition_roundtrip js_eq_iff
      del: js_simps condition_json.simps)

lemma resize_fits:
  assumes "session_fits g ow i" "1 \<le> c" "c \<le> 1000" "1 \<le> r" "r \<le> 1000"
  shows "resize_call g ow (Some (JObj (ra_payload (client_resize i c r)))) = Inr (Call_resize i c r)"
proof -
  have "isSafeInteger (int c)" "isSafeInteger (int r)" using assms by (simp_all add: isSafeInteger_def MAX_SAFE_INTEGER_def)
  with assms show ?thesis
    by (simp add: client_resize_def resize_call_def objectPayload_def onlyFields_def field_fits js_eq_iff del: js_simps)
qed

lemma read_fits:
  assumes "session_fits g ow i" "page_fits off" "page_fits lim" "sequence_fits sq"
  shows "read_call g ow (Some (JObj (ra_payload (client_read i off lim sq)))) = Inr (Call_read i off lim sq)"
proof -
  let ?fs = "[(js ''id'', Some (JStr i)), (js ''offset'', number_json off), (js ''limit'', number_json lim), (js ''sequence'', number_json sq)]"
  have d: "distinct (map fst ?fs)" by (simp add: js_eq_iff del: js_simps)
  have l: "map_of (stringified ?fs) (js ''id'') = Some (JStr i)" "map_of (stringified ?fs) (js ''offset'') = number_json off"
    "map_of (stringified ?fs) (js ''limit'') = number_json lim" "map_of (stringified ?fs) (js ''sequence'') = number_json sq"
    by (simp_all only: lookup_stringified [OF d]) (simp_all add: js_eq_iff del: js_simps)
  have "onlyFields (stringified ?fs) [js ''id'', js ''offset'', js ''limit'', js ''sequence''] = Inr ()"
    by (rule onlyFields_stringified) simp
  with assms field_fits(1) [OF l(1)] field_fits(3) [OF l(2)] field_fits(3) [OF l(3)] field_fits(4) [OF l(4)] field_fits(8,9)
  show ?thesis
    by (simp add: client_read_def read_call_def objectPayload_def del: js_simps stringified_simps)
qed

lemma search_fits:
  assumes "session_fits g ow i" "text_fits pat" "page_fits off" "page_fits lim" "sequence_fits sq"
  shows "search_call g ow (Some (JObj (ra_payload (client_search i pat ic off lim sq)))) =
    Inr (Call_search i pat (ic = Some True) off lim sq)"
proof -
  let ?fs = "[(js ''id'', Some (JStr i)), (js ''pattern'', Some (JStr pat)), (js ''ignoreCase'', Some (JBool (nullish ic False))),
      (js ''offset'', number_json off), (js ''limit'', number_json lim), (js ''sequence'', number_json sq)]"
  have d: "distinct (map fst ?fs)" by (simp add: js_eq_iff del: js_simps)
  have l: "map_of (stringified ?fs) (js ''id'') = Some (JStr i)" "map_of (stringified ?fs) (js ''offset'') = number_json off"
    "map_of (stringified ?fs) (js ''limit'') = number_json lim" "map_of (stringified ?fs) (js ''sequence'') = number_json sq"
    "map_of (stringified ?fs) (js ''pattern'') = Some (JStr pat)"
    "map_of (stringified ?fs) (js ''ignoreCase'') = map_option JBool (Some (nullish ic False))"
    by (simp_all only: lookup_stringified [OF d]) (simp_all add: js_eq_iff del: js_simps)
  have "onlyFields (stringified ?fs) [js ''id'', js ''pattern'', js ''ignoreCase'', js ''offset'', js ''limit'', js ''sequence''] = Inr ()"
    by (rule onlyFields_stringified) simp
  moreover have "nullish ic False = (ic = Some True)" by (cases ic) simp_all
  ultimately show ?thesis
    using assms field_fits(1) [OF l(1)] field_fits(3) [OF l(2)] field_fits(3) [OF l(3)] field_fits(4) [OF l(4)]
      field_fits(1) [OF l(5)] field_fits(6) [OF l(6)] field_fits(8,9)
    by (simp add: client_search_def search_call_def objectPayload_def del: js_simps stringified_simps)
qed

lemma spend_input_fits:
  assumes "session_fits g ow i" "text_fits d" "useInput now ow d used = Inr used'"
    and "map_of m (js ''id'') = Some (JStr i)" "map_of m (js ''data'') = Some (JStr d)"
  shows "spend_input now g ow m used = Inr (i, d, used')"
  using assms by (simp add: spend_input_def field_fits del: js_simps)

lemma write_fits:
  assumes "session_fits g ow i" "text_fits d" "useInput now ow d used = Inr used'"
  shows "write_call now g ow (Some (JObj (ra_payload (client_write i d)))) used = Inr (Call_write i d, used')"
  using spend_input_fits [OF assms]
  by (simp add: client_write_def write_call_def objectPayload_def onlyFields_def js_eq_iff del: js_simps)

lemma sendWait_fits:
  assumes "session_fits g ow i" "text_fits d" "useInput now ow d used = Inr used'" "condition_fits c" "seconds_fit t"
  shows "sendWait_call now g ow (Some (JObj (ra_payload (client_sendWait i d c t)))) used = (Inr (Call_sendWait i d c t), used')"
  using spend_input_fits [OF assms(1-3)] assms(4,5)
  by (simp add: client_sendWait_def sendWait_call_def objectPayload_def onlyFields_def js_eq_iff condition_roundtrip field_fits
      del: js_simps condition_json.simps)

lemma creation_fits:
  assumes i: "intent_fits env it" and e: "expiry_fits ex" and le: "lease_fits le"
  shows "approval_creation env (Some (JObj (stringified (creation_json it ex le)))) = Inr (canonical_intent env it, ex, le)"
proof -
  let ?gs = "[(js ''expirySeconds'', Some (JNum (int ex))), (js ''uiLeaseSeconds'', number_json le)]"
  let ?fs = "[] @ intent_json it @ ?gs"
  have c: "creation_json it ex le = ?fs" by (simp add: creation_json_def del: js_simps)
  have d: "distinct (map fst ?fs)" by (simp add: intent_json_def js_eq_iff del: js_simps)
  have l: "map_of (stringified ?fs) (js ''expirySeconds'') = Some (JNum (int ex))"
    "map_of (stringified ?fs) (js ''uiLeaseSeconds'') = number_json le"
    by (simp_all only: lookup_stringified [OF d]) (simp_all add: intent_json_def js_eq_iff del: js_simps)
  have "onlyFields (stringified ?fs) [js ''command'', js ''reason'', js ''capability'', js ''workdir'',
       js ''expirySeconds'', js ''uiLeaseSeconds''] = Inr ()"
    by (rule onlyFields_stringified) (auto simp: intent_json_def)
  moreover have "page_fits le"
    using le by (auto simp: lease_fits_def page_fits_def MAX_UI_LEASE_SECONDS_def MAX_PAGE_SIZE_def split: option.splits)
  then have "approvalUiLease (stringified ?fs) = Inr le"
    using le page_number_fits [OF l(2)]
    by (cases le) (simp_all add: approvalUiLease_def lease_fits_def del: js_simps)
  moreover have "requiredPositiveInteger (stringified ?fs) (js ''expirySeconds'') = Inr ex" "ex \<le> MAX_APPROVAL_EXPIRY_SECONDS"
    using e seconds_number_fits [OF l(1)] by (simp_all add: expiry_fits_def)
  ultimately show ?thesis
    using approvalIntent_fits [OF d i]
    by (simp add: c approval_creation_def approvalPayload_def objectPayload_def del: js_simps stringified_simps append_Nil)
qed

lemma consume_fits:
  assumes t: "text_fits i" and f: "intent_fits env it"
  shows "consume_op env (Some (JObj (ra_payload (client_consumeApproval i it)))) = Inr (Op_consume i (canonical_intent env it))"
proof -
  let ?fs = "[(js ''id'', Some (JStr i))] @ intent_json it @ []"
  have d: "distinct (map fst ?fs)" by (simp add: intent_json_def js_eq_iff del: js_simps)
  have l: "map_of (stringified ?fs) (js ''id'') = Some (JStr i)"
    by (simp only: lookup_stringified [OF d]) (simp add: intent_json_def js_eq_iff del: js_simps)
  have "onlyFields (stringified ?fs) [js ''id'', js ''command'', js ''reason'', js ''capability'', js ''workdir''] = Inr ()"
    by (rule onlyFields_stringified) (auto simp: intent_json_def)
  with approvalIntent_fits [OF d f] requiredString_fits [OF l t] show ?thesis
    by (simp add: client_consumeApproval_def consume_op_def approvalPayload_def objectPayload_def
        del: js_simps)
qed

lemma approval_id_fits: "text_fits i \<Longrightarrow> approval_id (Some (JObj (stringified [(js ''id'', Some (JStr i))]))) = Inr i"
  by (simp add: approval_id_def approvalPayload_def objectPayload_def onlyFields_def field_fits del: js_simps)

lemma decide_fits:
  assumes "text_fits i" "text_fits tok"
  shows "decide_op fresh (Some (JObj (ra_payload (client_decideApproval i d tok)))) = Inr (Op_decide fresh i d (Inr tok))"
proof -
  have "text_fits (decision_text d)" "parse_decision (decision_text d) = Inr d"
    by (cases d; simp add: text_fits_def MAX_STRING_LENGTH_def)
      (cases d; simp add: parse_decision_def js_eq_iff del: js_simps)
  with assms show ?thesis
    by (simp add: client_decideApproval_def decide_op_def approvalPayload_def objectPayload_def onlyFields_def field_fits js_eq_iff
        del: js_simps)
qed

lemma approvalWait_fits:
  "text_fits i \<Longrightarrow> expiry_fits t \<Longrightarrow>
   approvalWait_call now ow (Some (JObj (ra_payload (client_waitForApproval i t)))) = Inr (Call_approvalWait ow i (now + int t * 1000))"
  by (simp add: client_waitForApproval_def approvalWait_call_def approvalPayload_def objectPayload_def onlyFields_def
      field_fits expiry_fits_def js_eq_iff del: js_simps)

lemma parent_fits:
  assumes "ow_parentSessionId ow \<noteq> []" "length (ow_parentSessionId ow) \<le> MAX_STRING_LENGTH"
  shows "cleanupByParent_call ow (Some (JObj (stringified [(js ''parentSessionId'', Some (JStr (ow_parentSessionId ow)))]))) =
      Inr (Call_cleanupByParentSession (ow_parentSessionId ow) (ow_projectDirectory ow) (ow_capability ow))"
    and "and_then (approvalPayload (Some (JObj (stringified [(js ''parentSessionId'', Some (JStr (ow_parentSessionId ow)))])))
        [js ''parentSessionId'']) (\<lambda>m. and_then (requiredString m (js ''parentSessionId'')) f) = f (ow_parentSessionId ow)"
  using assms
  by (simp_all add: cleanupByParent_call_def approvalPayload_def objectPayload_def onlyFields_def requiredString_def del: js_simps)

lemmas client_method_defs = client_spawn_def client_exec_def client_execStart_def client_list_def client_get_def
  client_getRawBuffer_def client_stop_def client_cleanup_def client_cleanupBySession_def client_createApproval_def
  client_prepareApproval_def client_claimApproval_def client_listApprovalGrants_def client_listApprovalRequests_def
  client_revokeApprovalGrant_def client_cancelApproval_def client_approveNativeApproval_def

lemma client_operation_sel [simp]:
  "ra_operation (client_execWait i t) = js ''execWait''" "ra_operation (client_wait i c t) = js ''wait''"
  "ra_operation (client_sendWait i d c t) = js ''sendWait''" "ra_operation (client_write i d) = js ''write''"
  "ra_operation (client_resize i n m) = js ''resize''" "ra_operation (client_read i off lim sq) = js ''read''"
  "ra_operation (client_search i pat ic off lim sq) = js ''search''"
  "ra_operation (client_decideApproval i dc tok) = js ''approvalDecide''"
  "ra_operation (client_waitForApproval i t) = js ''approvalWait''"
  "ra_operation (client_consumeApproval i it) = js ''approvalConsume''"
  by (simp_all add: client_execWait_def client_wait_def client_sendWait_def client_write_def client_resize_def client_read_def
      client_search_def client_decideApproval_def client_waitForApproval_def client_consumeApproval_def)

lemma client_approval_sel [simp]:
  "ra_approval (client_decideApproval i dc tok)" "ra_approval (client_waitForApproval i t)" "ra_approval (client_consumeApproval i it)"
  "\<not> ra_approval (client_execWait i t)" "\<not> ra_approval (client_wait i c t)" "\<not> ra_approval (client_sendWait i d c t)"
  "\<not> ra_approval (client_write i d)" "\<not> ra_approval (client_resize i k n)" "\<not> ra_approval (client_read i off lim sq)"
  "\<not> ra_approval (client_search i pat ic off lim sq)"
  by (simp_all add: client_decideApproval_def client_waitForApproval_def client_consumeApproval_def client_execWait_def
      client_wait_def client_sendWait_def client_write_def client_resize_def client_read_def client_search_def)

fun waited_seconds :: "client_method \<Rightarrow> nat" where
  "waited_seconds (Do_execWait i t) = t"
| "waited_seconds (Do_wait i c t) = t"
| "waited_seconds (Do_sendWait i d c t) = t"
| "waited_seconds (Do_waitForApproval i t) = t"
| "waited_seconds (Do_exec o1) = nullish (so_timeoutSeconds o1) 0"
| "waited_seconds _ = 0"

lemma client_patience: "waited_seconds m * 1000 + RPC_TIMEOUT_MS \<le> ra_timeout (client_args ow m)"
  by (cases m) (simp_all add: client_method_defs requestTimeout_def client_execWait_def client_wait_def client_sendWait_def
      client_write_def client_resize_def client_read_def client_search_def client_decideApproval_def client_waitForApproval_def
      client_consumeApproval_def RPC_TIMEOUT_MS_def SPAWN_TIMEOUT_MS_def)

lemma client_operation_length:
  "ra_operation (client_args ow m) \<noteq> [] \<and> length (ra_operation (client_args ow m)) \<le> 64"
  by (cases m) (simp_all add: client_method_defs)

lemmas dispatch_choice = dispatch_def plain_call_def approval_call_def approval_op_of_def approval_operations_def Let_def js_eq_iff

lemma session_dispatch:
  assumes o1: "owner env (client_request env uuid ow (client_args ow m)) = Inr ow'"
    and fits: "method_fits env now g ow' used m" and plain: "\<not> ra_approval (client_args ow m)"
    and p: "ow_parentSessionId ow' \<noteq> []" "ow_parentSessionId ow = ow_parentSessionId ow'"
  shows "fst (dispatch env now fresh g (client_request env uuid ow (client_args ow m)) used) = Inr (intended env now fresh ow' m)"
  using o1 fits plain p
  by (cases m)
    (simp_all add: dispatch_choice client_method_defs spawnPayload_fits execPayload_fits exec_options_fits execWait_fits wait_fits
      resize_fits read_fits search_fits write_fits sendWait_fits id_payload_fits input_fits_def for_owner_def parent_fits
      del: js_simps stringified_simps split: sum.splits)

lemma approval_dispatch:
  assumes o1: "owner env (client_request env uuid ow (client_args ow m)) = Inr ow'"
    and o2: "approvalOwner env (client_request env uuid ow (client_args ow m)) = Inr ow'"
    and fits: "method_fits env now g ow' used m" and approval: "ra_approval (client_args ow m)"
    and p: "ow_parentSessionId ow' \<noteq> []" "ow_parentSessionId ow = ow_parentSessionId ow'"
  shows "fst (dispatch env now fresh g (client_request env uuid ow (client_args ow m)) used) = Inr (intended env now fresh ow' m)"
  using o1 o2 fits approval p
  by (cases m)
    (simp_all add: dispatch_choice client_method_defs creation_fits approval_id_fits decide_fits approvalWait_fits consume_fits parent_fits
      del: js_simps stringified_simps)


definition sample_client_env :: server_env where
  "sample_client_env = \<lparr> sha256 = (\<lambda>_. sample_digest), realpath = (\<lambda>d. if d = [] then None else Some d), nfc = (\<lambda>s. s),
     ownershipSecret = js ''s'' \<rparr>"

definition sample_client_owner :: OwnerContext where
  "sample_client_owner = \<lparr> ow_parentSessionId = js ''ses_1'', ow_projectDirectory = js ''/w'', ow_capability = [] \<rparr>"

lemma sample_authenticated: "authenticated sample_client_env sample_client_owner = sample_rpc_owner"
  by (simp add: authenticated_def sample_client_env_def client_capability_def sample_client_owner_def sample_rpc_owner_def del: js_simps)


end
