(* ===== verification/Start_Lock.thy ===== *)
theory Start_Lock
  imports Rpc
begin

text \<open>
  The start lock of the data directory (daemon/storage.ts): the lock files and their encoding, process
  identities, the retries of file operations, and acquiring, recovering, handing over, claiming and
  releasing the lock as interleaved atomic operations of any number of processes that may fail or crash
  at every point. The invariant is checked through the locale of invariant systems, once for the schedules
  that act on what they have read and once for all schedules.
\<close>

section \<open>Processes and lock files\<close>

record StartLock =
  sl_token :: js_string
  sl_handoffToken :: "js_string option"
  sl_pid :: nat
  sl_processIdentity :: "js_string option"

text \<open>
  \<open>readStartLock\<close> on the parsed contents of a lock file; \<open>None\<close> is a missing file or one that
  is not JSON.
\<close>

definition lock_text :: "json option \<Rightarrow> js_string option option" where
  "lock_text v =
     (case v of
        Some JNull \<Rightarrow> Some None
      | Some (JStr s) \<Rightarrow> if s = [] then None else Some (Some s)
      | _ \<Rightarrow> None)"

definition readStartLock :: "json option \<Rightarrow> StartLock option" where
  "readStartLock contents =
     (case contents of
        None \<Rightarrow> None
      | Some v \<Rightarrow>
          (case (json_get v (js ''token''), lock_text (json_get v (js ''handoffToken'')), json_get v (js ''pid''),
                 lock_text (json_get v (js ''processIdentity''))) of
             (Some (JStr t), Some h, Some (JNum p), Some i) \<Rightarrow>
               if t = [] \<or> \<not> isSafeInteger p \<or> p \<le> 0 then None
               else Some \<lparr> sl_token = t, sl_handoffToken = h, sl_pid = nat p, sl_processIdentity = i \<rparr>
           | _ \<Rightarrow> None))"

definition lock_json :: "StartLock \<Rightarrow> json" where
  "lock_json l =
     JObj [(js ''token'', JStr (sl_token l)),
           (js ''handoffToken'', case sl_handoffToken l of None \<Rightarrow> JNull | Some h \<Rightarrow> JStr h),
           (js ''pid'', JNum (int (sl_pid l))),
           (js ''processIdentity'', case sl_processIdentity l of None \<Rightarrow> JNull | Some i \<Rightarrow> JStr i)]"

text \<open>
  The start identity of a process on Linux: the twentieth field after the command name in
  \<open>/proc/<pid>/stat\<close>. The name is in parentheses and may hold spaces and parentheses itself.
\<close>

fun after_last :: "16 word \<Rightarrow> js_string \<Rightarrow> js_string \<Rightarrow> js_string" where
  "after_last c s [] = s"
| "after_last c s (u # us) = after_last c (if u = c then us else s) us"

fun words_of :: "js_string \<Rightarrow> js_string \<Rightarrow> js_string list" where
  "words_of w [] = (if w = [] then [] else [w])"
| "words_of w (u # us) =
     (if js_space u then (if w = [] then words_of [] us else w # words_of [] us) else words_of (w @ [u]) us)"

definition stat_fields :: "js_string \<Rightarrow> js_string list" where
  "stat_fields stat = words_of [] (after_last 41 stat stat)"

definition processStartIdentity_linux :: "nat \<Rightarrow> js_string option \<Rightarrow> js_string option" where
  "processStartIdentity_linux p stat =
     (case stat of
        None \<Rightarrow> None
      | Some s \<Rightarrow>
          if p < 1 \<or> length (stat_fields s) \<le> 19 then None
          else Some (js ''posix:'' @ decimal p @ js '':'' @ stat_fields s ! 19))"

definition parseWindowsProcessIdentity :: "nat \<Rightarrow> js_string option \<Rightarrow> js_string option" where
  "parseWindowsProcessIdentity p out =
     (case out of
        None \<Rightarrow> None
      | Some s \<Rightarrow>
          let identity = rev (dropWhile js_space (rev (dropWhile js_space s)));
              parts = split_on 58 identity in
          if s \<noteq> [] \<and> length parts = 3 \<and> parts ! 0 = js ''windows'' \<and>
             parts ! 1 \<noteq> [] \<and> list_all is_digit (parts ! 1) \<and>
             parts ! 2 \<noteq> [] \<and> list_all is_digit (parts ! 2) \<and> hd (parts ! 2) \<noteq> 48 \<and>
             digits_value (parts ! 1) = p
          then Some identity else None)"

text \<open>
  One attempt on a file: it works, or it throws an error with a code. \<open>renameWithWindowsRetry\<close> and
  \<open>writeExclusiveLock\<close> try again after transient errors; the argument lists the outcomes of the
  attempts to come and \<open>None\<close> is a loop that still waits for the next one.
\<close>

datatype fs_outcome = Fs_ok | Fs_error "js_string option"

definition WINDOWS_RENAME_RETRIES :: nat where "WINDOWS_RENAME_RETRIES = 100"

definition isTransientWindowsFsError :: "js_string option \<Rightarrow> bool" where
  "isTransientWindowsFsError code \<longleftrightarrow> code \<in> {Some (js ''EPERM''), Some (js ''EACCES''), Some (js ''EBUSY'')}"

fun renameWithWindowsRetry :: "bool \<Rightarrow> nat \<Rightarrow> fs_outcome list \<Rightarrow> (js_string option, unit) result option" where
  "renameWithWindowsRetry windows attempt [] = None"
| "renameWithWindowsRetry windows attempt (Fs_ok # rest) = Some (Inr ())"
| "renameWithWindowsRetry windows attempt (Fs_error code # rest) =
     (if \<not> windows \<or> \<not> isTransientWindowsFsError code \<or> attempt \<ge> WINDOWS_RENAME_RETRIES then Some (Inl code)
      else renameWithWindowsRetry windows (attempt + 1) rest)"

text \<open>
  An attempt to link the lock file into place, with the exclusive creation that is tried when the
  file system has no hard links. \<open>Created None\<close> is a transient failure of that creation.
\<close>

datatype create_outcome = Create_ok | Create_error "js_string option"

definition createExclusiveLockFile :: "create_outcome \<Rightarrow> (js_string option, bool option) result" where
  "createExclusiveLockFile c =
     (case c of
        Create_ok \<Rightarrow> Inr (Some True)
      | Create_error code \<Rightarrow>
          if code = Some (js ''EEXIST'') then Inr (Some False)
          else if isTransientWindowsFsError code then Inr None
          else Inl code)"

fun writeExclusiveLock ::
  "nat \<Rightarrow> (fs_outcome \<times> create_outcome) list \<Rightarrow> (js_string option, bool) result option" where
  "writeExclusiveLock attempt [] = None"
| "writeExclusiveLock attempt ((Fs_ok, _) # rest) = Some (Inr True)"
| "writeExclusiveLock attempt ((Fs_error code, c) # rest) =
     (let again = (if \<not> isTransientWindowsFsError code \<or> attempt \<ge> WINDOWS_RENAME_RETRIES then Some (Inl code)
                   else writeExclusiveLock (attempt + 1) rest) in
      if code = Some (js ''EEXIST'') then Some (Inr False)
      else if code = Some (js ''EPERM'') \<or> code = Some (js ''EXDEV'')
      then (case createExclusiveLockFile c of
              Inl e \<Rightarrow> Some (if e = Some (js ''EEXIST'') then Inr False else Inl e)
            | Inr None \<Rightarrow> again
            | Inr (Some b) \<Rightarrow> Some (Inr b))
      else again)"

section \<open>The lock protocol\<close>

text \<open>
  What a process is about to do. Every constructor stands for one operation on a file or on the
  process table that is atomic for the other processes; its arguments are the local variables
  of the function that runs. A goal says why the recovery lock is wanted: to take over a stale
  start lock, or to claim a start lock that was handed over.
\<close>

datatype recovery_goal = For_acquire | For_claim js_string

datatype lock_pc =
    Idle
  | Link_start StartLock
  | Read_current
  | Check_current "StartLock option"
  | Link_recovery recovery_goal
  | Read_recovery recovery_goal
  | Check_recovery recovery_goal "StartLock option"
  | Rename_recovery recovery_goal "StartLock option"
  | Compare_quarantine recovery_goal "StartLock option" StartLock
  | Restore_quarantine StartLock
  | Read_replacement
  | Check_replacement "StartLock option"
  | Remove_start "StartLock option"
  | Link_recovered
  | Read_claim js_string
  | Write_claim StartLock
  | Remove_recovery "StartLock option"
  | Holding StartLock
  | Read_release StartLock
  | Remove_release StartLock StartLock

record lock_host =
  running :: "(nat, js_string) js_map"
  start_file :: "StartLock option"
  recovery_file :: "StartLock option"
  pcs :: "(nat, lock_pc) js_map"
  claimed :: "js_string list"

definition pc_of :: "lock_host \<Rightarrow> nat \<Rightarrow> lock_pc" where
  "pc_of h p = nullish (map_get (pcs h) p) Idle"

definition goto :: "nat \<Rightarrow> lock_pc \<Rightarrow> lock_host \<Rightarrow> lock_host" where
  "goto p c h = h\<lparr> pcs := map_set (pcs h) p c \<rparr>"

definition processExists :: "lock_host \<Rightarrow> nat \<Rightarrow> bool" where
  "processExists h p = map_has (running h) p"

text \<open>\<open>probe_ok\<close> says whether the operating system answered the probe in time.\<close>

definition processStartIdentity :: "bool \<Rightarrow> lock_host \<Rightarrow> nat \<Rightarrow> js_string option" where
  "processStartIdentity probe_ok h p = (if probe_ok then map_get (running h) p else None)"

definition startLockOwnerAlive :: "bool \<Rightarrow> lock_host \<Rightarrow> StartLock \<Rightarrow> bool" where
  "startLockOwnerAlive probe_ok h l =
     (case sl_processIdentity l of
        None \<Rightarrow> False
      | Some i \<Rightarrow> processExists h (sl_pid l) \<and> processStartIdentity probe_ok h (sl_pid l) = Some i)"

definition still_owned :: "bool \<Rightarrow> lock_host \<Rightarrow> StartLock option \<Rightarrow> bool" where
  "still_owned probe_ok h l = (case l of None \<Rightarrow> False | Some l' \<Rightarrow> startLockOwnerAlive probe_ok h l')"

definition newStartLock :: "lock_host \<Rightarrow> nat \<Rightarrow> js_string \<Rightarrow> js_string option \<Rightarrow> StartLock" where
  "newStartLock h p token handoff =
     \<lparr> sl_token = token, sl_handoffToken = handoff, sl_pid = p, sl_processIdentity = map_get (running h) p \<rparr>"

text \<open>What each function starts with.\<close>

definition acquireStartLock :: "nat \<Rightarrow> js_string \<Rightarrow> js_string \<Rightarrow> lock_host \<Rightarrow> lock_host" where
  "acquireStartLock p token handoff h = goto p (Link_start (newStartLock h p token (Some handoff))) h"

definition claimStartLock :: "nat \<Rightarrow> js_string \<Rightarrow> lock_host \<Rightarrow> lock_host" where
  "claimStartLock p handoff h = goto p (Link_recovery (For_claim handoff)) h"

definition releaseStartLock :: "nat \<Rightarrow> lock_host \<Rightarrow> lock_host" where
  "releaseStartLock p h = (case pc_of h p of Holding l \<Rightarrow> goto p (Read_release l) h | _ \<Rightarrow> h)"

text \<open>
  The next operation of a process: \<open>token\<close> and \<open>handoff\<close> are fresh, \<open>probe_ok\<close> tells whether a
  probe of this operation is answered. \<open>link\<close> fails when its target exists.
\<close>

definition acquire_step :: "bool \<Rightarrow> nat \<Rightarrow> lock_pc \<Rightarrow> lock_host \<Rightarrow> lock_host" where
  "acquire_step probe_ok p c h =
     (case c of
        Link_start l \<Rightarrow>
          if start_file h = None then goto p (Holding l) (h\<lparr> start_file := Some l \<rparr>) else goto p Read_current h
      | Read_current \<Rightarrow> goto p (Check_current (start_file h)) h
      | Check_current cur \<Rightarrow>
          if still_owned probe_ok h cur then goto p Idle h else goto p (Link_recovery For_acquire) h
      | _ \<Rightarrow> h)"

fun recovered :: "recovery_goal \<Rightarrow> lock_pc" where
  "recovered For_acquire = Read_replacement"
| "recovered (For_claim handoff) = Read_claim handoff"

definition acquireStartLockRecovery :: "bool \<Rightarrow> js_string \<Rightarrow> nat \<Rightarrow> lock_pc \<Rightarrow> lock_host \<Rightarrow> lock_host" where
  "acquireStartLockRecovery probe_ok token p c h =
     (case c of
        Link_recovery g \<Rightarrow>
          if recovery_file h = None
          then goto p (recovered g) (h\<lparr> recovery_file := Some (newStartLock h p token None) \<rparr>)
          else goto p (Read_recovery g) h
      | Read_recovery g \<Rightarrow> goto p (Check_recovery g (recovery_file h)) h
      | Check_recovery g r \<Rightarrow> if still_owned probe_ok h r then goto p Idle h else goto p (Rename_recovery g r) h
      | Rename_recovery g r \<Rightarrow>
          (case recovery_file h of
             None \<Rightarrow> goto p (Link_recovery g) h
           | Some q \<Rightarrow> goto p (Compare_quarantine g r q) (h\<lparr> recovery_file := None \<rparr>))
      | Compare_quarantine g r q \<Rightarrow>
          if map_option sl_token r = Some (sl_token q) then goto p (Link_recovery g) h
          else goto p (Restore_quarantine q) h
      | Restore_quarantine q \<Rightarrow>
          goto p Idle (if recovery_file h = None then h\<lparr> recovery_file := Some q \<rparr> else h)
      | _ \<Rightarrow> h)"

definition takeover_step :: "bool \<Rightarrow> js_string \<Rightarrow> js_string \<Rightarrow> nat \<Rightarrow> lock_pc \<Rightarrow> lock_host \<Rightarrow> lock_host" where
  "takeover_step probe_ok token handoff p c h =
     (case c of
        Read_replacement \<Rightarrow> goto p (Check_replacement (start_file h)) h
      | Check_replacement r \<Rightarrow>
          if still_owned probe_ok h r then goto p (Remove_recovery None) h else goto p (Remove_start r) h
      | Remove_start r \<Rightarrow> goto p Link_recovered (h\<lparr> start_file := None \<rparr>)
      | Link_recovered \<Rightarrow>
          if start_file h = None
          then let l = newStartLock h p token (Some handoff) in goto p (Remove_recovery (Some l)) (h\<lparr> start_file := Some l \<rparr>)
          else goto p (Remove_recovery None) h
      | Remove_recovery r \<Rightarrow>
          goto p (case r of None \<Rightarrow> Idle | Some l \<Rightarrow> Holding l) (h\<lparr> recovery_file := None \<rparr>)
      | _ \<Rightarrow> h)"

definition claim_step :: "bool \<Rightarrow> js_string \<Rightarrow> nat \<Rightarrow> lock_pc \<Rightarrow> lock_host \<Rightarrow> lock_host" where
  "claim_step probe_ok token p c h =
     (case c of
        Read_claim handoff \<Rightarrow>
          (case start_file h of
             Some l \<Rightarrow> if sl_handoffToken l = Some handoff then goto p (Write_claim l) h else goto p (Remove_recovery None) h
           | None \<Rightarrow> goto p (Remove_recovery None) h)
      | Write_claim l \<Rightarrow>
          if \<not> probe_ok then goto p (Remove_recovery None) h
          else (let l' = newStartLock h p token None
           in goto p (Remove_recovery (Some l')) (h\<lparr> start_file := Some l', claimed := sl_token l # claimed h \<rparr>))
      | _ \<Rightarrow> h)"

definition release_step :: "nat \<Rightarrow> lock_pc \<Rightarrow> lock_host \<Rightarrow> lock_host" where
  "release_step p c h =
     (case c of
        Read_release l \<Rightarrow>
          (case start_file h of
             Some f \<Rightarrow> if sl_token f = sl_token l \<and> sl_pid f = p then goto p (Remove_release l f) h else goto p Idle h
           | None \<Rightarrow> goto p Idle h)
      | Remove_release l f \<Rightarrow> goto p Idle (h\<lparr> start_file := None \<rparr>)
      | _ \<Rightarrow> h)"

datatype lock_action =
    Acquire nat js_string js_string
  | Claim nat js_string
  | Release nat
  | Advance nat js_string js_string bool
  | Fail nat
  | Crash nat

text \<open>
  An operation that throws: inside the recovery the \<open>finally\<close> block still removes the recovery
  lock, everywhere else the function just ends.
\<close>

definition critical :: "lock_pc \<Rightarrow> bool" where
  "critical c =
     (case c of
        Read_replacement \<Rightarrow> True | Check_replacement _ \<Rightarrow> True | Remove_start _ \<Rightarrow> True | Link_recovered \<Rightarrow> True
      | Read_claim _ \<Rightarrow> True | Write_claim _ \<Rightarrow> True | Remove_recovery _ \<Rightarrow> True | _ \<Rightarrow> False)"

definition fail_step :: "nat \<Rightarrow> lock_pc \<Rightarrow> lock_host \<Rightarrow> lock_host" where
  "fail_step p c h =
     (case c of
        Remove_recovery _ \<Rightarrow> goto p Idle h
      | Holding _ \<Rightarrow> h
      | _ \<Rightarrow> goto p (if critical c then Remove_recovery None else Idle) h)"

fun lock_step :: "lock_host \<Rightarrow> lock_action \<Rightarrow> lock_host" where
  "lock_step h (Acquire p token handoff) = acquireStartLock p token handoff h"
| "lock_step h (Claim p handoff) = claimStartLock p handoff h"
| "lock_step h (Release p) = releaseStartLock p h"
| "lock_step h (Advance p token handoff probe_ok) =
     (let c = pc_of h p in
      case c of
        Link_start _ \<Rightarrow> acquire_step probe_ok p c h
      | Read_current \<Rightarrow> acquire_step probe_ok p c h
      | Check_current _ \<Rightarrow> acquire_step probe_ok p c h
      | Link_recovery _ \<Rightarrow> acquireStartLockRecovery probe_ok token p c h
      | Read_recovery _ \<Rightarrow> acquireStartLockRecovery probe_ok token p c h
      | Check_recovery _ _ \<Rightarrow> acquireStartLockRecovery probe_ok token p c h
      | Rename_recovery _ _ \<Rightarrow> acquireStartLockRecovery probe_ok token p c h
      | Compare_quarantine _ _ _ \<Rightarrow> acquireStartLockRecovery probe_ok token p c h
      | Restore_quarantine _ \<Rightarrow> acquireStartLockRecovery probe_ok token p c h
      | Read_claim _ \<Rightarrow> claim_step probe_ok token p c h
      | Write_claim _ \<Rightarrow> claim_step probe_ok token p c h
      | Read_release _ \<Rightarrow> release_step p c h
      | Remove_release _ _ \<Rightarrow> release_step p c h
      | _ \<Rightarrow> takeover_step probe_ok token handoff p c h)"
| "lock_step h (Fail p) = fail_step p (pc_of h p) h"
| "lock_step h (Crash p) = h\<lparr> running := map_delete (running h) p \<rparr>"

text \<open>A process starts something new only when it is idle; only a running process does anything.\<close>

definition lock_enabled :: "lock_host \<Rightarrow> lock_action \<Rightarrow> bool" where
  "lock_enabled h a =
     (case a of
        Acquire p _ _ \<Rightarrow> map_has (running h) p \<and> pc_of h p = Idle
      | Claim p _ \<Rightarrow> map_has (running h) p \<and> pc_of h p = Idle
      | Release p \<Rightarrow> map_has (running h) p
      | Advance p _ _ _ \<Rightarrow> map_has (running h) p
      | Fail p \<Rightarrow> map_has (running h) p
      | Crash p \<Rightarrow> map_has (running h) p)"

definition new_lock_host :: "(nat, js_string) js_map \<Rightarrow> lock_host" where
  "new_lock_host ps = \<lparr> running = ps, start_file = None, recovery_file = None, pcs = [], claimed = [] \<rparr>"

section \<open>Exclusion\<close>

text \<open>
  Check and act are separate operations: the recovery renames, takes over, claims or removes a
  file some time after it has read it. A step is undisturbed when the file it acts on is still
  the one it has read, and the probe it relies on is answered.
\<close>

definition undisturbed :: "lock_host \<Rightarrow> lock_action \<Rightarrow> bool" where
  "undisturbed h a =
     (case a of
        Advance p _ _ probe_ok \<Rightarrow>
          (case pc_of h p of
             Check_recovery _ _ \<Rightarrow> probe_ok
           | Check_replacement _ \<Rightarrow> probe_ok
           | Rename_recovery _ r \<Rightarrow> recovery_file h = None \<or> recovery_file h = r
           | Remove_start r \<Rightarrow> start_file h = r
           | Write_claim l \<Rightarrow> start_file h = Some l
           | Remove_release _ f \<Rightarrow> start_file h = Some f
           | _ \<Rightarrow> True)
      | _ \<Rightarrow> True)"

definition lease_of :: "lock_pc \<Rightarrow> StartLock option" where
  "lease_of c =
     (case c of Holding l \<Rightarrow> Some l | Read_release l \<Rightarrow> Some l | Remove_release l _ \<Rightarrow> Some l
      | Remove_recovery r \<Rightarrow> r | _ \<Rightarrow> None)"

definition mine :: "lock_host \<Rightarrow> nat \<Rightarrow> StartLock \<Rightarrow> bool" where
  "mine h p l \<longleftrightarrow> sl_pid l = p \<and> sl_processIdentity l = map_get (running h) p"

definition abandoned_lock :: "lock_host \<Rightarrow> StartLock option \<Rightarrow> bool" where
  "abandoned_lock h r \<longleftrightarrow> \<not> still_owned True h r"

definition process_ok :: "lock_host \<Rightarrow> nat \<Rightarrow> lock_pc \<Rightarrow> bool" where
  "process_ok h p c \<longleftrightarrow>
     (critical c \<longrightarrow> (\<exists>l. recovery_file h = Some l \<and> mine h p l)) \<and>
     (\<forall>l. lease_of c = Some l \<longrightarrow> mine h p l \<and> (start_file h = Some l \<or> sl_token l \<in> set (claimed h))) \<and>
     (case c of
        Link_start l \<Rightarrow> mine h p l
      | Remove_start r \<Rightarrow> abandoned_lock h r
      | Rename_recovery _ r \<Rightarrow> abandoned_lock h r
      | Compare_quarantine _ r q \<Rightarrow> r = Some q
      | Restore_quarantine _ \<Rightarrow> False
      | Remove_release _ f \<Rightarrow> sl_pid f = p
      | _ \<Rightarrow> True)"

definition locks_inv :: "lock_host \<Rightarrow> bool" where
  "locks_inv h \<longleftrightarrow> (\<forall>p. map_has (running h) p \<longrightarrow> process_ok h p (pc_of h p))"

lemma pc_of_goto [simp]: "pc_of (goto p c h) q = (if q = p then c else pc_of h q)"
  by (simp add: pc_of_def goto_def)

lemma goto_sel [simp]:
  "running (goto p c h) = running h" "start_file (goto p c h) = start_file h"
  "recovery_file (goto p c h) = recovery_file h" "claimed (goto p c h) = claimed h"
  by (simp_all add: goto_def)

lemma pc_of_files [simp]:
  "pc_of (h\<lparr> start_file := s \<rparr>) p = pc_of h p" "pc_of (h\<lparr> recovery_file := r \<rparr>) p = pc_of h p"
  "pc_of (h\<lparr> claimed := k \<rparr>) p = pc_of h p" "pc_of (h\<lparr> running := ps \<rparr>) p = pc_of h p"
  by (simp_all add: pc_of_def)

lemma mine_alive: "mine h p l \<Longrightarrow> map_has (running h) p \<Longrightarrow> still_owned True h (Some l)"
  by (auto simp: mine_def still_owned_def startLockOwnerAlive_def processExists_def processStartIdentity_def)

text \<open>What a process has to keep of the view of the others when it moves.\<close>

definition same_view :: "lock_host \<Rightarrow> lock_host \<Rightarrow> nat \<Rightarrow> bool" where
  "same_view h h' p \<longleftrightarrow>
     running h' = running h \<and>
     (\<forall>q l. q \<noteq> p \<longrightarrow> map_has (running h) q \<longrightarrow> mine h q l \<longrightarrow>
        (recovery_file h = Some l \<longrightarrow> recovery_file h' = Some l) \<and>
        (start_file h = Some l \<longrightarrow> start_file h' = Some l \<or> sl_token l \<in> set (claimed h'))) \<and>
     set (claimed h) \<subseteq> set (claimed h')"

lemma same_view_keeps:
  assumes "process_ok h q c" "same_view h h' p" "q \<noteq> p" "map_has (running h) q"
  shows "process_ok h' q c"
proof -
  have m: "mine h' q l = mine h q l" for l using assms(2) by (simp add: mine_def same_view_def)
  have a: "abandoned_lock h' r = abandoned_lock h r" for r
    using assms(2) by (simp add: abandoned_lock_def still_owned_def startLockOwnerAlive_def processExists_def
        processStartIdentity_def same_view_def split: option.split)
  have "\<exists>l. recovery_file h' = Some l \<and> mine h' q l" if "critical c"
    using that assms m unfolding process_ok_def same_view_def by metis
  moreover have "mine h' q l \<and> (start_file h' = Some l \<or> sl_token l \<in> set (claimed h'))" if "lease_of c = Some l" for l
    using that assms m unfolding process_ok_def same_view_def by blast
  ultimately show ?thesis
    using assms(1) m a by (simp add: process_ok_def cong: lock_pc.case_cong)
qed

lemma move_inv:
  assumes "locks_inv h" "same_view h h' p" "\<And>q. q \<noteq> p \<Longrightarrow> pc_of h' q = pc_of h q"
    and "map_has (running h) p \<Longrightarrow> process_ok h' p (pc_of h' p)"
  shows "locks_inv h'"
  unfolding locks_inv_def
proof (intro allI impI)
  fix q assume q: "map_has (running h') q"
  have r: "running h' = running h" using assms(2) by (simp add: same_view_def)
  show "process_ok h' q (pc_of h' q)"
  proof (cases "q = p")
    case True
    with assms(4) q r show ?thesis by simp
  next
    case False
    with assms q r show ?thesis using same_view_keeps [of h q "pc_of h q" h' p] by (simp add: locks_inv_def)
  qed
qed

lemma own_lock [simp]: "mine h p (newStartLock h p token handoff)"
  by (simp add: mine_def newStartLock_def)

lemma mine_goto [simp]: "mine (goto p c h) = mine h"
  by (simp add: fun_eq_iff mine_def)

lemma mine_files [simp]:
  "mine (h\<lparr> start_file := s \<rparr>) = mine h" "mine (h\<lparr> recovery_file := r \<rparr>) = mine h" "mine (h\<lparr> claimed := k \<rparr>) = mine h"
  by (simp_all add: fun_eq_iff mine_def)

lemma abandoned_view [simp]:
  "abandoned_lock (goto p c h) = abandoned_lock h" "abandoned_lock (h\<lparr> start_file := s \<rparr>) = abandoned_lock h"
  "abandoned_lock (h\<lparr> recovery_file := r \<rparr>) = abandoned_lock h"
  by (simp_all add: fun_eq_iff abandoned_lock_def still_owned_def startLockOwnerAlive_def processExists_def
      processStartIdentity_def split: option.split)

lemma mine_unique: "mine h p l \<Longrightarrow> mine h q l \<Longrightarrow> p = q"
  by (simp add: mine_def)

lemma abandoned_not_mine: "abandoned_lock h (Some l) \<Longrightarrow> map_has (running h) p \<Longrightarrow> \<not> mine h p l"
  using mine_alive by (auto simp: abandoned_lock_def)

lemma pc_ok: "locks_inv h \<Longrightarrow> map_has (running h) p \<Longrightarrow> process_ok h p (pc_of h p)"
  by (simp add: locks_inv_def)

lemmas process_cases = process_ok_def critical_def lease_of_def

lemma acquire_inv:
  assumes "locks_inv h" "map_has (running h) p" "pc_of h p = c"
  shows "locks_inv (acquire_step probe_ok p c h)"
proof (rule move_inv [where h = h and p = p])
  have ok: "process_ok h p c" using pc_ok [OF assms(1,2)] assms(3) by simp
  show "same_view h (acquire_step probe_ok p c h) p"
    by (auto simp: same_view_def acquire_step_def split: lock_pc.split)
  show "pc_of (acquire_step probe_ok p c h) q = pc_of h q" if "q \<noteq> p" for q
    using that by (simp add: acquire_step_def split: lock_pc.split)
  show "process_ok (acquire_step probe_ok p c h) p (pc_of (acquire_step probe_ok p c h) p)"
    using ok assms(3)
    by (cases c) (simp_all add: acquire_step_def process_cases)
qed (rule assms(1))

lemma recovery_inv:
  assumes "locks_inv h" "map_has (running h) p" "pc_of h p = c" "undisturbed h (Advance p token handoff probe_ok)"
  shows "locks_inv (acquireStartLockRecovery probe_ok token p c h)"
proof (rule move_inv [where h = h and p = p])
  let ?h = "acquireStartLockRecovery probe_ok token p c h"
  have ok: "process_ok h p c" using pc_ok [OF assms(1,2)] assms(3) by simp
  have "same_view h ?h p" if "c = Rename_recovery g r" "recovery_file h = Some q" for g r q
  proof -
    have "abandoned_lock h (Some q)" using ok assms(3,4) that by (auto simp: process_cases undisturbed_def)
    with that abandoned_not_mine [of h q] show ?thesis
      by (auto simp: same_view_def acquireStartLockRecovery_def)
  qed
  then show "same_view h ?h p"
    by (cases c) (auto simp: same_view_def acquireStartLockRecovery_def split: option.split)
  show "pc_of ?h q = pc_of h q" if "q \<noteq> p" for q
    using that by (cases c) (simp_all add: acquireStartLockRecovery_def split: option.split)
  show "process_ok ?h p (pc_of ?h p)"
  proof (cases c)
    case (Link_recovery g)
    then show ?thesis by (cases g) (simp_all add: acquireStartLockRecovery_def process_cases)
  qed (use ok assms(3,4) in \<open>auto simp: acquireStartLockRecovery_def process_cases abandoned_lock_def undisturbed_def split: option.split\<close>)
qed (rule assms(1))

lemma takeover_inv:
  assumes "locks_inv h" "map_has (running h) p" "pc_of h p = c" "undisturbed h (Advance p token handoff probe_ok)"
  shows "locks_inv (takeover_step probe_ok token handoff p c h)"
proof (rule move_inv [where h = h and p = p])
  let ?h = "takeover_step probe_ok token handoff p c h"
  have ok: "process_ok h p c" using pc_ok [OF assms(1,2)] assms(3) by simp
  have "same_view h ?h p" if "c = Remove_start r" for r
  proof -
    have "abandoned_lock h (start_file h)" using ok assms(3,4) that by (auto simp: process_cases undisturbed_def)
    with that abandoned_not_mine [of h] show ?thesis by (auto simp: same_view_def takeover_step_def)
  qed
  moreover have "same_view h ?h p" if "c = Remove_recovery r" for r
    using ok that by (auto simp: same_view_def takeover_step_def process_cases dest: mine_unique)
  ultimately show "same_view h ?h p"
    by (cases c) (auto simp: same_view_def takeover_step_def Let_def)
  show "pc_of ?h q = pc_of h q" if "q \<noteq> p" for q
    using that by (cases c) (simp_all add: takeover_step_def Let_def)
  show "process_ok ?h p (pc_of ?h p)"
    using ok assms(3,4)
    by (cases c) (auto simp: takeover_step_def Let_def process_cases abandoned_lock_def undisturbed_def split: option.split)
qed (rule assms(1))

lemma claim_inv:
  assumes "locks_inv h" "map_has (running h) p" "pc_of h p = c" "undisturbed h (Advance p token handoff probe_ok)"
  shows "locks_inv (claim_step probe_ok token p c h)"
proof (rule move_inv [where h = h and p = p])
  let ?h = "claim_step probe_ok token p c h"
  have ok: "process_ok h p c" using pc_ok [OF assms(1,2)] assms(3) by simp
  show "same_view h ?h p"
    using assms(3,4) by (cases c) (auto simp: same_view_def claim_step_def Let_def undisturbed_def split: option.split)
  show "pc_of ?h q = pc_of h q" if "q \<noteq> p" for q
    using that by (cases c) (simp_all add: claim_step_def Let_def split: option.split)
  show "process_ok ?h p (pc_of ?h p)"
    using ok assms(3) by (cases c) (auto simp: claim_step_def Let_def process_cases split: option.split)
qed (rule assms(1))

lemma lock_release_inv:
  assumes "locks_inv h" "map_has (running h) p" "pc_of h p = c" "undisturbed h (Advance p token handoff probe_ok)"
  shows "locks_inv (release_step p c h)"
proof (rule move_inv [where h = h and p = p])
  let ?h = "release_step p c h"
  have ok: "process_ok h p c" using pc_ok [OF assms(1,2)] assms(3) by simp
  show "same_view h ?h p"
    using ok assms(3,4)
    by (cases c) (auto simp: same_view_def release_step_def undisturbed_def process_cases mine_def split: option.split)
  show "pc_of ?h q = pc_of h q" if "q \<noteq> p" for q
    using that by (cases c) (simp_all add: release_step_def split: option.split)
  show "process_ok ?h p (pc_of ?h p)"
    using ok assms(3) by (cases c; cases "start_file h") (simp_all add: release_step_def process_cases)
qed (rule assms(1))

lemma fail_inv:
  assumes "locks_inv h" "map_has (running h) p"
  shows "locks_inv (fail_step p (pc_of h p) h)"
proof (rule move_inv [where h = h and p = p])
  have ok: "process_ok h p (pc_of h p)" using pc_ok [OF assms] .
  show "process_ok (fail_step p (pc_of h p) h) p (pc_of (fail_step p (pc_of h p) h) p)"
    using ok by (cases "pc_of h p") (auto simp: fail_step_def process_cases)
qed (use assms(1) in \<open>auto simp: same_view_def fail_step_def split: lock_pc.split\<close>)

lemma begin_inv:
  assumes "locks_inv h" "map_has (running h) p"
  shows "locks_inv (acquireStartLock p token handoff h)" "locks_inv (claimStartLock p hand h)" "locks_inv (releaseStartLock p h)"
proof -
  show "locks_inv (acquireStartLock p token handoff h)"
    by (rule move_inv [OF assms(1), of _ p]) (simp_all add: same_view_def acquireStartLock_def process_cases)
  show "locks_inv (claimStartLock p hand h)"
    by (rule move_inv [OF assms(1), of _ p]) (simp_all add: same_view_def claimStartLock_def process_cases)
  show "locks_inv (releaseStartLock p h)"
  proof (cases "\<exists>l. pc_of h p = Holding l")
    case True
    then obtain l where "pc_of h p = Holding l" by blast
    with pc_ok [OF assms] show ?thesis
      by (intro move_inv [OF assms(1), of _ p]) (simp_all add: same_view_def releaseStartLock_def process_cases)
  next
    case False
    then have "releaseStartLock p h = h" by (simp add: releaseStartLock_def split: lock_pc.split)
    with assms(1) show ?thesis by simp
  qed
qed

lemma crash_inv:
  assumes "locks_inv h"
  shows "locks_inv (h\<lparr> running := map_delete (running h) p \<rparr>)"
proof -
  let ?h = "h\<lparr> running := map_delete (running h) p \<rparr>"
  have m: "mine ?h q l \<longleftrightarrow> mine h q l" if "q \<noteq> p" for q l using that by (simp add: mine_def)
  have a: "abandoned_lock ?h r" if "abandoned_lock h r" for r
    using that by (auto simp: abandoned_lock_def still_owned_def startLockOwnerAlive_def processExists_def
        processStartIdentity_def split: option.splits if_splits)
  have "process_ok ?h q (pc_of h q)" if "map_has (running h) q" "q \<noteq> p" for q
    using pc_ok [OF assms that(1)] m [OF that(2)] a
    by (cases "pc_of h q") (simp_all add: process_cases)
  then show ?thesis by (auto simp: locks_inv_def split: if_splits)
qed

lemma lock_step_inv:
  assumes "locks_inv h" "lock_enabled h a \<and> undisturbed h a"
  shows "locks_inv (lock_step h a)"
proof (cases a)
  case (Advance p token handoff probe_ok)
  with assms have r: "map_has (running h) p" and u: "undisturbed h (Advance p token handoff probe_ok)"
    by (simp_all add: lock_enabled_def)
  note keep = acquire_inv [OF assms(1) r refl] recovery_inv [OF assms(1) r refl u] takeover_inv [OF assms(1) r refl u]
    claim_inv [OF assms(1) r refl u] lock_release_inv [OF assms(1) r refl u]
  show ?thesis
    using keep by (cases "pc_of h p") (simp_all add: Advance)
qed (use assms begin_inv fail_inv crash_inv in \<open>auto simp: lock_enabled_def\<close>)

interpretation start_lock: invariant_system lock_step "\<lambda>h a. lock_enabled h a \<and> undisturbed h a" locks_inv
  by unfold_locales (rule lock_step_inv)

text \<open>Whatever happens, a process only believes in a lock that it wrote itself.\<close>

definition leases_own :: "lock_host \<Rightarrow> bool" where
  "leases_own h \<longleftrightarrow> (\<forall>p l. map_has (running h) p \<longrightarrow> (lease_of (pc_of h p) = Some l \<or> pc_of h p = Link_start l) \<longrightarrow> mine h p l)"

lemma leases_own_move:
  assumes "leases_own h" "running h' = running h" "\<And>q. q \<noteq> p \<Longrightarrow> pc_of h' q = pc_of h q"
    and "\<And>l. map_has (running h) p \<Longrightarrow> lease_of (pc_of h' p) = Some l \<or> pc_of h' p = Link_start l \<Longrightarrow> mine h p l"
  shows "leases_own h'"
  unfolding leases_own_def
proof (intro allI impI)
  fix q l assume q: "map_has (running h') q" "lease_of (pc_of h' q) = Some l \<or> pc_of h' q = Link_start l"
  have "mine h q l"
  proof (cases "q = p")
    case True
    with q assms(2,4) show ?thesis by simp
  next
    case False
    with q assms(1,2) assms(3) [OF False] show ?thesis by (auto simp: leases_own_def)
  qed
  then show "mine h' q l" using assms(2) by (simp add: mine_def)
qed

lemma advance_own:
  assumes "leases_own h" "map_has (running h) p"
  shows "leases_own (lock_step h (Advance p token handoff probe_ok))"
proof -
  have old: "mine h p l" if "lease_of (pc_of h p) = Some l \<or> pc_of h p = Link_start l" for l
    using assms that by (auto simp: leases_own_def)
  show ?thesis
  proof (rule leases_own_move [OF assms(1), where p = p])
    show "running (lock_step h (Advance p token handoff probe_ok)) = running h"
      by (cases "pc_of h p") (simp_all add: acquire_step_def acquireStartLockRecovery_def takeover_step_def claim_step_def
          release_step_def Let_def split: option.split)
    show "pc_of (lock_step h (Advance p token handoff probe_ok)) q = pc_of h q" if "q \<noteq> p" for q
      using that by (cases "pc_of h p") (simp_all add: acquire_step_def acquireStartLockRecovery_def takeover_step_def claim_step_def
          release_step_def Let_def split: option.split)
    show "mine h p l" if "lease_of (pc_of (lock_step h (Advance p token handoff probe_ok)) p) = Some l \<or>
        pc_of (lock_step h (Advance p token handoff probe_ok)) p = Link_start l" for l
    proof (cases "pc_of h p")
      case (Link_recovery g)
      with that show ?thesis by (cases g) (simp_all add: acquireStartLockRecovery_def lease_of_def split: if_splits)
    qed (use that old in \<open>auto simp: acquire_step_def acquireStartLockRecovery_def takeover_step_def claim_step_def
          release_step_def lease_of_def Let_def split: option.splits if_splits\<close>)
  qed
qed

lemma lock_step_own:
  assumes "leases_own h" "lock_enabled h a"
  shows "leases_own (lock_step h a)"
proof (cases a)
  case (Acquire p token handoff)
  then show ?thesis
    by (auto intro!: leases_own_move [OF assms(1), where p = p] simp: acquireStartLock_def lease_of_def)
next
  case (Claim p handoff)
  then show ?thesis
    by (auto intro!: leases_own_move [OF assms(1), where p = p] simp: claimStartLock_def lease_of_def)
next
  case (Release p)
  have "leases_own (goto p (Read_release l) h)" if "pc_of h p = Holding l" for l
    using assms(1) that
    by (intro leases_own_move [OF assms(1), where p = p]) (auto simp: lease_of_def leases_own_def)
  with assms(1) Release show ?thesis by (cases "pc_of h p") (simp_all add: releaseStartLock_def)
next
  case (Fail p)
  have "leases_own (goto p Idle h)" "leases_own (goto p (Remove_recovery None) h)"
    by (auto intro!: leases_own_move [OF assms(1), where p = p] simp: lease_of_def)
  with assms(1) Fail show ?thesis by (cases "pc_of h p") (simp_all add: fail_step_def)
next
  case (Crash p)
  with assms(1) show ?thesis by (auto simp: leases_own_def mine_def split: if_splits)
next
  case (Advance p token handoff probe_ok)
  with assms show ?thesis using advance_own by (simp add: lock_enabled_def)
qed

interpretation any_schedule: invariant_system lock_step lock_enabled leases_own
  by unfold_locales (rule lock_step_own)

section \<open>Results\<close>

lemma new_locks_inv: "locks_inv (new_lock_host ps)"
  by (simp add: locks_inv_def new_lock_host_def pc_of_def process_cases)


text \<open>
  Without that condition the lock does not exclude. With three processes, none of which
  crashes, every operation succeeding and every probe answered, a schedule ends with two running
  processes that both hold an unclaimed lease: the recovery of a lock that was released in the
  meantime removes the lock a third process has just taken.
\<close>

definition race_schedule :: "lock_action list" where
  "race_schedule =
     (let go = (\<lambda>p. Advance p (js ''t'') (js ''h'') True) in
      [Acquire 1 (js ''t1'') (js ''h1''), go 1, Acquire 2 (js ''t2'') (js ''h2''), go 2, Release 1, go 1, go 1] @
      replicate 5 (go 2) @ [Acquire 3 (js ''t3'') (js ''h3''), go 3] @ replicate 3 (go 2))"

theorem start_lock_race:
  "\<exists>ps. let h = any_schedule.run (new_lock_host ps) race_schedule in
     any_schedule.run_enabled (new_lock_host ps) race_schedule \<and>
     list_all (\<lambda>a. case a of Fail _ \<Rightarrow> False | Crash _ \<Rightarrow> False | Advance _ _ _ probe_ok \<Rightarrow> probe_ok | _ \<Rightarrow> True) race_schedule \<and>
     claimed h = [] \<and>
     (\<exists>l l'. pc_of h 2 = Holding l \<and> pc_of h 3 = Holding l' \<and> sl_token l \<noteq> sl_token l' \<and>
        startLockOwnerAlive True h l \<and> startLockOwnerAlive True h l')"
proof (rule exI [of _ "[(1, js ''a''), (2, js ''b''), (3, js ''c'')]"])
  show "let h = any_schedule.run (new_lock_host [(1, js ''a''), (2, js ''b''), (3, js ''c'')]) race_schedule in
     any_schedule.run_enabled (new_lock_host [(1, js ''a''), (2, js ''b''), (3, js ''c'')]) race_schedule \<and>
     list_all (\<lambda>a. case a of Fail _ \<Rightarrow> False | Crash _ \<Rightarrow> False | Advance _ _ _ probe_ok \<Rightarrow> probe_ok | _ \<Rightarrow> True) race_schedule \<and>
     claimed h = [] \<and>
     (\<exists>l l'. pc_of h 2 = Holding l \<and> pc_of h 3 = Holding l' \<and> sl_token l \<noteq> sl_token l' \<and>
        startLockOwnerAlive True h l \<and> startLockOwnerAlive True h l')"
    by (simp add: race_schedule_def new_lock_host_def lock_enabled_def pc_of_def goto_def acquireStartLock_def releaseStartLock_def
        acquire_step_def acquireStartLockRecovery_def takeover_step_def release_step_def newStartLock_def still_owned_def
        startLockOwnerAlive_def processExists_def processStartIdentity_def numeral_eq_Suc Let_def)
qed


section \<open>Lock files and retries\<close>

lemma lock_json_roundtrip:
  assumes "sl_token l \<noteq> []" "sl_handoffToken l \<noteq> Some []" "sl_processIdentity l \<noteq> Some []"
    and "0 < sl_pid l" "isSafeInteger (int (sl_pid l))"
  shows "readStartLock (Some (lock_json l)) = Some l"
  using assms
  by (cases "sl_handoffToken l"; cases "sl_processIdentity l")
    (simp_all add: readStartLock_def lock_json_def lock_text_def)

text \<open>Both loops end after at most 101 attempts, whatever the file system answers.\<close>

lemma rename_ends:
  "WINDOWS_RENAME_RETRIES < attempt + length os \<Longrightarrow> os \<noteq> [] \<Longrightarrow> renameWithWindowsRetry windows attempt os \<noteq> None"
proof (induction windows attempt os rule: renameWithWindowsRetry.induct)
  case (3 windows attempt code rest)
  then show ?case by (cases rest) (auto simp: WINDOWS_RENAME_RETRIES_def)
qed simp_all

lemma exclusive_ends:
  "WINDOWS_RENAME_RETRIES < attempt + length os \<Longrightarrow> os \<noteq> [] \<Longrightarrow> writeExclusiveLock attempt os \<noteq> None"
proof (induction attempt os rule: writeExclusiveLock.induct)
  case (3 attempt code c rest)
  have "(if \<not> isTransientWindowsFsError code \<or> attempt \<ge> WINDOWS_RENAME_RETRIES then Some (Inl code)
      else writeExclusiveLock (attempt + 1) rest) \<noteq> None"
    using 3 by (cases rest) (auto simp: WINDOWS_RENAME_RETRIES_def)
  then show ?case by (auto simp: Let_def simp del: js_simps split: sum.split option.split if_splits)
qed simp_all

text \<open>
  Writing a lock file always ends, and it reports success only when an exclusive operation
  succeeded. After at most 101 attempts \<open>writeExclusiveLock\<close> has an answer; when the answer is that
  the lock was written, one of the attempts made the file exist by a link or an exclusive creation
  that worked, and no attempt before it met an existing file.
\<close>

theorem exclusive_lock_ends:
  assumes "WINDOWS_RENAME_RETRIES < length os"
  shows "\<exists>r. writeExclusiveLock 0 os = Some r \<and>
    (r = Inr True \<longrightarrow> (\<exists>pre o1 c rest. os = pre @ (o1, c) # rest \<and> (o1 = Fs_ok \<or> c = Create_ok) \<and>
       length pre \<le> WINDOWS_RENAME_RETRIES \<and> (\<forall>x\<in>set pre. fst x \<noteq> Fs_ok \<and> fst x \<noteq> Fs_error (Some (js ''EEXIST'')))))"
proof -
  have success: "\<exists>pre o1 c rest. os = pre @ (o1, c) # rest \<and> (o1 = Fs_ok \<or> c = Create_ok) \<and>
       attempt + length pre \<le> max attempt WINDOWS_RENAME_RETRIES \<and>
       (\<forall>x\<in>set pre. fst x \<noteq> Fs_ok \<and> fst x \<noteq> Fs_error (Some (js ''EEXIST'')))"
    if "writeExclusiveLock attempt os = Some (Inr True)" for attempt os
    using that
  proof (induction attempt os rule: writeExclusiveLock.induct)
    case (2 attempt c rest)
    then show ?case by (intro exI [of _ "[]"]) auto
  next
    case (3 attempt code c rest)
    show ?case
    proof (cases "c = Create_ok")
      case True
      then show ?thesis by (intro exI [of _ "[]"]) auto
    next
      case False
      then have w: "writeExclusiveLock (attempt + 1) rest = Some (Inr True)" "attempt < WINDOWS_RENAME_RETRIES"
          "code \<noteq> Some (js ''EEXIST'')" "isTransientWindowsFsError code"
        using 3(2) by (auto simp: Let_def createExclusiveLockFile_def simp del: js_simps split: if_splits create_outcome.splits sum.splits option.splits)
      from 3(1) w obtain pre o1 d rest' where
        "rest = pre @ (o1, d) # rest'" "o1 = Fs_ok \<or> d = Create_ok"
        "attempt + 1 + length pre \<le> max (attempt + 1) WINDOWS_RENAME_RETRIES"
        "\<forall>x\<in>set pre. fst x \<noteq> Fs_ok \<and> fst x \<noteq> Fs_error (Some (js ''EEXIST''))" by (metis (no_types, lifting) not_less)
      with w show ?thesis by (intro exI [of _ "(Fs_error code, c) # pre"]) (auto simp del: js_simps)
    qed
  qed simp
  have "writeExclusiveLock 0 os \<noteq> None" using assms by (intro exclusive_ends) auto
  then obtain r where "writeExclusiveLock 0 os = Some r" by blast
  with success [of 0 os] show ?thesis by (auto simp del: js_simps)
qed

theorem exclusive_lock_ends_witness:
  "\<exists>r. writeExclusiveLock 0 (replicate 101 (Fs_error (Some (js ''EBUSY'')), Create_ok)) = Some r"
  using exclusive_lock_ends [of "replicate 101 (Fs_error (Some (js ''EBUSY'')), Create_ok)"]
  by (auto simp: WINDOWS_RENAME_RETRIES_def simp del: js_simps)

end
