(* ===== verification/Redaction.thy ===== *)
theory Redaction
  imports Types "HOL-Library.Sublist"
begin

text \<open>
  Replacing secrets in a text (split and join in plugin/pty/daemon-client.ts and daemon/worker-client.ts): what
  is left of a secret after one or several of them are replaced, at the start, at the end and inside of the text.
\<close>

section \<open>Replacing one secret\<close>

text \<open>\<open>split(secret).join('[REDACTED]')\<close> for a secret that is not empty; \<open>skip\<close> counts the units of a replaced one.\<close>

fun replace_secret :: "js_string \<Rightarrow> nat \<Rightarrow> js_string \<Rightarrow> js_string" where
  "replace_secret secret skip [] = []"
| "replace_secret secret (Suc n) (u # us) = replace_secret secret n us"
| "replace_secret secret 0 (u # us) =
     (if take (length secret) (u # us) = secret then js ''[REDACTED]'' @ replace_secret secret (length secret - 1) us
      else u # replace_secret secret 0 us)"

text \<open>A secret that cannot be read out of the replacement text or across its ends.\<close>

definition bracket_free :: "js_string \<Rightarrow> bool" where
  "bracket_free k \<longleftrightarrow> 91 \<notin> set k \<and> 93 \<notin> set k \<and> \<not> sublist k (js ''REDACTED'')"

lemma bracket_free_long: "91 \<notin> set k \<Longrightarrow> 93 \<notin> set k \<Longrightarrow> 8 < length k \<Longrightarrow> bracket_free k"
  by (auto simp: bracket_free_def dest: sublist_length_le)

lemma bracket_free_ne: "bracket_free k \<Longrightarrow> k \<noteq> []"
  by (auto simp: bracket_free_def)

lemma replace_secret_drop: "replace_secret k n s = replace_secret k 0 (drop n s)"
  by (induction k n s rule: replace_secret.induct) simp_all

lemma replace_secret_Cons:
  assumes "k \<noteq> []"
  shows "replace_secret k 0 (u # us) =
    (if prefix k (u # us) then js ''[REDACTED]'' @ replace_secret k 0 (drop (length k) (u # us)) else u # replace_secret k 0 us)"
proof -
  have "take (length k) (u # us) = k \<longleftrightarrow> prefix k (u # us)"
    by (metis append_take_drop_id prefixI prefixE append_eq_conv_conj)
  moreover have "drop (length k - 1) us = drop (length k) (u # us)" using assms by (cases k) auto
  ultimately show ?thesis by (simp only: replace_secret.simps replace_secret_drop [of k "length k - 1"])
qed

declare replace_secret.simps(3) [simp del]

lemma replace_secret_prefix:
  "k \<noteq> [] \<Longrightarrow> prefix p (replace_secret k 0 s) \<Longrightarrow> 91 \<notin> set p \<Longrightarrow> prefix p s"
proof (induction s arbitrary: p)
  case (Cons u us)
  show ?case
  proof (cases "prefix k (u # us)")
    case True
    with Cons.prems have "prefix p (91 # js ''REDACTED]'' @ replace_secret k 0 (drop (length k) (u # us)))" by (simp add: replace_secret_Cons)
    with Cons.prems(3) show ?thesis by (cases p) auto
  next
    case False
    with Cons.prems have "prefix p (u # replace_secret k 0 us)" by (simp add: replace_secret_Cons)
    with Cons show ?thesis by (cases p) auto
  qed
qed simp

lemma replace_secret_clean:
  assumes "k \<noteq> []"
  shows "93 \<notin> set (replace_secret k 0 s) \<Longrightarrow> replace_secret k 0 s = s"
  by (induction s) (auto simp: replace_secret_Cons [OF assms] split: if_splits)

lemma suffix_gap: "suffix p (a @ 93 # s) \<Longrightarrow> 93 \<notin> set p \<Longrightarrow> suffix p s"
  by (auto simp: suffix_append suffix_Cons)

lemma replace_secret_suffix:
  assumes "k \<noteq> []"
  shows "suffix p (replace_secret k 0 s) \<Longrightarrow> 93 \<notin> set p \<Longrightarrow> suffix p s"
proof (induction "length s" arbitrary: s rule: less_induct)
  case less
  show ?case
  proof (cases s)
    case Nil
    with less.prems show ?thesis by simp
  next
    case (Cons u us)
    show ?thesis
    proof (cases "prefix k s")
      case True
      let ?d = "drop (length k) s"
      have "suffix p (js ''[REDACTED'' @ 93 # replace_secret k 0 ?d)"
        using less.prems(1) True Cons by (simp add: replace_secret_Cons [OF assms])
      then have "suffix p (replace_secret k 0 ?d)" using suffix_gap less.prems(2) by blast
      moreover have "length ?d < length s" using Cons assms by (cases k) auto
      ultimately have "suffix p ?d" using less by blast
      then show ?thesis using suffix_drop suffix_order.trans by blast
    next
      case False
      with less.prems(1) Cons have "suffix p (u # replace_secret k 0 us)" by (simp add: replace_secret_Cons [OF assms])
      moreover have "suffix p us" if "suffix p (replace_secret k 0 us)" using less that Cons by simp
      moreover have "suffix p s" if "p = u # replace_secret k 0 us"
        using that less.prems(2) replace_secret_clean [OF assms, of us] Cons by simp
      ultimately show ?thesis using Cons by (auto simp: suffix_Cons)
    qed
  qed
qed

lemma replacement_gap:
  assumes "bracket_free k" "sublist k (js ''[REDACTED]'' @ s)"
  shows "sublist k s"
proof -
  have "sublist k (91 # js ''REDACTED'' @ 93 # s)" using assms(2) by simp
  then consider "prefix k (91 # js ''REDACTED'' @ 93 # s)" | "sublist k (js ''REDACTED'' @ 93 # s)"
    by (auto simp: sublist_Cons_right)
  then show ?thesis
  proof cases
    case 1
    then show ?thesis using assms(1) by (cases k) (auto simp: bracket_free_def)
  next
    case 2
    then consider "sublist k (js ''REDACTED'')" | "sublist k (93 # s)"
      | k1 k2 where "k = k1 @ k2" "suffix k1 (js ''REDACTED'')" "prefix k2 (93 # s)"
      unfolding sublist_append by blast
    then show ?thesis
    proof cases
      case 1
      then show ?thesis using assms(1) by (simp add: bracket_free_def)
    next
      case 2
      then show ?thesis using assms(1) by (auto simp: bracket_free_def sublist_Cons_right prefix_Cons)
    next
      case 3
      then have "k2 = []" using assms(1) by (cases k2) (auto simp: bracket_free_def)
      then show ?thesis using 3 assms(1) suffix_imp_sublist by (auto simp: bracket_free_def simp del: js_simps)
    qed
  qed
qed

lemma replace_secret_sublist:
  assumes "k' \<noteq> []" "bracket_free k"
  shows "sublist k (replace_secret k' 0 s) \<Longrightarrow> sublist k s \<and> k \<noteq> k'"
proof (induction "length s" arbitrary: s rule: less_induct)
  case less
  have k: "k \<noteq> []" "91 \<notin> set k" using assms(2) by (auto simp: bracket_free_def)
  show ?case
  proof (cases s)
    case Nil
    with less.prems k show ?thesis by simp
  next
    case (Cons u us)
    show ?thesis
    proof (cases "prefix k' s")
      case True
      with less.prems Cons have "sublist k (js ''[REDACTED]'' @ replace_secret k' 0 (drop (length k') s))"
        by (simp add: replace_secret_Cons [OF assms(1)] del: js_simps)
      then have "sublist k (replace_secret k' 0 (drop (length k') s))" using replacement_gap assms(2) by blast
      moreover have "length (drop (length k') s) < length s" using Cons assms(1) by (cases k') auto
      ultimately have "sublist k (drop (length k') s) \<and> k \<noteq> k'" using less.hyps by blast
      moreover have "sublist (drop (length k') s) s" by (rule suffix_imp_sublist) (rule suffix_drop)
      ultimately show ?thesis using sublist_order.order.trans by blast
    next
      case False
      with less.prems Cons have p: "sublist k (u # replace_secret k' 0 us)" by (simp add: replace_secret_Cons [OF assms(1)])
      then consider "prefix k (u # replace_secret k' 0 us)" | "sublist k (replace_secret k' 0 us)" by (auto simp: sublist_Cons_right)
      then show ?thesis
      proof cases
        case 1
        then have "prefix k (replace_secret k' 0 s)" using False Cons by (simp add: replace_secret_Cons [OF assms(1)])
        then have "prefix k s" using replace_secret_prefix assms(1) k(2) by blast
        with False show ?thesis by (auto simp: prefix_imp_sublist)
      next
        case 2
        with less.hyps [of us] Cons show ?thesis by (auto simp: sublist_Cons_right)
      qed
    qed
  qed
qed

section \<open>Replacing several secrets\<close>

text \<open>The secrets of a list are replaced one after the other; those that \<open>skipped\<close> accepts are left alone.\<close>

definition replace_secrets :: "(js_string \<Rightarrow> bool) \<Rightarrow> js_string list \<Rightarrow> js_string \<Rightarrow> js_string" where
  "replace_secrets skipped secrets t = foldl (\<lambda>s secret. if skipped secret then s else replace_secret secret 0 s) t secrets"

lemma replace_secrets_simps [simp]:
  "replace_secrets sk [] t = t"
  "replace_secrets sk (k # ks) t = replace_secrets sk ks (if sk k then t else replace_secret k 0 t)"
  by (simp_all add: replace_secrets_def)

lemma replace_secrets_sublist:
  assumes "bracket_free k" "sk []"
  shows "sublist k (replace_secrets sk ks t) \<Longrightarrow> sublist k t \<and> (k \<in> set ks \<longrightarrow> sk k)"
proof (induction ks arbitrary: t)
  case (Cons x ks)
  show ?case
  proof (cases "sk x")
    case True
    with Cons show ?thesis by auto
  next
    case False
    then have "x \<noteq> []" using assms(2) by auto
    moreover have "sublist k (replace_secret x 0 t)" "k \<in> set ks \<longrightarrow> sk k" using Cons False by auto
    ultimately show ?thesis using replace_secret_sublist [of x k t] assms(1) by auto
  qed
qed simp

lemma replace_secrets_prefix:
  assumes "sk []" "91 \<notin> set p"
  shows "prefix p (replace_secrets sk ks t) \<Longrightarrow> prefix p t"
proof (induction ks arbitrary: t)
  case (Cons x ks)
  then have "prefix p (if sk x then t else replace_secret x 0 t)" by simp
  moreover have "x \<noteq> []" if "\<not> sk x" using that assms(1) by auto
  ultimately show ?case using replace_secret_prefix [of x p t] assms(2) by (auto split: if_splits)
qed simp

lemma replace_secrets_suffix:
  assumes "sk []" "93 \<notin> set p"
  shows "suffix p (replace_secrets sk ks t) \<Longrightarrow> suffix p t"
proof (induction ks arbitrary: t)
  case (Cons x ks)
  then have "suffix p (if sk x then t else replace_secret x 0 t)" by simp
  moreover have "x \<noteq> []" if "\<not> sk x" using that assms(1) by auto
  ultimately show ?case using replace_secret_suffix [of x p t] assms(2) by (auto split: if_splits)
qed simp

lemma replace_secrets_clean:
  assumes "sk []"
  shows "93 \<notin> set (replace_secrets sk ks t) \<Longrightarrow> replace_secrets sk ks t = t"
proof (induction ks arbitrary: t)
  case (Cons x ks)
  then have "replace_secrets sk (x # ks) t = (if sk x then t else replace_secret x 0 t)" by simp
  moreover have "x \<noteq> []" if "\<not> sk x" using that assms(1) by auto
  ultimately show ?case using Cons.prems replace_secret_clean [of x t] by (cases "sk x") auto
qed simp

section \<open>Trimming\<close>

definition js_trim :: "js_string \<Rightarrow> js_string" where
  "js_trim s = rev (dropWhile js_space (rev (dropWhile js_space s)))"

lemma sublist_trim: "sublist (js_trim s) s"
proof -
  have "suffix (dropWhile js_space s) s" "suffix (dropWhile js_space (rev (dropWhile js_space s))) (rev (dropWhile js_space s))"
    by (simp_all add: suffix_dropWhile)
  then have "prefix (js_trim s) (dropWhile js_space s)" by (simp add: js_trim_def suffix_to_prefix)
  with \<open>suffix (dropWhile js_space s) s\<close> show ?thesis
    by (meson prefix_imp_sublist suffix_imp_sublist sublist_order.order.trans)
qed

end
