(* ===== verification/Daemon_Startup.thy ===== *)
theory Daemon_Startup
  imports Daemon_Client Start_Lock Redaction
begin

text \<open>
  Finding and starting the daemon (plugin/pty/daemon-client.ts, daemon/storage.ts): descriptors and the
  state of their owner, the health probe, the loop of ensureDaemon with everything the client sees in each
  turn as an argument, and the diagnostics of a failed start. The URL parser and the encoding of the launch
  options are parameters.
\<close>

section \<open>Descriptors\<close>

text \<open>What \<open>new URL(endpoint)\<close> gives, as far as the client looks at it.\<close>

record url =
  url_protocol :: js_string
  url_origin :: js_string
  url_port :: js_string
  url_hostname :: js_string

record DaemonDescriptor =
  dd_pid :: int
  dd_processIdentity :: js_string
  dd_endpoint :: js_string
  dd_protocolVersion :: int
  dd_token :: js_string

definition local_endpoint :: "(js_string \<Rightarrow> url option) \<Rightarrow> js_string \<Rightarrow> bool" where
  "local_endpoint new_url endpoint =
     (case new_url endpoint of
        None \<Rightarrow> False
      | Some u \<Rightarrow> url_protocol u = js ''http:'' \<and> url_origin u = endpoint \<and> url_port u \<noteq> [] \<and>
          (url_hostname u = js ''127.0.0.1'' \<or> url_hostname u = js ''[::1]''))"

definition isSafeDescriptor :: "(js_string \<Rightarrow> url option) \<Rightarrow> json option \<Rightarrow> DaemonDescriptor option" where
  "isSafeDescriptor new_url value =
     (case value of
        Some (JObj m) \<Rightarrow>
          (case (map_of m (js ''pid''), map_of m (js ''processIdentity''), map_of m (js ''protocolVersion''),
                 map_of m (js ''token''), map_of m (js ''endpoint'')) of
             (Some (JNum p), Some (JStr i), Some (JNum v), Some (JStr t), Some (JStr e)) \<Rightarrow>
               if \<not> isSafeInteger p \<or> p < 1 \<or> i = [] \<or> \<not> isSafeInteger v \<or> v < 1 \<or> t = [] \<or> length t > 256 \<or>
                  \<not> local_endpoint new_url e
               then None
               else Some \<lparr> dd_pid = p, dd_processIdentity = i, dd_endpoint = e, dd_protocolVersion = v, dd_token = t \<rparr>
           | _ \<Rightarrow> None)
      | _ \<Rightarrow> None)"

definition descriptor_json :: "DaemonDescriptor \<Rightarrow> json" where
  "descriptor_json d =
     JObj [(js ''pid'', JNum (dd_pid d)), (js ''processIdentity'', JStr (dd_processIdentity d)),
           (js ''endpoint'', JStr (dd_endpoint d)), (js ''protocolVersion'', JNum (dd_protocolVersion d)),
           (js ''token'', JStr (dd_token d))]"

text \<open>
  The looser check of the storage (\<open>validDescriptor\<close>): the protocol version is whatever the file says.
\<close>

record stored_descriptor =
  sd_pid :: int
  sd_processIdentity :: js_string
  sd_current :: bool

definition validDescriptor :: "json option \<Rightarrow> stored_descriptor option" where
  "validDescriptor value =
     (case value of
        None \<Rightarrow> None
      | Some v \<Rightarrow>
          (case (json_get v (js ''pid''), json_get v (js ''processIdentity''), json_get v (js ''endpoint''),
                 json_get v (js ''token'')) of
             (Some (JNum p), Some (JStr i), Some (JStr e), Some (JStr t)) \<Rightarrow>
               if isSafeInteger p \<and> 0 < p \<and> i \<noteq> [] \<and> t \<noteq> []
               then Some \<lparr> sd_pid = p, sd_processIdentity = i,
                           sd_current = (json_get v (js ''protocolVersion'') = Some (JNum (int DAEMON_PROTOCOL_VERSION))) \<rparr>
               else None
           | _ \<Rightarrow> None))"

datatype owner_status = Owner_alive | Owner_dead | Owner_unknown

text \<open>
  What the operating system says of the process a descriptor names: its start identity, when it
  can be probed, and whether the process exists at all.
\<close>

record process_view =
  pv_identity :: "js_string option"
  pv_exists :: bool

definition descriptorOwnerStatus :: "json option \<Rightarrow> process_view \<Rightarrow> owner_status" where
  "descriptorOwnerStatus file pv =
     (case validDescriptor file of
        None \<Rightarrow> Owner_dead
      | Some d \<Rightarrow>
          (case truthy_text (pv_identity pv) of
             Some i \<Rightarrow> if i = sd_processIdentity d then Owner_alive else Owner_dead
           | None \<Rightarrow> if pv_exists pv then Owner_unknown else Owner_dead))"

text \<open>The answer to a health request: none, a failure with its code, or the identity of the daemon.\<close>

datatype health_answer = Health_none | Health_error failure_code | Health_ok int int js_string

definition authenticatedDescriptorHealthy :: "int \<Rightarrow> int option \<Rightarrow> health_answer \<Rightarrow> stored_descriptor \<Rightarrow> bool" where
  "authenticatedDescriptorHealthy now deadline answer d =
     (min 250 (case deadline of None \<Rightarrow> 250 | Some t \<Rightarrow> max 0 (t - now)) \<noteq> 0 \<and>
      (case answer of Health_ok _ p i \<Rightarrow> p = sd_pid d \<and> i = sd_processIdentity d | _ \<Rightarrow> False))"

definition descriptorOwnerAlive ::
  "int \<Rightarrow> int option \<Rightarrow> json option \<Rightarrow> process_view \<Rightarrow> health_answer \<Rightarrow> bool" where
  "descriptorOwnerAlive now deadline file pv answer =
     (case validDescriptor file of
        None \<Rightarrow> False
      | Some d \<Rightarrow>
          (let status = descriptorOwnerStatus file pv in
           status = Owner_alive \<or>
           (status = Owner_unknown \<and> (\<not> sd_current d \<or> authenticatedDescriptorHealthy now deadline answer d))))"

definition removeDescriptor :: "bool \<Rightarrow> js_string \<Rightarrow> js_string \<Rightarrow> json option \<Rightarrow> json option" where
  "removeDescriptor locked token identity file =
     (if \<not> locked then file
      else case file of
        None \<Rightarrow> None
      | Some v \<Rightarrow>
          if json_get v (js ''token'') = Some (JStr token) \<and> json_get v (js ''processIdentity'') = Some (JStr identity)
          then None else file)"

section \<open>Finding or starting the daemon\<close>

definition DAEMON_START_TIMEOUT_MS :: int where "DAEMON_START_TIMEOUT_MS = 20000"
definition STARTUP_STDERR_TAIL_CHARS :: nat where "STARTUP_STDERR_TAIL_CHARS = 4096"

definition daemonReadinessDeadline :: "int \<Rightarrow> int" where
  "daemonReadinessDeadline t0 = t0 + DAEMON_START_TIMEOUT_MS"

text \<open>\<open>slice(-n)\<close>.\<close>

definition last_chars :: "nat \<Rightarrow> js_string \<Rightarrow> js_string" where
  "last_chars n s = drop (length s - n) s"

definition retainStartupStderrTail :: "js_string \<Rightarrow> js_string \<Rightarrow> js_string" where
  "retainStartupStderrTail tail chunk = last_chars STARTUP_STDERR_TAIL_CHARS (tail @ chunk)"

definition captureStartupStderr :: "js_string list \<Rightarrow> js_string" where
  "captureStartupStderr chunks = foldl retainStartupStderrTail [] chunks"

definition safeStartupStderrTail :: "js_string option \<Rightarrow> js_string option list \<Rightarrow> js_string option" where
  "safeStartupStderrTail tail secrets =
     (case tail of
        None \<Rightarrow> None
      | Some t \<Rightarrow>
          if js_trim t = [] then None
          else let s = foldl (\<lambda>s secret. case truthy_text secret of None \<Rightarrow> s | Some k \<Rightarrow> replace_secret k 0 s) t secrets;
                   r = last_chars STARTUP_STDERR_TAIL_CHARS (js_trim s)
               in if r = [] then None else Some r)"

datatype probe_state = Probe_healthy | Probe_incompatible | Probe_unreachable

datatype client_event =
    Ev_request DaemonDescriptor
  | Ev_locked js_string
  | Ev_launch js_string js_string
  | Ev_released js_string

text \<open>
  The second component lists the requests that were sent. A failure of the request itself counts
  as no answer.
\<close>

definition probe :: "int \<Rightarrow> int option \<Rightarrow> health_answer \<Rightarrow> DaemonDescriptor \<Rightarrow> probe_state \<times> client_event list" where
  "probe now deadline answer d =
     (if dd_protocolVersion d \<noteq> int DAEMON_PROTOCOL_VERSION then (Probe_incompatible, [])
      else if min 250 (case deadline of None \<Rightarrow> 250 | Some t \<Rightarrow> max 0 (t - now)) = 0 then (Probe_unreachable, [])
      else
        ((case answer of
            Health_none \<Rightarrow> Probe_unreachable
          | Health_error code \<Rightarrow> if code = F_protocol then Probe_incompatible else Probe_unreachable
          | Health_ok v p i \<Rightarrow>
              if v \<noteq> dd_protocolVersion d then Probe_incompatible
              else if p \<noteq> dd_pid d \<or> i \<noteq> dd_processIdentity d then Probe_unreachable
              else Probe_healthy),
         [Ev_request d]))"

text \<open>
  What the client learns when it looks at the descriptor once: the contents of the file, the time and
  the answer of the probe, and, for an incompatible daemon, the file and the process the owner check sees.
\<close>

record daemon_view =
  dv_file :: "json option"
  dv_now :: int
  dv_answer :: health_answer
  dv_owner_file :: "json option"
  dv_owner :: process_view

datatype inspection = No_descriptor | Healthy DaemonDescriptor | Foreign DaemonDescriptor | Stale DaemonDescriptor

definition canRecoverIncompatibleDaemon :: "daemon_view \<Rightarrow> bool" where
  "canRecoverIncompatibleDaemon dv \<longleftrightarrow> descriptorOwnerStatus (dv_owner_file dv) (dv_owner dv) = Owner_dead"

definition inspect_descriptor :: "int \<Rightarrow> daemon_view \<Rightarrow> DaemonDescriptor option \<Rightarrow> inspection \<times> client_event list" where
  "inspect_descriptor deadline dv descriptor =
     (case descriptor of
        None \<Rightarrow> (No_descriptor, [])
      | Some d \<Rightarrow>
          (case probe (dv_now dv) (Some deadline) (dv_answer dv) d of
             (Probe_healthy, es) \<Rightarrow> (Healthy d, es)
           | (Probe_incompatible, es) \<Rightarrow> (if canRecoverIncompatibleDaemon dv then Stale d else Foreign d, es)
           | (Probe_unreachable, es) \<Rightarrow> (Stale d, es)))"

datatype launch_outcome = Launched | Launch_failed | Launched_without_stderr

text \<open>One turn of the loop, with everything the client sees during it.\<close>

record client_look =
  lk_now :: int
  lk_view :: daemon_view
  lk_alive_now :: int
  lk_alive_file :: "json option"
  lk_alive_owner :: process_view
  lk_alive_answer :: health_answer
  lk_lock :: "(js_string \<times> js_string) option"
  lk_locked_view :: daemon_view
  lk_launch :: launch_outcome
  lk_uuid :: js_string
  lk_exit :: "int option"
  lk_stderr :: js_string

datatype startup_error =
    Incompatible_protocol DaemonDescriptor
  | Could_not_launch
  | No_stderr
  | Exited_early int "js_string option"
  | Did_not_start "js_string option"

record ensure_state =
  es_lock :: "(js_string \<times> js_string) option"
  es_started :: bool
  es_token :: js_string
  es_options :: js_string
  es_events :: "client_event list"

datatype ensure_outcome = Ready DaemonDescriptor | Refused startup_error | Again

definition startup_diagnostic :: "client_look \<Rightarrow> ensure_state \<Rightarrow> js_string option" where
  "startup_diagnostic lk st = safeStartupStderrTail (Some (lk_stderr lk)) [Some (es_token st), Some (es_options st)]"

definition record_events :: "client_event list \<Rightarrow> ensure_state \<Rightarrow> ensure_state" where
  "record_events es st = st\<lparr> es_events := es_events st @ es \<rparr>"

text \<open>\<open>encode\<close> gives the launch options, in which the token and the handoff token are.\<close>

definition launch_daemon ::
  "(js_string \<Rightarrow> js_string \<Rightarrow> js_string) \<Rightarrow> client_look \<Rightarrow> js_string \<Rightarrow> ensure_state \<Rightarrow> ensure_outcome \<times> ensure_state" where
  "launch_daemon encode lk handoff st =
     (let st1 = st\<lparr> es_token := lk_uuid lk, es_options := encode (lk_uuid lk) handoff \<rparr>;
          st2 = record_events [Ev_launch handoff (lk_uuid lk)] st1 in
      case lk_launch lk of
        Launch_failed \<Rightarrow> (Refused Could_not_launch, st1)
      | Launched_without_stderr \<Rightarrow> (Refused No_stderr, st2)
      | Launched \<Rightarrow> (Again, st2\<lparr> es_started := True \<rparr>))"

definition start_daemon ::
  "(js_string \<Rightarrow> url option) \<Rightarrow> (js_string \<Rightarrow> js_string \<Rightarrow> js_string) \<Rightarrow> int \<Rightarrow> client_look \<Rightarrow> ensure_state \<Rightarrow> ensure_outcome \<times> ensure_state" where
  "start_daemon new_url encode deadline lk st =
     (case es_lock st of
        None \<Rightarrow>
          (case lk_lock lk of
             Some l \<Rightarrow> (Again, record_events [Ev_locked (fst l)] (st\<lparr> es_lock := Some l \<rparr>))
           | None \<Rightarrow> (Again, st))
      | Some l \<Rightarrow>
          if \<not> es_started st then
            (case inspect_descriptor deadline (lk_locked_view lk) (isSafeDescriptor new_url (dv_file (lk_locked_view lk))) of
               (Healthy d, es) \<Rightarrow> (Ready d, record_events es st)
             | (Foreign d, es) \<Rightarrow> (Refused (Incompatible_protocol d), record_events es st)
             | (_, es) \<Rightarrow> launch_daemon encode lk (snd l) (record_events es st))
          else case lk_exit lk of
            Some code \<Rightarrow> (Refused (Exited_early code (startup_diagnostic lk st)), st)
          | None \<Rightarrow> (Again, st))"

definition ensure_turn ::
  "(js_string \<Rightarrow> url option) \<Rightarrow> (js_string \<Rightarrow> js_string \<Rightarrow> js_string) \<Rightarrow> int \<Rightarrow> client_look \<Rightarrow> ensure_state \<Rightarrow> ensure_outcome \<times> ensure_state" where
  "ensure_turn new_url encode deadline lk st =
     (case inspect_descriptor deadline (lk_view lk) (isSafeDescriptor new_url (dv_file (lk_view lk))) of
        (Healthy d, es) \<Rightarrow> (Ready d, record_events es st)
      | (Foreign d, es) \<Rightarrow> (Refused (Incompatible_protocol d), record_events es st)
      | (Stale d, es) \<Rightarrow>
          if descriptorOwnerAlive (lk_alive_now lk) (Some deadline) (lk_alive_file lk) (lk_alive_owner lk) (lk_alive_answer lk)
          then (Again, record_events es st)
          else start_daemon new_url encode deadline lk (record_events es st)
      | (No_descriptor, es) \<Rightarrow> start_daemon new_url encode deadline lk (record_events es st))"

text \<open>
  \<open>None\<close> is a loop that still waits. The time of the next look decides whether there is another turn;
  the \<open>finally\<close> block gives the start lock back however the loop ends.
\<close>

definition finish_start :: "ensure_state \<Rightarrow> ensure_state" where
  "finish_start st = (case es_lock st of None \<Rightarrow> st | Some l \<Rightarrow> record_events [Ev_released (fst l)] st)"

fun ensure_loop ::
  "(js_string \<Rightarrow> url option) \<Rightarrow> (js_string \<Rightarrow> js_string \<Rightarrow> js_string) \<Rightarrow> int \<Rightarrow> client_look list \<Rightarrow> ensure_state \<Rightarrow>
   ((startup_error, DaemonDescriptor) result \<times> ensure_state) option" where
  "ensure_loop new_url encode deadline [] st = None"
| "ensure_loop new_url encode deadline (lk # looks) st =
     (if \<not> lk_now lk < deadline then Some (Inl (Did_not_start (startup_diagnostic lk st)), finish_start st)
      else case ensure_turn new_url encode deadline lk st of
        (Ready d, st') \<Rightarrow> Some (Inr d, finish_start st')
      | (Refused e, st') \<Rightarrow> Some (Inl e, finish_start st')
      | (Again, st') \<Rightarrow> ensure_loop new_url encode deadline looks st')"

definition new_ensure_state :: "client_event list \<Rightarrow> ensure_state" where
  "new_ensure_state es = \<lparr> es_lock = None, es_started = False, es_token = [], es_options = [], es_events = es \<rparr>"

text \<open>\<open>cached\<close> is the descriptor of an earlier call, looked at once before the loop.\<close>

definition ensureDaemon ::
  "(js_string \<Rightarrow> url option) \<Rightarrow> (js_string \<Rightarrow> js_string \<Rightarrow> js_string) \<Rightarrow> int \<Rightarrow> daemon_view \<Rightarrow> DaemonDescriptor option \<Rightarrow>
   client_look list \<Rightarrow> ((startup_error, DaemonDescriptor) result \<times> client_event list) option" where
  "ensureDaemon new_url encode t0 cached_view cached looks =
     (let deadline = daemonReadinessDeadline t0;
          safe = (case cached of None \<Rightarrow> None | Some d \<Rightarrow> isSafeDescriptor new_url (Some (descriptor_json d))) in
      case inspect_descriptor deadline cached_view safe of
        (Healthy d, es) \<Rightarrow> Some (Inr d, es)
      | (Foreign d, es) \<Rightarrow> Some (Inl (Incompatible_protocol d), es)
      | (_, es) \<Rightarrow> map_option (\<lambda>(r, st). (r, es_events st)) (ensure_loop new_url encode deadline looks (new_ensure_state es)))"

section \<open>What starting the daemon guarantees\<close>

definition safe_request :: "(js_string \<Rightarrow> url option) \<Rightarrow> client_event \<Rightarrow> bool" where
  "safe_request new_url e =
     (case e of
        Ev_request d \<Rightarrow> dd_protocolVersion d = int DAEMON_PROTOCOL_VERSION \<and> local_endpoint new_url (dd_endpoint d)
      | _ \<Rightarrow> False)"

abbreviation safe_requests :: "(js_string \<Rightarrow> url option) \<Rightarrow> client_event list \<Rightarrow> bool" where
  "safe_requests new_url \<equiv> list_all (safe_request new_url)"

text \<open>What may happen while the lock is held: requests, and at most one launch with its handoff token.\<close>

definition one_launch :: "(js_string \<Rightarrow> url option) \<Rightarrow> js_string \<Rightarrow> client_event list \<Rightarrow> bool" where
  "one_launch new_url handoff es \<longleftrightarrow>
     (\<exists>a b. safe_requests new_url a \<and> safe_requests new_url b \<and> (es = a @ b \<or> (\<exists>t. es = a @ Ev_launch handoff t # b)))"

lemma one_launchI:
  "safe_requests new_url a \<Longrightarrow> one_launch new_url hand a"
  "safe_requests new_url a \<Longrightarrow> safe_requests new_url b \<Longrightarrow> one_launch new_url hand (a @ Ev_launch hand t # b)"
  unfolding one_launch_def by (rule exI [of _ a], rule exI [of _ "[]"], simp) blast

lemma one_launch_request:
  assumes "one_launch new_url hand es" "safe_requests new_url fs" shows "one_launch new_url hand (es @ fs)"
proof -
  from assms(1) obtain a b where ab: "safe_requests new_url a" "safe_requests new_url b"
    and e: "es = a @ b \<or> (\<exists>t. es = a @ Ev_launch hand t # b)" unfolding one_launch_def by blast
  from ab assms(2) have "safe_requests new_url (b @ fs)" by simp
  with ab e show ?thesis unfolding one_launch_def by (metis append.assoc append_Cons)
qed

text \<open>The events of a loop that has not ended: the lock, once taken, is not given back.\<close>

definition ensure_ok :: "(js_string \<Rightarrow> url option) \<Rightarrow> ensure_state \<Rightarrow> bool" where
  "ensure_ok new_url st \<longleftrightarrow>
     (case es_lock st of
        None \<Rightarrow> safe_requests new_url (es_events st) \<and> \<not> es_started st
      | Some (tok, hand) \<Rightarrow> \<exists>a b. es_events st = a @ Ev_locked tok # b \<and> safe_requests new_url a \<and> one_launch new_url hand b \<and>
          (\<not> es_started st \<longrightarrow> safe_requests new_url b))"

text \<open>The same when the loop ends, before the lock is given back: then a launch need not have been noted.\<close>

definition ended_ok :: "(js_string \<Rightarrow> url option) \<Rightarrow> ensure_state \<Rightarrow> bool" where
  "ended_ok new_url st \<longleftrightarrow>
     (case es_lock st of
        None \<Rightarrow> safe_requests new_url (es_events st)
      | Some (tok, hand) \<Rightarrow> \<exists>a b. es_events st = a @ Ev_locked tok # b \<and> safe_requests new_url a \<and> one_launch new_url hand b)"

lemma ensure_okI:
  "es_lock st = Some (tok, hand) \<Longrightarrow> es_events st = a @ Ev_locked tok # b \<Longrightarrow> safe_requests new_url a \<Longrightarrow>
   one_launch new_url hand b \<Longrightarrow> (\<not> es_started st \<Longrightarrow> safe_requests new_url b) \<Longrightarrow> ensure_ok new_url st"
  by (auto simp: ensure_ok_def)

lemma ended_okI:
  "es_lock st = Some (tok, hand) \<Longrightarrow> es_events st = a @ Ev_locked tok # b \<Longrightarrow> safe_requests new_url a \<Longrightarrow>
   one_launch new_url hand b \<Longrightarrow> ended_ok new_url st"
  by (auto simp: ended_ok_def)

lemma ensure_ended: "ensure_ok new_url st \<Longrightarrow> ended_ok new_url st"
  by (auto simp: ensure_ok_def ended_ok_def split: option.splits)

lemma safe_descriptor_local: "isSafeDescriptor new_url v = Some d \<Longrightarrow> local_endpoint new_url (dd_endpoint d)"
  by (auto simp: isSafeDescriptor_def split: option.splits json.splits if_splits)

lemma probe_requests:
  "probe now deadline answer d = (s, es) \<Longrightarrow> local_endpoint new_url (dd_endpoint d) \<Longrightarrow> safe_requests new_url es"
  by (auto simp: probe_def safe_request_def split: if_splits)

lemma inspect_requests:
  "inspect_descriptor deadline dv (isSafeDescriptor new_url v) = (i, es) \<Longrightarrow> safe_requests new_url es"
  using safe_descriptor_local probe_requests
  by (fastforce simp: inspect_descriptor_def split: option.splits prod.splits probe_state.splits)

lemma record_events_sel [simp]:
  "es_lock (record_events es st) = es_lock st" "es_started (record_events es st) = es_started st"
  "es_events (record_events es st) = es_events st @ es"
  by (simp_all add: record_events_def)

lemma ensure_ok_request:
  assumes "ensure_ok new_url st" "safe_requests new_url es" shows "ensure_ok new_url (record_events es st)"
proof (cases "es_lock st")
  case None
  with assms show ?thesis by (simp add: ensure_ok_def)
next
  case (Some l)
  obtain tok hand where l: "l = (tok, hand)" by fastforce
  with assms(1) Some obtain a b where "es_events st = a @ Ev_locked tok # b" "safe_requests new_url a" "one_launch new_url hand b"
    "\<not> es_started st \<longrightarrow> safe_requests new_url b" by (auto simp: ensure_ok_def)
  with assms(2) Some l show ?thesis
    by (intro ensure_okI [of _ tok hand a "b @ es"]) (auto intro: one_launch_request)
qed

lemma launch_events:
  assumes "launch_daemon encode lk hand st = (x, st')" "ensure_ok new_url st" "es_lock st = Some (tok, hand)" "\<not> es_started st"
  shows "ended_ok new_url st'" "x = Again \<Longrightarrow> ensure_ok new_url st'"
proof -
  from assms(2-4) obtain a b where e: "es_events st = a @ Ev_locked tok # b" "safe_requests new_url a" "safe_requests new_url b"
    by (auto simp: ensure_ok_def)
  have "one_launch new_url hand (b @ [Ev_launch hand (lk_uuid lk)])" "one_launch new_url hand b"
    using e(3) one_launchI(2) [of new_url b "[]"] one_launchI(1) by auto
  note launched = this
  have st: "es_lock st' = Some (tok, hand)" "es_events st' = es_events st \<or> es_events st' = es_events st @ [Ev_launch hand (lk_uuid lk)]"
    "x = Again \<Longrightarrow> es_started st'"
    using assms by (auto simp: launch_daemon_def Let_def split: launch_outcome.splits)
  from st(2) e(1) have ev: "es_events st' = a @ Ev_locked tok # b \<or> es_events st' = a @ Ev_locked tok # (b @ [Ev_launch hand (lk_uuid lk)])"
    by auto
  then show "ended_ok new_url st'" using ended_okI [OF st(1) _ e(2)] launched by blast
  show "ensure_ok new_url st'" if "x = Again"
    using ev ensure_okI [OF st(1) _ e(2)] launched st(3) [OF that] by blast
qed

lemma start_events:
  assumes s: "start_daemon new_url encode deadline lk st = (x, st')" and ok: "ensure_ok new_url st"
  shows "ended_ok new_url st' \<and> (x = Again \<longrightarrow> ensure_ok new_url st')"
proof (cases "es_lock st")
  case None
  have "ensure_ok new_url st'"
  proof (cases "lk_lock lk")
    case (Some l)
    obtain tok hand where "l = (tok, hand)" by fastforce
    with s None Some ok have "es_lock st' = Some (tok, hand)" "es_events st' = es_events st @ Ev_locked tok # []"
        "safe_requests new_url (es_events st)" by (auto simp: start_daemon_def ensure_ok_def)
    then show ?thesis using ensure_okI one_launchI(1) [of new_url "[]"] by fastforce
  qed (use s None ok in \<open>simp add: start_daemon_def\<close>)
  then show ?thesis using ensure_ended by blast
next
  case (Some l)
  obtain tok hand where l: "l = (tok, hand)" by fastforce
  show ?thesis
  proof (cases "es_started st")
    case True
    with s Some ok have "st' = st" by (auto simp: start_daemon_def split: option.splits)
    with ok ensure_ended show ?thesis by blast
  next
    case False
    obtain i es where ins: "inspect_descriptor deadline (lk_locked_view lk) (isSafeDescriptor new_url (dv_file (lk_locked_view lk))) = (i, es)"
      by fastforce
    have ok': "ensure_ok new_url (record_events es st)" using ensure_ok_request [OF ok inspect_requests [OF ins]] .
    show ?thesis
    proof (cases "(\<exists>d. i = Healthy d) \<or> (\<exists>d. i = Foreign d)")
      case True
      with s Some False ins have "st' = record_events es st" by (auto simp: start_daemon_def)
      with ok' ensure_ended show ?thesis by blast
    next
      case no: False
      with s Some False ins l have "launch_daemon encode lk hand (record_events es st) = (x, st')"
        by (auto simp: start_daemon_def split: inspection.splits)
      from launch_events [OF this ok'] Some l False show ?thesis by simp
    qed
  qed
qed

lemma turn_events:
  assumes t: "ensure_turn new_url encode deadline lk st = (x, st')" and ok: "ensure_ok new_url st"
  shows "ended_ok new_url st' \<and> (x = Again \<longrightarrow> ensure_ok new_url st')"
proof -
  obtain i es where ins: "inspect_descriptor deadline (lk_view lk) (isSafeDescriptor new_url (dv_file (lk_view lk))) = (i, es)"
    by fastforce
  have ok': "ensure_ok new_url (record_events es st)" using ensure_ok_request [OF ok inspect_requests [OF ins]] .
  have "st' = record_events es st \<or> start_daemon new_url encode deadline lk (record_events es st) = (x, st')"
    using t ins by (auto simp: ensure_turn_def split: inspection.splits if_splits)
  then show ?thesis using start_events ok' ensure_ended by blast
qed

text \<open>A look that justifies a launch: no descriptor, or one whose daemon is not there.\<close>

definition daemon_gone :: "(js_string \<Rightarrow> url option) \<Rightarrow> int \<Rightarrow> daemon_view \<Rightarrow> bool" where
  "daemon_gone new_url deadline dv \<longleftrightarrow>
     (\<forall>d. isSafeDescriptor new_url (dv_file dv) = Some d \<longrightarrow>
        fst (probe (dv_now dv) (Some deadline) (dv_answer dv) d) \<noteq> Probe_healthy \<and>
        (dd_protocolVersion d \<noteq> int DAEMON_PROTOCOL_VERSION \<longrightarrow>
           descriptorOwnerStatus (dv_owner_file dv) (dv_owner dv) = Owner_dead))"

definition may_launch :: "(js_string \<Rightarrow> url option) \<Rightarrow> int \<Rightarrow> client_look \<Rightarrow> bool" where
  "may_launch new_url deadline lk \<longleftrightarrow>
     daemon_gone new_url deadline (lk_view lk) \<and> daemon_gone new_url deadline (lk_locked_view lk) \<and>
     (isSafeDescriptor new_url (dv_file (lk_view lk)) \<noteq> None \<longrightarrow>
        \<not> descriptorOwnerAlive (lk_alive_now lk) (Some deadline) (lk_alive_file lk) (lk_alive_owner lk) (lk_alive_answer lk))"

definition vouched :: "daemon_view \<Rightarrow> DaemonDescriptor \<Rightarrow> bool" where
  "vouched dv d \<longleftrightarrow> dd_protocolVersion d = int DAEMON_PROTOCOL_VERSION \<and>
     dv_answer dv = Health_ok (dd_protocolVersion d) (dd_pid d) (dd_processIdentity d)"

lemma inspect_healthy:
  assumes "inspect_descriptor deadline dv (isSafeDescriptor new_url v) = (Healthy d, es)"
  shows "vouched dv d \<and> local_endpoint new_url (dd_endpoint d)"
proof (cases "isSafeDescriptor new_url v")
  case (Some d')
  with assms have "d' = d" "fst (probe (dv_now dv) (Some deadline) (dv_answer dv) d) = Probe_healthy"
    by (auto simp: inspect_descriptor_def split: prod.splits probe_state.splits if_splits)
  with Some safe_descriptor_local show ?thesis
    by (auto simp: vouched_def probe_def split: if_splits health_answer.splits)
qed (use assms in \<open>simp add: inspect_descriptor_def\<close>)

lemma inspect_gone:
  assumes "inspect_descriptor deadline dv (isSafeDescriptor new_url (dv_file dv)) = (i, es)" "\<forall>d. i \<noteq> Healthy d \<and> i \<noteq> Foreign d"
  shows "daemon_gone new_url deadline dv"
  unfolding daemon_gone_def
proof (intro allI impI)
  fix d assume d: "isSafeDescriptor new_url (dv_file dv) = Some d"
  obtain s es' where p: "probe (dv_now dv) (Some deadline) (dv_answer dv) d = (s, es')" by fastforce
  have "s = Probe_incompatible" if "dd_protocolVersion d \<noteq> int DAEMON_PROTOCOL_VERSION"
    using p that by (simp add: probe_def)
  with assms d p show "fst (probe (dv_now dv) (Some deadline) (dv_answer dv) d) \<noteq> Probe_healthy \<and>
      (dd_protocolVersion d \<noteq> int DAEMON_PROTOCOL_VERSION \<longrightarrow> descriptorOwnerStatus (dv_owner_file dv) (dv_owner dv) = Owner_dead)"
    by (auto simp: inspect_descriptor_def canRecoverIncompatibleDaemon_def split: probe_state.splits if_splits)
qed

definition launches :: "ensure_state \<Rightarrow> client_event set" where
  "launches st = {e \<in> set (es_events st). \<exists>hand t. e = Ev_launch hand t}"

lemma no_launch_requests: "safe_requests new_url es \<Longrightarrow> Ev_launch hand t \<notin> set es"
  by (auto simp: list_all_iff safe_request_def)

lemma launches_record: "safe_requests new_url es \<Longrightarrow> launches (record_events es st) = launches st"
  using no_launch_requests by (fastforce simp: launches_def)

lemma start_daemon_result:
  assumes s: "start_daemon new_url encode deadline lk st = (x, st')"
  shows "x = Ready d \<Longrightarrow> vouched (lk_locked_view lk) d \<and> local_endpoint new_url (dd_endpoint d)"
    and "launches st' \<noteq> launches st \<Longrightarrow> daemon_gone new_url deadline (lk_locked_view lk)"
proof -
  obtain i es where ins: "inspect_descriptor deadline (lk_locked_view lk) (isSafeDescriptor new_url (dv_file (lk_locked_view lk))) = (i, es)"
    by fastforce
  show "vouched (lk_locked_view lk) d \<and> local_endpoint new_url (dd_endpoint d)" if "x = Ready d"
  proof -
    have "i = Healthy d"
      using s ins that by (auto simp: start_daemon_def launch_daemon_def Let_def
          split: option.splits if_splits inspection.splits launch_outcome.splits)
    with ins inspect_healthy show ?thesis by blast
  qed
  show "daemon_gone new_url deadline (lk_locked_view lk)" if "launches st' \<noteq> launches st"
  proof (rule ccontr)
    assume "\<not> ?thesis"
    with inspect_gone [OF ins] obtain d where "i = Healthy d \<or> i = Foreign d" by blast
    with s ins have "es_events st' = es_events st @ es \<or> es_events st' = es_events st \<or> (\<exists>tok. es_events st' = es_events st @ [Ev_locked tok])"
      by (auto simp: start_daemon_def split: option.splits if_splits)
    then have "launches st' = launches st" using no_launch_requests [OF inspect_requests [OF ins]] by (auto simp: launches_def)
    with that show False by blast
  qed
qed

lemma turn_result:
  assumes t: "ensure_turn new_url encode deadline lk st = (x, st')"
  shows "x = Ready d \<Longrightarrow> (vouched (lk_view lk) d \<or> vouched (lk_locked_view lk) d) \<and> local_endpoint new_url (dd_endpoint d)"
    and "launches st' \<noteq> launches st \<Longrightarrow> may_launch new_url deadline lk"
proof -
  obtain i es where ins: "inspect_descriptor deadline (lk_view lk) (isSafeDescriptor new_url (dv_file (lk_view lk))) = (i, es)"
    by fastforce
  note same = launches_record [OF inspect_requests [OF ins], of st]
  show "(vouched (lk_view lk) d \<or> vouched (lk_locked_view lk) d) \<and> local_endpoint new_url (dd_endpoint d)" if "x = Ready d"
    using t ins that inspect_healthy [of deadline "lk_view lk" new_url "dv_file (lk_view lk)" d es] start_daemon_result(1)
    by (auto simp: ensure_turn_def split: inspection.splits if_splits)
  show "may_launch new_url deadline lk" if l: "launches st' \<noteq> launches st"
  proof -
    have moved: "st' \<noteq> record_events es st" using l same by auto
    have st: "start_daemon new_url encode deadline lk (record_events es st) = (x, st')"
      "\<forall>d. i \<noteq> Healthy d \<and> i \<noteq> Foreign d"
      "i = No_descriptor \<or> \<not> descriptorOwnerAlive (lk_alive_now lk) (Some deadline) (lk_alive_file lk) (lk_alive_owner lk) (lk_alive_answer lk)"
      using t ins moved by (auto simp: ensure_turn_def split: inspection.splits if_splits)
    have "isSafeDescriptor new_url (dv_file (lk_view lk)) = None" if "i = No_descriptor"
      using ins that by (auto simp: inspect_descriptor_def split: option.splits prod.splits probe_state.splits if_splits)
    with st inspect_gone [OF ins] start_daemon_result(2) [OF st(1)] same l show ?thesis by (auto simp: may_launch_def)
  qed
qed

lemma loop_events:
  "ensure_loop new_url encode deadline looks st = Some (r, st') \<Longrightarrow> ensure_ok new_url st \<Longrightarrow>
   \<exists>st1. st' = finish_start st1 \<and> ended_ok new_url st1 \<and>
     (launches st1 \<noteq> launches st \<longrightarrow> (\<exists>lk\<in>set looks. may_launch new_url deadline lk)) \<and>
     (\<forall>d. r = Inr d \<longrightarrow> local_endpoint new_url (dd_endpoint d) \<and>
        (\<exists>lk\<in>set looks. vouched (lk_view lk) d \<or> vouched (lk_locked_view lk) d))"
proof (induction new_url encode deadline looks st rule: ensure_loop.induct)
  case (2 new_url encode deadline lk looks st)
  obtain x st1 where t: "ensure_turn new_url encode deadline lk st = (x, st1)" by fastforce
  note ev = turn_events [OF t 2(3)] and res = turn_result [OF t]
  show ?case
  proof (cases "lk_now lk < deadline")
    case False
    with 2(2,3) ensure_ended show ?thesis by auto
  next
    case now: True
    show ?thesis
    proof (cases x)
      case Again
      with now t 2(2) have l: "ensure_loop new_url encode deadline looks st1 = Some (r, st')" by simp
      have ok: "ensure_ok new_url st1" using ev Again by blast
      from 2(1) [OF _ t [symmetric] Again l ok] now obtain st2 where
        st2: "st' = finish_start st2" "ended_ok new_url st2" and
        later: "launches st2 \<noteq> launches st1 \<longrightarrow> (\<exists>lk\<in>set looks. may_launch new_url deadline lk)" and
        found: "\<forall>d. r = Inr d \<longrightarrow> local_endpoint new_url (dd_endpoint d) \<and>
          (\<exists>lk\<in>set looks. vouched (lk_view lk) d \<or> vouched (lk_locked_view lk) d)" by blast
      have "\<exists>k\<in>set (lk # looks). may_launch new_url deadline k" if "launches st2 \<noteq> launches st"
        using later res(2) that by (cases "launches st1 = launches st") auto
      moreover have "\<forall>d. r = Inr d \<longrightarrow> local_endpoint new_url (dd_endpoint d) \<and>
          (\<exists>k\<in>set (lk # looks). vouched (lk_view k) d \<or> vouched (lk_locked_view k) d)" using found by auto
      ultimately show ?thesis using st2 by blast
    next
      case (Ready d)
      with now t 2(2) have "r = Inr d" "st' = finish_start st1" by simp_all
      with ev res Ready show ?thesis by (intro exI [of _ st1] conjI) auto
    next
      case (Refused e)
      with now t 2(2) have "r = Inl e" "st' = finish_start st1" by simp_all
      with ev res(2) show ?thesis by (intro exI [of _ st1] conjI) auto
    qed
  qed
qed simp

text \<open>
  The course of a start: requests only, or requests, the lock, one launch at most, and the lock is
  given back at the very end.
\<close>

definition orderly_start :: "(js_string \<Rightarrow> url option) \<Rightarrow> client_event list \<Rightarrow> bool" where
  "orderly_start new_url es \<longleftrightarrow>
     safe_requests new_url es \<or>
     (\<exists>a tok b hand. es = a @ Ev_locked tok # b @ [Ev_released tok] \<and> safe_requests new_url a \<and> one_launch new_url hand b)"

lemma finished_orderly: "ended_ok new_url st \<Longrightarrow> orderly_start new_url (es_events (finish_start st))"
  by (fastforce simp: ended_ok_def orderly_start_def finish_start_def split: option.splits)

lemma finish_launches: "launches (finish_start st) = launches st"
  by (auto simp: launches_def finish_start_def split: option.split)

lemma new_ensure_ok: "safe_requests new_url es \<Longrightarrow> ensure_ok new_url (new_ensure_state es)"
  by (simp add: ensure_ok_def new_ensure_state_def)

lemma cached_requests:
  "inspect_descriptor deadline dv (case cached of None \<Rightarrow> None | Some d \<Rightarrow> isSafeDescriptor new_url (Some (descriptor_json d))) = (i, es)
   \<Longrightarrow> safe_requests new_url es"
  using inspect_requests by (cases cached) (fastforce simp: inspect_descriptor_def)+

lemma cached_healthy:
  "inspect_descriptor deadline dv (case cached of None \<Rightarrow> None | Some d \<Rightarrow> isSafeDescriptor new_url (Some (descriptor_json d))) = (Healthy d', es)
   \<Longrightarrow> vouched dv d' \<and> local_endpoint new_url (dd_endpoint d')"
  using inspect_healthy by (cases cached) (fastforce simp: inspect_descriptor_def)+


lemma loop_ends:
  "\<exists>lk\<in>set looks. \<not> lk_now lk < deadline \<Longrightarrow> ensure_loop new_url encode deadline looks st \<noteq> None"
proof (induction new_url encode deadline looks st rule: ensure_loop.induct)
  case (2 new_url encode deadline lk looks st)
  obtain x st1 where t: "ensure_turn new_url encode deadline lk st = (x, st1)" by fastforce
  show ?case
  proof (cases "lk_now lk < deadline \<and> x = Again")
    case True
    with 2(2) have "\<exists>k\<in>set looks. \<not> lk_now k < deadline" by auto
    with True t 2(1) [OF _ t [symmetric]] show ?thesis by simp
  qed (use t in \<open>auto split: ensure_outcome.split\<close>)
qed simp


section \<open>Diagnostics of a failed start\<close>

lemma sublist_last_chars: "sublist (last_chars n s) s"
  unfolding last_chars_def by (rule suffix_imp_sublist) (rule suffix_drop)

lemma redact_all_sublist:
  assumes "bracket_free k"
  shows "sublist k (foldl (\<lambda>s secret. case truthy_text secret of None \<Rightarrow> s | Some x \<Rightarrow> replace_secret x 0 s) t secrets) \<Longrightarrow>
    sublist k t \<and> Some k \<notin> set secrets"
proof (induction secrets arbitrary: t)
  case (Cons secret secrets)
  have n: "truthy_text (Some k) = Some k" using bracket_free_ne [OF assms] by (auto simp: truthy_text_def)
  show ?case
  proof (cases "truthy_text secret")
    case None
    with Cons n show ?thesis by auto
  next
    case (Some x)
    then have x: "x \<noteq> []" "secret = Some x" by (auto simp: truthy_text_def split: if_splits)
    have "sublist k (replace_secret x 0 t)" "Some k \<notin> set secrets" using Cons Some by auto
    with replace_secret_sublist [OF x(1) assms] x(2) show ?thesis by auto
  qed
qed simp

text \<open>
  The diagnostics of a failed start reveal no credential. Whatever the daemon wrote to its standard
  error, the tail that ends up in the error message does not contain the start token or the launch
  options, and it is at most 4096 characters long.
\<close>

theorem startup_diagnostics_redacted:
  assumes "safeStartupStderrTail tail secrets = Some shown"
  shows "length shown \<le> 4096 \<and> shown \<noteq> [] \<and> (\<forall>k. Some k \<in> set secrets \<longrightarrow> bracket_free k \<longrightarrow> \<not> sublist k shown)"
proof -
  from assms obtain t where t: "tail = Some t" by (auto simp: safeStartupStderrTail_def split: option.splits)
  let ?s = "foldl (\<lambda>s secret. case truthy_text secret of None \<Rightarrow> s | Some x \<Rightarrow> replace_secret x 0 s) t secrets"
  have o1: "shown = last_chars 4096 (js_trim ?s)" "shown \<noteq> []"
    using assms t by (auto simp: safeStartupStderrTail_def Let_def STARTUP_STDERR_TAIL_CHARS_def split: if_splits)
  have "sublist shown ?s" unfolding o1(1) by (rule sublist_order.order.trans [OF sublist_last_chars sublist_trim])
  then have "\<not> sublist k shown" if "Some k \<in> set secrets" "bracket_free k" for k
    using redact_all_sublist [OF that(2), of t secrets] that(1) sublist_order.order.trans by blast
  moreover have "length shown \<le> 4096" unfolding o1(1) last_chars_def by simp
  ultimately show ?thesis using o1(2) by blast
qed

section \<open>Samples\<close>

definition sample_url :: "js_string \<Rightarrow> url option" where
  "sample_url e = Some \<lparr> url_protocol = js ''http:'', url_origin = e, url_port = js ''4096'', url_hostname = js ''127.0.0.1'' \<rparr>"

definition sample_daemon :: DaemonDescriptor where
  "sample_daemon = \<lparr> dd_pid = 9, dd_processIdentity = js ''posix:9:1'', dd_endpoint = js ''http://127.0.0.1:4096'',
     dd_protocolVersion = int DAEMON_PROTOCOL_VERSION, dd_token = js ''t'' \<rparr>"

definition sample_view :: "json option \<Rightarrow> health_answer \<Rightarrow> daemon_view" where
  "sample_view v a = \<lparr> dv_file = v, dv_now = 0, dv_answer = a, dv_owner_file = v, dv_owner = \<lparr> pv_identity = None, pv_exists = False \<rparr> \<rparr>"

definition sample_look :: "int \<Rightarrow> daemon_view \<Rightarrow> client_look" where
  "sample_look now dv =
     \<lparr> lk_now = now, lk_view = dv, lk_alive_now = now, lk_alive_file = None,
       lk_alive_owner = \<lparr> pv_identity = None, pv_exists = False \<rparr>, lk_alive_answer = Health_none,
       lk_lock = Some (js ''lease'', js ''hand''), lk_locked_view = sample_view None Health_none, lk_launch = Launched,
       lk_uuid = js ''start'', lk_exit = None, lk_stderr = [] \<rparr>"

text \<open>The client takes the lock, launches the daemon, and finds it healthy.\<close>

definition sample_looks :: "client_look list" where
  "sample_looks = [sample_look 0 (sample_view None Health_none), sample_look 1 (sample_view None Health_none),
     sample_look 2 (sample_view (Some (descriptor_json sample_daemon))
       (Health_ok (int DAEMON_PROTOCOL_VERSION) 9 (js ''posix:9:1'')))]"

lemma sample_daemon_safe: "isSafeDescriptor sample_url (Some (descriptor_json sample_daemon)) = Some sample_daemon"
  by (simp add: isSafeDescriptor_def descriptor_json_def sample_daemon_def local_endpoint_def sample_url_def
      isSafeInteger_def MAX_SAFE_INTEGER_def DAEMON_PROTOCOL_VERSION_def)

lemma sample_start:
  "ensureDaemon sample_url (\<lambda>t h. t @ h) 0 (sample_view None Health_none) None sample_looks =
   Some (Inr sample_daemon, [Ev_locked (js ''lease''), Ev_launch (js ''hand'') (js ''start''), Ev_request sample_daemon,
     Ev_released (js ''lease'')])"
proof -
  have none: "isSafeDescriptor sample_url None = None" by (simp add: isSafeDescriptor_def)
  have d: "dd_protocolVersion sample_daemon = int DAEMON_PROTOCOL_VERSION" "dd_pid sample_daemon = 9"
    "dd_processIdentity sample_daemon = js ''posix:9:1''" by (simp_all add: sample_daemon_def)
  show ?thesis
    by (simp add: ensureDaemon_def Let_def inspect_descriptor_def sample_looks_def daemonReadinessDeadline_def
        DAEMON_START_TIMEOUT_MS_def sample_look_def ensure_turn_def start_daemon_def launch_daemon_def sample_view_def none
        sample_daemon_safe d new_ensure_state_def record_events_def probe_def finish_start_def del: js_simps)
qed



theorem startup_diagnostics_redacted_witness:
  "\<exists>shown. safeStartupStderrTail (Some (js ''token 0123456789 seen'')) [Some (js ''0123456789'')] = Some shown \<and>
     \<not> sublist (js ''0123456789'') shown"
proof -
  have "\<exists>shown. safeStartupStderrTail (Some (js ''token 0123456789 seen'')) [Some (js ''0123456789'')] = Some shown"
    by (simp add: safeStartupStderrTail_def js_trim_def js_space_def truthy_text_def replace_secret.simps(3) last_chars_def
        STARTUP_STDERR_TAIL_CHARS_def Let_def)
  moreover have "bracket_free (js ''0123456789'')" by (rule bracket_free_long) simp_all
  ultimately show ?thesis using startup_diagnostics_redacted by (metis list.set_intros(1))
qed

end
