(* ===== verification/Daemon_Process.thy ===== *)
theory Daemon_Process
  imports Daemon_Server Daemon_Startup
begin

text \<open>
  The process of the daemon (daemon/main.ts, start and stop in daemon/server.ts) and the assembly of the plugin (plugin.ts): launch
  options, the order of the steps of a start with every way it can fail, the single stop, the tools and the event of a deleted
  conversation. The outcomes of locks, files and sockets are arguments.
\<close>

section \<open>Launch options\<close>

record DaemonLaunchOptions =
  lo_dataDirectory :: "js_string option"
  lo_token :: "js_string option"
  lo_startLockHandoffToken :: "js_string option"

text \<open>
  \<open>decode\<close> is the decoding of the argument, base64url, UTF-8 and JSON, which fails on any other argument. \<open>JSON.parse\<close> may also
  give a value that is no object: the properties of a number, a text, a boolean or an array are undefined, and those of \<open>null\<close> throw.
\<close>

definition option_text :: "json \<Rightarrow> js_string \<Rightarrow> (unit, js_string option) result" where
  "option_text v key = (case json_get v key of None \<Rightarrow> Inr None | Some (JStr t) \<Rightarrow> Inr (Some t) | Some _ \<Rightarrow> Inl ())"

definition launchOptions :: "(js_string \<Rightarrow> json option) \<Rightarrow> js_string option \<Rightarrow> (js_string, DaemonLaunchOptions) result" where
  "launchOptions decode argument =
     (case truthy_text argument of
        None \<Rightarrow> Inr \<lparr> lo_dataDirectory = None, lo_token = None, lo_startLockHandoffToken = None \<rparr>
      | Some encoded \<Rightarrow>
          (case decode encoded of
             None \<Rightarrow> Inl (js ''Invalid PTY daemon launch options.'')
           | Some JNull \<Rightarrow> Inl (js ''Invalid PTY daemon launch options.'')
           | Some v \<Rightarrow>
               (case (option_text v (js ''dataDirectory''), option_text v (js ''token''), option_text v (js ''startLockHandoffToken'')) of
                  (Inr d, Inr t, Inr h) \<Rightarrow> Inr \<lparr> lo_dataDirectory = d, lo_token = t, lo_startLockHandoffToken = h \<rparr>
                | _ \<Rightarrow> Inl (js ''Invalid PTY daemon launch options.''))))"

text \<open>\<open>None\<close> is the exit of the process; the result is the root the storage is given, if any.\<close>

definition storageRoot :: "(js_string \<Rightarrow> bool) \<Rightarrow> (js_string \<Rightarrow> js_string) \<Rightarrow> js_string option \<Rightarrow> js_string option option" where
  "storageRoot isAbsolute resolve dataDirectory =
     (case dataDirectory of
        None \<Rightarrow> Some None
      | Some d \<Rightarrow> if d = [] \<or> \<not> isAbsolute d then None else Some (Some (resolve d)))"

section \<open>Starting the server\<close>

datatype start_effect =
    Lock_taken js_string
  | Storage_ready
  | Sessions_loaded
  | Cleanups_marked
  | Listening js_string
  | Descriptor_written DaemonDescriptor
  | Lock_released js_string
  | Server_stopped
  | Recovery_begun

text \<open>What each step meets: an error, or what it gives.\<close>

record startup_world =
  uw_now :: int
  uw_pid :: int
  uw_lock :: "(js_string, js_string option) result"
  uw_storage :: "(js_string, unit) result"
  uw_alive :: "(js_string, bool) result"
  uw_load :: "(js_string, SessionRecord list) result"
  uw_removals :: "js_string \<Rightarrow> bool"
  uw_writes :: "js_string \<Rightarrow> bool"
  uw_conversations :: "js_string \<Rightarrow> conversation_world"
  uw_secret :: "(js_string, js_string) result"
  uw_identity :: "(js_string, js_string) result"
  uw_uuid :: js_string
  uw_listen :: "(js_string, js_string) result"
  uw_descriptor :: "(js_string, unit) result"
  uw_release :: "(js_string, unit) result"
  uw_release_again :: "(js_string, unit) result"

definition supervisor_start ::
  "platform \<Rightarrow> startup_world \<Rightarrow> Supervisor \<Rightarrow> (js_string, unit) result \<times> Supervisor \<times> start_effect list" where
  "supervisor_start pf uw sv =
     (case uw_load uw of
        Inl e \<Rightarrow> (Inl e, sv, [])
      | Inr loaded \<Rightarrow>
          (case initialize pf (uw_now uw) (uw_removals uw) (uw_writes uw) loaded sv of
             (Inl e, sv1) \<Rightarrow> (Inl (error_message e), sv1, [])
           | (Inr _, sv1) \<Rightarrow>
               (case markConversationRecoveryCleanup pf (uw_now uw) (uw_writes uw) (uw_conversations uw) sv1 of
                  (Inl e, sv2) \<Rightarrow> (Inl (error_message e), sv2, [Sessions_loaded])
                | (Inr _, sv2) \<Rightarrow> (Inr (), sv2, [Sessions_loaded, Cleanups_marked]))))"

definition new_descriptor :: "startup_world \<Rightarrow> js_string \<Rightarrow> js_string \<Rightarrow> js_string \<Rightarrow> DaemonDescriptor" where
  "new_descriptor uw identity endpoint token =
     \<lparr> dd_pid = uw_pid uw, dd_processIdentity = identity, dd_endpoint = endpoint,
       dd_protocolVersion = int DAEMON_PROTOCOL_VERSION, dd_token = (if token = [] then uw_uuid uw else token) \<rparr>"

text \<open>The last part of the \<open>try\<close> block, from the secret to the release of the lock.\<close>

definition publish ::
  "startup_world \<Rightarrow> js_string \<Rightarrow> js_string \<Rightarrow> (js_string, DaemonDescriptor) result \<times> start_effect list" where
  "publish uw token lock =
     (case (uw_secret uw, uw_identity uw) of
        (Inl e, _) \<Rightarrow> (Inl e, [])
      | (_, Inl e) \<Rightarrow> (Inl e, [])
      | (Inr _, Inr identity) \<Rightarrow>
          (case uw_listen uw of
             Inl e \<Rightarrow> (Inl e, [])
           | Inr endpoint \<Rightarrow>
               (let dd = new_descriptor uw identity endpoint token in
                case uw_descriptor uw of
                  Inl e \<Rightarrow> (Inl e, [Listening endpoint])
                | Inr _ \<Rightarrow>
                    (case uw_release uw of
                       Inl e \<Rightarrow> (Inl e, [Listening endpoint, Descriptor_written dd])
                     | Inr _ \<Rightarrow> (Inr dd, [Listening endpoint, Descriptor_written dd, Lock_released lock, Recovery_begun])))))"

definition start_body ::
  "platform \<Rightarrow> startup_world \<Rightarrow> js_string \<Rightarrow> js_string \<Rightarrow> Supervisor \<Rightarrow>
   (js_string, DaemonDescriptor) result \<times> Supervisor \<times> start_effect list" where
  "start_body pf uw token lock sv =
     (case uw_storage uw of
        Inl e \<Rightarrow> (Inl e, sv, [])
      | Inr _ \<Rightarrow>
          (case uw_alive uw of
             Inl e \<Rightarrow> (Inl e, sv, [Storage_ready])
           | Inr True \<Rightarrow> (Inl (js ''PTY daemon is already running.''), sv, [Storage_ready])
           | Inr False \<Rightarrow>
               (case supervisor_start pf uw sv of
                  (Inl e, sv1, es) \<Rightarrow> (Inl e, sv1, Storage_ready # es)
                | (Inr _, sv1, es) \<Rightarrow>
                    (case publish uw token lock of (res, fs) \<Rightarrow> (res, sv1, Storage_ready # es @ fs)))))"

fun is_listening :: "start_effect \<Rightarrow> bool" where
  "is_listening (Listening _) = True"
| "is_listening _ = False"

text \<open>
  \<open>start()\<close>: on an error the listening server is stopped and the lock is released; the error of a failing release takes the place
  of the first one. A release that fails is the effect of the attempt.
\<close>

definition start_server ::
  "platform \<Rightarrow> startup_world \<Rightarrow> js_string \<Rightarrow> Supervisor \<Rightarrow> (js_string, DaemonDescriptor) result \<times> Supervisor \<times> start_effect list" where
  "start_server pf uw token sv =
     (case uw_lock uw of
        Inl e \<Rightarrow> (Inl e, sv, [])
      | Inr None \<Rightarrow> (Inl (js ''PTY daemon start lock was lost.''), sv, [])
      | Inr (Some lock) \<Rightarrow>
          if lock = [] then (Inl (js ''PTY daemon start lock was lost.''), sv, [])
          else case start_body pf uw token lock sv of
            (Inr dd, sv1, es) \<Rightarrow> (Inr dd, sv1, Lock_taken lock # es)
          | (Inl e, sv1, es) \<Rightarrow>
              (Inl (case uw_release_again uw of Inl e2 \<Rightarrow> e2 | Inr _ \<Rightarrow> e), sv1,
               Lock_taken lock # es @ (if list_ex is_listening es then [Server_stopped] else []) @
                 (case uw_release_again uw of Inl _ \<Rightarrow> [] | Inr _ \<Rightarrow> [Lock_released lock])))"

section \<open>Stopping the server\<close>

text \<open>\<open>stop()\<close> runs once; \<open>removed\<close> is the outcome of the removal of the descriptor, which happens after the flush.\<close>

record server_life =
  sl_listening :: bool
  sl_stop :: "(js_string, unit) result option"
  sl_descriptor :: bool

definition stopOnce :: "(js_string, unit) result \<Rightarrow> Supervisor \<Rightarrow> server_life \<Rightarrow> (js_string, unit) result \<times> server_life" where
  "stopOnce removed sv sl =
     (let sl1 = sl\<lparr> sl_listening := False \<rparr> in
      case sv_persist sv of
        Inl e \<Rightarrow> (Inl (error_message e), sl1)
      | Inr _ \<Rightarrow> (removed, case removed of Inl _ \<Rightarrow> sl1 | Inr _ \<Rightarrow> sl1\<lparr> sl_descriptor := False \<rparr>))"

definition stop_server :: "(js_string, unit) result \<Rightarrow> Supervisor \<Rightarrow> server_life \<Rightarrow> (js_string, unit) result \<times> server_life" where
  "stop_server removed sv sl =
     (case sl_stop sl of
        Some res \<Rightarrow> (res, sl)
      | None \<Rightarrow> (case stopOnce removed sv sl of (res, sl1) \<Rightarrow> (res, sl1\<lparr> sl_stop := Some res \<rparr>)))"

section \<open>The plugin\<close>

text \<open>The tools the plugin registers; the shell only when the option asks for it.\<close>

definition plugin_tools :: "bool option \<Rightarrow> js_string list" where
  "plugin_tools bash =
     [js ''pty_spawn'', js ''pty_write'', js ''pty_read'', js ''pty_list'', js ''pty_kill'', js ''shell_exec'', js ''pty_wait'',
      js ''pty_send_wait'', js ''pty_resize''] @ (if bash = Some True then [js ''bash''] else [])"

text \<open>An event of the host, with the id and the directory of its session where it carries them.\<close>

record host_event =
  he_type :: js_string
  he_id :: "js_string option"
  he_directory :: "js_string option"

definition plugin_event :: "server_env \<Rightarrow> host_event \<Rightarrow> (js_string, (OwnerContext \<times> client_method) list) result" where
  "plugin_event env e =
     (if he_type e \<noteq> js ''session.deleted'' then Inr []
      else case (truthy_text (he_id e), truthy_text (he_directory e)) of
        (Some i, Some d) \<Rightarrow> and_then (ownerContext env i d) (\<lambda>ow. Inr [(ow, Do_cleanupSessions), (ow, Do_cleanupApprovals)])
      | _ \<Rightarrow> Inr [])"

section \<open>What a start does\<close>

lemma supervisor_start_ok:
  assumes "supervisor_start pf uw sv = (Inr u, sv', es)" and "sv_records sv = []"
  shows "ledger_ok sv'" "es = [Sessions_loaded, Cleanups_marked]"
proof -
  from assms(1) obtain loaded u1 sv1 u2 where l: "uw_load uw = Inr loaded"
    and i: "initialize pf (uw_now uw) (uw_removals uw) (uw_writes uw) loaded sv = (Inr u1, sv1)"
    and m: "markConversationRecoveryCleanup pf (uw_now uw) (uw_writes uw) (uw_conversations uw) sv1 = (Inr u2, sv')"
    and es: "es = [Sessions_loaded, Cleanups_marked]"
    by (auto simp: supervisor_start_def split: sum.splits prod.splits)
  from initialize_Inr(1) [OF i assms(2)] have "ledger_ok sv1" .
  from markRecovery_ledger [OF this, of pf "uw_now uw" "uw_writes uw" "uw_conversations uw"] m show "ledger_ok sv'" by simp
  show "es = [Sessions_loaded, Cleanups_marked]" by (rule es)
qed


lemma supervisor_start_effects:
  assumes "supervisor_start pf uw sv = (res, sv', es)"
  shows "\<forall>e\<in>set es. e = Sessions_loaded \<or> e = Cleanups_marked"
  using assms by (auto simp: supervisor_start_def split: sum.splits prod.splits)

lemma publish_cases:
  assumes "publish uw token lock = (res, es)"
  shows "(\<exists>e. res = Inl e \<and> es = []) \<or> (\<exists>e p. res = Inl e \<and> es = [Listening p]) \<or>
    (\<exists>p dd. es = [Listening p, Descriptor_written dd] \<and> (\<exists>e. res = Inl e)) \<or>
    (\<exists>p dd. res = Inr dd \<and> es = [Listening p, Descriptor_written dd, Lock_released lock, Recovery_begun])"
  using assms by (auto simp: publish_def Let_def split: sum.splits prod.splits)

text \<open>The body either fails before the server listens, or has loaded the sessions and gone on to publish the daemon.\<close>

lemma start_body_cases:
  assumes "start_body pf uw token lock sv = (res, sv', es)" and "sv_records sv = []"
  shows "(\<exists>e. res = Inl e) \<and> (\<forall>e\<in>set es. e \<in> {Storage_ready, Sessions_loaded, Cleanups_marked}) \<or>
    ledger_ok sv' \<and> uw_alive uw = Inr False \<and>
    (\<exists>fs. publish uw token lock = (res, fs) \<and> es = Storage_ready # Sessions_loaded # Cleanups_marked # fs)"
proof -
  obtain r1 sv1 es1 where s: "supervisor_start pf uw sv = (r1, sv1, es1)" by (cases "supervisor_start pf uw sv")
  obtain r2 fs where p: "publish uw token lock = (r2, fs)" by (cases "publish uw token lock")
  show ?thesis
  proof (cases r1)
    case (Inl e)
    with assms(1) s supervisor_start_effects [OF s] show ?thesis
      by (auto simp: start_body_def split: sum.splits bool.splits)
  next
    case (Inr u)
    with assms(1) s p supervisor_start_ok [OF s [unfolded Inr] assms(2)] show ?thesis
      by (auto simp: start_body_def split: sum.splits bool.splits)
  qed
qed

text \<open>
  C22: a daemon is announced only when it is ready, and a start that fails leaves nothing behind that looks like a running daemon's lock or
  server. The descriptor is written under the start lock, when no other daemon is alive, after the stored sessions have been loaded, their
  clean-ups marked and the server listens, and the ledger of the supervisor is then in order; the lock is released in every outcome, unless its
  release fails; a start that succeeds has announced what it returns and keeps the server, one that fails stops it.
\<close>

theorem daemon_announced_when_ready:
  assumes "start_server pf uw token sv = (res, sv', es)" and "sv_records sv = []"
  shows "(\<forall>dd. Descriptor_written dd \<in> set es \<longrightarrow> ledger_ok sv' \<and> uw_alive uw = Inr False \<and>
      (\<exists>lock p rest. es = Lock_taken lock # Storage_ready # Sessions_loaded # Cleanups_marked # Listening p # Descriptor_written dd # rest)) \<and>
    (\<forall>lock. Lock_taken lock \<in> set es \<and> uw_release_again uw = Inr () \<longrightarrow> Lock_released lock \<in> set es) \<and>
    (case res of
       Inr dd \<Rightarrow> Descriptor_written dd \<in> set es \<and> Server_stopped \<notin> set es
     | Inl _ \<Rightarrow> list_ex is_listening es \<longrightarrow> Server_stopped \<in> set es)"
proof (cases "\<exists>lock. uw_lock uw = Inr (Some lock) \<and> lock \<noteq> []")
  case False
  then have "\<exists>e. res = Inl e \<and> es = []" using assms(1) by (auto simp: start_server_def split: sum.splits option.splits if_splits)
  then show ?thesis by auto
next
  case True
  then obtain lock where l: "uw_lock uw = Inr (Some lock)" "lock \<noteq> []" by blast
  obtain r1 sv1 es1 where b: "start_body pf uw token lock sv = (r1, sv1, es1)" by (cases "start_body pf uw token lock sv")
  have sv': "sv' = sv1" using assms(1) l b by (auto simp: start_server_def split: sum.splits)
  from start_body_cases [OF b assms(2)] show ?thesis
  proof (elim disjE conjE exE)
    fix e assume "r1 = Inl e" and s: "\<forall>e\<in>set es1. e \<in> {Storage_ready, Sessions_loaded, Cleanups_marked}"
    moreover from s have "\<not> list_ex is_listening es1" by (auto simp: list_ex_iff)
    ultimately show ?thesis using assms(1) l b
      by (auto simp: start_server_def list_ex_iff split: sum.splits)
  next
    fix fs assume ok: "ledger_ok sv1" "uw_alive uw = Inr False" and p: "publish uw token lock = (r1, fs)"
      and es1: "es1 = Storage_ready # Sessions_loaded # Cleanups_marked # fs"
    from publish_cases [OF p] show ?thesis
      by (elim disjE exE conjE) (use assms(1) l b ok es1 sv' in \<open>auto simp: start_server_def split: sum.splits\<close>)
  qed
qed


section \<open>Instances\<close>

definition first_start :: startup_world where
  "first_start =
     \<lparr> uw_now = 9, uw_pid = 42, uw_lock = Inr (Some (js ''l'')), uw_storage = Inr (), uw_alive = Inr False, uw_load = Inr [],
       uw_removals = (\<lambda>_. True), uw_writes = (\<lambda>_. True), uw_conversations = rw_conversations sample_world, uw_secret = Inr (js ''s''),
       uw_identity = Inr (js ''linux:1''), uw_uuid = js ''u'', uw_listen = Inr (js ''http://127.0.0.1:1''), uw_descriptor = Inr (),
       uw_release = Inr (), uw_release_again = Inr () \<rparr>"

lemma first_start_runs:
  "\<exists>sv' es. start_server Linux first_start [] (new_supervisor DEFAULT_SESSION_LIMITS) =
     (Inr (new_descriptor first_start (js ''linux:1'') (js ''http://127.0.0.1:1'') []), sv', es)"
proof -
  let ?sv = "(new_supervisor DEFAULT_SESSION_LIMITS)\<lparr> sv_registry := rebuildSlots Linux (sv_registry (new_supervisor DEFAULT_SESSION_LIMITS)) \<rparr>"
  have "sv_records ?sv = []" using sample_no_records by (simp add: sv_records_def)
  then have "supervisor_start Linux first_start (new_supervisor DEFAULT_SESSION_LIMITS) = (Inr (), ?sv, [Sessions_loaded, Cleanups_marked])"
    by (simp add: supervisor_start_def first_start_def initialize_def markConversationRecoveryCleanup_def Let_def)
  then show ?thesis
    by (simp add: start_server_def start_body_def publish_def Let_def first_start_def)
qed

theorem daemon_announced_when_ready_witness:
  "\<exists>sv' es. start_server Linux first_start [] (new_supervisor DEFAULT_SESSION_LIMITS) =
     (Inr (new_descriptor first_start (js ''linux:1'') (js ''http://127.0.0.1:1'') []), sv', es) \<and> ledger_ok sv' \<and> Server_stopped \<notin> set es"
proof -
  from first_start_runs obtain sv' es where s: "start_server Linux first_start [] (new_supervisor DEFAULT_SESSION_LIMITS) =
     (Inr (new_descriptor first_start (js ''linux:1'') (js ''http://127.0.0.1:1'') []), sv', es)" by blast
  from daemon_announced_when_ready [OF s sample_no_records] have "ledger_ok sv' \<and> Server_stopped \<notin> set es" by auto
  with s show ?thesis by blast
qed

end
