(* ===== verification/Xml.thy ===== *)
theory Xml
  imports Journal
begin

text \<open>
  The text the tools return (\<open>src/plugin/pty/xml.ts\<close>, \<open>formatters.ts\<close>): escaping for XML and the
  formatting of sessions and output lines.
\<close>

section \<open>Definitions\<close>

text \<open>The characters of XML 1.0 among the code units that are not half of a pair.\<close>

definition xml_unit :: "16 word \<Rightarrow> bool" where
  "xml_unit u \<longleftrightarrow> u = 0x9 \<or> u = 0xA \<or> u = 0xD \<or> (0x20 \<le> u \<and> u \<le> 0xD7FF) \<or> (0xE000 \<le> u \<and> u \<le> 0xFFFD)"

abbreviation REPLACEMENT :: "16 word" where "REPLACEMENT \<equiv> 0xFFFD"

text \<open>The loop over the code points; a surrogate pair is one character from U+10000 on.\<close>

fun sanitize :: "js_string \<Rightarrow> js_string" where
  "sanitize [] = []"
| "sanitize [u] = [if xml_unit u then u else REPLACEMENT]"
| "sanitize (u # v # us) =
     (if high_surrogate u \<and> low_surrogate v then u # v # sanitize us
      else (if xml_unit u then u else REPLACEMENT) # sanitize (v # us))"

text \<open>\<open>s.replace(/u/g, r)\<close> for a single character.\<close>

definition replace_all :: "16 word \<Rightarrow> js_string \<Rightarrow> js_string \<Rightarrow> js_string" where
  "replace_all u r s = concat (map (\<lambda>x. if x = u then r else [x]) s)"

definition escapeXml :: "js_string \<Rightarrow> js_string" where
  "escapeXml value =
     replace_all 39 (js ''&apos;'')
       (replace_all 34 (js ''&quot;'')
         (replace_all 62 (js ''&gt;'')
           (replace_all 60 (js ''&lt;'')
             (replace_all 38 (js ''&amp;'') (sanitize value)))))"

text \<open>\<open>parts.join(',')\<close> of numbers.\<close>

definition join_numbers :: "nat list \<Rightarrow> js_string" where
  "join_numbers ns = join_with (js '','') (map decimal ns)"

definition or_none :: "js_string \<Rightarrow> js_string \<Rightarrow> js_string" where
  "or_none s d = (if s = [] then d else s)"

definition signed_decimal :: "int \<Rightarrow> js_string" where
  "signed_decimal n = (if n < 0 then 45 # decimal (nat (- n)) else decimal (nat n))"

fun status_text :: "DaemonStatus \<Rightarrow> js_string" where
  "status_text St_starting = js ''starting''"
| "status_text St_running = js ''running''"
| "status_text St_stopping = js ''stopping''"
| "status_text St_exited = js ''exited''"
| "status_text St_timed_out = js ''timed_out''"
| "status_text St_lost = js ''lost''"
| "status_text St_spawn_failed = js ''spawn_failed''"
| "status_text St_output_limited = js ''output_limited''"

fun containment_text :: "containment_status \<Rightarrow> js_string" where
  "containment_text Posix_best_effort_empty = js ''posix_best_effort_empty''"
| "containment_text Posix_processes_remaining = js ''posix_processes_remaining''"
| "containment_text Posix_escape_observed = js ''posix_escape_observed''"
| "containment_text Posix_containment_unknown = js ''posix_containment_unknown''"
| "containment_text Windows_job_empty = js ''windows_job_empty''"
| "containment_text Windows_job_processes_remaining = js ''windows_job_processes_remaining''"
| "containment_text Windows_job_unknown = js ''windows_job_unknown''"
| "containment_text Containment_not_applicable = js ''not_applicable''"

definition escaped_identities :: "ContainmentReport \<Rightarrow> js_string option" where
  "escaped_identities c = map_option
     (\<lambda>ds. join_with (js '','') (map (\<lambda>(p, identity). decimal p @ js '':'' @ identity) ds))
     (co_observedEscapedDescendants c)"

definition yes_no :: "bool \<Rightarrow> js_string" where
  "yes_no b = (if b then js ''yes'' else js ''no'')"

definition containment_line :: "bool \<Rightarrow> ContainmentReport \<Rightarrow> js_string" where
  "containment_line exited c =
     js ''  Containment: '' @ containment_text (co_status c) @
     js '' | direct child exited: '' @ yes_no exited @
     js '' | root verified: '' @ yes_no (co_rootIdentityVerified c) @
     js '' | group: '' @ or_none (join_numbers (co_observedGroupPids c)) (js ''none'') @
     js '' | session: '' @ or_none (join_numbers (co_observedSessionPids c)) (js ''none'') @
     js '' | escaped: '' @
       or_none (nullish (escaped_identities c) [])
         (or_none (join_numbers (co_observedEscapedDescendantPids c)) (js ''none''))"

text \<open>\<open>session.exitSignal ? ... : ''\<close>: the number 0 and the empty name are falsy.\<close>

fun signal_info :: "exit_signal option \<Rightarrow> js_string" where
  "signal_info None = []"
| "signal_info (Some (Signal_number n)) = (if n = 0 then [] else js '' | signal: '' @ decimal n)"
| "signal_info (Some (Signal_name s)) = (if s = [] then [] else js '' | signal: '' @ s)"

text \<open>
  \<open>PTYSessionInfo\<close> is the session record as the client sees it; \<open>time_text\<close> prints a timestamp
  (the string the record carries).
\<close>

definition formatSessionInfo :: "(timestamp \<Rightarrow> js_string) \<Rightarrow> SessionRecord \<Rightarrow> js_string list" where
  "formatSessionInfo time_text r =
     [js ''['' @ escapeXml (session_id r) @ js ''] '' @ escapeXml (title r),
      js ''  Command: '' @ escapeXml (command r) @ js '' '' @ escapeXml (join_with (js '' '') (args r)),
      js ''  Status: '' @ escapeXml (status_text (status r)) @
        (if timedOut r then js '' | timed out'' else []) @
        (case exitCode r of None \<Rightarrow> [] | Some c \<Rightarrow> js '' | exit: '' @ signed_decimal c) @
        signal_info (exitSignal r),
      js ''  PID: '' @ decimal (pid r) @
        (case timeoutSeconds r of None \<Rightarrow> [] | Some t \<Rightarrow> js '' | timeout: '' @ decimal t @ js ''s''),
      js ''  Lines: '' @ decimal (lineCount r) @
        (if outputTruncated r then js '' (older output truncated)'' else []),
      js ''  Workdir: '' @ escapeXml (workdir r),
      js ''  Created: '' @ escapeXml (time_text (createdAt r))] @
     (case containment r of
        None \<Rightarrow> []
      | Some c \<Rightarrow> [escapeXml (containment_line (truthy (directChildExited r)) c)]) @
     [[]]"

text \<open>\<open>[...line]\<close>: the code points, a surrogate pair being one.\<close>

fun code_points :: "js_string \<Rightarrow> js_string list" where
  "code_points [] = []"
| "code_points [u] = [[u]]"
| "code_points (u # v # us) =
     (if high_surrogate u \<and> low_surrogate v then [u, v] # code_points us
      else [u] # code_points (v # us))"

definition formatLine :: "js_string \<Rightarrow> nat \<Rightarrow> nat \<Rightarrow> nat option \<Rightarrow> js_string" where
  "formatLine line lineNum maxLength sequence =
     (let characters = code_points line;
          truncatedLine = (if length characters > maxLength
            then concat (take maxLength characters) @ js ''...'' else line)
      in padStart 5 48 (decimal lineNum) @
         (case sequence of None \<Rightarrow> [] | Some n \<Rightarrow> js ''@'' @ decimal n) @ js ''| '' @
         escapeXml truncatedLine)"

section \<open>Escaping\<close>

definition entity :: "16 word \<Rightarrow> js_string" where
  "entity u =
     (if u = 38 then js ''&amp;'' else if u = 60 then js ''&lt;'' else if u = 62 then js ''&gt;''
      else if u = 34 then js ''&quot;'' else if u = 39 then js ''&apos;'' else [u])"

lemma replace_all_append [simp]: "replace_all u r (a @ b) = replace_all u r a @ replace_all u r b"
  by (simp add: replace_all_def)

lemma replace_all_simps [simp]:
  "replace_all u r [] = []"
  "replace_all u r (x # xs) = (if x = u then r else [x]) @ replace_all u r xs"
  by (simp_all add: replace_all_def)

lemma escapeXml_single_pass: "escapeXml s = concat (map entity (sanitize s))"
proof -
  have "replace_all 39 (js ''&apos;'') (replace_all 34 (js ''&quot;'') (replace_all 62 (js ''&gt;'')
      (replace_all 60 (js ''&lt;'') (replace_all 38 (js ''&amp;'') t)))) = concat (map entity t)" for t
    by (induction t) (auto simp: entity_def)
  then show ?thesis by (simp add: escapeXml_def)
qed

text \<open>The reader of an XML document: the five entities, anything else as it is.\<close>

fun unescape :: "js_string \<Rightarrow> js_string" where
  "unescape [] = []"
| "unescape (x # xs) =
     (if prefix (js ''&amp;'') (x # xs) then 38 # unescape (drop 4 xs)
      else if prefix (js ''&lt;'') (x # xs) then 60 # unescape (drop 3 xs)
      else if prefix (js ''&gt;'') (x # xs) then 62 # unescape (drop 3 xs)
      else if prefix (js ''&quot;'') (x # xs) then 34 # unescape (drop 5 xs)
      else if prefix (js ''&apos;'') (x # xs) then 39 # unescape (drop 5 xs)
      else x # unescape xs)"

lemma unescape_entity: "unescape (entity u @ s) = u # unescape s"
  by (auto simp: entity_def)

lemma unescape_escape: "unescape (escapeXml s) = sanitize s"
proof -
  have "unescape (concat (map entity t)) = t" for t
    by (induction t) (simp_all add: unescape_entity)
  then show ?thesis by (simp add: escapeXml_single_pass)
qed

lemma entity_safe: "x \<in> set (entity u) \<Longrightarrow> x \<notin> {60, 62, 34, 39}"
  by (auto simp: entity_def split: if_splits)

lemma escapeXml_safe: "x \<in> set (escapeXml s) \<Longrightarrow> x \<notin> {60, 62, 34, 39}"
  using entity_safe by (fastforce simp: escapeXml_single_pass)

fun xml_text :: "js_string \<Rightarrow> bool" where
  "xml_text [] = True"
| "xml_text [u] = xml_unit u"
| "xml_text (u # v # us) =
     (if high_surrogate u \<and> low_surrogate v then xml_text us else xml_unit u \<and> xml_text (v # us))"

lemma sanitize_id: "xml_text s \<Longrightarrow> sanitize s = s"
  by (induction s rule: xml_text.induct) auto

lemma replacement_ok [simp]: "xml_unit REPLACEMENT" "\<not> high_surrogate REPLACEMENT" "\<not> low_surrogate REPLACEMENT"
  by (simp_all add: xml_unit_def high_surrogate_def low_surrogate_def)

lemma xml_unit_no_surrogate: "xml_unit u \<Longrightarrow> \<not> high_surrogate u"
proof
  assume "xml_unit u" and "high_surrogate u"
  then have "unat u \<in> {9, 10, 13} \<or> (32 \<le> unat u \<and> unat u \<le> 55295) \<or> 57344 \<le> unat u"
    and "55296 \<le> unat u \<and> unat u \<le> 56319"
    by (auto simp: xml_unit_def high_surrogate_def word_le_nat_alt)
  then show False by auto
qed

lemma xml_text_Cons_unit: "xml_unit u \<Longrightarrow> xml_text (u # s) = xml_text s"
  using xml_unit_no_surrogate [of u] by (cases s) auto

lemma sanitize_xml: "xml_text (sanitize s)"
  by (induction s rule: sanitize.induct) (simp_all add: xml_text_Cons_unit)

lemma formatLine_safe_text: "concat (code_points s) = s"
  by (induction s rule: code_points.induct) auto

section \<open>Properties\<close>

text \<open>
  Text embedded in a tool result cannot break out of it. The escaped text has none of the
  characters \<open><\<close>, \<open>>\<close>, \<open>"\<close> and \<open>'\<close>; an XML reader gets back exactly the sanitized text, which
  consists of XML characters only and is the original when the original already does.
\<close>

theorem escapeXml_sound:
  "set (escapeXml s) \<inter> {60, 62, 34, 39} = {} \<and> unescape (escapeXml s) = sanitize s \<and>
   xml_text (sanitize s) \<and> (xml_text s \<longrightarrow> unescape (escapeXml s) = s)"
  using escapeXml_safe [of _ s] unescape_escape [of s] sanitize_xml [of s] sanitize_id [of s] by auto

theorem escapeXml_sound_witness:
  "unescape (escapeXml (js ''<a & b>'')) = js ''<a & b>''"
  using escapeXml_sound [of "js ''<a & b>''"] by (simp add: xml_unit_def high_surrogate_def)

end
