(* ===== verification/Permissions.thy ===== *)
theory Permissions
  imports Json
begin

text \<open>
  The local permission policy (\<open>src/plugin/pty/permissions.ts\<close>, \<open>wildcard.ts\<close>): parsing the
  configuration, matching commands against wildcard patterns, combining the rules, and the
  authorizers the spawn and shell tools call before anything runs.
\<close>

section \<open>Wildcards\<close>

text \<open>\<open>lower\<close> is the case mapping of the runtime.\<close>

definition normalize :: "(js_string \<Rightarrow> js_string) \<Rightarrow> platform \<Rightarrow> js_string \<Rightarrow> js_string" where
  "normalize lower pf value =
     (let normalized = map (\<lambda>u. if u = 92 then 47 else u) value
      in if pf = Win32 then lower normalized else normalized)"

text \<open>
  The regular expression the pattern is compiled to: after escaping, a character stands for
  itself, \<open>.*\<close> for \<open>*\<close> and \<open>.\<close> for \<open>?\<close>; with the flag \<open>s\<close> the dot takes any code unit.
\<close>

datatype rx_item = Lit "16 word" | Any | AnyStar

definition compile_pattern :: "js_string \<Rightarrow> rx_item list" where
  "compile_pattern = map (\<lambda>u. if u = 42 then AnyStar else if u = 63 then Any else Lit u)"

fun rx_test :: "rx_item list \<Rightarrow> js_string \<Rightarrow> bool" where
  "rx_test [] s = (s = [])"
| "rx_test (Lit u # p) [] = False"
| "rx_test (Lit u # p) (x # xs) = (x = u \<and> rx_test p xs)"
| "rx_test (Any # p) [] = False"
| "rx_test (Any # p) (x # xs) = rx_test p xs"
| "rx_test (AnyStar # p) [] = rx_test p []"
| "rx_test (AnyStar # p) (x # xs) = (rx_test p (x # xs) \<or> rx_test (AnyStar # p) xs)"

definition wildcard_match ::
  "(js_string \<Rightarrow> js_string) \<Rightarrow> platform \<Rightarrow> js_string \<Rightarrow> js_string \<Rightarrow> bool" where
  "wildcard_match lower pf str pattern =
     (let s = normalize lower pf str; p = normalize lower pf pattern
      in if suffix (js '' *'') p \<and> s = take (length p - 2) p then True
         else rx_test (compile_pattern p) s)"

section \<open>Configuration\<close>

datatype PermissionAction = Allow | Ask | Deny

datatype PermissionRule = Rule_action PermissionAction | Rule_patterns "(js_string \<times> PermissionAction) list"

datatype PermissionConfig = Config_action PermissionAction | Config_rules "(js_string \<times> PermissionRule) list"

record Config =
  cfg_permission :: "PermissionConfig option"
  cfg_agent :: "(js_string \<times> PermissionConfig option) list option"

definition parse_action :: "json \<Rightarrow> PermissionAction option" where
  "parse_action v =
     (if v = JStr (js ''allow'') then Some Allow
      else if v = JStr (js ''ask'') then Some Ask
      else if v = JStr (js ''deny'') then Some Deny
      else None)"

fun all_some :: "('k \<times> 'a option) list \<Rightarrow> ('k \<times> 'a) list option" where
  "all_some [] = Some []"
| "all_some ((k, v) # rest) =
     (case (v, all_some rest) of (Some x, Some xs) \<Rightarrow> Some ((k, x) # xs) | _ \<Rightarrow> None)"

definition parse_rule :: "json \<Rightarrow> PermissionRule option" where
  "parse_rule v =
     (case parse_action v of
        Some a \<Rightarrow> Some (Rule_action a)
      | None \<Rightarrow>
          (case json_record v of
             None \<Rightarrow> None
           | Some m \<Rightarrow> map_option Rule_patterns (all_some (map (\<lambda>(k, x). (k, parse_action x)) m))))"

definition parsePermission :: "json \<Rightarrow> PermissionConfig option" where
  "parsePermission v =
     (case parse_action v of
        Some a \<Rightarrow> Some (Config_action a)
      | None \<Rightarrow>
          (case json_record v of
             None \<Rightarrow> None
           | Some m \<Rightarrow> map_option Config_rules (all_some (map (\<lambda>(k, x). (k, parse_rule x)) m))))"

text \<open>A property that may be \<open>undefined\<close>: absent stays absent, present has to parse.\<close>

definition parse_optional :: "json option \<Rightarrow> PermissionConfig option option" where
  "parse_optional v = (case v of None \<Rightarrow> Some None | Some x \<Rightarrow> map_option Some (parsePermission x))"

definition parse_agent :: "json \<Rightarrow> PermissionConfig option option" where
  "parse_agent v =
     (case json_record v of
        None \<Rightarrow> None
      | Some m \<Rightarrow> parse_optional (map_of m (js ''permission'')))"

definition parseConfig :: "json \<Rightarrow> Config option" where
  "parseConfig v =
     (case json_record v of
        None \<Rightarrow> None
      | Some m \<Rightarrow>
          (case parse_optional (map_of m (js ''permission'')) of
             None \<Rightarrow> None
           | Some permission \<Rightarrow>
               (case map_of m (js ''agent'') of
                  None \<Rightarrow> Some \<lparr> cfg_permission = permission, cfg_agent = None \<rparr>
                | Some a \<Rightarrow>
                    (case json_record a of
                       None \<Rightarrow> None
                     | Some agents \<Rightarrow>
                         map_option (\<lambda>ds. \<lparr> cfg_permission = permission, cfg_agent = Some ds \<rparr>)
                           (all_some (map (\<lambda>(k, x). (k, parse_agent x)) agents))))))"

record permission_rule =
  pr_permission :: js_string
  pr_pattern :: js_string
  pr_action :: PermissionAction

definition rulesFor :: "PermissionConfig \<Rightarrow> permission_rule list" where
  "rulesFor c =
     (case c of
        Config_action a \<Rightarrow> [\<lparr> pr_permission = js ''*'', pr_pattern = js ''*'', pr_action = a \<rparr>]
      | Config_rules rules \<Rightarrow>
          concat (map (\<lambda>(key, rule).
            case rule of
              Rule_action a \<Rightarrow> [\<lparr> pr_permission = key, pr_pattern = js ''*'', pr_action = a \<rparr>]
            | Rule_patterns ps \<Rightarrow>
                map (\<lambda>(pattern, a). \<lparr> pr_permission = key, pr_pattern = pattern, pr_action = a \<rparr>) ps) rules))"

section \<open>Evaluation\<close>

definition rule_matches ::
  "(js_string \<Rightarrow> js_string) \<Rightarrow> platform \<Rightarrow> js_string \<Rightarrow> js_string \<Rightarrow> permission_rule \<Rightarrow> bool" where
  "rule_matches lower pf permission input rule \<longleftrightarrow>
     wildcard_match lower pf permission (pr_permission rule) \<and>
     wildcard_match lower pf input (pr_pattern rule)"

text \<open>The inner loop: \<open>Inl\<close> is the early return of \<open>'deny'\<close>, \<open>Inr\<close> the value of \<open>result\<close>.\<close>

fun evaluate_rules ::
  "(permission_rule \<Rightarrow> bool) \<Rightarrow> PermissionAction option \<Rightarrow> permission_rule list \<Rightarrow>
   (PermissionAction, PermissionAction option) result" where
  "evaluate_rules matches result [] = Inr result"
| "evaluate_rules matches result (rule # rest) =
     (if matches rule
      then (if pr_action rule = Deny then Inl Deny
            else evaluate_rules matches (Some (pr_action rule)) rest)
      else evaluate_rules matches result rest)"

text \<open>\<open>[config.permission, agent ? config.agent?.[agent]?.permission : undefined]\<close>.\<close>

definition rule_sources :: "Config \<Rightarrow> js_string option \<Rightarrow> PermissionConfig list" where
  "rule_sources config agent =
     List.map_filter id
       [cfg_permission config,
        (case truthy_text agent of
           None \<Rightarrow> None
         | Some name \<Rightarrow>
             (case cfg_agent config of
                None \<Rightarrow> None
              | Some agents \<Rightarrow> (case map_of agents name of None \<Rightarrow> None | Some c \<Rightarrow> c)))]"

fun evaluate_sources ::
  "(permission_rule \<Rightarrow> bool) \<Rightarrow> PermissionAction option \<Rightarrow> PermissionConfig list \<Rightarrow> PermissionAction option" where
  "evaluate_sources matches result [] = result"
| "evaluate_sources matches result (rules # rest) =
     (case evaluate_rules matches result (rulesFor rules) of
        Inl a \<Rightarrow> Some a
      | Inr result' \<Rightarrow> evaluate_sources matches result' rest)"

definition evaluate ::
  "(js_string \<Rightarrow> js_string) \<Rightarrow> platform \<Rightarrow> Config \<Rightarrow> js_string option \<Rightarrow> js_string \<Rightarrow> js_string \<Rightarrow>
   PermissionAction option" where
  "evaluate lower pf config agent permission input =
     evaluate_sources (rule_matches lower pf permission input) None (rule_sources config agent)"

section \<open>Authorizing\<close>

text \<open>
  What the authorizers ask of their surroundings: the configuration service, the file system
  and git, and the path functions of the platform.
\<close>

record host =
  h_platform :: platform
  h_lower :: "js_string \<Rightarrow> js_string"
  h_config :: "json option"
  h_realpath :: "js_string \<Rightarrow> js_string option"
  h_toplevel :: "js_string \<Rightarrow> js_string option"
  h_relative :: "js_string \<Rightarrow> js_string \<Rightarrow> js_string"
  h_isAbsolute :: "js_string \<Rightarrow> bool"
  h_dirname :: "js_string \<Rightarrow> js_string"
  h_sep :: js_string

definition permissionConfig :: "host \<Rightarrow> (string, Config) result" where
  "permissionConfig h =
     (case h_config h of
        None \<Rightarrow> Inl ''PTY spawn denied: permission configuration is unavailable.''
      | Some v \<Rightarrow>
          (case parseConfig v of
             None \<Rightarrow> Inl ''PTY spawn denied: permission configuration is unavailable.''
           | Some c \<Rightarrow> Inr c))"

text \<open>\<open>git rev-parse --show-toplevel\<close>, trimmed and resolved; any failure gives the directory.\<close>

definition worktreeBoundary :: "host \<Rightarrow> js_string \<Rightarrow> js_string" where
  "worktreeBoundary h directory =
     (case h_toplevel h directory of
        None \<Rightarrow> directory
      | Some out \<Rightarrow> nullish (h_realpath h out) directory)"

record workdir_decision =
  wd_workdir :: js_string
  wd_outside :: bool
  wd_action :: "PermissionAction option"
  wd_pattern :: js_string

definition path_outside :: "host \<Rightarrow> js_string \<Rightarrow> bool" where
  "path_outside h p \<longleftrightarrow> p = js ''..'' \<or> prefix (js ''..'' @ h_sep h) p \<or> h_isAbsolute h p"

definition workdirAuthorization ::
  "host \<Rightarrow> Config \<Rightarrow> js_string \<Rightarrow> js_string option \<Rightarrow> js_string option \<Rightarrow> (string, workdir_decision) result" where
  "workdirAuthorization h permissions directory wdir agent =
     (if directory = []
      then Inl ''PTY command denied: the plugin host did not provide a project directory.''
      else case (h_realpath h (nullish wdir directory), h_realpath h directory) of
        (Some resolvedWorkdir, Some resolvedProject) \<Rightarrow>
          (let boundary = worktreeBoundary h resolvedProject;
               outside = path_outside h (h_relative h boundary resolvedWorkdir)
           in Inr \<lparr> wd_workdir = resolvedWorkdir, wd_outside = outside,
                wd_action = (if outside
                  then evaluate (h_lower h) (h_platform h) permissions agent
                         (js ''external_directory'') resolvedWorkdir
                  else None),
                wd_pattern = map (\<lambda>u. if u = 92 then 47 else u) (h_dirname h resolvedWorkdir) @ js ''/*'' \<rparr>)
      | _ \<Rightarrow> Inl ''PTY command denied: unable to verify the working directory.'')"

text \<open>
  The prompt of the host: \<open>None\<close> when the host has none, otherwise whether it grants the
  permission for the pattern. A prompt that is not granted throws.
\<close>

type_synonym asker = "(js_string \<Rightarrow> js_string \<Rightarrow> bool) option"

definition requestApproval :: "asker \<Rightarrow> js_string \<Rightarrow> js_string \<Rightarrow> (string, unit) result" where
  "requestApproval ask permission pattern =
     (case ask of
        None \<Rightarrow> Inl ''PTY command denied: native permission approval is unavailable in this host.''
      | Some grant \<Rightarrow> if grant permission pattern then Inr () else Inl ''rejected'')"

definition authorizeSpawn ::
  "host \<Rightarrow> js_string \<Rightarrow> js_string \<Rightarrow> js_string list \<Rightarrow> js_string option \<Rightarrow> js_string option \<Rightarrow> asker \<Rightarrow>
   (js_string \<times> js_string) list option \<Rightarrow> bool option \<Rightarrow> (string, js_string) result" where
  "authorizeSpawn h directory cmd argv wdir agent ask env inheritEnv =
     and_then (permissionConfig h) (\<lambda>permissions.
       let pattern = join_with (js '' '') (cmd # argv);
           action = evaluate (h_lower h) (h_platform h) permissions agent (js ''bash'') pattern
       in and_then (workdirAuthorization h permissions directory wdir agent) (\<lambda>resolved.
            and_then (throw_if (action = Some Deny \<or> wd_action resolved = Some Deny)
              ''PTY command denied by local permission policy.'') (\<lambda>_.
            and_then (throw_if (action \<noteq> Some Allow \<and> (inheritEnv = Some True \<or> nullish env [] \<noteq> []))
              ''PTY command denied: custom or inherited environment requires an explicit local bash allow rule.'') (\<lambda>_.
            and_then (if action \<noteq> Some Allow then requestApproval ask (js ''bash'') pattern else Inr ()) (\<lambda>_.
            and_then (if wd_outside resolved \<and> wd_action resolved \<noteq> Some Allow
              then requestApproval ask (js ''external_directory'') (wd_pattern resolved) else Inr ()) (\<lambda>_.
            Inr (wd_workdir resolved)))))))"

record bash_policy =
  bp_action :: PermissionAction
  bp_workdir :: js_string
  bp_externalAction :: "PermissionAction option"
  bp_externalPattern :: "js_string option"

definition authorizeBash ::
  "host \<Rightarrow> js_string \<Rightarrow> js_string \<Rightarrow> js_string option \<Rightarrow> js_string option \<Rightarrow> (string, bash_policy) result" where
  "authorizeBash h directory cmd wdir agent =
     and_then (permissionConfig h) (\<lambda>permissions.
       let action = evaluate (h_lower h) (h_platform h) permissions agent (js ''bash'') cmd
       in and_then (workdirAuthorization h permissions directory wdir agent) (\<lambda>resolved.
            and_then (throw_if (action = Some Deny \<or> wd_action resolved = Some Deny)
              ''Bash command denied by local permission policy.'') (\<lambda>_.
            Inr \<lparr> bp_action = (if action = Some Allow then Allow else Ask),
                  bp_workdir = wd_workdir resolved,
                  bp_externalAction = (if wd_outside resolved then wd_action resolved else None),
                  bp_externalPattern = (if wd_outside resolved then Some (wd_pattern resolved) else None) \<rparr>)))"

section \<open>What a pattern means\<close>

fun item_matches :: "rx_item \<Rightarrow> js_string \<Rightarrow> bool" where
  "item_matches (Lit u) s = (s = [u])"
| "item_matches Any s = (length s = 1)"
| "item_matches AnyStar s = True"

lemma list_all2_Cons_ex:
  "(\<exists>segs. list_all2 P (x # xs) segs \<and> concat segs = s) \<longleftrightarrow>
   (\<exists>a b. P x a \<and> s = a @ b \<and> (\<exists>segs. list_all2 P xs segs \<and> concat segs = b))"
proof
  assume "\<exists>a b. P x a \<and> s = a @ b \<and> (\<exists>segs. list_all2 P xs segs \<and> concat segs = b)"
  then obtain a segs where "P x a" "s = a @ concat segs" "list_all2 P xs segs" by blast
  then show "\<exists>segs. list_all2 P (x # xs) segs \<and> concat segs = s"
    by (intro exI [of _ "a # segs"]) simp
next
  assume "\<exists>segs. list_all2 P (x # xs) segs \<and> concat segs = s"
  then obtain z zs where "P x z" "list_all2 P xs zs" "s = z @ concat zs"
    by (auto simp: list_all2_Cons1)
  then show "\<exists>a b. P x a \<and> s = a @ b \<and> (\<exists>segs. list_all2 P xs segs \<and> concat segs = b)" by blast
qed

lemma rx_test_spec: "rx_test p s \<longleftrightarrow> (\<exists>segs. list_all2 item_matches p segs \<and> concat segs = s)"
proof (induction p s rule: rx_test.induct)
  case (6 p)
  then show ?case by (simp add: list_all2_Cons_ex del: concat_eq_Nil_conv)
next
  case (7 p x xs)
  have "(\<exists>a b. x # xs = a @ b \<and> Q b) \<longleftrightarrow> Q (x # xs) \<or> (\<exists>a b. xs = a @ b \<and> Q b)" for Q
  proof
    assume "\<exists>a b. x # xs = a @ b \<and> Q b"
    then obtain a b where ab: "x # xs = a @ b" "Q b" by blast
    then show "Q (x # xs) \<or> (\<exists>a b. xs = a @ b \<and> Q b)" by (cases a) auto
  next
    assume "Q (x # xs) \<or> (\<exists>a b. xs = a @ b \<and> Q b)"
    then show "\<exists>a b. x # xs = a @ b \<and> Q b"
      by (metis append.left_neutral append_Cons)
  qed
  note split = this
  show ?case
    using 7 split [of "\<lambda>b. \<exists>segs. list_all2 item_matches p segs \<and> concat segs = b"]
    by (simp add: list_all2_Cons_ex)
next
  case (3 u p x xs)
  then show ?case by (auto simp: list_all2_Cons_ex)
next
  case (5 p x xs)
  have "(\<exists>a b. length a = 1 \<and> x # xs = a @ b \<and> Q b) \<longleftrightarrow> Q xs" for Q
    by (auto simp: length_Suc_conv)
  with 5 show ?case by (simp add: list_all2_Cons_ex)
qed (auto simp: list_all2_Cons_ex simp del: concat_eq_Nil_conv)

section \<open>What a configuration decides\<close>

definition last_action :: "PermissionAction option \<Rightarrow> permission_rule list \<Rightarrow> PermissionAction option" where
  "last_action d rules = (if rules = [] then d else Some (pr_action (last rules)))"

definition denies :: "permission_rule list \<Rightarrow> bool" where
  "denies rules \<longleftrightarrow> (\<exists>r\<in>set rules. pr_action r = Deny)"

lemma evaluate_rules_spec:
  "evaluate_rules m d rules =
     (if denies (filter m rules) then Inl Deny else Inr (last_action d (filter m rules)))"
  by (induction rules arbitrary: d) (auto simp: denies_def last_action_def)

lemma last_action_append: "last_action (last_action d as) bs = last_action d (as @ bs)"
  by (simp add: last_action_def)

lemma denies_append: "denies (as @ bs) \<longleftrightarrow> denies as \<or> denies bs"
  by (auto simp: denies_def)

lemma evaluate_sources_spec:
  "evaluate_sources m d srcs =
     (let hits = filter m (concat (map rulesFor srcs))
      in if denies hits then Some Deny else last_action d hits)"
proof (induction srcs arbitrary: d)
  case Nil
  then show ?case by (simp add: denies_def last_action_def)
next
  case (Cons c srcs)
  then show ?case
    by (simp add: evaluate_rules_spec denies_append last_action_append Let_def)
qed

lemma rule_sources_global: "cfg_permission c = Some g \<Longrightarrow> g \<in> set (rule_sources c agent)"
  by (auto simp: rule_sources_def map_filter_simps)

section \<open>Properties\<close>

text \<open>
  A permission pattern is a wildcard and nothing else. Outside the special case of an
  omitted argument tail, a text matches a pattern exactly when it can be cut into pieces, one
  for each pattern character, where a \<open>*\<close> takes any piece, a \<open>?\<close> one code unit and every other
  character itself; no character of a pattern has a meaning as a regular expression.
\<close>

theorem wildcard_match_spec:
  "wildcard_match lower pf str pattern \<longleftrightarrow>
     (\<exists>stem. normalize lower pf pattern = stem @ js '' *'' \<and> normalize lower pf str = stem) \<or>
     (\<exists>segs. list_all2 item_matches (compile_pattern (normalize lower pf pattern)) segs \<and>
        concat segs = normalize lower pf str)"
  by (auto simp: wildcard_match_def Let_def rx_test_spec suffix_def)

text \<open>
  How rules combine. Of the rules that match, in the order global then agent, any denial is
  final; without one the last match decides, and without a match nothing does.
\<close>

theorem evaluate_spec:
  "evaluate lower pf config agent permission input =
     (let hits = filter (rule_matches lower pf permission input)
            (concat (map rulesFor (rule_sources config agent)))
      in if \<exists>r\<in>set hits. pr_action r = Deny then Some Deny
         else if hits = [] then None else Some (pr_action (last hits)))"
  unfolding evaluate_def evaluate_sources_spec denies_def last_action_def Let_def by (rule refl)

text \<open>
  An agent cannot relax a global denial. If a rule of the global configuration denies the
  input, the result is a denial for every agent, whatever the agent's own rules say.
\<close>

theorem global_deny_final:
  assumes "cfg_permission config = Some global" and "r \<in> set (rulesFor global)"
    and "rule_matches lower pf permission input r" and "pr_action r = Deny"
  shows "evaluate lower pf config agent permission input = Some Deny"
proof -
  have "denies (filter (rule_matches lower pf permission input) (concat (map rulesFor (rule_sources config agent))))"
    using assms rule_sources_global [OF assms(1), of agent] by (auto simp: denies_def)
  then show ?thesis by (simp add: evaluate_def evaluate_sources_spec Let_def)
qed

text \<open>
  C28: nothing runs without permission. When the spawn authorizer returns, neither the command
  nor an outside working directory is denied; the command is allowed by the configuration or
  was approved at a prompt, a custom or inherited environment only with an explicit
  allow; and a working directory outside the project is allowed or was approved.
\<close>

theorem authorizeSpawn_safe:
  assumes "authorizeSpawn h directory cmd argv wdir agent ask env inherit = Inr dir"
  shows "\<exists>permissions resolved. permissionConfig h = Inr permissions \<and>
    workdirAuthorization h permissions directory wdir agent = Inr resolved \<and> dir = wd_workdir resolved \<and>
    (let decision = evaluate (h_lower h) (h_platform h) permissions agent (js ''bash'')
           (join_with (js '' '') (cmd # argv))
     in decision \<noteq> Some Deny \<and>
        (decision = Some Allow \<or>
          (inherit \<noteq> Some True \<and> nullish env [] = [] \<and>
           (\<exists>grant. ask = Some grant \<and> grant (js ''bash'') (join_with (js '' '') (cmd # argv)))))) \<and>
    (wd_outside resolved \<longrightarrow>
      wd_action resolved = Some Allow \<or>
      (wd_action resolved \<noteq> Some Deny \<and>
       (\<exists>grant. ask = Some grant \<and> grant (js ''external_directory'') (wd_pattern resolved))))"
  using assms
  by (auto simp: authorizeSpawn_def and_then_Inr_iff Let_def requestApproval_def
      split: if_splits option.splits)

text \<open>
  The shell tool's policy never says \<open>allow\<close> for a command the configuration does not allow,
  never answers for a denied command or directory, and always reports the decision for a
  directory outside the project.
\<close>

theorem authorizeBash_safe:
  assumes "authorizeBash h directory cmd wdir agent = Inr policy"
  shows "\<exists>permissions resolved. permissionConfig h = Inr permissions \<and>
    workdirAuthorization h permissions directory wdir agent = Inr resolved \<and>
    bp_workdir policy = wd_workdir resolved \<and>
    bp_action policy \<noteq> Deny \<and>
    (bp_action policy = Allow \<longleftrightarrow>
      evaluate (h_lower h) (h_platform h) permissions agent (js ''bash'') cmd = Some Allow) \<and>
    evaluate (h_lower h) (h_platform h) permissions agent (js ''bash'') cmd \<noteq> Some Deny \<and>
    wd_action resolved \<noteq> Some Deny \<and>
    (wd_outside resolved \<longleftrightarrow> bp_externalPattern policy \<noteq> None) \<and>
    (wd_outside resolved \<longrightarrow> bp_externalAction policy = wd_action resolved)"
  using assms
  by (auto simp: authorizeBash_def and_then_Inr_iff Let_def split: if_splits)

subsection \<open>Instances\<close>

definition sample_host :: host where
  "sample_host =
     \<lparr> h_platform = Linux, h_lower = id,
       h_config = Some (JObj [(js ''permission'', JObj [(js ''bash'', JObj [(js ''make *'', JStr (js ''allow'')),
         (js ''rm *'', JStr (js ''deny''))])])]),
       h_realpath = Some, h_toplevel = (\<lambda>_. None), h_relative = (\<lambda>a b. if a = b then [] else js ''../x''),
       h_isAbsolute = (\<lambda>p. prefix (js ''/'') p), h_dirname = id, h_sep = js ''/'' \<rparr>"

theorem global_deny_final_witness:
  "evaluate id Linux \<lparr> cfg_permission = Some (Config_action Deny), cfg_agent = None \<rparr> None (js ''bash'') (js ''ls'') =
     Some Deny"
  by (rule global_deny_final [where r = "\<lparr> pr_permission = js ''*'', pr_pattern = js ''*'', pr_action = Deny \<rparr>"
        and global = "Config_action Deny"])
     (simp_all add: rulesFor_def rule_matches_def wildcard_match_def normalize_def compile_pattern_def
        Let_def)

lemma sample_spawn: "authorizeSpawn sample_host (js ''/w'') (js ''make'') [js ''all''] None None None None None = Inr (js ''/w'')"
  by (simp add: authorizeSpawn_def sample_host_def permissionConfig_def parseConfig_def parse_optional_def
      parsePermission_def parse_action_def parse_rule_def evaluate_def rule_sources_def rulesFor_def
      rule_matches_def wildcard_match_def normalize_def compile_pattern_def map_filter_simps truthy_text_def
      workdirAuthorization_def worktreeBoundary_def path_outside_def suffix_def requestApproval_def Let_def)

theorem authorizeSpawn_safe_witness:
  "\<exists>permissions. permissionConfig sample_host = Inr permissions \<and>
     evaluate id Linux permissions None (js ''bash'') (js ''make all'') \<noteq> Some Deny"
proof -
  have "h_lower sample_host = id" "h_platform sample_host = Linux" by (simp_all add: sample_host_def)
  moreover have "join_with (js '' '') [js ''make'', js ''all''] = js ''make all''" by simp
  ultimately show ?thesis
    using authorizeSpawn_safe [OF sample_spawn] unfolding Let_def by metis
qed

theorem authorizeBash_safe_witness:
  "\<exists>policy. authorizeBash sample_host (js ''/w'') (js ''make all'') None None = Inr policy \<and> bp_action policy \<noteq> Deny"
proof -
  obtain policy where p: "authorizeBash sample_host (js ''/w'') (js ''make all'') None None = Inr policy"
    by (simp add: authorizeBash_def sample_host_def permissionConfig_def parseConfig_def parse_optional_def
      parsePermission_def parse_action_def parse_rule_def evaluate_def rule_sources_def rulesFor_def
      rule_matches_def wildcard_match_def normalize_def compile_pattern_def map_filter_simps truthy_text_def
      workdirAuthorization_def worktreeBoundary_def path_outside_def suffix_def Let_def)
  from authorizeBash_safe [OF p] p show ?thesis by blast
qed

end
