(* ===== verification/Tools.thy ===== *)
theory Tools
  imports Daemon_Client Supervisor_Sessions Xml Permissions Journal_Reader
begin

text \<open>
  The tools the plugin offers to the model (plugin/pty/tools/*.ts, shared/constants.ts), the shell apart:
  each is one definition that takes the arguments of the tool and the answers of the daemon and gives the
  text of the tool or its error, with the calls it makes in their order. The theorems are about the input
  escapes and about the markup of the texts.
\<close>

section \<open>What a tool does\<close>

text \<open>
  A tool ends with a text or with an error, after a sequence of calls to the daemon and prompts of the
  host. The answers of the daemon are arguments; an answer is an error or a value.
\<close>

datatype tool_event = Daemon client_method | Prompt js_string js_string

type_synonym tool_result = "(js_string, js_string) result \<times> tool_event list"
type_synonym 'a answer = "(js_string, 'a) result"

definition session_missing :: "js_string \<Rightarrow> js_string" where
  "session_missing i = js ''PTY session '' @ quoted i @ js '' not found. Use pty_list to see active sessions.''"

definition bool_text :: "bool \<Rightarrow> js_string" where
  "bool_text b = (if b then js ''true'' else js ''false'')"

definition exit_code_text :: "int option \<Rightarrow> js_string" where
  "exit_code_text c = (case c of None \<Rightarrow> js ''unknown'' | Some n \<Rightarrow> signed_decimal n)"

text \<open>\<open>name="value"\<close> with a blank before it; the value is not escaped here.\<close>

definition attribute :: "string \<Rightarrow> js_string \<Rightarrow> js_string" where
  "attribute name v = js '' '' @ js name @ [61, 34] @ v @ [34]"

definition join_lines :: "js_string list \<Rightarrow> js_string" where
  "join_lines ls = join_with [LF] ls"

section \<open>pty_write\<close>

definition PREVIEW_MAX_CHARS :: nat where "PREVIEW_MAX_CHARS = 50"

definition writePreview :: "js_string \<Rightarrow> js_string" where
  "writePreview decoded =
     (let substituted = replace_all 13 (js [CHR 0x5C, CHR ''r'']) (replace_all 10 (js [CHR 0x5C, CHR ''n''])
            (replace_all 3 (js ''^C'') decoded)) in
      if length substituted > PREVIEW_MAX_CHARS then take PREVIEW_MAX_CHARS substituted @ js ''...'' else substituted)"

definition hex_value :: "16 word \<Rightarrow> nat option" where
  "hex_value u =
     (if 48 \<le> u \<and> u \<le> 57 then Some (unat u - 48)
      else if 65 \<le> u \<and> u \<le> 70 then Some (unat u - 55)
      else if 97 \<le> u \<and> u \<le> 102 then Some (unat u - 87)
      else None)"

fun hex_number :: "nat \<Rightarrow> js_string \<Rightarrow> nat option" where
  "hex_number acc [] = Some acc"
| "hex_number acc (u # us) = (case hex_value u of None \<Rightarrow> None | Some d \<Rightarrow> hex_number (acc * 16 + d) us)"

text \<open>
  The alternatives of the expression behind a backslash, in their order: the unit the sequence stands
  for and how many units it takes.
\<close>

definition escape_at :: "js_string \<Rightarrow> (16 word \<times> nat) option" where
  "escape_at us =
     (case us of
        [] \<Rightarrow> None
      | u # rest \<Rightarrow>
          if u = 120 \<and> 2 \<le> length rest \<and> hex_number 0 (take 2 rest) \<noteq> None
          then Some (of_nat (the (hex_number 0 (take 2 rest))), 3)
          else if u = 117 \<and> 4 \<le> length rest \<and> hex_number 0 (take 4 rest) \<noteq> None
          then Some (of_nat (the (hex_number 0 (take 4 rest))), 5)
          else if u = 110 then Some (10, 1) else if u = 114 then Some (13, 1)
          else if u = 116 then Some (9, 1) else if u = 92 then Some (92, 1)
          else None)"

text \<open>The global replacement; \<open>skip\<close> counts the units of a sequence that was just replaced.\<close>

fun replace_escapes :: "nat \<Rightarrow> js_string \<Rightarrow> js_string" where
  "replace_escapes skip [] = []"
| "replace_escapes (Suc n) (u # us) = replace_escapes n us"
| "replace_escapes 0 (u # us) =
     (if u = 92 then (case escape_at us of None \<Rightarrow> u # replace_escapes 0 us | Some (v, n) \<Rightarrow> v # replace_escapes n us)
      else u # replace_escapes 0 us)"

definition parseEscapeSequences :: "js_string \<Rightarrow> js_string" where
  "parseEscapeSequences s = replace_escapes 0 s"

definition ptyWrite :: "js_string \<Rightarrow> js_string \<Rightarrow> PTYSessionInfo option answer \<Rightarrow> WriteResult answer \<Rightarrow> tool_result" where
  "ptyWrite i d session written =
     (case session of
        Inl e \<Rightarrow> (Inl e, [Daemon (Do_get i)])
      | Inr None \<Rightarrow> (Inl (session_missing i), [Daemon (Do_get i)])
      | Inr (Some s) \<Rightarrow>
          if pi_status s \<noteq> St_running
          then (Inl (js ''Cannot write to PTY '' @ quoted i @ js '' - session status is '' @ quoted (status_text (pi_status s)) @ js ''.''),
                [Daemon (Do_get i)])
          else let parsed = parseEscapeSequences d; calls = [Daemon (Do_get i), Daemon (Do_write i parsed)] in
            case written of
              Inl e \<Rightarrow> (Inl e, calls)
            | Inr r \<Rightarrow>
                (Inr (js ''Accepted '' @ decimal (wr_acceptedBytes r) @ js '' UTF-8 bytes ('' @ decimal (wr_acceptedCharacters r) @
                      js '' characters) for '' @ escapeXml i @ js '': '' @ [34] @ escapeXml (writePreview parsed) @ [34]), calls))"

section \<open>pty_wait and pty_send_wait\<close>

definition wait_condition :: "js_string option \<Rightarrow> js_string option \<Rightarrow> bool option \<Rightarrow> WaitCondition answer" where
  "wait_condition literal regex exits =
     (if truthy exits then
        (if truthy_text literal \<noteq> None \<or> truthy_text regex \<noteq> None
         then Inl (js ''exit cannot be combined with literal or regex.'') else Inr Wait_exit)
      else if (truthy_text literal \<noteq> None) = (truthy_text regex \<noteq> None)
      then Inl (js ''Provide exactly one of literal, regex, or exit=true.'')
      else Inr (Wait_output literal regex None))"

fun wait_reason_text :: "wait_reason \<Rightarrow> js_string" where
  "wait_reason_text By_output = js ''output''"
| "wait_reason_text By_exit = js ''exit''"
| "wait_reason_text By_deadline = js ''deadline''"

definition wait_confirmed :: "WaitResult \<Rightarrow> bool" where
  "wait_confirmed r =
     ((case wr_termination r of None \<Rightarrow> False | Some t \<Rightarrow> tr_rootExited t) \<and>
      (case wr_containment r of None \<Rightarrow> False | Some c \<Rightarrow> co_status c = Posix_best_effort_empty))"

definition pids_text :: "(ContainmentReport \<Rightarrow> nat list) \<Rightarrow> ContainmentReport option \<Rightarrow> js_string" where
  "pids_text f c = (case c of None \<Rightarrow> [] | Some r \<Rightarrow> join_numbers (f r))"

definition wait_format :: "WaitResult \<Rightarrow> js_string" where
  "wait_format r =
     (let c = wr_containment r in
      js ''<pty_wait'' @ attribute ''satisfied'' (bool_text (wr_satisfied r)) @
      attribute ''reason'' (escapeXml (wait_reason_text (wr_reason r))) @
      attribute ''matched'' (escapeXml (nullish (wr_matched r) [])) @
      attribute ''exit_code'' (escapeXml (exit_code_text (wr_exitCode r))) @
      attribute ''output_truncated'' (bool_text (wr_outputTruncated r)) @
      attribute ''termination_confirmed'' (bool_text (wait_confirmed r)) @
      attribute ''containment'' (escapeXml (case c of None \<Rightarrow> js ''unavailable'' | Some x \<Rightarrow> containment_text (co_status x))) @
      attribute ''group_pids'' (pids_text co_observedGroupPids c) @
      attribute ''session_pids'' (pids_text co_observedSessionPids c) @
      attribute ''escaped_pids'' (pids_text co_observedEscapedDescendantPids c) @ js ''/>'')"

definition ptyWait ::
  "js_string \<Rightarrow> js_string option \<Rightarrow> js_string option \<Rightarrow> bool option \<Rightarrow> nat \<Rightarrow> WaitResult answer \<Rightarrow> tool_result" where
  "ptyWait i literal regex exits t waited =
     (case wait_condition literal regex exits of
        Inl e \<Rightarrow> (Inl e, [])
      | Inr c \<Rightarrow> (and_then waited (\<lambda>r. Inr (wait_format r)), [Daemon (Do_wait i c t)]))"

definition ptySendWait ::
  "js_string \<Rightarrow> js_string \<Rightarrow> js_string option \<Rightarrow> js_string option \<Rightarrow> bool option \<Rightarrow> nat \<Rightarrow> WaitResult answer \<Rightarrow> tool_result" where
  "ptySendWait i d literal regex exits t waited =
     (case wait_condition literal regex exits of
        Inl e \<Rightarrow> (Inl e, [])
      | Inr c \<Rightarrow> (and_then waited (\<lambda>r. Inr (wait_format r)), [Daemon (Do_sendWait i (parseEscapeSequences d) c t)]))"

section \<open>pty_kill, pty_resize and pty_list\<close>

definition kill_text :: "js_string \<Rightarrow> bool \<Rightarrow> bool \<Rightarrow> StopResult \<Rightarrow> PTYSessionInfo \<Rightarrow> js_string" where
  "kill_text i wanted cleaned sp s =
     (let action = (if sp_terminationConfirmed sp then js ''Termination confirmed''
                    else if sp_requested sp then js ''Termination requested''
                    else js ''No stop request possible (session is lost or termination is unconfirmed)'');
          note1 = (if cleaned then js '' (exited session removed)''
                   else if wanted then js '' (record retained until termination is confirmed, unless it is explicitly lost)''
                   else js '' (session retained for log access)'');
          pids = (\<lambda>f c. or_none (join_numbers (f c)) (js ''none''))
      in join_lines
        [js ''<pty_stop>'',
         action @ js '': '' @ escapeXml i @ note1,
         js ''Termination confirmed: '' @ yes_no (sp_terminationConfirmed sp),
         js ''Direct child exited: '' @ yes_no (truthy (sp_directChildExited sp)),
         (case sp_containment sp of
            None \<Rightarrow> []
          | Some c \<Rightarrow> js ''Containment: '' @ escapeXml (containment_text (co_status c)) @
              js ''; group='' @ pids co_observedGroupPids c @ js ''; session='' @ pids co_observedSessionPids c @
              js ''; escaped='' @ pids co_observedEscapedDescendantPids c),
         js ''Title: '' @ escapeXml (pi_title s),
         js ''Command: '' @ escapeXml (pi_command s) @ js '' '' @ escapeXml (join_with (js '' '') (pi_args s)),
         js ''Line count before stop request: '' @ decimal (pi_lineCount s),
         js ''</pty_stop>''])"

definition ptyKill ::
  "js_string \<Rightarrow> bool option \<Rightarrow> PTYSessionInfo option answer \<Rightarrow> StopResult answer \<Rightarrow> bool answer \<Rightarrow> tool_result" where
  "ptyKill i cleanup_arg session stopped cleaned =
     (case session of
        Inl e \<Rightarrow> (Inl e, [Daemon (Do_get i)])
      | Inr None \<Rightarrow> (Inl (session_missing i), [Daemon (Do_get i)])
      | Inr (Some s) \<Rightarrow>
          (let wanted = nullish cleanup_arg False; calls = [Daemon (Do_get i), Daemon (Do_stop i)] in
           case stopped of
             Inl e \<Rightarrow> (Inl e, calls)
           | Inr sp \<Rightarrow>
               if wanted \<and> (sp_terminationConfirmed sp \<or> pi_status s = St_lost)
               then (and_then cleaned (\<lambda>c. Inr (kill_text i wanted c sp s)), calls @ [Daemon (Do_cleanup i)])
               else (Inr (kill_text i wanted False sp s), calls)))"

definition ptyResize :: "js_string \<Rightarrow> nat \<Rightarrow> nat \<Rightarrow> (nat \<times> nat) answer \<Rightarrow> tool_result" where
  "ptyResize i cols rows resized =
     (and_then resized (\<lambda>(c, r). Inr (js ''Resized '' @ i @ js '' to '' @ decimal c @ js ''x'' @ decimal r @ js ''.'')),
      [Daemon (Do_resize i cols rows)])"

text \<open>The list prints sessions with \<open>formatSessionInfo\<close>, as records.\<close>

definition ptyList :: "(timestamp \<Rightarrow> js_string) \<Rightarrow> SessionRecord list answer \<Rightarrow> tool_result" where
  "ptyList time_text sessions =
     (and_then sessions (\<lambda>ss.
        if ss = [] then Inr (join_lines [js ''<pty_list>'', js ''No PTY session records.'', js ''</pty_list>''])
        else Inr (join_lines ([js ''<pty_list>''] @ concat (map (formatSessionInfo time_text) ss) @
               [js ''Total retained records: '' @ decimal (length ss), js ''</pty_list>'']))),
      [Daemon Do_list])"

section \<open>pty_read\<close>

definition DEFAULT_READ_LIMIT :: nat where "DEFAULT_READ_LIMIT = 500"
definition MAX_LINE_LENGTH :: nat where "MAX_LINE_LENGTH = 2000"

definition buildTimeoutReminder :: "PTYSessionInfo \<Rightarrow> js_string" where
  "buildTimeoutReminder s =
     join_lines
       [js ''<system_reminder>'',
        js ''This session reached `timeoutSeconds='' @ (case pi_timeoutSeconds s of None \<Rightarrow> js ''unknown'' | Some t \<Rightarrow> decimal t) @
          js ''`. '' @ (if pi_terminationConfirmed s then js ''Termination was confirmed.''
                        else js ''Termination was requested but is not confirmed.''),
        js ''Use `pty_read` to inspect the final output or `pty_list` to review other sessions.'',
        js ''</system_reminder>'']"

definition containmentAttributes :: "PTYSessionInfo \<Rightarrow> js_string" where
  "containmentAttributes s =
     (case pi_containment s of
        None \<Rightarrow> []
      | Some c \<Rightarrow>
          attribute ''containment'' (escapeXml (containment_text (co_status c))) @
          attribute ''termination_confirmed'' (bool_text (pi_terminationConfirmed s)) @
          attribute ''group_pids'' (join_numbers (co_observedGroupPids c)) @
          attribute ''session_pids'' (join_numbers (co_observedSessionPids c)) @
          attribute ''escaped_pids'' (join_numbers (co_observedEscapedDescendantPids c)) @
          attribute ''escaped_identities'' (escapeXml (nullish (escaped_identities c) [])))"

text \<open>The opening tag; the pattern attribute is left out when there is no pattern or it is empty.\<close>

definition output_tag ::
  "js_string \<Rightarrow> DaemonStatus \<Rightarrow> nat \<Rightarrow> nat \<Rightarrow> bool \<Rightarrow> js_string option \<Rightarrow> PTYSessionInfo \<Rightarrow> js_string" where
  "output_tag i st sequence retained trunc pat s =
     js ''<pty_output'' @ attribute ''id'' (escapeXml i) @ attribute ''status'' (escapeXml (status_text st)) @
     attribute ''output_sequence'' (decimal sequence) @ attribute ''retained_from'' (decimal retained) @
     attribute ''truncated'' (bool_text trunc) @
     (case truthy_text pat of None \<Rightarrow> [] | Some p \<Rightarrow> attribute ''pattern'' (escapeXml p)) @ containmentAttributes s @ js ''>''"

definition formatPtyOutput ::
  "js_string \<Rightarrow> DaemonStatus \<Rightarrow> js_string option \<Rightarrow> PTYSessionInfo \<Rightarrow> js_string list \<Rightarrow> bool \<Rightarrow> js_string \<Rightarrow> js_string \<Rightarrow> js_string" where
  "formatPtyOutput i st pat s formatted hasMore paginationMessage endMessage =
     join_lines ([output_tag i st (pi_outputSequence s) (pi_firstRetainedSequence s) (pi_outputTruncated s) pat s] @ formatted @
       [[], if hasMore then paginationMessage else endMessage, js ''</pty_output>''])"

definition appendSessionReminders :: "js_string \<Rightarrow> PTYSessionInfo \<Rightarrow> js_string" where
  "appendSessionReminders text s = (if pi_timedOut s then text @ [LF, LF] @ buildTimeoutReminder s else text)"

definition handlePatternRead ::
  "js_string \<Rightarrow> js_string \<Rightarrow> PTYSessionInfo \<Rightarrow> nat \<Rightarrow> SearchResult option answer \<Rightarrow> js_string answer" where
  "handlePatternRead i pat s offset found =
     and_then found (\<lambda>f.
       case f of
         None \<Rightarrow> Inl (session_missing i)
       | Some r \<Rightarrow>
           if sr_matches r = [] then
             Inr (appendSessionReminders (join_lines
               [output_tag i (pi_status s) (sr_nextSequence r) (sr_firstRetainedSequence r) (sr_truncated r) (Some pat) s,
                js ''No lines matched the pattern '' @ quoted (escapeXml pat) @ js ''.'',
                js ''Total lines in buffer: '' @ decimal (sr_totalLines r), js ''</pty_output>'']) s)
           else
             let n = length (sr_matches r) in
             Inr (appendSessionReminders (formatPtyOutput i (pi_status s) (Some pat)
               (s\<lparr> pi_outputSequence := sr_nextSequence r, pi_firstRetainedSequence := sr_firstRetainedSequence r,
                   pi_outputTruncated := sr_truncated r \<rparr>)
               (map (\<lambda>m. formatLine (ln_text m) (ln_lineNumber m) MAX_LINE_LENGTH (Some (ln_sequence m))) (sr_matches r))
               (sr_hasMore r)
               (js ''('' @ decimal n @ js '' of '' @ decimal (sr_totalMatches r) @ js '' matches shown. Use offset='' @
                 decimal (offset + n) @ js '' to see more.)'')
               (js ''('' @ decimal (sr_totalMatches r) @ js '' match'' @ (if sr_totalMatches r = 1 then [] else js ''es'') @
                 js '' from '' @ decimal (sr_totalLines r) @ js '' total lines)'')) s))"

definition handlePlainRead ::
  "js_string \<Rightarrow> PTYSessionInfo \<Rightarrow> ReadResult option answer \<Rightarrow> js_string answer" where
  "handlePlainRead i s found =
     and_then found (\<lambda>f.
       case f of
         None \<Rightarrow> Inl (session_missing i)
       | Some r \<Rightarrow>
           if rr_lines r = [] then
             Inr (appendSessionReminders (join_lines
               [output_tag i (pi_status s) (rr_nextSequence r) (rr_firstRetainedSequence r) (rr_truncated r) None s,
                js ''(No output available - buffer is empty)'', js ''Total lines: '' @ decimal (rr_totalLines r),
                js ''</pty_output>'']) s)
           else
             let next = rr_offset r + length (rr_lines r) in
             Inr (appendSessionReminders (formatPtyOutput i (pi_status s) None
               (s\<lparr> pi_outputSequence := rr_nextSequence r, pi_firstRetainedSequence := rr_firstRetainedSequence r,
                   pi_outputTruncated := rr_truncated r \<rparr>)
               (map (\<lambda>k. formatLine (rr_lines r ! k) (rr_offset r + k + 1) MAX_LINE_LENGTH
                   (if k < length (rr_sequences r) then Some (rr_sequences r ! k) else None))
                 [0..<length (rr_lines r)])
               (rr_hasMore r)
               (js ''(Buffer has more lines. Use offset='' @ decimal next @ js '' to read beyond line '' @ decimal next @ js '')'')
               (js ''(End of buffer - total '' @ decimal (rr_totalLines r) @ js '' lines)'')) s))"

definition ptyRead ::
  "js_string \<Rightarrow> nat option \<Rightarrow> nat option \<Rightarrow> js_string option \<Rightarrow> bool option \<Rightarrow> nat option \<Rightarrow> PTYSessionInfo option answer \<Rightarrow>
   SearchResult option answer \<Rightarrow> ReadResult option answer \<Rightarrow> tool_result" where
  "ptyRead i off lim pat ignoreCase sequence session found lines1 =
     (case session of
        Inl e \<Rightarrow> (Inl e, [Daemon (Do_get i)])
      | Inr None \<Rightarrow> (Inl (session_missing i), [Daemon (Do_get i)])
      | Inr (Some s) \<Rightarrow>
          (let offset = nullish off 0; limit = nullish lim DEFAULT_READ_LIMIT in
           case truthy_text pat of
             Some p \<Rightarrow> (handlePatternRead i p s offset found,
               [Daemon (Do_get i), Daemon (Do_search i p ignoreCase (Some offset) (Some limit) sequence)])
           | None \<Rightarrow> (handlePlainRead i s lines1,
               [Daemon (Do_get i), Daemon (Do_read i (Some offset) (Some limit) sequence)])))"

section \<open>pty_spawn and shell_exec\<close>

text \<open>
  The arguments of a tool call and the context it runs in. \<open>authorized\<close> is the answer of the spawn
  authorizer (\<open>authorizeSpawn\<close>), which gives the resolved working directory.
\<close>

record tool_context =
  tc_sessionID :: js_string
  tc_directory :: js_string
  tc_agent :: js_string

record spawn_args_of_tool =
  sa_command :: js_string
  sa_args :: "js_string list"
  sa_workdir :: "js_string option"
  sa_env :: "(js_string \<times> js_string) list option"
  sa_inheritEnv :: "bool option"
  sa_lifecycle :: "SessionLifecycle option"
  sa_title :: "js_string option"
  sa_description :: "js_string option"
  sa_notifyOnExit :: "bool option"
  sa_timeoutSeconds :: "nat option"
  sa_name :: "js_string option"
  sa_idempotencyKey :: "js_string option"
  sa_maxOutputBytes :: "nat option"

definition spawn_options_of :: "tool_context \<Rightarrow> js_string \<Rightarrow> spawn_args_of_tool \<Rightarrow> SpawnOptions" where
  "spawn_options_of ctx wdir a =
     \<lparr> so_command = sa_command a, so_args = Some (sa_args a), so_description = sa_description a, so_workdir = Some wdir,
       so_env = sa_env a, so_title = sa_title a, so_parentSessionId = tc_sessionID ctx, so_parentAgent = Some (tc_agent ctx),
       so_timeoutSeconds = sa_timeoutSeconds a, so_name = sa_name a, so_idempotencyKey = sa_idempotencyKey a,
       so_inheritEnv = sa_inheritEnv a, so_lifecycle = sa_lifecycle a, so_maxOutputBytes = None,
       so_ownerProjectDirectory = [], so_ownerCapabilityHash = [] \<rparr>"

fun mode_text :: "ExecutionMode \<Rightarrow> js_string" where
  "mode_text Mode_pty = js ''pty''"
| "mode_text Mode_exec = js ''exec''"

definition spawned_text :: "PTYSessionInfo \<Rightarrow> js_string" where
  "spawned_text s =
     join_lines
       [js ''<pty_spawned>'', js ''ID: '' @ escapeXml (pi_id s), js ''Title: '' @ escapeXml (pi_title s),
        js ''Command: '' @ escapeXml (pi_command s) @ js '' '' @ escapeXml (join_with (js '' '') (pi_args s)),
        js ''Workdir: '' @ escapeXml (pi_workdir s), js ''PID: '' @ decimal (pi_pid s),
        js ''Status: '' @ status_text (pi_status s),
        js ''TimeoutSeconds: '' @ (case pi_timeoutSeconds s of None \<Rightarrow> js ''none'' | Some t \<Rightarrow> decimal t),
        js ''Mode: '' @ mode_text (pi_mode s), js ''</pty_spawned>'']"

definition ptySpawn ::
  "tool_context \<Rightarrow> spawn_args_of_tool \<Rightarrow> (string, js_string) result \<Rightarrow> PTYSessionInfo answer \<Rightarrow> tool_result" where
  "ptySpawn ctx a authorized spawned =
     (if truthy (sa_notifyOnExit a)
      then (Inl (js ''notifyOnExit is not supported by the durable daemon. Use pty_list or pty_read.''), [])
      else case authorized of
        Inl e \<Rightarrow> (Inl (js e), [])
      | Inr wdir \<Rightarrow>
          (and_then spawned (\<lambda>s. Inr (spawned_text s)), [Daemon (Do_spawn (spawn_options_of ctx wdir a))]))"

definition containment_element :: "ExecResult \<Rightarrow> js_string" where
  "containment_element r =
     (case er_containment r of
        None \<Rightarrow> []
      | Some c \<Rightarrow>
          js ''<containment'' @ attribute ''status'' (escapeXml (containment_text (co_status c))) @
          attribute ''direct_child_exited'' (bool_text (case er_termination r of None \<Rightarrow> False | Some t \<Rightarrow> tr_directChildExited t)) @
          attribute ''root_identity_verified'' (bool_text (co_rootIdentityVerified c)) @
          attribute ''group_pids'' (join_numbers (co_observedGroupPids c)) @
          attribute ''session_pids'' (join_numbers (co_observedSessionPids c)) @
          attribute ''escaped_pids'' (join_numbers (co_observedEscapedDescendantPids c)) @ js ''/>'')"

definition exec_text :: "ExecResult \<Rightarrow> js_string" where
  "exec_text r =
     join_lines
       [js ''<shell_exec'' @ attribute ''id'' (escapeXml (es_id (er_session r))) @
          attribute ''status'' (escapeXml (status_text (es_status (er_session r)))) @
          attribute ''exit_code'' (escapeXml (exit_code_text (er_exitCode r))) @
          attribute ''timed_out'' (bool_text (er_timedOut r)) @ attribute ''output_limited'' (bool_text (er_outputLimited r)) @
          attribute ''termination_confirmed'' (bool_text (er_terminationConfirmed r)) @ js ''>'',
        js ''<stdout>'', escapeXml (er_stdout r), js ''</stdout>'', js ''<stderr>'', escapeXml (er_stderr r), js ''</stderr>'',
        containment_element r, js ''</shell_exec>'']"

definition shellExec ::
  "tool_context \<Rightarrow> spawn_args_of_tool \<Rightarrow> (string, js_string) result \<Rightarrow> ExecResult answer \<Rightarrow> tool_result" where
  "shellExec ctx a authorized finished =
     (case authorized of
        Inl e \<Rightarrow> (Inl (js e), [])
      | Inr wdir \<Rightarrow>
          (and_then finished (\<lambda>r. Inr (exec_text r)),
           [Daemon (Do_exec ((spawn_options_of ctx wdir a)\<lparr> so_maxOutputBytes := sa_maxOutputBytes a \<rparr>))]))"

section \<open>Escape sequences\<close>

text \<open>Writing text so that the tool sends it as it is: every backslash doubled, or every unit as a code.\<close>

definition double_backslashes :: "js_string \<Rightarrow> js_string" where
  "double_backslashes s = concat (map (\<lambda>u. if u = 92 then [92, 92] else [u]) s)"

definition hex_digit :: "nat \<Rightarrow> 16 word" where
  "hex_digit n = (if n < 10 then of_nat (48 + n) else of_nat (87 + n))"

definition unit_code :: "16 word \<Rightarrow> js_string" where
  "unit_code u =
     (let n = unat u in [92, 117, hex_digit (n div 4096), hex_digit (n div 256 mod 16), hex_digit (n div 16 mod 16), hex_digit (n mod 16)])"

lemma escape_at_simps [simp]: "escape_at (92 # us) = Some (92, 1)"
  by (simp add: escape_at_def)

lemma replace_escapes_drop: "replace_escapes n s = replace_escapes 0 (drop n s)"
  by (induction n s rule: replace_escapes.induct) simp_all

lemma parse_doubled: "parseEscapeSequences (double_backslashes s) = s"
  unfolding parseEscapeSequences_def double_backslashes_def by (induction s) simp_all

lemma hex_value_digit: "n < 16 \<Longrightarrow> hex_value (hex_digit n) = Some n"
proof -
  have "list_all (\<lambda>n. hex_value (hex_digit n) = Some n) [0..<16]"
    by (simp add: upt_conv_Cons hex_value_def hex_digit_def)
  then show "n < 16 \<Longrightarrow> ?thesis" by (simp add: list_all_iff)
qed

lemma unit_code_parsed: "replace_escapes 0 (unit_code u @ s) = u # replace_escapes 0 s"
proof -
  let ?n = "unat u"
  have n: "?n < 65536" using unsigned_less [of u] by simp
  have "hex_number 0 [hex_digit (?n div 4096), hex_digit (?n div 256 mod 16), hex_digit (?n div 16 mod 16), hex_digit (?n mod 16)] =
      Some ((((?n div 4096) * 16 + ?n div 256 mod 16) * 16 + ?n div 16 mod 16) * 16 + ?n mod 16)"
    using n by (simp add: hex_value_digit less_mult_imp_div_less)
  also have "(((?n div 4096) * 16 + ?n div 256 mod 16) * 16 + ?n div 16 mod 16) * 16 + ?n mod 16 = ?n"
  proof -
    have "?n div 4096 = ?n div 256 div 16" "?n div 256 = ?n div 16 div 16" by (simp_all add: div_mult2_eq [symmetric])
    then show ?thesis by (metis div_mult_mod_eq)
  qed
  finally have "escape_at (drop 1 (unit_code u) @ s) = Some (u, 5)"
    by (simp add: escape_at_def unit_code_def Let_def)
  then show ?thesis
    by (simp add: unit_code_def Let_def replace_escapes_drop [of "Suc (Suc (Suc (Suc (Suc 0))))"] replace_escapes_drop [of 5])
qed

lemma parse_unit_codes: "parseEscapeSequences (concat (map unit_code s)) = s"
  unfolding parseEscapeSequences_def by (induction s) (simp_all add: unit_code_parsed)

lemma parse_plain: "92 \<notin> set s \<Longrightarrow> parseEscapeSequences s = s"
  unfolding parseEscapeSequences_def by (induction s) simp_all

lemma parse_length: "length (replace_escapes n s) \<le> length s"
  by (induction n s rule: replace_escapes.induct) (auto split: option.split)

section \<open>Results\<close>

lemma tool_condition_fits:
  "wait_condition literal regex exits = Inr c \<Longrightarrow> short_text literal \<Longrightarrow> short_text regex \<Longrightarrow>
   waitCondition (Some (condition_json c)) = Inr c"
  by (rule condition_roundtrip) (auto simp: wait_condition_def split: if_splits)

text \<open>
  Every text can be sent. Doubling the backslashes of a text, or writing each of its units as a
  code, gives input that the tools decode to exactly that text; input without a backslash is sent as
  it is; and decoding never makes input longer.
\<close>

theorem escape_sequences_round_trip:
  "parseEscapeSequences (double_backslashes s) = s \<and> parseEscapeSequences (concat (map unit_code s)) = s \<and>
   (92 \<notin> set s \<longrightarrow> parseEscapeSequences s = s) \<and> length (parseEscapeSequences t) \<le> length t"
  using parse_doubled parse_unit_codes parse_plain parse_length by (auto simp: parseEscapeSequences_def)

theorem escape_sequences_round_trip_witness:
  "parseEscapeSequences (js ''ls'') = js ''ls'' \<and> parseEscapeSequences [92, 120, 48, 51] = [3]"
  using escape_sequences_round_trip [of "js ''ls''"]
  by (simp add: parseEscapeSequences_def escape_at_def hex_value_def replace_escapes_drop [of 3])

text \<open>Text that cannot open or close a tag or an attribute.\<close>

definition plain_text :: "js_string \<Rightarrow> bool" where
  "plain_text s \<longleftrightarrow> 60 \<notin> set s \<and> 62 \<notin> set s \<and> 34 \<notin> set s"

lemma plain_append [simp]: "plain_text (a @ b) \<longleftrightarrow> plain_text a \<and> plain_text b"
  by (auto simp: plain_text_def)

lemma plain_list [simp]: "plain_text []" "plain_text (u # s) \<longleftrightarrow> u \<noteq> 60 \<and> u \<noteq> 62 \<and> u \<noteq> 34 \<and> plain_text s"
  by (auto simp: plain_text_def)

lemma plain_escaped [simp]: "plain_text (escapeXml s)"
  using escapeXml_safe [of _ s] by (auto simp: plain_text_def)

lemma plain_decimal [simp]: "plain_text (decimal n)"
  using decimal_digits [of n] by (auto simp: plain_text_def list_all_iff is_digit_def)

lemma plain_join [simp]: "plain_text (join_numbers ns)"
proof -
  have "plain_text (join_with (js '','') (map decimal ns))"
    by (induction ns rule: induct_list012) simp_all
  then show ?thesis by (simp add: join_numbers_def del: js_simps)
qed

lemma plain_signed [simp]: "plain_text (signed_decimal n)"
  by (simp add: signed_decimal_def plain_text_def) (use plain_decimal in \<open>auto simp: plain_text_def\<close>)

lemma plain_words [simp]: "plain_text (status_text st)" "plain_text (containment_text c)" "plain_text (bool_text b)"
  "plain_text (mode_text m)"
  by (cases st; simp add: plain_text_def)
    ((cases c; simp add: plain_text_def), simp add: bool_text_def plain_text_def, (cases m; simp add: plain_text_def))

lemma plain_pids [simp]: "plain_text (pids_text f c)"
  by (cases c) (simp_all add: pids_text_def)

text \<open>How many tags a text opens.\<close>

definition tags :: "js_string \<Rightarrow> nat" where
  "tags s = count_list s 60"

lemma tags_simps [simp]: "tags [] = 0" "tags (u # s) = (if u = 60 then 1 else 0) + tags s" "tags (a @ b) = tags a + tags b"
  by (simp_all add: tags_def)

lemma tags_plain: "plain_text s \<Longrightarrow> tags s = 0"
  by (simp add: tags_def plain_text_def count_list_0_iff)

lemma tags_attribute [simp]: "tags (attribute name v) = tags (js name) + tags v"
  by (simp add: attribute_def)

lemma tags_join [simp]: "tags (join_lines ls) = sum_list (map tags ls)"
  unfolding join_lines_def by (induction ls rule: induct_list012) simp_all

lemma tags_line [simp]: "tags (formatLine line n m sq) = 0"
proof -
  have "plain_text (padStart 5 48 (decimal n))"
    using plain_decimal [of n] by (auto simp: padStart_def plain_text_def)
  then show ?thesis by (auto simp: formatLine_def Let_def tags_plain split: option.split)
qed

lemma tags_containment: "tags (containmentAttributes s) = 0"
  by (simp add: containmentAttributes_def tags_plain split: option.split)

lemma tags_reminders: "tags (appendSessionReminders text s) = tags text + (if pi_timedOut s then 2 else 0)"
  by (simp add: appendSessionReminders_def buildTimeoutReminder_def tags_plain split: option.split)

lemma tags_output_tag: "tags (output_tag i st sq retained trunc pat s) = 1"
  by (simp add: output_tag_def tags_plain tags_containment split: option.split)

lemma tags_pty_output:
  "list_all (\<lambda>l. tags l = 0) formatted \<Longrightarrow> plain_text page \<Longrightarrow> plain_text fin \<Longrightarrow>
   tags (formatPtyOutput i st pat s formatted hasMore page fin) = 2"
proof -
  assume a: "list_all (\<lambda>l. tags l = 0) formatted" "plain_text page" "plain_text fin"
  then have "sum_list (map tags formatted) = 0" by (simp add: list_all_iff)
  with a(2,3) show ?thesis by (simp add: formatPtyOutput_def tags_output_tag tags_plain)
qed

lemma tags_empty_output:
  "plain_text a \<Longrightarrow> plain_text b \<Longrightarrow>
   tags (join_lines [output_tag i st sq retained trunc pat s, a, b, js ''</pty_output>'']) = 2"
  by (simp add: tags_output_tag tags_plain)

lemma tags_pattern_read:
  assumes "handlePatternRead i pat s off found = Inr text"
  shows "tags text = 2 + (if pi_timedOut s then 2 else 0)"
proof -
  from assms obtain r where r: "found = Inr (Some r)" by (auto simp: handlePatternRead_def and_then_Inr_iff split: option.splits)
  have lines1: "list_all (\<lambda>l. tags l = 0) (map (\<lambda>m. formatLine (ln_text m) (ln_lineNumber m) MAX_LINE_LENGTH (Some (ln_sequence m))) ms)" for ms
    by (simp add: list_all_iff)
  show ?thesis
  proof (cases "sr_matches r = []")
    case True
    with assms r have "text = appendSessionReminders (join_lines
        [output_tag i (pi_status s) (sr_nextSequence r) (sr_firstRetainedSequence r) (sr_truncated r) (Some pat) s,
         js ''No lines matched the pattern '' @ quoted (escapeXml pat) @ js ''.'',
         js ''Total lines in buffer: '' @ decimal (sr_totalLines r), js ''</pty_output>'']) s"
      by (simp add: handlePatternRead_def del: js_simps)
    moreover have "plain_text (js ''No lines matched the pattern '' @ quoted (escapeXml pat) @ js ''.'')"
      "plain_text (js ''Total lines in buffer: '' @ decimal (sr_totalLines r))" by (simp_all add: quoted_def)
    ultimately show ?thesis by (simp only: tags_reminders tags_empty_output)
  next
    case False
    with assms r have "text = appendSessionReminders (formatPtyOutput i (pi_status s) (Some pat)
               (s\<lparr> pi_outputSequence := sr_nextSequence r, pi_firstRetainedSequence := sr_firstRetainedSequence r,
                   pi_outputTruncated := sr_truncated r \<rparr>)
               (map (\<lambda>m. formatLine (ln_text m) (ln_lineNumber m) MAX_LINE_LENGTH (Some (ln_sequence m))) (sr_matches r))
               (sr_hasMore r)
               (js ''('' @ decimal (length (sr_matches r)) @ js '' of '' @ decimal (sr_totalMatches r) @ js '' matches shown. Use offset='' @
                 decimal (off + length (sr_matches r)) @ js '' to see more.)'')
               (js ''('' @ decimal (sr_totalMatches r) @ js '' match'' @ (if sr_totalMatches r = 1 then [] else js ''es'') @
                 js '' from '' @ decimal (sr_totalLines r) @ js '' total lines)'')) s"
      by (simp add: handlePatternRead_def Let_def del: js_simps)
    moreover have "plain_text (js ''('' @ decimal (length (sr_matches r)) @ js '' of '' @ decimal (sr_totalMatches r) @
        js '' matches shown. Use offset='' @ decimal (off + length (sr_matches r)) @ js '' to see more.)'')"
      "plain_text (js ''('' @ decimal (sr_totalMatches r) @ js '' match'' @ (if sr_totalMatches r = 1 then [] else js ''es'') @
        js '' from '' @ decimal (sr_totalLines r) @ js '' total lines)'')" by simp_all
    ultimately show ?thesis by (simp only: tags_reminders tags_pty_output [OF lines1])
  qed
qed

lemma tags_plain_read:
  assumes "handlePlainRead i s found = Inr text"
  shows "tags text = 2 + (if pi_timedOut s then 2 else 0)"
proof -
  from assms obtain r where r: "found = Inr (Some r)" by (auto simp: handlePlainRead_def and_then_Inr_iff split: option.splits)
  have lines1: "list_all (\<lambda>l. tags l = 0) (map (\<lambda>k. formatLine (f k) (n + k + 1) MAX_LINE_LENGTH (g k)) ks)" for f g ks n
    by (simp add: list_all_iff)
  let ?next = "decimal (rr_offset r + length (rr_lines r))"
  show ?thesis
  proof (cases "rr_lines r = []")
    case True
    with assms r have "text = appendSessionReminders (join_lines
        [output_tag i (pi_status s) (rr_nextSequence r) (rr_firstRetainedSequence r) (rr_truncated r) None s,
         js ''(No output available - buffer is empty)'', js ''Total lines: '' @ decimal (rr_totalLines r), js ''</pty_output>'']) s"
      by (simp add: handlePlainRead_def del: js_simps)
    moreover have "plain_text (js ''(No output available - buffer is empty)'')"
      "plain_text (js ''Total lines: '' @ decimal (rr_totalLines r))" by simp_all
    ultimately show ?thesis by (simp only: tags_reminders tags_empty_output)
  next
    case False
    with assms r have "text = appendSessionReminders (formatPtyOutput i (pi_status s) None
               (s\<lparr> pi_outputSequence := rr_nextSequence r, pi_firstRetainedSequence := rr_firstRetainedSequence r,
                   pi_outputTruncated := rr_truncated r \<rparr>)
               (map (\<lambda>k. formatLine (rr_lines r ! k) (rr_offset r + k + 1) MAX_LINE_LENGTH
                   (if k < length (rr_sequences r) then Some (rr_sequences r ! k) else None)) [0..<length (rr_lines r)])
               (rr_hasMore r)
               (js ''(Buffer has more lines. Use offset='' @ ?next @ js '' to read beyond line '' @ ?next @ js '')'')
               (js ''(End of buffer - total '' @ decimal (rr_totalLines r) @ js '' lines)'')) s"
      by (simp add: handlePlainRead_def Let_def del: js_simps)
    moreover have "plain_text (js ''(Buffer has more lines. Use offset='' @ ?next @ js '' to read beyond line '' @ ?next @ js '')'')"
      "plain_text (js ''(End of buffer - total '' @ decimal (rr_totalLines r) @ js '' lines)'')" by simp_all
    ultimately show ?thesis by (simp only: tags_reminders tags_pty_output [OF lines1])
  qed
qed

text \<open>
  C30: no output can forge markup. Whatever the session printed, whatever its id, title, command and
  pattern are, the answer of pty_read opens exactly its own tag and closes it, with two more tags
  for the reminder of a timeout; the answer of shell_exec opens its three elements and, if there is
  a containment report, one more; and the answer of a wait is a single tag.
\<close>

theorem tool_markup_safe:
  "(fst (ptyRead i off lim pat ic sq (Inr (Some s)) found lines1) = Inr text \<longrightarrow> tags text = 2 + (if pi_timedOut s then 2 else 0)) \<and>
   (fst (shellExec ctx a auth (Inr r)) = Inr text \<longrightarrow> tags text = 6 + (if er_containment r = None then 0 else 1)) \<and>
   (fst (ptyWait i literal regex exits t (Inr w)) = Inr text \<longrightarrow> tags text = 1)"
proof (intro conjI impI)
  assume "fst (ptyRead i off lim pat ic sq (Inr (Some s)) found lines1) = Inr text"
  then show "tags text = 2 + (if pi_timedOut s then 2 else 0)"
    using tags_pattern_read tags_plain_read by (auto simp: ptyRead_def Let_def split: option.splits)
next
  assume "fst (shellExec ctx a auth (Inr r)) = Inr text"
  then have "text = exec_text r" by (auto simp: shellExec_def split: sum.splits)
  then show "tags text = 6 + (if er_containment r = None then 0 else 1)"
    by (simp add: exec_text_def containment_element_def tags_plain split: option.split)
next
  assume "fst (ptyWait i literal regex exits t (Inr w)) = Inr text"
  then have "text = wait_format w" by (auto simp: ptyWait_def split: sum.splits)
  then show "tags text = 1" by (simp add: wait_format_def Let_def tags_plain)
qed

text \<open>
  A wait reports a confirmed termination only for the POSIX report; the empty job of Windows, which
  proves the termination everywhere else, is shown as unconfirmed.
\<close>

lemma wait_ignores_windows_proof:
  "wr_containment r = Some c \<Longrightarrow> co_status c = Windows_job_empty \<Longrightarrow> \<not> wait_confirmed r \<and> drained_status (co_status c)"
  by (auto simp: wait_confirmed_def drained_status_def)

definition sample_wait :: WaitResult where
  "sample_wait = \<lparr> wr_satisfied = True, wr_reason = By_output, wr_observedAt = toISOString 0, wr_matched = Some (js ''<b>''),
     wr_exitCode = None, wr_exitSignal = None, wr_outputTruncated = False, wr_containment = None, wr_termination = None \<rparr>"

definition sample_exec :: ExecResult where
  "sample_exec = \<lparr> er_session = \<lparr> es_id = js ''pty_1'', es_status = St_exited, es_pid = 7 \<rparr>, er_stdout = js ''</stdout>'',
     er_stderr = [], er_exitCode = Some 0, er_exitSignal = None, er_timedOut = False, er_outputLimited = False,
     er_terminationConfirmed = True, er_containment = None, er_termination = None, er_startedAt = toISOString 0,
     er_exitedAt = toISOString 1 \<rparr>"

definition sample_page :: ReadResult where
  "sample_page = \<lparr> rr_lines = [js ''</pty_output>''], rr_sequences = [0], rr_totalLines = 1, rr_offset = 0, rr_hasMore = False,
     rr_firstRetainedSequence = 0, rr_nextSequence = 14, rr_truncated = False, rr_containment = None, rr_termination = None \<rparr>"

definition sample_info :: PTYSessionInfo where
  "sample_info = (toInfo sample_record)\<lparr> pi_timedOut := True \<rparr>"

definition sample_context :: tool_context where
  "sample_context = \<lparr> tc_sessionID = js ''ses_1'', tc_directory = js ''/w'', tc_agent = js ''build'' \<rparr>"

definition sample_spawn_args :: spawn_args_of_tool where
  "sample_spawn_args = \<lparr> sa_command = js ''ls'', sa_args = [], sa_workdir = None, sa_env = None, sa_inheritEnv = None,
     sa_lifecycle = None, sa_title = None, sa_description = None, sa_notifyOnExit = None, sa_timeoutSeconds = Some 5,
     sa_name = None, sa_idempotencyKey = None, sa_maxOutputBytes = None \<rparr>"

theorem tool_markup_safe_witness:
  "\<exists>a b c. fst (ptyRead (js ''pty_1'') None None None None None (Inr (Some sample_info)) (Inr None) (Inr (Some sample_page))) = Inr a \<and>
     fst (shellExec sample_context sample_spawn_args (Inr (js ''/w'')) (Inr sample_exec)) = Inr b \<and>
     fst (ptyWait (js ''pty_1'') (Some (js ''x'')) None None 5 (Inr sample_wait)) = Inr c \<and> tags a = 4 \<and> tags b = 6 \<and> tags c = 1"
proof -
  obtain a where a: "fst (ptyRead (js ''pty_1'') None None None None None (Inr (Some sample_info)) (Inr None) (Inr (Some sample_page))) = Inr a"
    by (simp add: ptyRead_def Let_def truthy_text_def handlePlainRead_def sample_page_def del: js_simps)
  obtain b where b: "fst (shellExec sample_context sample_spawn_args (Inr (js ''/w'')) (Inr sample_exec)) = Inr b" by (simp add: shellExec_def del: js_simps)
  obtain c where c: "fst (ptyWait (js ''pty_1'') (Some (js ''x'')) None None 5 (Inr sample_wait)) = Inr c"
    by (simp add: ptyWait_def wait_condition_def truthy_text_def)
  have "tags a = 4"
    using tool_markup_safe [THEN conjunct1, rule_format, OF a] by (simp add: sample_info_def)
  moreover have "tags b = 6"
    using tool_markup_safe [THEN conjunct2, THEN conjunct1, rule_format, OF b] by (simp add: sample_exec_def)
  moreover have "tags c = 1"
    using tool_markup_safe [THEN conjunct2, THEN conjunct2, rule_format, OF c] .
  ultimately show ?thesis using a b c by blast
qed

end
