(* ===== verification/Bash_Tool.thy ===== *)
theory Bash_Tool
  imports Tools
begin

text \<open>
  The foreground shell (plugin/pty/tools/bash.ts): the command line and the time limit, the approval of the
  command at the daemon or at the host, the prompt for a directory outside the project, the execution and
  what an abort does at each point. The theorems compose it with the permission policy and the approval
  service.
\<close>

section \<open>The shell\<close>

definition DEFAULT_TIMEOUT_MS :: int where "DEFAULT_TIMEOUT_MS = 120000"
definition APPROVAL_EXPIRY_SECONDS :: nat where "APPROVAL_EXPIRY_SECONDS = MAX_EXEC_RUNTIME_SECONDS"
definition APPROVAL_UI_LEASE_SECONDS :: nat where "APPROVAL_UI_LEASE_SECONDS = 5"

text \<open>\<open>comspec\<close> is \<open>environment.ComSpec ?? environment.COMSPEC\<close>.\<close>

definition bashArgv ::
  "platform \<Rightarrow> js_string option \<Rightarrow> (js_string \<Rightarrow> bool) \<Rightarrow> js_string \<Rightarrow> (js_string \<times> js_string list) answer" where
  "bashArgv pf comspec exists1 cmd =
     (let shell = (if pf = Win32 then comspec else Some (js ''/bin/sh'')) in
      case truthy_text shell of
        None \<Rightarrow> Inl (js ''Bash compatibility shell is unavailable: '' @ nullish shell (js ''none'') @ js ''.'')
      | Some s \<Rightarrow>
          if \<not> exists1 s then Inl (js ''Bash compatibility shell is unavailable: '' @ s @ js ''.'')
          else if pf = Win32 then Inr (s, [js ''/d'', js ''/s'', js ''/c'', cmd]) else Inr (s, [js ''-lc'', cmd]))"

text \<open>The timeout is a number that may be missing; a \<open>JReal\<close> is not an integer.\<close>

definition bashTimeout :: "json option \<Rightarrow> nat answer" where
  "bashTimeout timeout =
     (case timeout of
        None \<Rightarrow> Inr (nat (DEFAULT_TIMEOUT_MS div 1000))
      | Some (JNum n) \<Rightarrow>
          if \<not> isSafeInteger n \<or> n < 1000
          then Inl (js ''Bash timeout must be a whole number of milliseconds of at least 1000.'')
          else if n div 1000 > int MAX_EXEC_RUNTIME_SECONDS
          then Inl (js ''Bash timeout exceeds the '' @ decimal MAX_EXEC_RUNTIME_SECONDS @ js '' second limit.'')
          else Inr (nat (n div 1000))
      | _ \<Rightarrow> Inl (js ''Bash timeout must be a whole number of milliseconds of at least 1000.''))"

definition bashApprovalCapability :: "server_env \<Rightarrow> js_string \<Rightarrow> js_string" where
  "bashApprovalCapability env agent = js ''bash:'' @ sha256 env (nfc env agent)"

definition terminalExecResult :: "ExecResult \<Rightarrow> bool" where
  "terminalExecResult r \<longleftrightarrow>
     er_terminationConfirmed r \<and> es_status (er_session r) \<in> {St_exited, St_timed_out, St_output_limited}"

section \<open>Approval\<close>

text \<open>
  One prompt as it goes: whether the call is aborted before it, whether the host can ask, how the prompt
  ends (an abort during the prompt is an error), and whether the call is aborted after it.
\<close>

record ask_view =
  av_aborted :: bool
  av_available :: bool
  av_answer :: "unit answer"
  av_aborted_after :: bool

definition abortableAsk :: "js_string \<Rightarrow> js_string \<Rightarrow> ask_view \<Rightarrow> unit answer \<times> tool_event list" where
  "abortableAsk permission pattern av =
     (if av_aborted av then (Inl (js ''Bash approval cancelled before prompting.''), [])
      else if \<not> av_available av then (Inl (js ''Bash approval is unavailable in this host.''), [])
      else case av_answer av of
        Inl e \<Rightarrow> (Inl e, [Prompt permission pattern])
      | Inr _ \<Rightarrow>
          (if av_aborted_after av then Inl (js ''Bash approval cancelled before execution.'') else Inr (),
           [Prompt permission pattern]))"

text \<open>
  What happens during one call: the policy, the answers of the daemon, the prompts, and the points at
  which the call finds itself aborted.
\<close>

record bash_world =
  bw_policy :: "(string, bash_policy) result"
  bw_prepare :: "(js_string \<times> ApprovalStatus) answer"
  bw_wait_aborted :: bool
  bw_wait :: "ApprovalStatus answer"
  bw_ask :: ask_view
  bw_native :: "unit answer"
  bw_consume :: "ApprovalStatus answer"
  bw_external :: ask_view
  bw_start_aborted :: bool
  bw_platform :: platform
  bw_comspec :: "js_string option"
  bw_exists :: "js_string \<Rightarrow> bool"
  bw_start :: "js_string answer"
  bw_exec :: "ExecResult answer"
  bw_exec_aborted :: bool
  bw_last :: "ExecResult answer"

definition abortableApprovalWait :: "js_string \<Rightarrow> bash_world \<Rightarrow> ApprovalStatus answer \<times> tool_event list" where
  "abortableApprovalWait i w =
     (if bw_wait_aborted w then (Inl (js ''Bash approval cancelled before prompting.''), [])
      else (bw_wait w, [Daemon (Do_waitForApproval i APPROVAL_EXPIRY_SECONDS)]))"

text \<open>Sequencing: the second part runs after the first has succeeded, its events follow.\<close>

definition and_do :: "'a answer \<times> tool_event list \<Rightarrow> ('a \<Rightarrow> 'b answer \<times> tool_event list) \<Rightarrow> 'b answer \<times> tool_event list" where
  "and_do m f =
     (case m of
        (Inl e, es) \<Rightarrow> (Inl e, es)
      | (Inr x, es) \<Rightarrow> (case f x of (r, es') \<Rightarrow> (r, es @ es')))"

definition native_fallback :: "js_string \<Rightarrow> js_string \<Rightarrow> bash_world \<Rightarrow> ApprovalStatus \<Rightarrow> unit answer \<times> tool_event list" where
  "native_fallback cmd i w st =
     (if st = Native_fallback
      then and_do (abortableAsk (js ''bash'') cmd (bw_ask w)) (\<lambda>_. (bw_native w, [Daemon (Do_approveNativeApproval i)]))
      else (Inr (), []))"

definition consume_approval :: "js_string \<Rightarrow> approval_intent \<Rightarrow> bash_world \<Rightarrow> unit answer \<times> tool_event list" where
  "consume_approval i intent w =
     (and_then (bw_consume w) (\<lambda>st.
        if st \<in> {Consumed, Approved_session} then Inr () else Inl (js ''Bash command approval was not granted.'')),
      [Daemon (Do_consumeApproval i intent)])"

definition await_approval :: "js_string \<Rightarrow> js_string \<Rightarrow> approval_intent \<Rightarrow> bash_world \<Rightarrow> unit answer \<times> tool_event list" where
  "await_approval cmd i intent w =
     (case and_do (abortableApprovalWait i w) (\<lambda>st.
           and_do (native_fallback cmd i w st) (\<lambda>_. consume_approval i intent w)) of
        (Inl e, es) \<Rightarrow> (Inl e, es @ [Daemon (Do_cancelApproval i)])
      | (Inr _, es) \<Rightarrow> (Inr (), es))"

definition bash_intent :: "js_string \<Rightarrow> js_string \<Rightarrow> bash_policy \<Rightarrow> approval_intent" where
  "bash_intent cap cmd p = \<lparr> it_command = cmd, it_capability = cap, it_workdir = bp_workdir p, it_reason = None \<rparr>"

definition approve_command :: "js_string \<Rightarrow> js_string \<Rightarrow> bash_policy \<Rightarrow> bash_world \<Rightarrow> unit answer \<times> tool_event list" where
  "approve_command cap cmd p w =
     (if bp_action p = Ask then
        and_do (bw_prepare w, [Daemon (Do_prepareApproval (bash_intent cap cmd p) APPROVAL_EXPIRY_SECONDS (Some APPROVAL_UI_LEASE_SECONDS))])
          (\<lambda>(i, st). if st \<noteq> Approved_session then await_approval cmd i (bash_intent cap cmd p) w else (Inr (), []))
      else (Inr (), []))"

section \<open>Execution\<close>

definition external_approval :: "bash_policy \<Rightarrow> bash_world \<Rightarrow> unit answer \<times> tool_event list" where
  "external_approval p w =
     (case truthy_text (bp_externalPattern p) of
        Some pattern \<Rightarrow>
          if bp_externalAction p \<noteq> Some Allow then abortableAsk (js ''external_directory'') pattern (bw_external w) else (Inr (), [])
      | None \<Rightarrow> (Inr (), []))"

definition abortableExec :: "js_string \<Rightarrow> nat \<Rightarrow> bash_world \<Rightarrow> ExecResult answer \<times> tool_event list" where
  "abortableExec i t w =
     (case bw_exec w of
        Inr r \<Rightarrow> (Inr r, [Daemon (Do_execWait i t)])
      | Inl e \<Rightarrow>
          if \<not> bw_exec_aborted w then (Inl e, [Daemon (Do_execWait i t)])
          else (Inl (js ''Bash execution aborted; termination_confirmed='' @
                  bool_text (case bw_last w of Inl _ \<Rightarrow> False | Inr r \<Rightarrow> terminalExecResult r \<and> er_terminationConfirmed r) @ js ''.''),
                [Daemon (Do_execWait i t), Daemon (Do_stop i), Daemon (Do_execWait i 5)]))"

definition bash_options :: "tool_context \<Rightarrow> bash_policy \<Rightarrow> js_string \<Rightarrow> js_string list \<Rightarrow> nat \<Rightarrow> SpawnOptions" where
  "bash_options ctx p shell argv t =
     \<lparr> so_command = shell, so_args = Some argv, so_description = None, so_workdir = Some (bp_workdir p), so_env = None,
       so_title = Some (js ''Bash''), so_parentSessionId = tc_sessionID ctx, so_parentAgent = Some (tc_agent ctx),
       so_timeoutSeconds = Some t, so_name = None, so_idempotencyKey = None, so_inheritEnv = None, so_lifecycle = None,
       so_maxOutputBytes = None, so_ownerProjectDirectory = [], so_ownerCapabilityHash = [] \<rparr>"

definition bash_text :: "ExecResult \<Rightarrow> js_string" where
  "bash_text r =
     join_lines
       [js ''<bash'' @ attribute ''origin'' (js ''opencode-pty'') @ attribute ''mode'' (js ''foreground'') @
          attribute ''status'' (escapeXml (status_text (es_status (er_session r)))) @
          attribute ''exit_code'' (escapeXml (exit_code_text (er_exitCode r))) @
          attribute ''timed_out'' (bool_text (er_timedOut r)) @
          attribute ''termination_confirmed'' (bool_text (er_terminationConfirmed r)) @ attribute ''terminal'' (js ''true'') @ js ''>'',
        js ''<stdout>'' @ escapeXml (er_stdout r) @ js ''</stdout>'', js ''<stderr>'' @ escapeXml (er_stderr r) @ js ''</stderr>'',
        containment_element r, js ''</bash>'']"

definition run_command ::
  "tool_context \<Rightarrow> bash_policy \<Rightarrow> js_string \<Rightarrow> js_string list \<Rightarrow> nat \<Rightarrow> bash_world \<Rightarrow> js_string answer \<times> tool_event list" where
  "run_command ctx p shell argv t w =
     and_do (bw_start w, [Daemon (Do_execStart (bash_options ctx p shell argv t))]) (\<lambda>i.
     and_do (abortableExec i (min (t + 5) MAX_EXEC_WAIT_SECONDS) w) (\<lambda>r.
       (if \<not> terminalExecResult r then Inl (js ''Bash execution completed without terminal evidence.'') else Inr (bash_text r), [])))"

text \<open>The part of a call after the policy and the owner context are known.\<close>

definition bash_body :: "tool_context \<Rightarrow> js_string \<Rightarrow> js_string \<Rightarrow> json option \<Rightarrow> bash_world \<Rightarrow> bash_policy \<Rightarrow> js_string answer \<times> tool_event list" where
  "bash_body ctx cap cmd timeout w p =
     and_do (approve_command cap cmd p w) (\<lambda>_.
     and_do (external_approval p w) (\<lambda>_.
       if bw_start_aborted w then (Inl (js ''Bash execution cancelled before start.''), [])
       else and_do (bashArgv (bw_platform w) (bw_comspec w) (bw_exists w) cmd, []) (\<lambda>(shell, argv).
            and_do (bashTimeout timeout, []) (\<lambda>t. run_command ctx p shell argv t w))))"

text \<open>
  The whole call. \<open>owner\<close> is the owner context of the session, \<open>ownerContext(ctx.sessionID, ctx.directory)\<close>,
  which every request carries.
\<close>

definition bash_execute ::
  "server_env \<Rightarrow> tool_context \<Rightarrow> js_string \<Rightarrow> json option \<Rightarrow> bash_world \<Rightarrow> js_string answer \<times> tool_event list" where
  "bash_execute env ctx cmd timeout w =
     (if cmd = [] then (Inl (js ''Bash command is required.''), [])
      else and_do (case bw_policy w of Inl e \<Rightarrow> Inl (js e) | Inr p \<Rightarrow> Inr p, []) (\<lambda>p.
           and_do (ownerContext env (tc_sessionID ctx) (tc_directory ctx), []) (\<lambda>_.
           bash_body ctx (bashApprovalCapability env (tc_agent ctx)) cmd timeout w p)))"

section \<open>What the daemon answers\<close>

text \<open>
  The answers of a call, when the approval service of the daemon gives them: \<open>st1\<close> is the service at
  the preparation, \<open>st2\<close> at the consumption, and anything may have happened between the two.
\<close>

fun prepare_answer :: "(daemon_error, approval_result) result \<Rightarrow> (js_string \<times> ApprovalStatus) answer" where
  "prepare_answer (Inr R_approved_session) = Inr ([], Approved_session)"
| "prepare_answer (Inr (R_request q)) = Inr (rq_id q, rq_status q)"
| "prepare_answer _ = Inl (js ''Approval failed.'')"

fun consume_answer :: "(daemon_error, approval_result) result \<Rightarrow> ApprovalStatus answer" where
  "consume_answer (Inr (R_request q)) = Inr (rq_status q)"
| "consume_answer _ = Inl (js ''Approval failed.'')"

definition approval_service ::
  "(approval_intent \<Rightarrow> js_string) \<Rightarrow> OwnerContext \<Rightarrow> approval_intent \<Rightarrow> js_string \<Rightarrow> int \<times> approval_state \<Rightarrow> int \<times> approval_state \<Rightarrow>
   bash_world \<Rightarrow> bool" where
  "approval_service digest ow intent fresh at1 at2 w \<longleftrightarrow>
     bw_prepare w = prepare_answer (fst (approvalPrepare digest (fst at1) fresh ow intent APPROVAL_EXPIRY_SECONDS
       (Some APPROVAL_UI_LEASE_SECONDS) (snd at1))) \<and>
     (\<forall>i st. bw_prepare w = Inr (i, st) \<longrightarrow>
        bw_consume w = consume_answer (fst (approvalConsume digest (fst at2) ow i intent (snd at2))))"

text \<open>The command may run: the owner holds a live session grant for exactly this intent, or a live one-time approval.\<close>

definition granted ::
  "(approval_intent \<Rightarrow> js_string) \<Rightarrow> OwnerContext \<Rightarrow> approval_intent \<Rightarrow> js_string \<Rightarrow> int \<times> approval_state \<Rightarrow> int \<times> approval_state \<Rightarrow> bool" where
  "granted digest ow intent i at1 at2 \<longleftrightarrow>
     (\<exists>g\<in>set (grants (ledger (snd at1))). live_grant (fst at1) ow (digest intent) (it_capability intent) (it_workdir intent) g) \<or>
     (\<exists>q. req (snd at2) i = Some q \<and> owned_request ow q \<and> rq_digest q = digest intent \<and>
        (rq_status q = Approved_once \<and> \<not> due (rq_expiresAt q) (fst at2) \<or>
         (\<exists>g\<in>set (grants (ledger (snd at2))). live_grant (fst at2) ow (digest intent) (rq_capability q) (rq_workdir q) g)))"

section \<open>Lemmas\<close>

lemma and_do_fst [simp]: "fst (and_do m f) = and_then (fst m) (\<lambda>x. fst (f x))"
  by (cases m; cases "fst m") (auto simp: and_do_def split: prod.splits)

lemma and_do_snd: "snd (and_do m f) = snd m @ (case fst m of Inl _ \<Rightarrow> [] | Inr x \<Rightarrow> snd (f x))"
  by (cases m; cases "fst m") (auto simp: and_do_def split: prod.splits)

lemma and_do_event:
  "e \<in> set (snd (and_do m f)) \<longleftrightarrow> e \<in> set (snd m) \<or> (\<exists>x. fst m = Inr x \<and> e \<in> set (snd (f x)))"
  by (cases "fst m") (auto simp: and_do_snd)

lemma and_do_stop: "fst m = Inl e \<Longrightarrow> and_do m f = (Inl e, snd m)"
  by (cases m) (simp add: and_do_def)

lemma consume_answer_Inr: "consume_answer r = Inr st \<longleftrightarrow> (\<exists>q. r = Inr (R_request q) \<and> rq_status q = st)"
  by (cases r rule: consume_answer.cases) auto

lemma prepare_answer_Inr:
  "prepare_answer r = Inr (i, st) \<longleftrightarrow>
     r = Inr R_approved_session \<and> i = [] \<and> st = Approved_session \<or> (\<exists>q. r = Inr (R_request q) \<and> rq_id q = i \<and> rq_status q = st)"
  by (cases r rule: prepare_answer.cases) auto

lemma opened_grants: "set (grants (ledger (opened now q st))) \<subseteq> set (grants (ledger st))"
  by (auto simp: opened_def set_request_def read_state_def)

lemma consume_session:
  assumes "approvalConsume digest now ow i intent st = (Inr (R_request q), st')" and "rq_status q = Approved_session"
  shows "\<exists>q0. req st i = Some q0 \<and> owned_request ow q0 \<and> rq_digest q0 = digest intent \<and>
    (\<exists>g\<in>set (grants (ledger st)). live_grant now ow (digest intent) (rq_capability q0) (rq_workdir q0) g)"
  using assms(1) unfolding approvalConsume_def
proof (cases rule: owned_update_cases)
  case (ok q0 x)
  have same: "rq_digest (refreshed now q0) = rq_digest q0" "rq_capability (refreshed now q0) = rq_capability q0"
    "rq_workdir (refreshed now q0) = rq_workdir q0"
    using refreshed_identity [of q0 now] by (auto simp: same_identity_def)
  have "rq_digest q0 = digest intent"
    and "list_ex (live_grant now ow (rq_digest q0) (rq_capability q0) (rq_workdir q0)) (grants (ledger (opened now q0 st)))"
    using ok(3,4) assms(2) by (auto simp: Let_def same split: if_splits)
  then show ?thesis using ok(1,2) opened_grants [of now q0 st] by (auto simp: list_ex_iff)
qed simp

lemma prepare_id:
  assumes "bw_prepare w = Inr (i, st)" "approval_service digest ow intent fresh at1 at2 w" "st \<noteq> Approved_session"
  shows "i = fresh"
proof -
  obtain q where "fst (approvalPrepare digest (fst at1) fresh ow intent APPROVAL_EXPIRY_SECONDS (Some APPROVAL_UI_LEASE_SECONDS)
      (snd at1)) = Inr (R_request q)" "rq_id q = i"
    using assms by (auto simp: approval_service_def prepare_answer_Inr dest!: sym [of "Inr _" "prepare_answer _"])
  then show ?thesis
    by (auto simp: approvalPrepare_def withApprovals_def new_request_def Let_def split: if_splits sum.splits prod.splits)
qed

lemma session_grants:
  assumes "approval_service digest ow intent fresh at1 at2 w" "bw_prepare w = Inr (i, Approved_session)"
  shows "granted digest ow intent fresh at1 at2"
proof -
  let ?r = "approvalPrepare digest (fst at1) fresh ow intent APPROVAL_EXPIRY_SECONDS (Some APPROVAL_UI_LEASE_SECONDS) (snd at1)"
  have "prepare_answer (fst ?r) = Inr (i, Approved_session)" using assms by (simp add: approval_service_def)
  moreover have "fst ?r \<noteq> Inr (R_request q)" if "rq_status q = Approved_session" for q
    using that by (auto simp: approvalPrepare_def withApprovals_def new_request_def Let_def split: if_splits sum.splits prod.splits)
  ultimately have "fst ?r = Inr R_approved_session" by (auto simp: prepare_answer_Inr)
  then have "?r = (Inr R_approved_session, snd ?r)" by (metis prod.collapse)
  from prepare_approved_needs_grant [OF this] show ?thesis by (auto simp: granted_def)
qed

lemma consume_grants:
  assumes s: "approval_service digest ow intent fresh at1 at2 w" and p: "bw_prepare w = Inr (i, st0)" "st0 \<noteq> Approved_session"
    and c: "bw_consume w = Inr st" "st \<in> {Consumed, Approved_session}"
  shows "granted digest ow intent fresh at1 at2"
proof -
  let ?r = "approvalConsume digest (fst at2) ow fresh intent (snd at2)"
  have "consume_answer (fst ?r) = Inr st" using s p c(1) prepare_id [OF p(1) s p(2)] by (simp add: approval_service_def)
  then obtain q where q: "fst ?r = Inr (R_request q)" "rq_status q = st" by (auto simp: consume_answer_Inr)
  then have r: "?r = (Inr (R_request q), snd ?r)" by (metis prod.collapse)
  from q(2) c(2) consider "rq_status q = Consumed" | "rq_status q = Approved_session" by auto
  then show ?thesis
  proof cases
    case 1
    from consume_consumed [OF r this] show ?thesis by (auto simp: granted_def)
  next
    case 2
    from consume_session [OF r this] show ?thesis by (auto simp: granted_def)
  qed
qed

lemma await_approval_fst:
  "fst (await_approval cmd i intent w) = Inr () \<Longrightarrow> \<exists>st\<in>{Consumed, Approved_session}. bw_consume w = Inr st"
proof -
  let ?m = "and_do (abortableApprovalWait i w) (\<lambda>st. and_do (native_fallback cmd i w st) (\<lambda>_. consume_approval i intent w))"
  assume "fst (await_approval cmd i intent w) = Inr ()"
  then have "fst ?m = Inr ()" by (cases ?m; cases "fst ?m") (auto simp: await_approval_def)
  then show ?thesis by (auto simp: and_then_Inr_iff consume_approval_def split: if_splits)
qed

lemma approve_command_ok:
  assumes "fst (approve_command cap cmd p w) = Inr ()" and "bp_action p = Ask"
  shows "\<exists>i st. bw_prepare w = Inr (i, st) \<and>
    (st = Approved_session \<or> (\<exists>st\<in>{Consumed, Approved_session}. bw_consume w = Inr st))"
  using assms by (fastforce simp: approve_command_def and_then_Inr_iff dest: await_approval_fst split: if_splits)

lemma await_approval_events:
  "e \<in> set (snd (await_approval cmd i intent w)) \<Longrightarrow>
    e \<in> {Daemon (Do_cancelApproval i), Daemon (Do_waitForApproval i APPROVAL_EXPIRY_SECONDS), Prompt (js ''bash'') cmd,
      Daemon (Do_approveNativeApproval i), Daemon (Do_consumeApproval i intent)}"
proof -
  let ?m = "and_do (abortableApprovalWait i w) (\<lambda>st. and_do (native_fallback cmd i w st) (\<lambda>_. consume_approval i intent w))"
  assume "e \<in> set (snd (await_approval cmd i intent w))"
  then have "e = Daemon (Do_cancelApproval i) \<or> e \<in> set (snd ?m)" by (cases ?m; cases "fst ?m") (auto simp: await_approval_def)
  then show ?thesis
    by (auto simp: and_do_event abortableApprovalWait_def native_fallback_def consume_approval_def abortableAsk_def
        split: if_splits sum.splits)
qed

lemma approval_starts_nothing:
  "Daemon (Do_execStart opts) \<notin> set (snd (approve_command cap cmd p w))"
  "Daemon (Do_execStart opts) \<notin> set (snd (external_approval p w))"
  "Daemon (Do_execStart opts) \<notin> set (snd (abortableExec i t w))"
  by (auto simp: approve_command_def and_do_event external_approval_def abortableAsk_def abortableExec_def
      dest!: await_approval_events split: option.splits sum.splits if_splits)

lemma external_approval_ok:
  assumes "fst (external_approval p w) = Inr ()" "bp_externalPattern p = Some x" "x \<noteq> []" "bp_externalAction p \<noteq> Some Allow"
  shows "Prompt (js ''external_directory'') x \<in> set (snd (external_approval p w))"
  using assms by (auto simp: external_approval_def abortableAsk_def truthy_text_def split: sum.splits if_splits)

lemma bashArgv_ok: "bashArgv pf cs ex cmd = Inr (shell, argv) \<Longrightarrow> argv \<noteq> [] \<and> List.last argv = cmd \<and> ex shell"
  by (auto simp: bashArgv_def Let_def split: option.splits if_splits)

lemma bashTimeout_ok: "bashTimeout x = Inr t \<Longrightarrow> 1 \<le> t \<and> t \<le> MAX_EXEC_RUNTIME_SECONDS"
  by (auto simp: bashTimeout_def DEFAULT_TIMEOUT_MS_def MAX_EXEC_RUNTIME_SECONDS_def split: option.splits json.splits if_splits)

lemma run_starts:
  "Daemon (Do_execStart opts) \<in> set (snd (run_command ctx p shell argv t w)) \<longleftrightarrow> opts = bash_options ctx p shell argv t"
  by (auto simp: run_command_def and_do_event approval_starts_nothing)

lemma bash_execute_body:
  assumes "cmd \<noteq> []" "bw_policy w = Inr p" "ownerContext env (tc_sessionID ctx) (tc_directory ctx) = Inr ow"
  shows "bash_execute env ctx cmd timeout w = bash_body ctx (bashApprovalCapability env (tc_agent ctx)) cmd timeout w p"
  using assms by (simp add: bash_execute_def and_do_def)

lemma bash_started:
  assumes "Daemon (Do_execStart opts) \<in> set (snd (bash_execute env ctx cmd timeout w))"
  obtains p shell argv t where "bw_policy w = Inr p" "cmd \<noteq> []" "\<not> bw_start_aborted w"
    "fst (approve_command (bashApprovalCapability env (tc_agent ctx)) cmd p w) = Inr ()" "fst (external_approval p w) = Inr ()"
    "set (snd (external_approval p w)) \<subseteq> set (snd (bash_execute env ctx cmd timeout w))"
    "bashArgv (bw_platform w) (bw_comspec w) (bw_exists w) cmd = Inr (shell, argv)" "bashTimeout timeout = Inr t"
    "opts = bash_options ctx p shell argv t"
proof -
  from assms obtain p ow where p: "cmd \<noteq> []" "bw_policy w = Inr p" "ownerContext env (tc_sessionID ctx) (tc_directory ctx) = Inr ow"
    by (auto simp: bash_execute_def and_do_event split: if_splits sum.splits)
  note body = bash_execute_body [OF this]
  from assms obtain shell argv t where ok: "\<not> bw_start_aborted w"
    "fst (approve_command (bashApprovalCapability env (tc_agent ctx)) cmd p w) = Inr ()" "fst (external_approval p w) = Inr ()"
    "bashArgv (bw_platform w) (bw_comspec w) (bw_exists w) cmd = Inr (shell, argv)" "bashTimeout timeout = Inr t"
    "opts = bash_options ctx p shell argv t"
    unfolding body by (auto simp: bash_body_def and_do_event approval_starts_nothing run_starts split: if_splits)
  moreover have "set (snd (external_approval p w)) \<subseteq> set (snd (bash_execute env ctx cmd timeout w))"
    using ok(2) unfolding body by (auto simp: bash_body_def and_do_event)
  ultimately show ?thesis using that p by metis
qed

lemma await_settles:
  "(case fst (await_approval cmd i intent w) of
      Inl e \<Rightarrow> Daemon (Do_cancelApproval i) \<in> set (snd (await_approval cmd i intent w))
    | Inr _ \<Rightarrow> Daemon (Do_consumeApproval i intent) \<in> set (snd (await_approval cmd i intent w)))"
proof -
  let ?m = "and_do (abortableApprovalWait i w) (\<lambda>st. and_do (native_fallback cmd i w st) (\<lambda>_. consume_approval i intent w))"
  have "Daemon (Do_consumeApproval i intent) \<in> set (snd ?m)" if "fst ?m = Inr ()"
    using that by (auto simp: and_then_Inr_iff and_do_event consume_approval_def)
  then show ?thesis by (cases ?m; cases "fst ?m") (auto simp: await_approval_def)
qed

lemma approve_settles:
  assumes "bp_action p = Ask" "bw_prepare w = Inr (i, st)" "st \<noteq> Approved_session" and body: "bash_body ctx cap cmd timeout w p = (res, events)"
  shows "Daemon (Do_cancelApproval i) \<in> set events \<and> (\<exists>e. res = Inl e) \<and> (\<forall>opts. Daemon (Do_execStart opts) \<notin> set events) \<or>
    Daemon (Do_consumeApproval i (bash_intent cap cmd p)) \<in> set events \<and> bw_consume w \<in> {Inr Consumed, Inr Approved_session}"
proof -
  let ?a = "approve_command cap cmd p w"
  let ?aw = "await_approval cmd i (bash_intent cap cmd p) w"
  have a: "fst ?a = fst ?aw" "set (snd ?aw) \<subseteq> set (snd ?a)"
    using assms(1-3) by (auto simp: approve_command_def and_do_event)
  have sub: "set (snd ?a) \<subseteq> set events" using arg_cong [OF body, of snd] by (auto simp: bash_body_def and_do_event)
  show ?thesis
  proof (cases "fst ?a")
    case (Inl e)
    then have "bash_body ctx cap cmd timeout w p = (Inl e, snd ?a)"
      by (simp add: bash_body_def and_do_stop)
    then show ?thesis
      using Inl a sub await_settles [where cmd = cmd and i = i and intent = "bash_intent cap cmd p" and w = w] body approval_starts_nothing(1) by auto
  next
    case (Inr u)
    then show ?thesis
      using a sub await_settles [where cmd = cmd and i = i and intent = "bash_intent cap cmd p" and w = w] await_approval_fst [where cmd = cmd and i = i and intent = "bash_intent cap cmd p" and w = w] by auto
  qed
qed

lemma body_stops:
  assumes "bash_body ctx cap cmd timeout w p = (res, events)"
    and "Daemon (Do_execStart opts) \<in> set events" "bw_start w = Inr s" "bw_exec w = Inl e" "bw_exec_aborted w"
  shows "Daemon (Do_stop s) \<in> set events \<and> (\<exists>e'. res = Inl e')"
proof -
  have eqs: "events = snd (bash_body ctx cap cmd timeout w p)" "res = fst (bash_body ctx cap cmd timeout w p)"
    using assms(1) by simp_all
  have stop: "Daemon (Do_stop s) \<in> set (snd (run_command ctx p shell argv t w))"
    "\<exists>e'. fst (run_command ctx p shell argv t w) = Inl e'" for shell argv t
    using assms(3-5) by (auto simp: run_command_def and_do_event abortableExec_def)
  have "Daemon (Do_execStart opts) \<in> set (snd (bash_body ctx cap cmd timeout w p))" using assms(2) eqs by simp
  then show ?thesis
    unfolding eqs by (auto simp: bash_body_def and_do_event approval_starts_nothing stop split: if_splits)
qed

lemma body_result:
  "fst (bash_body ctx cap cmd timeout w p) = Inr out \<Longrightarrow> \<exists>r. bw_exec w = Inr r \<and> out = bash_text r \<and> terminalExecResult r"
  by (auto simp: bash_body_def run_command_def abortableExec_def and_then_Inr_iff split: if_splits sum.splits)

section \<open>Properties\<close>


text \<open>
  C33: a call of the shell leaves nothing open behind it. A request for approval it has prepared is
  consumed with a positive answer before the command starts, or the daemon is told to cancel it; a
  command whose wait the caller aborts is told to stop; and the call reports success only for a command
  the daemon has seen end with its termination confirmed.
\<close>

theorem bash_settles:
  assumes "cmd \<noteq> []" "bw_policy w = Inr p" "ownerContext env (tc_sessionID ctx) (tc_directory ctx) = Inr ow"
    and run: "bash_execute env ctx cmd timeout w = (res, events)"
  shows "(bp_action p = Ask \<and> bw_prepare w = Inr (i, st) \<and> st \<noteq> Approved_session \<longrightarrow>
      Daemon (Do_cancelApproval i) \<in> set events \<and> (\<exists>e. res = Inl e) \<and> (\<forall>opts. Daemon (Do_execStart opts) \<notin> set events) \<or>
      Daemon (Do_consumeApproval i (bash_intent (bashApprovalCapability env (tc_agent ctx)) cmd p)) \<in> set events \<and>
        bw_consume w \<in> {Inr Consumed, Inr Approved_session}) \<and>
    (Daemon (Do_execStart opts) \<in> set events \<and> bw_start w = Inr s \<and> bw_exec w = Inl e \<and> bw_exec_aborted w \<longrightarrow>
      Daemon (Do_stop s) \<in> set events \<and> (\<exists>e'. res = Inl e')) \<and>
    (\<forall>out. res = Inr out \<longrightarrow> (\<exists>r. bw_exec w = Inr r \<and> out = bash_text r \<and> er_terminationConfirmed r \<and>
      es_status (er_session r) \<in> {St_exited, St_timed_out, St_output_limited}))"
proof -
  let ?cap = "bashApprovalCapability env (tc_agent ctx)"
  have body: "bash_body ctx ?cap cmd timeout w p = (res, events)"
    using bash_execute_body [OF assms(1-3)] run by simp
  show ?thesis
  proof (intro conjI impI allI)
    assume ask: "bp_action p = Ask \<and> bw_prepare w = Inr (i, st) \<and> st \<noteq> Approved_session"
    show "Daemon (Do_cancelApproval i) \<in> set events \<and> (\<exists>e. res = Inl e) \<and> (\<forall>opts. Daemon (Do_execStart opts) \<notin> set events) \<or>
      Daemon (Do_consumeApproval i (bash_intent ?cap cmd p)) \<in> set events \<and> bw_consume w \<in> {Inr Consumed, Inr Approved_session}"
      using approve_settles [OF _ _ _ body] ask by auto
  next
    assume "Daemon (Do_execStart opts) \<in> set events \<and> bw_start w = Inr s \<and> bw_exec w = Inl e \<and> bw_exec_aborted w"
    then show "Daemon (Do_stop s) \<in> set events" "\<exists>e'. res = Inl e'"
      using body_stops [OF body] by auto
  next
    fix out assume "res = Inr out"
    then show "\<exists>r. bw_exec w = Inr r \<and> out = bash_text r \<and> er_terminationConfirmed r \<and>
      es_status (er_session r) \<in> {St_exited, St_timed_out, St_output_limited}"
      using body_result [of ctx ?cap cmd timeout w p out] body by (auto simp: terminalExecResult_def)
  qed
qed

subsection \<open>Instances\<close>

definition sample_bash_policy :: bash_policy where
  "sample_bash_policy = \<lparr> bp_action = Ask, bp_workdir = js ''/w'', bp_externalAction = None, bp_externalPattern = None \<rparr>"

definition sample_bash_context :: tool_context where
  "sample_bash_context = \<lparr> tc_sessionID = js ''ses_1'', tc_directory = js ''/w'', tc_agent = js ''build'' \<rparr>"

definition sample_bash_approvals :: "(int \<times> approval_state) \<times> (int \<times> approval_state)" where
  "sample_bash_approvals =
     ((0, \<lparr> ledger = \<lparr> requests = [], grants = [] \<rparr>, claimTokens = [] \<rparr>),
      (1, \<lparr> ledger = \<lparr> requests = [(new_request (js ''r1'') sample_owner it_command 0
          (bash_intent (bashApprovalCapability sample_client_env (js ''build'')) (js ''ls'') sample_bash_policy) 3600 (Some 5))
          \<lparr> rq_status := Approved_once \<rparr>], grants = [] \<rparr>, claimTokens = [] \<rparr>))"

definition sample_bash_world :: bash_world where
  "sample_bash_world =
     \<lparr> bw_policy = Inr sample_bash_policy, bw_prepare = Inr (js ''r1'', Pending), bw_wait_aborted = False,
       bw_wait = Inr Approved_once, bw_ask = \<lparr> av_aborted = False, av_available = True, av_answer = Inr (), av_aborted_after = False \<rparr>,
       bw_native = Inr (), bw_consume = Inr Consumed,
       bw_external = \<lparr> av_aborted = False, av_available = True, av_answer = Inr (), av_aborted_after = False \<rparr>,
       bw_start_aborted = False, bw_platform = Linux, bw_comspec = None, bw_exists = (\<lambda>_. True),
       bw_start = Inr (js ''pty_1''), bw_exec = Inl (js ''closed''), bw_exec_aborted = True, bw_last = Inl (js ''closed'') \<rparr>"

lemma sample_bash_service:
  "approval_service it_command sample_owner
     (bash_intent (bashApprovalCapability sample_client_env (js ''build'')) (js ''ls'') sample_bash_policy)
     (js ''r1'') (fst sample_bash_approvals) (snd sample_bash_approvals) sample_bash_world"
  unfolding approval_service_def sample_bash_approvals_def sample_bash_world_def
  by (simp add: approvalPrepare_def approvalConsume_def sample_bash_policy_def bash_intent_def
      sample_approval_simps drop_expired_grants_def APPROVAL_EXPIRY_SECONDS_def MAX_EXEC_RUNTIME_SECONDS_def
      APPROVAL_UI_LEASE_SECONDS_def del: js_simps)

lemma sample_bash_authorized: "authorizeBash sample_host (js ''/w'') (js ''ls'') None None = Inr sample_bash_policy"
  by (simp add: authorizeBash_def sample_host_def permissionConfig_def parseConfig_def parse_optional_def
      parsePermission_def parse_action_def parse_rule_def evaluate_def rule_sources_def rulesFor_def
      rule_matches_def wildcard_match_def normalize_def compile_pattern_def map_filter_simps truthy_text_def
      workdirAuthorization_def worktreeBoundary_def path_outside_def suffix_def Let_def sample_bash_policy_def)

lemma sample_bash_started:
  "Daemon (Do_execStart (bash_options sample_bash_context sample_bash_policy (js ''/bin/sh'') [js ''-lc'', js ''ls''] 120))
     \<in> set (snd (bash_execute sample_client_env sample_bash_context (js ''ls'') None sample_bash_world))"
proof -
  have o1: "ownerContext sample_client_env (js ''ses_1'') (js ''/w'') = Inr sample_client_owner"
    by (simp add: ownerContext_def sample_client_env_def sample_client_owner_def)
  have ls: "js ''ls'' \<noteq> []" "bw_policy sample_bash_world = Inr sample_bash_policy" by (simp_all add: sample_bash_world_def)
  have argv: "bashArgv Linux None (\<lambda>_. True) (js ''ls'') = Inr (js ''/bin/sh'', [js ''-lc'', js ''ls''])"
    by (simp add: bashArgv_def truthy_text_def)
  have body: "bash_execute sample_client_env sample_bash_context (js ''ls'') None sample_bash_world =
      bash_body sample_bash_context (bashApprovalCapability sample_client_env (js ''build'')) (js ''ls'') None sample_bash_world sample_bash_policy"
    using bash_execute_body [OF ls, of sample_client_env sample_bash_context _ None] o1 by (simp add: sample_bash_context_def del: js_simps)
  have ok: "fst (approve_command cap (js ''ls'') sample_bash_policy sample_bash_world) = Inr ()"
    "fst (external_approval sample_bash_policy sample_bash_world) = Inr ()" for cap
    by (simp_all add: sample_bash_world_def sample_bash_policy_def approve_command_def await_approval_def abortableApprovalWait_def
        native_fallback_def consume_approval_def and_do_def external_approval_def truthy_text_def del: js_simps)
  have t: "bashTimeout None = Inr 120" by (simp add: bashTimeout_def DEFAULT_TIMEOUT_MS_def)
  have w: "bw_platform sample_bash_world = Linux" "bw_comspec sample_bash_world = None" "bw_exists sample_bash_world = (\<lambda>_. True)"
    "\<not> bw_start_aborted sample_bash_world"
    by (simp_all add: sample_bash_world_def)
  show ?thesis unfolding body bash_body_def by (simp add: and_do_event ok argv t w run_starts del: js_simps)
qed


theorem bash_settles_witness:
  "Daemon (Do_stop (js ''pty_1'')) \<in> set (snd (bash_execute sample_client_env sample_bash_context (js ''ls'') None sample_bash_world))"
proof -
  have o1: "ownerContext sample_client_env (tc_sessionID sample_bash_context) (tc_directory sample_bash_context) = Inr sample_client_owner"
    by (simp add: ownerContext_def sample_client_env_def sample_client_owner_def sample_bash_context_def)
  have ls: "js ''ls'' \<noteq> []" "bw_policy sample_bash_world = Inr sample_bash_policy" by (simp_all add: sample_bash_world_def)
  show ?thesis
    using bash_settles [OF ls o1 prod.collapse [symmetric]] sample_bash_started
    by (simp add: sample_bash_world_def del: js_simps)
qed

end
