(* ===== verification/Worker_Stderr.thy ===== *)
theory Worker_Stderr
  imports Redaction
begin

text \<open>
  The standard error of a worker (daemon/worker-client.ts): the redaction of a stream that arrives in pieces,
  with the part that is held back, and the tail that is kept for diagnostics. The theorem is about every way
  to cut the stream.
\<close>

section \<open>Characters\<close>

text \<open>\<open>Array.from(s)\<close>: a surrogate pair is one character.\<close>

fun characters :: "js_string \<Rightarrow> js_string list" where
  "characters [] = []"
| "characters [u] = [[u]]"
| "characters (u # v # us) =
     (if high_surrogate u \<and> low_surrogate v then [u, v] # characters us else [u] # characters (v # us))"

definition WORKER_STDERR_TAIL_BYTES :: nat where "WORKER_STDERR_TAIL_BYTES = 4096"

abbreviation replacement_unit :: "16 word" where "replacement_unit \<equiv> 0xFFFD"

section \<open>Redaction of a stream\<close>

definition redact :: "js_string list \<Rightarrow> js_string \<Rightarrow> js_string" where
  "redact secrets txt = replace_secrets (\<lambda>k. length k < 4) secrets txt"

definition redactTail :: "js_string list \<Rightarrow> js_string \<Rightarrow> js_string" where
  "redactTail secrets tail =
     (if list_ex (\<lambda>k. 4 \<le> length tail \<and> length tail < length k \<and> prefix tail k) secrets then js ''[REDACTED]''
      else redact secrets tail)"

text \<open>How many characters are held back at least: \<open>Math.max(0, ...secrets.map((secret) => secret.length - 1))\<close>.\<close>

definition held_back :: "js_string list \<Rightarrow> nat" where
  "held_back secrets = foldr (\<lambda>k m. max (length k - 1) m) secrets 0"

definition matches_at :: "js_string list \<Rightarrow> nat \<Rightarrow> js_string list \<Rightarrow> bool" where
  "matches_at chars start secret =
     (let n = min (length chars - start) (length secret) in take n (drop start chars) = take n secret)"

definition split_stream :: "js_string list \<Rightarrow> js_string list \<Rightarrow> nat" where
  "split_stream secrets chars =
     (let initial = length chars - held_back secrets in
      foldl (\<lambda>split secret.
          foldl (\<lambda>split start.
              if start + length secret > split \<and> matches_at chars start secret then start else split)
            split [0..<initial])
        initial (map characters secrets))"

definition overlapsFullSecret :: "js_string list \<Rightarrow> nat \<Rightarrow> js_string list \<Rightarrow> bool" where
  "overlapsFullSecret chars start secret \<longleftrightarrow>
     length secret \<le> length chars \<and>
     list_ex (\<lambda>fullStart. fullStart \<le> start \<and> start < fullStart + length secret \<and>
         take (length secret) (drop fullStart chars) = secret)
       [0..<length chars - length secret + 1]"

definition split_end :: "js_string list \<Rightarrow> js_string list \<Rightarrow> nat" where
  "split_end secrets chars =
     foldl (\<lambda>split secret.
         foldl (\<lambda>split start.
             let suffixed = length chars - start;
                 partial = 4 \<le> suffixed \<and> suffixed < length secret \<and> drop start chars = take suffixed secret
             in if partial \<and> \<not> overlapsFullSecret chars start secret then min split start else split)
           split [0..<length chars])
       (length chars) (map characters secrets)"

text \<open>The text that is passed on, and the tail that is kept.\<close>

definition redactStream :: "js_string list \<Rightarrow> bool \<Rightarrow> js_string \<Rightarrow> js_string \<Rightarrow> js_string \<times> js_string" where
  "redactStream secrets finish tail d =
     (let chars = characters (tail @ d);
          split = (if finish then split_end secrets chars else split_stream secrets chars);
          safe = concat (take split chars);
          kept = concat (drop split chars)
      in (if finish then redact secrets safe @ redactTail secrets kept else redact secrets safe, kept))"

section \<open>The tail that is kept of the worker's standard error\<close>

text \<open>
  \<open>Buffer.from(text, 'utf8')\<close> encodes a lone surrogate as U+FFFD. The last bytes of the encoding may start
  inside a character; each byte left of it is decoded as U+FFFD.
\<close>

definition char_bytes :: "js_string \<Rightarrow> nat" where
  "char_bytes c = byteLength c"

definition encodable :: "js_string \<Rightarrow> js_string" where
  "encodable c = (case c of [u] \<Rightarrow> if high_surrogate u \<or> low_surrogate u then [replacement_unit] else [u] | _ \<Rightarrow> c)"

fun drop_bytes :: "nat \<Rightarrow> js_string list \<Rightarrow> js_string" where
  "drop_bytes n [] = []"
| "drop_bytes n (c # cs) =
     (if n = 0 then concat (c # cs)
      else if char_bytes c \<le> n then drop_bytes (n - char_bytes c) cs
      else replicate (char_bytes c - n) replacement_unit @ concat cs)"

definition retainWorkerStderrTail :: "js_string \<Rightarrow> js_string \<Rightarrow> js_string" where
  "retainWorkerStderrTail tail chunk =
     (let chars = map encodable (characters (tail @ chunk));
          size = sum_list (map char_bytes chars)
      in if size \<le> WORKER_STDERR_TAIL_BYTES then concat chars
         else drop_bytes (size - WORKER_STDERR_TAIL_BYTES) chars)"

text \<open>
  The tails that are reported for the decoded chunks of the stream; \<open>rest\<close> is what the decoder has left at
  the end of the stream. A stream that fails is one whose reports end early.
\<close>

fun captureWorkerStderr :: "js_string list \<Rightarrow> js_string \<Rightarrow> js_string \<Rightarrow> js_string list \<Rightarrow> js_string \<Rightarrow> js_string list" where
  "captureWorkerStderr secrets redactionTail tail [] rest =
     [retainWorkerStderrTail tail (fst (redactStream secrets True redactionTail rest))]"
| "captureWorkerStderr secrets redactionTail tail (d # ds) rest =
     (case redactStream secrets False redactionTail d of
        (redacted, redactionTail') \<Rightarrow>
          let tail' = retainWorkerStderrTail tail redacted
          in tail' # captureWorkerStderr secrets redactionTail' tail' ds rest)"

section \<open>Lemmas on characters\<close>

definition plain_unit :: "16 word \<Rightarrow> bool" where
  "plain_unit u \<longleftrightarrow> \<not> high_surrogate u \<and> \<not> low_surrogate u \<and> u \<noteq> replacement_unit"

abbreviation single :: "'a list \<Rightarrow> 'a list list" where "single k \<equiv> map (\<lambda>u. [u]) k"

lemma concat_characters [simp]: "concat (characters s) = s"
  by (induction s rule: characters.induct) auto

lemma characters_ne: "[] \<notin> set (characters s)"
  by (induction s rule: characters.induct) auto

lemma characters_plain_Cons: "plain_unit u \<Longrightarrow> characters (u # ys) = [u] # characters ys"
  by (cases ys) (auto simp: plain_unit_def)

lemma characters_plain: "plain_unit u \<Longrightarrow> characters (xs @ u # ys) = characters xs @ [u] # characters ys"
proof (induction xs rule: characters.induct)
  case 1
  then show ?case by (simp add: characters_plain_Cons)
next
  case (2 v)
  then have "characters (v # u # ys) = [v] # characters (u # ys)" by (simp add: plain_unit_def)
  with 2 show ?case by (simp add: characters_plain_Cons)
next
  case (3 v w us)
  then show ?case by auto
qed

lemma characters_middle:
  "k \<noteq> [] \<Longrightarrow> \<forall>u\<in>set k. plain_unit u \<Longrightarrow> characters (xs @ k @ ys) = characters xs @ single k @ characters ys"
proof (induction k arbitrary: xs)
  case (Cons u k)
  show ?case
  proof (cases "k = []")
    case True
    with Cons.prems show ?thesis by (simp add: characters_plain)
  next
    case False
    have "characters (xs @ (u # k) @ ys) = characters xs @ [u] # characters (k @ ys)"
      using characters_plain [of u xs "k @ ys"] Cons.prems by simp
    also have "characters (k @ ys) = single k @ characters ys" using Cons.IH [of "[]"] False Cons.prems by simp
    finally show ?thesis by simp
  qed
qed simp

lemma concat_take_inj:
  assumes "[] \<notin> set cs" "concat (take m cs) = concat (take n cs)" "m \<le> length cs" "n \<le> length cs"
  shows "m = n"
  using assms
proof (induction cs arbitrary: m n)
  case (Cons c cs)
  show ?case
  proof (cases m)
    case 0
    with Cons.prems show ?thesis by (cases n) auto
  next
    case (Suc i)
    with Cons.prems obtain j where "n = Suc j" by (cases n) auto
    with Suc Cons.prems Cons.IH [of i j] show ?thesis by simp
  qed
qed simp

lemma single_prefix: "prefix (single a) (single b) \<longleftrightarrow> prefix a b"
proof (induction a arbitrary: b)
  case (Cons u a)
  then show ?case by (cases b) auto
qed simp

section \<open>Where the stream is cut\<close>

lemma foldl_product:
  "foldl (\<lambda>s x. foldl (h x) s ys) s0 xs = foldl (\<lambda>s p. h (fst p) s (snd p)) s0 (List.product xs ys)"
  by (induction xs arbitrary: s0) (simp_all add: foldl_map)

lemma last_assigned:
  "foldl (\<lambda>s x. if m x \<and> pos x + len x > s then pos x else s) s0 xs = r \<Longrightarrow>
     r = s0 \<and> (\<forall>x\<in>set xs. m x \<longrightarrow> pos x + len x \<le> s0) \<or> (\<exists>x\<in>set xs. m x \<and> r = (pos x :: nat))"
  by (induction xs arbitrary: s0) (fastforce split: if_splits)+

lemma held_back_ge: "k \<in> set secrets \<Longrightarrow> length k - 1 \<le> held_back secrets"
  by (induction secrets) (auto simp: held_back_def max_def)

lemma length_characters: "length (characters s) \<le> length s"
  by (induction s rule: characters.induct) auto

lemma split_stream_cases:
  fixes chars secrets
  defines "initial \<equiv> length chars - held_back secrets"
  obtains (none) "split_stream secrets chars = initial"
      "\<And>k start. k \<in> set secrets \<Longrightarrow> start < initial \<Longrightarrow> matches_at chars start (characters k) \<Longrightarrow> start + length (characters k) \<le> initial"
  | (some) k where "k \<in> set secrets" "split_stream secrets chars < initial" "prefix (characters k) (drop (split_stream secrets chars) chars)"
proof -
  let ?xs = "List.product (map characters secrets) [0..<initial]"
  have "foldl (\<lambda>s x. if matches_at chars (snd x) (fst x) \<and> snd x + length (fst x) > s then snd x else s) initial ?xs =
      split_stream secrets chars"
    unfolding split_stream_def Let_def initial_def [symmetric] foldl_product by (simp add: conj_commute)
  from last_assigned [OF this] consider
      "split_stream secrets chars = initial" "\<forall>x\<in>set ?xs. matches_at chars (snd x) (fst x) \<longrightarrow> snd x + length (fst x) \<le> initial"
    | x where "x \<in> set ?xs" "matches_at chars (snd x) (fst x)" "split_stream secrets chars = snd x" by blast
  then show ?thesis
  proof cases
    case 1
    then show ?thesis by (intro none) fastforce+
  next
    case 2
    then obtain k where k: "k \<in> set secrets" "fst x = characters k" "snd x < initial" by auto
    have "length (characters k) \<le> length chars - snd x"
      using k(3) held_back_ge [OF k(1)] length_characters [of k] unfolding initial_def by linarith
    then have "take (length (characters k)) (drop (snd x) chars) = characters k"
      using 2(2) k(2) by (simp add: matches_at_def Let_def min_absorb2)
    then have "prefix (characters k) (drop (snd x) chars)" by (metis take_is_prefix)
    then show ?thesis using some k 2(3) by simp
  qed
qed

lemma last_minimum:
  "foldl (\<lambda>s x. if m x then min s (pos x) else s) s0 xs = r \<Longrightarrow> r = s0 \<or> (\<exists>x\<in>set xs. m x \<and> r = (pos x :: nat))"
  by (induction xs arbitrary: s0) (fastforce simp: min_def split: if_splits)+

lemma split_end_cases:
  obtains (none) "split_end secrets chars = length chars"
  | (some) k where "k \<in> set secrets" "split_end secrets chars < length chars" "prefix (drop (split_end secrets chars) chars) (characters k)"
proof -
  let ?xs = "List.product (map characters secrets) [0..<length chars]"
  let ?m = "\<lambda>x. (4 \<le> length chars - snd x \<and> length chars - snd x < length (fst x) \<and>
      drop (snd x) chars = take (length chars - snd x) (fst x)) \<and> \<not> overlapsFullSecret chars (snd x) (fst x)"
  have "foldl (\<lambda>s x. if ?m x then min s (snd x) else s) (length chars) ?xs = split_end secrets chars"
    unfolding split_end_def Let_def foldl_product by simp
  from last_minimum [OF this] consider "split_end secrets chars = length chars"
    | x where "x \<in> set ?xs" "?m x" "split_end secrets chars = snd x" by blast
  then show ?thesis
  proof cases
    case 2
    then obtain k where k: "k \<in> set secrets" "fst x = characters k" "snd x < length chars" by auto
    moreover have "prefix (drop (snd x) chars) (characters k)" using 2(2) k(2) take_is_prefix by metis
    ultimately show ?thesis using some 2(3) by simp
  qed (rule none)
qed

section \<open>Secrets that do not overlap\<close>

definition secret_ok :: "js_string \<Rightarrow> bool" where
  "secret_ok k \<longleftrightarrow> 4 \<le> length k \<and> bracket_free k \<and> list_all plain_unit k"

text \<open>No secret begins inside an occurrence of a secret, be it the same one or another.\<close>

definition separate :: "js_string list \<Rightarrow> bool" where
  "separate secrets \<longleftrightarrow>
     list_all (\<lambda>k. list_all (\<lambda>k'. list_all (\<lambda>d. \<not> prefix (drop d k) k' \<and> \<not> prefix k' (drop d k)) [1..<length k]) secrets) secrets"

lemma separateD:
  "separate secrets \<Longrightarrow> k \<in> set secrets \<Longrightarrow> k' \<in> set secrets \<Longrightarrow> 0 < d \<Longrightarrow> d < length k \<Longrightarrow>
    \<not> prefix (drop d k) k' \<and> \<not> prefix k' (drop d k)"
  by (auto simp: separate_def list_all_iff)

lemma characters_secret: "list_all plain_unit k \<Longrightarrow> characters k = single k"
proof (cases "k = []")
  case False
  assume "list_all plain_unit k"
  then show ?thesis using characters_middle [OF False, of "[]" "[]"] by (simp add: list_all_iff)
qed simp

text \<open>An occurrence of a secret in the characters of a text is never cut in two.\<close>

lemma cut_in_secret:
  assumes "separate secrets" "\<forall>k\<in>set secrets. list_all plain_unit k" "k \<in> set secrets" "k' \<in> set secrets"
    and occ: "chars = as @ single k @ bs" and r: "length as < r" "r < length as + length k"
    and cmp: "prefix (characters k') (drop r chars) \<or> prefix (drop r chars) (characters k')"
  shows False
proof -
  obtain d where d: "r = length as + d" "0 < d" "d < length k" using r by (intro that [of "r - length as"]) auto
  have dr: "drop r chars = single (drop d k) @ bs" using d unfolding occ by (simp add: drop_map)
  have k': "characters k' = single k'" using assms(2,4) characters_secret by blast
  have "prefix (single (drop d k)) (drop r chars)" by (simp add: dr)
  then have "prefix (single (drop d k)) (single k') \<or> prefix (single k') (single (drop d k))"
    using cmp prefix_order.trans prefix_same_cases unfolding k' by blast
  then show False using separateD [OF assms(1,3,4) d(2,3)] by (simp add: single_prefix)
qed

lemma cut_position:
  assumes "r \<le> length chars" "chars = as @ single k @ bs" "k = k1 @ k2" "concat (take r chars) = concat as @ k1" "[] \<notin> set chars"
  shows "r = length as + length k1"
proof -
  have "concat (take (length as + length k1) chars) = concat as @ k1" unfolding assms(2,3) by simp
  then have e: "concat (take r chars) = concat (take (length as + length k1) chars)" using assms(4) by simp
  have "length as + length k1 \<le> length chars" unfolding assms(2,3) by simp
  from concat_take_inj [OF assms(5) e assms(1) this] show ?thesis .
qed

lemma split_stream_le: "split_stream secrets chars \<le> length chars - held_back secrets"
  by (cases rule: split_stream_cases [of secrets chars]) simp_all

lemma split_end_le: "split_end secrets chars \<le> length chars"
  by (cases rule: split_end_cases [of secrets chars]) simp_all

definition good_secrets :: "js_string list \<Rightarrow> bool" where
  "good_secrets secrets \<longleftrightarrow> separate secrets \<and> list_all secret_ok secrets"

lemma good_secretsD:
  assumes "good_secrets secrets"
  shows "separate secrets" "\<forall>k\<in>set secrets. list_all plain_unit k" "k \<in> set secrets \<Longrightarrow> secret_ok k"
  using assms by (auto simp: good_secrets_def list_all_iff secret_ok_def)

lemma occurrence:
  assumes "secret_ok k" "k = k1 @ k2" "k1 \<noteq> []" "suffix k1 safe" "prefix k2 kept"
  obtains as bs where "characters (safe @ kept) = as @ single k @ bs" "safe = concat as @ k1"
proof -
  from assms obtain x y where xy: "safe = x @ k1" "kept = k2 @ y" by (auto simp: suffix_def prefix_def)
  have "k \<noteq> []" "\<forall>u\<in>set k. plain_unit u" using assms by (auto simp: secret_ok_def list_all_iff)
  then have "characters (x @ k @ y) = characters x @ single k @ characters y" by (rule characters_middle)
  then show ?thesis using that [of "characters x" "characters y"] xy assms(2) by simp
qed

lemma stream_span:
  assumes good: "good_secrets secrets" "k \<in> set secrets" and k: "k = k1 @ k2" "k1 \<noteq> []" "k2 \<noteq> []"
    and cut: "safe = concat (take (split_stream secrets chars) chars)" "kept = concat (drop (split_stream secrets chars) chars)"
      "chars = characters (safe @ kept)"
    and span: "suffix k1 safe" "prefix k2 (kept @ later)"
  shows False
proof -
  let ?r = "split_stream secrets chars"
  note ok = good_secretsD [OF good(1)]
  have ne: "[] \<notin> set chars" using cut(3) characters_ne by simp
  have r: "?r \<le> length chars" using split_stream_le [of secrets chars] by linarith
  consider "prefix k2 kept" | k3 where "k2 = kept @ k3" "k3 \<noteq> []"
    using span(2) by (cases "prefix k2 kept") (auto simp: prefix_append)
  then show False
  proof cases
    case 1
    obtain as bs where o1: "chars = as @ single k @ bs" "safe = concat as @ k1"
      using occurrence [OF ok(3) [OF good(2)] k(1,2) span(1) 1] cut(3) by metis
    have pos: "?r = length as + length k1" using cut_position [OF r o1(1) k(1) _ ne] cut(1) o1(2) by simp
    then have inside: "length as < ?r" "?r < length as + length k" using k by auto
    show False
    proof (cases rule: split_stream_cases [of secrets chars])
      case none
      have "matches_at chars (length as) (characters k)"
        using o1(1) characters_secret ok(2) good(2) by (simp add: matches_at_def Let_def)
      moreover have "length as < length chars - held_back secrets" using inside(1) none(1) by simp
      ultimately have "length as + length (characters k) \<le> ?r" using none good(2) by metis
      then show False using inside(2) characters_secret ok(2) good(2) by simp
    next
      case (some k')
      then show False using cut_in_secret [OF ok(1,2) good(2) _ o1(1) inside] by blast
    qed
  next
    case 2
    have kk: "k = (k1 @ kept) @ k3" using k(1) 2(1) by simp
    obtain x where x: "safe = x @ k1" using span(1) by (auto simp: suffix_def)
    have plain: "\<forall>u\<in>set (k1 @ kept). plain_unit u" using ok(2) good(2) kk by (auto simp: list_all_iff)
    have o1: "chars = characters x @ single (k1 @ kept) @ []"
      using characters_middle [OF _ plain, of x "[]"] k(2) x cut(3) by simp
    have "?r = length (characters x) + length k1" using cut_position [OF r o1 refl _ ne] cut(1) x by simp
    moreover have "?r \<le> length chars - held_back secrets" by (rule split_stream_le)
    moreover have "length k1 + length kept \<le> held_back secrets"
      using held_back_ge [OF good(2)] kk 2(2) by (cases k3) auto
    moreover have "length chars = length (characters x) + length k1 + length kept" by (simp add: o1)
    ultimately show False using k(2) by (cases k1) auto
  qed
qed

lemma end_span:
  assumes good: "good_secrets secrets" "k \<in> set secrets" and k: "k = k1 @ k2" "k1 \<noteq> []" "k2 \<noteq> []"
    and cut: "safe = concat (take (split_end secrets chars) chars)" "kept = concat (drop (split_end secrets chars) chars)"
      "chars = characters (safe @ kept)"
    and span: "suffix k1 safe" "prefix k2 kept"
  shows False
proof -
  let ?r = "split_end secrets chars"
  note ok = good_secretsD [OF good(1)]
  have ne: "[] \<notin> set chars" using cut(3) characters_ne by simp
  obtain as bs where o1: "chars = as @ single k @ bs" "safe = concat as @ k1"
    using occurrence [OF ok(3) [OF good(2)] k(1,2) span] cut(3) by metis
  have pos: "?r = length as + length k1" using cut_position [OF split_end_le o1(1) k(1) _ ne] cut(1) o1(2) by simp
  then have inside: "length as < ?r" "?r < length as + length k" using k by auto
  show False
  proof (cases rule: split_end_cases [of secrets chars])
    case none
    then show False using inside(2) o1(1) by simp
  next
    case (some k')
    then show False using cut_in_secret [OF ok(1,2) good(2) _ o1(1) inside] by blast
  qed
qed

section \<open>The redacted stream\<close>

fun redacted_stream :: "js_string list \<Rightarrow> js_string \<Rightarrow> js_string list \<Rightarrow> js_string \<Rightarrow> js_string" where
  "redacted_stream secrets tail [] rest = fst (redactStream secrets True tail rest)"
| "redacted_stream secrets tail (d # ds) rest =
     fst (redactStream secrets False tail d) @ redacted_stream secrets (snd (redactStream secrets False tail d)) ds rest"

lemma redactStream_parts:
  obtains safe kept chars where "tail @ d = safe @ kept" "chars = characters (safe @ kept)"
    "redactStream secrets finish tail d = (if finish then redact secrets safe @ redactTail secrets kept else redact secrets safe, kept)"
    "safe = concat (take (if finish then split_end secrets chars else split_stream secrets chars) chars)"
    "kept = concat (drop (if finish then split_end secrets chars else split_stream secrets chars) chars)"
proof -
  let ?c = "characters (tail @ d)"
  let ?r = "if finish then split_end secrets ?c else split_stream secrets ?c"
  have e: "tail @ d = concat (take ?r ?c) @ concat (drop ?r ?c)"
    by (metis append_take_drop_id concat_append concat_characters)
  have c: "?c = characters (concat (take ?r ?c) @ concat (drop ?r ?c))" using arg_cong [OF e, of characters] .
  show ?thesis by (rule that [OF e c _ refl refl]) (simp add: redactStream_def Let_def)
qed

lemma redact_clean: "bracket_free k \<Longrightarrow> k \<in> set secrets \<Longrightarrow> 4 \<le> length k \<Longrightarrow> \<not> sublist k (redact secrets t)"
  unfolding redact_def using replace_secrets_sublist [of k "\<lambda>k. length k < 4" secrets t] by auto

lemma redactTail_clean: "bracket_free k \<Longrightarrow> k \<in> set secrets \<Longrightarrow> 4 \<le> length k \<Longrightarrow> \<not> sublist k (redactTail secrets t)"
  using replacement_gap [of k "[]"] bracket_free_ne [of k] redact_clean
  by (auto simp: redactTail_def simp del: js_simps)

lemma redact_ends:
  "prefix p (redact secrets t) \<Longrightarrow> 91 \<notin> set p \<Longrightarrow> prefix p t"
  "suffix p (redact secrets t) \<Longrightarrow> 93 \<notin> set p \<Longrightarrow> suffix p t"
  unfolding redact_def using replace_secrets_prefix [of "\<lambda>k. length k < 4"] replace_secrets_suffix [of "\<lambda>k. length k < 4"] by auto

lemma redact_unchanged: "93 \<notin> set (redact secrets t) \<Longrightarrow> redact secrets t = t"
  unfolding redact_def by (rule replace_secrets_clean) simp_all

lemma redactTail_prefix: "prefix p (redactTail secrets t) \<Longrightarrow> 91 \<notin> set p \<Longrightarrow> prefix p t"
  by (cases p) (auto simp: redactTail_def dest: redact_ends(1) split: if_splits)

text \<open>A text without brackets at the start of a redacted text is at the start of the text.\<close>

lemma redacted_prefix:
  assumes "prefix p (redact secrets safe @ out)" "91 \<notin> set p" "93 \<notin> set p" "\<And>q. prefix q out \<Longrightarrow> 91 \<notin> set q \<Longrightarrow> 93 \<notin> set q \<Longrightarrow> prefix q orig"
  shows "prefix p (safe @ orig)"
proof -
  consider "prefix p (redact secrets safe)" | q where "p = redact secrets safe @ q" "prefix q out"
    using assms(1) by (auto simp: prefix_append)
  then show ?thesis
  proof cases
    case 1
    then show ?thesis using redact_ends(1) assms(2) prefix_prefix by blast
  next
    case 2
    then have "redact secrets safe = safe" using redact_unchanged assms(3) by simp
    then show ?thesis using 2 assms(2,3) assms(4) [of q] by simp
  qed
qed

lemma redacted_span:
  assumes k: "secret_ok k" "k \<in> set secrets" and out: "\<not> sublist k out" "\<And>q. prefix q out \<Longrightarrow> 91 \<notin> set q \<Longrightarrow> 93 \<notin> set q \<Longrightarrow> prefix q orig"
    and span: "\<And>k1 k2. k = k1 @ k2 \<Longrightarrow> k1 \<noteq> [] \<Longrightarrow> k2 \<noteq> [] \<Longrightarrow> suffix k1 safe \<Longrightarrow> prefix k2 orig \<Longrightarrow> False"
  shows "\<not> sublist k (redact secrets safe @ out)"
proof
  assume "sublist k (redact secrets safe @ out)"
  moreover have "\<not> sublist k (redact secrets safe)" using redact_clean k by (simp add: secret_ok_def)
  ultimately obtain k1 k2 where e: "k = k1 @ k2" and ends: "suffix k1 (redact secrets safe)" "prefix k2 out"
    using out(1) unfolding sublist_append by blast
  have br: "91 \<notin> set k" "93 \<notin> set k" using k(1) by (simp_all add: secret_ok_def bracket_free_def)
  have "suffix k1 safe" using redact_ends(2) [OF ends(1)] br e by simp
  moreover have "prefix k2 orig" using out(2) [OF ends(2)] br e by simp
  moreover have "k1 \<noteq> []" using e ends(2) out(1) prefix_imp_sublist by auto
  moreover have "k2 \<noteq> []"
  proof
    assume "k2 = []"
    then have "sublist k (redact secrets safe)" using e ends(1) suffix_imp_sublist by simp
    then show False using \<open>\<not> sublist k (redact secrets safe)\<close> by simp
  qed
  ultimately show False using span e by blast
qed

lemma redacted_stream_safe:
  assumes good: "good_secrets secrets" and k: "k \<in> set secrets"
  shows "\<not> sublist k (redacted_stream secrets tail ds rest) \<and>
    (\<forall>p. prefix p (redacted_stream secrets tail ds rest) \<longrightarrow> 91 \<notin> set p \<longrightarrow> 93 \<notin> set p \<longrightarrow> prefix p (tail @ concat ds @ rest))"
proof (induction ds arbitrary: tail)
  case Nil
  obtain safe kept chars where parts: "tail @ rest = safe @ kept" "chars = characters (safe @ kept)"
    "redactStream secrets True tail rest = (redact secrets safe @ redactTail secrets kept, kept)"
    "safe = concat (take (split_end secrets chars) chars)" "kept = concat (drop (split_end secrets chars) chars)"
    using redactStream_parts [of tail rest secrets True] unfolding if_True .
  have ok: "secret_ok k" using good_secretsD(3) [OF good] k by blast
  then have "\<not> sublist k (redactTail secrets kept)" using redactTail_clean k by (simp add: secret_ok_def)
  then have "\<not> sublist k (redact secrets safe @ redactTail secrets kept)"
    by (rule redacted_span [OF ok k _ redactTail_prefix end_span [OF good k _ _ _ parts(4,5,2)]])
  then show ?case
    using parts(3) redacted_prefix [where out = "redactTail secrets kept" and orig = kept] redactTail_prefix parts(1) by simp
next
  case (Cons d ds)
  obtain safe kept chars where parts: "tail @ d = safe @ kept" "chars = characters (safe @ kept)"
    "redactStream secrets False tail d = (redact secrets safe, kept)"
    "safe = concat (take (split_stream secrets chars) chars)" "kept = concat (drop (split_stream secrets chars) chars)"
    using redactStream_parts [of tail d secrets False] unfolding if_False .
  let ?out = "redacted_stream secrets kept ds rest"
  have ok: "secret_ok k" using good_secretsD(3) [OF good] k by blast
  have out: "\<not> sublist k ?out" "\<And>q. prefix q ?out \<Longrightarrow> 91 \<notin> set q \<Longrightarrow> 93 \<notin> set q \<Longrightarrow> prefix q (kept @ concat ds @ rest)"
    using Cons.IH by blast+
  have "\<not> sublist k (redact secrets safe @ ?out)"
    by (rule redacted_span [OF ok k out stream_span [OF good k _ _ _ parts(4,5,2)]])
  moreover have "prefix p (tail @ concat (d # ds) @ rest)"
    if "prefix p (redact secrets safe @ ?out)" "91 \<notin> set p" "93 \<notin> set p" for p
  proof -
    have "tail @ concat (d # ds) @ rest = safe @ kept @ concat ds @ rest" using arg_cong [OF parts(1), of "\<lambda>x. x @ concat ds @ rest"] by simp
    then show ?thesis using redacted_prefix [OF that out(2)] by metis
  qed
  ultimately show ?case using parts(3) by simp
qed

section \<open>What is shown of it\<close>

definition masks :: "16 word \<Rightarrow> 16 word \<Rightarrow> bool" where
  "masks a b \<longleftrightarrow> a = b \<or> a = replacement_unit"

text \<open>\<open>shown\<close> is an end of the text with some units replaced by U+FFFD, and further ones in front of it.\<close>

definition masked :: "js_string \<Rightarrow> js_string \<Rightarrow> bool" where
  "masked shown t \<longleftrightarrow> (\<exists>m y x. shown = replicate m replacement_unit @ y \<and> suffix x t \<and> list_all2 masks y x)"

lemma masks_refl: "list_all2 masks t t"
  by (simp add: list.rel_refl masks_def)

lemma masks_trans: "list_all2 masks a b \<Longrightarrow> list_all2 masks b c \<Longrightarrow> list_all2 masks a c"
  by (rule list_all2_trans [of masks masks masks]) (auto simp: masks_def)

lemma masked_append: "masked shown t \<Longrightarrow> masked (shown @ u) (t @ u)"
proof -
  assume "masked shown t"
  then obtain m y x where "shown = replicate m replacement_unit @ y" "suffix x t" "list_all2 masks y x"
    unfolding masked_def by blast
  then show ?thesis
    unfolding masked_def
    by (intro exI [of _ m] exI [of _ "y @ u"] exI [of _ "x @ u"]) (auto simp: masks_refl suffix_def intro: list_all2_appendI)
qed

lemma masked_more: "masked shown t \<Longrightarrow> list_all2 masks shown' shown \<Longrightarrow> masked shown' t"
proof -
  assume "masked shown t" and s: "list_all2 masks shown' shown"
  then obtain m y x where p: "shown = replicate m replacement_unit @ y" "suffix x t" "list_all2 masks y x"
    unfolding masked_def by blast
  from s p(1) obtain r y' where r: "shown' = r @ y'" "list_all2 masks r (replicate m replacement_unit)" "list_all2 masks y' y"
    by (auto simp: list_all2_append2)
  have "r = replicate m replacement_unit" using r(2) by (auto simp: list_all2_conv_all_nth masks_def intro!: nth_equalityI)
  then show ?thesis unfolding masked_def using r p masks_trans by blast
qed

lemma masked_suffix: "masked shown t \<Longrightarrow> suffix z shown \<Longrightarrow> masked (replicate j replacement_unit @ z) t"
proof -
  assume "masked shown t" and z: "suffix z shown"
  then obtain m y x where p: "shown = replicate m replacement_unit @ y" "suffix x t" "list_all2 masks y x"
    unfolding masked_def by blast
  from z p(1) consider "suffix z y" | w where "z = w @ y" "suffix w (replicate m replacement_unit)" by (auto simp: suffix_append)
  then show ?thesis
  proof cases
    case 1
    then obtain a where a: "y = a @ z" by (auto simp: suffix_def)
    then obtain x1 x2 where x: "x = x1 @ x2" "list_all2 masks z x2" using p(3) by (auto simp: list_all2_append1)
    then have "suffix x2 t" using p(2) by (auto simp: suffix_def)
    then show ?thesis unfolding masked_def using x(2) by blast
  next
    case 2
    obtain a where "replicate m replacement_unit = a @ w" using 2(2) by (auto simp: suffix_def)
    then have "w = replicate (length w) replacement_unit" by (metis append_replicate_commute length_append length_replicate drop_replicate append_eq_conv_conj add_diff_cancel_left')
    then have "replicate j replacement_unit @ z = replicate (j + length w) replacement_unit @ y" using 2(1) by (metis append.assoc replicate_add)
    then show ?thesis unfolding masked_def using p by blast
  qed
qed

lemma masked_sublist:
  assumes "masked shown t" "sublist k shown" "list_all plain_unit k" "k \<noteq> []"
  shows "sublist k t"
proof -
  obtain m y x where p: "shown = replicate m replacement_unit @ y" "suffix x t" "list_all2 masks y x"
    using assms(1) unfolding masked_def by blast
  have no: "replacement_unit \<notin> set k" using assms(3) by (auto simp: list_all_iff plain_unit_def)
  have "sublist k y"
  proof -
    have inside: "set w \<subseteq> {replacement_unit}" if "sublist w (replicate m replacement_unit)" for w
      using set_mono_sublist [OF that] by auto
    consider "sublist k (replicate m replacement_unit)" | "sublist k y" | k1 k2 where "k = k1 @ k2" "suffix k1 (replicate m replacement_unit)" "prefix k2 y"
      using assms(2) unfolding p(1) sublist_append by blast
    then show ?thesis
    proof cases
      case 1
      with inside [OF 1] no assms(4) show ?thesis by (cases k) auto
    next
      case 3
      then have "k1 = []" using inside [OF suffix_imp_sublist [OF 3(2)]] no by (cases k1) auto
      then show ?thesis using 3 prefix_imp_sublist by simp
    qed
  qed
  then obtain a b where "y = a @ k @ b" by (auto simp: sublist_def)
  then obtain a' k' b' where x: "x = a' @ k' @ b'" "list_all2 masks k k'" using p(3) by (auto simp: list_all2_append1)
  have "k' = k" using x(2) no by (auto simp: list_all2_conv_all_nth masks_def intro!: nth_equalityI) (metis nth_mem)
  then have "sublist k x" using x(1) by (auto simp: sublist_def)
  then show ?thesis using suffix_imp_sublist [OF p(2)] sublist_order.order.trans by blast
qed

lemma masks_encodable: "list_all2 masks (encodable c) c"
  by (auto simp: encodable_def masks_def list.rel_refl masks_refl [unfolded masks_def] split: list.splits)

lemma masks_encoded: "list_all2 masks (concat (map encodable cs)) (concat cs)"
  by (induction cs) (simp_all add: list_all2_appendI masks_encodable)

lemma drop_bytes_suffix: "\<exists>j z. drop_bytes n cs = replicate j replacement_unit @ z \<and> suffix z (concat cs)"
proof (induction n cs rule: drop_bytes.induct)
  case (2 n c cs)
  consider "n = 0" | "n \<noteq> 0" "char_bytes c \<le> n" | "n \<noteq> 0" "\<not> char_bytes c \<le> n" by blast
  then show ?case
  proof cases
    case 1
    then show ?thesis by (intro exI [of _ 0] exI [of _ "concat (c # cs)"]) simp
  next
    case 2
    with "2.IH" obtain j z where "drop_bytes (n - char_bytes c) cs = replicate j replacement_unit @ z" "suffix z (concat cs)" by blast
    with 2 show ?thesis by (intro exI [of _ j] exI [of _ z]) (simp add: suffix_append)
  next
    case 3
    then show ?thesis by (intro exI [of _ "char_bytes c - n"] exI [of _ "concat cs"]) (simp add: suffix_append)
  qed
qed (auto intro: exI [of _ 0])

lemma retain_masked: "masked tail t \<Longrightarrow> masked (retainWorkerStderrTail tail out) (t @ out)"
proof -
  assume "masked tail t"
  let ?cs = "map encodable (characters (tail @ out))"
  have m: "masked (concat ?cs) (t @ out)"
    using masked_more [OF masked_append [OF \<open>masked tail t\<close>, of out]] masks_encoded [of "characters (tail @ out)"] by simp
  obtain j z where z: "drop_bytes (sum_list (map char_bytes ?cs) - WORKER_STDERR_TAIL_BYTES) ?cs = replicate j replacement_unit @ z"
    "suffix z (concat ?cs)"
    using drop_bytes_suffix by blast
  then show ?thesis using m masked_suffix [OF m z(2), of j] by (simp add: retainWorkerStderrTail_def Let_def)
qed

lemma char_units: "length c \<le> char_bytes c"
  unfolding char_bytes_def by (induction c rule: byteLength.induct) (auto simp: unit_bytes_def)

lemma concat_units: "length (concat cs) \<le> sum_list (map char_bytes cs)"
  by (induction cs) (auto simp: char_units intro: add_mono)

lemma drop_bytes_length: "n \<le> sum_list (map char_bytes cs) \<Longrightarrow> length (drop_bytes n cs) \<le> sum_list (map char_bytes cs) - n"
proof (induction n cs rule: drop_bytes.induct)
  case (2 n c cs)
  then show ?case
    using concat_units [of cs] char_units [of c] by (cases "n = 0"; cases "char_bytes c \<le> n") (auto simp: add.commute)
qed simp

lemma retain_length: "length (retainWorkerStderrTail tail out) \<le> WORKER_STDERR_TAIL_BYTES"
  using concat_units [of "map encodable (characters (tail @ out))"]
    drop_bytes_length [of "sum_list (map char_bytes (map encodable (characters (tail @ out)))) - WORKER_STDERR_TAIL_BYTES"
      "map encodable (characters (tail @ out))"]
  unfolding retainWorkerStderrTail_def Let_def by (simp split: if_splits) linarith

lemma captured_masked:
  "masked tail t \<Longrightarrow> shown \<in> set (captureWorkerStderr secrets rt tail ds rest) \<Longrightarrow>
    \<exists>p. prefix p (t @ redacted_stream secrets rt ds rest) \<and> masked shown p \<and> length shown \<le> WORKER_STDERR_TAIL_BYTES"
proof (induction ds arbitrary: rt tail t)
  case Nil
  then show ?case using retain_masked retain_length by auto
next
  case (Cons d ds)
  let ?o = "fst (redactStream secrets False rt d)" and ?rt = "snd (redactStream secrets False rt d)"
  have m: "masked (retainWorkerStderrTail tail ?o) (t @ ?o)" using retain_masked Cons.prems(1) by blast
  from Cons.prems(2) consider "shown = retainWorkerStderrTail tail ?o"
    | "shown \<in> set (captureWorkerStderr secrets ?rt (retainWorkerStderrTail tail ?o) ds rest)"
    by (cases "redactStream secrets False rt d") (auto simp: Let_def)
  then show ?case
  proof cases
    case 1
    then show ?thesis using m retain_length by (intro exI [of _ "t @ ?o"]) simp
  next
    case 2
    then show ?thesis using Cons.IH [OF m 2] by simp
  qed
qed

section \<open>Properties\<close>

text \<open>
  C23: what the daemon shows of the standard error of a worker reveals no secret, in whatever pieces the
  output arrives: no tail that is reported contains one of the secrets, as long as the secrets have at
  least four characters of the basic plane, cannot be read out of the replacement text and do not overlap
  each other or themselves. A tail has at most 4096 code units.
\<close>

theorem worker_stderr_redacted:
  assumes "good_secrets secrets" "shown \<in> set (captureWorkerStderr secrets [] [] chunks rest)" "k \<in> set secrets"
  shows "\<not> sublist k shown \<and> length shown \<le> 4096"
proof -
  have "masked [] []" by (auto simp: masked_def)
  from captured_masked [OF this assms(2)] obtain p where p: "prefix p (redacted_stream secrets [] chunks rest)" "masked shown p"
    "length shown \<le> 4096"
    by (auto simp: WORKER_STDERR_TAIL_BYTES_def)
  have ok: "secret_ok k" using good_secretsD(3) [OF assms(1)] assms(3) by blast
  have "\<not> sublist k p"
    using redacted_stream_safe [OF assms(1,3), of "[]" chunks rest] p(1) prefix_imp_sublist sublist_order.order.trans by blast
  then show ?thesis using masked_sublist [OF p(2)] ok p(3) by (auto simp: secret_ok_def)
qed

theorem worker_stderr_redacted_witness:
  "list_all (\<lambda>shown. \<not> sublist (js ''0123456789'') shown)
     (captureWorkerStderr [js ''0123456789''] [] [] [js ''token 01234'', js ''56789 seen''] [])"
proof -
  have "good_secrets [js ''0123456789'']"
    by (simp add: good_secrets_def separate_def secret_ok_def bracket_free_long plain_unit_def high_surrogate_def low_surrogate_def upt_rec)
  from worker_stderr_redacted [OF this] show ?thesis unfolding list_all_iff by (intro ballI) (meson list.set_intros(1))
qed

text \<open>
  A secret that overlaps itself can be shown in full: while the stream is split, a later match moves the
  split forward again, so a repeated secret is passed on piece by piece.
\<close>

theorem overlapping_secret_leaks:
  "\<exists>shown \<in> set (captureWorkerStderr [js ''aaaa''] [] [] [js ''aaaa'', js ''a'', js ''a'', js ''a'', js ''a''] []).
     sublist (js ''aaaa'') shown"
proof -
  let ?k = "js ''aaaa''" and ?a = "js ''a''"
  have c: "high_surrogate 97 = False" "low_surrogate 97 = False" by (simp_all add: high_surrogate_def low_surrogate_def)
  have upto: "[0..<2] = [0, 1::nat]" by (simp add: upt_rec)
  have m: "matches_at [[97], [97], [97], [97], [97]] 0 [[97], [97], [97], [97]]"
    "matches_at [[97], [97], [97], [97], [97]] (Suc 0) [[97], [97], [97], [97]]" by (simp_all add: matches_at_def Let_def)
  have s4: "split_stream [?k] (characters ?k) = 0" by (simp add: split_stream_def held_back_def c matches_at_def)
  have s5: "split_stream [?k] (characters (?k @ ?a)) = 1"
    by (simp add: split_stream_def held_back_def c upto m)
  have 1: "redactStream [?k] False [] ?k = ([], ?k)"
    unfolding redactStream_def Let_def if_False append_Nil s4 by (simp add: redact_def c)
  have 2: "redactStream [?k] False ?k ?a = (?a, ?k)"
    unfolding redactStream_def Let_def if_False s5 by (simp add: redact_def c replace_secret.simps(3))
  have 3: "retainWorkerStderrTail x ?a = x @ ?a" if "x \<in> {[], [97], [97, 97], [97, 97, 97]}" for x
    using that by (auto simp: retainWorkerStderrTail_def Let_def c encodable_def char_bytes_def unit_bytes_def WORKER_STDERR_TAIL_BYTES_def)
  have 4: "retainWorkerStderrTail [] [] = []" by (simp add: retainWorkerStderrTail_def WORKER_STDERR_TAIL_BYTES_def)
  have "js ''aaaa'' \<in> set (captureWorkerStderr [?k] [] [] [?k, ?a, ?a, ?a, ?a] [])"
    using 3 [of "[]"] 3 [of "[97]"] 3 [of "[97, 97]"] 3 [of "[97, 97, 97]"]
    unfolding captureWorkerStderr.simps 1 2 Let_def prod.case 4 by simp
  then show ?thesis by blast
qed

end
