(* ===== verification/Worker_Client.thy ===== *)
theory Worker_Client
  imports Worker_Stderr Supervisor_Sessions
begin

text \<open>
  The side of the daemon in the talk with its workers (daemon/worker-client.ts, shared/native-worker-targets.ts):
  which binary is run, descriptors and references, the receipts a worker leaves, preparing, starting, rolling
  back, reconnecting, shutting down and terminating an orphan. Answers and outcomes are arguments; SHA-256 and
  JSON text are parameters. The results are the outcomes the supervisor takes as its arguments.
\<close>

section \<open>Worker packages\<close>

definition NATIVE_WORKER_TARGETS :: "(string \<times> string \<times> string) list" where
  "NATIVE_WORKER_TARGETS =
     [(''linux-x64-gnu'', ''linux'', ''x64''), (''linux-arm64-gnu'', ''linux'', ''arm64''), (''win32-x64'', ''win32'', ''x64''),
      (''win32-arm64'', ''win32'', ''arm64''), (''darwin-arm64'', ''darwin'', ''arm64''), (''darwin-x64'', ''darwin'', ''x64'')]"

definition nativeWorkerTarget :: "string \<Rightarrow> string \<Rightarrow> string option" where
  "nativeWorkerTarget platform architecture =
     map_option fst (find (\<lambda>(_, os, cpu). os = platform \<and> cpu = architecture) NATIVE_WORKER_TARGETS)"

definition nativeWorkerPackageName :: "string \<Rightarrow> string" where
  "nativeWorkerPackageName target = ''@eudritch/opencode-pty-worker-'' @ target"

definition nativeWorkerBinaryName :: "string \<Rightarrow> string" where
  "nativeWorkerBinaryName platform = ''opencode-pty-worker'' @ (if platform = ''win32'' then ''.exe'' else '''')"

text \<open>\<open>ldd\<close> is what \<open>ldd --version\<close> writes, in lower case.\<close>

definition linuxWorkerPackage :: "string \<Rightarrow> string \<Rightarrow> (string, string) result" where
  "linuxWorkerPackage ldd target =
     (if sublist ''musl'' ldd
      then Inl (''native_worker_unavailable: '' @ target @ '' worker requires glibc; Alpine/musl is unsupported.'')
      else if \<not> sublist ''glibc'' ldd \<and> \<not> sublist ''gnu libc'' ldd
      then Inl ''native_worker_unavailable: could not verify a glibc Linux runtime.''
      else Inr (nativeWorkerPackageName target))"

text \<open>
  The environment of the search: the two variables, platform and architecture, the working directory's
  manifest, and what the two resolvers find, the plugin's own first.
\<close>

record command_env =
  ce_path :: "string option"
  ce_dev :: "string option"
  ce_platform :: string
  ce_arch :: string
  ce_manifest :: string
  ce_ldd :: string
  ce_own :: "string \<Rightarrow> string option"
  ce_project :: "string \<Rightarrow> string option"

definition workerCommand :: "command_env \<Rightarrow> (string, string list) result" where
  "workerCommand ce =
     (case ce_path ce of
        Some (c # path) \<Rightarrow>
          if ce_dev ce \<noteq> Some ''1''
          then Inl ''native_worker_unavailable: PTY_NATIVE_WORKER_PATH is development-only.'' else Inr [c # path]
      | _ \<Rightarrow>
          if ce_dev ce = Some ''1''
          then Inr [''cargo'', ''run'', ''--quiet'', ''--manifest-path'', ce_manifest ce, ''--'']
          else
            let unavailable = Inl (''native_worker_unavailable: install the matching optional worker package for '' @
                  ce_platform ce @ ''-'' @ ce_arch ce @ ''.'')
            in case nativeWorkerTarget (ce_platform ce) (ce_arch ce) of
                 None \<Rightarrow> unavailable
               | Some target \<Rightarrow>
                   and_then (if ce_platform ce = ''linux'' then linuxWorkerPackage (ce_ldd ce) target
                             else Inr (nativeWorkerPackageName target)) (\<lambda>package.
                     let binary = package @ ''/bin/'' @ nativeWorkerBinaryName (ce_platform ce)
                     in case or_else (ce_own ce binary) (ce_project ce binary) of
                          Some path \<Rightarrow> Inr [path]
                        | None \<Rightarrow> unavailable))"

section \<open>Descriptors and references\<close>

definition MAX_READY_FRAME_BYTES :: nat where "MAX_READY_FRAME_BYTES = 1024 * 1024"

record WorkerDescriptor =
  de_pid :: nat
  de_startIdentity :: js_string
  de_processIdentity :: js_string
  de_endpoint :: js_string
  de_token :: js_string

text \<open>\<open>WorkerClient.read\<close> with the validation of the descriptor, whose version is then the daemon's; \<open>None\<close> when it throws.\<close>

definition validWorkerDescriptor :: "json \<Rightarrow> WorkerDescriptor option" where
  "validWorkerDescriptor v =
     (case (json_get v (js ''pid''), json_get v (js ''startIdentity''), json_get v (js ''processIdentity''),
            json_get v (js ''endpoint''), json_get v (js ''token''), json_get v (js ''protocolVersion'')) of
        (Some (JNum p), Some (JStr s), Some (JStr q), Some (JStr e), Some (JStr t), Some (JNum n)) \<Rightarrow>
          if isSafeInteger p \<and> p > 0 \<and> 16 \<le> length t \<and> n = int NATIVE_WORKER_PROTOCOL_VERSION
          then Some \<lparr> de_pid = nat p, de_startIdentity = s, de_processIdentity = q, de_endpoint = e, de_token = t \<rparr> else None
      | _ \<Rightarrow> None)"

definition read_worker :: "json option \<Rightarrow> WorkerDescriptor option" where
  "read_worker file = (case file of None \<Rightarrow> None | Some v \<Rightarrow> validWorkerDescriptor v)"

definition workerReference :: "(js_string \<Rightarrow> js_string) \<Rightarrow> WorkerDescriptor \<Rightarrow> js_string option \<Rightarrow> WorkerReference" where
  "workerReference sha d executable =
     \<lparr> wk_pid = de_pid d, wk_startIdentity = de_startIdentity d, wk_processIdentity = de_processIdentity d,
       wk_endpoint = de_endpoint d, wk_tokenFingerprint = Some (sha (de_token d)),
       wk_protocolVersion = NATIVE_WORKER_PROTOCOL_VERSION, wk_executable = truthy_text executable \<rparr>"

definition descriptorMatchesReference :: "(js_string \<Rightarrow> js_string) \<Rightarrow> WorkerDescriptor \<Rightarrow> WorkerReference \<Rightarrow> bool" where
  "descriptorMatchesReference sha d w \<longleftrightarrow>
     wk_protocolVersion w = NATIVE_WORKER_PROTOCOL_VERSION \<and>
     (case wk_tokenFingerprint w of None \<Rightarrow> False | Some f \<Rightarrow>
       hex_digest f \<and> de_pid d = wk_pid w \<and> de_startIdentity d = wk_startIdentity w \<and>
       de_processIdentity d = wk_processIdentity w \<and> de_endpoint d = wk_endpoint w \<and> sha (de_token d) = f)"

section \<open>Receipts\<close>

text \<open>\<open>Object.keys(value)\<close> are exactly these fields; an array or a primitive has none of them.\<close>

definition exactly_fields :: "string list \<Rightarrow> json \<Rightarrow> bool" where
  "exactly_fields names v \<longleftrightarrow>
     (case v of
        JObj m \<Rightarrow> length m = length names \<and> list_all (\<lambda>f. map_of m (js f) \<noteq> None) names
      | _ \<Rightarrow> False)"

definition prestart_fields :: "string list" where
  "prestart_fields = [''receiptVersion'', ''kind'', ''workerId'', ''workerPid'', ''workerProcessIdentity'', ''workerEndpoint'',
     ''workerProtocolVersion'', ''workerControlToken'']"

definition failure_fields :: "string list" where
  "failure_fields = [''workerId'', ''workerPid'', ''workerProcessIdentity'', ''workerControlToken'', ''directChildStarted'',
     ''directChildPid'', ''terminationConfirmed'', ''message'']"

fun authority_worker :: "receipt_authority \<Rightarrow> js_string" where
  "authority_worker (By_worker w) = wk_startIdentity w"
| "authority_worker (By_prestart a) = pa_workerId a"

fun authority_fingerprint :: "receipt_authority \<Rightarrow> js_string option" where
  "authority_fingerprint (By_worker w) = wk_tokenFingerprint w"
| "authority_fingerprint (By_prestart a) = Some (pa_tokenFingerprint a)"

fun authority_version :: "receipt_authority \<Rightarrow> nat" where
  "authority_version (By_worker w) = wk_protocolVersion w"
| "authority_version (By_prestart a) = pa_protocolVersion a"

definition token_matches :: "(js_string \<Rightarrow> js_string) \<Rightarrow> json option \<Rightarrow> js_string option \<Rightarrow> bool" where
  "token_matches sha token fingerprint =
     (case (token, fingerprint) of (Some (JStr t), Some f) \<Rightarrow> sha t = f | _ \<Rightarrow> False)"

definition verifiedPrestartNoChildReceipt :: "(js_string \<Rightarrow> js_string) \<Rightarrow> json \<Rightarrow> receipt_authority \<Rightarrow> bool" where
  "verifiedPrestartNoChildReceipt sha v a \<longleftrightarrow>
     exactly_fields prestart_fields v \<and>
     json_get v (js ''receiptVersion'') = Some (JNum 1) \<and>
     json_get v (js ''kind'') = Some (JStr (js ''prestart_no_child'')) \<and>
     json_get v (js ''workerId'') = Some (JStr (authority_worker a)) \<and>
     json_get v (js ''workerProtocolVersion'') = Some (JNum (int NATIVE_WORKER_PROTOCOL_VERSION)) \<and>
     authority_version a = NATIVE_WORKER_PROTOCOL_VERSION \<and>
     (case authority_fingerprint a of None \<Rightarrow> False | Some f \<Rightarrow> hex_digest f) \<and>
     token_matches sha (json_get v (js ''workerControlToken'')) (authority_fingerprint a) \<and>
     (case a of
        By_prestart _ \<Rightarrow> True
      | By_worker w \<Rightarrow>
          json_get v (js ''workerPid'') = Some (JNum (int (wk_pid w))) \<and>
          json_get v (js ''workerProcessIdentity'') = Some (JStr (wk_processIdentity w)) \<and>
          json_get v (js ''workerEndpoint'') = Some (JStr (wk_endpoint w)))"

definition hasVerifiedPrestartNoChildReceipt :: "(js_string \<Rightarrow> js_string) \<Rightarrow> json option \<Rightarrow> receipt_authority \<Rightarrow> bool" where
  "hasVerifiedPrestartNoChildReceipt sha file a =
     (case file of None \<Rightarrow> False | Some v \<Rightarrow> verifiedPrestartNoChildReceipt sha v a)"

definition hasVerifiedNoChildSpawnFailureReceipt ::
  "(js_string \<Rightarrow> js_string) \<Rightarrow> json option \<Rightarrow> json option \<Rightarrow> WorkerReference \<Rightarrow> bool" where
  "hasVerifiedNoChildSpawnFailureReceipt sha file receipt w =
     (wk_protocolVersion w = NATIVE_WORKER_PROTOCOL_VERSION \<and>
      (case (read_worker file, receipt) of
         (Some d, Some v) \<Rightarrow>
           descriptorMatchesReference sha d w \<and> exactly_fields failure_fields v \<and>
           json_get v (js ''workerId'') = Some (JStr (wk_startIdentity w)) \<and>
           json_get v (js ''workerPid'') = Some (JNum (int (wk_pid w))) \<and>
           json_get v (js ''workerProcessIdentity'') = Some (JStr (wk_processIdentity w)) \<and>
           token_matches sha (json_get v (js ''workerControlToken'')) (wk_tokenFingerprint w) \<and>
           json_get v (js ''directChildStarted'') = Some (JBool False) \<and>
           json_get v (js ''directChildPid'') = Some JNull \<and>
           json_get v (js ''terminationConfirmed'') = Some (JBool True) \<and>
           (case json_get v (js ''message'') of Some (JStr _) \<Rightarrow> True | _ \<Rightarrow> False)
       | _ \<Rightarrow> False))"

text \<open>
  The receipt of a failed spawn, as the daemon that started the worker reads it: it knows the token itself.
  \<open>identity\<close> is \<open>None\<close> for \<open>null\<close>.
\<close>

definition spawn_failure_receipt :: "js_string \<Rightarrow> nat \<Rightarrow> js_string option \<Rightarrow> js_string \<Rightarrow> json option \<Rightarrow> SpawnCleanup option" where
  "spawn_failure_receipt workerId p identity token receipt =
     (case receipt of
        None \<Rightarrow> None
      | Some v \<Rightarrow>
          if exactly_fields failure_fields v \<and>
             json_get v (js ''workerId'') = Some (JStr workerId) \<and>
             json_get v (js ''workerPid'') = Some (JNum (int p)) \<and>
             json_get v (js ''workerProcessIdentity'') = Some (case identity of None \<Rightarrow> JNull | Some x \<Rightarrow> JStr x) \<and>
             json_get v (js ''workerControlToken'') = Some (JStr token)
          then (case (json_get v (js ''directChildStarted''), json_get v (js ''directChildPid''),
                      json_get v (js ''terminationConfirmed''), json_get v (js ''message'')) of
                  (Some (JBool True), Some (JNum c), Some (JBool confirmed), Some (JStr message)) \<Rightarrow>
                    if isSafeInteger c \<and> c > 0
                    then Some \<lparr> sc_requested = True, sc_terminationConfirmed = confirmed, sc_method = M_rollback,
                           sc_directChildStarted = Some True, sc_directChildPid = Some (nat c), sc_message = Some message \<rparr>
                    else None
                | (Some (JBool False), Some JNull, Some (JBool confirmed), Some (JStr message)) \<Rightarrow>
                    Some \<lparr> sc_requested = False, sc_terminationConfirmed = confirmed, sc_method = M_none,
                           sc_directChildStarted = Some False, sc_directChildPid = None, sc_message = Some message \<rparr>
                | _ \<Rightarrow> None)
          else None)"

section \<open>The worker process\<close>

text \<open>The identity of a fresh worker is not looked up on macOS, where the handle of the child is relied on.\<close>

definition worker_identity :: "platform \<Rightarrow> js_string option \<Rightarrow> js_string option" where
  "worker_identity pf found = (if pf = Darwin then None else found)"

text \<open>\<open>in_time\<close>: the child's exit was seen within two seconds; \<open>current\<close>: the identity found under its process id.\<close>

definition exited :: "bool \<Rightarrow> js_string option \<Rightarrow> js_string option \<Rightarrow> bool" where
  "exited in_time identity current \<longleftrightarrow>
     in_time \<or> (truthy_text identity \<noteq> None \<and> current \<noteq> None \<and> current \<noteq> identity)"

text \<open>A message on the control pipe: the length of the payload in four bytes, the high byte first.\<close>

definition frame :: "8 word list \<Rightarrow> 8 word list" where
  "frame payload =
     (let n = length payload in [of_nat (n div 2 ^ 24), of_nat (n div 2 ^ 16), of_nat (n div 2 ^ 8), of_nat n] @ payload)"

definition ready_record :: "json option \<Rightarrow> bool" where
  "ready_record v = (case v of Some (JObj m) \<Rightarrow> length m = 1 \<and> map_of m (js ''ready'') = Some (JBool True) | _ \<Rightarrow> False)"

text \<open>
  Waiting for the ready line. Each turn has the time that remains and what is read, \<open>None\<close> for the end of
  the stream or of the time; the answer has the bytes that are kept for later.
\<close>

fun readReady :: "(8 word list \<Rightarrow> json option) \<Rightarrow> 8 word list \<Rightarrow> (int \<times> 8 word list option) list \<Rightarrow> (bool \<times> 8 word list) option" where
  "readReady parse buffered turns =
     (if length buffered > MAX_READY_FRAME_BYTES then Some (False, [])
      else if 10 \<in> set buffered
      then let line = takeWhile (\<lambda>b. b \<noteq> 10) buffered in Some (ready_record (parse line), drop (length line + 1) buffered)
      else case turns of
        [] \<Rightarrow> None
      | (remaining, next) # turns' \<Rightarrow>
          if remaining \<le> 0 then Some (False, [])
          else case next of None \<Rightarrow> Some (False, []) | Some v \<Rightarrow> readReady parse (buffered @ v) turns')"

section \<open>Rolling back\<close>

definition rollback_marker :: "js_string \<Rightarrow> js_string" where
  "rollback_marker token = [34] @ js ''rollback'' @ [34] @ js '':true,'' @ [34] @ js ''token'' @ [34, 58, 34] @ token @ [34]"

text \<open>The first match of the expression for a process id in the output.\<close>

fun find_pid :: "js_string \<Rightarrow> nat option" where
  "find_pid [] = None"
| "find_pid (u # us) =
     (let key = [34] @ js ''pid'' @ [34, 58]; rest = drop (length key) (u # us) in
      if prefix key (u # us) \<and> rest \<noteq> [] \<and> is_digit (hd rest)
      then Some (digits_value (takeWhile is_digit rest)) else find_pid us)"

fun rollback_scan :: "js_string \<Rightarrow> js_string \<Rightarrow> js_string list \<Rightarrow> js_string option" where
  "rollback_scan token out [] = None"
| "rollback_scan token out (c # cs) =
     (if sublist (rollback_marker token) (out @ c) then Some (out @ c) else rollback_scan token (out @ c) cs)"

text \<open>What a rollback meets: the failure of the control frame, the output until the end or the deadline, the receipt file.\<close>

record rollback_world =
  rb_control :: "js_string option"
  rb_output :: "js_string list"
  rb_receipt :: "json option"

definition valid_pid :: "nat option \<Rightarrow> nat option" where
  "valid_pid n = (case n of Some k \<Rightarrow> if isSafeInteger (int k) \<and> k > 0 then Some k else None | None \<Rightarrow> None)"

text \<open>\<open>token\<close> is the control token of an owned worker, \<open>None\<close> for a worker that was reconnected.\<close>

definition worker_rollback ::
  "(js_string \<Rightarrow> js_string) \<Rightarrow> js_string option \<Rightarrow> WorkerDescriptor \<Rightarrow> rollback_world \<Rightarrow> SpawnCleanup" where
  "worker_rollback sha token d rb =
     (case token of
        None \<Rightarrow> no_cleanup\<lparr> sc_message := Some (js ''Worker rollback channel is not owned by this daemon.'') \<rparr>
      | Some t \<Rightarrow>
          (case rollback_scan t [] (rb_output rb) of
             Some out \<Rightarrow>
               let p = valid_pid (find_pid out) in
               no_cleanup\<lparr> sc_requested := True, sc_terminationConfirmed := (p \<noteq> None), sc_method := M_rollback, sc_directChildPid := p \<rparr>
           | None \<Rightarrow>
               if hasVerifiedPrestartNoChildReceipt sha (rb_receipt rb) (By_worker (workerReference sha d None))
               then nothing_spawned\<lparr> sc_message := Some (js ''Worker confirmed that no start frame created a child.'') \<rparr>
               else no_cleanup\<lparr> sc_requested := True, sc_method := M_rollback,
                 sc_message := Some (case truthy_text (rb_control rb) of
                   Some e \<Rightarrow> js ''Worker rollback control failed: '' @ e
                 | None \<Rightarrow> js ''Worker exited without an authenticated direct-child rollback receipt.'') \<rparr>))"

section \<open>Preparing a worker\<close>

definition validateBootstrapSecrets :: "(js_string \<times> js_string) list \<Rightarrow> js_string list \<Rightarrow> (js_string, unit) result" where
  "validateBootstrapSecrets env secrets =
     (case find (\<lambda>(k, v). SENSITIVE_ENVIRONMENT_KEY k \<and> byteLength v > MAX_REDACTION_SECRET_BYTES) env of
        Some (k, _) \<Rightarrow> Inl (js ''Sensitive environment value for '' @ [39] @ k @ [39] @ js '' exceeds '' @
                        decimal MAX_REDACTION_SECRET_BYTES @ js '' UTF-8 bytes.'')
      | None \<Rightarrow>
          if list_ex (\<lambda>v. byteLength v > MAX_REDACTION_SECRET_BYTES) secrets
          then Inl (js ''Sensitive environment value exceeds '' @ decimal MAX_REDACTION_SECRET_BYTES @ js '' UTF-8 bytes.'')
          else Inr ())"

text \<open>What the clean-up of a worker that did not become ready meets.\<close>

record prepare_cleanup_world =
  pc_receipt :: "json option"
  pc_descriptor :: "json option"
  pc_end_ok :: bool
  pc_exited :: bool
  pc_current :: "js_string option"
  pc_kill :: "(js_string, unit) result"
  pc_exited_after_kill :: bool
  pc_current_after_kill :: "js_string option"

text \<open>\<open>descriptor\<close> describes the child that was started for this worker.\<close>

definition descriptor_verified :: "js_string \<Rightarrow> js_string \<Rightarrow> nat \<Rightarrow> js_string option \<Rightarrow> WorkerDescriptor \<Rightarrow> bool" where
  "descriptor_verified workerId token child identity d \<longleftrightarrow>
     de_pid d = child \<and> de_token d = token \<and> de_startIdentity d = workerId \<and>
     (identity = None \<or> identity = Some (de_processIdentity d))"

definition prepare_cleanup :: "js_string \<Rightarrow> js_string \<Rightarrow> nat \<Rightarrow> js_string option \<Rightarrow> prepare_cleanup_world \<Rightarrow> SpawnCleanup" where
  "prepare_cleanup workerId token child identity pc =
     (case spawn_failure_receipt workerId child identity token (pc_receipt pc) of
        Some c \<Rightarrow> c
      | None \<Rightarrow>
          if (case read_worker (pc_descriptor pc) of None \<Rightarrow> False | Some d \<Rightarrow> descriptor_verified workerId token child identity d) \<and> pc_end_ok pc
          then no_cleanup\<lparr> sc_requested := True, sc_terminationConfirmed := exited (pc_exited pc) identity (pc_current pc), sc_method := M_rollback \<rparr>
          else if truthy_text identity = None
          then no_cleanup\<lparr> sc_requested := True, sc_method := M_rollback,
                 sc_terminationConfirmed := (pc_exited pc \<or> pc_exited_after_kill pc),
                 sc_message := Some (js ''Worker identity could not be verified; bootstrap was closed before command start.'' @
                   (case pc_kill pc of
                      Inl e \<Rightarrow> if \<not> pc_exited pc \<and> e \<noteq> [] then js '' Kill failed: '' @ e else []
                    | Inr _ \<Rightarrow> [])) \<rparr>
          else case pc_kill pc of
            Inl e \<Rightarrow> no_cleanup\<lparr> sc_message := Some e \<rparr>
          | Inr _ \<Rightarrow> no_cleanup\<lparr> sc_requested := True, sc_method := M_kill,
              sc_terminationConfirmed := exited (pc_exited_after_kill pc) identity (pc_current_after_kill pc) \<rparr>)"

record prepare_world =
  pw_env :: "(js_string \<times> js_string) list"
  pw_secrets :: "js_string list"
  pw_payload :: nat
  pw_command :: "(string, string list) result"
  pw_workerId :: js_string
  pw_token :: js_string
  pw_spawn :: "(js_string, nat) result"
  pw_stderr_stream :: bool
  pw_identity :: "js_string option"
  pw_stdin :: bool
  pw_write :: "(js_string, unit) result"
  pw_stdout :: bool
  pw_ready :: bool
  pw_files :: "json option list"
  pw_read_error :: js_string
  pw_stderr :: js_string
  pw_cleanup :: prepare_cleanup_world

definition unavailable :: "string \<Rightarrow> js_string" where
  "unavailable m = js ''native_worker_unavailable: '' @ js m"

text \<open>The descriptor after the ready line is read once, without one it is looked for up to forty times.\<close>

definition find_descriptor :: "json option list \<Rightarrow> WorkerDescriptor option" where
  "find_descriptor fs = (case find (\<lambda>d. d \<noteq> None) (map read_worker (take 40 fs)) of None \<Rightarrow> None | Some d \<Rightarrow> d)"

text \<open>
  Between the start of the process and the ready worker: the reference, or the error together with the
  reference of an authenticated worker that was not ready.
\<close>

definition await_ready ::
  "(js_string \<Rightarrow> js_string) \<Rightarrow> platform \<Rightarrow> nat \<Rightarrow> js_string option \<Rightarrow> js_string option \<Rightarrow> prepare_world \<Rightarrow>
   (js_string \<times> WorkerReference option, WorkerReference) result" where
  "await_ready sha pf child identity executable pw =
     (if truthy_text identity = None \<and> pf \<noteq> Darwin then Inl (unavailable ''worker identity verification failed.'', None)
      else if \<not> pw_stdin pw then Inl (unavailable ''worker input unavailable.'', None)
      else case pw_write pw of
        Inl e \<Rightarrow> Inl (e, None)
      | Inr _ \<Rightarrow>
          if \<not> pw_stdout pw then Inl (unavailable ''worker output unavailable.'', None)
          else let verified = descriptor_verified (pw_workerId pw) (pw_token pw) child identity;
                   failed = (unavailable ''worker descriptor verification failed.'', None)
            in if pw_ready pw
               then (case (case pw_files pw of [] \<Rightarrow> None | f # _ \<Rightarrow> read_worker f) of
                       None \<Rightarrow> Inl (pw_read_error pw, None)
                     | Some d \<Rightarrow> if verified d then Inr (workerReference sha d executable) else Inl failed)
               else (case find_descriptor (pw_files pw) of
                       None \<Rightarrow> Inl (unavailable ''worker descriptor is unavailable.'', None)
                     | Some d \<Rightarrow> if verified d
                         then Inl (unavailable ''worker did not become ready.'', Some (workerReference sha d executable)) else Inl failed))"

definition prestart_authority :: "(js_string \<Rightarrow> js_string) \<Rightarrow> prepare_world \<Rightarrow> WorkerPrestartAuthority" where
  "prestart_authority sha pw =
     \<lparr> pa_workerId = pw_workerId pw, pa_tokenFingerprint = sha (pw_token pw), pa_protocolVersion = NATIVE_WORKER_PROTOCOL_VERSION \<rparr>"

text \<open>The message of the error; \<open>stringify\<close> is \<open>JSON.stringify\<close> of the outcome.\<close>

definition start_failure_message :: "(SpawnCleanup \<Rightarrow> js_string) \<Rightarrow> js_string \<Rightarrow> SpawnCleanup \<Rightarrow> js_string \<Rightarrow> js_string" where
  "start_failure_message stringify e c stderr =
     e @ js ''; cleanup='' @ stringify c @ (if js_trim stderr = [] then [] else js ''; worker_stderr='' @ js_trim stderr)"

definition prepare ::
  "(js_string \<Rightarrow> js_string) \<Rightarrow> (SpawnCleanup \<Rightarrow> js_string) \<Rightarrow> platform \<Rightarrow> prepare_world \<Rightarrow> prepare_outcome" where
  "prepare sha stringify pf pw =
     (let no_worker = (\<lambda>m. Start_error m nothing_spawned None True); a = prestart_authority sha pw in
      case validateBootstrapSecrets (pw_env pw) (pw_secrets pw) of
        Inl e \<Rightarrow> Prepare_refused (Start_plain e)
      | Inr _ \<Rightarrow>
          if pw_payload pw > 1024 * 1024 then Prepare_refused (no_worker (unavailable ''bootstrap too large.''))
          else case pw_command pw of
            Inl e \<Rightarrow> Prepare_refused (no_worker (js e))
          | Inr cmd \<Rightarrow>
              (case pw_spawn pw of
                 Inl e \<Rightarrow> Prepare_failed a (no_worker e)
               | Inr child \<Rightarrow>
                   if \<not> pw_stderr_stream pw
                   then Prepare_failed a (no_worker (unavailable ''worker stderr could not be captured.''))
                   else let identity = worker_identity pf (pw_identity pw) in
                     case await_ready sha pf child identity (case cmd of [] \<Rightarrow> None | c # _ \<Rightarrow> Some (js c)) pw of
                       Inr w \<Rightarrow> Prepare_ready a w
                     | Inl (e, ref) \<Rightarrow>
                         let c = prepare_cleanup (pw_workerId pw) (pw_token pw) child identity (pw_cleanup pw)
                         in Prepare_failed a (Start_error (start_failure_message stringify e c (pw_stderr pw)) c ref False)))"

section \<open>Starting and reaching a worker\<close>

type_synonym worker_health = "int \<times> int \<times> js_string"

definition health_matches :: "nat \<Rightarrow> nat \<Rightarrow> js_string \<Rightarrow> worker_health \<Rightarrow> bool" where
  "health_matches v p identity h \<longleftrightarrow> h = (int v, int p, identity)"

definition reconnect :: "(js_string \<Rightarrow> js_string) \<Rightarrow> json option \<Rightarrow> worker_health option \<Rightarrow> WorkerReference \<Rightarrow> WorkerDescriptor option" where
  "reconnect sha file health w =
     (if wk_protocolVersion w \<noteq> NATIVE_WORKER_PROTOCOL_VERSION then None
      else case read_worker file of
        None \<Rightarrow> None
      | Some d \<Rightarrow>
          if de_pid d \<noteq> wk_pid w \<or> de_startIdentity d \<noteq> wk_startIdentity w \<or> de_processIdentity d \<noteq> wk_processIdentity w \<or>
             de_endpoint d \<noteq> wk_endpoint w \<or> truthy_text (wk_tokenFingerprint w) \<noteq> Some (sha (de_token d))
          then None
          else case health of
            None \<Rightarrow> None
          | Some h \<Rightarrow> if health_matches NATIVE_WORKER_PROTOCOL_VERSION (wk_pid w) (wk_processIdentity w) h then Some d else None)"

text \<open>
  What a start meets: the control frame, the health, the snapshots of up to fifty attempts, the receipt of a
  failed spawn before and after the rollback.
\<close>

record start_run =
  sr_control :: "(js_string, unit) result"
  sr_health :: "(js_string, worker_health) result"
  sr_snapshots :: "WorkerSnapshot option list"
  sr_receipt :: "json option"
  sr_rollback :: rollback_world
  sr_later_receipts :: "json option list"

definition first_some :: "'a option list \<Rightarrow> 'a option" where
  "first_some xs = (case find (\<lambda>x. x \<noteq> None) xs of None \<Rightarrow> None | Some x \<Rightarrow> x)"

definition spawnFailureCleanup :: "js_string \<Rightarrow> WorkerDescriptor \<Rightarrow> json option \<Rightarrow> SpawnCleanup option" where
  "spawnFailureCleanup token d receipt =
     spawn_failure_receipt (de_startIdentity d) (de_pid d) (Some (de_processIdentity d)) token receipt"

definition worker_start ::
  "(js_string \<Rightarrow> js_string) \<Rightarrow> (SpawnCleanup \<Rightarrow> js_string) \<Rightarrow> js_string \<Rightarrow> WorkerDescriptor \<Rightarrow> start_run \<Rightarrow>
   (start_error, WorkerSnapshot) result" where
  "worker_start sha stringify token d sr =
     (case and_then (sr_control sr) (\<lambda>_. and_then (sr_health sr) (\<lambda>h.
             if \<not> health_matches NATIVE_WORKER_PROTOCOL_VERSION (de_pid d) (de_processIdentity d) h
             then Inl (unavailable ''authenticated worker identity verification failed.'')
             else case first_some (take 50 (sr_snapshots sr)) of
               Some w \<Rightarrow> Inr w
             | None \<Rightarrow> Inl (unavailable ''worker command did not start.''))) of
        Inr w \<Rightarrow> Inr w
      | Inl e \<Rightarrow>
          let c = nullish (or_else (spawnFailureCleanup token d (sr_receipt sr))
                     (first_some (map (spawnFailureCleanup token d) (take 10 (sr_later_receipts sr)))))
                   (worker_rollback sha (Some token) d (sr_rollback sr))
          in Inl (Start_error (e @ js ''; cleanup='' @ stringify c) c None False))"

text \<open>The answer of a worker to a request: its result, or its message.\<close>

definition worker_answer :: "json \<Rightarrow> (js_string, json) result" where
  "worker_answer body =
     (case (json_get body (js ''ok''), json_get body (js ''result'')) of
        (Some (JBool True), Some r) \<Rightarrow> Inr r
      | _ \<Rightarrow> Inl (case json_get body (js ''error'') of
                   Some e \<Rightarrow> (case json_get e (js ''message'') of Some (JStr m) \<Rightarrow> m | _ \<Rightarrow> js ''Worker RPC failed.'')
                 | None \<Rightarrow> js ''Worker RPC failed.''))"

text \<open>After the answer the worker is asked for its health up to a hundred times: \<open>True\<close> for an answer,
  an attempt beyond the list finds none.\<close>

definition worker_shutdown :: "(js_string, WorkerSnapshot) result \<Rightarrow> bool list \<Rightarrow> (js_string, WorkerSnapshot) result" where
  "worker_shutdown answered health =
     and_then answered (\<lambda>w. if list_all (\<lambda>h. h) (take 100 health) \<and> 100 \<le> length health
       then Inl (js ''Native worker did not exit after shutdown.'') else Inr w)"

datatype orphan_outcome = Orphan_shutdown | Orphan_killed js_string | Orphan_skipped "js_string option"

datatype orphan_event = Request_shutdown WorkerDescriptor | Send_kill nat

definition terminateOrphan ::
  "json option \<Rightarrow> (js_string, unit) result \<Rightarrow> js_string option \<Rightarrow> (js_string, unit) result \<Rightarrow> orphan_outcome \<times> orphan_event list" where
  "terminateOrphan file answered identity killed =
     (case read_worker file of
        None \<Rightarrow> (Orphan_skipped None, [])
      | Some d \<Rightarrow>
          (case answered of
             Inr _ \<Rightarrow> (Orphan_shutdown, [Request_shutdown d])
           | Inl e \<Rightarrow>
               let failed = js ''shutdown RPC failed ('' @ e @ js '')'' in
               if identity \<noteq> Some (de_processIdentity d)
               then (Orphan_skipped (Some (failed @ js '' and pid '' @ decimal (de_pid d) @ js '' did not match the descriptor identity'')),
                     [Request_shutdown d])
               else case killed of
                 Inl k \<Rightarrow> (Orphan_skipped (Some (failed @ js ''; kill failed: '' @ k)), [Request_shutdown d, Send_kill (de_pid d)])
               | Inr _ \<Rightarrow> (Orphan_killed (failed @ js ''; killed identity-verified pid '' @ decimal (de_pid d)),
                     [Request_shutdown d, Send_kill (de_pid d)])))"

section \<open>Lemmas\<close>

declare readReady.simps [simp del]

text \<open>The wait for the ready line ends with the first turn that finds no time left.\<close>

lemma readReady_ends: "fst t \<le> 0 \<Longrightarrow> t \<in> set turns \<Longrightarrow> \<exists>r. readReady parse buffered turns = Some r"
proof (induction turns arbitrary: buffered)
  case (Cons x turns)
  show ?case
  proof (cases x)
    case (Pair remaining nxt)
    then show ?thesis
      using Cons by (subst readReady.simps) (auto simp: Let_def split: option.splits)
  qed
qed simp

lemma readReady_bounded:
  "readReady parse buffered turns = Some (r, kept) \<Longrightarrow> r \<Longrightarrow>
    \<exists>line. length line \<le> MAX_READY_FRAME_BYTES \<and> 10 \<notin> set line \<and> ready_record (parse line)"
proof (induction turns arbitrary: buffered)
  case Nil
  then show ?case
    by (subst (asm) readReady.simps)
       (auto simp: Let_def split: if_splits dest: set_takeWhileD intro!: exI [of _ "takeWhile (\<lambda>b. b \<noteq> 10) buffered"]
         intro: order_trans [OF length_takeWhile_le])
next
  case (Cons x turns)
  then show ?case
    by (subst (asm) readReady.simps)
       (auto simp: Let_def split: if_splits prod.splits option.splits dest: set_takeWhileD intro!: exI [of _ "takeWhile (\<lambda>b. b \<noteq> 10) buffered"]
         intro: order_trans [OF length_takeWhile_le])
qed

definition frame_size :: "8 word list \<Rightarrow> nat" where
  "frame_size bs = unat (bs ! 0) * 2 ^ 24 + unat (bs ! 1) * 2 ^ 16 + unat (bs ! 2) * 2 ^ 8 + unat (bs ! 3)"

lemma frame_round_trip:
  assumes "length payload < 2 ^ 32"
  shows "frame_size (frame payload) = length payload \<and> drop 4 (frame payload) = payload"
proof -
  let ?n = "length payload"
  have "unat (of_nat k :: 8 word) = k mod 256" for k by (simp add: unat_of_nat)
  moreover have "?n div 2 ^ 24 mod 256 = ?n div 2 ^ 24" using assms by simp
  moreover have "?n div 2 ^ 24 * 2 ^ 24 + ?n div 2 ^ 16 mod 256 * 2 ^ 16 + ?n div 2 ^ 8 mod 256 * 2 ^ 8 + ?n mod 256 = ?n"
  proof -
    have "?n div 2 ^ 16 = ?n div 2 ^ 8 div 256" "?n div 2 ^ 24 = ?n div 2 ^ 16 div 256" by (simp_all flip: div_mult2_eq)
    moreover have "k div 256 * (256 * m) + k mod 256 * m = k * m" for k m :: nat
    proof -
      have "k div 256 * (256 * m) + k mod 256 * m = (k div 256 * 256 + k mod 256) * m" by (simp only: distrib_right mult.assoc)
      then show ?thesis by (simp only: div_mult_mod_eq)
    qed
    from this [of ?n 1] this [of "?n div 2 ^ 8" 256] this [of "?n div 2 ^ 16" 65536]
    have "?n div 2 ^ 16 div 256 * 2 ^ 24 + ?n div 2 ^ 16 mod 256 * 2 ^ 16 = ?n div 2 ^ 16 * 2 ^ 16"
      "?n div 2 ^ 8 div 256 * 2 ^ 16 + ?n div 2 ^ 8 mod 256 * 2 ^ 8 = ?n div 2 ^ 8 * 2 ^ 8" "?n div 2 ^ 8 * 2 ^ 8 + ?n mod 256 = ?n"
      by simp_all
    ultimately show ?thesis by metis
  qed
  ultimately show ?thesis by (simp add: frame_def frame_size_def Let_def)
qed

text \<open>A receipt the worker of this token has written.\<close>

definition no_child_receipt :: "js_string \<Rightarrow> nat \<Rightarrow> js_string \<Rightarrow> json option \<Rightarrow> bool" where
  "no_child_receipt workerId child token file \<longleftrightarrow>
     (\<exists>v. file = Some v \<and> json_get v (js ''workerId'') = Some (JStr workerId) \<and>
       json_get v (js ''workerPid'') = Some (JNum (int child)) \<and> json_get v (js ''workerControlToken'') = Some (JStr token) \<and>
       json_get v (js ''directChildStarted'') = Some (JBool False) \<and> json_get v (js ''terminationConfirmed'') = Some (JBool True))"

lemma failure_receipt_no_child:
  assumes "spawn_failure_receipt workerId child identity token file = Some c" "noChildCleanup c"
  shows "no_child_receipt workerId child token file"
  using assms
  by (auto simp: spawn_failure_receipt_def no_child_receipt_def noChildCleanup_def
      split: option.splits if_splits json.splits bool.splits)

lemma first_some_Some: "first_some xs = Some x \<Longrightarrow> Some x \<in> set xs"
  by (auto simp: first_some_def find_Some_iff in_set_conv_nth split: option.splits)

lemma rollback_no_child:
  "noChildCleanup (worker_rollback sha (Some token) d rb) \<Longrightarrow>
    hasVerifiedPrestartNoChildReceipt sha (rb_receipt rb) (By_worker (workerReference sha d None))"
  by (auto simp: worker_rollback_def noChildCleanup_def no_cleanup_def Let_def split: option.splits if_splits)

lemma cleanup_no_child:
  "noChildCleanup (prepare_cleanup workerId token child identity pc) \<Longrightarrow> no_child_receipt workerId child token (pc_receipt pc)"
  using failure_receipt_no_child [of workerId child identity token "pc_receipt pc"]
  by (auto simp: prepare_cleanup_def noChildCleanup_def no_cleanup_def split: option.splits if_splits sum.splits)

section \<open>Properties\<close>

text \<open>
  C24: a spawn is taken for one without a child only on authority. When preparing a worker fails with a
  clean-up that says so, no worker process was created, or it was given up because its standard error
  could not be captured, or the worker itself wrote a receipt that carries its secret token, its id and its
  process id. When starting it fails so, there is such a receipt, or a verified receipt that no start frame
  arrived.
\<close>

theorem no_child_needs_receipt:
  assumes "noChildCleanup c"
  shows "(prepare sha stringify pf pw \<in> {Prepare_refused (Start_error m c ref nw), Prepare_failed a (Start_error m c ref nw)} \<longrightarrow>
      (\<exists>e. pw_spawn pw = Inl e) \<or> (\<exists>e. pw_command pw = Inl e) \<or> pw_payload pw > 1024 * 1024 \<or> \<not> pw_stderr_stream pw \<or>
      (\<exists>child. pw_spawn pw = Inr child \<and> no_child_receipt (pw_workerId pw) child (pw_token pw) (pc_receipt (pw_cleanup pw)))) \<and>
    (worker_start sha stringify token d sr = Inl (Start_error m c ref nw) \<longrightarrow>
      (\<exists>file \<in> set (sr_receipt sr # sr_later_receipts sr). no_child_receipt (de_startIdentity d) (de_pid d) token file) \<or>
      hasVerifiedPrestartNoChildReceipt sha (rb_receipt (sr_rollback sr)) (By_worker (workerReference sha d None)))"
proof (intro conjI impI)
  assume "prepare sha stringify pf pw \<in> {Prepare_refused (Start_error m c ref nw), Prepare_failed a (Start_error m c ref nw)}"
  then show "(\<exists>e. pw_spawn pw = Inl e) \<or> (\<exists>e. pw_command pw = Inl e) \<or> pw_payload pw > 1024 * 1024 \<or> \<not> pw_stderr_stream pw \<or>
      (\<exists>child. pw_spawn pw = Inr child \<and> no_child_receipt (pw_workerId pw) child (pw_token pw) (pc_receipt (pw_cleanup pw)))"
    using assms cleanup_no_child by (auto simp: prepare_def Let_def split: sum.splits if_splits prod.splits)
next
  let ?sf = "spawnFailureCleanup token d"
  assume "worker_start sha stringify token d sr = Inl (Start_error m c ref nw)"
  then have "c = nullish (or_else (?sf (sr_receipt sr)) (first_some (map ?sf (take 10 (sr_later_receipts sr)))))
      (worker_rollback sha (Some token) d (sr_rollback sr))"
    by (auto simp: worker_start_def Let_def split: sum.splits)
  then consider f where "f \<in> set (sr_receipt sr # sr_later_receipts sr)" "?sf f = Some c"
    | "c = worker_rollback sha (Some token) d (sr_rollback sr)"
    by (fastforce simp: nullish_def or_else_def split: option.splits dest!: first_some_Some in_set_takeD)
  then show "(\<exists>file \<in> set (sr_receipt sr # sr_later_receipts sr). no_child_receipt (de_startIdentity d) (de_pid d) token file) \<or>
      hasVerifiedPrestartNoChildReceipt sha (rb_receipt (sr_rollback sr)) (By_worker (workerReference sha d None))"
    using failure_receipt_no_child assms rollback_no_child unfolding spawnFailureCleanup_def by cases blast+
qed

definition descriptor_identity :: "(js_string \<Rightarrow> js_string) \<Rightarrow> WorkerDescriptor \<Rightarrow> WorkerReference \<Rightarrow> bool" where
  "descriptor_identity sha d w \<longleftrightarrow>
     de_pid d = wk_pid w \<and> de_startIdentity d = wk_startIdentity w \<and> de_processIdentity d = wk_processIdentity w \<and>
     de_endpoint d = wk_endpoint w \<and> wk_tokenFingerprint w = Some (sha (de_token d)) \<and>
     wk_protocolVersion w = NATIVE_WORKER_PROTOCOL_VERSION"

lemma reconnect_identity:
  "reconnect sha file health w = Some d \<Longrightarrow>
     descriptor_identity sha d w \<and> health = Some (int NATIVE_WORKER_PROTOCOL_VERSION, int (de_pid d), de_processIdentity d)"
  by (auto simp: reconnect_def descriptor_identity_def health_matches_def truthy_text_def split: option.splits if_splits)

lemma reconnect_same:
  "read_worker file = Some d \<Longrightarrow> sha (de_token d) \<noteq> [] \<Longrightarrow>
    reconnect sha file (Some (int NATIVE_WORKER_PROTOCOL_VERSION, int (de_pid d), de_processIdentity d)) (workerReference sha d x) = Some d"
  by (simp add: reconnect_def workerReference_def truthy_text_def health_matches_def)

lemma prepare_ready:
  assumes "prepare sha stringify pf pw = Prepare_ready a w"
  obtains d x where "read_worker (hd (pw_files pw)) = Some d" "de_token d = pw_token pw" "w = workerReference sha d x"
    "a = prestart_authority sha pw"
proof -
  from assms obtain child identity x where "await_ready sha pf child identity x pw = Inr w" "a = prestart_authority sha pw"
    by (auto simp: prepare_def Let_def split: sum.splits if_splits prod.splits)
  then show ?thesis
    using that by (auto simp: await_ready_def Let_def descriptor_verified_def split: if_splits sum.splits option.splits list.splits)
qed

text \<open>
  The daemon talks to a worker again only if it is the one its record refers to: the descriptor on disk has
  the process, the identity, the endpoint and a token with the fingerprint of the record, and the answer
  on the endpoint confirms process and identity. The reference of a ready worker leads back to that very worker. A worker that cannot be
  reached is killed only when its shutdown failed and its process id still has the identity of the descriptor.
\<close>

theorem worker_contact_verified:
  "(reconnect sha f health w = Some d \<longrightarrow>
     descriptor_identity sha d w \<and> health = Some (int NATIVE_WORKER_PROTOCOL_VERSION, int (de_pid d), de_processIdentity d)) \<and>
   (prepare sha stringify pf pw = Prepare_ready a w \<and> (\<forall>x. sha x \<noteq> []) \<longrightarrow>
     (\<exists>d. read_worker (hd (pw_files pw)) = Some d \<and> de_token d = pw_token pw \<and> pa_tokenFingerprint a = sha (pw_token pw) \<and>
        reconnect sha (hd (pw_files pw)) (Some (int NATIVE_WORKER_PROTOCOL_VERSION, int (de_pid d), de_processIdentity d)) w = Some d)) \<and>
   (Send_kill p \<in> set (snd (terminateOrphan f answered identity killed)) \<longrightarrow>
     (\<exists>d e. read_worker f = Some d \<and> p = de_pid d \<and> identity = Some (de_processIdentity d) \<and> answered = Inl e))"
proof (intro conjI impI)
  assume "reconnect sha f health w = Some d"
  then show "descriptor_identity sha d w" "health = Some (int NATIVE_WORKER_PROTOCOL_VERSION, int (de_pid d), de_processIdentity d)"
    using reconnect_identity by blast+
next
  assume "prepare sha stringify pf pw = Prepare_ready a w \<and> (\<forall>x. sha x \<noteq> [])"
  then obtain d x where "read_worker (hd (pw_files pw)) = Some d" "de_token d = pw_token pw" "w = workerReference sha d x"
    "a = prestart_authority sha pw" and "\<forall>x. sha x \<noteq> []"
    using prepare_ready by metis
  then show "\<exists>d. read_worker (hd (pw_files pw)) = Some d \<and> de_token d = pw_token pw \<and> pa_tokenFingerprint a = sha (pw_token pw) \<and>
      reconnect sha (hd (pw_files pw)) (Some (int NATIVE_WORKER_PROTOCOL_VERSION, int (de_pid d), de_processIdentity d)) w = Some d"
    using reconnect_same by (auto simp: prestart_authority_def)
next
  assume "Send_kill p \<in> set (snd (terminateOrphan f answered identity killed))"
  then show "\<exists>d e. read_worker f = Some d \<and> p = de_pid d \<and> identity = Some (de_processIdentity d) \<and> answered = Inl e"
    by (auto simp: terminateOrphan_def Let_def split: option.splits sum.splits if_splits)
qed

section \<open>Instances\<close>

definition sample_descriptor :: json where
  "sample_descriptor = JObj [(js ''pid'', JNum 7), (js ''startIdentity'', JStr (js ''w1'')), (js ''processIdentity'', JStr (js ''linux:7'')),
     (js ''endpoint'', JStr (js ''http://127.0.0.1:1'')), (js ''token'', JStr (js ''0123456789abcdef'')), (js ''protocolVersion'', JNum 5)]"

definition sample_worker_descriptor :: WorkerDescriptor where
  "sample_worker_descriptor = \<lparr> de_pid = 7, de_startIdentity = js ''w1'', de_processIdentity = js ''linux:7'',
     de_endpoint = js ''http://127.0.0.1:1'', de_token = js ''0123456789abcdef'' \<rparr>"

lemma sample_descriptor_read: "read_worker (Some sample_descriptor) = Some sample_worker_descriptor"
  by (simp add: read_worker_def validWorkerDescriptor_def sample_descriptor_def sample_worker_descriptor_def isSafeInteger_def
      MAX_SAFE_INTEGER_def NATIVE_WORKER_PROTOCOL_VERSION_def)

definition sample_failure :: json where
  "sample_failure = JObj [(js ''workerId'', JStr (js ''w1'')), (js ''workerPid'', JNum 7), (js ''workerProcessIdentity'', JStr (js ''linux:7'')),
     (js ''workerControlToken'', JStr (js ''0123456789abcdef'')), (js ''directChildStarted'', JBool False), (js ''directChildPid'', JNull),
     (js ''terminationConfirmed'', JBool True), (js ''message'', JStr (js ''exec failed''))]"

definition sample_prepare :: "bool \<Rightarrow> prepare_world" where
  "sample_prepare b =
     \<lparr> pw_env = [], pw_secrets = [], pw_payload = 10, pw_command = Inr [''worker''], pw_workerId = js ''w1'',
       pw_token = js ''0123456789abcdef'', pw_spawn = Inr 7, pw_stderr_stream = True, pw_identity = Some (js ''linux:7''),
       pw_stdin = True, pw_write = Inr (), pw_stdout = True, pw_ready = b, pw_files = [Some sample_descriptor],
       pw_read_error = [], pw_stderr = [],
       pw_cleanup = \<lparr> pc_receipt = Some sample_failure, pc_descriptor = None, pc_end_ok = True, pc_exited = False, pc_current = None,
         pc_kill = Inr (), pc_exited_after_kill = True, pc_current_after_kill = None \<rparr> \<rparr>"

lemma sample_prepared:
  "prepare (Cons 49) (\<lambda>_. []) Linux (sample_prepare True) =
     Prepare_ready (prestart_authority (Cons 49) (sample_prepare True)) (workerReference (Cons 49) sample_worker_descriptor (Some (js ''worker'')))"
  by (simp add: prepare_def sample_prepare_def validateBootstrapSecrets_def worker_identity_def await_ready_def truthy_text_def
      sample_descriptor_read descriptor_verified_def sample_worker_descriptor_def)

definition sample_no_child :: SpawnCleanup where
  "sample_no_child = \<lparr> sc_requested = False, sc_terminationConfirmed = True, sc_method = M_none, sc_directChildStarted = Some False,
     sc_directChildPid = None, sc_message = Some (js ''exec failed'') \<rparr>"

lemma sample_failed_receipt:
  "spawn_failure_receipt (js ''w1'') 7 (Some (js ''linux:7'')) (js ''0123456789abcdef'') (Some sample_failure) = Some sample_no_child"
  by (simp add: spawn_failure_receipt_def sample_failure_def exactly_fields_def failure_fields_def sample_no_child_def)

lemma sample_not_ready:
  "\<exists>m a ref. prepare (Cons 49) (\<lambda>_. []) Linux (sample_prepare False) = Prepare_failed a (Start_error m sample_no_child ref False)"
  by (simp add: prepare_def sample_prepare_def validateBootstrapSecrets_def worker_identity_def await_ready_def truthy_text_def
      find_descriptor_def sample_descriptor_read descriptor_verified_def sample_worker_descriptor_def prepare_cleanup_def
      sample_failed_receipt [simplified] js_simps)

theorem no_child_needs_receipt_witness:
  "no_child_receipt (js ''w1'') 7 (js ''0123456789abcdef'') (Some sample_failure)"
proof -
  have n: "noChildCleanup sample_no_child" by (simp add: noChildCleanup_def sample_no_child_def)
  obtain m a ref where p: "prepare (Cons 49) (\<lambda>_. []) Linux (sample_prepare False) = Prepare_failed a (Start_error m sample_no_child ref False)"
    using sample_not_ready by blast
  show ?thesis
    using no_child_needs_receipt [OF n, THEN conjunct1, rule_format, of "Cons 49" "\<lambda>_. []" Linux "sample_prepare False" m ref False a] p
    by (simp add: sample_prepare_def)
qed

theorem worker_contact_verified_witness:
  "\<exists>d. reconnect (Cons 49) (Some sample_descriptor) (Some (5, 7, js ''linux:7''))
     (workerReference (Cons 49) sample_worker_descriptor (Some (js ''worker''))) = Some d"
proof -
  have "hd (pw_files (sample_prepare True)) = Some sample_descriptor" by (simp add: sample_prepare_def)
  then obtain d where "read_worker (Some sample_descriptor) = Some d"
    "reconnect (Cons 49) (Some sample_descriptor) (Some (int NATIVE_WORKER_PROTOCOL_VERSION, int (de_pid d), de_processIdentity d))
      (workerReference (Cons 49) sample_worker_descriptor (Some (js ''worker''))) = Some d"
    using worker_contact_verified [THEN conjunct2, THEN conjunct1, rule_format, OF conjI [OF sample_prepared]] by auto
  then show ?thesis
    by (auto simp: sample_descriptor_read sample_worker_descriptor_def NATIVE_WORKER_PROTOCOL_VERSION_def simp del: js_simps)
qed

end
