(* ===== verification/Preview.thy ===== *)
theory Preview
  imports Types
begin

text \<open>
  The previews of the terminal user interface (redactPreview in tui-state.ts): the regular expressions it is made of, with
  the order in which a backtracking matcher tries its ends, the nine passes and the cut. The theorem is about the value of an
  option with a sensitive name.
\<close>

section \<open>Regular expressions\<close>

text \<open>
  The expressions of \<open>redactPreview\<close> have no back references and repeat only classes of one unit. \<open>ends\<close>
  lists the positions at which a match that starts at \<open>i\<close> can end, in the order in which a
  backtracking matcher tries them. Literals are compared without regard to the case of ASCII letters
  (the flag \<open>i\<close>); no other unit is equal to an ASCII letter under it.
\<close>

datatype regex =
    Cls "16 word \<Rightarrow> bool"
  | Lit js_string
  | Many "16 word \<Rightarrow> bool"
  | Many1 "16 word \<Rightarrow> bool"
  | Cat regex regex
  | Alt regex regex
  | Opt regex
  | Boundary

definition lower :: "16 word \<Rightarrow> 16 word" where
  "lower u = (if 65 \<le> u \<and> u \<le> 90 then u + 32 else u)"

definition word_unit :: "16 word \<Rightarrow> bool" where
  "word_unit u \<longleftrightarrow> 97 \<le> lower u \<and> lower u \<le> 122 \<or> 48 \<le> u \<and> u \<le> 57 \<or> u = 95"

definition word_at :: "js_string \<Rightarrow> nat \<Rightarrow> bool" where
  "word_at s i \<longleftrightarrow> i < length s \<and> word_unit (s ! i)"

text \<open>The length of the run of a class at a position.\<close>

definition run_length :: "(16 word \<Rightarrow> bool) \<Rightarrow> js_string \<Rightarrow> nat \<Rightarrow> nat" where
  "run_length p s i = length (takeWhile p (drop i s))"

fun ends :: "regex \<Rightarrow> js_string \<Rightarrow> nat \<Rightarrow> nat list" where
  "ends (Cls p) s i = (if i < length s \<and> p (s ! i) then [Suc i] else [])"
| "ends (Lit w) s i = (if map lower (take (length w) (drop i s)) = map lower w then [i + length w] else [])"
| "ends (Many p) s i = rev [i..<Suc (i + run_length p s i)]"
| "ends (Many1 p) s i = rev [Suc i..<Suc (i + run_length p s i)]"
| "ends (Cat a b) s i = concat (map (ends b s) (ends a s i))"
| "ends (Alt a b) s i = ends a s i @ ends b s i"
| "ends (Opt a) s i = ends a s i @ [i]"
| "ends Boundary s i = (if (0 < i \<and> word_at s (i - 1)) \<noteq> word_at s i then [i] else [])"

text \<open>
  A pattern whose first group is kept and whose rest is the secret: the end of the group and the end of
  the match at a position, and the replacement of all matches from a position on, where a match is followed by
  the search at its end.
\<close>

fun first_split :: "regex \<Rightarrow> js_string \<Rightarrow> nat list \<Rightarrow> (nat \<times> nat) option" where
  "first_split q s [] = None"
| "first_split q s (e # es) = (case ends q s e of [] \<Rightarrow> first_split q s es | f # _ \<Rightarrow> Some (e, f))"

definition match_at :: "regex \<Rightarrow> regex \<Rightarrow> js_string \<Rightarrow> nat \<Rightarrow> (nat \<times> nat) option" where
  "match_at p q s i = first_split q s (ends p s i)"

function replace_from :: "regex \<Rightarrow> regex \<Rightarrow> js_string \<Rightarrow> js_string \<Rightarrow> nat \<Rightarrow> js_string" where
  "replace_from p q mark s i =
     (if length s \<le> i then []
      else case match_at p q s i of
        None \<Rightarrow> s ! i # replace_from p q mark s (Suc i)
      | Some (e, f) \<Rightarrow> take (e - i) (drop i s) @ mark @ replace_from p q mark s (max (Suc i) f))"
  by pat_completeness auto
termination by (relation "measure (\<lambda>(p, q, mark, s, i). length s - i)") auto

declare replace_from.simps [simp del]

definition replace_pattern :: "regex \<times> regex \<times> js_string \<Rightarrow> js_string \<Rightarrow> js_string" where
  "replace_pattern r s = (case r of (p, q, mark) \<Rightarrow> replace_from p q mark s 0)"

section \<open>The preview\<close>

definition secretValue :: js_string where "secretValue = js ''[REDACTED]''"

definition letter :: "16 word \<Rightarrow> bool" where "letter u \<longleftrightarrow> 97 \<le> lower u \<and> lower u \<le> 122"
definition name_unit :: "16 word \<Rightarrow> bool" where "name_unit u \<longleftrightarrow> word_unit u \<or> u = 45"
definition one_of :: "string \<Rightarrow> 16 word \<Rightarrow> bool" where "one_of cs u \<longleftrightarrow> u \<in> set (js cs)"

abbreviation opt_dash :: regex where "opt_dash \<equiv> Opt (Cls (one_of ''-_''))"
abbreviation spaces :: regex where "spaces \<equiv> Many js_space"
abbreviation spaces1 :: regex where "spaces1 \<equiv> Many1 js_space"

definition sensitiveName :: regex where
  "sensitiveName = Cat (Many name_unit)
     (Alt (Lit (js ''token'')) (Alt (Lit (js ''secret'')) (Alt (Lit (js ''password'')) (Alt (Lit (js ''pass''))
     (Alt (Cat (Lit (js ''api'')) (Cat opt_dash (Lit (js ''key'')))) (Alt (Lit (js ''key''))
     (Cat (Lit (js ''session'')) (Opt (Cat opt_dash (Lit (js ''id'')))))))))))"

definition quoted_run :: "16 word \<Rightarrow> regex" where
  "quoted_run u = Cat (Cls (\<lambda>x. x = u)) (Cat (Many (\<lambda>x. x \<noteq> u)) (Cls (\<lambda>x. x = u)))"

definition secret :: regex where
  "secret = Alt (quoted_run 39) (Alt (quoted_run 34) (Many1 (\<lambda>u. \<not> js_space u)))"

definition header_secret :: regex where
  "header_secret = Alt (quoted_run 39) (Alt (quoted_run 34) (Many1 (\<lambda>u. \<not> js_space u \<and> u \<noteq> 39 \<and> u \<noteq> 34)))"

definition cookie_pass :: "regex \<times> regex \<times> js_string" where
  "cookie_pass = (Cat Boundary (Cat (Opt (Lit (js ''set-''))) (Cat (Lit (js ''cookie'')) (Cat spaces (Cat (Lit (js '':'')) spaces)))),
     Many (\<lambda>u. u \<noteq> 13 \<and> u \<noteq> 10), secretValue)"

definition header_pass :: "regex \<times> regex \<times> js_string" where
  "header_pass = (Cat Boundary (Cat (Alt (Lit (js ''authorization'')) (Alt (Lit (js ''proxy-authorization'')) sensitiveName))
       (Cat spaces (Cat (Lit (js '':'')) (Cat spaces (Opt (Cat (Alt (Lit (js ''bearer'')) (Lit (js ''basic''))) spaces)))))),
     header_secret, secretValue)"

definition url_pass :: "regex \<times> regex \<times> js_string" where
  "url_pass = (Cat (Cls letter) (Cat (Many (\<lambda>u. letter u \<or> is_digit u \<or> one_of ''+.-'' u)) (Lit (js ''://''))),
     Cat (Many1 (\<lambda>u. \<not> js_space u \<and> \<not> one_of ''/@:'' u))
       (Cat (Opt (Cat (Lit (js '':'')) (Many (\<lambda>u. \<not> js_space u \<and> \<not> one_of ''/@'' u)))) (Lit (js ''@''))),
     secretValue @ js ''@'')"

definition query_pass :: "regex \<times> regex \<times> js_string" where
  "query_pass = (Cat (Cls (one_of ''?&'')) (Cat sensitiveName (Lit (js ''=''))), secret, secretValue)"

definition option_pass :: "regex \<times> regex \<times> js_string" where
  "option_pass = (Cat (Lit (js ''--'')) (Cat sensitiveName (Lit (js ''=''))), secret, secretValue)"

definition argument_pass :: "regex \<times> regex \<times> js_string" where
  "argument_pass = (Cat (Lit (js ''--'')) (Cat sensitiveName spaces1), secret, secretValue)"

definition assignment_pass :: "regex \<times> regex \<times> js_string" where
  "assignment_pass = (Cat (Opt (Alt (Cat (Lit (js ''export'')) spaces1) (Cat (Lit (js ''set'')) spaces1)))
       (Cat sensitiveName (Cat spaces (Cat (Lit (js ''='')) spaces))), secret, secretValue)"

definition env_pass :: "regex \<times> regex \<times> js_string" where
  "env_pass = (Cat (Lit (js ''$env:'')) (Cat sensitiveName (Cat spaces (Cat (Lit (js ''='')) spaces))), secret, secretValue)"

definition setenv_pass :: "regex \<times> regex \<times> js_string" where
  "setenv_pass = (Cat (Lit (js ''setenv'')) (Cat spaces1 (Cat sensitiveName spaces1)), secret, secretValue)"

definition preview_passes :: "(regex \<times> regex \<times> js_string) list" where
  "preview_passes = [cookie_pass, header_pass, url_pass, query_pass, option_pass, argument_pass, assignment_pass, env_pass, setenv_pass]"

definition redactPreview :: "js_string \<Rightarrow> js_string" where
  "redactPreview s = take 96 (foldl (\<lambda>t r. replace_pattern r t) s preview_passes)"

section \<open>What a match consumes\<close>

fun unit_in :: "regex \<Rightarrow> 16 word \<Rightarrow> bool" where
  "unit_in (Cls p) u = p u"
| "unit_in (Lit w) u = (lower u \<in> set (map lower w))"
| "unit_in (Many p) u = p u"
| "unit_in (Many1 p) u = p u"
| "unit_in (Cat a b) u = (unit_in a u \<or> unit_in b u)"
| "unit_in (Alt a b) u = (unit_in a u \<or> unit_in b u)"
| "unit_in (Opt a) u = unit_in a u"
| "unit_in Boundary u = False"

fun eats :: "regex \<Rightarrow> bool" where
  "eats (Cls p) = True"
| "eats (Lit w) = (w \<noteq> [])"
| "eats (Many p) = False"
| "eats (Many1 p) = True"
| "eats (Cat a b) = (eats a \<or> eats b)"
| "eats (Alt a b) = (eats a \<and> eats b)"
| "eats (Opt a) = False"
| "eats Boundary = False"

lemma run_units: "k < run_length p s i \<Longrightarrow> i + k < length s \<and> p (s ! (i + k))"
proof -
  assume k: "k < run_length p s i"
  then have "takeWhile p (drop i s) ! k = drop i s ! k" unfolding run_length_def by (rule takeWhile_nth)
  moreover have "p (takeWhile p (drop i s) ! k)" using k unfolding run_length_def by (metis nth_mem set_takeWhileD)
  moreover have "run_length p s i \<le> length s - i" unfolding run_length_def using length_takeWhile_le by (metis length_drop)
  ultimately show ?thesis using k by simp
qed

lemma run_units_within: "i \<le> k \<Longrightarrow> k < i + run_length p s i \<Longrightarrow> p (s ! k)"
  using run_units [of "k - i" p s i] by simp

lemma many_ends: "k \<le> run_length p s i \<Longrightarrow> i + k \<in> set (ends (Many p) s i)"
  by (simp del: upt_Suc)

lemma literal_units:
  assumes "map lower (take (length w) (drop i s)) = map lower w" "i \<le> k" "k < i + length w"
  shows "lower (s ! k) = lower (w ! (k - i))"
proof -
  have l: "length (take (length w) (drop i s)) = length w" using arg_cong [OF assms(1), of length] by simp
  have "map lower (take (length w) (drop i s)) ! (k - i) = map lower w ! (k - i)" by (simp only: assms(1))
  with l assms(2,3) show ?thesis by simp
qed

lemma ends_units:
  assumes "e \<in> set (ends r s i)"
  shows "i \<le> e \<and> (\<forall>k. i \<le> k \<and> k < e \<longrightarrow> unit_in r (s ! k))"
  using assms
proof (induction r arbitrary: i e)
  case (Lit w)
  then have m: "map lower (take (length w) (drop i s)) = map lower w" "e = i + length w" by (auto split: if_splits)
  have "unit_in (Lit w) (s ! k)" if "i \<le> k" "k < e" for k
    using literal_units [OF m(1) that(1)] that m(2) by simp
  then show ?case using m by simp
next
  case (Many p)
  then show ?case using run_units_within [of i _ p s] by auto
next
  case (Many1 p)
  then show ?case using run_units_within [of i _ p s] by auto
next
  case (Cat a b)
  then obtain m where m: "m \<in> set (ends a s i)" "e \<in> set (ends b s m)" by auto
  from Cat.IH(1) [OF m(1)] Cat.IH(2) [OF m(2)] show ?case by (auto simp: not_less [symmetric])
qed (auto split: if_splits simp: less_Suc_eq)

lemma ends_eats: "eats r \<Longrightarrow> e \<in> set (ends r s i) \<Longrightarrow> i < e"
proof (induction r arbitrary: i e)
  case (Cat a b)
  then obtain m where m: "m \<in> set (ends a s i)" "e \<in> set (ends b s m)" by auto
  from ends_units [OF m(1)] ends_units [OF m(2)] Cat m show ?case
    by (cases "eats a") (auto intro: le_less_trans less_le_trans)
qed (auto split: if_splits)

lemma ends_bound: "e \<in> set (ends r s i) \<Longrightarrow> i \<le> length s \<Longrightarrow> e \<le> length s"
proof (induction r arbitrary: i e)
  case (Lit w)
  then show ?case by (auto split: if_splits dest!: arg_cong [of _ _ length])
next
  case (Many p)
  have "run_length p s i \<le> length s - i" unfolding run_length_def using length_takeWhile_le by (metis length_drop)
  with Many show ?case by auto
next
  case (Many1 p)
  have "run_length p s i \<le> length s - i" unfolding run_length_def using length_takeWhile_le by (metis length_drop)
  with Many1 show ?case by auto
qed (auto split: if_splits)

lemma match_at_ends:
  assumes "match_at p q s i = Some (e, f)"
  shows "e \<in> set (ends p s i)" "f \<in> set (ends q s e)"
proof -
  have "e \<in> set es \<and> f \<in> set (ends q s e)" if "first_split q s es = Some (e, f)" for es
    using that by (induction es) (auto split: list.splits)
  from this [of "ends p s i"] assms show "e \<in> set (ends p s i)" "f \<in> set (ends q s e)" by (simp_all add: match_at_def)
qed

lemma match_at_None [simp]: "ends p s i = [] \<Longrightarrow> match_at p q s i = None"
  by (simp add: match_at_def)

section \<open>What a pass keeps\<close>

lemma replace_units: "set (replace_from p q m s i) \<subseteq> set (drop i s) \<union> set m"
proof (induction p q m s i rule: replace_from.induct)
  case (1 p q m s i)
  show ?case
  proof (cases "length s \<le> i")
    case True
    then show ?thesis by (simp add: replace_from.simps)
  next
    case False
    then have d: "drop i s = s ! i # drop (Suc i) s" by (simp add: Cons_nth_drop_Suc)
    show ?thesis
    proof (cases "match_at p q s i")
      case None
      have "set (replace_from p q m s (Suc i)) \<subseteq> set (drop (Suc i) s) \<union> set m" using 1(1) False None by blast
      moreover have "replace_from p q m s i = s ! i # replace_from p q m s (Suc i)"
        using False None by (simp add: replace_from.simps [of p q m s i])
      ultimately show ?thesis by (auto simp: d)
    next
      case (Some ef)
      obtain e f where ef: "ef = (e, f)" by force
      have "set (take (e - i) (drop i s)) \<subseteq> set (drop i s)" by (rule set_take_subset)
      moreover have "set (drop (max (Suc i) f) s) \<subseteq> set (drop i s)" by (rule set_drop_subset_set_drop) simp
      moreover have "set (replace_from p q m s (max (Suc i) f)) \<subseteq> set (drop (max (Suc i) f) s) \<union> set m"
        using 1(2) False Some ef by blast
      moreover have "replace_from p q m s i = take (e - i) (drop i s) @ m @ replace_from p q m s (max (Suc i) f)"
        using False Some ef by (simp add: replace_from.simps [of p q m s i])
      ultimately show ?thesis by auto
    qed
  qed
qed

lemma replace_skip:
  assumes "\<And>k. i \<le> k \<Longrightarrow> k < n \<Longrightarrow> match_at p q s k = None" "i \<le> n" "n \<le> length s"
  shows "replace_from p q m s i = take (n - i) (drop i s) @ replace_from p q m s n"
  using assms
proof (induction "n - i" arbitrary: i)
  case (Suc d)
  have lt: "i < n" "i < length s" using Suc.hyps(2) Suc.prems(3) by simp_all
  have "match_at p q s i = None" by (rule Suc.prems(1)) (use lt in simp_all)
  with lt(2) have "replace_from p q m s i = s ! i # replace_from p q m s (Suc i)" by (simp add: replace_from.simps [of p q m s i])
  also have "replace_from p q m s (Suc i) = take (n - Suc i) (drop (Suc i) s) @ replace_from p q m s n"
    by (rule Suc.hyps(1)) (use Suc.hyps(2) Suc.prems lt in auto)
  also have "s ! i # take (n - Suc i) (drop (Suc i) s) @ replace_from p q m s n = take (n - i) (drop i s) @ replace_from p q m s n"
    using lt by (simp add: Cons_nth_drop_Suc [symmetric] Suc_diff_Suc [symmetric])
  finally show ?case .
qed simp

text \<open>Up to the first white space of the text, what a pass keeps has no white space either.\<close>

abbreviation solid :: "16 word \<Rightarrow> bool" where "solid u \<equiv> \<not> js_space u"

lemma dropWhile_append_subset: "set (dropWhile P (xs @ ys)) \<subseteq> set (dropWhile P xs) \<union> set ys"
  by (cases "\<forall>x\<in>set xs. P x") (auto simp: dropWhile_append2 dropWhile_append3 dest: set_dropWhileD)

lemma dropWhile_all: "\<forall>x\<in>set xs. P x \<Longrightarrow> dropWhile P (xs @ ys) = dropWhile P ys"
  by (simp add: dropWhile_append2)

lemma set_dropWhile_subset: "set (dropWhile P xs) \<subseteq> set xs"
  by (auto dest: set_dropWhileD)

lemma replace_after_space:
  assumes "\<forall>u\<in>set m. solid u" "\<And>k. i \<le> k \<Longrightarrow> k < n \<Longrightarrow> solid (s ! k)" "i \<le> n" "n \<le> length s"
  shows "set (dropWhile solid (replace_from p q m s i)) \<subseteq> set (drop n s) \<union> set m"
  using assms
proof (induction p q m s i rule: replace_from.induct)
  case (1 p q m s i)
  show ?case
  proof (cases "i = n")
    case True
    then show ?thesis using replace_units [of p q m s n] set_dropWhile_subset by fast
  next
    case False
    with "1.prems"(3,4) have lt: "i < n" "i < length s" by simp_all
    have si: "solid (s ! i)" by (rule "1.prems"(2)) (use lt in simp_all)
    show ?thesis
    proof (cases "match_at p q s i")
      case None
      have "replace_from p q m s i = s ! i # replace_from p q m s (Suc i)"
        using lt None by (simp add: replace_from.simps [of p q m s i])
      moreover have "set (dropWhile solid (replace_from p q m s (Suc i))) \<subseteq> set (drop n s) \<union> set m"
        by (rule "1.IH"(1)) (use lt None "1.prems" in auto)
      ultimately show ?thesis using si by simp
    next
      case (Some ef)
      obtain e f where ef: "ef = (e, f)" by force
      let ?g = "max (Suc i) f" and ?t = "take (e - i) (drop i s)"
      have r: "replace_from p q m s i = ?t @ m @ replace_from p q m s ?g"
        using lt Some ef by (simp add: replace_from.simps [of p q m s i])
      have t: "set (dropWhile solid ?t) \<subseteq> set (drop n s)"
      proof -
        have "\<forall>u\<in>set (take (n - i) ?t). solid u"
          using "1.prems"(2) lt by (auto simp: in_set_conv_nth)
        from dropWhile_all [OF this, of "drop (n - i) ?t"]
        have "dropWhile solid ?t = dropWhile solid (drop (n - i) ?t)" by (simp only: append_take_drop_id)
        moreover have "set (drop (n - i) ?t) \<subseteq> set (drop n s)"
          using lt by (simp add: drop_take) (metis set_take_subset)
        ultimately show ?thesis using set_dropWhile_subset [of solid "drop (n - i) ?t"] by auto
      qed
      show ?thesis
      proof (cases "\<forall>u\<in>set ?t. solid u")
        case True
        then have d: "dropWhile solid (replace_from p q m s i) = dropWhile solid (replace_from p q m s ?g)"
          using "1.prems"(1) by (simp add: r dropWhile_all)
        show ?thesis
        proof (cases "?g \<le> n")
          case True
          have "set (dropWhile solid (replace_from p q m s ?g)) \<subseteq> set (drop n s) \<union> set m"
            by (rule "1.IH"(2)) (use lt Some ef "1.prems" True in auto)
          then show ?thesis by (simp only: d)
        next
          case False
          then have "set (drop ?g s) \<subseteq> set (drop n s)" by (intro set_drop_subset_set_drop) linarith
          then show ?thesis unfolding d using replace_units [of p q m s ?g] set_dropWhile_subset by fast
        qed
      next
        case False
        then obtain u where u: "u \<in> set ?t" "\<not> solid u" by blast
        then have "dropWhile solid (replace_from p q m s i) = dropWhile solid ?t @ m @ replace_from p q m s ?g"
          unfolding r by (rule dropWhile_append1)
        moreover obtain j where "j < length ?t" "\<not> solid (?t ! j)" using u by (metis in_set_conv_nth)
        then have "i + j < e" "\<not> i + j < n" using "1.prems"(2) [of "i + j"] lt by auto
        then have "n \<le> f" using ends_units [OF match_at_ends(2)] Some ef by fastforce
        then have "set (drop ?g s) \<subseteq> set (drop n s)" by (intro set_drop_subset_set_drop) simp
        ultimately show ?thesis using t replace_units [of p q m s ?g] by auto
      qed
    qed
  qed
qed

section \<open>Options with a secret\<close>

text \<open>Every match of the expression contains the unit \<open>c\<close>, and no unit \<open>d\<close> before it.\<close>

definition guarded :: "16 word \<Rightarrow> 16 word \<Rightarrow> regex \<Rightarrow> bool" where
  "guarded c d r \<longleftrightarrow>
     (\<forall>s i e. e \<in> set (ends r s i) \<longrightarrow> (\<exists>k. i \<le> k \<and> k < e \<and> s ! k = c \<and> (\<forall>j. i \<le> j \<and> j < k \<longrightarrow> s ! j \<noteq> d)))"

lemma guarded_Cat1:
  assumes "guarded c d a"
  shows "guarded c d (Cat a b)"
  unfolding guarded_def
proof (intro allI impI)
  fix s i e
  assume "e \<in> set (ends (Cat a b) s i)"
  then obtain m where m: "m \<in> set (ends a s i)" "e \<in> set (ends b s m)" by auto
  from assms m(1) obtain k where k: "i \<le> k" "k < m" "s ! k = c" "\<forall>j. i \<le> j \<and> j < k \<longrightarrow> s ! j \<noteq> d"
    unfolding guarded_def by blast
  with ends_units [OF m(2)] show "\<exists>k. i \<le> k \<and> k < e \<and> s ! k = c \<and> (\<forall>j. i \<le> j \<and> j < k \<longrightarrow> s ! j \<noteq> d)"
    by (intro exI [of _ k]) simp
qed

lemma guarded_Cat2:
  assumes "\<not> unit_in a d" "guarded c d b"
  shows "guarded c d (Cat a b)"
  unfolding guarded_def
proof (intro allI impI)
  fix s i e
  assume "e \<in> set (ends (Cat a b) s i)"
  then obtain m where m: "m \<in> set (ends a s i)" "e \<in> set (ends b s m)" by auto
  from assms(2) m(2) obtain k where k: "m \<le> k" "k < e" "s ! k = c" "\<forall>j. m \<le> j \<and> j < k \<longrightarrow> s ! j \<noteq> d"
    unfolding guarded_def by blast
  from ends_units [OF m(1)] assms(1) have "i \<le> m" "\<forall>j. i \<le> j \<and> j < m \<longrightarrow> s ! j \<noteq> d" by metis+
  then have "\<forall>j. i \<le> j \<and> j < k \<longrightarrow> s ! j \<noteq> d" using k(4) by (metis not_less)
  with k \<open>i \<le> m\<close> show "\<exists>k. i \<le> k \<and> k < e \<and> s ! k = c \<and> (\<forall>j. i \<le> j \<and> j < k \<longrightarrow> s ! j \<noteq> d)"
    by (intro exI [of _ k]) simp
qed

lemma guarded_Lit: "(\<And>u. lower u = lower c \<Longrightarrow> u = c) \<Longrightarrow> guarded c d (Lit (c # w))"
  unfolding guarded_def
proof (intro allI impI)
  fix s i e
  assume c: "\<And>u. lower u = lower c \<Longrightarrow> u = c" and "e \<in> set (ends (Lit (c # w)) s i)"
  then have m: "map lower (take (length (c # w)) (drop i s)) = map lower (c # w)" "e = i + length (c # w)"
    by (auto split: if_splits)
  from literal_units [OF m(1), of i] have "s ! i = c" by (intro c) simp
  with m(2) show "\<exists>k. i \<le> k \<and> k < e \<and> s ! k = c \<and> (\<forall>j. i \<le> j \<and> j < k \<longrightarrow> s ! j \<noteq> d)"
    by (intro exI [of _ i]) auto
qed

lemma lower_colon: "lower u = lower 58 \<Longrightarrow> u = 58"
  unfolding lower_def by (simp split: if_splits)

lemma guarded_no_match:
  assumes "guarded 58 61 p" "k \<le> z" "s ! z = 61" "\<And>j. j \<le> z \<Longrightarrow> s ! j \<noteq> 58"
  shows "ends p s k = []"
proof (rule ccontr)
  assume "ends p s k \<noteq> []"
  then obtain e where "e \<in> set (ends p s k)" by (meson list.set_sel(1))
  with assms(1) obtain m where "k \<le> m" "s ! m = 58" "\<forall>j. k \<le> j \<and> j < m \<longrightarrow> s ! j \<noteq> 61" unfolding guarded_def by blast
  with assms(2-4) show False by (metis not_less)
qed

text \<open>A pass that cannot start in the first part keeps it, and works on the rest.\<close>

lemma pass_keeps:
  assumes none: "\<And>k. k < length a \<Longrightarrow> match_at p q (a @ u) k = None" and u: "u \<noteq> []" "solid (hd u)"
    and p: "eats p" and m: "\<forall>x\<in>set m. solid x"
  obtains u' where "replace_pattern (p, q, m) (a @ u) = a @ u'" "u' \<noteq> []" "hd u' = hd u"
    "set (dropWhile solid u') \<subseteq> set (dropWhile solid u) \<union> set m"
proof -
  let ?s = "a @ u" and ?n = "length a" and ?u = "replace_from p q m (a @ u) (length a)"
  have "replace_from p q m ?s 0 = take (?n - 0) (drop 0 ?s) @ ?u" by (rule replace_skip) (use none in simp_all)
  then have 1: "replace_pattern (p, q, m) ?s = a @ ?u" by (simp add: replace_pattern_def)
  have "?n < length ?s" "?s ! ?n = hd u" using u(1) by (simp_all add: nth_append hd_conv_nth)
  moreover have "?n < e" if "match_at p q ?s ?n = Some (e, f)" for e f
    using ends_eats [OF p match_at_ends(1) [OF that]] .
  ultimately have 2: "?u \<noteq> [] \<and> hd ?u = hd u"
    using u(1) by (subst (1 2) replace_from.simps) (auto split: option.splits simp: hd_append)
  have "set (dropWhile solid ?u) \<subseteq> set (drop (?n + length (takeWhile solid u)) ?s) \<union> set m"
  proof (rule replace_after_space [OF m])
    show "solid (?s ! k)" if "?n \<le> k" "k < ?n + length (takeWhile solid u)" for k
      using that by (simp add: nth_append) (metis add_diff_inverse_nat nat_add_left_cancel_less not_less nth_mem set_takeWhileD takeWhile_nth)
  qed (simp_all add: length_takeWhile_le)
  then have "set (dropWhile solid ?u) \<subseteq> set (dropWhile solid u) \<union> set m" by (simp add: dropWhile_eq_drop)
  with 1 2 show thesis by (intro that) auto
qed

text \<open>A command line up to a sensitive option.\<close>

definition option_start :: "js_string \<Rightarrow> js_string \<Rightarrow> js_string" where
  "option_start cmd name = cmd @ js '' --'' @ name @ js ''=''"

definition plain_command :: "js_string \<Rightarrow> bool" where
  "plain_command cmd \<longleftrightarrow> set cmd \<inter> {58, 61, 63, 38} = {}"

definition sensitive_words :: "js_string list" where
  "sensitive_words = [js ''token'', js ''secret'', js ''password'', js ''pass'', js ''key'']"

definition sensitive_option :: "js_string \<Rightarrow> bool" where
  "sensitive_option name \<longleftrightarrow> (\<exists>x. \<exists>w\<in>set sensitive_words. name = x @ w \<and> (\<forall>u\<in>set x. name_unit u))"

lemma name_unit_special: "\<not> name_unit 58" "\<not> name_unit 61" "\<not> name_unit 63" "\<not> name_unit 38" "\<not> name_unit 32"
  by (simp_all add: name_unit_def word_unit_def lower_def)

lemma sensitive_word_units: "\<forall>w\<in>set sensitive_words. \<forall>u\<in>set w. name_unit u"
  by (simp add: sensitive_words_def name_unit_def word_unit_def lower_def)

lemma sensitive_units: "sensitive_option name \<Longrightarrow> \<forall>u\<in>set name. name_unit u"
  using sensitive_word_units by (auto simp: sensitive_option_def)

lemma option_start_units:
  assumes "plain_command cmd" "sensitive_option name" "u \<in> set (option_start cmd name)"
  shows "u \<noteq> 58" "u \<noteq> 63" "u \<noteq> 38"
  using assms sensitive_units [OF assms(2)] name_unit_special by (auto simp: option_start_def plain_command_def)

lemma free_spaces: "\<not> js_space 61" by (simp add: js_space_def)

lemma sensitiveName_free: "\<not> unit_in sensitiveName 61" "\<not> unit_in sensitiveName 32"
  by (simp_all add: sensitiveName_def name_unit_special one_of_def lower_def)

lemma early_passes_guarded: "guarded 58 61 (fst cookie_pass)" "guarded 58 61 (fst header_pass)" "guarded 58 61 (fst url_pass)"
proof -
  note lit = guarded_Lit [OF lower_colon]
  have w: "js '':'' = [58]" "js ''://'' = [58, 47, 47]" by simp_all
  have f: "\<not> unit_in Boundary 61" "\<not> unit_in spaces 61" "\<not> unit_in (Opt (Lit (js ''set-''))) 61" "\<not> unit_in (Lit (js ''cookie'')) 61"
    "\<not> unit_in (Cls letter) 61" "\<not> unit_in (Many (\<lambda>u. letter u \<or> is_digit u \<or> one_of ''+.-'' u)) 61"
    "\<not> unit_in (Alt (Lit (js ''authorization'')) (Alt (Lit (js ''proxy-authorization'')) sensitiveName)) 61"
    by (simp_all add: free_spaces lower_def sensitiveName_free letter_def is_digit_def one_of_def)
  show "guarded 58 61 (fst cookie_pass)" unfolding cookie_pass_def fst_conv w
    by (rule guarded_Cat2 [OF f(1)] guarded_Cat2 [OF f(2)] guarded_Cat2 [OF f(3)] guarded_Cat2 [OF f(4)] guarded_Cat1 lit)+
  show "guarded 58 61 (fst header_pass)" unfolding header_pass_def fst_conv w
    by (rule guarded_Cat2 [OF f(1)] guarded_Cat2 [OF f(7)] guarded_Cat2 [OF f(2)] guarded_Cat1 lit)+
  show "guarded 58 61 (fst url_pass)" unfolding url_pass_def fst_conv w
    by (rule guarded_Cat2 [OF f(5)] guarded_Cat2 [OF f(6)] lit)+
qed

lemma option_start_last: "option_start cmd name \<noteq> []" "option_start cmd name ! (length (option_start cmd name) - 1) = 61"
  by (simp_all add: option_start_def nth_append)

lemma early_no_match:
  assumes c: "plain_command cmd" "sensitive_option name" and k: "k < length (option_start cmd name)"
  shows "ends (fst cookie_pass) (option_start cmd name @ u) k = []" "ends (fst header_pass) (option_start cmd name @ u) k = []"
    "ends (fst url_pass) (option_start cmd name @ u) k = []" "ends (fst query_pass) (option_start cmd name @ u) k = []"
proof -
  let ?a = "option_start cmd name" and ?s = "option_start cmd name @ u" and ?z = "length (option_start cmd name) - 1"
  have in_a: "?s ! j \<in> set ?a" if "j \<le> ?z" for j
  proof -
    have "j < length ?a" using that k by linarith
    then show ?thesis by (simp add: nth_append)
  qed
  have z: "?s ! ?z = 61" using option_start_last [of cmd name] k by (simp add: nth_append)
  have n: "?s ! j \<noteq> 58" if "j \<le> ?z" for j using option_start_units(1) [OF c in_a [OF that]] .
  have "k \<le> ?z" using k by simp
  note g = guarded_no_match [OF _ this z n]
  show "ends (fst cookie_pass) ?s k = []" "ends (fst header_pass) ?s k = []" "ends (fst url_pass) ?s k = []"
    by (rule g, rule early_passes_guarded, assumption)+
  have "?s ! k \<noteq> 63" "?s ! k \<noteq> 38" using option_start_units(2,3) [OF c in_a] k by simp_all
  then show "ends (fst query_pass) ?s k = []" by (simp add: query_pass_def one_of_def)
qed

lemma mark_solid: "\<forall>u\<in>set secretValue. solid u" "\<forall>u\<in>set (secretValue @ js ''@''). solid u"
  by (simp_all add: secretValue_def js_space_def)

lemma early_pass:
  assumes c: "plain_command cmd" "sensitive_option name" and u: "u \<noteq> []" "solid (hd u)"
    and r: "r \<in> {cookie_pass, header_pass, url_pass, query_pass}"
  obtains u' where "replace_pattern r (option_start cmd name @ u) = option_start cmd name @ u'" "u' \<noteq> []" "hd u' = hd u"
    "set (dropWhile solid u') \<subseteq> set (dropWhile solid u) \<union> set (secretValue @ js ''@'')"
proof -
  obtain p q m where pqm: "r = (p, q, m)" by (cases r)
  have m: "\<forall>x\<in>set m. solid x" "set m \<subseteq> set (secretValue @ js ''@'')" "eats p"
    using r pqm mark_solid by (auto simp: cookie_pass_def header_pass_def url_pass_def query_pass_def)
  have "match_at p q (option_start cmd name @ u) k = None" if "k < length (option_start cmd name)" for k
  proof -
    have "ends (fst r) (option_start cmd name @ u) k = []" using early_no_match [OF c that, of u] r by auto
    then show ?thesis using pqm by simp
  qed
  from pass_keeps [OF this u m(3,1)] obtain u' where u': "replace_pattern (p, q, m) (option_start cmd name @ u) = option_start cmd name @ u'"
    "u' \<noteq> []" "hd u' = hd u" "set (dropWhile solid u') \<subseteq> set (dropWhile solid u) \<union> set m" by blast
  show thesis by (rule that [OF _ u'(2,3)]) (use u' m(2) pqm in auto)
qed

lemma sensitive_ends:
  assumes "w \<in> set sensitive_words" "m \<in> set (ends (Many name_unit) s i)" "e \<in> set (ends (Lit w) s m)"
  shows "e \<in> set (ends sensitiveName s i)"
proof -
  let ?words = "Alt (Lit (js ''token'')) (Alt (Lit (js ''secret'')) (Alt (Lit (js ''password'')) (Alt (Lit (js ''pass''))
     (Alt (Cat (Lit (js ''api'')) (Cat opt_dash (Lit (js ''key'')))) (Alt (Lit (js ''key''))
     (Cat (Lit (js ''session'')) (Opt (Cat opt_dash (Lit (js ''id'')))))))))) "
  have "e \<in> set (ends ?words s m)" using assms(1,3) by (auto simp: sensitive_words_def simp del: ends.simps(2) js_simps)
  then show ?thesis using assms(2) by (auto simp: sensitiveName_def simp del: ends.simps(1-3,6-8) js_simps)
qed

text \<open>At the option, the group ends behind the equals sign and the secret with the next white space.\<close>

lemma option_ends:
  assumes c: "plain_command cmd" "sensitive_option name" and u: "u \<noteq> []" "solid (hd u)" "hd u \<noteq> 39" "hd u \<noteq> 34"
  shows "match_at (fst option_pass) secret (option_start cmd name @ u) (length cmd + 1) =
    Some (length (option_start cmd name), length (option_start cmd name) + length (takeWhile solid u))"
proof -
  let ?s = "option_start cmd name @ u" and ?a = "length cmd + 1" and ?n = "length (option_start cmd name)"
  let ?z = "?n - 1"
  have len: "?n = ?a + 2 + length name + 1" by (simp add: option_start_def)
  have z: "?s ! ?z = 61" using option_start_last [of cmd name] len by (simp add: nth_append)
  have nu: "\<forall>x\<in>set name. name_unit x" by (rule sensitive_units [OF c(2)])
  have s: "?s = cmd @ 32 # 45 # 45 # name @ 61 # u" by (simp add: option_start_def)
  have free: "?s ! j \<noteq> 61" if "?a \<le> j" "j < ?z" for j
  proof -
    have "?s ! j = (45 # 45 # name @ 61 # u) ! (j - ?a)" using that by (simp add: s nth_append)
    also have "\<dots> \<in> set (45 # 45 # name)"
      using that len by (auto simp: nth_Cons nth_append split: nat.splits)
    finally show ?thesis using nu name_unit_special(2) by auto
  qed
  have all: "e = ?n" if "e \<in> set (ends (fst option_pass) ?s ?a)" for e
  proof -
    from that obtain m e' where e: "m \<in> set (ends (Lit (js ''--'')) ?s ?a)" "e' \<in> set (ends sensitiveName ?s m)"
      "e \<in> set (ends (Lit (js ''='')) ?s e')" by (auto simp: option_pass_def)
    have m: "m = ?a + 2" using e(1) by (simp split: if_splits)
    have e2: "e = e' + 1" and "map lower (take 1 (drop e' ?s)) = map lower (js ''='')" using e(3) by (auto split: if_splits)
    then have eq: "?s ! e' = 61" using literal_units [of "js ''=''" e' ?s e'] by (auto simp: lower_def split: if_splits)
    have "\<not> e' < ?z" using free [of e'] eq ends_units [OF e(2)] m by auto
    moreover have "\<not> ?z < e'" using ends_units [OF e(2)] sensitiveName_free(1) z m len by (metis add_leD1 le_add_diff_inverse2 diff_add_inverse2 le_add1)
    ultimately show ?thesis using e2 len by simp
  qed
  obtain x w where xw: "name = x @ w" "w \<in> set sensitive_words" "\<forall>y\<in>set x. name_unit y"
    using c(2) by (auto simp: sensitive_option_def)
  have d: "drop ?a ?s = 45 # 45 # x @ w @ 61 # u" "drop (?a + 2) ?s = x @ w @ 61 # u" "drop (?a + 2 + length x) ?s = w @ 61 # u"
    "drop (?a + 2 + length x + length w) ?s = 61 # u" by (simp_all add: option_start_def xw(1) numeral_3_eq_3)
  have 1: "?a + 2 \<in> set (ends (Lit (js ''--'')) ?s ?a)" using d(1) by simp
  have "length x \<le> run_length name_unit ?s (?a + 2)" unfolding run_length_def d(2) using xw(3) by (simp add: takeWhile_append2)
  then have 2: "?a + 2 + length x \<in> set (ends (Many name_unit) ?s (?a + 2))" by (rule many_ends)
  have "ends (Lit w) ?s (?a + 2 + length x) = [?a + 2 + length x + length w]" using d(3) by simp
  then have 3: "?a + 2 + length x + length w \<in> set (ends sensitiveName ?s (?a + 2))"
    by (intro sensitive_ends [OF xw(2) 2]) simp
  have "?n = ?a + 2 + length x + length w + 1" using len xw(1) by simp
  moreover have "?a + 2 + length x + length w + 1 \<in> set (ends (Lit (js ''='')) ?s (?a + 2 + length x + length w))"
    using d(4) by simp
  ultimately have "?n \<in> set (ends (fst option_pass) ?s ?a)"
    using 1 3 by (auto simp: option_pass_def simp del: ends.simps(2) js_simps)
  with all obtain rest where es: "ends (fst option_pass) ?s ?a = ?n # rest"
    by (metis list.exhaust list.set_intros(1) empty_iff empty_set)
  have h: "?s ! ?n = hd u" "?n < length ?s" using u(1) by (simp_all add: nth_append hd_conv_nth)
  have L: "run_length solid ?s ?n = length (takeWhile solid u)" "0 < length (takeWhile solid u)"
    using u(1,2) by (simp_all add: run_length_def) (cases u; simp)
  have "ends secret ?s ?n = rev [Suc ?n..<Suc (?n + length (takeWhile solid u))]"
    using h u(3,4) L(1) by (simp add: secret_def quoted_run_def del: upt_Suc)
  also have "\<dots> = (?n + length (takeWhile solid u)) # rev [Suc ?n..<?n + length (takeWhile solid u)]"
    using L(2) by (simp add: Suc_le_eq)
  finally show ?thesis unfolding match_at_def es by simp
qed


lemma option_not_before:
  assumes c: "plain_command cmd" "sensitive_option name" and k: "k < length cmd + 1"
  shows "ends (fst option_pass) (option_start cmd name @ u) k = []"
proof (rule ccontr)
  let ?s = "option_start cmd name @ u"
  assume "ends (fst option_pass) ?s k \<noteq> []"
  then obtain e where "e \<in> set (ends (fst option_pass) ?s k)" by (meson list.set_sel(1))
  then obtain m e' where e: "m \<in> set (ends (Lit (js ''--'')) ?s k)" "e' \<in> set (ends sensitiveName ?s m)"
    "e \<in> set (ends (Lit (js ''='')) ?s e')" by (auto simp: option_pass_def)
  have w: "map lower (take (length (js ''--'')) (drop k ?s)) = map lower (js ''--'')" "m = k + length (js ''--'')"
    using e(1) by (simp_all only: ends.simps split: if_splits) simp_all
  have m: "m = k + 2" using w(2) by simp
  have dash: "lower (?s ! k) = 45" "lower (?s ! (k + 1)) = 45"
    using literal_units [OF w(1), of k] literal_units [OF w(1), of "k + 1"] by (simp_all add: lower_def)
  have sp: "?s ! length cmd = 32" by (simp add: option_start_def nth_append)
  have eq: "?s ! e' = 61" using e(3) literal_units [of "js ''=''" e' ?s e'] by (auto simp: lower_def split: if_splits)
  have "k \<noteq> length cmd" "k + 1 \<noteq> length cmd" using dash sp by (auto simp: lower_def)
  then have "m \<le> length cmd" using k m by simp
  moreover have "\<not> length cmd < e'" using ends_units [OF e(2)] sensitiveName_free(2) sp calculation by metis
  moreover have "?s ! j \<noteq> 61" if "j < length cmd" for j
  proof -
    have "?s ! j \<in> set cmd" using that by (simp add: option_start_def nth_append)
    then show ?thesis using c(1) by (auto simp: plain_command_def)
  qed
  ultimately show False using eq sp by (cases "e' = length cmd") auto
qed


lemma option_hidden:
  assumes c: "plain_command cmd" "sensitive_option name" and u: "u \<noteq> []" "solid (hd u)" "hd u \<noteq> 39" "hd u \<noteq> 34"
  shows "set (replace_pattern option_pass (option_start cmd name @ u)) \<subseteq>
    set (option_start cmd name) \<union> set secretValue \<union> set (dropWhile solid u)"
proof -
  let ?s = "option_start cmd name @ u" and ?a = "length cmd + 1" and ?n = "length (option_start cmd name)"
  let ?p = "fst option_pass" and ?f = "length (option_start cmd name) + length (takeWhile solid u)"
  have r: "option_pass = (?p, secret, secretValue)" by (simp add: option_pass_def)
  have "?a < ?n" by (simp add: option_start_def)
  have "replace_from ?p secret secretValue ?s 0 = take (?a - 0) (drop 0 ?s) @ replace_from ?p secret secretValue ?s ?a"
    by (rule replace_skip) (use option_not_before [OF c] \<open>?a < ?n\<close> in simp_all)
  also have "replace_from ?p secret secretValue ?s ?a =
      take (?n - ?a) (drop ?a ?s) @ secretValue @ replace_from ?p secret secretValue ?s ?f"
    using \<open>?a < ?n\<close> option_ends [OF assms] by (subst replace_from.simps) (simp add: max_def)
  finally have "replace_pattern option_pass ?s =
      take ?a ?s @ take (?n - ?a) (drop ?a ?s) @ secretValue @ replace_from ?p secret secretValue ?s ?f"
    by (subst r) (simp add: replace_pattern_def)
  moreover have "set (take ?a ?s) \<subseteq> set (option_start cmd name)" "set (take (?n - ?a) (drop ?a ?s)) \<subseteq> set (option_start cmd name)"
    using \<open>?a < ?n\<close> by (auto dest: in_set_takeD in_set_dropD)
  moreover have "set (replace_from ?p secret secretValue ?s ?f) \<subseteq> set (dropWhile solid u) \<union> set secretValue"
    using replace_units [of ?p secret secretValue ?s ?f] by (simp add: dropWhile_eq_drop)
  ultimately show ?thesis by auto
qed

lemma pass_units: "set (replace_pattern r t) \<subseteq> set t \<union> set (snd (snd r))"
  using replace_units [of "fst r" "fst (snd r)" "snd (snd r)" t 0] by (auto simp: replace_pattern_def split: prod.splits)

text \<open>
  A preview hides the value of a sensitive option. In a command line whose words before the option contain no
  colon, equals sign, question mark or ampersand, an option whose name ends in one of the sensitive words
  and whose value has no white space and starts with no quote shows no unit of its value: every unit of the preview is one of the
  words before it, of the option name, of the mark or of what follows the value. The preview has at most 96 units.
\<close>

theorem preview_hides_option:
  assumes "plain_command cmd" "sensitive_option name" "v \<noteq> []" "\<forall>u\<in>set v. solid u" "hd v \<noteq> 39" "hd v \<noteq> 34"
    and "rest = [] \<or> js_space (hd rest)"
  shows "set (redactPreview (option_start cmd name @ v @ rest)) \<subseteq>
      set (option_start cmd name) \<union> set (js ''[REDACTED]@'') \<union> set rest \<and>
    length (redactPreview (option_start cmd name @ v @ rest)) \<le> 96"
proof -
  let ?a = "option_start cmd name" and ?M = "set (secretValue @ js ''@'')"
  let ?ok = "\<lambda>u. u \<noteq> [] \<and> hd u = hd v \<and> set (dropWhile solid u) \<subseteq> set rest \<union> ?M"
  have hv: "solid (hd v)" using assms(3,4) by simp
  have "dropWhile solid (v @ rest) = dropWhile solid rest" using assms(4) by (intro dropWhile_all) auto
  then have ok0: "?ok (v @ rest)" using assms(3) set_dropWhile_subset [of solid rest] by auto
  have step: "\<exists>u'. replace_pattern r (?a @ u) = ?a @ u' \<and> ?ok u'" if "?ok u" "r \<in> {cookie_pass, header_pass, url_pass, query_pass}" for r u
  proof -
    have "u \<noteq> []" "solid (hd u)" using that(1) hv by auto
    from early_pass [OF assms(1,2) this that(2)] obtain u' where "replace_pattern r (?a @ u) = ?a @ u'" "u' \<noteq> []" "hd u' = hd u"
      "set (dropWhile solid u') \<subseteq> set (dropWhile solid u) \<union> ?M" by blast
    with that(1) show ?thesis by (intro exI [of _ u']) auto
  qed
  obtain u1 where 1: "replace_pattern cookie_pass (?a @ v @ rest) = ?a @ u1" "?ok u1" using step [OF ok0, of cookie_pass] by auto
  obtain u2 where 2: "replace_pattern header_pass (?a @ u1) = ?a @ u2" "?ok u2" using step [OF 1(2), of header_pass] by auto
  obtain u3 where 3: "replace_pattern url_pass (?a @ u2) = ?a @ u3" "?ok u3" using step [OF 2(2), of url_pass] by auto
  obtain u4 where 4: "replace_pattern query_pass (?a @ u3) = ?a @ u4" "?ok u4" using step [OF 3(2), of query_pass] by auto
  let ?t = "replace_pattern option_pass (?a @ u4)"
  have "set ?t \<subseteq> set ?a \<union> set secretValue \<union> set (dropWhile solid u4)"
    using 4(2) hv assms(5,6) by (intro option_hidden [OF assms(1,2)]) auto
  then have t: "set ?t \<subseteq> set ?a \<union> ?M \<union> set rest" using 4(2) by auto
  have late: "set (replace_pattern r x) \<subseteq> set ?a \<union> ?M \<union> set rest"
    if "set x \<subseteq> set ?a \<union> ?M \<union> set rest" "r \<in> {argument_pass, assignment_pass, env_pass, setenv_pass}" for r x
    using pass_units [of r x] that by (auto simp: argument_pass_def assignment_pass_def env_pass_def setenv_pass_def)
  let ?p = "replace_pattern setenv_pass (replace_pattern env_pass (replace_pattern assignment_pass (replace_pattern argument_pass ?t)))"
  have "set ?p \<subseteq> set ?a \<union> ?M \<union> set rest" by (intro late t) simp_all
  moreover have "redactPreview (?a @ v @ rest) = take 96 ?p"
    by (simp add: redactPreview_def preview_passes_def 1(1) 2(1) 3(1) 4(1))
  moreover have "?M = set (js ''[REDACTED]@'')" by (auto simp: secretValue_def)
  ultimately show ?thesis using set_take_subset [of 96 ?p] by auto
qed

theorem preview_hides_option_witness:
  "115 \<notin> set (redactPreview (js ''curl --api-token=ssss /x''))"
proof -
  have "option_start (js ''curl'') (js ''api-token'') @ js ''ssss'' @ js '' /x'' = js ''curl --api-token=ssss /x''"
    by (simp add: option_start_def)
  moreover have "plain_command (js ''curl'')" by (simp add: plain_command_def)
  moreover have "\<forall>u\<in>set (js ''api-''). name_unit u" by (simp add: name_unit_def word_unit_def lower_def)
  then have "sensitive_option (js ''api-'' @ js ''token'')"
    unfolding sensitive_option_def by (intro exI [of _ "js ''api-''"] bexI [of _ "js ''token''"]) (simp_all add: sensitive_words_def)
  then have "sensitive_option (js ''api-token'')" by simp
  ultimately show ?thesis
    using preview_hides_option [of "js ''curl''" "js ''api-token''" "js ''ssss''" "js '' /x''"]
    by (auto simp: js_space_def option_start_def)
qed

end
