(* ===== verification/Companion.thy ===== *)
theory Companion
  imports Preview Daemon_Client Supervisor_Sessions Xml
begin

text \<open>
  The terminal user interface (tui-state.ts, tui.tsx): routes, scopes and owners, the texts it shows, the panel of a
  session as a state machine in which the host moves while any number of refreshes wait for their answers, and the
  dialogs for approvals and grants, with the host at each point where they continue as an argument. The
  components of the host and the timer are its parameters and events.
\<close>

section \<open>Routes and owners\<close>

text \<open>The route of the host; \<open>rt_sessionID\<close> is \<open>params?.sessionID\<close> where it is a string.\<close>

record tui_route =
  rt_name :: js_string
  rt_sessionID :: "js_string option"

record TuiSession =
  ts_id :: js_string
  ts_directory :: js_string

record TuiScope =
  sc_sessionID :: js_string
  sc_directory :: js_string

definition route_session :: "tui_route \<Rightarrow> js_string option" where
  "route_session route = (if rt_name route = js ''session'' then rt_sessionID route else None)"

definition scopeForRoute :: "tui_route \<Rightarrow> js_string \<Rightarrow> TuiScope option" where
  "scopeForRoute route directory =
     (case route_session route of
        None \<Rightarrow> None
      | Some i \<Rightarrow> if directory = [] then None else Some \<lparr> sc_sessionID = i, sc_directory = directory \<rparr>)"

definition scopeMatchesRoute :: "tui_route \<Rightarrow> js_string \<Rightarrow> TuiScope \<Rightarrow> bool" where
  "scopeMatchesRoute route directory scope = (scopeForRoute route directory = Some scope)"

definition ownerForRoute ::
  "server_env \<Rightarrow> tui_route \<Rightarrow> TuiSession option \<Rightarrow> js_string \<Rightarrow> (js_string, OwnerContext option) result" where
  "ownerForRoute env route session activeDirectory =
     (case (route_session route, session) of
        (Some i, Some s) \<Rightarrow>
          if ts_id s \<noteq> i \<or> ts_directory s = [] then Inr None
          else and_then (ownerContext env i (ts_directory s)) (\<lambda>ow.
            if activeDirectory = [] then Inr (Some ow)
            else and_then (ownerContext env i activeDirectory) (\<lambda>active.
              if ow_projectDirectory active \<noteq> ow_projectDirectory ow then Inr None else Inr (Some ow)))
      | _ \<Rightarrow> Inr None)"

definition ownerMatchesRoute ::
  "server_env \<Rightarrow> tui_route \<Rightarrow> js_string \<Rightarrow> OwnerContext \<Rightarrow> (js_string, bool) result" where
  "ownerMatchesRoute env route activeDirectory ow =
     (case route_session route of
        None \<Rightarrow> Inr False
      | Some i \<Rightarrow>
          if i = [] \<or> i \<noteq> ow_parentSessionId ow \<or> activeDirectory = [] then Inr False
          else and_then (ownerContext env i activeDirectory) (\<lambda>active.
            Inr (ow_projectDirectory active = ow_projectDirectory ow)))"

definition canClaimApproval :: "int \<Rightarrow> ApprovalRequest \<Rightarrow> bool" where
  "canClaimApproval now q \<longleftrightarrow>
     rq_status q = Pending \<and> rq_uiEligible q = Some True \<and> after_option (rq_uiExpiresAt q) now"

text \<open>The answer to a claim is a claim only if it carries a token and a claimed request.\<close>

fun isApprovalClaim :: "approval_result \<Rightarrow> bool" where
  "isApprovalClaim (R_claim q token) = (token \<noteq> [] \<and> rq_status q = Claimed)"
| "isApprovalClaim _ = False"

section \<open>Texts\<close>

fun approval_status_text :: "ApprovalStatus \<Rightarrow> js_string" where
  "approval_status_text Pending = js ''pending''"
| "approval_status_text Claimed = js ''claimed''"
| "approval_status_text Native_fallback = js ''native_fallback''"
| "approval_status_text Approved_once = js ''approved_once''"
| "approval_status_text Approved_session = js ''approved_session''"
| "approval_status_text Rejected = js ''rejected''"
| "approval_status_text Cancelled = js ''cancelled''"
| "approval_status_text Expired = js ''expired''"
| "approval_status_text Consumed = js ''consumed''"

fun lifecycle_name :: "SessionLifecycle \<Rightarrow> js_string" where
  "lifecycle_name Conversation = js ''conversation''"
| "lifecycle_name Persistent = js ''persistent''"

definition commandPreview :: "js_string \<Rightarrow> js_string list \<Rightarrow> js_string" where
  "commandPreview cmd as = redactPreview (cmd @ js '' '' @ join_with (js '' '') as)"

definition sessionCard :: "PTYSessionInfo \<Rightarrow> js_string" where
  "sessionCard s =
     join_with [LF]
       [js ''opencode-pty | '' @ (if pi_mode s = Mode_exec then js ''foreground'' else js ''background'') @ js '' | '' @
          lifecycle_name (pi_lifecycle s),
        redactPreview (pi_title s) @ js '' | '' @ status_text (pi_status s),
        commandPreview (pi_command s) (pi_args s)]"

definition approvalSummary :: "ApprovalRequest \<Rightarrow> js_string" where
  "approvalSummary q = approval_status_text (rq_status q) @ js '' | '' @ commandPreview (rq_command q) []"

definition approvalDetails :: "ApprovalRequest \<Rightarrow> js_string" where
  "approvalDetails q =
     join_with [LF]
       [js ''Command: '' @ commandPreview (rq_command q) [],
        js ''Reason: '' @ (case truthy_text (rq_reason q) of None \<Rightarrow> js ''Not provided'' | Some t \<Rightarrow> redactPreview t),
        js ''Workdir: '' @ redactPreview (rq_workdir q)]"

definition grantSummary :: "ApprovalGrant \<Rightarrow> js_string" where
  "grantSummary g = redactPreview (gr_workdir g)"

text \<open>\<open>None\<close> is a rejection that is not an \<open>Error\<close>.\<close>

definition errorMessage :: "js_string option \<Rightarrow> js_string" where
  "errorMessage e =
     (case truthy_text (map_option redactPreview e) of
        None \<Rightarrow> js ''PTY companion request failed.''
      | Some detail \<Rightarrow> js ''PTY companion request failed: '' @ detail)"

section \<open>The current owner\<close>

record tui_host =
  ho_route :: tui_route
  ho_directory :: js_string

definition isCurrentOwner :: "server_env \<Rightarrow> tui_host \<Rightarrow> OwnerContext option \<Rightarrow> (js_string, bool) result" where
  "isCurrentOwner env h ow =
     (case ow of None \<Rightarrow> Inr False | Some x \<Rightarrow> ownerMatchesRoute env (ho_route h) (ho_directory h) x)"

text \<open>The expected session is \<open>None\<close> where the argument is absent; an empty one is not checked either.\<close>

definition currentScope :: "tui_host \<Rightarrow> js_string option \<Rightarrow> TuiScope option" where
  "currentScope h expected =
     (case scopeForRoute (ho_route h) (ho_directory h) of
        None \<Rightarrow> None
      | Some scope \<Rightarrow>
          (case truthy_text expected of
             None \<Rightarrow> Some scope
           | Some i \<Rightarrow> if sc_sessionID scope = i then Some scope else None))"

definition scopeIsCurrent :: "tui_host \<Rightarrow> TuiScope \<Rightarrow> bool" where
  "scopeIsCurrent h scope = scopeMatchesRoute (ho_route h) (ho_directory h) scope"

text \<open>
  \<open>currentOwner\<close> reads the route, asks the host for the session of the scope and waits. \<open>owner_answer\<close> is what it
  does with the answer: \<open>route\<close> is the route it has read, \<open>h\<close> the host at the time of the answer.
\<close>

definition owner_answer ::
  "server_env \<Rightarrow> tui_route \<Rightarrow> TuiScope \<Rightarrow> tui_host \<Rightarrow> TuiSession option \<Rightarrow> (js_string, OwnerContext option) result" where
  "owner_answer env route scope h session =
     and_then (ownerForRoute env route session (sc_directory scope)) (\<lambda>ow.
       if \<not> scopeIsCurrent h scope then Inr None
       else and_then (isCurrentOwner env h ow) (\<lambda>current. Inr (if current then ow else None)))"

definition sameOwner :: "OwnerContext \<Rightarrow> OwnerContext \<Rightarrow> bool" where
  "sameOwner left right \<longleftrightarrow>
     ow_parentSessionId left = ow_parentSessionId right \<and> ow_projectDirectory left = ow_projectDirectory right"

section \<open>The panel\<close>

record panel_data =
  pd_sessions :: "PTYSessionInfo list"
  pd_requests :: "ApprovalRequest list"
  pd_grants :: "ApprovalGrant list"

definition no_data :: panel_data where
  "no_data = \<lparr> pd_sessions = [], pd_requests = [], pd_grants = [] \<rparr>"

text \<open>
  A refresh that waits: for the session of its scope, with the route it has read, or for the three lists of
  an owner. Several refreshes may wait at the same time.
\<close>

datatype refresh_wait =
    Await_session TuiScope tui_route
  | Await_lists TuiScope OwnerContext

record tui_panel =
  pn_sessionID :: js_string
  pn_data :: panel_data
  pn_error :: "js_string option"
  pn_displayedOwner :: "OwnerContext option"
  pn_timer :: "TuiScope option"
  pn_stopped :: bool
  pn_waits :: "(nat, refresh_wait) js_map"
  pn_next :: nat

definition new_panel :: "js_string \<Rightarrow> tui_panel" where
  "new_panel i = \<lparr> pn_sessionID = i, pn_data = no_data, pn_error = None, pn_displayedOwner = None, pn_timer = None,
     pn_stopped = False, pn_waits = [], pn_next = 0 \<rparr>"

definition clear_panel :: "tui_panel \<Rightarrow> tui_panel" where
  "clear_panel p = p\<lparr> pn_displayedOwner := None, pn_data := no_data, pn_error := None \<rparr>"

definition wait_for :: "refresh_wait \<Rightarrow> tui_panel \<Rightarrow> tui_panel" where
  "wait_for w p = p\<lparr> pn_waits := map_set (pn_waits p) (pn_next p) w, pn_next := Suc (pn_next p) \<rparr>"

text \<open>
  The handler of a failed refresh. It may itself throw while it asks for the owner of the route, and then
  changes nothing.
\<close>

definition refresh_failed :: "server_env \<Rightarrow> tui_host \<Rightarrow> TuiScope \<Rightarrow> js_string option \<Rightarrow> tui_panel \<Rightarrow> tui_panel" where
  "refresh_failed env h scope e p =
     (if pn_stopped p \<or> pn_sessionID p \<noteq> sc_sessionID scope \<or> \<not> scopeIsCurrent h scope then p
      else if pn_displayedOwner p = None \<or> isCurrentOwner env h (pn_displayedOwner p) = Inr True
      then p\<lparr> pn_data := no_data, pn_error := Some (errorMessage e) \<rparr>
      else p)"

definition refresh :: "server_env \<Rightarrow> tui_host \<Rightarrow> TuiScope option \<Rightarrow> tui_panel \<Rightarrow> tui_panel" where
  "refresh env h scope p =
     (if pn_stopped p then p
      else case scope of
        None \<Rightarrow> clear_panel p
      | Some sc \<Rightarrow>
          if pn_sessionID p \<noteq> sc_sessionID sc \<or> \<not> scopeIsCurrent h sc then clear_panel p
          else
            (let ask = wait_for (Await_session sc (ho_route h)) in
             case pn_displayedOwner p of
               None \<Rightarrow> ask p
             | Some ow \<Rightarrow>
                 (case ownerMatchesRoute env (ho_route h) (ho_directory h) ow of
                    Inl e \<Rightarrow> refresh_failed env h sc (Some e) p
                  | Inr current \<Rightarrow> ask (if current then p else clear_panel p))))"

definition session_answered ::
  "server_env \<Rightarrow> tui_host \<Rightarrow> TuiScope \<Rightarrow> tui_route \<Rightarrow> (js_string option, TuiSession option) result \<Rightarrow> tui_panel \<Rightarrow> tui_panel" where
  "session_answered env h scope route answer p =
     (case answer of
        Inl e \<Rightarrow> refresh_failed env h scope e p
      | Inr session \<Rightarrow>
          (case owner_answer env route scope h session of
             Inl e \<Rightarrow> refresh_failed env h scope (Some e) p
           | Inr None \<Rightarrow> clear_panel p
           | Inr (Some ow) \<Rightarrow>
               wait_for (Await_lists scope ow)
                 (case pn_displayedOwner p of
                    None \<Rightarrow> p
                  | Some shown \<Rightarrow> if sameOwner shown ow then p else clear_panel p)))"

definition lists_answered ::
  "server_env \<Rightarrow> tui_host \<Rightarrow> TuiScope \<Rightarrow> OwnerContext \<Rightarrow> (js_string option, panel_data) result \<Rightarrow> tui_panel \<Rightarrow> tui_panel" where
  "lists_answered env h scope ow answer p =
     (case answer of
        Inl e \<Rightarrow> refresh_failed env h scope e p
      | Inr data \<Rightarrow>
          if pn_stopped p \<or> pn_sessionID p \<noteq> sc_sessionID scope \<or> \<not> scopeIsCurrent h scope then p
          else (case isCurrentOwner env h (Some ow) of
              Inl e \<Rightarrow> refresh_failed env h scope (Some e) p
            | Inr False \<Rightarrow> p
            | Inr True \<Rightarrow> p\<lparr> pn_displayedOwner := Some ow, pn_data := data, pn_error := None \<rparr>))"

text \<open>
  The effect that runs when the panel is shown and when the route or the directory changes. The second component says
  whether it came to its end: it throws when the directory of the route cannot be resolved.
\<close>

definition panel_effect :: "server_env \<Rightarrow> tui_host \<Rightarrow> tui_panel \<Rightarrow> tui_panel \<times> bool" where
  "panel_effect env h p =
     (let p = p\<lparr> pn_timer := None \<rparr>;
          scope = currentScope h (Some (pn_sessionID p));
          start = (\<lambda>sc p. (refresh env h (Some sc) p)\<lparr> pn_timer := Some sc \<rparr>)
      in case scope of
           None \<Rightarrow> (clear_panel p, True)
         | Some sc \<Rightarrow>
             (case pn_displayedOwner p of
                None \<Rightarrow> (start sc p, True)
              | Some ow \<Rightarrow>
                  (case ownerMatchesRoute env (ho_route h) (ho_directory h) ow of
                     Inl _ \<Rightarrow> (p, False)
                   | Inr current \<Rightarrow> (start sc (if current then p else clear_panel p), True))))"

text \<open>The texts of the panel, from top to bottom.\<close>

definition panel_view :: "tui_panel \<Rightarrow> js_string list" where
  "panel_view p =
     [js ''PTY companion'',
      decimal (length (pd_sessions (pn_data p))) @ js '' sessions | '' @ decimal (length (pd_requests (pn_data p))) @
        js '' approvals''] @
     (case truthy_text (pn_error p) of None \<Rightarrow> [] | Some e \<Rightarrow> [e]) @
     map sessionCard (pd_sessions (pn_data p)) @ map approvalDetails (pd_requests (pn_data p)) @
     map (\<lambda>g. js ''grant | '' @ grantSummary g) (pd_grants (pn_data p))"

section \<open>Runs of the panel\<close>

text \<open>
  The host changes its route and directory at any time, the effect runs, the timer fires, the answers of the host
  and of the daemon arrive in any order, and the panel is removed. \<open>tu_synced\<close> says that the effect has come
  to its end since the host moved, \<open>tu_asked\<close> with which owner the daemon was asked, and where the host was.
\<close>

record tui =
  tu_host :: tui_host
  tu_panel :: tui_panel
  tu_synced :: bool
  tu_asked :: "(tui_host \<times> OwnerContext) list"

datatype tui_event =
    Host_moves tui_host
  | Effect_runs
  | Timer_fires
  | Session_answer nat "(js_string option, TuiSession option) result"
  | Lists_answer nat "(js_string option, panel_data) result"
  | Panel_removed

definition settle :: "nat \<Rightarrow> tui_panel \<Rightarrow> tui_panel" where
  "settle k p = p\<lparr> pn_waits := map_delete (pn_waits p) k \<rparr>"

fun tui_step :: "server_env \<Rightarrow> tui \<Rightarrow> tui_event \<Rightarrow> tui" where
  "tui_step env t (Host_moves h) = t\<lparr> tu_host := h, tu_synced := False \<rparr>"
| "tui_step env t Effect_runs =
     (if pn_stopped (tu_panel t) then t
      else case panel_effect env (tu_host t) (tu_panel t) of (p, done') \<Rightarrow> t\<lparr> tu_panel := p, tu_synced := done' \<rparr>)"
| "tui_step env t Timer_fires =
     (case pn_timer (tu_panel t) of
        None \<Rightarrow> t
      | Some sc \<Rightarrow> t\<lparr> tu_panel := refresh env (tu_host t) (Some sc) (tu_panel t) \<rparr>)"
| "tui_step env t (Session_answer k answer) =
     (case map_get (pn_waits (tu_panel t)) k of
        Some (Await_session sc route) \<Rightarrow>
          t\<lparr> tu_panel := session_answered env (tu_host t) sc route answer (settle k (tu_panel t)),
             tu_asked := (case answer of
                 Inr session \<Rightarrow> (case owner_answer env route sc (tu_host t) session of
                   Inr (Some ow) \<Rightarrow> tu_asked t @ [(tu_host t, ow)] | _ \<Rightarrow> tu_asked t)
               | _ \<Rightarrow> tu_asked t) \<rparr>
      | _ \<Rightarrow> t)"
| "tui_step env t (Lists_answer k answer) =
     (case map_get (pn_waits (tu_panel t)) k of
        Some (Await_lists sc ow) \<Rightarrow>
          t\<lparr> tu_panel := lists_answered env (tu_host t) sc ow answer (settle k (tu_panel t)) \<rparr>
      | _ \<Rightarrow> t)"
| "tui_step env t Panel_removed = t\<lparr> tu_panel := (tu_panel t)\<lparr> pn_stopped := True, pn_timer := None \<rparr> \<rparr>"

lemma ownerMatchesRoute_iff:
  "ownerMatchesRoute env route dir ow = Inr True \<longleftrightarrow>
     route_session route = Some (ow_parentSessionId ow) \<and> ow_parentSessionId ow \<noteq> [] \<and> dir \<noteq> [] \<and>
     realpath env dir = Some (ow_projectDirectory ow)"
  by (auto simp: ownerMatchesRoute_def ownerContext_def and_then_def split: option.splits)

lemma scopeIsCurrent_iff:
  "scopeIsCurrent h sc \<longleftrightarrow>
     route_session (ho_route h) = Some (sc_sessionID sc) \<and> ho_directory h = sc_directory sc \<and> sc_directory sc \<noteq> []"
  by (cases sc) (auto simp: scopeIsCurrent_def scopeMatchesRoute_def scopeForRoute_def split: option.splits)

abbreviation owner_current :: "server_env \<Rightarrow> tui_host \<Rightarrow> OwnerContext \<Rightarrow> bool" where
  "owner_current env h ow \<equiv> ownerMatchesRoute env (ho_route h) (ho_directory h) ow = Inr True"

lemma owner_answer_current:
  "owner_answer env route sc h session = Inr (Some ow) \<Longrightarrow> owner_current env h ow"
  by (auto simp: owner_answer_def isCurrentOwner_def and_then_def split: sum.splits option.splits if_splits)

text \<open>
  What the panel shows belongs to the owner it is shown for, which is of the session of the panel, and which is the owner of the
  route when the effect has followed the route.
\<close>

definition shows_only ::
  "server_env \<Rightarrow> (OwnerContext \<Rightarrow> panel_data \<Rightarrow> bool) \<Rightarrow> bool \<Rightarrow> tui_host \<Rightarrow> tui_panel \<Rightarrow> bool" where
  "shows_only env belongs synced h p =
     (case pn_displayedOwner p of
        None \<Rightarrow> pn_data p = no_data
      | Some ow \<Rightarrow> (pn_data p = no_data \<or> belongs ow (pn_data p)) \<and> ow_parentSessionId ow = pn_sessionID p \<and>
          (synced \<longrightarrow> owner_current env h ow))"

lemma shows_only_frame [simp]:
  "shows_only env belongs synced h (clear_panel p)"
  "shows_only env belongs synced h (wait_for w p) = shows_only env belongs synced h p"
  "shows_only env belongs synced h (settle k p) = shows_only env belongs synced h p"
  "shows_only env belongs synced h (p\<lparr> pn_timer := x \<rparr>) = shows_only env belongs synced h p"
  "shows_only env belongs synced h (p\<lparr> pn_stopped := b \<rparr>) = shows_only env belongs synced h p"
  by (simp_all add: shows_only_def clear_panel_def wait_for_def settle_def split: option.split)

lemma refresh_failed_shows: "shows_only env belongs synced h p \<Longrightarrow> shows_only env belongs synced h (refresh_failed env h sc e p)"
  by (auto simp: shows_only_def refresh_failed_def split: option.splits)

lemma refresh_shows: "shows_only env belongs synced h p \<Longrightarrow> shows_only env belongs synced h (refresh env h sc p)"
  by (auto simp: refresh_def Let_def refresh_failed_shows split: option.splits sum.splits)

lemma session_answered_shows:
  "shows_only env belongs synced h p \<Longrightarrow> shows_only env belongs synced h (session_answered env h sc route a p)"
  by (auto simp: session_answered_def refresh_failed_shows split: option.splits sum.splits)

lemma lists_answered_shows:
  assumes "shows_only env belongs synced h p" "\<And>data. a = Inr data \<Longrightarrow> belongs ow data"
  shows "shows_only env belongs synced h (lists_answered env h sc ow a p)"
proof -
  have "shows_only env belongs synced h (p\<lparr> pn_displayedOwner := Some ow, pn_data := data, pn_error := None \<rparr>)"
    if "a = Inr data" "owner_current env h ow" "scopeIsCurrent h sc" "pn_sessionID p = sc_sessionID sc" for data
    using that assms(2) [of data] by (auto simp: shows_only_def ownerMatchesRoute_iff scopeIsCurrent_iff)
  with assms(1) show ?thesis
    by (auto simp: lists_answered_def isCurrentOwner_def refresh_failed_shows split: sum.splits bool.splits)
qed

text \<open>The effect follows the route, whatever was shown before.\<close>

lemma shows_unsynced: "shows_only env belongs synced h' p \<Longrightarrow> shows_only env belongs False h p"
  by (auto simp: shows_only_def split: option.splits)

lemma panel_effect_shows:
  assumes "shows_only env belongs False h p" "panel_effect env h p = (p', d)"
  shows "shows_only env belongs d h p'"
proof (cases "currentScope h (Some (pn_sessionID p))")
  case None
  with assms(2) show ?thesis by (auto simp: panel_effect_def Let_def)
next
  case (Some sc)
  show ?thesis
  proof (cases "pn_displayedOwner p")
    case None
    with assms(1) have "shows_only env belongs True h (p\<lparr> pn_timer := None \<rparr>)" by (simp add: shows_only_def)
    from refresh_shows [OF this, of "Some sc"]
    show ?thesis using assms(2) Some None by (auto simp: panel_effect_def Let_def)
  next
    case (Some ow)
    note shown = this
    show ?thesis
    proof (cases "ownerMatchesRoute env (ho_route h) (ho_directory h) ow")
      case (Inl e)
      with assms shown \<open>currentScope h (Some (pn_sessionID p)) = Some sc\<close> show ?thesis by (auto simp: panel_effect_def Let_def)
    next
      case (Inr current)
      let ?q = "if current then p\<lparr> pn_timer := None \<rparr> else clear_panel (p\<lparr> pn_timer := None \<rparr>)"
      have "shows_only env belongs True h ?q" using assms(1) shown Inr by (auto simp: shows_only_def clear_panel_def)
      from refresh_shows [OF this, of "Some sc"] show ?thesis
        using assms(2) shown Inr \<open>currentScope h (Some (pn_sessionID p)) = Some sc\<close> by (auto simp: panel_effect_def Let_def)
    qed
  qed
qed

definition tui_inv :: "server_env \<Rightarrow> (OwnerContext \<Rightarrow> panel_data \<Rightarrow> bool) \<Rightarrow> tui \<Rightarrow> bool" where
  "tui_inv env belongs t \<longleftrightarrow>
     shows_only env belongs (tu_synced t) (tu_host t) (tu_panel t) \<and> (\<forall>(h, ow)\<in>set (tu_asked t). owner_current env h ow)"

text \<open>The daemon answers with data of the owner it was asked for.\<close>

definition answers_belong :: "(OwnerContext \<Rightarrow> panel_data \<Rightarrow> bool) \<Rightarrow> tui \<Rightarrow> tui_event \<Rightarrow> bool" where
  "answers_belong belongs t e =
     (case e of
        Lists_answer k (Inr data) \<Rightarrow>
          (case map_get (pn_waits (tu_panel t)) k of Some (Await_lists sc ow) \<Rightarrow> belongs ow data | _ \<Rightarrow> True)
      | _ \<Rightarrow> True)"

lemma tui_step_inv:
  assumes i: "tui_inv env belongs t" and e: "answers_belong belongs t e"
  shows "tui_inv env belongs (tui_step env t e)"
proof (cases e)
  case (Host_moves h)
  with i shows_unsynced show ?thesis by (auto simp: tui_inv_def)
next
  case Effect_runs
  obtain p d where p: "panel_effect env (tu_host t) (tu_panel t) = (p, d)" by force
  from i have "shows_only env belongs False (tu_host t) (tu_panel t)" using shows_unsynced by (auto simp: tui_inv_def)
  from panel_effect_shows [OF this p] show ?thesis using i Effect_runs p by (simp add: tui_inv_def)
next
  case Timer_fires
  with i refresh_shows show ?thesis by (auto simp: tui_inv_def split: option.splits)
next
  case (Session_answer k a)
  show ?thesis
  proof (cases "\<exists>sc route. map_get (pn_waits (tu_panel t)) k = Some (Await_session sc route)")
    case True
    then obtain sc route where w: "map_get (pn_waits (tu_panel t)) k = Some (Await_session sc route)" by blast
    have "shows_only env belongs (tu_synced t) (tu_host t) (session_answered env (tu_host t) sc route a (settle k (tu_panel t)))"
      using i by (intro session_answered_shows) (simp add: tui_inv_def)
    with i w Session_answer owner_answer_current show ?thesis
      by (auto simp: tui_inv_def split: sum.splits option.splits)
  qed (use i Session_answer in \<open>auto split: option.splits refresh_wait.splits\<close>)
next
  case (Lists_answer k a)
  show ?thesis
  proof (cases "\<exists>sc ow. map_get (pn_waits (tu_panel t)) k = Some (Await_lists sc ow)")
    case True
    then obtain sc ow where w: "map_get (pn_waits (tu_panel t)) k = Some (Await_lists sc ow)" by blast
    have "shows_only env belongs (tu_synced t) (tu_host t) (lists_answered env (tu_host t) sc ow a (settle k (tu_panel t)))"
      by (rule lists_answered_shows) (use i e w Lists_answer in \<open>auto simp: tui_inv_def answers_belong_def\<close>)
    with i w Lists_answer show ?thesis by (simp add: tui_inv_def)
  qed (use i Lists_answer in \<open>auto split: option.splits refresh_wait.splits\<close>)
qed (use i in \<open>simp add: tui_inv_def\<close>)

interpretation tui_runs: invariant_system "tui_step env" "answers_belong belongs" "tui_inv env belongs" for env belongs
  by unfold_locales (rule tui_step_inv)

section \<open>The dialogs\<close>

datatype option_action = No_action | Claim_request js_string | Revoke_grant js_string

record review_option =
  op_title :: js_string
  op_value :: js_string
  op_description :: js_string
  op_action :: option_action

datatype ui_effect =
    Dialog_cleared
  | Warned js_string
  | Failed js_string
  | Review_shown TuiScope OwnerContext "review_option list"
  | Decisions_shown js_string js_string
  | Reviewed_again

text \<open>A dialog gives the calls it makes, with the host at the time of the call, and what it shows.\<close>

type_synonym ui_call = "tui_host \<times> OwnerContext \<times> client_method"

definition approvalOption :: "int \<Rightarrow> ApprovalRequest \<Rightarrow> review_option" where
  "approvalOption now q =
     (let claimable = canClaimApproval now q in
      \<lparr> op_title = (if claimable then js ''Claim: '' else []) @ approvalSummary q, op_value = rq_id q,
        op_description = approvalDetails q @ [LF, LF] @
          (if claimable then js ''Available briefly before native fallback.''
           else js ''Native OpenCode approval remains authoritative.''),
        op_action = (if claimable then Claim_request (rq_id q) else No_action) \<rparr>)"

definition grant_option :: "(timestamp \<Rightarrow> js_string) \<Rightarrow> ApprovalGrant \<Rightarrow> review_option" where
  "grant_option shown g =
     \<lparr> op_title = js ''Revoke: '' @ grantSummary g, op_value = gr_id g,
       op_description = js ''Expires '' @ shown (gr_expiresAt g), op_action = Revoke_grant (gr_id g) \<rparr>"

definition dialogIsCurrent :: "server_env \<Rightarrow> tui_host \<Rightarrow> TuiScope \<Rightarrow> OwnerContext \<Rightarrow> (js_string, bool) result" where
  "dialogIsCurrent env h scope ow = (if scopeIsCurrent h scope then isCurrentOwner env h (Some ow) else Inr False)"

definition ui_caught :: "js_string option \<Rightarrow> ui_effect list" where
  "ui_caught e = [Dialog_cleared, Failed (errorMessage e)]"

text \<open>The end of an action: the dialog goes on if it is still the dialog of the route.\<close>

definition if_still_current ::
  "server_env \<Rightarrow> tui_host \<Rightarrow> TuiScope \<Rightarrow> OwnerContext \<Rightarrow> ui_effect list \<Rightarrow> ui_effect list" where
  "if_still_current env h scope ow effects =
     (case dialogIsCurrent env h scope ow of
        Inl e \<Rightarrow> ui_caught (Some e) | Inr False \<Rightarrow> [Dialog_cleared] | Inr True \<Rightarrow> effects)"

definition reviewApprovals ::
  "server_env \<Rightarrow> (timestamp \<Rightarrow> js_string) \<Rightarrow> int \<Rightarrow> tui_host \<Rightarrow> tui_host \<Rightarrow> (js_string option, TuiSession option) result \<Rightarrow>
   tui_host \<Rightarrow> (js_string option, ApprovalRequest list \<times> ApprovalGrant list) result \<Rightarrow> ui_call list \<times> ui_effect list" where
  "reviewApprovals env shown now h0 h1 session h2 found =
     (let warn = ([], [Warned (js ''Open a session before reviewing PTY approvals.'')]) in
      case currentScope h0 None of
        None \<Rightarrow> warn
      | Some scope \<Rightarrow>
          (case session of
             Inl _ \<Rightarrow> ([], [])
           | Inr s \<Rightarrow>
               (case owner_answer env (ho_route h0) scope h1 s of
                  Inl _ \<Rightarrow> ([], [])
                | Inr None \<Rightarrow> warn
                | Inr (Some ow) \<Rightarrow>
                    ([(h1, ow, Do_listApprovalRequests), (h1, ow, Do_listApprovalGrants)],
                     case found of
                       Inl e \<Rightarrow> ui_caught e
                     | Inr (rs, gs) \<Rightarrow>
                         if_still_current env h2 scope ow
                           [Review_shown scope ow (map (approvalOption now) rs @ map (grant_option shown) gs)]))))"

text \<open>
  The owner an action works for: the owner of the route at the time, if it is the owner the dialog was opened for.
\<close>

definition acting_owner ::
  "server_env \<Rightarrow> TuiScope \<Rightarrow> OwnerContext \<Rightarrow> tui_host \<Rightarrow> tui_host \<Rightarrow> (js_string option, TuiSession option) result \<Rightarrow>
   (js_string option, OwnerContext option) result" where
  "acting_owner env scope ow h0 h1 session =
     (case session of
        Inl e \<Rightarrow> Inl e
      | Inr s \<Rightarrow>
          (case owner_answer env (ho_route h0) scope h1 s of
             Inl e \<Rightarrow> Inl (Some e)
           | Inr None \<Rightarrow> Inr None
           | Inr (Some acting) \<Rightarrow> Inr (if sameOwner acting ow then Some acting else None)))"

definition revokeGrant ::
  "server_env \<Rightarrow> OwnerContext \<Rightarrow> TuiScope \<Rightarrow> js_string \<Rightarrow> tui_host \<Rightarrow> tui_host \<Rightarrow> (js_string option, TuiSession option) result \<Rightarrow>
   tui_host \<Rightarrow> (js_string option, unit) result \<Rightarrow> ui_call list \<times> ui_effect list" where
  "revokeGrant env ow scope i h0 h1 session h2 answer =
     (case acting_owner env scope ow h0 h1 session of
        Inl e \<Rightarrow> ([], ui_caught e)
      | Inr None \<Rightarrow> ([], ui_caught (Some (js ''Open the owning session before revoking its grant.'')))
      | Inr (Some acting) \<Rightarrow>
          if \<not> scopeIsCurrent h1 scope
          then ([], ui_caught (Some (js ''Open the owning session before revoking its grant.'')))
          else ([(h1, acting, Do_revokeApprovalGrant i)],
            case answer of Inl e \<Rightarrow> ui_caught e | Inr _ \<Rightarrow> if_still_current env h2 scope acting [Reviewed_again]))"

definition claimApproval ::
  "server_env \<Rightarrow> OwnerContext \<Rightarrow> TuiScope \<Rightarrow> js_string \<Rightarrow> tui_host \<Rightarrow> tui_host \<Rightarrow> (js_string option, TuiSession option) result \<Rightarrow>
   tui_host \<Rightarrow> (js_string option, approval_result) result \<Rightarrow> ui_call list \<times> ui_effect list" where
  "claimApproval env ow scope i h0 h1 session h2 answer =
     (case acting_owner env scope ow h0 h1 session of
        Inl e \<Rightarrow> ([], ui_caught e)
      | Inr None \<Rightarrow> ([], [Dialog_cleared])
      | Inr (Some acting) \<Rightarrow>
          ([(h1, acting, Do_claimApproval i)],
           case answer of
             Inl e \<Rightarrow> ui_caught e
           | Inr res \<Rightarrow>
               if_still_current env h2 scope acting
                 (case res of
                    R_claim q token \<Rightarrow>
                      if isApprovalClaim res \<and> rq_id q = i then [Decisions_shown i token]
                      else [Dialog_cleared, Warned (js ''Approval is no longer available.'')]
                  | _ \<Rightarrow> [Dialog_cleared, Warned (js ''Approval is no longer available.'')])))"

definition decideApproval ::
  "server_env \<Rightarrow> OwnerContext \<Rightarrow> TuiScope \<Rightarrow> js_string \<Rightarrow> js_string \<Rightarrow> decision \<Rightarrow> tui_host \<Rightarrow> tui_host \<Rightarrow>
   (js_string option, TuiSession option) result \<Rightarrow> tui_host \<Rightarrow> (js_string option, approval_result) result \<Rightarrow>
   ui_call list \<times> ui_effect list" where
  "decideApproval env ow scope i claimToken d h0 h1 session h2 answer =
     (case acting_owner env scope ow h0 h1 session of
        Inl e \<Rightarrow> ([], ui_caught e)
      | Inr None \<Rightarrow> ([], [Dialog_cleared])
      | Inr (Some acting) \<Rightarrow>
          ([(h1, acting, Do_decideApproval i d claimToken)],
           case answer of Inl e \<Rightarrow> ui_caught e | Inr _ \<Rightarrow> if_still_current env h2 scope acting [Reviewed_again]))"

text \<open>
  The dialog of the decisions: selecting one while another is under way does nothing, and the end of a decision,
  however it ends, lets the next one be selected.
\<close>

definition decision_options :: "(js_string \<times> decision) list" where
  "decision_options =
     [(js ''Approve once'', Approve_once), (js ''Approve session'', Approve_session), (js ''Reject'', Reject)]"

datatype decision_event = Selected decision | Decision_settled

fun decision_step :: "bool \<Rightarrow> decision_event \<Rightarrow> decision option \<times> bool" where
  "decision_step deciding (Selected d) = (if deciding then (None, True) else (Some d, True))"
| "decision_step deciding Decision_settled = (None, False)"


section \<open>What the panel shows\<close>

definition new_tui :: "tui_host \<Rightarrow> js_string \<Rightarrow> tui" where
  "new_tui h i = \<lparr> tu_host = h, tu_panel = new_panel i, tu_synced = False, tu_asked = [] \<rparr>"

lemma new_tui_inv: "tui_inv env belongs (new_tui h i)"
  by (simp add: tui_inv_def new_tui_def new_panel_def shows_only_def)

lemma tui_session_fixed: "pn_sessionID (tu_panel (tui_step env t e)) = pn_sessionID (tu_panel t)"
proof -
  have [simp]: "pn_sessionID (clear_panel p) = pn_sessionID p" "pn_sessionID (wait_for w p) = pn_sessionID p"
    "pn_sessionID (settle k p) = pn_sessionID p" "pn_sessionID (refresh_failed env h sc x p) = pn_sessionID p" for p w k h sc x
    by (simp_all add: clear_panel_def wait_for_def settle_def refresh_failed_def)
  have [simp]: "pn_sessionID (refresh env h sc p) = pn_sessionID p" for h sc p
    by (auto simp: refresh_def Let_def split: option.splits sum.splits)
  have [simp]: "pn_sessionID (session_answered env h sc route a p) = pn_sessionID p" for h sc route a p
    by (auto simp: session_answered_def split: option.splits sum.splits)
  have [simp]: "pn_sessionID (lists_answered env h sc ow a p) = pn_sessionID p" for h sc ow a p
    by (auto simp: lists_answered_def split: sum.splits bool.splits)
  have [simp]: "pn_sessionID (fst (panel_effect env h p)) = pn_sessionID p" for h p
    by (auto simp: panel_effect_def Let_def split: option.splits sum.splits)
  show ?thesis
    by (cases e) (auto simp: case_prod_unfold split: option.splits refresh_wait.splits)
qed

lemma tui_run_session: "pn_sessionID (tu_panel (tui_runs.run env t es)) = pn_sessionID (tu_panel t)"
  by (induction es arbitrary: t) (simp_all add: tui_session_fixed)

text \<open>
  C18: the panel of a session never shows data of another owner. Whatever the order in which the host moves, the effect
  and the timer run and the answers to any number of overlapping refreshes arrive: what is shown belongs to an owner
  of the panel's session; when the effect has run since the last move of the host, that session is the session of the
  route and the project of the owner is the directory of the host; and every owner for which the daemon was asked for the lists was
  the owner of the route when it was asked.
\<close>

theorem panel_shows_current_owner:
  fixes env :: server_env and belongs :: "OwnerContext \<Rightarrow> panel_data \<Rightarrow> bool"
  assumes "tui_runs.run_enabled env belongs (new_tui h0 i) es"
  defines "t \<equiv> tui_runs.run env (new_tui h0 i) es"
  shows "(pn_data (tu_panel t) \<noteq> no_data \<longrightarrow>
      (\<exists>ow. belongs ow (pn_data (tu_panel t)) \<and> ow_parentSessionId ow = i \<and>
        (tu_synced t \<longrightarrow> route_session (ho_route (tu_host t)) = Some i \<and>
           realpath env (ho_directory (tu_host t)) = Some (ow_projectDirectory ow)))) \<and>
    (\<forall>(h, ow)\<in>set (tu_asked t).
      route_session (ho_route h) = Some (ow_parentSessionId ow) \<and>
      realpath env (ho_directory h) = Some (ow_projectDirectory ow))"
proof -
  have inv: "tui_inv env belongs t"
    unfolding t_def using assms(1) by (intro tui_runs.run_inv new_tui_inv)
  have i: "pn_sessionID (tu_panel t) = i"
    by (simp add: t_def tui_run_session) (simp add: new_tui_def new_panel_def)
  from inv i show ?thesis
    by (auto simp: tui_inv_def shows_only_def ownerMatchesRoute_iff split: option.splits)
qed

definition owned_data :: "OwnerContext \<Rightarrow> panel_data \<Rightarrow> bool" where
  "owned_data ow data \<longleftrightarrow>
     list_all (owned_request ow) (pd_requests data) \<and> list_all (owned_grant ow) (pd_grants data)"

definition session_host :: "js_string \<Rightarrow> tui_host" where
  "session_host i =
     \<lparr> ho_route = \<lparr> rt_name = js ''session'', rt_sessionID = Some i \<rparr>, ho_directory = js ''/w'' \<rparr>"

definition sample_ui_request :: ApprovalRequest where
  "sample_ui_request = new_request (js ''r1'') sample_client_owner it_command 0 sample_intent 60 (Some 10)"

text \<open>
  The panel of \<open>ses_1\<close> is shown, its lists are asked for, the host goes to another session and back, and the
  lists arrive.
\<close>

definition sample_visit :: "tui_event list" where
  "sample_visit =
     [Effect_runs, Session_answer 0 (Inr (Some \<lparr> ts_id = js ''ses_1'', ts_directory = js ''/w'' \<rparr>)),
      Host_moves (session_host (js ''ses_2'')), Effect_runs, Host_moves (session_host (js ''ses_1'')), Effect_runs,
      Lists_answer 1 (Inr \<lparr> pd_sessions = [], pd_requests = [sample_ui_request], pd_grants = [] \<rparr>)]"

lemmas tui_eval =
  panel_effect_def currentScope_def scopeForRoute_def route_session_def refresh_def clear_panel_def wait_for_def
  scopeIsCurrent_def scopeMatchesRoute_def session_answered_def owner_answer_def ownerForRoute_def ownerMatchesRoute_def
  isCurrentOwner_def ownerContext_def and_then_def lists_answered_def settle_def sameOwner_def Let_def

lemma sample_visit_run:
  "tui_runs.run_enabled sample_client_env owned_data (new_tui (session_host (js ''ses_1'')) (js ''ses_1'')) sample_visit \<and>
   pd_requests (pn_data (tu_panel (tui_runs.run sample_client_env (new_tui (session_host (js ''ses_1'')) (js ''ses_1'')) sample_visit))) =
     [sample_ui_request] \<and>
   tu_synced (tui_runs.run sample_client_env (new_tui (session_host (js ''ses_1'')) (js ''ses_1'')) sample_visit)"
  by (simp add: sample_visit_def new_tui_def new_panel_def tui_eval session_host_def sample_client_env_def answers_belong_def owned_data_def
      sample_ui_request_def new_request_def owned_request_def sample_client_owner_def no_data_def truthy_text_def)

theorem panel_shows_current_owner_witness:
  "\<exists>ow. owned_data ow (pn_data (tu_panel (tui_runs.run sample_client_env
        (new_tui (session_host (js ''ses_1'')) (js ''ses_1'')) sample_visit))) \<and> ow_parentSessionId ow = js ''ses_1''"
  using panel_shows_current_owner [of sample_client_env owned_data "session_host (js ''ses_1'')" "js ''ses_1''" sample_visit]
    sample_visit_run by (auto simp: no_data_def)


section \<open>What the dialogs do\<close>

lemma acting_owner_current:
  "acting_owner env scope ow h0 h1 session = Inr (Some acting) \<Longrightarrow> sameOwner acting ow \<and> owner_current env h1 acting"
  by (auto simp: acting_owner_def owner_answer_current split: sum.splits option.splits if_splits)

lemma if_still_current_iff:
  "Decisions_shown j token \<in> set (if_still_current env h scope ow effects) \<longleftrightarrow>
     Decisions_shown j token \<in> set effects \<and> scopeIsCurrent h scope \<and> owner_current env h ow"
  by (auto simp: if_still_current_def dialogIsCurrent_def isCurrentOwner_def ui_caught_def split: sum.splits bool.splits)

lemma acting_owner_route:
  assumes "acting_owner env scope ow h0 h1 session = Inr (Some acting)"
  shows "sameOwner acting ow \<and> route_session (ho_route h1) = Some (ow_parentSessionId ow) \<and>
    realpath env (ho_directory h1) = Some (ow_projectDirectory ow)"
  using acting_owner_current [OF assms] by (auto simp: sameOwner_def ownerMatchesRoute_iff)

lemma claim_call:
  "(h, acting, call) \<in> set (fst (claimApproval env ow scope i h0 h1 session h2 claimed)) \<Longrightarrow>
   h = h1 \<and> call = Do_claimApproval i \<and> acting_owner env scope ow h0 h1 session = Inr (Some acting)"
  by (auto simp: claimApproval_def split: sum.splits option.splits)

lemma decide_call:
  "(h, acting, call) \<in> set (fst (decideApproval env ow scope i token d h0 h1 session h2 decided)) \<Longrightarrow>
   h = h1 \<and> call = Do_decideApproval i d token \<and> acting_owner env scope ow h0 h1 session = Inr (Some acting)"
  by (auto simp: decideApproval_def split: sum.splits option.splits)

lemma revoke_call:
  "(h, acting, call) \<in> set (fst (revokeGrant env ow scope i h0 h1 session h2 revoked)) \<Longrightarrow>
   h = h1 \<and> call = Do_revokeApprovalGrant i \<and> acting_owner env scope ow h0 h1 session = Inr (Some acting)"
  by (auto simp: revokeGrant_def split: sum.splits option.splits if_splits)

lemma decisions_offered:
  assumes "Decisions_shown j t \<in> set (snd (claimApproval env ow scope i h0 h1 session h2 claimed))"
  shows "j = i \<and> (\<exists>q. claimed = Inr (R_claim q t) \<and> rq_id q = i \<and> rq_status q = Claimed \<and> t \<noteq> []) \<and>
    route_session (ho_route h2) = Some (ow_parentSessionId ow) \<and>
    realpath env (ho_directory h2) = Some (ow_projectDirectory ow)"
proof -
  have "\<exists>acting res. acting_owner env scope ow h0 h1 session = Inr (Some acting) \<and> claimed = Inr res \<and>
      owner_current env h2 acting \<and> j = i \<and> (\<exists>q. res = R_claim q t \<and> rq_id q = i \<and> rq_status q = Claimed \<and> t \<noteq> [])"
    using assms
    by (auto simp: claimApproval_def if_still_current_iff ui_caught_def split: sum.splits option.splits approval_result.splits if_splits)
  then obtain acting res where *: "acting_owner env scope ow h0 h1 session = Inr (Some acting)" "claimed = Inr res"
      "owner_current env h2 acting" "j = i" "\<exists>q. res = R_claim q t \<and> rq_id q = i \<and> rq_status q = Claimed \<and> t \<noteq> []" by blast
  with acting_owner_current [OF *(1)] show ?thesis by (auto simp: sameOwner_def ownerMatchesRoute_iff)
qed

text \<open>
  C19: a dialog acts only for the owner it was opened for, and only while the route shows that owner. Every claim, decision and
  revocation is sent for an owner that is the owner of the route when the call is made and has the session and the project
  of the dialog's owner, whatever the host did since the dialog was opened; the decisions are offered only for the request that
  was selected, after the daemon answered that it is claimed, with the token of that answer, and while the route still shows the owner.
\<close>

theorem dialogs_act_for_their_owner:
  "((h, acting, call) \<in> set (fst (claimApproval env ow scope i h0 h1 session h2 claimed)) \<union>
      set (fst (decideApproval env ow scope i token d h0 h1 session h2 decided)) \<union>
      set (fst (revokeGrant env ow scope i h0 h1 session h2 revoked)) \<longrightarrow>
    h = h1 \<and> sameOwner acting ow \<and> route_session (ho_route h1) = Some (ow_parentSessionId ow) \<and>
    realpath env (ho_directory h1) = Some (ow_projectDirectory ow) \<and>
    call \<in> {Do_claimApproval i, Do_decideApproval i d token, Do_revokeApprovalGrant i}) \<and>
   (Decisions_shown j t \<in> set (snd (claimApproval env ow scope i h0 h1 session h2 claimed)) \<longrightarrow>
    j = i \<and> (\<exists>q. claimed = Inr (R_claim q t) \<and> rq_id q = i \<and> rq_status q = Claimed \<and> t \<noteq> []) \<and>
    route_session (ho_route h2) = Some (ow_parentSessionId ow) \<and>
    realpath env (ho_directory h2) = Some (ow_projectDirectory ow))"
proof (intro conjI impI)
  assume "(h, acting, call) \<in> set (fst (claimApproval env ow scope i h0 h1 session h2 claimed)) \<union>
      set (fst (decideApproval env ow scope i token d h0 h1 session h2 decided)) \<union>
      set (fst (revokeGrant env ow scope i h0 h1 session h2 revoked))"
  then have "h = h1 \<and> call \<in> {Do_claimApproval i, Do_decideApproval i d token, Do_revokeApprovalGrant i} \<and>
      acting_owner env scope ow h0 h1 session = Inr (Some acting)"
    by (auto dest: claim_call decide_call revoke_call)
  with acting_owner_route [of env scope ow h0 h1 session acting]
  show "h = h1" "sameOwner acting ow" "route_session (ho_route h1) = Some (ow_parentSessionId ow)"
    "realpath env (ho_directory h1) = Some (ow_projectDirectory ow)"
    "call \<in> {Do_claimApproval i, Do_decideApproval i d token, Do_revokeApprovalGrant i}" by simp_all
qed (use decisions_offered in blast)+

text \<open>The whole way of an approval through the dialogs, with the daemon's answers.\<close>

lemma open_dialog:
  assumes "owner_answer env (ho_route h) scope h session = Inr (Some ow)"
  shows "acting_owner env scope ow h h (Inr session) = Inr (Some ow)" "if_still_current env h scope ow effects = effects"
proof -
  show "acting_owner env scope ow h h (Inr session) = Inr (Some ow)"
    using assms by (simp add: acting_owner_def sameOwner_def)
  have "scopeIsCurrent h scope"
    using assms by (auto simp: owner_answer_def and_then_def split: sum.splits if_splits)
  with owner_answer_current [OF assms] show "if_still_current env h scope ow effects = effects"
    by (simp add: if_still_current_def dialogIsCurrent_def isCurrentOwner_def)
qed

lemma claim_answer:
  assumes "req st i = Some q" "owned_request ow q" "canClaimApproval now q" "\<not> due (rq_expiresAt q) now"
  defines "q' \<equiv> q\<lparr> rq_status := Claimed, rq_claimExpiresAt := Some (toISOString (now + CLAIM_LEASE_MS)),
      rq_updatedAt := toISOString now \<rparr>"
  shows "\<exists>st1. approvalClaim now token ow i st = (Inr (R_claim q' token), st1) \<and> req st1 i = Some q' \<and>
    map_get (claimTokens st1) i = Some token"
proof -
  have "rq_id q = i" using req_id [OF assms(1)] .
  have nd: "\<not> due_option (rq_uiExpiresAt q) now"
    using assms(3) by (auto simp: canClaimApproval_def after_option_def due_option_def after_def due_def split: option.splits)
  have r: "refreshApproval now q tokens = (q, tokens)" for tokens
    using assms(3,4) nd by (auto simp: refreshApproval_def canClaimApproval_def)
  have f: "find (\<lambda>q. rq_id q = i) (requests (ledger st)) = Some q" using assms(1) by (simp add: req_def)
  show ?thesis
    using assms(2,3) f r find_put [of i _ "requests (ledger st)"] \<open>rq_id q = i\<close>
    by (simp add: approvalClaim_def withApprovals_def with_owned_def approvalOwned_def canClaimApproval_def Let_def q'_def req_def
        set_request_def find_put)
qed

lemma decide_answer:
  fixes d :: decision
  assumes "req st i = Some q" "owned_request ow q" "rq_status q = Claimed" "map_get (claimTokens st) i = Some token"
    and "\<not> due (rq_expiresAt q) now" "\<not> due_option (rq_claimExpiresAt q) now"
  defines "q' \<equiv> q\<lparr> rq_status := decision_status d, rq_claimExpiresAt := None, rq_updatedAt := toISOString now \<rparr>"
  shows "\<exists>st1. approvalDecide now fresh ow i d (Inr token) st = (Inr (R_request q'), st1) \<and> req st1 i = Some q' \<and>
    (d = Approve_session \<longrightarrow> grant_for fresh ow now q' \<in> set (grants (ledger st1)))"
proof -
  have i: "rq_id q = i" using req_id [OF assms(1)] .
  have r: "refreshApproval now q tokens = (q, tokens)" for tokens
    using assms(3,5,6) by (auto simp: refreshApproval_def)
  have f: "find (\<lambda>q. rq_id q = i) (requests (ledger st)) = Some q" using assms(1) by (simp add: req_def)
  have "rq_status q' \<noteq> Claimed" by (cases d) (simp_all add: q'_def)
  then show ?thesis
    using assms(2-4) f r i
    by (cases d) (simp_all add: approvalDecide_def withApprovals_def with_owned_def approvalOwned_def Let_def q'_def req_def
        set_request_def find_put)
qed

text \<open>
  C20: a request that the review offers can be decided. While the route stays with the owner, a request that may be claimed is
  claimed by the dialog, which then offers the decisions with the token of the daemon; a decision that is selected before the
  claim and the request expire is sent with that token, is accepted by the daemon, which records it for the request, and which records a grant
  for a decision for the session.
\<close>

theorem offered_approval_is_decided:
  assumes "owner_answer env (ho_route h) scope h (Some s) = Inr (Some ow)"
    and "req st i = Some q" "owned_request ow q" "op_action (approvalOption now q) = Claim_request i" "token \<noteq> []"
    and "now \<le> later" "later < now + CLAIM_LEASE_MS" "\<not> due (rq_expiresAt q) later"
  shows "\<exists>q1 st1 q2 st2.
      claimApproval env ow scope i h h (Inr (Some s)) h (Inr (R_claim q1 token)) =
        ([(h, ow, Do_claimApproval i)], [Decisions_shown i token]) \<and>
      approvalClaim now token ow i st = (Inr (R_claim q1 token), st1) \<and>
      decideApproval env ow scope i token d h h (Inr (Some s)) h (Inr (R_request q2)) =
        ([(h, ow, Do_decideApproval i d token)], [Reviewed_again]) \<and>
      approvalDecide later fresh ow i d (Inr token) st1 = (Inr (R_request q2), st2) \<and>
      req st2 i = Some q2 \<and> rq_status q2 = decision_status d \<and>
      (d = Approve_session \<longrightarrow> grant_for fresh ow later q2 \<in> set (grants (ledger st2)))"
proof -
  let ?q1 = "q\<lparr> rq_status := Claimed, rq_claimExpiresAt := Some (toISOString (now + CLAIM_LEASE_MS)),
      rq_updatedAt := toISOString now \<rparr>"
  let ?q2 = "?q1\<lparr> rq_status := decision_status d, rq_claimExpiresAt := None, rq_updatedAt := toISOString later \<rparr>"
  have can: "canClaimApproval now q" using assms(4) by (simp add: approvalOption_def Let_def split: if_splits)
  have nd: "\<not> due (rq_expiresAt q) now" using assms(6,8) by (auto simp: due_def split: option.splits)
  have i: "rq_id q = i" using req_id [OF assms(2)] .
  from claim_answer [OF assms(2,3) can nd] obtain st1 where c:
    "approvalClaim now token ow i st = (Inr (R_claim ?q1 token), st1)" "req st1 i = Some ?q1" "map_get (claimTokens st1) i = Some token"
    by blast
  have o1: "owned_request ow ?q1" using assms(3) by (simp add: owned_request_def)
  have l: "\<not> due_option (rq_claimExpiresAt ?q1) later" using assms(7) by (simp add: due_option_def due_def)
  have "rq_status ?q1 = Claimed" "\<not> due (rq_expiresAt ?q1) later" using assms(8) by simp_all
  from decide_answer [OF c(2) o1 this(1) c(3) this(2) l] obtain st2 where dd:
    "approvalDecide later fresh ow i d (Inr token) st1 = (Inr (R_request ?q2), st2)" "req st2 i = Some ?q2"
    "d = Approve_session \<longrightarrow> grant_for fresh ow later ?q2 \<in> set (grants (ledger st2))" by blast
  have "claimApproval env ow scope i h h (Inr (Some s)) h (Inr (R_claim ?q1 token)) =
        ([(h, ow, Do_claimApproval i)], [Decisions_shown i token])"
    using assms(5) i by (simp add: claimApproval_def open_dialog [OF assms(1)])
  moreover have "decideApproval env ow scope i token d h h (Inr (Some s)) h (Inr (R_request ?q2)) =
        ([(h, ow, Do_decideApproval i d token)], [Reviewed_again])"
    by (simp add: decideApproval_def open_dialog [OF assms(1)])
  moreover have "rq_status ?q2 = decision_status d" by simp
  ultimately show ?thesis using c(1) dd by blast
qed


text \<open>Instances.\<close>

definition sample_ui_scope :: TuiScope where
  "sample_ui_scope = \<lparr> sc_sessionID = js ''ses_1'', sc_directory = js ''/w'' \<rparr>"

definition sample_ui_session :: TuiSession where
  "sample_ui_session = \<lparr> ts_id = js ''ses_1'', ts_directory = js ''/w'' \<rparr>"

definition sample_ui_ledger :: approval_state where
  "sample_ui_ledger = \<lparr> ledger = \<lparr> requests = [sample_ui_request], grants = [] \<rparr>, claimTokens = [] \<rparr>"

lemma sample_ui_owner:
  "owner_answer sample_client_env (ho_route (session_host (js ''ses_1''))) sample_ui_scope (session_host (js ''ses_1''))
     (Some sample_ui_session) = Inr (Some sample_client_owner)"
  by (simp add: tui_eval session_host_def sample_ui_scope_def sample_ui_session_def sample_client_env_def sample_client_owner_def)

lemma sample_ui_claimable: "canClaimApproval 0 sample_ui_request"
  by (simp add: canClaimApproval_def sample_ui_request_def new_request_def after_option_def after_def)

theorem dialogs_act_for_their_owner_witness:
  "route_session (ho_route (session_host (js ''ses_1''))) = Some (ow_parentSessionId sample_client_owner) \<and>
   (\<exists>q. R_claim (sample_ui_request\<lparr> rq_status := Claimed \<rparr>) (js ''t'') = R_claim q (js ''t'') \<and> rq_status q = Claimed)"
proof -
  let ?h = "session_host (js ''ses_1'')" and ?q = "sample_ui_request\<lparr> rq_status := Claimed \<rparr>"
  have i: "rq_id sample_ui_request = js ''r1''" by (simp add: sample_ui_request_def new_request_def)
  have c: "claimApproval sample_client_env sample_client_owner sample_ui_scope (js ''r1'') ?h ?h (Inr (Some sample_ui_session)) ?h
      (Inr (R_claim ?q (js ''t''))) =
      ([(?h, sample_client_owner, Do_claimApproval (js ''r1''))], [Decisions_shown (js ''r1'') (js ''t'')])"
    using i open_dialog [OF sample_ui_owner] by (simp add: claimApproval_def)
  show ?thesis
    using dialogs_act_for_their_owner [of ?h sample_client_owner "Do_claimApproval (js ''r1'')" sample_client_env sample_client_owner
        sample_ui_scope "js ''r1''" ?h ?h "Inr (Some sample_ui_session)" ?h "Inr (R_claim ?q (js ''t''))" "js ''t''" Reject "Inl None" "Inl None"
        "js ''r1''" "js ''t''"]
    unfolding c by simp
qed

theorem offered_approval_is_decided_witness:
  "\<exists>q1 st1 q2 st2.
      approvalClaim 0 (js ''t'') sample_client_owner (js ''r1'') sample_ui_ledger = (Inr (R_claim q1 (js ''t'')), st1) \<and>
      approvalDecide 4999 (js ''g'') sample_client_owner (js ''r1'') Approve_session (Inr (js ''t'')) st1 = (Inr (R_request q2), st2) \<and>
      rq_status q2 = Approved_session \<and> grant_for (js ''g'') sample_client_owner 4999 q2 \<in> set (grants (ledger st2))"
proof -
  have "req sample_ui_ledger (js ''r1'') = Some sample_ui_request" "owned_request sample_client_owner sample_ui_request"
    "op_action (approvalOption 0 sample_ui_request) = Claim_request (js ''r1'')" "\<not> due (rq_expiresAt sample_ui_request) 4999"
    using sample_ui_claimable
    by (simp_all add: sample_ui_ledger_def sample_ui_request_def req_def new_request_def owned_request_def sample_client_owner_def
        approvalOption_def Let_def due_def)
  from offered_approval_is_decided [OF sample_ui_owner this(1-3), of "js ''t''" 4999 Approve_session "js ''g''"] this(4)
  show ?thesis by (simp add: CLAIM_LEASE_MS_def) blast
qed

end
