(* ===== verification/Spec2Isabelle.thy ===== *)
theory Spec2Isabelle
  imports Session_Migration Daemon_Process Bash_Tool Worker_Client Companion
begin

text \<open>
  Verification of opencode-pty, a plugin that gives an assistant durable terminal sessions.

  \<^bold>\<open>The program.\<close> The plugin (\<open>src/src/plugin\<close>) offers tools; each tool talks through a client to one
  daemon per data directory (\<open>src/src/daemon\<close>), over HTTP on the loopback interface. The daemon's server
  authenticates a request, derives and checks the owner it speaks for, and hands it to the approval
  service or to the session supervisor. The supervisor keeps one record per session, moves it along a
  state machine as its worker process reports, counts it against the quotas of its owner in a registry,
  stores it with its output on disk, and recovers the sessions when the daemon starts again. A start lock
  makes sure that one daemon owns the data directory.

  \<^bold>\<open>Theories and sources.\<close>
  \<^item> \<open>Prelude\<close>: JavaScript values (strings as UTF-16 code units, \<open>Map\<close> and \<open>Set\<close> as association lists and
    lists, results as sums), the locale \<open>invariant_system\<close> of step functions with an inductive invariant,
    and the lemma collections.
  \<^item> \<open>Types\<close>, \<open>Json\<close>: \<open>daemon/types.ts\<close>, \<open>limits.ts\<close>, \<open>errors.ts\<close>: the session record, its state and
    evidence, timestamps with \<open>Date.parse\<close> and \<open>toISOString\<close>, error codes, JSON values.
  \<^item> \<open>Lifecycle\<close>: \<open>daemon/lifecycle.ts\<close>, the reducer of session states, its projection onto the flat record
    and back, the flat status machine it refines.
  \<^item> \<open>Session_Registry\<close>: \<open>daemon/session-registry.ts\<close>, quotas of sessions, records, output, waits and input.
    The two owner indexes share the locale \<open>owner_index\<close>.
  \<^item> \<open>Journal\<close>, \<open>Journal_Reader\<close>: the output chunks of \<open>daemon/storage.ts\<close> and \<open>daemon/journal-reader.ts\<close>.
  \<^item> \<open>Session_Store\<close>, \<open>Session_Migration\<close>: the metadata file of a session in \<open>daemon/storage.ts\<close>, and the load of the
    data directory: records of every version, their import with the old output, quarantine.
  \<^item> \<open>Session_Router\<close>: \<open>daemon/session-router.ts\<close>, the lanes that serialize the tasks of a session.
  \<^item> \<open>Runtime_Environment\<close>, \<open>Supervision\<close>, \<open>Supervisor\<close>, \<open>Supervisor_Waits\<close>, \<open>Supervisor_Sessions\<close>,
    \<open>Supervisor_Runs\<close>: \<open>daemon/supervisor.ts\<close>, from the environment of a command to runs of the whole
    supervisor. What the operations of one lane keep is the locale \<open>lane_relation\<close>, interpreted for the ledger, the
    queue of writes, the waits, and for touching only certain sessions.
  \<^item> \<open>Approvals\<close>, \<open>Rpc\<close>: \<open>daemon/server.ts\<close>, the approval service, the validation and dispatch of requests.
  \<^item> \<open>Daemon_Server\<close>, \<open>Daemon_Process\<close>: \<open>daemon/server.ts\<close> over the supervisor, runs of the daemon under requests of any
    clients, its start and stop, \<open>daemon/main.ts\<close> and \<open>plugin.ts\<close>.
  \<^item> \<open>Start_Lock\<close>: the lock files of \<open>daemon/storage.ts\<close> as a protocol of processes.
  \<^item> \<open>Daemon_Client\<close>, \<open>Daemon_Startup\<close>: \<open>plugin/pty/daemon-client.ts\<close>, the protocol and the start of the daemon.
  \<^item> \<open>Redaction\<close>, \<open>Worker_Stderr\<close>, \<open>Worker_Client\<close>: \<open>daemon/worker-client.ts\<close>, redaction of the standard error of
    a worker, descriptors, receipts and references, preparing, starting, reconnecting and ending a worker.
  \<^item> \<open>Permissions\<close>: \<open>plugin/pty/permissions.ts\<close>, \<open>wildcard.ts\<close>, the local permission policy.
  \<^item> \<open>Xml\<close>, \<open>Tools\<close>, \<open>Bash_Tool\<close>: \<open>plugin/pty/xml.ts\<close>, \<open>formatters.ts\<close> and \<open>plugin/pty/tools\<close>.
  \<^item> \<open>Preview\<close>, \<open>Companion\<close>: \<open>tui-state.ts\<close> and \<open>tui.tsx\<close>, the redaction of previews with a matcher for its regular
    expressions, the panel of the terminal user interface as a state machine, and its dialogs.

  \<^bold>\<open>How the code is modelled.\<close> A definition has the name of the function it models, and a branch for every
  early return and every \<open>throw\<close>. State is passed explicitly: the fields of a class are a record, a method
  returns its answer with the new record. Outcomes of input and output (a write that fails, an answer of a
  worker, of the host or of the file system, an abort) are arguments, so the theorems hold for all of them.
  Each operation sees one instant \<open>now\<close>; two calls of \<open>Date.now()\<close> in one synchronous stretch are not told
  apart. Asynchronous code is cut at its \<open>await\<close>s where another task can interfere: the supervisor's
  operations are steps over its record, lane tasks start in any order the lanes admit, start-lock
  operations interleave file access by file access. SHA-256, \<open>realpath\<close>, Unicode normalization and case
  mapping, JSON text, UTF-8 decoding, URLs, the regular expressions of searches, git and the digests of intents and
  specifications are parameters; a theorem that relies on one of them names what it relies on.

  \<^bold>\<open>What is shown.\<close>
  \<^item> Sessions: a session counts as finished only on proof that its processes are gone, over every run of
    lifecycle events and every sequence of worker snapshots, and then stays so; the detailed states refine
    the flat status; states survive their projection and their file. Every record a load returns is well
    formed, a second load changes nothing, and a record of an older version counts as finished only on the same proof.
  \<^item> Quotas: in every reachable registry the usage is within the limits and equals what the reservations and
    records say; the supervisor keeps it in step with its records over start-up, spawns that fail at any
    point, waits, input, clean-ups and restarts.
  \<^item> Output: what is appended is what is read; trimming keeps the longest suffix that fits; pages of the
    reader concatenate to the output; a wait answers only with what is there.
  \<^item> Authority: a request reaches only sessions of the owner whose capability it carries, so requests of others leave
    the record of a live session exactly as it is, and a new session is open to the owner of its request only; an approval is
    given by its owner only and consumed at most once; a tool starts only commands the policy allows or the
    user approved; what the client sends is what the server understands; at most one process holds the
    start lock, and the client launches at most one daemon, under it. The user interface shows and acts on
    data of the owner of its route only, whatever arrives late, and an approval it offers can be decided through it.
  \<^item> Texts: escaped text is markup free and can be recovered, the texts of the tools have exactly their own
    tags, startup diagnostics do not leak the start token, and the standard error of a worker is shown without
    its secrets however it is cut into pieces; previews hide the values of sensitive options.
  \<^item> Workers: a spawn counts as without a child, and a session is deleted on the word of a file, only on a
    receipt with the secret token of the worker; a reference leads back to its worker only.
  \<^item> Starts: the daemon is announced only when its sessions are loaded and it listens, and a failed start gives the lock back.
  \<^item> Endings: lanes make progress, waits for approvals and the start of the daemon end.

  \<^bold>\<open>Loops.\<close> Loops over data are structural recursions. Loops of unknown length take the list of what they see
  in each turn (the looks of \<open>ensureDaemon\<close>, the wake-ups of \<open>approvalWait\<close>, the attempts of
  \<open>createExclusiveLockFile\<close>, the reads of \<open>readReady\<close>), and end with \<open>None\<close> when the list does; the theorems on their end say which
  lists are long enough. There is no other fuel.

  \<^bold>\<open>Not modelled.\<close> The native worker (Rust), HTTP, sockets, timers and file-system calls themselves; the type checks of untyped JSON in
  \<open>daemon/storage.ts\<close>; Windows access control lists; the layout of the terminal user interface; the checkpoint scripts, tests and
  build scripts.
\<close>

section \<open>What the files of a worker prove to the supervisor\<close>

text \<open>
  The receipts \<open>cleanup\<close> finds are what the worker client makes of the files in the directory of the
  session: the two receipts and the descriptor of the worker.
\<close>

record worker_files =
  sf_prestart :: "json option"
  sf_worker :: "json option"
  sf_failure :: "json option"

definition receipts_found :: "(js_string \<Rightarrow> js_string) \<Rightarrow> worker_files \<Rightarrow> SessionRecord \<Rightarrow> cleanup_world \<Rightarrow> cleanup_world" where
  "receipts_found sha fs r cw =
     cw\<lparr> cw_prestart_receipt :=
           (case prestartReceiptAuthority r of None \<Rightarrow> False | Some a \<Rightarrow> hasVerifiedPrestartNoChildReceipt sha (sf_prestart fs) a),
         cw_no_child_receipt :=
           (case worker r of None \<Rightarrow> False | Some w \<Rightarrow> hasVerifiedNoChildSpawnFailureReceipt sha (sf_worker fs) (sf_failure fs) w) \<rparr>"

text \<open>A file with the control token of the worker whose fingerprint the record has.\<close>

definition has_token :: "(js_string \<Rightarrow> js_string) \<Rightarrow> SessionRecord \<Rightarrow> json option \<Rightarrow> bool" where
  "has_token sha r file \<longleftrightarrow>
     (\<exists>v t. file = Some v \<and> json_get v (js ''workerControlToken'') = Some (JStr t) \<and>
       ((\<exists>w. worker r = Some w \<and> wk_tokenFingerprint w = Some (sha t)) \<or> (\<exists>a. workerPrestart r = Some a \<and> pa_tokenFingerprint a = sha t)))"

lemma token_matchesD: "token_matches sha token (Some f) \<Longrightarrow> \<exists>t. token = Some (JStr t) \<and> sha t = f"
  by (auto simp: token_matches_def split: option.splits json.splits)

lemma prestart_receipt_token:
  assumes "prestartReceiptAuthority r = Some a" "hasVerifiedPrestartNoChildReceipt sha file a"
  shows "has_token sha r file"
proof -
  from assms(2) obtain v f where v: "file = Some v" "authority_fingerprint a = Some f"
    "token_matches sha (json_get v (js ''workerControlToken'')) (Some f)"
    by (auto simp: hasVerifiedPrestartNoChildReceipt_def verifiedPrestartNoChildReceipt_def split: option.splits)
  from token_matchesD [OF v(3)] obtain t where t: "json_get v (js ''workerControlToken'') = Some (JStr t)" "sha t = f" by blast
  have "(\<exists>w. worker r = Some w \<and> a = By_worker w) \<or> (\<exists>p. workerPrestart r = Some p \<and> a = By_prestart p)"
    using assms(1) by (auto simp: prestartReceiptAuthority_def or_else_def split: if_splits option.splits)
  then show ?thesis using v t unfolding has_token_def by auto
qed

lemma failure_receipt_token:
  assumes "worker r = Some w" "hasVerifiedNoChildSpawnFailureReceipt sha file receipt w"
  shows "has_token sha r receipt"
proof -
  from assms(2) obtain v f where v: "receipt = Some v" "wk_tokenFingerprint w = Some f"
    "token_matches sha (json_get v (js ''workerControlToken'')) (Some f)"
    by (auto simp: hasVerifiedNoChildSpawnFailureReceipt_def descriptorMatchesReference_def split: option.splits)
  then show ?thesis using token_matchesD [OF v(3)] assms(1) unfolding has_token_def by auto
qed

text \<open>
  C8: no file makes the daemon forget a session unless it carries the secret of the session's worker. A
  clean-up that deletes a session does so because the record itself shows that there never was a child or
  that it is gone, because the worker's answer to the shutdown proves it, or because of a receipt that
  contains a control token with the fingerprint stored when the worker was prepared.
\<close>

theorem deletion_on_authentic_receipt:
  assumes "cleanup pf (receipts_found sha fs r cw) i sv = (Inr True, sv')" "ledger_ok sv" "map_get (sv_records sv) i = Some r"
  shows "noChildSpawnFailure r \<or> terminalDirectChild pf r \<or> shutdown_proven pf cw \<or>
    has_token sha r (sf_prestart fs) \<or> has_token sha r (sf_failure fs)"
proof -
  let ?cw = "receipts_found sha fs r cw"
  have "gone_proof pf ?cw r" using cleanup_deletes [OF assms(1,2)] assms(3) by auto
  then consider "noChildSpawnFailure r" | "terminalDirectChild pf r" | "shutdown_proven pf ?cw"
    | "prestartReceiptAuthority r \<noteq> None" "cw_prestart_receipt ?cw" | "worker r \<noteq> None" "cw_no_child_receipt ?cw"
    by (auto simp: gone_proof_def hasVerifiedNoChildSpawnFailure_def)
  then show ?thesis
  proof cases
    case 3
    then show ?thesis by (simp add: shutdown_proven_def receipts_found_def)
  next
    case 4
    then show ?thesis using prestart_receipt_token by (fastforce simp: receipts_found_def)
  next
    case 5
    then show ?thesis using failure_receipt_token by (fastforce simp: receipts_found_def)
  qed simp_all
qed

definition waiting_session :: SessionRecord where
  "waiting_session = sample_record
     \<lparr> status := St_starting, worker := None, workerStartAttempted := Some False,
       workerPrestart := Some \<lparr> pa_workerId = js ''w1'', pa_tokenFingerprint = sample_digest, pa_protocolVersion = 5 \<rparr> \<rparr>"

definition sample_receipt :: worker_files where
  "sample_receipt =
     \<lparr> sf_prestart = Some (JObj [(js ''receiptVersion'', JNum 1), (js ''kind'', JStr (js ''prestart_no_child'')),
         (js ''workerId'', JStr (js ''w1'')), (js ''workerPid'', JNum 7), (js ''workerProcessIdentity'', JNull),
         (js ''workerEndpoint'', JNull), (js ''workerProtocolVersion'', JNum 5), (js ''workerControlToken'', JStr (js ''t''))]),
       sf_worker = None, sf_failure = None \<rparr>"

theorem deletion_on_authentic_receipt_witness:
  "has_token (\<lambda>_. sample_digest) waiting_session (sf_prestart sample_receipt)"
proof -
  let ?sv = "sample_supervisor waiting_session" and ?i = "session_id waiting_session"
  let ?cw = "receipts_found (\<lambda>_. sample_digest) sample_receipt waiting_session idle_world"
  have w: "noChildSpawnFailure waiting_session = False" "workerPrestart waiting_session \<noteq> None"
    by (simp_all add: waiting_session_def noChildSpawnFailure_def)
  have a: "prestartReceiptAuthority waiting_session =
      Some (By_prestart \<lparr> pa_workerId = js ''w1'', pa_tokenFingerprint = sample_digest, pa_protocolVersion = 5 \<rparr>)"
    by (simp add: prestartReceiptAuthority_def waiting_session_def or_else_def)
  have "hasVerifiedPrestartNoChildReceipt (\<lambda>_. sample_digest) (sf_prestart sample_receipt)
      (By_prestart \<lparr> pa_workerId = js ''w1'', pa_tokenFingerprint = sample_digest, pa_protocolVersion = 5 \<rparr>)"
    using sample_digest_hex
    by (simp add: hasVerifiedPrestartNoChildReceipt_def verifiedPrestartNoChildReceipt_def sample_receipt_def exactly_fields_def
        prestart_fields_def token_matches_def NATIVE_WORKER_PROTOCOL_VERSION_def)
  then have "cw_prestart_receipt ?cw" by (simp add: receipts_found_def a)
  moreover have "cw_rm_ok ?cw" by (simp add: receipts_found_def idle_world_def)
  ultimately have c: "cleanup Linux ?cw ?i ?sv = deleteNativeSession True ?i ?sv"
    using w a by (simp add: cleanup_def flushed_def sample_supervisor_def new_supervisor_def)
  have l: "ledger_ok ?sv" by (rule sample_ledger) (simp_all add: waiting_session_def ownerKey_def)
  have "fst (deleteNativeSession True ?i ?sv) = Inr True" by (simp add: deleteNativeSession_def Let_def)
  then obtain sv' where d: "cleanup Linux ?cw ?i ?sv = (Inr True, sv')" unfolding c by (cases "deleteNativeSession True ?i ?sv") simp
  have "\<not> terminalDirectChild Linux waiting_session" "\<not> shutdown_proven Linux idle_world" "\<not> has_token sha waiting_session None" for sha
    by (simp_all add: shutdown_proven_def idle_world_def has_token_def waiting_session_def terminalDirectChild_def sample_record_def)
  then show ?thesis using deletion_on_authentic_receipt [OF d l sample_lookup] w(1) by (simp add: sample_receipt_def)
qed

end
